(* ===== verification/Prelude.thy ===== *)
theory Prelude
  imports Complex_Main "HOL-Library.AList" "HOL-Library.Char_ord" "HOL-Library.List_Lexorder"
    "HOL-Library.Multiset"
begin

text \<open>
  What every component of the Go program shares: instants, machine integers, Go maps and the
  loops over them, \<open>sort.Slice\<close>, decimal rendering, trimming and error values; the contracts
  (locales) that the tables of the durable store fulfil.

  \<^item> An instant of \<open>time.Time\<close> is an \<open>int\<close>: nanoseconds since the zero instant of the Go
    type (1 January of year 1, UTC), so \<open>IsZero\<close> is equality with 0, \<open>Before\<close> is \<open><\<close>, and
    \<open>UTC()\<close>, which keeps the instant, is the identity. A \<open>time.Duration\<close> is an \<open>int\<close> too.
  \<^item> A \<open>float64\<close> is a \<open>real\<close>: comparisons, minima and maxima of finite values are
    exact; rounding of sums, products and quotients is modelled where the code depends on it, in
    the import of missions (theory \<open>Numbers\<close>), and nowhere else.
  \<^item> A Go \<open>map[string]T\<close> is an association list with distinct keys. Go leaves the order of
    \<open>range\<close> over a map open, the list fixes one: what depends on the order is what two
    permutations of one list tell apart.
  \<^item> A pointer to a scalar is an \<open>option\<close> (\<open>nil\<close> is \<open>None\<close>), a \<open>[]byte\<close> is a
    \<open>string\<close>. Defensive copies (\<open>append([]byte(nil), b...)\<close>) are the identity on values.
\<close>

named_theorems store_defs "definitions of the operations of the durable store"
named_theorems store_frame "fields an operation leaves alone"

section \<open>Definitions\<close>

type_synonym time = int
type_synonym duration = int
type_synonym bytes = string
type_synonym 'v gomap = "(string \<times> 'v) list"

abbreviation IsZero :: "time \<Rightarrow> bool" where
  "IsZero t \<equiv> t = 0"

definition second :: duration where
  "second = 1000000000"

subsection \<open>Signed 64-bit increments\<close>

text \<open>\<open>int\<close> and \<open>int64\<close> are 64 bits wide and wrap; the code only ever adds 1 to them.\<close>

definition inc64 :: "int \<Rightarrow> int" where
  "inc64 x = (x + 1 + 2 ^ 63) mod 2 ^ 64 - 2 ^ 63"

abbreviation max_int64 :: int where
  "max_int64 \<equiv> 2 ^ 63 - 1"

definition int64_range :: "int \<Rightarrow> bool" where
  "int64_range x \<longleftrightarrow> - (2 ^ 63) \<le> x \<and> x \<le> max_int64"

text \<open>\<open>uint64\<close> counters as naturals below \<open>2 ^ 64\<close>.\<close>

definition inc_uint64 :: "nat \<Rightarrow> nat" where
  "inc_uint64 n = (n + 1) mod 2 ^ 64"

subsection \<open>Decimal rendering\<close>

fun digits :: "nat \<Rightarrow> string" where
  "digits n = (if n < 10 then [char_of (48 + n)] else digits (n div 10) @ [char_of (48 + n mod 10)])"

declare digits.simps [simp del]

text \<open>\<open>strconv.Itoa\<close> and the verb \<open>d\<close> of \<open>fmt\<close>.\<close>

definition itoa :: "int \<Rightarrow> string" where
  "itoa i = (if i < 0 then CHR ''-'' # digits (nat (- i)) else digits (nat i))"

subsection \<open>Error values\<close>

text \<open>
  The sentinels of the store and of the services, an error made by \<open>fmt.Errorf\<close> (its text and
  the errors it wraps with the verb \<open>w\<close>), the response error of the DSS client, the findings of
  an import of a mission, which wrap \<open>ErrValidation\<close>, and \<open>errors.Join\<close>.
\<close>

record MissionValidationFinding =
  mvf_Severity :: string
  mvf_Code :: string
  mvf_Message :: string
  mvf_Sequence :: "int option"

datatype go_error =
    ErrNotFound
  | ErrAlreadyExists
  | ErrVersionConflict
  | ErrActiveIntent
  | ErrIdempotencyConflict
  | ErrInvalidMissionCoverageGeometry
  | ErrInvalidTransition
  | ErrActivationBlocked
  | ErrValidation
  | SCDResponseError int string
  | MissionValidationError "MissionValidationFinding list"
  | Errorf string "go_error list"
  | ErrJoin "go_error list"

type_synonym 'a result = "go_error + 'a"

fun join_strings :: "string \<Rightarrow> string list \<Rightarrow> string" where
  "join_strings sep [] = []"
| "join_strings sep [x] = x"
| "join_strings sep (x # y # xs) = x @ sep @ join_strings sep (y # xs)"

fun error_text :: "go_error \<Rightarrow> string" where
  "error_text ErrNotFound = ''not found''"
| "error_text ErrAlreadyExists = ''already exists''"
| "error_text ErrVersionConflict = ''version conflict''"
| "error_text ErrActiveIntent = ''aircraft already has an active operational intent''"
| "error_text ErrIdempotencyConflict = ''idempotency key was already used for a different request''"
| "error_text ErrInvalidMissionCoverageGeometry = ''invalid mission coverage geometry''"
| "error_text ErrInvalidTransition = ''invalid intent lifecycle transition''"
| "error_text ErrActivationBlocked = ''intent activation blocked''"
| "error_text ErrValidation = ''validation failed''"
| "error_text (SCDResponseError code body) = body"
| "error_text (MissionValidationError fs) =
     ''validation failed: mission validation produced '' @ itoa (int (length fs)) @ '' blocking finding(s)''"
| "error_text (Errorf msg ws) = msg"
| "error_text (ErrJoin es) = join_strings [CHR 0x0A] (map error_text es)"

text \<open>\<open>errors.Is(e, target)\<close>: the error or one it wraps is the target.\<close>

fun errors_Is :: "go_error \<Rightarrow> go_error \<Rightarrow> bool" where
  "errors_Is (Errorf msg ws) t \<longleftrightarrow> Errorf msg ws = t \<or> list_ex (\<lambda>w. errors_Is w t) ws"
| "errors_Is (ErrJoin es) t \<longleftrightarrow> ErrJoin es = t \<or> list_ex (\<lambda>w. errors_Is w t) es"
| "errors_Is (MissionValidationError fs) t \<longleftrightarrow> MissionValidationError fs = t \<or> t = ErrValidation"
| "errors_Is e t \<longleftrightarrow> e = t"

text \<open>\<open>fmt.Errorf("prefix: %w", e)\<close> and \<open>fmt.Errorf("%w: suffix", e)\<close>.\<close>

definition wrap :: "string \<Rightarrow> go_error \<Rightarrow> go_error" where
  "wrap prefix e = Errorf (prefix @ '': '' @ error_text e) [e]"

definition because :: "go_error \<Rightarrow> string \<Rightarrow> go_error" where
  "because e suffix = Errorf (error_text e @ '': '' @ suffix) [e]"

subsection \<open>Text\<close>

text \<open>The UTF-8 encodings of the runes with \<open>unicode.IsSpace\<close>.\<close>

definition space_runes :: "string list" where
  "space_runes =
     map (\<lambda>n. [char_of (n :: nat)]) [9, 10, 11, 12, 13, 32]
     @ map (\<lambda>n. [CHR 0xC2, char_of (n :: nat)]) [0x85, 0xA0]
     @ [[CHR 0xE1, CHR 0x9A, CHR 0x80]]
     @ map (\<lambda>n. [CHR 0xE2, CHR 0x80, char_of (n :: nat)])
         [0x80, 0x81, 0x82, 0x83, 0x84, 0x85, 0x86, 0x87, 0x88, 0x89, 0x8A, 0xA8, 0xA9, 0xAF]
     @ [[CHR 0xE2, CHR 0x81, CHR 0x9F], [CHR 0xE3, CHR 0x80, CHR 0x80]]"

definition strip1 :: "string list \<Rightarrow> string \<Rightarrow> string option" where
  "strip1 rs s =
     (case find (\<lambda>r. r \<noteq> [] \<and> take (length r) s = r) rs of
        None \<Rightarrow> None
      | Some r \<Rightarrow> Some (drop (length r) s))"

function strip :: "string list \<Rightarrow> string \<Rightarrow> string" where
  "strip rs s = (case strip1 rs s of None \<Rightarrow> s | Some s' \<Rightarrow> strip rs s')"
  by pat_completeness auto
termination
proof (relation "measure (length \<circ> snd)")
  fix rs s s' assume "strip1 rs s = Some s'"
  then obtain r where "r \<noteq> []" and "take (length r) s = r" and "s' = drop (length r) s"
    by (auto simp: strip1_def find_Some_iff split: option.splits)
  then show "((rs, s'), (rs, s)) \<in> measure (length \<circ> snd)" by (cases s) auto
qed simp

declare strip.simps [simp del]

definition TrimSpace :: "string \<Rightarrow> string" where
  "TrimSpace s = rev (strip (map rev space_runes) (rev (strip space_runes s)))"

text \<open>Visible ASCII characters, which no white space begins or ends with.\<close>

definition visible :: "char \<Rightarrow> bool" where
  "visible c \<longleftrightarrow> 0x20 < (of_char c :: nat) \<and> (of_char c :: nat) < 0x7f"

subsection \<open>Loops over maps and slices\<close>

text \<open>\<open>s[i] = v\<close> for the first element with the identity of \<open>v\<close>, else \<open>append\<close>.\<close>

fun upsert_by :: "('a \<Rightarrow> 'k) \<Rightarrow> 'a \<Rightarrow> 'a list \<Rightarrow> 'a list" where
  "upsert_by f v [] = [v]"
| "upsert_by f v (x # xs) = (if f x = f v then v # xs else x # upsert_by f v xs)"

text \<open>
  The selection loop \<open>for _, x := range xs { if current == nil || better(x, *current) {
  current = &x } }\<close>.
\<close>

definition keep_better :: "('a \<Rightarrow> 'a \<Rightarrow> bool) \<Rightarrow> 'a \<Rightarrow> 'a option \<Rightarrow> 'a option" where
  "keep_better better x cur =
     (case cur of None \<Rightarrow> Some x | Some c \<Rightarrow> if better x c then Some x else Some c)"

definition select_best :: "('a \<Rightarrow> 'a \<Rightarrow> bool) \<Rightarrow> 'a list \<Rightarrow> 'a option" where
  "select_best better xs = fold (keep_better better) xs None"

text \<open>Values of a map that pass a test, in the order of the list.\<close>

definition vals :: "'v gomap \<Rightarrow> 'v list" where
  "vals m = map snd m"

text \<open>
  \<open>sort.Slice(xs, less)\<close>. The library sorts in place and leaves the order of elements that are
  not comparable by \<open>less\<close> open; the model keeps their order.
\<close>

fun insert_slice :: "('a \<Rightarrow> 'a \<Rightarrow> bool) \<Rightarrow> 'a \<Rightarrow> 'a list \<Rightarrow> 'a list" where
  "insert_slice lt x [] = [x]"
| "insert_slice lt x (y # ys) =
     (if lt y x then y # insert_slice lt x ys else x # y # ys)"

definition sort_slice :: "('a \<Rightarrow> 'a \<Rightarrow> bool) \<Rightarrow> 'a list \<Rightarrow> 'a list" where
  "sort_slice lt xs = foldr (insert_slice lt) xs []"

section \<open>Lemmas\<close>

subsection \<open>Integers\<close>

lemma inc64_no_wrap [simp]:
  "int64_range x \<Longrightarrow> x < max_int64 \<Longrightarrow> inc64 x = x + 1"
  by (simp add: inc64_def int64_range_def)

lemma inc64_range [simp]: "int64_range (inc64 x)"
proof -
  have "0 \<le> (x + 1 + 2 ^ 63) mod 2 ^ 64" and "(x + 1 + 2 ^ 63) mod 2 ^ 64 < (2 ^ 64 :: int)"
    by simp_all
  then show ?thesis by (simp add: inc64_def int64_range_def)
qed

lemma inc64_neq: "int64_range x \<Longrightarrow> inc64 x \<noteq> x"
proof (cases "x < max_int64")
  case True
  then show "int64_range x \<Longrightarrow> ?thesis" by simp
next
  case False
  assume "int64_range x"
  with False have "x = max_int64" by (simp add: int64_range_def)
  then show ?thesis by (simp add: inc64_def)
qed

lemma inc_uint64_no_wrap: "n < 2 ^ 64 - 1 \<Longrightarrow> inc_uint64 n = Suc n"
  by (simp add: inc_uint64_def)

subsection \<open>Errors\<close>

lemma errors_Is_refl [simp]: "errors_Is e e"
  by (cases e) auto

lemma errors_Is_wrap [simp]:
  "t \<noteq> wrap p e \<Longrightarrow> errors_Is (wrap p e) t \<longleftrightarrow> errors_Is e t"
  by (auto simp: wrap_def)

lemma errors_Is_because [simp]: "errors_Is (because e s) e"
  by (simp add: because_def)

subsection \<open>Decimal text\<close>

lemma of_char_digit [simp]: "n < 10 \<Longrightarrow> of_char (char_of (48 + n) :: char) = (48 + n :: nat)"
  by simp

lemma digit_inj: "m < 10 \<Longrightarrow> n < 10 \<Longrightarrow> char_of (48 + m) = (char_of (48 + n) :: char) \<longleftrightarrow> m = (n :: nat)"
  by (metis add_left_cancel of_char_digit)

lemma digits_neq_Nil [simp]: "digits n \<noteq> []"
  by (subst digits.simps) simp

lemma digits_chars: "c \<in> set (digits n) \<Longrightarrow> 48 \<le> (of_char c :: nat) \<and> (of_char c :: nat) \<le> 57"
proof (induction n rule: digits.induct)
  case (1 n)
  have last: "n mod 10 < 10" by simp
  show ?case
  proof (cases "n < 10")
    case True
    with 1 show ?thesis by (subst (asm) digits.simps) auto
  next
    case False
    with 1(2) have "c \<in> set (digits (n div 10)) \<or> c = char_of (48 + n mod 10)"
      by (subst (asm) digits.simps) auto
    then show ?thesis using 1(1) [OF False] of_char_digit [OF last] by auto
  qed
qed

lemma digits_inj: "digits m = digits n \<Longrightarrow> m = n"
proof (induction m arbitrary: n rule: digits.induct)
  case (1 m)
  show ?case
  proof (cases "m < 10")
    case True
    then have dm: "digits m = [char_of (48 + m)]" by (subst digits.simps) simp
    show ?thesis
    proof (cases "n < 10")
      case nlt: True
      then have "digits n = [char_of (48 + n)]" by (subst digits.simps) simp
      with dm 1(2) digit_inj [OF True nlt] show ?thesis by simp
    next
      case False
      then have "digits n = digits (n div 10) @ [char_of (48 + n mod 10)]" by (subst digits.simps) simp
      with dm 1(2) show ?thesis by simp
    qed
  next
    case False
    then have dm: "digits m = digits (m div 10) @ [char_of (48 + m mod 10)]" by (subst digits.simps) simp
    show ?thesis
    proof (cases "n < 10")
      case True
      then have "digits n = [char_of (48 + n)]" by (subst digits.simps) simp
      with dm 1(2) show ?thesis using digits_neq_Nil [of "m div 10"] by simp
    next
      case nge: False
      then have "digits n = digits (n div 10) @ [char_of (48 + n mod 10)]" by (subst digits.simps) simp
      with dm 1(2) have "digits (m div 10) = digits (n div 10)"
        and "char_of (48 + m mod 10) = (char_of (48 + n mod 10) :: char)" by auto
      then have "m div 10 = n div 10" and "m mod 10 = n mod 10"
        using 1(1) [OF False] digit_inj [of "m mod 10" "n mod 10"] by auto
      then show ?thesis by (metis div_mult_mod_eq)
    qed
  qed
qed

lemma itoa_neq_Nil [simp]: "itoa i \<noteq> []"
  by (simp add: itoa_def)

lemma itoa_chars: "c \<in> set (itoa i) \<Longrightarrow> c = CHR ''-'' \<or> 48 \<le> (of_char c :: nat) \<and> (of_char c :: nat) \<le> 57"
  using digits_chars by (auto simp: itoa_def split: if_splits)

lemma itoa_no_colon [simp]: "CHR '':'' \<notin> set (itoa i)"
  using itoa_chars [of "CHR '':''" i] by auto

lemma itoa_no_nul [simp]: "CHR 0x00 \<notin> set (itoa i)"
  using itoa_chars [of "CHR 0x00" i] by auto

lemma digits_no_minus: "CHR ''-'' \<notin> set (digits n)"
  using digits_chars [of "CHR ''-''" n] by auto

lemma itoa_inj [simp]: "itoa i = itoa j \<longleftrightarrow> i = j"
proof
  assume eq: "itoa i = itoa j"
  have neg: "CHR ''-'' \<in> set (itoa k) \<longleftrightarrow> k < 0" for k
    using digits_no_minus by (simp add: itoa_def)
  from eq have "i < 0 \<longleftrightarrow> j < 0" using neg by metis
  with eq show "i = j" by (auto simp: itoa_def dest: digits_inj split: if_splits)
qed simp

text \<open>A text is split at its last separator in one way only.\<close>

lemma last_sep_inj:
  assumes eq: "a @ c # b = a' @ c # b'" and nb: "c \<notin> set b" and nb': "c \<notin> set b'"
  shows "a = a' \<and> b = b'"
proof -
  have b_eq: "takeWhile (\<lambda>x. x \<noteq> c) (rev (u @ c # v)) = rev v" if "c \<notin> set v" for u v
    using that by (subst rev_append, simp, subst takeWhile_append2) auto
  from eq have "rev b = rev b'" using b_eq [OF nb, of a] b_eq [OF nb', of a'] by simp
  with eq show ?thesis by simp
qed

lemma TrimSpace_plain:
  "strip1 space_runes s = None \<Longrightarrow> strip1 (map rev space_runes) (rev s) = None \<Longrightarrow> TrimSpace s = s"
  by (simp add: TrimSpace_def strip.simps)

lemma visible_no_space:
  assumes "visible c"
  shows "strip1 space_runes (c # s) = None" and "strip1 (map rev space_runes) (c # s) = None"
proof -
  have "\<forall>r \<in> set space_runes \<union> rev ` set space_runes. r = [] \<or> \<not> visible (hd r)"
    by (simp add: space_runes_def visible_def char_of_def of_char_def bit_Suc_0_iff)
  then have "\<not> (r \<noteq> [] \<and> take (length r) (c # s) = r)" if "r \<in> set space_runes \<union> rev ` set space_runes" for r
    using that assms by (cases r) auto
  then have "find (\<lambda>r. r \<noteq> [] \<and> take (length r) (c # s) = r) rs = None"
    if "set rs \<subseteq> set space_runes \<union> rev ` set space_runes" for rs
    unfolding find_None_iff using that by blast
  from this [of space_runes] this [of "map rev space_runes"]
  show "strip1 space_runes (c # s) = None" "strip1 (map rev space_runes) (c # s) = None"
    by (simp_all add: strip1_def)
qed

lemma TrimSpace_visible:
  assumes "s \<noteq> []" "visible (hd s)" "visible (last s)"
  shows "TrimSpace s = s"
proof -
  obtain c cs where s: "s = c # cs" using assms(1) by (cases s) auto
  obtain d ds where r: "rev s = d # ds" using assms(1) by (cases "rev s") auto
  have d: "d = last s" using r by (metis list.sel(1) hd_rev)
  have "strip1 space_runes s = None" "strip1 (map rev space_runes) (rev s) = None"
    using assms visible_no_space s r d by auto
  then show ?thesis by (rule TrimSpace_plain)
qed

lemma TrimSpace_code [code]:
  "TrimSpace s = (if s \<noteq> [] \<and> visible (hd s) \<and> visible (last s) then s
     else rev (strip (map rev space_runes) (rev (strip space_runes s))))"
  using TrimSpace_visible [of s] by (auto simp: TrimSpace_def)

subsection \<open>Go maps\<close>

abbreviation distinct_keys :: "'v gomap \<Rightarrow> bool" where
  "distinct_keys m \<equiv> distinct (map fst m)"

lemma map_of_put [simp]: "map_of (AList.update k v m) = (map_of m)(k \<mapsto> v)"
  by (rule update_conv')

lemma distinct_keys_put [simp]: "distinct_keys m \<Longrightarrow> distinct_keys (AList.update k v m)"
  by (rule distinct_update)

lemma vals_iff: "distinct_keys m \<Longrightarrow> v \<in> set (vals m) \<longleftrightarrow> (\<exists>k. map_of m k = Some v)"
  by (auto simp: vals_def intro: rev_image_eqI)

lemma set_put:
  "distinct_keys m \<Longrightarrow> set (AList.update k v m) = {(k', v') \<in> set m. k' \<noteq> k} \<union> {(k, v)}"
  by (induction m) (auto simp: update_keys intro: rev_image_eqI)

lemma map_of_map_values:
  "map_of (map (\<lambda>(k, v). (k, f k v)) m) k = map_option (f k) (map_of m k)"
  by (induction m) auto

lemma map_fst_map_values [simp]: "map (fst \<circ> (\<lambda>(k, v). (k, f k v))) m = map fst m"
  by (induction m) auto

lemma map_of_filter_keys:
  "distinct_keys m \<Longrightarrow> map_of (filter (\<lambda>(k, v). P k v) m) k =
     (case map_of m k of None \<Rightarrow> None | Some v \<Rightarrow> if P k v then Some v else None)"
proof (induction m)
  case (Cons kv m)
  obtain k' v' where [simp]: "kv = (k', v')" by (cases kv)
  from Cons.prems have "k' \<notin> fst ` set m" by simp
  then have "map_of m k' = None" by (simp add: map_of_eq_None_iff)
  with Cons show ?case by (auto split: option.splits)
qed simp

lemma distinct_keys_filter [simp]: "distinct_keys m \<Longrightarrow> distinct_keys (filter P m)"
  by (rule distinct_map_filter)

subsection \<open>Update by identity in a slice\<close>

abbreviation distinct_ids :: "('a \<Rightarrow> 'k) \<Rightarrow> 'a list \<Rightarrow> bool" where
  "distinct_ids f xs \<equiv> distinct (map f xs)"

lemma upsert_by_ids: "f ` set (upsert_by f v xs) = insert (f v) (f ` set xs)"
  by (induction xs) auto

lemma distinct_ids_upsert [simp]: "distinct_ids f xs \<Longrightarrow> distinct_ids f (upsert_by f v xs)"
  by (induction xs) (auto simp: upsert_by_ids simp flip: image_set)

lemma set_upsert_by:
  "distinct_ids f xs \<Longrightarrow> set (upsert_by f v xs) = insert v {x \<in> set xs. f x \<noteq> f v}"
  by (induction xs) (auto intro: rev_image_eqI)

lemma upsert_by_new: "f v \<notin> f ` set xs \<Longrightarrow> upsert_by f v xs = xs @ [v]"
  by (induction xs) auto

lemma length_upsert_by:
  "length (upsert_by f v xs) = (if f v \<in> f ` set xs then length xs else Suc (length xs))"
  by (induction xs) auto

subsection \<open>Selection and sorting\<close>

lemma keep_better_Some [simp]: "keep_better b x cur \<noteq> None"
  by (auto simp: keep_better_def split: option.splits)

lemma fold_keep_better_None: "fold (keep_better b) xs cur = None \<longleftrightarrow> xs = [] \<and> cur = None"
  by (induction xs arbitrary: cur) auto

lemma select_best_None [simp]: "select_best b xs = None \<longleftrightarrow> xs = []"
  by (simp add: select_best_def fold_keep_better_None)

lemma fold_keep_better_in:
  "fold (keep_better b) xs cur = Some m \<Longrightarrow> m \<in> set xs \<or> cur = Some m"
proof (induction xs arbitrary: cur)
  case (Cons x xs)
  from Cons.IH [of "keep_better b x cur"] Cons.prems
  have "m \<in> set xs \<or> keep_better b x cur = Some m" by simp
  then show ?case by (auto simp: keep_better_def split: option.splits if_splits)
qed simp

lemma select_best_in: "select_best b xs = Some m \<Longrightarrow> m \<in> set xs"
  using fold_keep_better_in [of b xs None m] by (simp add: select_best_def)

lemma set_insert_slice [simp]: "set (insert_slice lt x ys) = insert x (set ys)"
  by (induction ys) auto

lemma mset_sort_slice [simp]: "mset (sort_slice lt xs) = mset xs"
proof -
  have "mset (insert_slice lt x ys) = add_mset x (mset ys)" for x ys
    by (induction ys) auto
  then show ?thesis by (induction xs) (auto simp: sort_slice_def)
qed

lemma set_sort_slice [simp]: "set (sort_slice lt xs) = set xs"
  by (metis mset_sort_slice set_mset_mset)

lemma length_sort_slice [simp]: "length (sort_slice lt xs) = length xs"
  by (metis mset_sort_slice size_mset)

text \<open>
  The contract \<open>sort.Slice\<close> asks of its comparison, which the selection loops rely on as well:
  a strict weak order.
\<close>

locale weak_order =
  fixes lt :: "'a \<Rightarrow> 'a \<Rightarrow> bool"
  assumes lt_asym: "lt x y \<Longrightarrow> \<not> lt y x"
    and lt_negtrans: "\<not> lt x y \<Longrightarrow> \<not> lt y z \<Longrightarrow> \<not> lt x z"
begin

lemma insert_slice_sorted:
  "sorted_wrt (\<lambda>x y. \<not> lt y x) ys \<Longrightarrow> sorted_wrt (\<lambda>x y. \<not> lt y x) (insert_slice lt x ys)"
  by (induction ys) (auto dest: lt_asym lt_negtrans)

lemma sort_slice_sorted: "sorted_wrt (\<lambda>x y. \<not> lt y x) (sort_slice lt xs)"
  by (induction xs) (auto simp: sort_slice_def insert_slice_sorted)

lemma fold_keep_better_max:
  "fold (keep_better lt) xs cur = Some m \<Longrightarrow>
     (\<forall>x \<in> set xs. \<not> lt x m) \<and> (\<forall>c. cur = Some c \<longrightarrow> \<not> lt c m)"
proof (induction xs arbitrary: cur)
  case Nil
  then show ?case by (auto dest: lt_asym)
next
  case (Cons x xs)
  from Cons.IH [of "keep_better lt x cur"] Cons.prems
  have IH: "\<forall>y \<in> set xs. \<not> lt y m" "\<And>c. keep_better lt x cur = Some c \<Longrightarrow> \<not> lt c m"
    by auto
  show ?case
  proof (cases cur)
    case None
    with IH show ?thesis by (simp add: keep_better_def)
  next
    case (Some c)
    with IH(2) [of x] IH(2) [of c] have "\<not> lt x m \<and> \<not> lt c m"
      by (cases "lt x c") (auto simp: keep_better_def dest: lt_asym lt_negtrans)
    with IH(1) Some show ?thesis by simp
  qed
qed

text \<open>What the selection loop returns is beaten by no element.\<close>

lemma select_best_max: "select_best lt xs = Some m \<Longrightarrow> x \<in> set xs \<Longrightarrow> \<not> lt x m"
  using fold_keep_better_max [of xs None m] by (simp add: select_best_def)

text \<open>
  Where any two different elements compare, the loop returns the same element in every
  order of iteration.
\<close>

lemma select_best_set:
  assumes same: "set xs = set ys"
    and total: "\<And>x y. x \<in> set xs \<Longrightarrow> y \<in> set xs \<Longrightarrow> x \<noteq> y \<Longrightarrow> lt x y \<or> lt y x"
  shows "select_best lt xs = select_best lt ys"
proof (cases "select_best lt xs")
  case None
  with same have "ys = []" by simp
  with None show ?thesis by (simp add: select_best_def)
next
  case (Some m)
  then have "m \<in> set xs" by (rule select_best_in)
  with same have "ys \<noteq> []" by auto
  then obtain n where n: "select_best lt ys = Some n"
    by (cases "select_best lt ys") auto
  then have "n \<in> set ys" by (rule select_best_in)
  have "\<not> lt n m" using select_best_max [OF Some] same \<open>n \<in> set ys\<close> by simp
  moreover have "\<not> lt m n" using select_best_max [OF n] same \<open>m \<in> set xs\<close> by simp
  ultimately have "m = n" using total same \<open>m \<in> set xs\<close> \<open>n \<in> set ys\<close> by blast
  with Some n show ?thesis by simp
qed

end

lemma weak_order_key: "weak_order (\<lambda>x y. (f x :: 'k :: linorder) < f y)"
  by unfold_locales auto

lemma weak_order_key_desc: "weak_order (\<lambda>x y. (f x :: 'k :: linorder) > f y)"
  by unfold_locales auto

lemma weak_order_lex:
  "weak_order (\<lambda>x y. if f x = f y then (g x :: 'b :: linorder) < g y else (f x :: 'a :: linorder) < f y)"
  by unfold_locales (auto split: if_splits)

subsection \<open>Early returns\<close>

text \<open>
  What a guard of a writing method, \<open>if b { return err }\<close>, or a lookup that returns on a missing
  key gives to the code behind it, for methods that return an error and for methods that
  return a value or an error.
\<close>

lemma guard_passed:
  assumes "(if b then (Some e, s) else r) = (None, s')"
  obtains "\<not> b" "r = (None, s')"
  using assms by (cases b) auto

lemma some_passed:
  assumes "(case x of None \<Rightarrow> (Some e, s) | Some v \<Rightarrow> f v) = (None, s')"
  obtains v where "x = Some v" "f v = (None, s')"
  using assms by (cases x) auto

lemma guard_passed_result:
  assumes "(if b then (Inl e, s) else r) = (Inr w, s')"
  obtains "\<not> b" "r = (Inr w, s')"
  using assms by (cases b) auto

lemma some_passed_result:
  assumes "(case x of None \<Rightarrow> (Inl e, s) | Some v \<Rightarrow> f v) = (Inr w, s')"
  obtains v where "x = Some v" "f v = (Inr w, s')"
  using assms by (cases x) auto

section \<open>Contracts of the durable tables\<close>

text \<open>A table whose writes replace a record by its identity and never fail.\<close>

locale upsert_table =
  fixes get :: "'s \<Rightarrow> 'k \<Rightarrow> 'v option"
    and put :: "'v \<Rightarrow> 's \<Rightarrow> go_error option \<times> 's"
    and key :: "'v \<Rightarrow> 'k"
  assumes put_ok: "fst (put v s) = None"
    and get_put: "get (snd (put v s)) = (get s)(key v \<mapsto> v)"
begin

text \<open>Read after any sequence of writes: the last write to the key, else what was there.\<close>

lemma get_puts:
  "get (fold (\<lambda>v s. snd (put v s)) vs s) k =
     (case find (\<lambda>v. key v = k) (rev vs) of None \<Rightarrow> get s k | Some v \<Rightarrow> Some v)"
proof (induction vs arbitrary: s)
  case (Cons v vs)
  have "find P (xs @ [v]) = (case find P xs of None \<Rightarrow> (if P v then Some v else None) | Some w \<Rightarrow> Some w)"
    for P and xs :: "'v list" by (induction xs) auto
  with Cons show ?case by (auto simp: get_put split: option.splits)
qed simp

lemma put_other: "k \<noteq> key v \<Longrightarrow> get (snd (put v s)) k = get s k"
  by (simp add: get_put)

end

text \<open>
  A table whose updates carry the revision the writer read. \<open>admissible\<close> is what else the
  update demands of the stored record, \<open>stamp\<close> what it changes of the record it is given.
\<close>

locale cas_table =
  fixes get :: "'s \<Rightarrow> 'k \<Rightarrow> 'v option"
    and key :: "'v \<Rightarrow> 'k"
    and rev :: "'v \<Rightarrow> int"
    and admissible :: "'v \<Rightarrow> 'v \<Rightarrow> bool"
    and stamp :: "int \<Rightarrow> 'v \<Rightarrow> 'v"
    and upd :: "'v \<Rightarrow> int \<Rightarrow> 's \<Rightarrow> go_error option \<times> 's"
  assumes upd_missing: "get s (key v) = None \<Longrightarrow> upd v r s = (Some ErrNotFound, s)"
    and upd_stale: "get s (key v) = Some c \<Longrightarrow> rev c \<noteq> r \<or> \<not> admissible c v \<Longrightarrow>
      upd v r s = (Some ErrVersionConflict, s)"
    and upd_fresh: "get s (key v) = Some c \<Longrightarrow> rev c = r \<Longrightarrow> admissible c v \<Longrightarrow>
      fst (upd v r s) = None \<and> get (snd (upd v r s)) = (get s)(key v \<mapsto> stamp r v)"
    and key_stamp: "key (stamp r v) = key v"
    and rev_stamp: "rev (stamp r v) = inc64 r"
begin

lemma upd_success:
  "fst (upd v r s) = None \<longleftrightarrow> (\<exists>c. get s (key v) = Some c \<and> rev c = r \<and> admissible c v)"
proof (cases "get s (key v)")
  case None
  then show ?thesis by (simp add: upd_missing)
next
  case (Some c)
  then show ?thesis using upd_stale [OF Some] upd_fresh [OF Some] by fastforce
qed

lemma upd_get: "fst (upd v r s) = None \<Longrightarrow> get (snd (upd v r s)) = (get s)(key v \<mapsto> stamp r v)"
  using upd_success upd_fresh by metis

lemma upd_error_unchanged: "fst (upd v r s) = Some e \<Longrightarrow> snd (upd v r s) = s"
proof (cases "get s (key v)")
  case None
  then show ?thesis by (simp add: upd_missing)
next
  case (Some c)
  assume "fst (upd v r s) = Some e"
  then have "\<not> (rev c = r \<and> admissible c v)" using upd_fresh [OF Some] by auto
  then show ?thesis using upd_stale [OF Some, of r] by auto
qed

text \<open>Of two writers that read the same revision, the second is turned away.\<close>

lemma first_writer_wins:
  assumes "fst (upd v r s) = None" and "key w = key v" and "int64_range r"
  shows "upd w r (snd (upd v r s)) = (Some ErrVersionConflict, snd (upd v r s))"
proof -
  have "get (snd (upd v r s)) (key w) = Some (stamp r v)"
    using upd_get [OF assms(1)] assms(2) by simp
  moreover have "rev (stamp r v) \<noteq> r"
    using inc64_neq [OF assms(3)] by (simp add: rev_stamp)
  ultimately show ?thesis by (intro upd_stale) auto
qed

end

text \<open>Work that a worker leases until an instant.\<close>

locale lease_table =
  fixes get :: "'s \<Rightarrow> 'k \<Rightarrow> 'v option"
    and lease :: "'v \<Rightarrow> time option"
    and claim :: "'k \<Rightarrow> time \<Rightarrow> time \<Rightarrow> 's \<Rightarrow> 'v result \<times> 's"
  assumes claim_missing: "get s k = None \<Longrightarrow> claim k now until s = (Inl ErrNotFound, s)"
    and claim_leased: "get s k = Some v \<Longrightarrow> lease v = Some u \<Longrightarrow> u > now \<Longrightarrow>
      claim k now until s = (Inl ErrVersionConflict, s)"
    and claim_free: "get s k = Some v \<Longrightarrow> (\<And>u. lease v = Some u \<Longrightarrow> \<not> u > now) \<Longrightarrow>
      \<exists>v'. fst (claim k now until s) = Inr v' \<and> lease v' = Some until
        \<and> get (snd (claim k now until s)) = (get s)(k \<mapsto> v')"
begin

lemma claim_granted:
  assumes "fst (claim k now until s) = Inr v'"
  shows "lease v' = Some until" and "get (snd (claim k now until s)) = (get s)(k \<mapsto> v')"
proof -
  from assms obtain v where v: "get s k = Some v"
    using claim_missing by (cases "get s k") auto
  from assms have free: "\<not> u > now" if "lease v = Some u" for u
    using claim_leased [OF v that] by auto
  from claim_free [OF v free, of until] assms
  show "lease v' = Some until" and "get (snd (claim k now until s)) = (get s)(k \<mapsto> v')" by auto
qed

text \<open>While the lease of a successful claim runs, no other claim of the work succeeds.\<close>

lemma claim_exclusive:
  assumes "fst (claim k now until s) = Inr v'" and "now2 < until"
  shows "claim k now2 until2 (snd (claim k now until s))
    = (Inl ErrVersionConflict, snd (claim k now until s))"
proof (rule claim_leased)
  show "get (snd (claim k now until s)) k = Some v'" using claim_granted(2) [OF assms(1)] by simp
  show "lease v' = Some until" by (rule claim_granted(1) [OF assms(1)])
  show "until > now2" by (rule assms(2))
qed

end

text \<open>A slice of records in which a write replaces the record of the same identity.\<close>

locale id_log =
  fixes entries :: "'s \<Rightarrow> 'v list"
    and ident :: "'v \<Rightarrow> 'k"
    and record_entry :: "'v \<Rightarrow> 's \<Rightarrow> go_error option \<times> 's"
  assumes write_ok: "fst (record_entry v s) = None"
    and write_entries: "entries (snd (record_entry v s)) = upsert_by ident v (entries s)"
begin

lemma write_distinct:
  "distinct_ids ident (entries s) \<Longrightarrow> distinct_ids ident (entries (snd (record_entry v s)))"
  by (simp add: write_entries)

lemma write_set:
  "distinct_ids ident (entries s) \<Longrightarrow>
     set (entries (snd (record_entry v s))) = insert v {x \<in> set (entries s). ident x \<noteq> ident v}"
  by (simp add: write_entries set_upsert_by)

lemma write_twice: "entries (snd (record_entry v (snd (record_entry v s)))) = entries (snd (record_entry v s))"
proof -
  have "upsert_by ident v (upsert_by ident v xs) = upsert_by ident v xs" for xs
    by (induction xs) auto
  then show ?thesis by (simp add: write_entries)
qed

end

text \<open>A step relation, its reachable states, and the contract of an invariant.\<close>

inductive reachable :: "'s \<Rightarrow> ('s \<Rightarrow> 's \<Rightarrow> bool) \<Rightarrow> 's \<Rightarrow> bool"
  for s0 :: 's and step :: "'s \<Rightarrow> 's \<Rightarrow> bool" where
  reach_init: "reachable s0 step s0"
| reach_step: "reachable s0 step s \<Longrightarrow> step s t \<Longrightarrow> reachable s0 step t"

locale invariant_system =
  fixes s0 :: 's and step :: "'s \<Rightarrow> 's \<Rightarrow> bool" and inv :: "'s \<Rightarrow> bool"
  assumes inv_init: "inv s0"
    and inv_step: "step s t \<Longrightarrow> inv s \<Longrightarrow> inv t"
begin

lemma reachable_inv: "reachable s0 step s \<Longrightarrow> inv s"
  by (induction rule: reachable.induct) (auto intro: inv_init inv_step)

end

end
