(* ===== verification/Domain.thy ===== *)
theory Domain
  imports Prelude
begin

text \<open>
  The records of \<open>internal/domain\<close>, one per struct, with the fields in the order of the source,
  each prefixed by the initials of its struct. The string types with constants are datatypes:
  a constructor per constant and one for every other text, so the zero value of a Go string type
  is the last constructor at the empty text (such as \<open>IntentStatusOther []\<close>). That constructor never
  carries the text of a constant.
\<close>

section \<open>Enumerations\<close>

datatype AircraftStatus =
    AircraftStatusActive
  | AircraftStatusInactive
  | AircraftStatusMaintenance
  | AircraftStatusReview
  | AircraftStatusOther string

datatype AcceptanceStatus =
    AcceptanceStatusDraft
  | AcceptanceStatusReview
  | AcceptanceStatusAccepted
  | AcceptanceStatusRejected
  | AcceptanceStatusExpired
  | AcceptanceStatusOther string

datatype RemoteIDStatus =
    RemoteIDStatusUnknown
  | RemoteIDStatusBroadcasting
  | RemoteIDStatusOffline
  | RemoteIDStatusDegraded
  | RemoteIDStatusOther string

datatype MaintenanceStatus =
    MaintenanceStatusCurrent
  | MaintenanceStatusDueSoon
  | MaintenanceStatusOpen
  | MaintenanceStatusOverdue
  | MaintenanceStatusClosed
  | MaintenanceStatusOther string

datatype Severity =
    SeverityInfo
  | SeverityAdvisory
  | SeverityWarning
  | SeverityCritical
  | SeverityOther string

datatype ReadinessStatus =
    ReadinessStatusReady
  | ReadinessStatusReview
  | ReadinessStatusWarning
  | ReadinessStatusBlocked
  | ReadinessStatusUnknown
  | ReadinessStatusOther string

datatype FlightStatus =
    FlightStatusPlanned
  | FlightStatusActive
  | FlightStatusComplete
  | FlightStatusAborted
  | FlightStatusInterrupted
  | FlightStatusOther string

datatype IntentStatus =
    IntentStatusDraft
  | IntentStatusSubmitted
  | IntentStatusReview
  | IntentStatusAccepted
  | IntentStatusRejected
  | IntentStatusActive
  | IntentStatusComplete
  | IntentStatusCanceled
  | IntentStatusSuperseded
  | IntentStatusOther string

datatype AuthorizationPath =
    AuthorizationPathPermit
  | AuthorizationPathCertificate
  | AuthorizationPathWaiver
  | AuthorizationPathExemption
  | AuthorizationPathDemo
  | AuthorizationPathUnknown
  | AuthorizationPathOther string

datatype PopulationCategory =
    PopulationCategoryOne
  | PopulationCategoryTwo
  | PopulationCategoryThree
  | PopulationCategoryFour
  | PopulationCategoryFive
  | PopulationCategoryUnknown
  | PopulationCategoryOther string

datatype PreflightStatus =
    PreflightStatusClear
  | PreflightStatusReview
  | PreflightStatusAction
  | PreflightStatusBlocked
  | PreflightStatusOther string

datatype PreflightCheckCategory =
    PreflightCheckWeather
  | PreflightCheckNOTAM
  | PreflightCheckAirspace
  | PreflightCheckPopulation
  | PreflightCheckObstacle
  | PreflightCheckBattery
  | PreflightCheckMaintenance
  | PreflightCheckRemoteID
  | PreflightCheckPersonnel
  | PreflightCheckCybersecurity
  | PreflightCheckCategoryOther string

datatype EvidenceRecordType =
    EvidenceRecordFlight
  | EvidenceRecordPreflight
  | EvidenceRecordMaintenance
  | EvidenceRecordConformance
  | EvidenceRecordReportability
  | EvidenceRecordSecurity
  | EvidenceRecordMonthlyExport
  | EvidenceRecordTypeOther string

datatype EvidenceStatus =
    EvidenceStatusOpen
  | EvidenceStatusReview
  | EvidenceStatusComplete
  | EvidenceStatusExported
  | EvidenceStatusOther string

datatype ConformanceStatus =
    ConformanceStatusUnknown
  | ConformanceStatusConforming
  | ConformanceStatusNonConforming
  | ConformanceStatusContingent
  | ConformanceStatusEmergency
  | ConformanceStatusComplete
  | ConformanceStatusOther string

datatype ReportabilityStatus =
    ReportabilityStatusNo
  | ReportabilityStatusReview
  | ReportabilityStatusReportable
  | ReportabilityStatusClosed
  | ReportabilityStatusOther string

datatype PersonnelRole =
    PersonnelRoleSupervisor
  | PersonnelRoleFlightCoordinator
  | PersonnelRoleMaintenance
  | PersonnelRoleGroundHandler
  | PersonnelRoleSecurity
  | PersonnelRoleOther string

datatype SecurityAssessmentStatus =
    SecurityAssessmentUnknown
  | SecurityAssessmentPending
  | SecurityAssessmentCleared
  | SecurityAssessmentExpired
  | SecurityAssessmentDenied
  | SecurityAssessmentStatusOther string

datatype AltitudeReference =
    AltitudeReferenceAGL
  | AltitudeReferenceMSL
  | AltitudeReferenceWGS84
  | AltitudeReferenceRelative
  | AltitudeReferenceBaro
  | AltitudeReferenceOther string

datatype OperationalVolumeType =
    OperationalVolumeRoute
  | OperationalVolumeLoiter
  | OperationalVolumeContingency
  | OperationalVolumeEmergency
  | OperationalVolumeTypeOther string

datatype ConformanceEventCode =
    ConformanceEventIntentExit
  | ConformanceEventAltitudeDeviation
  | ConformanceEventTelemetryLoss
  | ConformanceEventC2Degraded
  | ConformanceEventRemoteIDDegraded
  | ConformanceEventCodeOther string

datatype ComplianceFindingStatus =
    ComplianceFindingPass
  | ComplianceFindingReview
  | ComplianceFindingFail
  | ComplianceFindingWaived
  | ComplianceFindingStatusOther string

datatype DeconflictionPosture =
    DeconflictionPostureClear
  | DeconflictionPostureConflict
  | DeconflictionPosturePotentialConflict
  | DeconflictionPostureIndeterminate
  | DeconflictionPostureOther string

datatype ConflictFindingStatus =
    ConflictFindingStatusClear
  | ConflictFindingStatusConflict
  | ConflictFindingStatusPotentialConflict
  | ConflictFindingStatusIndeterminate
  | ConflictFindingStatusOther string

datatype ConflictFindingSourceType =
    ConflictFindingSourceLocal
  | ConflictFindingSourceExternal
  | ConflictFindingSourceTypeOther string

datatype MissionSourceFormat =
    MissionSourceFormatQGCWPL110
  | MissionSourceFormatOther string

datatype MissionDeploymentStatus =
    MissionDeploymentPending
  | MissionDeploymentApplied
  | MissionDeploymentAlreadyApplied
  | MissionDeploymentRejected
  | MissionDeploymentTemporaryError
  | MissionDeploymentOutcomeUnknown
  | MissionDeploymentBindingMismatch
  | MissionDeploymentOnboardMissionMismatch
  | MissionDeploymentStatusOther string

datatype OperationalIntentExternalState =
    OperationalIntentExternalStateAccepted
  | OperationalIntentExternalStateActivated
  | OperationalIntentExternalStateWithdrawn
  | OperationalIntentExternalStateOther string

datatype PublicationSyncStatus =
    PublicationSyncPending
  | PublicationSyncProcessing
  | PublicationSyncConfirmed
  | PublicationSyncRetrying
  | PublicationSyncBlocked
  | PublicationSyncWithdrawn
  | PublicationSyncStatusOther string

section \<open>Texts of the enumerations that messages and identifiers carry\<close>

fun IntentStatus_text :: "IntentStatus \<Rightarrow> string" where
  "IntentStatus_text IntentStatusDraft = ''draft''"
| "IntentStatus_text IntentStatusSubmitted = ''submitted''"
| "IntentStatus_text IntentStatusReview = ''review''"
| "IntentStatus_text IntentStatusAccepted = ''accepted''"
| "IntentStatus_text IntentStatusRejected = ''rejected''"
| "IntentStatus_text IntentStatusActive = ''active''"
| "IntentStatus_text IntentStatusComplete = ''complete''"
| "IntentStatus_text IntentStatusCanceled = ''canceled''"
| "IntentStatus_text IntentStatusSuperseded = ''superseded''"
| "IntentStatus_text (IntentStatusOther s) = s"

fun ConflictFindingStatus_text :: "ConflictFindingStatus \<Rightarrow> string" where
  "ConflictFindingStatus_text ConflictFindingStatusClear = ''clear''"
| "ConflictFindingStatus_text ConflictFindingStatusConflict = ''conflict''"
| "ConflictFindingStatus_text ConflictFindingStatusPotentialConflict = ''potential_conflict''"
| "ConflictFindingStatus_text ConflictFindingStatusIndeterminate = ''indeterminate''"
| "ConflictFindingStatus_text (ConflictFindingStatusOther s) = s"

fun DeconflictionPosture_text :: "DeconflictionPosture \<Rightarrow> string" where
  "DeconflictionPosture_text DeconflictionPostureClear = ''clear''"
| "DeconflictionPosture_text DeconflictionPostureConflict = ''conflict''"
| "DeconflictionPosture_text DeconflictionPosturePotentialConflict = ''potential_conflict''"
| "DeconflictionPosture_text DeconflictionPostureIndeterminate = ''indeterminate''"
| "DeconflictionPosture_text (DeconflictionPostureOther s) = s"

section \<open>Records\<close>

record Aircraft =
  ac_ID :: string
  ac_OperatorID :: string
  ac_AgentID :: string
  ac_TailNumber :: string
  ac_Registration :: string
  ac_SerialNumber :: string
  ac_Name :: string
  ac_Model :: string
  ac_Manufacturer :: string
  ac_Status :: AircraftStatus
  ac_AcceptanceStatus :: AcceptanceStatus
  ac_RemoteIDSerial :: string
  ac_RemoteIDStatus :: RemoteIDStatus
  ac_ConfigVersion :: string
  ac_SoftwareVersion :: string
  ac_HardwareVersion :: string
  ac_CreatedAt :: time
  ac_UpdatedAt :: time

record Battery =
  bat_ID :: string
  bat_OperatorID :: string
  bat_SerialNumber :: string
  bat_Model :: string
  bat_StateOfHealth :: "real option"
  bat_CycleCount :: int
  bat_Status :: MaintenanceStatus
  bat_ManufacturedAt :: "time option"
  bat_CreatedAt :: time
  bat_UpdatedAt :: time

record BatteryInstallation =
  bi_ID :: string
  bi_OperatorID :: string
  bi_AircraftID :: string
  bi_BatteryID :: string
  bi_InstalledAt :: time
  bi_RemovedAt :: "time option"

record OperatingLimit =
  ol_ID :: string
  ol_OperatorID :: string
  ol_AircraftID :: string
  ol_Name :: string
  ol_Unit :: string
  ol_Minimum :: "real option"
  ol_Maximum :: "real option"

record AircraftOperatingProfile =
  aop_AircraftID :: string
  aop_OperatorID :: string
  aop_MaxGroundspeedKt :: "real option"
  aop_MaxTakeoffWeightLb :: "real option"
  aop_MaxAltitudeFtAGL :: "real option"
  aop_WeatherEnvelope :: string
  aop_DAACapability :: string
  aop_LightingStatus :: string
  aop_PNTIntegrity :: string
  aop_ManufacturerLimitsURI :: string
  aop_UpdatedAt :: time

record Readiness =
  rd_Status :: ReadinessStatus
  rd_Reasons :: "string list"

record Operator =
  op_ID :: string
  op_Name :: string
  op_LegalName :: string
  op_CreatedAt :: time
  op_UpdatedAt :: time

record MaintenanceEvent =
  me_ID :: string
  me_OperatorID :: string
  me_AircraftID :: string
  me_IntentID :: string
  me_EventType :: string
  me_Severity :: Severity
  me_Status :: MaintenanceStatus
  me_Title :: string
  me_Notes :: string
  me_Owner :: string
  me_DueAt :: "time option"
  me_CorrectiveAction :: string
  me_OpenedAt :: time
  me_ResolvedAt :: "time option"
  me_ReturnToServiceAt :: "time option"
  me_ReturnToServiceBy :: string

record OperationsPersonnel =
  per_ID :: string
  per_OperatorID :: string
  per_Name :: string
  per_Role :: PersonnelRole
  per_QualificationStatus :: ReadinessStatus
  per_SecurityAssessmentStatus :: SecurityAssessmentStatus
  per_RecentExperienceHours :: "real option"
  per_DutyStartedAt :: "time option"
  per_RestedAt :: "time option"
  per_UpdatedAt :: time

record PersonnelAssignment =
  pa_ID :: string
  pa_OperatorID :: string
  pa_IntentID :: string
  pa_IntentVersion :: int
  pa_PersonnelID :: string
  pa_Role :: PersonnelRole
  pa_AssignedAt :: time
  pa_ReleasedAt :: "time option"

record FlightRecord =
  fl_ID :: string
  fl_OperatorID :: string
  fl_AircraftID :: string
  fl_IntentID :: string
  fl_IntentVersion :: int
  fl_StartedAt :: time
  fl_EndedAt :: "time option"
  fl_Origin :: string
  fl_Destination :: string
  fl_Status :: FlightStatus
  fl_MissionType :: string
  fl_TelemetryURI :: string
  fl_SampleCount :: int

record OperationalIntent =
  oi_ID :: string
  oi_Revision :: int
  oi_OperatorID :: string
  oi_AircraftID :: string
  oi_AuthorizationID :: string
  oi_Version :: int
  oi_Name :: string
  oi_Summary :: string
  oi_UseCase :: string
  oi_AuthorizationPath :: AuthorizationPath
  oi_PopulationCategory :: PopulationCategory
  oi_Status :: IntentStatus
  oi_ConformanceRequired :: bool
  oi_OperatingAreaID :: string
  oi_RouteSummary :: string
  oi_PlannedStartAt :: time
  oi_PlannedEndAt :: time
  oi_MinAltitudeFtAGL :: "real option"
  oi_MaxAltitudeFtAGL :: "real option"
  oi_SupervisorID :: string
  oi_FlightCoordinatorID :: string
  oi_SubmittedAt :: "time option"
  oi_AcceptedAt :: "time option"
  oi_ActivatedAt :: "time option"
  oi_CompletedAt :: "time option"
  oi_CanceledAt :: "time option"
  oi_SupersededAt :: "time option"
  oi_UpdatedAt :: time

record RegulatoryAuthorization =
  ra_ID :: string
  ra_OperatorID :: string
  ra_Path :: AuthorizationPath
  ra_Reference :: string
  ra_Scope :: string
  ra_ValidFrom :: time
  ra_ValidUntil :: "time option"
  ra_EvidenceRecordID :: string
  ra_CreatedAt :: time
  ra_UpdatedAt :: time

record OperationalVolume =
  ov_ID :: string
  ov_OperatorID :: string
  ov_IntentID :: string
  ov_IntentVersion :: int
  ov_Sequence :: int
  ov_GeometryURI :: string
  ov_GeoJSON :: string
  ov_MinAltitudeM :: real
  ov_MaxAltitudeM :: real
  ov_AltitudeRef :: AltitudeReference
  ov_StartsAt :: time
  ov_EndsAt :: time
  ov_BufferMeters :: "real option"
  ov_VolumeType :: OperationalVolumeType
  ov_CreatedAt :: time
  ov_UpdatedAt :: time

record MissionItem =
  mi_Sequence :: int
  mi_Current :: bool
  mi_Frame :: int
  mi_Command :: int
  mi_Param1 :: real
  mi_Param2 :: real
  mi_Param3 :: real
  mi_Param4 :: real
  mi_LatitudeE7 :: int
  mi_LongitudeE7 :: int
  mi_AltitudeM :: real
  mi_Autocontinue :: bool

record Mission =
  ms_ID :: string
  ms_Version :: int
  ms_OperatorID :: string
  ms_FlightID :: string
  ms_AircraftID :: string
  ms_IntentID :: string
  ms_IntentVersion :: int
  ms_SourceFormat :: MissionSourceFormat
  ms_SourceSHA256 :: string
  ms_MissionDigest :: string
  ms_IdempotencyKey :: string
  ms_IdempotencyRequest :: string
  ms_ValidationFindings :: "MissionValidationFinding list"
  ms_Items :: "MissionItem list"
  ms_CreatedAt :: time

record MissionDeployment =
  md_ID :: string
  md_Revision :: int
  md_OperatorID :: string
  md_FlightID :: string
  md_AircraftID :: string
  md_AgentID :: string
  md_IntentID :: string
  md_IntentVersion :: int
  md_MissionID :: string
  md_MissionVersion :: int
  md_MissionDigest :: string
  md_CommandID :: string
  md_DispatchStarted :: bool
  md_OperationContextCommandID :: string
  md_ReconciliationClearCommandID :: string
  md_IdempotencyKey :: string
  md_IdempotencyRequest :: string
  md_Status :: MissionDeploymentStatus
  md_Message :: string
  md_UploadedItemCount :: nat
  md_OnboardMissionDigest :: string
  md_MAVLinkMissionAckType :: "nat option"
  md_IssuedAt :: time
  md_ExpiresAt :: time
  md_ReconcileUntil :: time
  md_CompletedAt :: "time option"
  md_AttemptCount :: int
  md_CreatedAt :: time
  md_UpdatedAt :: time

record OperationalIntentPublication =
  pub_IntentID :: string
  pub_Revision :: int
  pub_DesiredIntentVersion :: int
  pub_PublishedIntentVersion :: int
  pub_DesiredState :: OperationalIntentExternalState
  pub_ConfirmedState :: OperationalIntentExternalState
  pub_SyncStatus :: PublicationSyncStatus
  pub_DSSVersion :: int
  pub_OVN :: string
  pub_SubscriptionID :: string
  pub_Manager :: string
  pub_USSBaseURL :: string
  pub_ReferenceJSON :: bytes
  pub_AttemptCount :: int
  pub_NextAttemptAt :: time
  pub_LeaseUntil :: "time option"
  pub_LastAttemptAt :: "time option"
  pub_ConfirmedAt :: "time option"
  pub_LastError :: string
  pub_UpdatedAt :: time

record PeerNotification =
  pn_ID :: string
  pn_Revision :: int
  pn_IntentID :: string
  pn_IntentVersion :: int
  pn_USSBaseURL :: string
  pn_Payload :: bytes
  pn_AttemptCount :: int
  pn_NextAttemptAt :: time
  pn_LeaseUntil :: "time option"
  pn_DeliveredAt :: "time option"
  pn_LastError :: string
  pn_CreatedAt :: time
  pn_UpdatedAt :: time

record ReceivedPeerNotification =
  rpn_ID :: string
  rpn_IntentID :: string
  rpn_Manager :: string
  rpn_IntentVersion :: int
  rpn_OVN :: string
  rpn_Deleted :: bool
  rpn_Payload :: bytes
  rpn_ReceivedAt :: time

record GeoBounds =
  gb_MinLat :: real
  gb_MinLon :: real
  gb_MaxLat :: real
  gb_MaxLon :: real

record ConflictFinding =
  cf_ID :: string
  cf_OperatorID :: string
  cf_IntentID :: string
  cf_IntentVersion :: int
  cf_AircraftID :: string
  cf_VolumeID :: string
  cf_ConflictingIntentID :: string
  cf_ConflictingVersion :: int
  cf_ConflictingVolumeID :: string
  cf_SourceType :: ConflictFindingSourceType
  cf_SourceID :: string
  cf_Status :: ConflictFindingStatus
  cf_Severity :: Severity
  cf_Blocking :: bool
  cf_Message :: string
  cf_TimeOverlapStart :: "time option"
  cf_TimeOverlapEnd :: "time option"
  cf_AltitudeOverlapMin :: "real option"
  cf_AltitudeOverlapMax :: "real option"
  cf_OwnBounds :: "GeoBounds option"
  cf_ConflictingBounds :: "GeoBounds option"
  cf_RuleVersion :: string
  cf_Provenance :: string
  cf_EvaluatedAt :: time

record DeconflictionResult =
  dr_Intent :: OperationalIntent
  dr_Posture :: DeconflictionPosture
  dr_Findings :: "ConflictFinding list"
  dr_CheckedAt :: time
  dr_RuleVersion :: string

record ComplianceFinding =
  cof_ID :: string
  cof_OperatorID :: string
  cof_IntentID :: string
  cof_IntentVersion :: int
  cof_SubjectType :: string
  cof_SubjectID :: string
  cof_RequirementCode :: string
  cof_Status :: ComplianceFindingStatus
  cof_Severity :: Severity
  cof_Blocking :: bool
  cof_RuleVersion :: string
  cof_Remediation :: string
  cof_Message :: string
  cof_EvidenceRecordID :: string
  cof_EvaluatedAt :: time

record ConformanceEvent =
  cev_ID :: string
  cev_OperatorID :: string
  cev_IntentID :: string
  cev_IntentVersion :: int
  cev_FlightID :: string
  cev_AircraftID :: string
  cev_Severity :: Severity
  cev_EventCode :: ConformanceEventCode
  cev_ExpectedVolumeID :: string
  cev_Message :: string
  cev_Latitude :: "real option"
  cev_Longitude :: "real option"
  cev_AltitudeM :: "real option"
  cev_AltitudeRef :: AltitudeReference
  cev_ObservedValue :: "real option"
  cev_ThresholdValue :: "real option"
  cev_DeviationMeters :: "real option"
  cev_DeviationSeconds :: "real option"
  cev_OccurredAt :: time

record ConformanceViolationSummary =
  cv_ViolationType :: string
  cv_Phase :: string
  cv_OpeningFrameID :: string
  cv_OpenedAt :: "time option"
  cv_LastObservedAt :: "time option"
  cv_WorstDeviationM :: real

record ConformanceSummary =
  cs_ID :: string
  cs_OperatorID :: string
  cs_IntentID :: string
  cs_IntentVersion :: int
  cs_FlightID :: string
  cs_AircraftID :: string
  cs_Status :: ConformanceStatus
  cs_Score :: "real option"
  cs_AlertCount :: int
  cs_ReportabilityStatus :: ReportabilityStatus
  cs_UpdatedAt :: time
  cs_AssignmentID :: string
  cs_AssignmentGeneration :: nat
  cs_EvaluationRevision :: nat
  cs_EvaluationID :: string
  cs_Condition :: string
  cs_MonitoringStatus :: string
  cs_RecordingStatus :: string
  cs_ObservedAt :: "time option"
  cs_FrameID :: string
  cs_Violations :: "ConformanceViolationSummary list"

record EvidenceRecord =
  ev_ID :: string
  ev_OperatorID :: string
  ev_Type :: EvidenceRecordType
  ev_IntentID :: string
  ev_IntentVersion :: int
  ev_FlightID :: string
  ev_AircraftID :: string
  ev_Status :: EvidenceStatus
  ev_Title :: string
  ev_Summary :: string
  ev_ObjectURI :: string
  ev_Hash :: string
  ev_HashAlgorithm :: string
  ev_SchemaVersion :: string
  ev_GeneratedBy :: string
  ev_SourceSystem :: string
  ev_RetentionUntil :: "time option"
  ev_CreatedAt :: time
  ev_UpdatedAt :: time

record ReportabilityReview =
  rr_ID :: string
  rr_OperatorID :: string
  rr_IntentID :: string
  rr_IntentVersion :: int
  rr_FlightID :: string
  rr_AircraftID :: string
  rr_Trigger :: string
  rr_Status :: ReportabilityStatus
  rr_Decision :: string
  rr_EvidenceRecordID :: string
  rr_CreatedAt :: time
  rr_ResolvedAt :: "time option"

record PreflightCheck =
  pc_ID :: string
  pc_OperatorID :: string
  pc_IntentID :: string
  pc_IntentVersion :: int
  pc_AircraftID :: string
  pc_Category :: PreflightCheckCategory
  pc_Source :: string
  pc_Status :: PreflightStatus
  pc_Summary :: string
  pc_RequirementCode :: string
  pc_RuleVersion :: string
  pc_Blocking :: bool
  pc_ValidUntil :: "time option"
  pc_RawDataURI :: string
  pc_EvidenceRecordID :: string
  pc_CapturedAt :: time

section \<open>Zero values\<close>

text \<open>The records Go builds from a literal that leaves fields out.\<close>

definition zero_OperationalIntent :: OperationalIntent where
  "zero_OperationalIntent = \<lparr>
     oi_ID = '''',
     oi_Revision = 0,
     oi_OperatorID = '''',
     oi_AircraftID = '''',
     oi_AuthorizationID = '''',
     oi_Version = 0,
     oi_Name = '''',
     oi_Summary = '''',
     oi_UseCase = '''',
     oi_AuthorizationPath = AuthorizationPathOther '''',
     oi_PopulationCategory = PopulationCategoryOther '''',
     oi_Status = IntentStatusOther '''',
     oi_ConformanceRequired = False,
     oi_OperatingAreaID = '''',
     oi_RouteSummary = '''',
     oi_PlannedStartAt = 0,
     oi_PlannedEndAt = 0,
     oi_MinAltitudeFtAGL = None,
     oi_MaxAltitudeFtAGL = None,
     oi_SupervisorID = '''',
     oi_FlightCoordinatorID = '''',
     oi_SubmittedAt = None,
     oi_AcceptedAt = None,
     oi_ActivatedAt = None,
     oi_CompletedAt = None,
     oi_CanceledAt = None,
     oi_SupersededAt = None,
     oi_UpdatedAt = 0\<rparr>"

definition zero_OperationalVolume :: OperationalVolume where
  "zero_OperationalVolume = \<lparr>
     ov_ID = '''',
     ov_OperatorID = '''',
     ov_IntentID = '''',
     ov_IntentVersion = 0,
     ov_Sequence = 0,
     ov_GeometryURI = '''',
     ov_GeoJSON = '''',
     ov_MinAltitudeM = 0,
     ov_MaxAltitudeM = 0,
     ov_AltitudeRef = AltitudeReferenceOther '''',
     ov_StartsAt = 0,
     ov_EndsAt = 0,
     ov_BufferMeters = None,
     ov_VolumeType = OperationalVolumeTypeOther '''',
     ov_CreatedAt = 0,
     ov_UpdatedAt = 0\<rparr>"

definition zero_ConflictFinding :: ConflictFinding where
  "zero_ConflictFinding = \<lparr>
     cf_ID = '''',
     cf_OperatorID = '''',
     cf_IntentID = '''',
     cf_IntentVersion = 0,
     cf_AircraftID = '''',
     cf_VolumeID = '''',
     cf_ConflictingIntentID = '''',
     cf_ConflictingVersion = 0,
     cf_ConflictingVolumeID = '''',
     cf_SourceType = ConflictFindingSourceTypeOther '''',
     cf_SourceID = '''',
     cf_Status = ConflictFindingStatusOther '''',
     cf_Severity = SeverityOther '''',
     cf_Blocking = False,
     cf_Message = '''',
     cf_TimeOverlapStart = None,
     cf_TimeOverlapEnd = None,
     cf_AltitudeOverlapMin = None,
     cf_AltitudeOverlapMax = None,
     cf_OwnBounds = None,
     cf_ConflictingBounds = None,
     cf_RuleVersion = '''',
     cf_Provenance = '''',
     cf_EvaluatedAt = 0\<rparr>"

definition zero_OperationalIntentPublication :: OperationalIntentPublication where
  "zero_OperationalIntentPublication = \<lparr>
     pub_IntentID = '''',
     pub_Revision = 0,
     pub_DesiredIntentVersion = 0,
     pub_PublishedIntentVersion = 0,
     pub_DesiredState = OperationalIntentExternalStateOther '''',
     pub_ConfirmedState = OperationalIntentExternalStateOther '''',
     pub_SyncStatus = PublicationSyncStatusOther '''',
     pub_DSSVersion = 0,
     pub_OVN = '''',
     pub_SubscriptionID = '''',
     pub_Manager = '''',
     pub_USSBaseURL = '''',
     pub_ReferenceJSON = '''',
     pub_AttemptCount = 0,
     pub_NextAttemptAt = 0,
     pub_LeaseUntil = None,
     pub_LastAttemptAt = None,
     pub_ConfirmedAt = None,
     pub_LastError = '''',
     pub_UpdatedAt = 0\<rparr>"

definition zero_PeerNotification :: PeerNotification where
  "zero_PeerNotification = \<lparr>
     pn_ID = '''',
     pn_Revision = 0,
     pn_IntentID = '''',
     pn_IntentVersion = 0,
     pn_USSBaseURL = '''',
     pn_Payload = '''',
     pn_AttemptCount = 0,
     pn_NextAttemptAt = 0,
     pn_LeaseUntil = None,
     pn_DeliveredAt = None,
     pn_LastError = '''',
     pn_CreatedAt = 0,
     pn_UpdatedAt = 0\<rparr>"

definition zero_FlightRecord :: FlightRecord where
  "zero_FlightRecord = \<lparr>
     fl_ID = '''',
     fl_OperatorID = '''',
     fl_AircraftID = '''',
     fl_IntentID = '''',
     fl_IntentVersion = 0,
     fl_StartedAt = 0,
     fl_EndedAt = None,
     fl_Origin = '''',
     fl_Destination = '''',
     fl_Status = FlightStatusOther '''',
     fl_MissionType = '''',
     fl_TelemetryURI = '''',
     fl_SampleCount = 0\<rparr>"

definition zero_Mission :: Mission where
  "zero_Mission = \<lparr>
     ms_ID = '''',
     ms_Version = 0,
     ms_OperatorID = '''',
     ms_FlightID = '''',
     ms_AircraftID = '''',
     ms_IntentID = '''',
     ms_IntentVersion = 0,
     ms_SourceFormat = MissionSourceFormatOther '''',
     ms_SourceSHA256 = '''',
     ms_MissionDigest = '''',
     ms_IdempotencyKey = '''',
     ms_IdempotencyRequest = '''',
     ms_ValidationFindings = [],
     ms_Items = [],
     ms_CreatedAt = 0\<rparr>"

definition zero_MissionDeployment :: MissionDeployment where
  "zero_MissionDeployment = \<lparr>
     md_ID = '''',
     md_Revision = 0,
     md_OperatorID = '''',
     md_FlightID = '''',
     md_AircraftID = '''',
     md_AgentID = '''',
     md_IntentID = '''',
     md_IntentVersion = 0,
     md_MissionID = '''',
     md_MissionVersion = 0,
     md_MissionDigest = '''',
     md_CommandID = '''',
     md_DispatchStarted = False,
     md_OperationContextCommandID = '''',
     md_ReconciliationClearCommandID = '''',
     md_IdempotencyKey = '''',
     md_IdempotencyRequest = '''',
     md_Status = MissionDeploymentStatusOther '''',
     md_Message = '''',
     md_UploadedItemCount = 0,
     md_OnboardMissionDigest = '''',
     md_MAVLinkMissionAckType = None,
     md_IssuedAt = 0,
     md_ExpiresAt = 0,
     md_ReconcileUntil = 0,
     md_CompletedAt = None,
     md_AttemptCount = 0,
     md_CreatedAt = 0,
     md_UpdatedAt = 0\<rparr>"

end
