(* ===== verification/Store_State.thy ===== *)
theory Store_State
  imports Domain
begin

text \<open>
  The state of the in-memory durable store (\<open>internal/store/durable/memory/durable.go\<close>), the
  keys of its maps and the lookups that several groups of operations share. Every exported
  method holds the mutex of the store from its first to its last statement, so each operation of
  the model is one atomic step. An operation that writes returns the error, if any, and the
  state it leaves; an operation that only reads returns its result.
\<close>

section \<open>Definitions\<close>

record Store =
  s_operators :: "Operator gomap"
  s_aircraft :: "Aircraft gomap"
  s_batteries :: "Battery gomap"
  s_batteryInstallations :: "BatteryInstallation list"
  s_operatingProfiles :: "AircraftOperatingProfile gomap"
  s_operatingLimits :: "OperatingLimit gomap"
  s_maintenanceEvents :: "MaintenanceEvent list"
  s_operationalIntents :: "OperationalIntent gomap"
  s_operationalVolumes :: "OperationalVolume gomap"
  s_authorizations :: "RegulatoryAuthorization gomap"
  s_preflightChecks :: "PreflightCheck list"
  s_flightRecords :: "FlightRecord gomap"
  s_missions :: "Mission gomap"
  s_missionByIdempotencyKey :: "string gomap"
  s_missionDeployments :: "MissionDeployment gomap"
  s_deploymentByIdempotencyKey :: "string gomap"
  s_deploymentCreationOrder :: "nat gomap"
  s_nextDeploymentOrder :: nat
  s_conformanceEvents :: "ConformanceEvent list"
  s_conformanceSummaries :: "ConformanceSummary gomap"
  s_evidenceRecords :: "EvidenceRecord gomap"
  s_reportabilityReviews :: "ReportabilityReview list"
  s_complianceFindings :: "ComplianceFinding list"
  s_conflictFindings :: "ConflictFinding list"
  s_personnel :: "OperationsPersonnel gomap"
  s_personnelAssignments :: "PersonnelAssignment list"
  s_publications :: "OperationalIntentPublication gomap"
  s_peerNotifications :: "PeerNotification gomap"
  s_receivedPeerNotifications :: "ReceivedPeerNotification gomap"

definition NewStore :: Store where
  "NewStore = \<lparr>
     s_operators = [], s_aircraft = [], s_batteries = [], s_batteryInstallations = [],
     s_operatingProfiles = [], s_operatingLimits = [], s_maintenanceEvents = [],
     s_operationalIntents = [], s_operationalVolumes = [], s_authorizations = [],
     s_preflightChecks = [], s_flightRecords = [], s_missions = [],
     s_missionByIdempotencyKey = [], s_missionDeployments = [],
     s_deploymentByIdempotencyKey = [], s_deploymentCreationOrder = [],
     s_nextDeploymentOrder = 0, s_conformanceEvents = [], s_conformanceSummaries = [],
     s_evidenceRecords = [], s_reportabilityReviews = [], s_complianceFindings = [],
     s_conflictFindings = [], s_personnel = [], s_personnelAssignments = [],
     s_publications = [], s_peerNotifications = [], s_receivedPeerNotifications = []\<rparr>"

text \<open>A missing key is \<open>durable.ErrNotFound\<close>.\<close>

definition found :: "'v option \<Rightarrow> 'v result" where
  "found r = (case r of None \<Rightarrow> Inl ErrNotFound | Some v \<Rightarrow> Inr v)"

definition operationalIntentKey :: "string \<Rightarrow> int \<Rightarrow> string" where
  "operationalIntentKey intentID version = intentID @ '':'' @ itoa version"

definition operationalVolumeKey :: "OperationalVolume \<Rightarrow> string" where
  "operationalVolumeKey v = ov_IntentID v @ '':'' @ itoa (ov_IntentVersion v) @ '':'' @ ov_ID v"

definition conformanceSummaryKey :: "ConformanceSummary \<Rightarrow> string" where
  "conformanceSummaryKey c = cs_IntentID c @ '':'' @ itoa (cs_IntentVersion c)"

definition newer_intent :: "OperationalIntent \<Rightarrow> OperationalIntent \<Rightarrow> bool" where
  "newer_intent i latest \<longleftrightarrow> oi_Version i > oi_Version latest
     \<or> (oi_Version i = oi_Version latest \<and> oi_UpdatedAt i > oi_UpdatedAt latest)"

definition latestOperationalIntent :: "Store \<Rightarrow> string \<Rightarrow> OperationalIntent option" where
  "latestOperationalIntent s intentID =
     select_best newer_intent (filter (\<lambda>i. oi_ID i = intentID) (vals (s_operationalIntents s)))"

definition missionDeploymentOutstanding :: "MissionDeploymentStatus \<Rightarrow> bool" where
  "missionDeploymentOutstanding st \<longleftrightarrow> st = MissionDeploymentPending
     \<or> st = MissionDeploymentTemporaryError \<or> st = MissionDeploymentOutcomeUnknown"

definition hasOutstandingMissionDeploymentForFlightLocked :: "Store \<Rightarrow> string \<Rightarrow> bool" where
  "hasOutstandingMissionDeploymentForFlightLocked s flightID \<longleftrightarrow>
     list_ex (\<lambda>d. md_FlightID d = flightID \<and> missionDeploymentOutstanding (md_Status d))
       (vals (s_missionDeployments s))"

definition hasOutstandingMissionDeploymentForIntentLocked :: "Store \<Rightarrow> string \<Rightarrow> bool" where
  "hasOutstandingMissionDeploymentForIntentLocked s intentID \<longleftrightarrow>
     list_ex (\<lambda>f. fl_IntentID f = intentID
         \<and> hasOutstandingMissionDeploymentForFlightLocked s (fl_ID f))
       (vals (s_flightRecords s))"

text \<open>
  Every map holds its records under the key computed from them, with distinct keys. A store
  built from \<open>NewStore\<close> by its operations has this form.
\<close>

definition keyed :: "('v \<Rightarrow> string) \<Rightarrow> 'v gomap \<Rightarrow> bool" where
  "keyed key m \<longleftrightarrow> distinct_keys m \<and> list_all (\<lambda>(k, v). k = key v) m"

abbreviation intent_key :: "OperationalIntent \<Rightarrow> string" where
  "intent_key i \<equiv> operationalIntentKey (oi_ID i) (oi_Version i)"

section \<open>Lemmas\<close>

lemma found_simps [simp]:
  "found None = Inl ErrNotFound" "found (Some v) = Inr v"
  "found r = Inr v \<longleftrightarrow> r = Some v" "found r = Inl e \<longleftrightarrow> r = None \<and> e = ErrNotFound"
  by (auto simp: found_def split: option.splits)

subsection \<open>Keys\<close>

lemma operationalIntentKey_inj [simp]:
  "operationalIntentKey a v = operationalIntentKey b w \<longleftrightarrow> a = b \<and> v = w"
proof
  assume "operationalIntentKey a v = operationalIntentKey b w"
  then have "a @ CHR '':'' # itoa v = b @ CHR '':'' # itoa w"
    by (simp add: operationalIntentKey_def)
  then have "a = b \<and> itoa v = itoa w" by (rule last_sep_inj) simp_all
  then show "a = b \<and> v = w" by simp
qed simp

lemma conformanceSummaryKey_eq:
  "conformanceSummaryKey c = operationalIntentKey (cs_IntentID c) (cs_IntentVersion c)"
  by (simp add: conformanceSummaryKey_def operationalIntentKey_def)

lemma operationalVolumeKey_eq:
  "operationalVolumeKey v = operationalIntentKey (ov_IntentID v) (ov_IntentVersion v) @ CHR '':'' # ov_ID v"
  by (simp add: operationalVolumeKey_def operationalIntentKey_def)

lemma operationalVolumeKey_inj:
  assumes "operationalVolumeKey v = operationalVolumeKey w"
    and "CHR '':'' \<notin> set (ov_ID v)" and "CHR '':'' \<notin> set (ov_ID w)"
  shows "ov_IntentID v = ov_IntentID w \<and> ov_IntentVersion v = ov_IntentVersion w \<and> ov_ID v = ov_ID w"
  using last_sep_inj [OF assms(1) [unfolded operationalVolumeKey_eq] assms(2,3)] by simp

subsection \<open>Keyed maps\<close>

lemma keyedD: "keyed key m \<Longrightarrow> map_of m k = Some v \<Longrightarrow> k = key v"
  by (auto simp: keyed_def list_all_iff dest: map_of_SomeD)

lemma keyed_distinct [simp]: "keyed key m \<Longrightarrow> distinct_keys m"
  by (simp add: keyed_def)

lemma keyed_empty [simp]: "keyed key []"
  by (simp add: keyed_def)

lemma keyed_put [simp]: "keyed key m \<Longrightarrow> key v = k \<Longrightarrow> keyed key (AList.update k v m)"
  by (auto simp: keyed_def list_all_iff set_put)

lemma keyed_put_key [simp]: "keyed key m \<Longrightarrow> keyed key (AList.update (key v) v m)"
  by simp

lemma keyed_filter [simp]: "keyed key m \<Longrightarrow> keyed key (filter P m)"
  by (auto simp: keyed_def list_all_iff)

lemma keyed_map_values:
  "keyed key m \<Longrightarrow> (\<And>k v. key (f k v) = key v) \<Longrightarrow> keyed key (map (\<lambda>(k, v). (k, f k v)) m)"
  by (auto simp: keyed_def list_all_iff)

lemma keyed_vals: "keyed key m \<Longrightarrow> v \<in> set (vals m) \<longleftrightarrow> map_of m (key v) = Some v"
  by (metis vals_iff keyed_distinct keyedD)

lemma keyed_vals_inj:
  "keyed key m \<Longrightarrow> v \<in> set (vals m) \<Longrightarrow> w \<in> set (vals m) \<Longrightarrow> key v = key w \<Longrightarrow> v = w"
  by (metis keyed_vals option.inject)

lemma keyed_same_vals:
  "keyed key m \<Longrightarrow> keyed key m' \<Longrightarrow> map_of m = map_of m' \<Longrightarrow> set (vals m) = set (vals m')"
  by (metis keyed_vals subsetI subset_antisym)

subsection \<open>The latest version of an intent\<close>

interpretation newer_intent: weak_order newer_intent
  by unfold_locales (auto simp: newer_intent_def)

lemma latestOperationalIntent_in:
  "latestOperationalIntent s iid = Some i \<Longrightarrow> oi_ID i = iid \<and> i \<in> set (vals (s_operationalIntents s))"
  unfolding latestOperationalIntent_def by (drule select_best_in) simp

lemma latestOperationalIntent_max:
  "latestOperationalIntent s iid = Some i \<Longrightarrow> j \<in> set (vals (s_operationalIntents s)) \<Longrightarrow> oi_ID j = iid \<Longrightarrow>
     oi_Version j \<le> oi_Version i"
  unfolding latestOperationalIntent_def
  by (drule newer_intent.select_best_max [of _ _ j]) (auto simp: newer_intent_def)

lemma latestOperationalIntent_None:
  "latestOperationalIntent s iid = None \<longleftrightarrow> (\<forall>i \<in> set (vals (s_operationalIntents s)). oi_ID i \<noteq> iid)"
  by (auto simp: latestOperationalIntent_def filter_empty_conv)

text \<open>In a keyed store the latest version is the one stored version that no other exceeds.\<close>

lemma latestOperationalIntent_iff:
  assumes k: "keyed intent_key (s_operationalIntents s)"
  shows "latestOperationalIntent s iid = Some i \<longleftrightarrow>
    oi_ID i = iid \<and> i \<in> set (vals (s_operationalIntents s)) \<and>
    (\<forall>j \<in> set (vals (s_operationalIntents s)). oi_ID j = iid \<longrightarrow> oi_Version j \<le> oi_Version i)"
    (is "_ \<longleftrightarrow> ?max i")
proof
  assume "latestOperationalIntent s iid = Some i"
  then show "?max i" using latestOperationalIntent_in latestOperationalIntent_max by blast
next
  assume max: "?max i"
  then obtain j where j: "latestOperationalIntent s iid = Some j"
    using latestOperationalIntent_None by (cases "latestOperationalIntent s iid") blast+
  then have "j \<in> set (vals (s_operationalIntents s))" and "oi_ID j = iid" and "oi_Version i \<le> oi_Version j"
    using latestOperationalIntent_in latestOperationalIntent_max max by blast+
  with max have "oi_Version j = oi_Version i" by (simp add: antisym)
  with k max \<open>oi_ID j = iid\<close> \<open>j \<in> _\<close> have "j = i" using keyed_vals_inj [OF k] by force
  with j show "latestOperationalIntent s iid = Some i" by simp
qed

lemma latestOperationalIntent_lookup:
  "keyed intent_key (s_operationalIntents s) \<Longrightarrow> latestOperationalIntent s iid = Some i \<Longrightarrow>
     map_of (s_operationalIntents s) (operationalIntentKey iid (oi_Version i)) = Some i"
  using latestOperationalIntent_in [of s iid i] keyed_vals [of intent_key "s_operationalIntents s" i]
  by (auto simp del: map_of_eq_Some_iff)

subsection \<open>Outstanding deployments\<close>

lemma outstanding_flight_iff:
  "hasOutstandingMissionDeploymentForFlightLocked s f \<longleftrightarrow>
     (\<exists>d \<in> set (vals (s_missionDeployments s)). md_FlightID d = f \<and> missionDeploymentOutstanding (md_Status d))"
  by (auto simp: hasOutstandingMissionDeploymentForFlightLocked_def list_ex_iff)

lemma outstanding_intent_iff:
  "hasOutstandingMissionDeploymentForIntentLocked s iid \<longleftrightarrow>
     (\<exists>f \<in> set (vals (s_flightRecords s)). fl_IntentID f = iid
        \<and> hasOutstandingMissionDeploymentForFlightLocked s (fl_ID f))"
  by (auto simp: hasOutstandingMissionDeploymentForIntentLocked_def list_ex_iff)

end
