(* ===== verification/Store_Intents.thy ===== *)
theory Store_Intents
  imports Store_State
begin

text \<open>
  Operational intents, their volumes and their conflict findings in the in-memory store. An
  intent is kept in all its versions; writes go to the latest one and carry the revision the
  writer read. The contract \<open>fenced_intent_write\<close> states what the services rely on; every write
  of the store that changes the latest version is an instance of it.
\<close>

section \<open>Definitions\<close>

subsection \<open>Lifecycle writes\<close>

definition store_intent :: "OperationalIntent \<Rightarrow> Store \<Rightarrow> Store" where
  "store_intent intent s =
     s\<lparr>s_operationalIntents := AList.update (intent_key intent) intent (s_operationalIntents s)\<rparr>"

definition CreateOperationalIntent :: "OperationalIntent \<Rightarrow> Store \<Rightarrow> go_error option \<times> Store" where
  "CreateOperationalIntent intent s =
     (if hasOutstandingMissionDeploymentForIntentLocked s (oi_ID intent)
      then (Some ErrVersionConflict, s)
      else if map_of (s_operationalIntents s) (intent_key intent) \<noteq> None
      then (Some ErrAlreadyExists, s)
      else (None, store_intent (intent\<lparr>oi_Revision := 0\<rparr>) s))"

text \<open>The guards \<open>updateOperationalIntentLocked\<close> and \<open>acceptOperationalIntentLocked\<close> share.\<close>

definition intent_write_guard :: "OperationalIntent \<Rightarrow> int \<Rightarrow> Store \<Rightarrow> go_error option" where
  "intent_write_guard intent expectedRevision s =
     (case latestOperationalIntent s (oi_ID intent) of
        None \<Rightarrow> Some ErrNotFound
      | Some current \<Rightarrow>
          if oi_Version current \<noteq> oi_Version intent \<or> oi_Revision current \<noteq> expectedRevision
          then Some ErrVersionConflict
          else if hasOutstandingMissionDeploymentForIntentLocked s (oi_ID intent)
          then Some ErrVersionConflict
          else None)"

text \<open>The loop over \<open>s.operationalIntents\<close> that rewrites the earlier accepted versions.\<close>

definition prior_map ::
  "(OperationalIntent \<Rightarrow> OperationalIntent) \<Rightarrow> OperationalIntent \<Rightarrow> OperationalIntent \<Rightarrow> OperationalIntent" where
  "prior_map f intent prior =
     (if oi_ID prior \<noteq> oi_ID intent \<or> oi_Version prior \<ge> oi_Version intent
         \<or> oi_Status prior \<noteq> IntentStatusAccepted then prior else f prior)"

definition rewrite_accepted_priors ::
  "(OperationalIntent \<Rightarrow> OperationalIntent) \<Rightarrow> OperationalIntent \<Rightarrow> Store \<Rightarrow> Store" where
  "rewrite_accepted_priors f intent s =
     s\<lparr>s_operationalIntents :=
        map (\<lambda>(key, prior). (key, prior_map f intent prior)) (s_operationalIntents s)\<rparr>"

definition close_prior :: "OperationalIntent \<Rightarrow> OperationalIntent \<Rightarrow> OperationalIntent" where
  "close_prior intent prior = prior\<lparr>
     oi_Status := oi_Status intent, oi_CanceledAt := oi_CanceledAt intent,
     oi_CompletedAt := oi_CompletedAt intent, oi_UpdatedAt := oi_UpdatedAt intent,
     oi_Revision := inc64 (oi_Revision prior)\<rparr>"

definition supersede_prior :: "OperationalIntent \<Rightarrow> OperationalIntent \<Rightarrow> OperationalIntent" where
  "supersede_prior intent prior = prior\<lparr>
     oi_Status := IntentStatusSuperseded, oi_SupersededAt := oi_AcceptedAt intent,
     oi_UpdatedAt := oi_UpdatedAt intent, oi_Revision := inc64 (oi_Revision prior)\<rparr>"

definition updateOperationalIntentLocked ::
  "OperationalIntent \<Rightarrow> int \<Rightarrow> Store \<Rightarrow> go_error option \<times> Store" where
  "updateOperationalIntentLocked intent expectedRevision s =
     (case intent_write_guard intent expectedRevision s of
        Some e \<Rightarrow> (Some e, s)
      | None \<Rightarrow>
          let intent = intent\<lparr>oi_Revision := inc64 expectedRevision\<rparr>;
              s = store_intent intent s
          in if oi_Status intent = IntentStatusCanceled \<or> oi_Status intent = IntentStatusComplete
             then (None, rewrite_accepted_priors (close_prior intent) intent s)
             else (None, s))"

definition UpdateOperationalIntent ::
  "OperationalIntent \<Rightarrow> int \<Rightarrow> Store \<Rightarrow> go_error option \<times> Store" where
  "UpdateOperationalIntent intent expectedRevision s =
     updateOperationalIntentLocked intent expectedRevision s"

definition ActivateOperationalIntent ::
  "OperationalIntent \<Rightarrow> int \<Rightarrow> Store \<Rightarrow> go_error option \<times> Store" where
  "ActivateOperationalIntent intent expectedRevision s =
     (case latestOperationalIntent s (oi_ID intent) of
        None \<Rightarrow> (Some ErrNotFound, s)
      | Some current \<Rightarrow>
          if oi_Version current \<noteq> oi_Version intent \<or> oi_Revision current \<noteq> expectedRevision
          then (Some ErrVersionConflict, s)
          else if list_ex (\<lambda>existing.
              (oi_ID existing \<noteq> oi_ID intent \<or> oi_Version existing \<noteq> oi_Version intent)
              \<and> oi_AircraftID existing = oi_AircraftID intent
              \<and> oi_Status existing = IntentStatusActive) (vals (s_operationalIntents s))
          then (Some ErrActiveIntent, s)
          else updateOperationalIntentLocked intent expectedRevision s)"

definition acceptOperationalIntentLocked ::
  "OperationalIntent \<Rightarrow> int \<Rightarrow> Store \<Rightarrow> go_error option \<times> Store" where
  "acceptOperationalIntentLocked intent expectedRevision s =
     (case intent_write_guard intent expectedRevision s of
        Some e \<Rightarrow> (Some e, s)
      | None \<Rightarrow>
          let intent = intent\<lparr>oi_Revision := inc64 expectedRevision\<rparr>;
              s = store_intent intent s
          in (None, rewrite_accepted_priors (supersede_prior intent) intent s))"

definition AcceptOperationalIntent ::
  "OperationalIntent \<Rightarrow> int \<Rightarrow> Store \<Rightarrow> go_error option \<times> Store" where
  "AcceptOperationalIntent intent expectedRevision s =
     acceptOperationalIntentLocked intent expectedRevision s"

subsection \<open>Reads\<close>

definition GetOperationalIntent :: "string \<Rightarrow> Store \<Rightarrow> OperationalIntent result" where
  "GetOperationalIntent intentID s = found (latestOperationalIntent s intentID)"

definition GetOperationalIntentVersion :: "string \<Rightarrow> int \<Rightarrow> Store \<Rightarrow> OperationalIntent result" where
  "GetOperationalIntentVersion intentID version s =
     found (map_of (s_operationalIntents s) (operationalIntentKey intentID version))"

text \<open>The map \<open>latestByID\<close> the first loop of \<open>ListOperationalIntents\<close> builds.\<close>

definition latest_by_id :: "OperationalIntent list \<Rightarrow> OperationalIntent gomap" where
  "latest_by_id intents = fold (\<lambda>intent m.
     case map_of m (oi_ID intent) of
       None \<Rightarrow> AList.update (oi_ID intent) intent m
     | Some current \<Rightarrow>
         if newer_intent intent current then AList.update (oi_ID intent) intent m else m) intents []"

definition ListOperationalIntents :: "string \<Rightarrow> Store \<Rightarrow> OperationalIntent list result" where
  "ListOperationalIntents aircraftID s =
     Inr (sort_slice (\<lambda>a b. oi_PlannedStartAt a < oi_PlannedStartAt b)
       (filter (\<lambda>i. aircraftID = [] \<or> oi_AircraftID i = aircraftID)
         (vals (latest_by_id (vals (s_operationalIntents s))))))"

definition ListOperationalIntentVersions :: "string \<Rightarrow> Store \<Rightarrow> OperationalIntent list result" where
  "ListOperationalIntentVersions intentID s =
     Inr (sort_slice (\<lambda>a b. if oi_Version a = oi_Version b then oi_UpdatedAt a < oi_UpdatedAt b
                              else oi_Version a < oi_Version b)
       (filter (\<lambda>i. oi_ID i = intentID) (vals (s_operationalIntents s))))"

subsection \<open>Volumes\<close>

text \<open>The verb \<open>q\<close> of \<open>fmt\<close>, for text that needs no escapes.\<close>

definition quote :: "string \<Rightarrow> string" where
  "quote x = [CHR 0x22] @ x @ [CHR 0x22]"

definition put_volumes :: "OperationalVolume list \<Rightarrow> OperationalVolume gomap \<Rightarrow> OperationalVolume gomap" where
  "put_volumes volumes m = fold (\<lambda>v m. AList.update (operationalVolumeKey v) v m) volumes m"

definition replace_volumes ::
  "string \<Rightarrow> int \<Rightarrow> OperationalVolume list \<Rightarrow> OperationalVolume gomap \<Rightarrow> OperationalVolume gomap" where
  "replace_volumes intentID intentVersion volumes m =
     put_volumes volumes
       (filter (\<lambda>(key, v). \<not> (ov_IntentID v = intentID \<and> ov_IntentVersion v = intentVersion)) m)"

definition volume_outside ::
  "string \<Rightarrow> int \<Rightarrow> OperationalVolume list \<Rightarrow> OperationalVolume option" where
  "volume_outside intentID intentVersion volumes =
     find (\<lambda>v. ov_IntentID v \<noteq> intentID \<or> ov_IntentVersion v \<noteq> intentVersion) volumes"

definition outside_scope_error :: "string \<Rightarrow> string \<Rightarrow> go_error" where
  "outside_scope_error what ident = Errorf (what @ quote ident @ '' is outside replacement scope'') []"

definition RecordOperationalVolume :: "OperationalVolume \<Rightarrow> Store \<Rightarrow> go_error option \<times> Store" where
  "RecordOperationalVolume volume s =
     (if hasOutstandingMissionDeploymentForIntentLocked s (ov_IntentID volume)
      then (Some ErrVersionConflict, s)
      else (None, s\<lparr>s_operationalVolumes :=
              AList.update (operationalVolumeKey volume) volume (s_operationalVolumes s)\<rparr>))"

definition ReplaceOperationalVolumes ::
  "string \<Rightarrow> int \<Rightarrow> OperationalVolume list \<Rightarrow> Store \<Rightarrow> go_error option \<times> Store" where
  "ReplaceOperationalVolumes intentID intentVersion volumes s =
     (if hasOutstandingMissionDeploymentForIntentLocked s intentID
      then (Some ErrVersionConflict, s)
      else case volume_outside intentID intentVersion volumes of
        Some v \<Rightarrow> (Some (outside_scope_error ''operational volume '' (ov_ID v)), s)
      | None \<Rightarrow> (None, s\<lparr>s_operationalVolumes :=
                  replace_volumes intentID intentVersion volumes (s_operationalVolumes s)\<rparr>))"

definition ReplaceOperationalIntent ::
  "int \<Rightarrow> int \<Rightarrow> OperationalIntent \<Rightarrow> OperationalVolume list \<Rightarrow> Store \<Rightarrow> go_error option \<times> Store" where
  "ReplaceOperationalIntent expectedVersion expectedRevision intent volumes s =
     (if oi_Version intent \<noteq> expectedVersion \<and> oi_Version intent \<noteq> inc64 expectedVersion
      then (Some ErrVersionConflict, s)
      else case volume_outside (oi_ID intent) (oi_Version intent) volumes of
        Some v \<Rightarrow> (Some (outside_scope_error ''operational volume '' (ov_ID v)), s)
      | None \<Rightarrow>
      case latestOperationalIntent s (oi_ID intent) of
        None \<Rightarrow> (Some ErrNotFound, s)
      | Some current \<Rightarrow>
          if oi_Version current \<noteq> expectedVersion then (Some ErrVersionConflict, s)
          else if oi_Revision current \<noteq> expectedRevision then (Some ErrVersionConflict, s)
          else if hasOutstandingMissionDeploymentForIntentLocked s (oi_ID intent)
          then (Some ErrVersionConflict, s)
          else
            let intent = intent\<lparr>oi_Revision :=
                  (if oi_Version intent = oi_Version current then inc64 expectedRevision else 0)\<rparr>;
                s = store_intent intent s
            in (None, s\<lparr>s_operationalVolumes :=
                  replace_volumes (oi_ID intent) (oi_Version intent) volumes
                    (s_operationalVolumes s)\<rparr>))"

definition ListOperationalVolumes :: "string \<Rightarrow> Store \<Rightarrow> OperationalVolume list result" where
  "ListOperationalVolumes intentID s =
     Inr (sort_slice (\<lambda>a b. if ov_Sequence a = ov_Sequence b then ov_StartsAt a < ov_StartsAt b
                              else ov_Sequence a < ov_Sequence b)
       (filter (\<lambda>v. intentID = [] \<or> ov_IntentID v = intentID) (vals (s_operationalVolumes s))))"

subsection \<open>Conflict findings\<close>

definition RecordConflictFinding :: "ConflictFinding \<Rightarrow> Store \<Rightarrow> go_error option \<times> Store" where
  "RecordConflictFinding finding s =
     (None, s\<lparr>s_conflictFindings := upsert_by cf_ID finding (s_conflictFindings s)\<rparr>)"

definition ListConflictFindings :: "string \<Rightarrow> int \<Rightarrow> Store \<Rightarrow> ConflictFinding list result" where
  "ListConflictFindings intentID intentVersion s =
     Inr (sort_slice (\<lambda>a b. if cf_EvaluatedAt a = cf_EvaluatedAt b then cf_ID a < cf_ID b
                              else cf_EvaluatedAt a > cf_EvaluatedAt b)
       (filter (\<lambda>f. \<not> (intentID \<noteq> [] \<and> cf_IntentID f \<noteq> intentID)
           \<and> \<not> (intentVersion \<noteq> 0 \<and> cf_IntentVersion f \<noteq> intentVersion)) (s_conflictFindings s)))"

definition finding_in_scope :: "string \<Rightarrow> int \<Rightarrow> string \<Rightarrow> ConflictFinding \<Rightarrow> bool" where
  "finding_in_scope intentID intentVersion ruleVersion f \<longleftrightarrow>
     cf_IntentID f = intentID \<and> cf_IntentVersion f = intentVersion \<and> cf_RuleVersion f = ruleVersion"

definition ReplaceConflictFindings ::
  "string \<Rightarrow> int \<Rightarrow> string \<Rightarrow> ConflictFinding list \<Rightarrow> Store \<Rightarrow> go_error option \<times> Store" where
  "ReplaceConflictFindings intentID intentVersion ruleVersion findings s =
     (case find (\<lambda>f. \<not> finding_in_scope intentID intentVersion ruleVersion f) findings of
        Some f \<Rightarrow> (Some (outside_scope_error ''conflict finding '' (cf_ID f)), s)
      | None \<Rightarrow> (None, s\<lparr>s_conflictFindings :=
          filter (\<lambda>f. \<not> finding_in_scope intentID intentVersion ruleVersion f) (s_conflictFindings s)
          @ findings\<rparr>))"

subsection \<open>What the store keeps true of its intents\<close>

definition intents_ok :: "Store \<Rightarrow> bool" where
  "intents_ok s \<longleftrightarrow> keyed intent_key (s_operationalIntents s)"

definition one_active :: "Store \<Rightarrow> bool" where
  "one_active s \<longleftrightarrow> (\<forall>i \<in> set (vals (s_operationalIntents s)). \<forall>j \<in> set (vals (s_operationalIntents s)).
     oi_Status i = IntentStatusActive \<and> oi_Status j = IntentStatusActive
       \<and> oi_AircraftID i = oi_AircraftID j \<longrightarrow> i = j)"

definition volumes_ok :: "Store \<Rightarrow> bool" where
  "volumes_ok s \<longleftrightarrow> keyed operationalVolumeKey (s_operationalVolumes s)
     \<and> (\<forall>v \<in> set (vals (s_operationalVolumes s)). CHR '':'' \<notin> set (ov_ID v))"

text \<open>What makes the store refuse a write besides a stale revision.\<close>

definition fence_blocked :: "OperationalIntent \<Rightarrow> Store \<Rightarrow> bool" where
  "fence_blocked i s \<longleftrightarrow> hasOutstandingMissionDeploymentForIntentLocked s (oi_ID i)"

definition other_active :: "OperationalIntent \<Rightarrow> Store \<Rightarrow> bool" where
  "other_active i s \<longleftrightarrow> (\<exists>j \<in> set (vals (s_operationalIntents s)).
     (oi_ID j \<noteq> oi_ID i \<or> oi_Version j \<noteq> oi_Version i) \<and> oi_AircraftID j = oi_AircraftID i
     \<and> oi_Status j = IntentStatusActive)"

text \<open>A store with one submitted intent, for the instances of the properties.\<close>

definition sample_intent :: OperationalIntent where
  "sample_intent = zero_OperationalIntent\<lparr>oi_ID := ''op-1'', oi_AircraftID := ''uav-1'', oi_Version := 1,
     oi_Status := IntentStatusSubmitted, oi_PlannedStartAt := 10, oi_PlannedEndAt := 20, oi_UpdatedAt := 5\<rparr>"

definition sample_store :: Store where
  "sample_store = store_intent sample_intent NewStore"

definition sample_volume :: OperationalVolume where
  "sample_volume = zero_OperationalVolume\<lparr>ov_ID := ''v1'', ov_IntentID := ''op-1'', ov_IntentVersion := 1,
     ov_MaxAltitudeM := 120, ov_AltitudeRef := AltitudeReferenceAGL, ov_StartsAt := 10, ov_EndsAt := 20\<rparr>"

definition sample_flight :: FlightRecord where
  "sample_flight = zero_FlightRecord\<lparr>fl_ID := ''fl-1'', fl_AircraftID := ''uav-1'', fl_IntentID := ''op-1'',
     fl_IntentVersion := 1, fl_Status := FlightStatusPlanned\<rparr>"

definition sample_deployment :: MissionDeployment where
  "sample_deployment = zero_MissionDeployment\<lparr>md_ID := ''dep-1'', md_FlightID := ''fl-1'',
     md_AircraftID := ''uav-1'', md_IntentID := ''op-1'', md_IntentVersion := 1,
     md_MissionID := ''ms-1'', md_MissionDigest := ''d1'', md_IdempotencyKey := ''k1'',
     md_Status := MissionDeploymentPending\<rparr>"

section \<open>Lemmas\<close>

subsection \<open>Keyed maps of intents\<close>

lemma vals_put:
  "keyed key m \<Longrightarrow> set (vals (AList.update (key v) v m)) = insert v {w \<in> set (vals m). key w \<noteq> key v}"
  by (auto simp: vals_def set_put keyed_def list_all_iff image_iff)

lemma vals_map_values:
  "(\<And>k v. f k v = g v) \<Longrightarrow> set (vals (map (\<lambda>(k, v). (k, f k v)) m)) = g ` set (vals m)"
  by (simp add: vals_def image_image case_prod_unfold)

lemma intents_ok_store [simp]: "intents_ok s \<Longrightarrow> intents_ok (store_intent i s)"
  by (simp add: intents_ok_def store_intent_def)

lemma vals_store_intent:
  "intents_ok s \<Longrightarrow> set (vals (s_operationalIntents (store_intent i s))) =
     insert i {j \<in> set (vals (s_operationalIntents s)). intent_key j \<noteq> intent_key i}"
  using vals_put [of intent_key "s_operationalIntents s" i]
  by (simp add: intents_ok_def store_intent_def)

lemma store_intent_frame [simp]:
  "s_flightRecords (store_intent i s) = s_flightRecords s"
  "s_missionDeployments (store_intent i s) = s_missionDeployments s"
  "s_operationalVolumes (store_intent i s) = s_operationalVolumes s"
  "s_publications (store_intent i s) = s_publications s"
  by (simp_all add: store_intent_def)

lemma vals_rewrite_priors:
  "set (vals (s_operationalIntents (rewrite_accepted_priors f i s))) =
     prior_map f i ` set (vals (s_operationalIntents s))"
  unfolding rewrite_accepted_priors_def by (simp add: vals_map_values)

lemma prior_map_key:
  assumes "\<And>p. oi_ID (f p) = oi_ID p" and "\<And>p. oi_Version (f p) = oi_Version p"
  shows "oi_ID (prior_map f i p) = oi_ID p" and "oi_Version (prior_map f i p) = oi_Version p"
  using assms by (simp_all add: prior_map_def)

lemma prior_fields [simp]:
  "oi_ID (close_prior i p) = oi_ID p" "oi_Version (close_prior i p) = oi_Version p"
  "oi_AircraftID (close_prior i p) = oi_AircraftID p" "oi_Status (close_prior i p) = oi_Status i"
  "oi_ID (supersede_prior i p) = oi_ID p" "oi_Version (supersede_prior i p) = oi_Version p"
  "oi_AircraftID (supersede_prior i p) = oi_AircraftID p"
  "oi_Status (supersede_prior i p) = IntentStatusSuperseded"
  by (simp_all add: close_prior_def supersede_prior_def)

lemma intents_ok_rewrite:
  assumes "intents_ok s" "\<And>p. oi_ID (f p) = oi_ID p" "\<And>p. oi_Version (f p) = oi_Version p"
  shows "intents_ok (rewrite_accepted_priors f i s)"
  using assms prior_map_key [of f] unfolding intents_ok_def rewrite_accepted_priors_def
  by (simp add: keyed_map_values)

lemma rewrite_priors_frame [simp]:
  "s_flightRecords (rewrite_accepted_priors f i s) = s_flightRecords s"
  "s_missionDeployments (rewrite_accepted_priors f i s) = s_missionDeployments s"
  "s_operationalVolumes (rewrite_accepted_priors f i s) = s_operationalVolumes s"
  "s_publications (rewrite_accepted_priors f i s) = s_publications s"
  by (simp_all add: rewrite_accepted_priors_def)

subsection \<open>The latest version after a write\<close>

lemma latest_store_intent:
  assumes ok: "intents_ok s"
    and top: "\<And>c. latestOperationalIntent s (oi_ID i) = Some c \<Longrightarrow> oi_Version c \<le> oi_Version i"
  shows "latestOperationalIntent (store_intent i s) iid =
    (if iid = oi_ID i then Some i else latestOperationalIntent s iid)"
proof (cases "iid = oi_ID i")
  case True
  have "oi_Version j \<le> oi_Version i"
    if "j \<in> set (vals (s_operationalIntents s))" "oi_ID j = oi_ID i" for j
  proof (cases "latestOperationalIntent s (oi_ID i)")
    case None
    with that show ?thesis by (auto simp: latestOperationalIntent_None)
  next
    case (Some c)
    with that top show ?thesis using latestOperationalIntent_max by fastforce
  qed
  with True ok have "latestOperationalIntent (store_intent i s) iid = Some i"
    by (subst latestOperationalIntent_iff)
      (auto simp: vals_store_intent intents_ok_def [symmetric])
  with True show ?thesis by simp
next
  case False
  then have same: "j \<in> set (vals (s_operationalIntents (store_intent i s))) \<longleftrightarrow>
      j \<in> set (vals (s_operationalIntents s))" if "oi_ID j = iid" for j
    using ok that by (auto simp: vals_store_intent)
  have "latestOperationalIntent (store_intent i s) iid = Some j \<longleftrightarrow>
      latestOperationalIntent s iid = Some j" for j
    using ok same by (subst (1 2) latestOperationalIntent_iff) (auto simp: intents_ok_def [symmetric])
  with False show ?thesis by (metis not_Some_eq)
qed

lemma latest_rewrite_priors:
  assumes ok: "intents_ok s"
    and f: "\<And>p. oi_ID (f p) = oi_ID p" "\<And>p. oi_Version (f p) = oi_Version p"
  shows "latestOperationalIntent (rewrite_accepted_priors f i s) iid =
    map_option (prior_map f i) (latestOperationalIntent s iid)"
proof (cases "latestOperationalIntent s iid")
  case None
  then have "latestOperationalIntent (rewrite_accepted_priors f i s) iid = None"
    using prior_map_key [of f, OF f] by (auto simp: latestOperationalIntent_None vals_rewrite_priors)
  with None show ?thesis by simp
next
  case (Some c)
  with ok have c: "oi_ID c = iid" "c \<in> set (vals (s_operationalIntents s))"
    "\<And>j. j \<in> set (vals (s_operationalIntents s)) \<Longrightarrow> oi_ID j = iid \<Longrightarrow> oi_Version j \<le> oi_Version c"
    by (auto simp: latestOperationalIntent_iff intents_ok_def)
  have "intents_ok (rewrite_accepted_priors f i s)" by (rule intents_ok_rewrite [OF ok f])
  then have "latestOperationalIntent (rewrite_accepted_priors f i s) iid = Some (prior_map f i c)"
    using c prior_map_key [of f, OF f]
    by (subst latestOperationalIntent_iff) (auto simp: vals_rewrite_priors intents_ok_def)
  with Some show ?thesis by simp
qed

lemma latest_store_rewrite:
  assumes ok: "intents_ok s" and c: "latestOperationalIntent s (oi_ID i) = Some c"
    and v: "oi_Version c = oi_Version i"
    and f: "\<And>p. oi_ID (f p) = oi_ID p" "\<And>p. oi_Version (f p) = oi_Version p"
  shows "latestOperationalIntent (rewrite_accepted_priors f i (store_intent i s)) iid =
    (if iid = oi_ID i then Some i else latestOperationalIntent s iid)"
proof -
  have st: "latestOperationalIntent (store_intent i s) iid =
      (if iid = oi_ID i then Some i else latestOperationalIntent s iid)"
    using c v by (intro latest_store_intent [OF ok]) auto
  have "latestOperationalIntent (rewrite_accepted_priors f i (store_intent i s)) iid =
      map_option (prior_map f i) (latestOperationalIntent (store_intent i s) iid)"
    by (rule latest_rewrite_priors) (simp_all add: ok f)
  also have "\<dots> = latestOperationalIntent (store_intent i s) iid"
  proof (cases "latestOperationalIntent (store_intent i s) iid")
    case (Some j)
    then have "prior_map f i j = j"
      using st latestOperationalIntent_in [of s iid j] by (auto simp: prior_map_def split: if_splits)
    with Some show ?thesis by simp
  qed simp
  finally show ?thesis using st by simp
qed

subsection \<open>The contract of a fenced write\<close>

text \<open>
  A write to the latest version of an intent that carries the revision its writer read.
  \<open>blocked\<close> is what else makes the store refuse it. The services above the store use nothing
  but these laws.
\<close>

locale fenced_intent_write =
  fixes write_op :: "OperationalIntent \<Rightarrow> int \<Rightarrow> Store \<Rightarrow> go_error option \<times> Store"
    and blocked :: "OperationalIntent \<Rightarrow> Store \<Rightarrow> bool"
  assumes op_missing: "latestOperationalIntent s (oi_ID i) = None \<Longrightarrow> write_op i r s = (Some ErrNotFound, s)"
    and op_stale: "latestOperationalIntent s (oi_ID i) = Some c \<Longrightarrow>
      oi_Version c \<noteq> oi_Version i \<or> oi_Revision c \<noteq> r \<Longrightarrow> write_op i r s = (Some ErrVersionConflict, s)"
    and op_blocked: "latestOperationalIntent s (oi_ID i) = Some c \<Longrightarrow> blocked i s \<Longrightarrow>
      fst (write_op i r s) \<noteq> None \<and> snd (write_op i r s) = s"
    and op_granted: "intents_ok s \<Longrightarrow> latestOperationalIntent s (oi_ID i) = Some c \<Longrightarrow>
      oi_Version c = oi_Version i \<Longrightarrow> oi_Revision c = r \<Longrightarrow> \<not> blocked i s \<Longrightarrow>
      fst (write_op i r s) = None \<and> intents_ok (snd (write_op i r s)) \<and>
      latestOperationalIntent (snd (write_op i r s)) iid =
        (if iid = oi_ID i then Some (i\<lparr>oi_Revision := inc64 r\<rparr>) else latestOperationalIntent s iid)"
begin

lemma op_success:
  assumes "intents_ok s"
  shows "fst (write_op i r s) = None \<longleftrightarrow>
    (\<exists>c. latestOperationalIntent s (oi_ID i) = Some c \<and> oi_Version c = oi_Version i
       \<and> oi_Revision c = r \<and> \<not> blocked i s)"
proof (cases "latestOperationalIntent s (oi_ID i)")
  case None
  then show ?thesis by (simp add: op_missing)
next
  case (Some c)
  show ?thesis
  proof (cases "oi_Version c = oi_Version i \<and> oi_Revision c = r \<and> \<not> blocked i s")
    case True
    with Some assms show ?thesis using op_granted [OF assms Some] by auto
  next
    case False
    with Some show ?thesis using op_stale [OF Some, of r] op_blocked [OF Some, of r] by auto
  qed
qed

lemma op_latest:
  "intents_ok s \<Longrightarrow> fst (write_op i r s) = None \<Longrightarrow>
     latestOperationalIntent (snd (write_op i r s)) iid =
       (if iid = oi_ID i then Some (i\<lparr>oi_Revision := inc64 r\<rparr>) else latestOperationalIntent s iid)"
  using op_success op_granted by blast

lemma op_error_unchanged: "intents_ok s \<Longrightarrow> fst (write_op i r s) = Some e \<Longrightarrow> snd (write_op i r s) = s"
proof (cases "latestOperationalIntent s (oi_ID i)")
  case None
  then show ?thesis by (simp add: op_missing)
next
  case (Some c)
  assume ok: "intents_ok s" and e: "fst (write_op i r s) = Some e"
  then have "\<not> (oi_Version c = oi_Version i \<and> oi_Revision c = r \<and> \<not> blocked i s)"
    using op_granted [OF ok Some, of r] by auto
  then show ?thesis using op_stale [OF Some, of r] op_blocked [OF Some, of r] by auto
qed

lemma op_keeps_ok: "intents_ok s \<Longrightarrow> intents_ok (snd (write_op i r s))"
  using op_success op_granted op_error_unchanged by (metis option.exhaust)

end

text \<open>Two kinds of write that meet: the later of two writers with one revision loses.\<close>

locale fenced_pair = fst_w: fenced_intent_write w1 b1 + snd_w: fenced_intent_write w2 b2
  for w1 b1 w2 b2
begin

lemma lost_update_refused:
  assumes "intents_ok s" and "fst (w1 i r s) = None" and "oi_ID j = oi_ID i" and "int64_range r"
  shows "w2 j r (snd (w1 i r s)) = (Some ErrVersionConflict, snd (w1 i r s))"
proof (rule snd_w.op_stale)
  show "latestOperationalIntent (snd (w1 i r s)) (oi_ID j) = Some (i\<lparr>oi_Revision := inc64 r\<rparr>)"
    using fst_w.op_latest [OF assms(1,2)] assms(3) by simp
  show "oi_Version (i\<lparr>oi_Revision := inc64 r\<rparr>) \<noteq> oi_Version j \<or> oi_Revision (i\<lparr>oi_Revision := inc64 r\<rparr>) \<noteq> r"
    using inc64_neq [OF assms(4)] by simp
qed

end

lemma intent_write_guard_None:
  "intent_write_guard i r s = None \<longleftrightarrow>
     (\<exists>c. latestOperationalIntent s (oi_ID i) = Some c \<and> oi_Version c = oi_Version i
        \<and> oi_Revision c = r \<and> \<not> fence_blocked i s)"
  by (auto simp: intent_write_guard_def fence_blocked_def split: option.splits)

lemma guard_below:
  assumes "intent_write_guard i r s = None" and "p \<in> set (vals (s_operationalIntents s))"
    and "oi_ID p = oi_ID i" and "oi_Version p \<noteq> oi_Version i"
  shows "oi_Version p < oi_Version i"
proof -
  from assms(1) obtain c where "latestOperationalIntent s (oi_ID i) = Some c" "oi_Version c = oi_Version i"
    by (auto simp: intent_write_guard_None)
  with assms(2-4) show ?thesis using latestOperationalIntent_max [of s "oi_ID i" c p] by simp
qed

lemma update_granted:
  "intent_write_guard i r s = None \<Longrightarrow> updateOperationalIntentLocked i r s =
     (None, if oi_Status i = IntentStatusCanceled \<or> oi_Status i = IntentStatusComplete
            then rewrite_accepted_priors (close_prior (i\<lparr>oi_Revision := inc64 r\<rparr>)) (i\<lparr>oi_Revision := inc64 r\<rparr>)
                   (store_intent (i\<lparr>oi_Revision := inc64 r\<rparr>) s)
            else store_intent (i\<lparr>oi_Revision := inc64 r\<rparr>) s)"
  by (simp add: updateOperationalIntentLocked_def Let_def)

lemma accept_granted:
  "intent_write_guard i r s = None \<Longrightarrow> acceptOperationalIntentLocked i r s =
     (None, rewrite_accepted_priors (supersede_prior (i\<lparr>oi_Revision := inc64 r\<rparr>)) (i\<lparr>oi_Revision := inc64 r\<rparr>)
              (store_intent (i\<lparr>oi_Revision := inc64 r\<rparr>) s))"
  by (simp add: acceptOperationalIntentLocked_def Let_def)

interpretation update_write: fenced_intent_write updateOperationalIntentLocked fence_blocked
proof
  fix s i r c iid
  assume ok: "intents_ok s" and c: "latestOperationalIntent s (oi_ID i) = Some c"
    and v: "oi_Version c = oi_Version i" and "oi_Revision c = r" and "\<not> fence_blocked i s"
  then have g: "intent_write_guard i r s = None" by (auto simp: intent_write_guard_None)
  let ?i = "i\<lparr>oi_Revision := inc64 r\<rparr>"
  have st: "latestOperationalIntent (store_intent ?i s) iid =
      (if iid = oi_ID i then Some ?i else latestOperationalIntent s iid)"
    using latest_store_intent [OF ok, of ?i] c v by simp
  show "fst (updateOperationalIntentLocked i r s) = None
      \<and> intents_ok (snd (updateOperationalIntentLocked i r s))
      \<and> latestOperationalIntent (snd (updateOperationalIntentLocked i r s)) iid =
         (if iid = oi_ID i then Some ?i else latestOperationalIntent s iid)"
    using st latest_store_rewrite [OF ok, of ?i c "close_prior ?i"] c v ok
    by (auto simp: update_granted [OF g] intents_ok_rewrite)
qed (auto simp: updateOperationalIntentLocked_def intent_write_guard_def fence_blocked_def Let_def
      split: option.splits)

interpretation accept_write: fenced_intent_write acceptOperationalIntentLocked fence_blocked
proof
  fix s i r c iid
  assume ok: "intents_ok s" and c: "latestOperationalIntent s (oi_ID i) = Some c"
    and v: "oi_Version c = oi_Version i" and "oi_Revision c = r" and "\<not> fence_blocked i s"
  then have g: "intent_write_guard i r s = None" by (auto simp: intent_write_guard_None)
  let ?i = "i\<lparr>oi_Revision := inc64 r\<rparr>"
  show "fst (acceptOperationalIntentLocked i r s) = None
      \<and> intents_ok (snd (acceptOperationalIntentLocked i r s))
      \<and> latestOperationalIntent (snd (acceptOperationalIntentLocked i r s)) iid =
         (if iid = oi_ID i then Some ?i else latestOperationalIntent s iid)"
    using latest_store_rewrite [OF ok, of ?i c "supersede_prior ?i"] c v ok
    by (auto simp: accept_granted [OF g] intents_ok_rewrite)
qed (auto simp: acceptOperationalIntentLocked_def intent_write_guard_def fence_blocked_def Let_def
      split: option.splits)

lemma activate_eq:
  "latestOperationalIntent s (oi_ID i) = Some c \<Longrightarrow> oi_Version c = oi_Version i \<Longrightarrow> oi_Revision c = r \<Longrightarrow>
     ActivateOperationalIntent i r s =
       (if other_active i s then (Some ErrActiveIntent, s) else updateOperationalIntentLocked i r s)"
  by (auto simp: ActivateOperationalIntent_def other_active_def list_ex_iff)

interpretation activate_write: fenced_intent_write ActivateOperationalIntent
  "\<lambda>i s. fence_blocked i s \<or> other_active i s"
proof
  fix s i r c
  assume c: "latestOperationalIntent s (oi_ID i) = Some c" and b: "fence_blocked i s \<or> other_active i s"
  show "fst (ActivateOperationalIntent i r s) \<noteq> None \<and> snd (ActivateOperationalIntent i r s) = s"
  proof (cases "oi_Version c = oi_Version i \<and> oi_Revision c = r")
    case True
    with c b show ?thesis using update_write.op_blocked [OF c] by (auto simp: activate_eq)
  next
    case False
    with c show ?thesis by (auto simp: ActivateOperationalIntent_def)
  qed
next
  fix s i r c iid
  assume "intents_ok s" and "latestOperationalIntent s (oi_ID i) = Some c" and "oi_Version c = oi_Version i"
    and "oi_Revision c = r" and "\<not> (fence_blocked i s \<or> other_active i s)"
  then show "fst (ActivateOperationalIntent i r s) = None \<and> intents_ok (snd (ActivateOperationalIntent i r s))
      \<and> latestOperationalIntent (snd (ActivateOperationalIntent i r s)) iid =
        (if iid = oi_ID i then Some (i\<lparr>oi_Revision := inc64 r\<rparr>) else latestOperationalIntent s iid)"
    using update_write.op_granted [of s i c r] by (simp add: activate_eq)
qed (auto simp: ActivateOperationalIntent_def)

lemma UpdateOperationalIntent_eq [simp]: "UpdateOperationalIntent = updateOperationalIntentLocked"
  by (intro ext) (simp add: UpdateOperationalIntent_def)

lemma AcceptOperationalIntent_eq [simp]: "AcceptOperationalIntent = acceptOperationalIntentLocked"
  by (intro ext) (simp add: AcceptOperationalIntent_def)

interpretation update_vs_accept: fenced_pair
  updateOperationalIntentLocked fence_blocked acceptOperationalIntentLocked fence_blocked
  by unfold_locales

interpretation accept_vs_update: fenced_pair
  acceptOperationalIntentLocked fence_blocked updateOperationalIntentLocked fence_blocked
  by unfold_locales

lemma lifecycle_writes_fenced:
  "w \<in> {UpdateOperationalIntent, AcceptOperationalIntent, ActivateOperationalIntent} \<Longrightarrow>
     \<exists>b. fenced_intent_write w b"
  using update_write.fenced_intent_write_axioms accept_write.fenced_intent_write_axioms
    activate_write.fenced_intent_write_axioms by auto

subsection \<open>Listing intents\<close>

lemma latest_by_id_fold:
  "map_of (fold (\<lambda>intent m.
       case map_of m (oi_ID intent) of
         None \<Rightarrow> AList.update (oi_ID intent) intent m
       | Some current \<Rightarrow>
           if newer_intent intent current then AList.update (oi_ID intent) intent m else m) xs m) iid =
     fold (keep_better newer_intent) (filter (\<lambda>i. oi_ID i = iid) xs) (map_of m iid)"
proof (induction xs arbitrary: m)
  case (Cons x xs)
  then show ?case
    by (cases "map_of m (oi_ID x)") (auto simp: Cons.IH keep_better_def split: option.splits)
qed simp

lemma map_of_latest_by_id:
  "map_of (latest_by_id (vals (s_operationalIntents s))) iid = latestOperationalIntent s iid"
  using latest_by_id_fold [of "vals (s_operationalIntents s)" "[]" iid]
  by (simp add: latest_by_id_def latestOperationalIntent_def select_best_def)

lemma keyed_latest_by_id: "keyed oi_ID (latest_by_id xs)"
proof -
  have "keyed oi_ID m \<Longrightarrow> keyed oi_ID (fold (\<lambda>intent m.
       case map_of m (oi_ID intent) of
         None \<Rightarrow> AList.update (oi_ID intent) intent m
       | Some current \<Rightarrow>
           if newer_intent intent current then AList.update (oi_ID intent) intent m else m) xs m)" for m
    by (induction xs arbitrary: m) (auto split: option.splits)
  then show ?thesis by (simp add: latest_by_id_def)
qed

lemma keyed_distinct_vals: "keyed key m \<Longrightarrow> distinct (map key (vals m))"
proof -
  assume k: "keyed key m"
  then have "map key (vals m) = map fst m"
    by (auto simp: vals_def keyed_def list_all_iff)
  with k show ?thesis by simp
qed

interpretation by_planned_start: weak_order "\<lambda>a b. oi_PlannedStartAt a < oi_PlannedStartAt b"
  by (rule weak_order_key)

interpretation by_version: weak_order
  "\<lambda>a b. if oi_Version a = oi_Version b then oi_UpdatedAt a < oi_UpdatedAt b else oi_Version a < oi_Version b"
  by (rule weak_order_lex)

subsection \<open>Volumes\<close>

interpretation by_sequence: weak_order
  "\<lambda>a b. if ov_Sequence a = ov_Sequence b then ov_StartsAt a < ov_StartsAt b else ov_Sequence a < ov_Sequence b"
  by (rule weak_order_lex)

lemma vals_fold_put:
  assumes "keyed key m" and "distinct (map key vs)" and "key ` set vs \<inter> key ` set (vals m) = {}"
  shows "keyed key (fold (\<lambda>v m. AList.update (key v) v m) vs m)"
    and "set (vals (fold (\<lambda>v m. AList.update (key v) v m) vs m)) = set (vals m) \<union> set vs"
proof -
  have "keyed key (fold (\<lambda>v m. AList.update (key v) v m) vs m)
      \<and> set (vals (fold (\<lambda>v m. AList.update (key v) v m) vs m)) = set (vals m) \<union> set vs"
    using assms
  proof (induction vs arbitrary: m)
    case (Cons v vs)
    have vals: "set (vals (AList.update (key v) v m)) = insert v (set (vals m))"
    proof -
      have "key w \<noteq> key v" if "w \<in> set (vals m)" for w
        using Cons.prems(3) imageI [OF that, of key] by auto
      with Cons.prems(1) show ?thesis by (auto simp: vals_put)
    qed
    have "keyed key (AList.update (key v) v m)" using Cons.prems by simp
    moreover have "key ` set vs \<inter> key ` set (vals (AList.update (key v) v m)) = {}"
      using Cons.prems by (auto simp: vals simp flip: image_set)
    ultimately show ?case using Cons.IH [of "AList.update (key v) v m"] Cons.prems by (auto simp: vals)
  qed simp
  then show "keyed key (fold (\<lambda>v m. AList.update (key v) v m) vs m)"
    and "set (vals (fold (\<lambda>v m. AList.update (key v) v m) vs m)) = set (vals m) \<union> set vs" by auto
qed

lemma volume_outside_None:
  "volume_outside iid ver vs = None \<longleftrightarrow> (\<forall>v \<in> set vs. ov_IntentID v = iid \<and> ov_IntentVersion v = ver)"
  by (auto simp: volume_outside_def find_None_iff)

lemma vals_filter: "set (vals (filter (\<lambda>(k, v). P v) m)) = {v \<in> set (vals m). P v}"
  by (auto simp: vals_def image_iff)

lemma replace_volumes_set:
  assumes "volumes_ok s" and "volume_outside iid ver vs = None"
    and "\<forall>v \<in> set vs. CHR '':'' \<notin> set (ov_ID v)" and "distinct (map ov_ID vs)"
  shows "keyed operationalVolumeKey (replace_volumes iid ver vs (s_operationalVolumes s))"
    and "set (vals (replace_volumes iid ver vs (s_operationalVolumes s))) =
      {v \<in> set (vals (s_operationalVolumes s)). \<not> (ov_IntentID v = iid \<and> ov_IntentVersion v = ver)} \<union> set vs"
proof -
  let ?m = "filter (\<lambda>(key, v). \<not> (ov_IntentID v = iid \<and> ov_IntentVersion v = ver)) (s_operationalVolumes s)"
  have scope: "ov_IntentID v = iid \<and> ov_IntentVersion v = ver" if "v \<in> set vs" for v
    using assms(2) that by (simp add: volume_outside_None)
  have k: "keyed operationalVolumeKey ?m" using assms(1) by (simp add: volumes_ok_def)
  have m: "set (vals ?m) =
      {v \<in> set (vals (s_operationalVolumes s)). \<not> (ov_IntentID v = iid \<and> ov_IntentVersion v = ver)}"
    by (rule vals_filter)
  have inj: "inj_on operationalVolumeKey (set vs)"
    using scope by (auto simp: inj_on_def operationalVolumeKey_eq)
      (metis assms(4) distinct_map inj_onD)
  have d: "distinct (map operationalVolumeKey vs)"
    using inj assms(4) by (simp add: distinct_map)
  have disj: "operationalVolumeKey ` set vs \<inter> operationalVolumeKey ` set (vals ?m) = {}"
  proof (rule equals0I)
    fix k assume "k \<in> operationalVolumeKey ` set vs \<inter> operationalVolumeKey ` set (vals ?m)"
    then obtain v w where v: "v \<in> set vs" and w: "w \<in> set (vals ?m)"
      and eq: "operationalVolumeKey v = operationalVolumeKey w" by auto
    have "CHR '':'' \<notin> set (ov_ID v)" and "CHR '':'' \<notin> set (ov_ID w)"
      using assms(1,3) v w m by (auto simp: volumes_ok_def)
    from operationalVolumeKey_inj [OF eq this] scope [OF v] w m show False by auto
  qed
  show "keyed operationalVolumeKey (replace_volumes iid ver vs (s_operationalVolumes s))"
    and "set (vals (replace_volumes iid ver vs (s_operationalVolumes s))) =
      {v \<in> set (vals (s_operationalVolumes s)). \<not> (ov_IntentID v = iid \<and> ov_IntentVersion v = ver)} \<union> set vs"
    unfolding replace_volumes_def put_volumes_def
    using vals_fold_put [OF k d disj] m by simp_all
qed

subsection \<open>Conflict findings\<close>

interpretation conflict_log: id_log s_conflictFindings cf_ID RecordConflictFinding
  by unfold_locales (simp_all add: RecordConflictFinding_def)

lemma replace_findings_ok:
  "list_all (finding_in_scope iid ver rule) fs \<Longrightarrow> ReplaceConflictFindings iid ver rule fs s =
     (None, s\<lparr>s_conflictFindings :=
        filter (\<lambda>f. \<not> finding_in_scope iid ver rule f) (s_conflictFindings s) @ fs\<rparr>)"
  by (auto simp: ReplaceConflictFindings_def find_Some_iff list_all_length split: option.splits)

section \<open>Properties\<close>

text \<open>
  No lost update. Whichever of the lifecycle writes \<open>UpdateOperationalIntent\<close>,
  \<open>AcceptOperationalIntent\<close> and \<open>ActivateOperationalIntent\<close> goes through first with a revision,
  every later one for the same intent with that revision is refused with
  \<open>ErrVersionConflict\<close> and leaves the store as it is.
\<close>

theorem lost_update_excluded:
  assumes "w1 \<in> {UpdateOperationalIntent, AcceptOperationalIntent, ActivateOperationalIntent}"
    and "w2 \<in> {UpdateOperationalIntent, AcceptOperationalIntent, ActivateOperationalIntent}"
    and "intents_ok s" and "int64_range r" and "oi_ID j = oi_ID i"
    and "fst (w1 i r s) = None"
  shows "w2 j r (snd (w1 i r s)) = (Some ErrVersionConflict, snd (w1 i r s))"
proof -
  obtain b1 b2 where "fenced_intent_write w1 b1" and "fenced_intent_write w2 b2"
    using lifecycle_writes_fenced assms(1,2) by blast
  then have "fenced_pair w1 b1 w2 b2" by (rule fenced_pair.intro)
  then show ?thesis using fenced_pair.lost_update_refused assms(3-6) by blast
qed

lemma sample_ok [simp]: "intents_ok sample_store"
  by (simp add: sample_store_def intents_ok_def store_intent_def NewStore_def keyed_def)

theorem lost_update_excluded_witness:
  "AcceptOperationalIntent sample_intent 0 (snd (UpdateOperationalIntent sample_intent 0 sample_store))
   = (Some ErrVersionConflict, snd (UpdateOperationalIntent sample_intent 0 sample_store))"
proof -
  have "fst (UpdateOperationalIntent sample_intent 0 sample_store) = None" by code_simp
  then show ?thesis
    by (intro lost_update_excluded) (simp_all add: int64_range_def)
qed

text \<open>
  The latest version of an intent does not depend on the order in which Go iterates over the
  map: two stores whose maps of intents hold the same entries, in any order, give the same
  answer, and that answer is the stored version no other stored version of the intent exceeds.
\<close>

theorem latest_intent_order_independent:
  assumes "intents_ok s" and "intents_ok s'"
    and "map_of (s_operationalIntents s) = map_of (s_operationalIntents s')"
  shows "GetOperationalIntent iid s = GetOperationalIntent iid s' \<and>
    (\<forall>i. GetOperationalIntent iid s = Inr i \<longleftrightarrow>
       map_of (s_operationalIntents s) (operationalIntentKey iid (oi_Version i)) = Some i \<and> oi_ID i = iid \<and>
       (\<forall>v j. map_of (s_operationalIntents s) (operationalIntentKey iid v) = Some j \<longrightarrow> v \<le> oi_Version i))"
proof -
  have k: "keyed intent_key (s_operationalIntents s)" and k': "keyed intent_key (s_operationalIntents s')"
    using assms(1,2) by (simp_all add: intents_ok_def)
  have "set (vals (s_operationalIntents s)) = set (vals (s_operationalIntents s'))"
    by (rule keyed_same_vals [OF k k' assms(3)])
  then have "latestOperationalIntent s iid = Some i \<longleftrightarrow> latestOperationalIntent s' iid = Some i" for i
    using k k' by (simp add: latestOperationalIntent_iff)
  then have same: "latestOperationalIntent s iid = latestOperationalIntent s' iid"
    by (metis option.exhaust)
  have look: "j \<in> set (vals (s_operationalIntents s)) \<and> oi_ID j = iid \<and> oi_Version j = v \<longleftrightarrow>
      map_of (s_operationalIntents s) (operationalIntentKey iid v) = Some j" for j v
    using keyed_vals [OF k] keyedD [OF k] by (metis operationalIntentKey_inj)
  then have look': "j \<in> set (vals (s_operationalIntents s)) \<and> oi_ID j = iid \<longleftrightarrow>
      map_of (s_operationalIntents s) (operationalIntentKey iid (oi_Version j)) = Some j" for j
    by metis
  have "latestOperationalIntent s iid = Some i \<longleftrightarrow>
      map_of (s_operationalIntents s) (operationalIntentKey iid (oi_Version i)) = Some i \<and> oi_ID i = iid \<and>
      (\<forall>v j. map_of (s_operationalIntents s) (operationalIntentKey iid v) = Some j \<longrightarrow> v \<le> oi_Version i)" for i
    unfolding latestOperationalIntent_iff [OF k] using look look' by metis
  with same show ?thesis by (simp add: GetOperationalIntent_def del: map_of_eq_Some_iff)
qed

theorem latest_intent_order_independent_witness:
  "GetOperationalIntent ''op-1'' (sample_store\<lparr>s_operationalIntents :=
      [(''op-1:1'', sample_intent), (''op-1:2'', sample_intent\<lparr>oi_Version := 2\<rparr>)]\<rparr>)
   = GetOperationalIntent ''op-1'' (sample_store\<lparr>s_operationalIntents :=
      [(''op-1:2'', sample_intent\<lparr>oi_Version := 2\<rparr>), (''op-1:1'', sample_intent)]\<rparr>)"
proof -
  have key: "intent_key sample_intent = ''op-1:1''"
    "operationalIntentKey (oi_ID sample_intent) 2 = ''op-1:2''" by code_simp+
  show ?thesis
    by (rule conjunct1 [OF latest_intent_order_independent])
      (auto simp: intents_ok_def keyed_def key fun_eq_iff)
qed

text \<open>
  Acceptance supersedes. After a successful \<open>AcceptOperationalIntent\<close> of a version of an
  intent, that version is the only accepted one of the intent; every earlier version that was
  accepted is superseded at the instant of acceptance; all other versions, and every other
  intent, are as before.
\<close>

theorem accept_supersedes_earlier_versions:
  assumes ok: "intents_ok s" and acc: "AcceptOperationalIntent i r s = (None, s')"
    and st: "oi_Status i = IntentStatusAccepted"
  shows "(\<forall>j \<in> set (vals (s_operationalIntents s')).
        oi_ID j = oi_ID i \<and> oi_Status j = IntentStatusAccepted \<longrightarrow> j = i\<lparr>oi_Revision := inc64 r\<rparr>)
    \<and> i\<lparr>oi_Revision := inc64 r\<rparr> \<in> set (vals (s_operationalIntents s'))
    \<and> (\<forall>p \<in> set (vals (s_operationalIntents s)). intent_key p \<noteq> intent_key i \<longrightarrow>
        (if oi_ID p = oi_ID i \<and> oi_Status p = IntentStatusAccepted
         then p\<lparr>oi_Status := IntentStatusSuperseded, oi_SupersededAt := oi_AcceptedAt i,
                oi_UpdatedAt := oi_UpdatedAt i, oi_Revision := inc64 (oi_Revision p)\<rparr>
         else p) \<in> set (vals (s_operationalIntents s')))"
proof -
  let ?i = "i\<lparr>oi_Revision := inc64 r\<rparr>"
  have g: "intent_write_guard i r s = None"
    using acc by (auto simp: acceptOperationalIntentLocked_def split: option.splits)
  note below = guard_below [OF g]
  have s': "s' = rewrite_accepted_priors (supersede_prior ?i) ?i (store_intent ?i s)"
    using acc by (simp add: accept_granted [OF g])
  have vals: "set (vals (s_operationalIntents s')) = prior_map (supersede_prior ?i) ?i `
      insert ?i {j \<in> set (vals (s_operationalIntents s)). intent_key j \<noteq> intent_key i}"
    using vals_store_intent [OF ok, of ?i] by (simp add: s' vals_rewrite_priors)
  have self: "prior_map (supersede_prior ?i) ?i ?i = ?i" by (simp add: prior_map_def)
  have prior: "prior_map (supersede_prior ?i) ?i p =
      (if oi_ID p = oi_ID i \<and> oi_Status p = IntentStatusAccepted
       then p\<lparr>oi_Status := IntentStatusSuperseded, oi_SupersededAt := oi_AcceptedAt i,
              oi_UpdatedAt := oi_UpdatedAt i, oi_Revision := inc64 (oi_Revision p)\<rparr> else p)"
    if "p \<in> set (vals (s_operationalIntents s))" "intent_key p \<noteq> intent_key i" for p
    using below [OF that(1)] that(2) by (auto simp: prior_map_def supersede_prior_def)
  show ?thesis
  proof (intro conjI ballI impI)
    fix j assume "j \<in> set (vals (s_operationalIntents s'))"
      and j: "oi_ID j = oi_ID i \<and> oi_Status j = IntentStatusAccepted"
    then consider "j = ?i" | p where "p \<in> set (vals (s_operationalIntents s))"
        "intent_key p \<noteq> intent_key i" "j = prior_map (supersede_prior ?i) ?i p"
      unfolding vals using self by auto
    then show "j = ?i" using j prior by cases (auto split: if_splits)
  qed (use self prior vals in \<open>force+\<close>)
qed

theorem accept_supersedes_earlier_versions_witness:
  "sample_intent\<lparr>oi_Status := IntentStatusAccepted, oi_Revision := 1\<rparr> \<in>
     set (vals (s_operationalIntents
       (snd (AcceptOperationalIntent (sample_intent\<lparr>oi_Status := IntentStatusAccepted\<rparr>) 0 sample_store))))"
proof -
  have "fst (AcceptOperationalIntent (sample_intent\<lparr>oi_Status := IntentStatusAccepted\<rparr>) 0 sample_store) = None"
    by code_simp
  then have "AcceptOperationalIntent (sample_intent\<lparr>oi_Status := IntentStatusAccepted\<rparr>) 0 sample_store =
      (None, snd (AcceptOperationalIntent (sample_intent\<lparr>oi_Status := IntentStatusAccepted\<rparr>) 0 sample_store))"
    by (simp add: prod_eq_iff)
  from accept_supersedes_earlier_versions [OF sample_ok this] show ?thesis
    by (simp add: inc64_def)
qed

text \<open>
  Ending an intent ends all of it. A successful \<open>UpdateOperationalIntent\<close> to canceled or
  complete leaves no version of the intent accepted.
\<close>

theorem terminal_update_closes_accepted_versions:
  assumes ok: "intents_ok s" and upd: "UpdateOperationalIntent i r s = (None, s')"
    and st: "oi_Status i \<in> {IntentStatusCanceled, IntentStatusComplete}"
  shows "\<forall>j \<in> set (vals (s_operationalIntents s')). oi_ID j = oi_ID i \<longrightarrow> oi_Status j \<noteq> IntentStatusAccepted"
proof -
  let ?i = "i\<lparr>oi_Revision := inc64 r\<rparr>"
  have g: "intent_write_guard i r s = None"
    using upd by (auto simp: updateOperationalIntentLocked_def split: option.splits)
  note below = guard_below [OF g]
  have "s' = rewrite_accepted_priors (close_prior ?i) ?i (store_intent ?i s)"
    using upd st by (auto simp: update_granted [OF g])
  then have "set (vals (s_operationalIntents s')) = prior_map (close_prior ?i) ?i `
      insert ?i {j \<in> set (vals (s_operationalIntents s)). intent_key j \<noteq> intent_key i}"
    using vals_store_intent [OF ok, of ?i] by (simp add: vals_rewrite_priors)
  then show ?thesis using st by (auto simp: prior_map_def dest: below)
qed

theorem terminal_update_closes_accepted_versions_witness:
  "IntentStatusAccepted \<notin> oi_Status ` {j \<in> set (vals (s_operationalIntents
      (snd (UpdateOperationalIntent (sample_intent\<lparr>oi_Status := IntentStatusCanceled\<rparr>) 0 sample_store)))).
     oi_ID j = ''op-1''}"
proof -
  have "fst (UpdateOperationalIntent (sample_intent\<lparr>oi_Status := IntentStatusCanceled\<rparr>) 0 sample_store) = None"
    by code_simp
  then have "UpdateOperationalIntent (sample_intent\<lparr>oi_Status := IntentStatusCanceled\<rparr>) 0 sample_store =
      (None, snd (UpdateOperationalIntent (sample_intent\<lparr>oi_Status := IntentStatusCanceled\<rparr>) 0 sample_store))"
    by (simp add: prod_eq_iff)
  from terminal_update_closes_accepted_versions [OF sample_ok this] show ?thesis
    by (auto simp: sample_intent_def)
qed

text \<open>
  While a mission deployment for a flight of an intent is outstanding (pending, in temporary
  error or of unknown outcome), the intent is frozen: creating a version of it, updating,
  activating, accepting, replacing it or its volumes, and recording a volume all fail and
  leave the store as it is.
\<close>

theorem outstanding_deployment_freezes_intent:
  assumes "hasOutstandingMissionDeploymentForIntentLocked s iid" and "oi_ID i = iid" and "ov_IntentID v = iid"
  shows "CreateOperationalIntent i s = (Some ErrVersionConflict, s)
    \<and> (\<forall>w \<in> {UpdateOperationalIntent, AcceptOperationalIntent, ActivateOperationalIntent}.
         fst (w i r s) \<noteq> None \<and> snd (w i r s) = s)
    \<and> (fst (ReplaceOperationalIntent ev r i vs s) \<noteq> None \<and> snd (ReplaceOperationalIntent ev r i vs s) = s)
    \<and> RecordOperationalVolume v s = (Some ErrVersionConflict, s)
    \<and> ReplaceOperationalVolumes iid ver vs s = (Some ErrVersionConflict, s)"
proof -
  have blocked: "fence_blocked i s" using assms by (simp add: fence_blocked_def)
  have "fst (w i r s) \<noteq> None \<and> snd (w i r s) = s"
    if "w \<in> {UpdateOperationalIntent, AcceptOperationalIntent, ActivateOperationalIntent}" for w
  proof (cases "latestOperationalIntent s (oi_ID i)")
    case None
    then show ?thesis
      using that update_write.op_missing accept_write.op_missing activate_write.op_missing by auto
  next
    case (Some c)
    then show ?thesis
      using that blocked update_write.op_blocked [OF Some] accept_write.op_blocked [OF Some]
        activate_write.op_blocked [OF Some] by auto
  qed
  with assms show ?thesis
    by (auto simp: CreateOperationalIntent_def ReplaceOperationalIntent_def RecordOperationalVolume_def
        ReplaceOperationalVolumes_def split: option.splits)
qed

theorem outstanding_deployment_freezes_intent_witness:
  "CreateOperationalIntent sample_intent
     (sample_store\<lparr>s_flightRecords := [(''fl-1'', sample_flight)],
        s_missionDeployments := [(''dep-1'', sample_deployment)]\<rparr>)
   = (Some ErrVersionConflict,
      sample_store\<lparr>s_flightRecords := [(''fl-1'', sample_flight)],
        s_missionDeployments := [(''dep-1'', sample_deployment)]\<rparr>)"
proof -
  let ?s = "sample_store\<lparr>s_flightRecords := [(''fl-1'', sample_flight)],
        s_missionDeployments := [(''dep-1'', sample_deployment)]\<rparr>"
  have "hasOutstandingMissionDeploymentForIntentLocked ?s ''op-1''" by code_simp
  moreover have "oi_ID sample_intent = ''op-1''" and "ov_IntentID sample_volume = ''op-1''"
    by (simp_all add: sample_intent_def sample_volume_def)
  ultimately show ?thesis using outstanding_deployment_freezes_intent by blast
qed

text \<open>
  \<open>ListOperationalIntents\<close> lists the latest version of every intent of the aircraft (of every
  intent, for the empty identity), each intent once, in the order of the planned starts.
\<close>

theorem list_intents_lists_latest_versions:
  "\<exists>xs. ListOperationalIntents aid s = Inr xs
     \<and> set xs = {i. GetOperationalIntent (oi_ID i) s = Inr i \<and> (aid = [] \<or> oi_AircraftID i = aid)}
     \<and> distinct (map oi_ID xs) \<and> sorted (map oi_PlannedStartAt xs)"
proof -
  let ?m = "latest_by_id (vals (s_operationalIntents s))"
  let ?f = "filter (\<lambda>i. aid = [] \<or> oi_AircraftID i = aid) (vals ?m)"
  let ?xs = "sort_slice (\<lambda>a b. oi_PlannedStartAt a < oi_PlannedStartAt b) ?f"
  have "i \<in> set (vals ?m) \<longleftrightarrow> latestOperationalIntent s (oi_ID i) = Some i" for i
    using keyed_vals [OF keyed_latest_by_id] by (simp add: map_of_latest_by_id)
  then have set: "set ?xs = {i. GetOperationalIntent (oi_ID i) s = Inr i \<and> (aid = [] \<or> oi_AircraftID i = aid)}"
    by (auto simp: GetOperationalIntent_def)
  have "distinct (map oi_ID ?f)"
    using keyed_distinct_vals [OF keyed_latest_by_id] by (rule distinct_map_filter)
  then have dist: "distinct (map oi_ID ?xs)"
    by (metis mset_sort_slice mset_map mset_eq_imp_distinct_iff)
  have "sorted (map oi_PlannedStartAt ?xs)"
    using by_planned_start.sort_slice_sorted [of ?f] by (simp add: sorted_map linorder_not_less)
  with set dist show ?thesis unfolding ListOperationalIntents_def by blast
qed

text \<open>
  \<open>ReplaceOperationalIntent\<close>. With volume identities free of colons, a successful replacement
  makes the given intent the latest version (with the next revision in the same version, with
  revision 0 in a new one), makes the given volumes exactly the volumes of that version, and
  changes no other intent and no volume of another version; a failed one changes nothing.
\<close>

theorem replace_intent_is_exact:
  assumes ok: "intents_ok s" and vok: "volumes_ok s"
    and "\<forall>v \<in> set vs. CHR '':'' \<notin> set (ov_ID v)" and "distinct (map ov_ID vs)"
    and range: "int64_range ev" "ev < max_int64"
  shows "case ReplaceOperationalIntent ev r i vs s of
      (Some e, s') \<Rightarrow> s' = s
    | (None, s') \<Rightarrow>
        (\<forall>iid. latestOperationalIntent s' iid = (if iid = oi_ID i
           then Some (i\<lparr>oi_Revision := if oi_Version i = ev then inc64 r else 0\<rparr>)
           else latestOperationalIntent s iid))
        \<and> set (vals (s_operationalVolumes s')) =
            {v \<in> set (vals (s_operationalVolumes s)).
               \<not> (ov_IntentID v = oi_ID i \<and> ov_IntentVersion v = oi_Version i)} \<union> set vs"
proof (cases "ReplaceOperationalIntent ev r i vs s")
  case (Pair e s')
  show ?thesis
  proof (cases e)
    case (Some err)
    with Pair show ?thesis
      by (auto simp: ReplaceOperationalIntent_def Let_def split: if_splits option.splits)
  next
    case None
    let ?i = "i\<lparr>oi_Revision := if oi_Version i = ev then inc64 r else 0\<rparr>"
    from Pair None have "oi_Version i = ev \<or> oi_Version i = inc64 ev"
      and out: "volume_outside (oi_ID i) (oi_Version i) vs = None"
      and c: "\<exists>c. latestOperationalIntent s (oi_ID i) = Some c \<and> oi_Version c = ev"
      and s': "s' = store_intent ?i s\<lparr>s_operationalVolumes :=
         replace_volumes (oi_ID i) (oi_Version i) vs (s_operationalVolumes s)\<rparr>"
      by (auto simp: ReplaceOperationalIntent_def Let_def split: if_splits option.splits)
    then have "ev \<le> oi_Version i" using range by auto
    then have "latestOperationalIntent (store_intent ?i s) iid =
        (if iid = oi_ID i then Some ?i else latestOperationalIntent s iid)" for iid
      using latest_store_intent [OF ok, of ?i iid] c by auto
    moreover have "latestOperationalIntent s' iid = latestOperationalIntent (store_intent ?i s) iid" for iid
      by (simp add: s' latestOperationalIntent_def)
    ultimately show ?thesis
      using replace_volumes_set(2) [OF vok out assms(3,4)] Pair None s' by simp
  qed
qed

theorem replace_intent_is_exact_witness:
  "sample_volume \<in> set (vals (s_operationalVolumes
      (snd (ReplaceOperationalIntent 1 0 sample_intent [sample_volume] sample_store))))"
proof -
  let ?p = "ReplaceOperationalIntent 1 0 sample_intent [sample_volume] sample_store"
  have "fst ?p = None" by code_simp
  then have "?p = (None, snd ?p)" by (simp add: prod_eq_iff)
  moreover have "volumes_ok sample_store"
    by (simp add: volumes_ok_def sample_store_def NewStore_def vals_def)
  ultimately show ?thesis
    using replace_intent_is_exact
      [where s = sample_store and vs = "[sample_volume]" and ev = 1 and r = 0 and i = sample_intent]
    by (simp add: int64_range_def sample_volume_def split: prod.splits option.splits)
qed

text \<open>
  The key of a volume in the map does not tell all volumes apart: an identity with a colon
  lets volumes of two different intents share a key, and recording the second one removes the
  first, so that its intent has no volume left.
\<close>

theorem volume_key_collision:
  "\<exists>v w s. ov_IntentID v \<noteq> ov_IntentID w
     \<and> operationalVolumeKey v = operationalVolumeKey w
     \<and> ListOperationalVolumes (ov_IntentID v) (snd (RecordOperationalVolume v s)) = Inr [v]
     \<and> ListOperationalVolumes (ov_IntentID v)
         (snd (RecordOperationalVolume w (snd (RecordOperationalVolume v s)))) = Inr []"
proof -
  let ?v = "sample_volume\<lparr>ov_IntentID := ''a'', ov_IntentVersion := 1, ov_ID := ''2:x''\<rparr>"
  let ?w = "sample_volume\<lparr>ov_IntentID := ''a:1'', ov_IntentVersion := 2, ov_ID := ''x''\<rparr>"
  have "operationalVolumeKey ?v = ''a:1:2:x''" and "operationalVolumeKey ?w = ''a:1:2:x''" by code_simp+
  then show ?thesis
    by (intro exI [of _ ?v] exI [of _ ?w] exI [of _ NewStore])
      (simp add: RecordOperationalVolume_def ListOperationalVolumes_def NewStore_def vals_def
        sort_slice_def hasOutstandingMissionDeploymentForIntentLocked_def)
qed

end
