(* ===== verification/Spatial.thy ===== *)
theory Spatial
  imports Store_Intents
begin

text \<open>
  \<open>internal/store/durable/memory/spatial.go\<close>: whether a mission stays inside an operational volume
  (points and legs against a polygon with holes) and which intents could conflict with given
  volumes. Coordinates are reals. \<open>json.Unmarshal\<close> into the three shapes the code decodes is a
  parameter (\<open>mission_json\<close>); numbers it yields are finite, so the tests for \<open>NaN\<close> and infinities
  never fire and are left out.
\<close>

section \<open>Definitions\<close>

record missionPoint =
  mp_x :: real
  mp_y :: real

record MissionCoverageResult =
  mcr_UncoveredItems :: "int list"
  mcr_UncoveredSegments :: "int list"

record CandidateQuery =
  cq_ExcludeIntentID :: string
  cq_Volumes :: "OperationalVolume list"

record Candidate =
  cand_IntentID :: string
  cand_IntentVersion :: int

text \<open>
  The decoders for the document (\<open>type\<close>, \<open>geometry\<close>, \<open>coordinates\<close>), for the geometry of a
  feature (\<open>type\<close>, \<open>coordinates\<close>) and for the coordinates.
\<close>

record mission_json =
  unmarshal_payload :: "string \<Rightarrow> (string \<times> bytes \<times> bytes) result"
  unmarshal_geometry :: "bytes \<Rightarrow> (string \<times> bytes) result"
  unmarshal_coordinates :: "bytes \<Rightarrow> real list list list result"

subsection \<open>Geometry\<close>

definition missionPointsEqual :: "missionPoint \<Rightarrow> missionPoint \<Rightarrow> bool" where
  "missionPointsEqual a b \<longleftrightarrow> \<bar>mp_x a - mp_x b\<bar> < 1 / 10 ^ 12 \<and> \<bar>mp_y a - mp_y b\<bar> < 1 / 10 ^ 12"

definition missionPointOnSegment :: "missionPoint \<Rightarrow> missionPoint \<Rightarrow> missionPoint \<Rightarrow> bool" where
  "missionPointOnSegment point from_p to_p =
     (let cross = (mp_x point - mp_x from_p) * (mp_y to_p - mp_y from_p)
                - (mp_y point - mp_y from_p) * (mp_x to_p - mp_x from_p)
      in if \<bar>cross\<bar> > 1 / 10 ^ 10 then False
         else
           let dot = (mp_x point - mp_x from_p) * (mp_x to_p - mp_x from_p)
                   + (mp_y point - mp_y from_p) * (mp_y to_p - mp_y from_p)
           in if dot < - (1 / 10 ^ 10) then False
              else
                let lengthSquared = (mp_x to_p - mp_x from_p) * (mp_x to_p - mp_x from_p)
                                  + (mp_y to_p - mp_y from_p) * (mp_y to_p - mp_y from_p)
                in dot \<le> lengthSquared + 1 / 10 ^ 10)"

text \<open>The pairs \<open>ring[index-1], ring[index]\<close> of the loops from 1.\<close>

definition edges :: "'a list \<Rightarrow> ('a \<times> 'a) list" where
  "edges ring = zip ring (tl ring)"

definition missionPointOnRing :: "missionPoint list \<Rightarrow> missionPoint \<Rightarrow> bool" where
  "missionPointOnRing ring point \<longleftrightarrow> list_ex (\<lambda>(a, b). missionPointOnSegment point a b) (edges ring)"

text \<open>The test of the ray-casting loop for the edge from \<open>ring[j]\<close> to \<open>ring[i]\<close>.\<close>

definition ray_crosses :: "missionPoint \<Rightarrow> missionPoint \<Rightarrow> missionPoint \<Rightarrow> bool" where
  "ray_crosses point p_i p_j \<longleftrightarrow> (mp_y p_i > mp_y point) \<noteq> (mp_y p_j > mp_y point)
     \<and> mp_x point < (mp_x p_j - mp_x p_i) * (mp_y point - mp_y p_i) / (mp_y p_j - mp_y p_i) + mp_x p_i"

text \<open>The pairs \<open>ring[i], ring[j]\<close> the loop visits: \<open>j\<close> is the index before \<open>i\<close>, cyclically.\<close>

definition cyclic_edges :: "'a list \<Rightarrow> ('a \<times> 'a) list" where
  "cyclic_edges ring = (if ring = [] then [] else zip ring (last ring # butlast ring))"

definition missionPointStrictlyInRing :: "missionPoint list \<Rightarrow> missionPoint \<Rightarrow> bool" where
  "missionPointStrictlyInRing ring point =
     fold (\<lambda>(p_i, p_j) inside. if ray_crosses point p_i p_j then \<not> inside else inside)
       (cyclic_edges ring) False"

definition missionRingCoversPoint :: "missionPoint list \<Rightarrow> missionPoint \<Rightarrow> bool" where
  "missionRingCoversPoint ring point \<longleftrightarrow>
     missionPointOnRing ring point \<or> missionPointStrictlyInRing ring point"

fun holes_allow :: "missionPoint list list \<Rightarrow> missionPoint \<Rightarrow> bool" where
  "holes_allow [] point = True"
| "holes_allow (hole # holes) point =
     (if missionPointOnRing hole point then True
      else if missionPointStrictlyInRing hole point then False
      else holes_allow holes point)"

definition missionPolygonCoversPoint :: "missionPoint list list \<Rightarrow> missionPoint \<Rightarrow> bool" where
  "missionPolygonCoversPoint polygon point =
     (case polygon of
        [] \<Rightarrow> False
      | outer # holes \<Rightarrow> if \<not> missionRingCoversPoint outer point then False else holes_allow holes point)"

definition missionSegmentIntersectionParameters ::
  "missionPoint \<Rightarrow> missionPoint \<Rightarrow> missionPoint \<Rightarrow> missionPoint \<Rightarrow> real list" where
  "missionSegmentIntersectionParameters a b c d =
     (let rx = mp_x b - mp_x a; ry = mp_y b - mp_y a;
          sx = mp_x d - mp_x c; sy = mp_y d - mp_y c;
          denominator = rx * sy - ry * sx;
          numerator = (mp_x c - mp_x a) * ry - (mp_y c - mp_y a) * rx
      in if \<bar>denominator\<bar> < 1 / 10 ^ 12 then
           if \<bar>numerator\<bar> \<ge> 1 / 10 ^ 12 then []
           else
             let lengthSquared = rx * rx + ry * ry
             in if lengthSquared < 1 / 10 ^ 24 then []
                else filter (\<lambda>value. value \<ge> 0 \<and> value \<le> 1)
                  [((mp_x c - mp_x a) * rx + (mp_y c - mp_y a) * ry) / lengthSquared,
                   ((mp_x d - mp_x a) * rx + (mp_y d - mp_y a) * ry) / lengthSquared]
         else
           let t = ((mp_x c - mp_x a) * sy - (mp_y c - mp_y a) * sx) / denominator;
               u = ((mp_x c - mp_x a) * ry - (mp_y c - mp_y a) * rx) / denominator
           in if t \<ge> 0 \<and> t \<le> 1 \<and> u \<ge> 0 \<and> u \<le> 1 then [t] else [])"

definition segment_point :: "missionPoint \<Rightarrow> missionPoint \<Rightarrow> real \<Rightarrow> missionPoint" where
  "segment_point from_p to_p t = \<lparr>mp_x = mp_x from_p + (mp_x to_p - mp_x from_p) * t,
                                   mp_y = mp_y from_p + (mp_y to_p - mp_y from_p) * t\<rparr>"

definition segment_breaks :: "missionPoint list list \<Rightarrow> missionPoint \<Rightarrow> missionPoint \<Rightarrow> real list" where
  "segment_breaks polygon from_p to_p = sort ([0, 1] @ concat (map (\<lambda>ring.
     concat (map (\<lambda>(c, d). missionSegmentIntersectionParameters from_p to_p c d) (edges ring))) polygon))"

definition missionPolygonCoversSegment ::
  "missionPoint list list \<Rightarrow> missionPoint \<Rightarrow> missionPoint \<Rightarrow> bool" where
  "missionPolygonCoversSegment polygon from_p to_p =
     (if \<not> missionPolygonCoversPoint polygon from_p \<or> \<not> missionPolygonCoversPoint polygon to_p then False
      else list_all (\<lambda>(s, t). missionPolygonCoversPoint polygon (segment_point from_p to_p ((s + t) / 2)))
        (edges (segment_breaks polygon from_p to_p)))"

subsection \<open>Decoding\<close>

fun decode_ring :: "real list list \<Rightarrow> missionPoint list result" where
  "decode_ring [] = Inr []"
| "decode_ring (coordinates # ring) =
     (if length coordinates < 2 then Inl (Errorf ''mission volume polygon contains invalid coordinates'' [])
      else case decode_ring ring of
        Inl e \<Rightarrow> Inl e
      | Inr points \<Rightarrow> Inr (\<lparr>mp_x = coordinates ! 0, mp_y = coordinates ! 1\<rparr> # points))"

definition ring_not_closed :: "nat \<Rightarrow> go_error" where
  "ring_not_closed ringIndex = Errorf (''mission volume polygon ring '' @ itoa (int ringIndex) @ '' is not closed'') []"

fun decode_rings :: "nat \<Rightarrow> real list list list \<Rightarrow> missionPoint list list result" where
  "decode_rings ringIndex [] = Inr []"
| "decode_rings ringIndex (ring # rings) =
     (if length ring < 4 then Inl (ring_not_closed ringIndex)
      else case decode_ring ring of
        Inl e \<Rightarrow> Inl e
      | Inr points \<Rightarrow>
          if \<not> missionPointsEqual (hd points) (last points) then Inl (ring_not_closed ringIndex)
          else case decode_rings (Suc ringIndex) rings of
            Inl e \<Rightarrow> Inl e
          | Inr polygon \<Rightarrow> Inr (points # polygon))"

definition decodeMissionPolygon :: "mission_json \<Rightarrow> string \<Rightarrow> missionPoint list list result" where
  "decodeMissionPolygon json raw =
     (case unmarshal_payload json raw of
        Inl e \<Rightarrow> Inl (wrap ''decode mission volume GeoJSON'' e)
      | Inr (typ, geometry, coordinates) \<Rightarrow>
      case (if typ = ''Feature'' then
              (case unmarshal_geometry json geometry of
                 Inl e \<Rightarrow> Inl (wrap ''decode mission volume feature geometry'' e)
               | Inr (gtyp, gcoordinates) \<Rightarrow>
                   if gtyp \<noteq> ''Polygon'' then Inl (Errorf ''mission coverage requires Polygon geometry'' [])
                   else Inr gcoordinates)
            else if typ \<noteq> ''Polygon'' then Inl (Errorf ''mission coverage requires Polygon geometry'' [])
            else Inr coordinates) of
        Inl e \<Rightarrow> Inl e
      | Inr coordinates \<Rightarrow>
      case unmarshal_coordinates json coordinates of
        Inl e \<Rightarrow> Inl (Errorf ''mission coverage requires valid Polygon coordinates'' [])
      | Inr decoded \<Rightarrow>
          if decoded = [] then Inl (Errorf ''mission coverage requires valid Polygon coordinates'' [])
          else decode_rings 0 decoded)"

subsection \<open>Mission coverage\<close>

definition mission_point :: "MissionItem \<Rightarrow> missionPoint" where
  "mission_point item = \<lparr>mp_x = real_of_int (mi_LongitudeE7 item) / 10 ^ 7,
                          mp_y = real_of_int (mi_LatitudeE7 item) / 10 ^ 7\<rparr>"

fun coverage_loop :: "missionPoint list list \<Rightarrow> MissionItem list \<Rightarrow> MissionCoverageResult \<Rightarrow> MissionCoverageResult" where
  "coverage_loop polygon [] result = result"
| "coverage_loop polygon (item # items) result =
     (let point = mission_point item;
          result = (if \<not> missionPolygonCoversPoint polygon point
                    then result\<lparr>mcr_UncoveredItems := mcr_UncoveredItems result @ [mi_Sequence item]\<rparr>
                    else result)
      in case items of
           [] \<Rightarrow> result
         | item2 # rest \<Rightarrow>
             coverage_loop polygon items
               (if \<not> missionPolygonCoversSegment polygon point (mission_point item2)
                then result\<lparr>mcr_UncoveredSegments := mcr_UncoveredSegments result @ [mi_Sequence item]\<rparr>
                else result))"

definition CheckMissionCoverage ::
  "mission_json \<Rightarrow> OperationalVolume \<Rightarrow> MissionItem list \<Rightarrow> MissionCoverageResult result" where
  "CheckMissionCoverage json volume items =
     (case decodeMissionPolygon json (ov_GeoJSON volume) of
        Inl e \<Rightarrow> Inl (because ErrInvalidMissionCoverageGeometry (error_text e))
      | Inr polygon \<Rightarrow>
          Inr (coverage_loop polygon items \<lparr>mcr_UncoveredItems = [], mcr_UncoveredSegments = []\<rparr>))"

subsection \<open>Candidates\<close>

definition dimensionsUsable :: "OperationalVolume \<Rightarrow> bool" where
  "dimensionsUsable volume \<longleftrightarrow> \<not> IsZero (ov_StartsAt volume) \<and> \<not> IsZero (ov_EndsAt volume)
     \<and> ov_StartsAt volume < ov_EndsAt volume
     \<and> ov_MinAltitudeM volume \<ge> 0 \<and> ov_MaxAltitudeM volume > 0
     \<and> ov_MinAltitudeM volume \<le> ov_MaxAltitudeM volume
     \<and> ov_AltitudeRef volume \<noteq> AltitudeReferenceOther []"

definition couldOverlap :: "OperationalVolume list \<Rightarrow> OperationalVolume \<Rightarrow> bool" where
  "couldOverlap targets candidate \<longleftrightarrow>
     (if targets = [] \<or> \<not> dimensionsUsable candidate then True
      else list_ex (\<lambda>target. \<not> dimensionsUsable target
          \<or> (ov_StartsAt target < ov_EndsAt candidate \<and> ov_StartsAt candidate < ov_EndsAt target
             \<and> (ov_AltitudeRef target \<noteq> ov_AltitudeRef candidate
                \<or> ov_MinAltitudeM target \<le> ov_MaxAltitudeM candidate
                  \<and> ov_MinAltitudeM candidate \<le> ov_MaxAltitudeM target))) targets)"

definition candidateKey :: "Candidate \<Rightarrow> string" where
  "candidateKey candidate = cand_IntentID candidate @ [CHR 0x00] @ itoa (cand_IntentVersion candidate)"

definition volume_candidate :: "OperationalVolume \<Rightarrow> Candidate" where
  "volume_candidate volume = \<lparr>cand_IntentID = ov_IntentID volume, cand_IntentVersion = ov_IntentVersion volume\<rparr>"

definition FindCandidates :: "CandidateQuery \<Rightarrow> Store \<Rightarrow> Candidate list result" where
  "FindCandidates query s =
     (let unique = fold (\<lambda>volume unique.
            if ov_IntentID volume = cq_ExcludeIntentID query \<or> \<not> couldOverlap (cq_Volumes query) volume
            then unique
            else AList.update (candidateKey (volume_candidate volume)) (volume_candidate volume) unique)
          (vals (s_operationalVolumes s)) []
      in Inr (sort_slice (\<lambda>a b. if cand_IntentID a = cand_IntentID b
                                  then cand_IntentVersion a < cand_IntentVersion b
                                  else cand_IntentID a < cand_IntentID b) (vals unique)))"

text \<open>A unit square, a ring that repeats its first vertex, and a decoder that yields one of them.\<close>

definition point_at :: "real \<Rightarrow> real \<Rightarrow> missionPoint" where
  "point_at x y = \<lparr>mp_x = x, mp_y = y\<rparr>"

definition sample_square :: "missionPoint list" where
  "sample_square = [point_at 0 0, point_at 1 0, point_at 1 1, point_at 0 1, point_at 0 0]"

definition sample_decoder :: "real list list list \<Rightarrow> mission_json" where
  "sample_decoder rings = \<lparr>unmarshal_payload = (\<lambda>_. Inr (''Polygon'', [], [])),
     unmarshal_geometry = (\<lambda>_. Inr (''Polygon'', [])), unmarshal_coordinates = (\<lambda>_. Inr rings)\<rparr>"

section \<open>Lemmas\<close>

subsection \<open>Ray casting\<close>

lemma toggle_parity:
  "fold (\<lambda>(a, b) inside. if P a b then \<not> inside else inside) es inside
     \<longleftrightarrow> (odd (length (filter (\<lambda>(a, b). P a b) es)) \<noteq> inside)"
  by (induction es arbitrary: inside) auto

lemma strictly_in_ring_odd:
  "missionPointStrictlyInRing ring point \<longleftrightarrow>
     odd (length (filter (\<lambda>(a, b). ray_crosses point a b) (cyclic_edges ring)))"
  by (simp add: missionPointStrictlyInRing_def toggle_parity)

lemma cyclic_edges_rev:
  "mset (cyclic_edges (rev ring)) = image_mset (\<lambda>(a, b). (b, a)) (mset (cyclic_edges ring))"
proof (cases ring)
  case (Cons x xs)
  let ?l = "x # xs"
  have tl: "tl (rev ?l) = rev (butlast ?l)" by (metis butlast_rev rev_rev_ident)
  have hd: "hd (rev ?l) = last ?l" by (simp add: hd_rev)
  have "cyclic_edges (rev ?l) = zip (rev ?l) (x # rev xs)"
    by (simp add: cyclic_edges_def del: butlast.simps)
  also have "\<dots> = (last ?l, x) # zip (tl (rev ?l)) (rev xs)"
    by (metis hd list.collapse list.distinct(1) rev_is_Nil_conv zip_Cons_Cons)
  also have "\<dots> = (last ?l, x) # rev (zip (butlast ?l) xs)"
    unfolding tl by (subst zip_rev) simp_all
  finally have rv: "mset (cyclic_edges (rev ?l)) = add_mset (last ?l, x) (mset (zip (butlast ?l) xs))"
    by simp
  have "map (\<lambda>(a, b). (b, a)) (cyclic_edges ?l) = zip (last ?l # butlast ?l) ?l"
    unfolding cyclic_edges_def using zip_commute [of "last ?l # butlast ?l" ?l] by (simp only: list.simps if_False)
  then have "image_mset (\<lambda>(a, b). (b, a)) (mset (cyclic_edges ?l)) =
      add_mset (last ?l, x) (mset (zip (butlast ?l) xs))"
    by (metis mset.simps(2) mset_map zip_Cons_Cons)
  with rv Cons show ?thesis by simp
qed (simp add: cyclic_edges_def)

text \<open>Where an edge crosses the height of the point, between its ends.\<close>

lemma crossing_between:
  fixes xi xj yi yj y :: real
  assumes "(yi > y) \<noteq> (yj > y)"
  shows "min xi xj \<le> (xj - xi) * (y - yi) / (yj - yi) + xi"
    and "(xj - xi) * (y - yi) / (yj - yi) + xi \<le> max xi xj"
proof -
  define t where "t = (y - yi) / (yj - yi)"
  have t: "0 \<le> t" "t \<le> 1" using assms by (auto simp: t_def divide_le_eq zero_le_divide_iff)
  have eq: "(xj - xi) * (y - yi) / (yj - yi) + xi = t * xj + (1 - t) * xi"
  proof -
    have "(xj - xi) * (y - yi) / (yj - yi) = t * (xj - xi)" by (simp add: t_def)
    then show ?thesis by (simp add: algebra_simps)
  qed
  have "min xi xj = t * min xi xj + (1 - t) * min xi xj" by (simp add: algebra_simps)
  also have "\<dots> \<le> t * xj + (1 - t) * xi"
    using t by (intro add_mono mult_left_mono) auto
  finally show "min xi xj \<le> (xj - xi) * (y - yi) / (yj - yi) + xi" unfolding eq .
  have "t * xj + (1 - t) * xi \<le> t * max xi xj + (1 - t) * max xi xj"
    using t by (intro add_mono mult_left_mono) auto
  also have "\<dots> = max xi xj" by (simp add: algebra_simps)
  finally show "(xj - xi) * (y - yi) / (yj - yi) + xi \<le> max xi xj" unfolding eq .
qed

lemma ray_crosses_commute: "ray_crosses p a b \<longleftrightarrow> ray_crosses p b a"
proof -
  have "(mp_x b - mp_x a) * (mp_y p - mp_y a) / (mp_y b - mp_y a) + mp_x a =
      (mp_x a - mp_x b) * (mp_y p - mp_y b) / (mp_y a - mp_y b) + mp_x b"
    if "(mp_y a > mp_y p) \<noteq> (mp_y b > mp_y p)"
  proof -
    have "mp_y b - mp_y a \<noteq> 0" "mp_y a - mp_y b \<noteq> 0" using that by auto
    then show ?thesis by (simp add: field_simps)
  qed
  then show ?thesis unfolding ray_crosses_def by metis
qed

lemma ray_crosses_iff_far:
  assumes "mp_x p < mp_x a" and "mp_x p < mp_x b"
  shows "ray_crosses p a b \<longleftrightarrow> (mp_y a > mp_y p) \<noteq> (mp_y b > mp_y p)"
  using crossing_between(1) [where y = "mp_y p" and yi = "mp_y a" and yj = "mp_y b" and xi = "mp_x a" and xj = "mp_x b"] assms
  unfolding ray_crosses_def by linarith

lemma ray_crosses_right: "ray_crosses p a b \<Longrightarrow> mp_x p < max (mp_x a) (mp_x b)"
  using crossing_between(2) [where y = "mp_y p" and yi = "mp_y a" and yj = "mp_y b" and xi = "mp_x a" and xj = "mp_x b"]
  unfolding ray_crosses_def by linarith

text \<open>A closed loop changes sides an even number of times.\<close>

lemma side_changes_odd:
  "xs \<noteq> [] \<Longrightarrow> odd (length (filter (\<lambda>(a, b). s a \<noteq> s b) (zip xs (x # butlast xs)))) \<longleftrightarrow> s x \<noteq> s (last xs)"
  for s :: "'a \<Rightarrow> bool"
proof (induction xs arbitrary: x)
  case (Cons y ys)
  show ?case
  proof (cases ys)
    case (Cons z zs)
    then have ne: "ys \<noteq> []" by simp
    then have z: "zip (y # ys) (x # butlast (y # ys)) = (y, x) # zip ys (y # butlast ys)" by simp
    have ih: "odd (length (filter (\<lambda>(a, b). s a \<noteq> s b) (zip ys (y # butlast ys)))) \<longleftrightarrow> s y \<noteq> s (last ys)"
      using Cons.IH ne by blast
    have la: "last (y # ys) = last ys" using ne by simp
    show ?thesis unfolding z la using ih by (cases "s y = s x") auto
  qed auto
qed simp

lemma side_changes_even:
  "even (length (filter (\<lambda>(a, b). s a \<noteq> s b) (cyclic_edges ring)))" for s :: "'a \<Rightarrow> bool"
  using side_changes_odd [of ring s "last ring"] by (auto simp: cyclic_edges_def)

lemma cyclic_edges_in: "(a, b) \<in> set (cyclic_edges ring) \<Longrightarrow> a \<in> set ring \<and> b \<in> set ring"
proof -
  assume ab: "(a, b) \<in> set (cyclic_edges ring)"
  then have "ring \<noteq> []" by (auto simp: cyclic_edges_def)
  with ab have "a \<in> set ring" "b \<in> set (last ring # butlast ring)"
    unfolding cyclic_edges_def using set_zip_leftD set_zip_rightD by metis+
  with \<open>ring \<noteq> []\<close> show ?thesis by (auto dest: in_set_butlastD)
qed

lemma strictly_in_ring_box:
  assumes "missionPointStrictlyInRing ring p"
  shows "\<exists>v \<in> set ring. mp_y p < mp_y v" and "\<exists>v \<in> set ring. mp_y v \<le> mp_y p"
    and "\<exists>v \<in> set ring. mp_x p < mp_x v" and "\<exists>v \<in> set ring. mp_x v \<le> mp_x p"
proof -
  let ?c = "filter (\<lambda>(a, b). ray_crosses p a b) (cyclic_edges ring)"
  from assms have odd: "odd (length ?c)" by (simp add: strictly_in_ring_odd)
  then have "?c \<noteq> []" by auto
  then obtain a b where "(a, b) \<in> set ?c" by (metis list.set_sel(1) prod.exhaust)
  then have ab: "ray_crosses p a b" "a \<in> set ring" "b \<in> set ring" using cyclic_edges_in [of a b ring] by auto
  then show "\<exists>v \<in> set ring. mp_y p < mp_y v" and "\<exists>v \<in> set ring. mp_y v \<le> mp_y p"
    unfolding ray_crosses_def by (metis linorder_not_less)+
  show "\<exists>v \<in> set ring. mp_x p < mp_x v" using ray_crosses_right [OF ab(1)] ab(2,3) by (metis less_max_iff_disj)
  show "\<exists>v \<in> set ring. mp_x v \<le> mp_x p"
  proof (rule ccontr)
    assume "\<not> ?thesis"
    then have far: "mp_x p < mp_x v" if "v \<in> set ring" for v using that by auto
    have "ray_crosses p a b \<longleftrightarrow> (mp_y a > mp_y p) \<noteq> (mp_y b > mp_y p)"
      if "(a, b) \<in> set (cyclic_edges ring)" for a b
      using cyclic_edges_in [OF that] far by (intro ray_crosses_iff_far) auto
    then have "?c = filter (\<lambda>(a, b). (mp_y a > mp_y p) \<noteq> (mp_y b > mp_y p)) (cyclic_edges ring)"
      by (intro filter_cong) auto
    with odd show False using side_changes_even [of "\<lambda>v. mp_y v > mp_y p" ring] by simp
  qed
qed

lemma strictly_in_ring_rev: "missionPointStrictlyInRing (rev ring) p = missionPointStrictlyInRing ring p"
proof -
  have "size (filter_mset (\<lambda>(a, b). ray_crosses p a b) (image_mset (\<lambda>(a, b). (b, a)) M)) =
      size (filter_mset (\<lambda>(a, b). ray_crosses p a b) M)" for M
    by (induction M) (auto simp: ray_crosses_commute)
  then show ?thesis
    unfolding strictly_in_ring_odd by (metis cyclic_edges_rev mset_filter size_mset)
qed

subsection \<open>Rings with a repeated vertex\<close>

lemma on_degenerate_segment: "missionPointOnSegment p a a"
  by (simp add: missionPointOnSegment_def Let_def)

lemma on_ring_repeated:
  assumes "(a, a) \<in> set (edges ring)"
  shows "missionPointOnRing ring p"
  using assms on_degenerate_segment by (auto simp: missionPointOnRing_def list_ex_iff)

subsection \<open>The report\<close>

lemma coverage_loop_eq:
  "coverage_loop polygon items r = r\<lparr>
     mcr_UncoveredItems := mcr_UncoveredItems r
       @ map mi_Sequence (filter (\<lambda>i. \<not> missionPolygonCoversPoint polygon (mission_point i)) items),
     mcr_UncoveredSegments := mcr_UncoveredSegments r
       @ map (mi_Sequence \<circ> fst) (filter (\<lambda>(i, j). \<not> missionPolygonCoversSegment polygon
            (mission_point i) (mission_point j)) (edges items))\<rparr>"
proof (induction items arbitrary: r)
  case (Cons item items)
  show ?case
  proof (cases items)
    case Nil
    then show ?thesis by (simp add: edges_def)
  next
    case (Cons j js)
    note IH = Cons.IH [unfolded Cons]
    have "edges (item # items) = (item, j) # edges items" by (simp add: edges_def Cons)
    then show ?thesis
      by (subst coverage_loop.simps) (simp add: Cons Let_def IH del: coverage_loop.simps)
  qed
qed (simp add: edges_def)

subsection \<open>Candidates\<close>

lemma candidateKey_inj [simp]: "candidateKey a = candidateKey b \<longleftrightarrow> a = b"
proof
  assume "candidateKey a = candidateKey b"
  then have "cand_IntentID a @ CHR 0x00 # itoa (cand_IntentVersion a) =
      cand_IntentID b @ CHR 0x00 # itoa (cand_IntentVersion b)" by (simp add: candidateKey_def)
  from last_sep_inj [OF this] show "a = b" by simp
qed simp

lemma Candidate_eq:
  "a = b \<longleftrightarrow> cand_IntentID a = cand_IntentID b \<and> cand_IntentVersion a = cand_IntentVersion b" for a b :: Candidate
  by (cases a, cases b) simp

lemma candidate_before:
  fixes a b :: Candidate
  assumes "a \<noteq> b \<and> \<not> (if cand_IntentID b = cand_IntentID a
    then cand_IntentVersion b < cand_IntentVersion a else cand_IntentID b < cand_IntentID a)"
  shows "cand_IntentID a < cand_IntentID b
    \<or> cand_IntentID a = cand_IntentID b \<and> cand_IntentVersion a < cand_IntentVersion b"
proof (cases "cand_IntentID a = cand_IntentID b")
  case True
  with assms have "cand_IntentVersion a \<noteq> cand_IntentVersion b" "\<not> cand_IntentVersion b < cand_IntentVersion a"
    by (simp_all add: Candidate_eq)
  with True show ?thesis by simp
next
  case False
  with assms have "\<not> cand_IntentID b < cand_IntentID a" by simp
  with False show ?thesis using linorder_cases by blast
qed

interpretation by_candidate: weak_order "\<lambda>a b. if cand_IntentID a = cand_IntentID b
    then cand_IntentVersion a < cand_IntentVersion b else cand_IntentID a < cand_IntentID b"
  by (rule weak_order_lex)

lemma unique_candidates:
  "keyed candidateKey m \<Longrightarrow>
     keyed candidateKey (fold (\<lambda>v u. if P v then u else AList.update (candidateKey (f v)) (f v) u) vs m)
     \<and> set (vals (fold (\<lambda>v u. if P v then u else AList.update (candidateKey (f v)) (f v) u) vs m))
       = set (vals m) \<union> f ` {v \<in> set vs. \<not> P v}"
proof (induction vs arbitrary: m)
  case (Cons v vs)
  show ?case
  proof (cases "P v")
    case True
    with Cons show ?thesis by auto
  next
    case False
    have "set (vals (AList.update (candidateKey (f v)) (f v) m)) = insert (f v) (set (vals m))"
      using vals_put [OF Cons.prems, of "f v"] by auto
    with Cons.IH [of "AList.update (candidateKey (f v)) (f v) m"] Cons.prems False show ?thesis by auto
  qed
qed simp

lemma find_candidates_spec:
  "\<exists>cs. FindCandidates query s = Inr cs
     \<and> set cs = volume_candidate ` {v \<in> set (vals (s_operationalVolumes s)).
         ov_IntentID v \<noteq> cq_ExcludeIntentID query \<and> couldOverlap (cq_Volumes query) v}
     \<and> distinct cs
     \<and> sorted_wrt (\<lambda>a b. cand_IntentID a < cand_IntentID b
         \<or> cand_IntentID a = cand_IntentID b \<and> cand_IntentVersion a < cand_IntentVersion b) cs"
proof -
  let ?lt = "\<lambda>a b. if cand_IntentID a = cand_IntentID b
      then cand_IntentVersion a < cand_IntentVersion b else cand_IntentID a < cand_IntentID b"
  let ?m = "fold (\<lambda>v u. if ov_IntentID v = cq_ExcludeIntentID query \<or> \<not> couldOverlap (cq_Volumes query) v
      then u else AList.update (candidateKey (volume_candidate v)) (volume_candidate v) u)
      (vals (s_operationalVolumes s)) []"
  let ?cs = "sort_slice ?lt (vals ?m)"
  note u = unique_candidates [of "[]" "\<lambda>v. ov_IntentID v = cq_ExcludeIntentID query
      \<or> \<not> couldOverlap (cq_Volumes query) v" volume_candidate "vals (s_operationalVolumes s)"]
  have "distinct (vals ?m)"
    using u keyed_distinct_vals [of candidateKey ?m] by (simp add: distinct_map)
  then have d: "distinct ?cs" by (simp only: mset_eq_imp_distinct_iff [OF mset_sort_slice])
  have "sorted_wrt (\<lambda>a b. \<not> ?lt b a) ?cs" by (rule by_candidate.sort_slice_sorted)
  then have "sorted_wrt (\<lambda>a b. a \<noteq> b \<and> \<not> ?lt b a) ?cs"
    using d by (simp add: sorted_wrt_iff_nth_less distinct_conv_nth)
  then have sorted: "sorted_wrt (\<lambda>a b. cand_IntentID a < cand_IntentID b
      \<or> cand_IntentID a = cand_IntentID b \<and> cand_IntentVersion a < cand_IntentVersion b) ?cs"
    by (rule sorted_wrt_mono_rel [rotated]) (rule candidate_before)
  have "set ?cs = volume_candidate ` {v \<in> set (vals (s_operationalVolumes s)).
         ov_IntentID v \<noteq> cq_ExcludeIntentID query \<and> couldOverlap (cq_Volumes query) v}"
    using u by (simp add: vals_def)
  with d sorted show ?thesis unfolding FindCandidates_def Let_def by blast
qed

section \<open>Properties\<close>

text \<open>
  The ray-casting test of \<open>missionPointStrictlyInRing\<close> accepts a point when an odd number of
  edges pass to its right; the answer does not depend on the direction in which the ring is
  listed, and a point it accepts lies in the bounding box of the ring.
\<close>

theorem point_in_ring_parity:
  "(missionPointStrictlyInRing ring p \<longleftrightarrow>
      odd (length (filter (\<lambda>(a, b). ray_crosses p a b) (cyclic_edges ring))))
   \<and> missionPointStrictlyInRing (rev ring) p = missionPointStrictlyInRing ring p
   \<and> (missionPointStrictlyInRing ring p \<longrightarrow>
        (\<exists>v \<in> set ring. mp_x v \<le> mp_x p) \<and> (\<exists>v \<in> set ring. mp_x p < mp_x v)
        \<and> (\<exists>v \<in> set ring. mp_y v \<le> mp_y p) \<and> (\<exists>v \<in> set ring. mp_y p < mp_y v))"
  using strictly_in_ring_odd strictly_in_ring_rev strictly_in_ring_box by blast

theorem point_in_ring_parity_witness:
  "missionPointStrictlyInRing sample_square (point_at (1 / 2) (1 / 2))
   \<and> (\<exists>v \<in> set sample_square. mp_x (point_at (1 / 2) (1 / 2)) < mp_x v)"
proof -
  have "missionPointStrictlyInRing sample_square (point_at (1 / 2) (1 / 2))"
    by (simp add: missionPointStrictlyInRing_def sample_square_def cyclic_edges_def ray_crosses_def point_at_def)
  with point_in_ring_parity show ?thesis by blast
qed

text \<open>
  The report of \<open>CheckMissionCoverage\<close> is exact. It fails, with an error that is
  \<open>ErrInvalidMissionCoverageGeometry\<close>, exactly when the geometry does not decode; else it lists, in
  the order of the mission, the items whose point and the items whose leg to the next item the
  polygon does not cover, and a leg it does not list has both its ends covered.
\<close>

theorem mission_coverage_report_exact:
  "case decodeMissionPolygon json (ov_GeoJSON volume) of
     Inl e \<Rightarrow> (\<exists>e'. CheckMissionCoverage json volume items = Inl e' \<and> errors_Is e' ErrInvalidMissionCoverageGeometry)
   | Inr polygon \<Rightarrow> (\<exists>r. CheckMissionCoverage json volume items = Inr r
       \<and> mcr_UncoveredItems r = map mi_Sequence (filter (\<lambda>i.
            \<not> missionPolygonCoversPoint polygon (mission_point i)) items)
       \<and> mcr_UncoveredSegments r = map (mi_Sequence \<circ> fst) (filter (\<lambda>(i, j).
            \<not> missionPolygonCoversSegment polygon (mission_point i) (mission_point j)) (edges items))
       \<and> (\<forall>(i, j) \<in> set (edges items). missionPolygonCoversSegment polygon (mission_point i) (mission_point j)
            \<longrightarrow> missionPolygonCoversPoint polygon (mission_point i)
              \<and> missionPolygonCoversPoint polygon (mission_point j)))"
  by (auto simp: CheckMissionCoverage_def coverage_loop_eq missionPolygonCoversSegment_def
      split: sum.splits if_splits)

theorem mission_coverage_report_exact_witness:
  "\<exists>r. CheckMissionCoverage (sample_decoder [[[0, 0], [1, 0], [1, 1], [0, 1], [0, 0]]]) sample_volume [] = Inr r
     \<and> mcr_UncoveredItems r = [] \<and> mcr_UncoveredSegments r = []"
proof -
  let ?json = "sample_decoder [[[0, 0], [1, 0], [1, 1], [0, 1], [0, 0]]]"
  have "decodeMissionPolygon ?json (ov_GeoJSON sample_volume) = Inr [sample_square]"
    by (simp add: decodeMissionPolygon_def sample_decoder_def sample_square_def point_at_def missionPointsEqual_def)
  with mission_coverage_report_exact [of ?json sample_volume "[]"] show ?thesis by (auto simp: edges_def)
qed

text \<open>
  C34: a repeated vertex defeats the coverage check. When two consecutive vertices of the outer ring
  of a polygon without holes coincide, \<open>missionPointOnSegment\<close> places every point on the edge
  between them, so the polygon covers every point and every leg, and the report on any mission
  is empty.
\<close>

theorem repeated_vertex_covers_everything:
  assumes "decodeMissionPolygon json (ov_GeoJSON volume) = Inr [ring]" and "(v, v) \<in> set (edges ring)"
  shows "CheckMissionCoverage json volume items = Inr \<lparr>mcr_UncoveredItems = [], mcr_UncoveredSegments = []\<rparr>
    \<and> missionPolygonCoversPoint [ring] p \<and> missionPolygonCoversSegment [ring] p q"
proof -
  have point: "missionPolygonCoversPoint [ring] p" for p
    by (simp add: missionPolygonCoversPoint_def missionRingCoversPoint_def on_ring_repeated [OF assms(2)])
  then have segment: "missionPolygonCoversSegment [ring] p q" for p q
    by (auto simp: missionPolygonCoversSegment_def list_all_iff)
  show ?thesis using point segment assms(1) by (simp add: CheckMissionCoverage_def coverage_loop_eq case_prod_beta)
qed

theorem repeated_vertex_covers_everything_witness:
  "missionPolygonCoversPoint [point_at 0 0 # sample_square] (point_at 1000 1000)"
proof -
  let ?json = "sample_decoder [[[0, 0], [0, 0], [1, 0], [1, 1], [0, 1], [0, 0]]]"
  have "decodeMissionPolygon ?json (ov_GeoJSON sample_volume) = Inr [point_at 0 0 # sample_square]"
    by (simp add: decodeMissionPolygon_def sample_decoder_def sample_square_def point_at_def missionPointsEqual_def)
  moreover have "(point_at 0 0, point_at 0 0) \<in> set (edges (point_at 0 0 # sample_square))"
    by (simp add: edges_def sample_square_def)
  ultimately show ?thesis using repeated_vertex_covers_everything by blast
qed

text \<open>
  \<open>FindCandidates\<close> returns each intent version that has a volume which could overlap the query,
  the excluded intent apart, once, ordered by identity and version.
\<close>

theorem find_candidates_exact:
  "\<exists>cs. FindCandidates query s = Inr cs
     \<and> set cs = volume_candidate ` {v \<in> set (vals (s_operationalVolumes s)).
         ov_IntentID v \<noteq> cq_ExcludeIntentID query \<and> couldOverlap (cq_Volumes query) v}
     \<and> distinct cs
     \<and> sorted_wrt (\<lambda>a b. cand_IntentID a < cand_IntentID b
         \<or> cand_IntentID a = cand_IntentID b \<and> cand_IntentVersion a < cand_IntentVersion b) cs"
  by (rule find_candidates_spec)

end
