(* ===== verification/Conflict.thy ===== *)
theory Conflict
  imports Spatial
begin

text \<open>
  \<open>internal/airspaceprovider/provider.go\<close> (the records providers exchange) and
  \<open>internal/service/deconfliction/conflict.go\<close>: the comparison of the volumes of an intent with
  the volumes of its peers in time, altitude and bounding boxes. \<open>json.Unmarshal\<close> into a dynamic
  value and the verb \<open>q\<close> of \<open>fmt\<close> on such a value are parameters (\<open>geo_json\<close>).
\<close>

section \<open>Definitions\<close>

subsection \<open>Records of the airspace providers\<close>

record Source =
  src_ProviderID :: string
  src_ReferenceID :: string
  src_Manager :: string
  src_USSBaseURL :: string
  src_Version :: int
  src_OVN :: string
  src_Local :: bool

record Query =
  q_Intent :: OperationalIntent
  q_Volumes :: "OperationalVolume list"

text \<open>\<open>airspaceprovider.OperationalIntent\<close>.\<close>

record ProviderIntent =
  pi_Source :: Source
  pi_Intent :: OperationalIntent
  pi_Volumes :: "OperationalVolume list"
  pi_OffNominalVolumes :: "OperationalVolume list"

definition zero_Source :: Source where
  "zero_Source = \<lparr>src_ProviderID = [], src_ReferenceID = [], src_Manager = [], src_USSBaseURL = [],
     src_Version = 0, src_OVN = [], src_Local = False\<rparr>"

definition ProviderLocal :: string where
  "ProviderLocal = ''local''"

subsection \<open>GeoJSON\<close>

datatype json =
    JNull
  | JBool bool
  | JNumber real
  | JString string
  | JArray "json list"
  | JObject "(string \<times> json) list"

record geo_json =
  unmarshal_object :: "string \<Rightarrow> (string \<times> json) list result"
  sprint_q :: "json \<Rightarrow> string"

definition field_of :: "(string \<times> json) list \<Rightarrow> string \<Rightarrow> json" where
  "field_of m k = (case map_of m k of None \<Rightarrow> JNull | Some v \<Rightarrow> v)"

record geoBounds =
  bo_minLat :: real
  bo_maxLat :: real
  bo_minLon :: real
  bo_maxLon :: real

definition zero_geoBounds :: geoBounds where
  "zero_geoBounds = \<lparr>bo_minLat = 0, bo_maxLat = 0, bo_minLon = 0, bo_maxLon = 0\<rparr>"

definition errorf :: "string \<Rightarrow> go_error" where
  "errorf msg = Errorf msg []"

text \<open>Decoded numbers are finite, so the tests for \<open>NaN\<close> and infinities never fire.\<close>

definition geoJSONPosition :: "json \<Rightarrow> (real \<times> real) result" where
  "geoJSONPosition value =
     (case value of
        JArray (JNumber lon # JNumber lat # rest) \<Rightarrow>
          if lon < -180 \<or> lon > 180 \<or> lat < -90 \<or> lat > 90
          then Inl (errorf ''operational volume GeoJSON polygon coordinate is outside valid longitude/latitude range'')
          else Inr (lon, lat)
      | JArray (a # b # rest) \<Rightarrow>
          Inl (errorf ''operational volume GeoJSON polygon contains a non-finite coordinate'')
      | _ \<Rightarrow> Inl (errorf ''operational volume GeoJSON polygon contains an invalid coordinate''))"

definition max_float64 :: real where
  "max_float64 = (2 - 1 / 2 ^ 52) * 2 ^ 1023"

definition start_bounds :: geoBounds where
  "start_bounds = \<lparr>bo_minLat = max_float64, bo_maxLat = - max_float64,
     bo_minLon = max_float64, bo_maxLon = - max_float64\<rparr>"

definition include_position :: "real \<times> real \<Rightarrow> geoBounds \<Rightarrow> geoBounds" where
  "include_position p b = (case p of (lon, lat) \<Rightarrow>
     \<lparr>bo_minLat = min (bo_minLat b) lat, bo_maxLat = max (bo_maxLat b) lat,
      bo_minLon = min (bo_minLon b) lon, bo_maxLon = max (bo_maxLon b) lon\<rparr>)"

text \<open>The positions of the ring, or the first error.\<close>

fun positions :: "json list \<Rightarrow> (real \<times> real) list result" where
  "positions [] = Inr []"
| "positions (item # items) =
     (case geoJSONPosition item of
        Inl e \<Rightarrow> Inl e
      | Inr p \<Rightarrow> (case positions items of Inl e \<Rightarrow> Inl e | Inr ps \<Rightarrow> Inr (p # ps)))"

definition ring_bounds :: "json list \<Rightarrow> geoBounds result" where
  "ring_bounds exterior =
     (case positions exterior of
        Inl e \<Rightarrow> Inl e
      | Inr ps \<Rightarrow>
          let bounds = fold include_position ps start_bounds
          in if hd ps \<noteq> last ps
             then Inl (errorf ''operational volume GeoJSON polygon exterior ring is not closed'')
             else if bo_maxLon bounds - bo_minLon bounds > 180
             then Inl (errorf ''operational volume GeoJSON polygon crosses the antimeridian'')
             else Inr bounds)"

definition exterior_ring :: "geo_json \<Rightarrow> string \<Rightarrow> json list result" where
  "exterior_ring json raw =
     (case unmarshal_object json raw of
        Inl e \<Rightarrow> Inl (wrap ''operational volume GeoJSON is malformed'' e)
      | Inr decoded \<Rightarrow>
      case (if field_of decoded ''type'' = JString ''Feature''
            then (case field_of decoded ''geometry'' of
                    JObject geometry \<Rightarrow> Inr geometry
                  | _ \<Rightarrow> Inl (errorf ''operational volume GeoJSON feature has no geometry''))
            else Inr decoded) of
        Inl e \<Rightarrow> Inl e
      | Inr decoded \<Rightarrow>
      if field_of decoded ''type'' \<noteq> JString ''Polygon''
      then Inl (errorf (''operational volume GeoJSON type '' @ sprint_q json (field_of decoded ''type'')
             @ '' is not supported for local deconfliction''))
      else case field_of decoded ''coordinates'' of
        JArray (JArray exterior # rings) \<Rightarrow>
          if length exterior < 4
          then Inl (errorf ''operational volume GeoJSON polygon exterior ring is invalid'')
          else Inr exterior
      | JArray (ring # rings) \<Rightarrow> Inl (errorf ''operational volume GeoJSON polygon exterior ring is invalid'')
      | _ \<Rightarrow> Inl (errorf ''operational volume GeoJSON polygon has no coordinates''))"

definition geoJSONBounds :: "geo_json \<Rightarrow> string \<Rightarrow> geoBounds result" where
  "geoJSONBounds json raw =
     (case exterior_ring json raw of Inl e \<Rightarrow> Inl e | Inr exterior \<Rightarrow> ring_bounds exterior)"

subsection \<open>Bounds\<close>

definition expanded :: "geoBounds \<Rightarrow> real \<Rightarrow> geoBounds result" where
  "expanded bounds meters =
     (if meters < 0 then Inl (errorf ''operational volume has a negative geometry buffer'')
      else if meters = 0 then Inr bounds
      else
        let metersPerDegree = 110000;
            latitudeDelta = meters / metersPerDegree;
            maxAbsLatitude = max \<bar>bo_minLat bounds\<bar> \<bar>bo_maxLat bounds\<bar>;
            cosLatitude = cos ((maxAbsLatitude + latitudeDelta) * pi / 180);
            cosLatitude = (if cosLatitude < 1 / 100 then 1 / 100 else cosLatitude);
            longitudeDelta = meters / (metersPerDegree * cosLatitude);
            bounds = \<lparr>bo_minLat = max (-90) (bo_minLat bounds - latitudeDelta),
                      bo_maxLat = min 90 (bo_maxLat bounds + latitudeDelta),
                      bo_minLon = bo_minLon bounds - longitudeDelta,
                      bo_maxLon = bo_maxLon bounds + longitudeDelta\<rparr>
        in if bo_minLon bounds < -180 \<or> bo_maxLon bounds > 180
           then Inl (errorf ''operational volume buffer crosses the antimeridian'')
           else Inr bounds)"

definition bounds_overlaps :: "geoBounds \<Rightarrow> geoBounds \<Rightarrow> bool" where
  "bounds_overlaps bounds other \<longleftrightarrow> bo_minLat bounds \<le> bo_maxLat other \<and> bo_minLat other \<le> bo_maxLat bounds
     \<and> bo_minLon bounds \<le> bo_maxLon other \<and> bo_minLon other \<le> bo_maxLon bounds"

definition domainBounds :: "geoBounds \<Rightarrow> GeoBounds" where
  "domainBounds bounds = \<lparr>gb_MinLat = bo_minLat bounds, gb_MinLon = bo_minLon bounds,
     gb_MaxLat = bo_maxLat bounds, gb_MaxLon = bo_maxLon bounds\<rparr>"

subsection \<open>Evaluation of one volume\<close>

definition volumeDimensionError :: "OperationalVolume \<Rightarrow> string" where
  "volumeDimensionError volume =
     (if IsZero (ov_StartsAt volume) \<or> IsZero (ov_EndsAt volume) \<or> \<not> ov_StartsAt volume < ov_EndsAt volume
      then ''operational volume has an invalid time window''
      else if ov_MinAltitudeM volume < 0 \<or> ov_MaxAltitudeM volume \<le> 0
      then ''operational volume has a missing or invalid altitude band''
      else if ov_MinAltitudeM volume > ov_MaxAltitudeM volume
      then ''operational volume has an invalid altitude band''
      else if ov_AltitudeRef volume = AltitudeReferenceOther []
      then ''operational volume has no altitude reference''
      else [])"

definition volumeDimensionsUsable :: "OperationalVolume \<Rightarrow> bool" where
  "volumeDimensionsUsable volume \<longleftrightarrow> volumeDimensionError volume = []"

definition evaluateVolume ::
  "geo_json \<Rightarrow> OperationalVolume \<Rightarrow> geoBounds \<times> ConflictFindingStatus \<times> string" where
  "evaluateVolume json volume =
     (if volumeDimensionError volume \<noteq> []
      then (zero_geoBounds, ConflictFindingStatusIndeterminate, volumeDimensionError volume)
      else if TrimSpace (ov_GeoJSON volume) = []
      then if TrimSpace (ov_GeometryURI volume) \<noteq> []
           then (zero_geoBounds, ConflictFindingStatusPotentialConflict,
                 ''operational volume references external geometry that is not resolved locally'')
           else (zero_geoBounds, ConflictFindingStatusIndeterminate,
                 ''operational volume has no inline GeoJSON geometry'')
      else case geoJSONBounds json (ov_GeoJSON volume) of
        Inl e \<Rightarrow> (zero_geoBounds, ConflictFindingStatusIndeterminate, error_text e)
      | Inr bounds \<Rightarrow>
          (case ov_BufferMeters volume of
             None \<Rightarrow> (bounds, ConflictFindingStatusClear, [])
           | Some meters \<Rightarrow>
               (case expanded bounds meters of
                  Inl e \<Rightarrow> (zero_geoBounds, ConflictFindingStatusIndeterminate, error_text e)
                | Inr bounds \<Rightarrow> (bounds, ConflictFindingStatusClear, []))))"

subsection \<open>Overlap\<close>

definition timeWindowsOverlap :: "time \<Rightarrow> time \<Rightarrow> time \<Rightarrow> time \<Rightarrow> bool" where
  "timeWindowsOverlap aStart aEnd bStart bEnd \<longleftrightarrow> aStart < bEnd \<and> bStart < aEnd"

definition timeOverlap :: "time \<Rightarrow> time \<Rightarrow> time \<Rightarrow> time \<Rightarrow> time \<times> time" where
  "timeOverlap aStart aEnd bStart bEnd =
     (if bStart > aStart then bStart else aStart, if bEnd < aEnd then bEnd else aEnd)"

definition altitudeBandsOverlap :: "real \<Rightarrow> real \<Rightarrow> real \<Rightarrow> real \<Rightarrow> bool" where
  "altitudeBandsOverlap aMin aMax bMin bMax \<longleftrightarrow> aMin \<le> bMax \<and> bMin \<le> aMax"

definition altitudeOverlap :: "real \<Rightarrow> real \<Rightarrow> real \<Rightarrow> real \<Rightarrow> real \<times> real" where
  "altitudeOverlap aMin aMax bMin bMax = (max aMin bMin, min aMax bMax)"

subsection \<open>Peers\<close>

record preparedPeerVolume =
  pp_source :: Source
  pp_intent :: OperationalIntent
  pp_volume :: OperationalVolume
  pp_bounds :: geoBounds
  pp_status :: ConflictFindingStatus
  pp_message :: string
  pp_dimensionsUsable :: bool

definition preparePeerVolume :: "geo_json \<Rightarrow> ProviderIntent \<Rightarrow> OperationalVolume \<Rightarrow> preparedPeerVolume" where
  "preparePeerVolume json rec volume =
     (case evaluateVolume json volume of (bounds, status, message) \<Rightarrow>
        \<lparr>pp_source = pi_Source rec, pp_intent = pi_Intent rec, pp_volume = volume,
         pp_bounds = bounds, pp_status = status, pp_message = message,
         pp_dimensionsUsable = volumeDimensionsUsable volume\<rparr>)"

definition preparePeerVolumes :: "geo_json \<Rightarrow> ProviderIntent list \<Rightarrow> preparedPeerVolume list" where
  "preparePeerVolumes json records =
     concat (map (\<lambda>r. map (preparePeerVolume json r) (pi_Volumes r)
                      @ map (preparePeerVolume json r) (pi_OffNominalVolumes r)) records)"

definition service_source :: string where
  "service_source = ''deconfliction_service''"

definition evaluatedFinding ::
  "OperationalIntent \<Rightarrow> Source \<Rightarrow> ConflictFindingStatus \<Rightarrow> string \<Rightarrow> string \<Rightarrow> int \<Rightarrow> string \<Rightarrow> string
    \<Rightarrow> ConflictFinding" where
  "evaluatedFinding intent source status volumeID peerIntentID peerVersion peerVolumeID message =
     zero_ConflictFinding\<lparr>
       cf_OperatorID := oi_OperatorID intent, cf_IntentID := oi_ID intent,
       cf_IntentVersion := oi_Version intent, cf_AircraftID := oi_AircraftID intent,
       cf_VolumeID := volumeID, cf_ConflictingIntentID := peerIntentID,
       cf_ConflictingVersion := peerVersion, cf_ConflictingVolumeID := peerVolumeID,
       cf_SourceType := (if src_Local source \<or> src_ProviderID source = service_source
                         then ConflictFindingSourceLocal else ConflictFindingSourceExternal),
       cf_SourceID := src_ProviderID source
         @ (if src_ReferenceID source \<noteq> [] then '':'' @ src_ReferenceID source else []),
       cf_Status := status, cf_Message := message,
       cf_Provenance := join_strings ''|'' [src_ProviderID source, src_Manager source, src_USSBaseURL source]\<rparr>"

definition references_differ :: string where
  "references_differ = ''operational volume altitude references differ and cannot be compared locally''"

definition boxes_overlap :: string where
  "boxes_overlap =
     ''4D operational volume bounding boxes overlap; exact polygon intersection is not evaluated in v1''"

text \<open>The body of the inner loop: what one peer volume adds for a volume with usable bounds.\<close>

definition peer_findings ::
  "OperationalIntent \<Rightarrow> OperationalVolume \<Rightarrow> geoBounds \<Rightarrow> preparedPeerVolume \<Rightarrow> ConflictFinding list" where
  "peer_findings intent volume ownBounds peer =
     (let finding = (\<lambda>status message. evaluatedFinding intent (pp_source peer) status (ov_ID volume)
            (oi_ID (pp_intent peer)) (oi_Version (pp_intent peer)) (ov_ID (pp_volume peer)) message);
          intime = timeWindowsOverlap (ov_StartsAt volume) (ov_EndsAt volume)
            (ov_StartsAt (pp_volume peer)) (ov_EndsAt (pp_volume peer));
          inaltitude = altitudeBandsOverlap (ov_MinAltitudeM volume) (ov_MaxAltitudeM volume)
            (ov_MinAltitudeM (pp_volume peer)) (ov_MaxAltitudeM (pp_volume peer))
      in if pp_status peer \<noteq> ConflictFindingStatusClear then
           if pp_status peer = ConflictFindingStatusIndeterminate \<and> \<not> pp_dimensionsUsable peer
           then [finding (pp_status peer) (pp_message peer)]
           else if \<not> intime then []
           else if ov_AltitudeRef volume \<noteq> ov_AltitudeRef (pp_volume peer)
           then [finding ConflictFindingStatusIndeterminate references_differ]
           else if inaltitude then [finding (pp_status peer) (pp_message peer)]
           else []
         else if \<not> intime \<or> \<not> bounds_overlaps ownBounds (pp_bounds peer) then []
         else if ov_AltitudeRef volume \<noteq> ov_AltitudeRef (pp_volume peer)
         then [finding ConflictFindingStatusIndeterminate references_differ]
         else if \<not> inaltitude then []
         else
           let (t0, t1) = timeOverlap (ov_StartsAt volume) (ov_EndsAt volume)
                 (ov_StartsAt (pp_volume peer)) (ov_EndsAt (pp_volume peer));
               (minAltitude, maxAltitude) = altitudeOverlap (ov_MinAltitudeM volume) (ov_MaxAltitudeM volume)
                 (ov_MinAltitudeM (pp_volume peer)) (ov_MaxAltitudeM (pp_volume peer))
           in [(finding ConflictFindingStatusPotentialConflict boxes_overlap)\<lparr>
                 cf_TimeOverlapStart := Some t0, cf_TimeOverlapEnd := Some t1,
                 cf_AltitudeOverlapMin := Some minAltitude, cf_AltitudeOverlapMax := Some maxAltitude,
                 cf_OwnBounds := Some (domainBounds ownBounds),
                 cf_ConflictingBounds := Some (domainBounds (pp_bounds peer))\<rparr>])"

definition volume_findings ::
  "geo_json \<Rightarrow> OperationalIntent \<Rightarrow> preparedPeerVolume list \<Rightarrow> OperationalVolume \<Rightarrow> ConflictFinding list" where
  "volume_findings json intent peers volume =
     (case evaluateVolume json volume of (ownBounds, status, message) \<Rightarrow>
        if status \<noteq> ConflictFindingStatusClear
        then [evaluatedFinding intent (zero_Source\<lparr>src_ProviderID := service_source\<rparr>) status
                (ov_ID volume) [] 0 [] message]
        else concat (map (peer_findings intent volume ownBounds) peers))"

definition evaluateConflicts ::
  "geo_json \<Rightarrow> OperationalIntent \<Rightarrow> OperationalVolume list \<Rightarrow> ProviderIntent list \<Rightarrow> ConflictFinding list" where
  "evaluateConflicts json intent volumes records =
     concat (map (volume_findings json intent (preparePeerVolumes json records)) volumes)"

subsection \<open>What the evaluation is about\<close>

text \<open>A volume the evaluation can place: usable dimensions and a bounding box.\<close>

definition placed :: "geo_json \<Rightarrow> OperationalVolume \<Rightarrow> bool" where
  "placed json v \<longleftrightarrow> fst (snd (evaluateVolume json v)) = ConflictFindingStatusClear"

text \<open>
  Two volumes that the evaluation finds apart: in time, in altitude over one reference, or, for
  two volumes with bounding boxes, in the plane.
\<close>

definition apart :: "geo_json \<Rightarrow> OperationalVolume \<Rightarrow> OperationalVolume \<Rightarrow> bool" where
  "apart json v w \<longleftrightarrow>
     \<not> timeWindowsOverlap (ov_StartsAt v) (ov_EndsAt v) (ov_StartsAt w) (ov_EndsAt w)
     \<or> (ov_AltitudeRef v = ov_AltitudeRef w
        \<and> \<not> altitudeBandsOverlap (ov_MinAltitudeM v) (ov_MaxAltitudeM v) (ov_MinAltitudeM w) (ov_MaxAltitudeM w))
     \<or> (placed json v \<and> placed json w
        \<and> \<not> bounds_overlaps (fst (evaluateVolume json v)) (fst (evaluateVolume json w)))"

text \<open>Bounds inside the valid range, and a position inside bounds.\<close>

definition bounds_valid :: "geoBounds \<Rightarrow> bool" where
  "bounds_valid b \<longleftrightarrow> -90 \<le> bo_minLat b \<and> bo_minLat b \<le> bo_maxLat b \<and> bo_maxLat b \<le> 90
     \<and> -180 \<le> bo_minLon b \<and> bo_minLon b \<le> bo_maxLon b \<and> bo_maxLon b \<le> 180"

definition on_globe :: "real \<times> real \<Rightarrow> bool" where
  "on_globe p \<longleftrightarrow> -180 \<le> fst p \<and> fst p \<le> 180 \<and> -90 \<le> snd p \<and> snd p \<le> 90"

definition inside_bounds :: "geoBounds \<Rightarrow> real \<times> real \<Rightarrow> bool" where
  "inside_bounds b p \<longleftrightarrow> bo_minLon b \<le> fst p \<and> fst p \<le> bo_maxLon b \<and> bo_minLat b \<le> snd p \<and> snd p \<le> bo_maxLat b"

text \<open>A document with a rectangle, and a volume with it.\<close>

definition square_json :: geo_json where
  "square_json = \<lparr>
     unmarshal_object = (\<lambda>_. Inr [(''type'', JString ''Polygon''), (''coordinates'', JArray [JArray [
       JArray [JNumber 0, JNumber 0], JArray [JNumber 1, JNumber 0], JArray [JNumber 1, JNumber 1],
       JArray [JNumber 0, JNumber 1], JArray [JNumber 0, JNumber 0]]])]),
     sprint_q = (\<lambda>_. [])\<rparr>"

definition placed_volume :: OperationalVolume where
  "placed_volume = sample_volume\<lparr>ov_GeoJSON := ''x''\<rparr>"

definition record_volumes :: "ProviderIntent \<Rightarrow> OperationalVolume list" where
  "record_volumes r = pi_Volumes r @ pi_OffNominalVolumes r"

definition prefilter :: "OperationalVolume list \<Rightarrow> ProviderIntent \<Rightarrow> ProviderIntent" where
  "prefilter volumes r = r\<lparr>pi_Volumes := filter (couldOverlap volumes) (pi_Volumes r),
     pi_OffNominalVolumes := filter (couldOverlap volumes) (pi_OffNominalVolumes r)\<rparr>"

section \<open>Lemmas\<close>

text \<open>The two copies of the test for usable dimensions agree.\<close>

lemma volumeDimensionsUsable_eq: "volumeDimensionsUsable v = dimensionsUsable v"
  by (auto simp: volumeDimensionsUsable_def volumeDimensionError_def dimensionsUsable_def)

lemma placed_usable: "placed json v \<Longrightarrow> dimensionsUsable v"
  by (auto simp: placed_def evaluateVolume_def volumeDimensionsUsable_eq [symmetric]
      volumeDimensionsUsable_def split: if_splits)

lemma unusable_indeterminate:
  "\<not> dimensionsUsable v \<Longrightarrow> fst (snd (evaluateVolume json v)) = ConflictFindingStatusIndeterminate"
  by (simp add: evaluateVolume_def volumeDimensionsUsable_eq [symmetric] volumeDimensionsUsable_def)

lemma prepare_fields [simp]:
  "pp_volume (preparePeerVolume json r w) = w"
  "pp_bounds (preparePeerVolume json r w) = fst (evaluateVolume json w)"
  "pp_status (preparePeerVolume json r w) = fst (snd (evaluateVolume json w))"
  "pp_dimensionsUsable (preparePeerVolume json r w) = dimensionsUsable w"
  by (simp_all add: preparePeerVolume_def case_prod_beta volumeDimensionsUsable_eq)

lemma preparePeerVolumes_set:
  "set (preparePeerVolumes json records) =
     {preparePeerVolume json r w | r w. r \<in> set records \<and> w \<in> set (record_volumes r)}"
  by (auto simp: preparePeerVolumes_def record_volumes_def)

lemma peer_findings_Nil:
  assumes "placed json v"
  shows "peer_findings intent v (fst (evaluateVolume json v)) (preparePeerVolume json r w) = []
    \<longleftrightarrow> dimensionsUsable w \<and> apart json v w"
proof (cases "placed json w")
  case True
  with assms placed_usable [OF True] show ?thesis
    by (simp add: peer_findings_def apart_def placed_def Let_def case_prod_beta)
next
  case False
  with assms unusable_indeterminate [of w json] show ?thesis
    by (auto simp: peer_findings_def apart_def placed_def Let_def)
qed

lemma volume_findings_Nil:
  "volume_findings json intent (preparePeerVolumes json records) v = []
     \<longleftrightarrow> placed json v \<and> (\<forall>r \<in> set records. \<forall>w \<in> set (record_volumes r). dimensionsUsable w \<and> apart json v w)"
proof (cases "placed json v")
  case True
  then have "volume_findings json intent (preparePeerVolumes json records) v =
      concat (map (peer_findings intent v (fst (evaluateVolume json v))) (preparePeerVolumes json records))"
    by (simp add: volume_findings_def placed_def case_prod_beta)
  then have "volume_findings json intent (preparePeerVolumes json records) v = [] \<longleftrightarrow>
      (\<forall>r \<in> set records. \<forall>w \<in> set (record_volumes r).
         peer_findings intent v (fst (evaluateVolume json v)) (preparePeerVolume json r w) = [])"
    by (simp only: concat_eq_Nil_conv set_map preparePeerVolumes_set) blast
  with True show ?thesis by (simp add: peer_findings_Nil [OF True])
next
  case False
  then show ?thesis by (simp add: volume_findings_def placed_def case_prod_beta)
qed

lemma evaluateConflicts_Nil:
  "evaluateConflicts json intent volumes records = [] \<longleftrightarrow>
     (\<forall>v \<in> set volumes. placed json v
        \<and> (\<forall>r \<in> set records. \<forall>w \<in> set (record_volumes r). dimensionsUsable w \<and> apart json v w))"
  by (auto simp: evaluateConflicts_def volume_findings_Nil)

lemma could_overlap_complete:
  assumes "v \<in> set volumes" and "placed json v" and "\<not> couldOverlap volumes w"
  shows "dimensionsUsable w \<and> apart json v w"
proof -
  from assms(1,3) have w: "dimensionsUsable w"
    and none: "\<not> list_ex (\<lambda>t. \<not> dimensionsUsable t \<or> (ov_StartsAt t < ov_EndsAt w \<and> ov_StartsAt w < ov_EndsAt t
        \<and> (ov_AltitudeRef t \<noteq> ov_AltitudeRef w
           \<or> ov_MinAltitudeM t \<le> ov_MaxAltitudeM w \<and> ov_MinAltitudeM w \<le> ov_MaxAltitudeM t))) volumes"
    by (auto simp: couldOverlap_def split: if_splits)
  from none assms(1) have "\<not> (ov_StartsAt v < ov_EndsAt w \<and> ov_StartsAt w < ov_EndsAt v
      \<and> (ov_AltitudeRef v \<noteq> ov_AltitudeRef w
         \<or> ov_MinAltitudeM v \<le> ov_MaxAltitudeM w \<and> ov_MinAltitudeM w \<le> ov_MaxAltitudeM v))"
    by (auto simp: list_ex_iff)
  with w show ?thesis
    by (auto simp: apart_def timeWindowsOverlap_def altitudeBandsOverlap_def)
qed

lemma preparePeerVolume_prefilter [simp]:
  "preparePeerVolume json (prefilter volumes r) = preparePeerVolume json r"
  by (intro ext) (simp add: preparePeerVolume_def prefilter_def case_prod_beta)

lemma volume_findings_prefilter:
  assumes "v \<in> set volumes"
  shows "volume_findings json intent (preparePeerVolumes json (map (prefilter volumes) records)) v =
    volume_findings json intent (preparePeerVolumes json records) v"
proof (cases "placed json v")
  case True
  let ?f = "\<lambda>r w. peer_findings intent v (fst (evaluateVolume json v)) (preparePeerVolume json r w)"
  have drop: "concat (map (?f r) (filter (couldOverlap volumes) ws)) = concat (map (?f r) ws)" for r ws
    by (induction ws) (auto simp: peer_findings_Nil [OF True] dest: could_overlap_complete [OF assms True])
  have "concat (map (peer_findings intent v (fst (evaluateVolume json v)))
        (preparePeerVolumes json (map (prefilter volumes) records))) =
      concat (map (peer_findings intent v (fst (evaluateVolume json v))) (preparePeerVolumes json records))"
  proof (induction records)
    case (Cons r records)
    then show ?case
      using drop [of r "pi_Volumes r"] drop [of r "pi_OffNominalVolumes r"]
      by (simp add: preparePeerVolumes_def prefilter_def [of volumes r] comp_def)
        (simp add: preparePeerVolume_def case_prod_beta)
  qed (simp add: preparePeerVolumes_def)
  with True show ?thesis by (simp add: volume_findings_def placed_def case_prod_beta)
next
  case False
  then show ?thesis by (simp add: volume_findings_def placed_def case_prod_beta)
qed

subsection \<open>Bounding boxes\<close>

lemma max_float64_large: "180 < max_float64"
proof -
  have "(180 :: real) < 2 ^ 8" by simp
  also have "\<dots> \<le> 2 ^ 1023" by (rule power_increasing) simp_all
  also have "\<dots> = 1 * 2 ^ 1023" by simp
  also have "\<dots> \<le> max_float64"
    unfolding max_float64_def by (rule mult_right_mono) simp_all
  finally show ?thesis .
qed

lemma position_range: "geoJSONPosition x = Inr p \<Longrightarrow> on_globe p"
  by (auto simp: geoJSONPosition_def on_globe_def split: json.splits list.splits if_splits)

lemma positions_range: "positions xs = Inr ps \<Longrightarrow> length ps = length xs \<and> list_all on_globe ps"
  by (induction xs arbitrary: ps) (auto split: sum.splits dest: position_range)

lemma fold_include:
  "bo_minLat (fold include_position ps b) = Min (insert (bo_minLat b) (snd ` set ps))"
  "bo_maxLat (fold include_position ps b) = Max (insert (bo_maxLat b) (snd ` set ps))"
  "bo_minLon (fold include_position ps b) = Min (insert (bo_minLon b) (fst ` set ps))"
  "bo_maxLon (fold include_position ps b) = Max (insert (bo_maxLon b) (fst ` set ps))"
proof -
  have step: "bo_minLat (include_position p b) = min (bo_minLat b) (snd p)"
    "bo_maxLat (include_position p b) = max (bo_maxLat b) (snd p)"
    "bo_minLon (include_position p b) = min (bo_minLon b) (fst p)"
    "bo_maxLon (include_position p b) = max (bo_maxLon b) (fst p)" for p b
    by (simp_all add: include_position_def case_prod_beta)
  have mn: "Min (insert (min a x) A) = Min (insert a (insert x A))" if "finite A" for a x :: real and A
    using that by (cases "A = {}") (simp_all add: min.assoc)
  have mx: "Max (insert (max a x) A) = Max (insert a (insert x A))" if "finite A" for a x :: real and A
    using that by (cases "A = {}") (simp_all add: max.assoc)
  show "bo_minLat (fold include_position ps b) = Min (insert (bo_minLat b) (snd ` set ps))"
    "bo_maxLat (fold include_position ps b) = Max (insert (bo_maxLat b) (snd ` set ps))"
    "bo_minLon (fold include_position ps b) = Min (insert (bo_minLon b) (fst ` set ps))"
    "bo_maxLon (fold include_position ps b) = Max (insert (bo_maxLon b) (fst ` set ps))"
    by (induction ps arbitrary: b) (simp_all add: step mn mx)
qed

text \<open>The bounds of a ring are valid, tight and at most half the globe wide.\<close>

lemma ring_bounds_tight:
  assumes "ring_bounds xs = Inr b" and "xs \<noteq> []"
  shows "\<exists>ps. positions xs = Inr ps \<and> list_all (inside_bounds b) ps \<and> bounds_valid b
    \<and> bo_minLat b \<in> snd ` set ps \<and> bo_maxLat b \<in> snd ` set ps
    \<and> bo_minLon b \<in> fst ` set ps \<and> bo_maxLon b \<in> fst ` set ps \<and> bo_maxLon b - bo_minLon b \<le> 180"
proof -
  from assms obtain ps where ps: "positions xs = Inr ps" and b: "b = fold include_position ps start_bounds"
    and w: "bo_maxLon b - bo_minLon b \<le> 180"
    by (auto simp: ring_bounds_def Let_def split: sum.splits if_splits)
  have r: "ps \<noteq> []" "\<And>p. p \<in> set ps \<Longrightarrow> -180 \<le> fst p \<and> fst p \<le> 180 \<and> -90 \<le> snd p \<and> snd p \<le> 90"
    using positions_range [OF ps] assms(2) by (auto simp: list_all_iff on_globe_def)
  have lo: "Min (insert max_float64 (f ` set ps)) = Min (f ` set ps)" if "\<And>p. p \<in> set ps \<Longrightarrow> f p \<le> 180"
    for f :: "real \<times> real \<Rightarrow> real"
  proof -
    obtain q where "q \<in> set ps" using r(1) by (cases ps) auto
    then have "Min (f ` set ps) \<le> f q" by simp
    also have "\<dots> \<le> 180" by (rule that [OF \<open>q \<in> set ps\<close>])
    finally have "Min (f ` set ps) \<le> max_float64" using max_float64_large by simp
    then show ?thesis by (subst Min_insert) (use r(1) in \<open>simp_all only: finite_imageI finite_set
        image_is_empty set_empty not_False_eq_True min_absorb2\<close>)
  qed
  have hi: "Max (insert (- max_float64) (f ` set ps)) = Max (f ` set ps)" if "\<And>p. p \<in> set ps \<Longrightarrow> -180 \<le> f p"
    for f :: "real \<times> real \<Rightarrow> real"
  proof -
    obtain q where "q \<in> set ps" using r(1) by (cases ps) auto
    have "-180 \<le> f q" by (rule that [OF \<open>q \<in> set ps\<close>])
    also have "\<dots> \<le> Max (f ` set ps)" using \<open>q \<in> set ps\<close> by simp
    finally have "- max_float64 \<le> Max (f ` set ps)" using max_float64_large by simp
    then show ?thesis by (subst Max_insert) (use r(1) in \<open>simp_all only: finite_imageI finite_set
        image_is_empty set_empty not_False_eq_True max_absorb2\<close>)
  qed
  have eqs: "bo_minLat b = Min (snd ` set ps)" "bo_maxLat b = Max (snd ` set ps)"
    "bo_minLon b = Min (fst ` set ps)" "bo_maxLon b = Max (fst ` set ps)"
    using lo [of snd] lo [of fst] hi [of snd] hi [of fst] r(2)
    by (force simp: b fold_include start_bounds_def)+
  have "bo_minLat b \<in> snd ` set ps" "bo_maxLat b \<in> snd ` set ps" "bo_minLon b \<in> fst ` set ps"
    "bo_maxLon b \<in> fst ` set ps"
    unfolding eqs using r(1) by (auto intro!: Min_in Max_in)
  moreover have "inside_bounds b p" if "p \<in> set ps" for p
    unfolding inside_bounds_def eqs using that by simp
  moreover have "bo_minLat b \<le> bo_maxLat b" "bo_minLon b \<le> bo_maxLon b"
    unfolding eqs using r(1) by (simp_all add: Min_le_iff Max_ge_iff)
  ultimately show ?thesis using ps r(2) w by (auto simp: list_all_iff bounds_valid_def)
qed

lemma expanded_encloses:
  assumes "expanded b m = Inr b'" and "bounds_valid b"
  shows "bounds_valid b' \<and> bo_minLat b' \<le> bo_minLat b \<and> bo_maxLat b \<le> bo_maxLat b'
    \<and> bo_minLon b' \<le> bo_minLon b \<and> bo_maxLon b \<le> bo_maxLon b'"
proof (cases "m = 0")
  case True
  with assms show ?thesis by (simp add: expanded_def)
next
  case False
  with assms(1) have m: "0 < m" by (auto simp: expanded_def split: if_splits)
  define c where "c = (let c = cos ((max \<bar>bo_minLat b\<bar> \<bar>bo_maxLat b\<bar> + m / 110000) * pi / 180)
      in if c < 1 / 100 then 1 / 100 else c)"
  have "0 < c" by (simp add: c_def Let_def)
  with m have d: "0 < m / 110000" "0 < m / (110000 * c)" by simp_all
  from assms(1) m have "b' = \<lparr>bo_minLat = max (-90) (bo_minLat b - m / 110000),
      bo_maxLat = min 90 (bo_maxLat b + m / 110000),
      bo_minLon = bo_minLon b - m / (110000 * c), bo_maxLon = bo_maxLon b + m / (110000 * c)\<rparr>"
    and "-180 \<le> bo_minLon b'" "bo_maxLon b' \<le> 180"
    by (auto simp: expanded_def Let_def c_def split: if_splits)
  with assms(2) d show ?thesis by (auto simp: bounds_valid_def)
qed

lemma exterior_ring_length: "exterior_ring json raw = Inr ext \<Longrightarrow> 4 \<le> length ext"
  by (auto simp: exterior_ring_def split: sum.splits if_splits json.splits list.splits)

lemma square_placed [simp]: "placed square_json placed_volume"
proof -
  have "bo_maxLon (fold include_position [(0, 0), (1, 0), (1, 1), (0, 1), (0, 0)] start_bounds) = 1"
    and "bo_minLon (fold include_position [(0, 0), (1, 0), (1, 1), (0, 1), (0, 0)] start_bounds) = 0"
    using max_float64_large by (simp_all add: include_position_def start_bounds_def)
  moreover have "TrimSpace ''x'' \<noteq> []" by code_simp
  ultimately show ?thesis
    by (simp add: placed_def evaluateVolume_def placed_volume_def volumeDimensionError_def sample_volume_def
        zero_OperationalVolume_def geoJSONBounds_def exterior_ring_def square_json_def field_of_def
        ring_bounds_def geoJSONPosition_def Let_def del: fold_simps)
qed

section \<open>Properties\<close>

text \<open>
  The evaluation is complete. \<open>evaluateConflicts\<close> reports nothing exactly when every volume of
  the intent can be placed (valid window, altitude band and reference, bounding box), every
  volume of every peer, nominal or not, has usable dimensions, and each of the former is apart
  from each of the latter in time, in altitude over one reference, or in its bounding box.
\<close>

theorem no_finding_iff_separated:
  "evaluateConflicts json intent volumes records = [] \<longleftrightarrow>
     (\<forall>v \<in> set volumes. placed json v
        \<and> (\<forall>r \<in> set records. \<forall>w \<in> set (pi_Volumes r) \<union> set (pi_OffNominalVolumes r).
             dimensionsUsable w \<and> apart json v w))"
  by (simp add: evaluateConflicts_Nil record_volumes_def)

theorem no_finding_iff_separated_witness:
  "evaluateConflicts square_json sample_intent [placed_volume]
     [\<lparr>pi_Source = zero_Source, pi_Intent = sample_intent, pi_Volumes = [placed_volume\<lparr>ov_StartsAt := 20, ov_EndsAt := 30\<rparr>],
       pi_OffNominalVolumes = []\<rparr>] = []"
proof -
  let ?w = "placed_volume\<lparr>ov_StartsAt := 20, ov_EndsAt := 30\<rparr>"
  have "dimensionsUsable ?w"
    using placed_usable [OF square_placed] by (simp add: dimensionsUsable_def)
  moreover have "apart square_json placed_volume ?w"
    by (simp add: apart_def timeWindowsOverlap_def placed_volume_def sample_volume_def)
  ultimately show ?thesis unfolding no_finding_iff_separated by simp
qed

text \<open>
  C35: the spatial query loses nothing. Dropping from the peers every volume that the test of
  \<open>FindCandidates\<close> (\<open>couldOverlap\<close>) excludes changes no finding of the evaluation.
\<close>

theorem candidate_filter_keeps_findings:
  "evaluateConflicts json intent volumes (map (prefilter volumes) records) =
     evaluateConflicts json intent volumes records"
  unfolding evaluateConflicts_def
  by (intro arg_cong [where f = concat] map_cong) (simp_all add: volume_findings_prefilter)

text \<open>
  The box of a volume encloses it. When \<open>evaluateVolume\<close> places a volume, its bounds are valid
  latitudes and longitudes and contain every vertex of the exterior ring, with or without the
  buffer.
\<close>

theorem volume_bounds_enclose_ring:
  assumes "evaluateVolume json v = (b, ConflictFindingStatusClear, m)"
  shows "bounds_valid b \<and> (\<exists>ext ps. exterior_ring json (ov_GeoJSON v) = Inr ext \<and> positions ext = Inr ps
    \<and> 4 \<le> length ps \<and> list_all (inside_bounds b) ps)"
proof -
  from assms obtain b0 where b0: "geoJSONBounds json (ov_GeoJSON v) = Inr b0"
    and b: "b = b0 \<or> (\<exists>mt. expanded b0 mt = Inr b)"
    by (auto simp: evaluateVolume_def split: if_splits sum.splits option.splits)
  from b0 obtain ext where ext: "exterior_ring json (ov_GeoJSON v) = Inr ext" and rb: "ring_bounds ext = Inr b0"
    by (auto simp: geoJSONBounds_def split: sum.splits)
  have len: "4 \<le> length ext" by (rule exterior_ring_length [OF ext])
  then have "ext \<noteq> []" by auto
  from ring_bounds_tight [OF rb this] obtain ps where ps: "positions ext = Inr ps"
    and ins: "list_all (inside_bounds b0) ps" and val: "bounds_valid b0" by auto
  have "bounds_valid b \<and> list_all (inside_bounds b) ps"
    using b
  proof
    assume "\<exists>mt. expanded b0 mt = Inr b"
    then obtain mt where "expanded b0 mt = Inr b" ..
    from expanded_encloses [OF this val] ins show ?thesis
      by (auto simp: list_all_iff inside_bounds_def intro: order_trans)
  qed (use ins val in simp)
  with ext ps len positions_range [OF ps] show ?thesis by auto
qed

theorem volume_bounds_enclose_ring_witness:
  "bounds_valid (fst (evaluateVolume square_json placed_volume))"
proof -
  have "evaluateVolume square_json placed_volume = (fst (evaluateVolume square_json placed_volume),
      ConflictFindingStatusClear, snd (snd (evaluateVolume square_json placed_volume)))"
    using square_placed by (simp add: placed_def prod_eq_iff)
  from volume_bounds_enclose_ring [OF this] show ?thesis by simp
qed

end
