(* ===== verification/Store_Coordination.thy ===== *)
theory Store_Coordination
  imports Store_Intents
begin

text \<open>
  The coordination half of the in-memory store: the publication record of an intent, which is
  both the state of its DSS reference and the outbox entry a worker leases, and the
  notifications for peer systems. Updates carry the revision of the claim (contract
  \<open>cas_table\<close>), claims carry a lease (contract \<open>lease_table\<close>), and the writes that change an intent
  together with its publication are fenced like the plain ones (\<open>fenced_intent_write\<close>).
\<close>

section \<open>Definitions\<close>

subsection \<open>Requests\<close>

text \<open>
  \<open>clonePublication\<close> copies the reference bytes, which is the identity on values and is left out
  below.
\<close>

definition requested_publication ::
  "OperationalIntentPublication \<Rightarrow> OperationalIntentPublication option \<Rightarrow> OperationalIntentPublication" where
  "requested_publication request stored =
     (let request = request\<lparr>pub_LeaseUntil := None\<rparr>;
          request = (case stored of
              None \<Rightarrow> request
            | Some current \<Rightarrow>
                let request = request\<lparr>
                      pub_Revision := inc64 (pub_Revision current),
                      pub_PublishedIntentVersion := pub_PublishedIntentVersion current,
                      pub_ConfirmedState := pub_ConfirmedState current,
                      pub_DSSVersion := pub_DSSVersion current,
                      pub_OVN := pub_OVN current,
                      pub_SubscriptionID := pub_SubscriptionID current,
                      pub_Manager := pub_Manager current,
                      pub_USSBaseURL := pub_USSBaseURL current,
                      pub_ReferenceJSON := pub_ReferenceJSON current,
                      pub_ConfirmedAt := pub_ConfirmedAt current,
                      pub_LeaseUntil := pub_LeaseUntil current,
                      pub_LastAttemptAt := pub_LastAttemptAt current\<rparr>
                in if pub_SyncStatus current = PublicationSyncWithdrawn
                      \<and> pub_DesiredState request \<noteq> OperationalIntentExternalStateWithdrawn
                   then request\<lparr>pub_PublishedIntentVersion := 0, pub_DSSVersion := 0, pub_OVN := [],
                          pub_ReferenceJSON := [], pub_ConfirmedAt := None\<rparr>
                   else request)
      in request\<lparr>pub_SyncStatus := PublicationSyncPending, pub_AttemptCount := 0, pub_LastError := []\<rparr>)"

definition requestPublicationLocked ::
  "OperationalIntentPublication \<Rightarrow> Store \<Rightarrow> Store" where
  "requestPublicationLocked request s =
     s\<lparr>s_publications := AList.update (pub_IntentID request)
        (requested_publication request (map_of (s_publications s) (pub_IntentID request)))
        (s_publications s)\<rparr>"

definition AcceptOperationalIntentAndRequestPublication ::
  "OperationalIntent \<Rightarrow> int \<Rightarrow> OperationalIntentPublication \<Rightarrow> Store \<Rightarrow> go_error option \<times> Store" where
  "AcceptOperationalIntentAndRequestPublication intent expectedRevision publication s =
     (case acceptOperationalIntentLocked intent expectedRevision s of
        (Some e, s') \<Rightarrow> (Some e, s')
      | (None, s') \<Rightarrow> (None, requestPublicationLocked publication s'))"

definition UpdateOperationalIntentAndRequestPublication ::
  "OperationalIntent \<Rightarrow> int \<Rightarrow> OperationalIntentPublication \<Rightarrow> Store \<Rightarrow> go_error option \<times> Store" where
  "UpdateOperationalIntentAndRequestPublication intent expectedRevision publication s =
     (case updateOperationalIntentLocked intent expectedRevision s of
        (Some e, s') \<Rightarrow> (Some e, s')
      | (None, s') \<Rightarrow> (None, requestPublicationLocked publication s'))"

definition RequestOperationalIntentPublication ::
  "OperationalIntentPublication \<Rightarrow> Store \<Rightarrow> go_error option \<times> Store" where
  "RequestOperationalIntentPublication publication s =
     (case map_of (s_operationalIntents s)
         (operationalIntentKey (pub_IntentID publication) (pub_DesiredIntentVersion publication)) of
        None \<Rightarrow> (Some ErrNotFound, s)
      | Some i \<Rightarrow> (None, requestPublicationLocked publication s))"

definition RequestOperationalIntentPublicationIfCurrent ::
  "OperationalIntentPublication \<Rightarrow> int \<Rightarrow> int \<Rightarrow> IntentStatus \<Rightarrow> Store \<Rightarrow> go_error option \<times> Store" where
  "RequestOperationalIntentPublicationIfCurrent publication expectedIntentVersion
      expectedIntentRevision expectedStatus s =
     (case latestOperationalIntent s (pub_IntentID publication) of
        None \<Rightarrow> (Some ErrNotFound, s)
      | Some current \<Rightarrow>
          if oi_Version current \<noteq> expectedIntentVersion
             \<or> oi_Revision current \<noteq> expectedIntentRevision \<or> oi_Status current \<noteq> expectedStatus
          then (Some ErrVersionConflict, s)
          else case map_of (s_operationalIntents s)
              (operationalIntentKey (pub_IntentID publication) (pub_DesiredIntentVersion publication)) of
            None \<Rightarrow> (Some ErrNotFound, s)
          | Some i \<Rightarrow> (None, requestPublicationLocked publication s))"

definition GetOperationalIntentPublication ::
  "string \<Rightarrow> Store \<Rightarrow> OperationalIntentPublication result" where
  "GetOperationalIntentPublication intentID s = found (map_of (s_publications s) intentID)"

subsection \<open>Claims\<close>

text \<open>The assignments both claiming methods make to a publication.\<close>

definition claimed_publication ::
  "time \<Rightarrow> time \<Rightarrow> OperationalIntentPublication \<Rightarrow> OperationalIntentPublication" where
  "claimed_publication now leaseUntil p = p\<lparr>
     pub_Revision := inc64 (pub_Revision p), pub_SyncStatus := PublicationSyncProcessing,
     pub_LeaseUntil := Some leaseUntil, pub_LastAttemptAt := Some now,
     pub_AttemptCount := inc64 (pub_AttemptCount p), pub_UpdatedAt := now\<rparr>"

definition leased :: "time option \<Rightarrow> time \<Rightarrow> bool" where
  "leased lease now \<longleftrightarrow> (case lease of None \<Rightarrow> False | Some u \<Rightarrow> u > now)"

definition ClaimOperationalIntentPublication ::
  "string \<Rightarrow> time \<Rightarrow> time \<Rightarrow> Store \<Rightarrow> OperationalIntentPublication result \<times> Store" where
  "ClaimOperationalIntentPublication intentID now leaseUntil s =
     (case map_of (s_publications s) intentID of
        None \<Rightarrow> (Inl ErrNotFound, s)
      | Some p \<Rightarrow>
          if leased (pub_LeaseUntil p) now then (Inl ErrVersionConflict, s)
          else (Inr (claimed_publication now leaseUntil p),
                s\<lparr>s_publications :=
                  AList.update intentID (claimed_publication now leaseUntil p) (s_publications s)\<rparr>))"

definition publication_due :: "time \<Rightarrow> OperationalIntentPublication \<Rightarrow> bool" where
  "publication_due now p \<longleftrightarrow> \<not> (pub_NextAttemptAt p > now \<or> leased (pub_LeaseUntil p) now)
     \<and> pub_SyncStatus p \<in> {PublicationSyncPending, PublicationSyncRetrying, PublicationSyncProcessing}"

fun claim_publications ::
  "string list \<Rightarrow> time \<Rightarrow> time \<Rightarrow> Store \<Rightarrow> OperationalIntentPublication list \<times> Store" where
  "claim_publications [] now leaseUntil s = ([], s)"
| "claim_publications (i # ids) now leaseUntil s =
     (let p = claimed_publication now leaseUntil
                (case map_of (s_publications s) i of
                   None \<Rightarrow> zero_OperationalIntentPublication | Some p \<Rightarrow> p);
          s = s\<lparr>s_publications := AList.update i p (s_publications s)\<rparr>;
          (claimed, s') = claim_publications ids now leaseUntil s
      in (p # claimed, s'))"

definition due_publications :: "time \<Rightarrow> Store \<Rightarrow> string list" where
  "due_publications now s =
     sort (map fst (filter (\<lambda>(i, p). publication_due now p) (s_publications s)))"

definition ClaimDueOperationalIntentPublications ::
  "time \<Rightarrow> time \<Rightarrow> int \<Rightarrow> Store \<Rightarrow> OperationalIntentPublication list result \<times> Store" where
  "ClaimDueOperationalIntentPublications now leaseUntil limit s =
     (if limit \<le> 0 then (Inr [], s)
      else
        let ids = take (nat limit) (due_publications now s);
            (claimed, s') = claim_publications ids now leaseUntil s
        in (Inr claimed, s'))"

subsection \<open>Outcomes\<close>

definition RenewOperationalIntentPublicationLease ::
  "string \<Rightarrow> int \<Rightarrow> time \<Rightarrow> Store \<Rightarrow> go_error option \<times> Store" where
  "RenewOperationalIntentPublicationLease intentID expectedRevision leaseUntil s =
     (case map_of (s_publications s) intentID of
        None \<Rightarrow> (Some ErrNotFound, s)
      | Some p \<Rightarrow>
          if pub_Revision p \<noteq> expectedRevision then (Some ErrVersionConflict, s)
          else (None, s\<lparr>s_publications :=
                  AList.update intentID (p\<lparr>pub_LeaseUntil := Some leaseUntil\<rparr>) (s_publications s)\<rparr>))"

definition UpdateOperationalIntentPublication ::
  "OperationalIntentPublication \<Rightarrow> int \<Rightarrow> Store \<Rightarrow> go_error option \<times> Store" where
  "UpdateOperationalIntentPublication publication expectedRevision s =
     (case map_of (s_publications s) (pub_IntentID publication) of
        None \<Rightarrow> (Some ErrNotFound, s)
      | Some current \<Rightarrow>
          if pub_Revision current \<noteq> expectedRevision then (Some ErrVersionConflict, s)
          else (None, s\<lparr>s_publications := AList.update (pub_IntentID publication)
                  (publication\<lparr>pub_Revision := inc64 expectedRevision, pub_LeaseUntil := None\<rparr>)
                  (s_publications s)\<rparr>))"

definition enqueue_notification :: "PeerNotification \<Rightarrow> PeerNotification gomap \<Rightarrow> PeerNotification gomap" where
  "enqueue_notification n m =
     (if map_of m (pn_ID n) \<noteq> None then m else AList.update (pn_ID n) (n\<lparr>pn_Revision := 0\<rparr>) m)"

definition enqueuePeerNotificationsLocked :: "PeerNotification list \<Rightarrow> Store \<Rightarrow> Store" where
  "enqueuePeerNotificationsLocked notifications s =
     s\<lparr>s_peerNotifications := fold enqueue_notification notifications (s_peerNotifications s)\<rparr>"

definition ConfirmOperationalIntentPublication ::
  "OperationalIntentPublication \<Rightarrow> int \<Rightarrow> PeerNotification list \<Rightarrow> Store \<Rightarrow> go_error option \<times> Store" where
  "ConfirmOperationalIntentPublication publication expectedRevision notifications s =
     (case map_of (s_publications s) (pub_IntentID publication) of
        None \<Rightarrow> (Some ErrNotFound, s)
      | Some current \<Rightarrow>
          if pub_Revision current \<noteq> expectedRevision then (Some ErrVersionConflict, s)
          else (None, enqueuePeerNotificationsLocked notifications
                  (s\<lparr>s_publications := AList.update (pub_IntentID publication)
                    (publication\<lparr>pub_Revision := inc64 expectedRevision, pub_LeaseUntil := None\<rparr>)
                    (s_publications s)\<rparr>)))"

subsection \<open>Peer notifications\<close>

definition notification_due :: "time \<Rightarrow> PeerNotification \<Rightarrow> bool" where
  "notification_due now n \<longleftrightarrow> pn_DeliveredAt n = None \<and> \<not> pn_NextAttemptAt n > now
     \<and> \<not> leased (pn_LeaseUntil n) now"

definition claimed_notification :: "time \<Rightarrow> time \<Rightarrow> PeerNotification \<Rightarrow> PeerNotification" where
  "claimed_notification now leaseUntil n = n\<lparr>
     pn_Revision := inc64 (pn_Revision n), pn_LeaseUntil := Some leaseUntil,
     pn_AttemptCount := inc64 (pn_AttemptCount n), pn_UpdatedAt := now\<rparr>"

fun claim_notifications ::
  "string list \<Rightarrow> time \<Rightarrow> time \<Rightarrow> Store \<Rightarrow> PeerNotification list \<times> Store" where
  "claim_notifications [] now leaseUntil s = ([], s)"
| "claim_notifications (i # ids) now leaseUntil s =
     (let n = claimed_notification now leaseUntil
                (case map_of (s_peerNotifications s) i of
                   None \<Rightarrow> zero_PeerNotification | Some n \<Rightarrow> n);
          s = s\<lparr>s_peerNotifications := AList.update i n (s_peerNotifications s)\<rparr>;
          (claimed, s') = claim_notifications ids now leaseUntil s
      in (n # claimed, s'))"

definition ClaimDuePeerNotifications ::
  "time \<Rightarrow> time \<Rightarrow> int \<Rightarrow> Store \<Rightarrow> PeerNotification list result \<times> Store" where
  "ClaimDuePeerNotifications now leaseUntil limit s =
     (let ids = sort (map fst (filter (\<lambda>(i, n). notification_due now n) (s_peerNotifications s)));
          ids = (if limit < int (length ids) then take (nat (max limit 0)) ids else ids);
          (claimed, s') = claim_notifications ids now leaseUntil s
      in (Inr claimed, s'))"

definition UpdatePeerNotification ::
  "PeerNotification \<Rightarrow> int \<Rightarrow> Store \<Rightarrow> go_error option \<times> Store" where
  "UpdatePeerNotification notification expectedRevision s =
     (case map_of (s_peerNotifications s) (pn_ID notification) of
        None \<Rightarrow> (Some ErrNotFound, s)
      | Some current \<Rightarrow>
          if pn_Revision current \<noteq> expectedRevision then (Some ErrVersionConflict, s)
          else (None, s\<lparr>s_peerNotifications := AList.update (pn_ID notification)
                  (notification\<lparr>pn_Revision := inc64 expectedRevision, pn_LeaseUntil := None\<rparr>)
                  (s_peerNotifications s)\<rparr>))"

definition RecordReceivedPeerNotification ::
  "ReceivedPeerNotification \<Rightarrow> Store \<Rightarrow> go_error option \<times> Store" where
  "RecordReceivedPeerNotification notification s =
     (None, s\<lparr>s_receivedPeerNotifications :=
        AList.update (rpn_ID notification) notification (s_receivedPeerNotifications s)\<rparr>)"

definition ListReceivedPeerNotifications ::
  "string \<Rightarrow> Store \<Rightarrow> ReceivedPeerNotification list result" where
  "ListReceivedPeerNotifications intentID s =
     Inr (sort_slice (\<lambda>a b. rpn_ReceivedAt a < rpn_ReceivedAt b)
       (filter (\<lambda>n. intentID = [] \<or> rpn_IntentID n = intentID) (vals (s_receivedPeerNotifications s))))"

subsection \<open>Runs of the coordination operations\<close>

text \<open>
  The operations of the store on publications as values, so that a run of them, by any number of
  workers and request handlers in any interleaving, is a list.
\<close>

datatype pub_op =
    OpRequest OperationalIntentPublication
  | OpRequestIfCurrent OperationalIntentPublication int int IntentStatus
  | OpAccept OperationalIntent int OperationalIntentPublication
  | OpUpdateIntent OperationalIntent int OperationalIntentPublication
  | OpClaim string time time
  | OpClaimDue time time int
  | OpRenew string int time
  | OpUpdate OperationalIntentPublication int
  | OpConfirm OperationalIntentPublication int "PeerNotification list"

fun run_pub_op :: "pub_op \<Rightarrow> Store \<Rightarrow> Store" where
  "run_pub_op (OpRequest p) s = snd (RequestOperationalIntentPublication p s)"
| "run_pub_op (OpRequestIfCurrent p v r st) s = snd (RequestOperationalIntentPublicationIfCurrent p v r st s)"
| "run_pub_op (OpAccept i r p) s = snd (AcceptOperationalIntentAndRequestPublication i r p s)"
| "run_pub_op (OpUpdateIntent i r p) s = snd (UpdateOperationalIntentAndRequestPublication i r p s)"
| "run_pub_op (OpClaim i now u) s = snd (ClaimOperationalIntentPublication i now u s)"
| "run_pub_op (OpClaimDue now u n) s = snd (ClaimDueOperationalIntentPublications now u n s)"
| "run_pub_op (OpRenew i r u) s = snd (RenewOperationalIntentPublicationLease i r u s)"
| "run_pub_op (OpUpdate p r) s = snd (UpdateOperationalIntentPublication p r s)"
| "run_pub_op (OpConfirm p r ns) s = snd (ConfirmOperationalIntentPublication p r ns s)"

definition run_pub_ops :: "pub_op list \<Rightarrow> Store \<Rightarrow> Store" where
  "run_pub_ops ops s = fold run_pub_op ops s"

text \<open>
  What others may do while a worker holds the lease of an intent until \<open>u\<close>: request anything,
  claim before \<open>u\<close>, and report outcomes of other intents.
\<close>

fun bystander :: "string \<Rightarrow> time \<Rightarrow> pub_op \<Rightarrow> bool" where
  "bystander iid u (OpClaim i now v) \<longleftrightarrow> now < u"
| "bystander iid u (OpClaimDue now v n) \<longleftrightarrow> now < u"
| "bystander iid u (OpRenew i r v) \<longleftrightarrow> i \<noteq> iid"
| "bystander iid u (OpUpdate p r) \<longleftrightarrow> pub_IntentID p \<noteq> iid"
| "bystander iid u (OpConfirm p r ns) \<longleftrightarrow> pub_IntentID p \<noteq> iid"
| "bystander iid u op \<longleftrightarrow> True"

definition pubs_ok :: "Store \<Rightarrow> bool" where
  "pubs_ok s \<longleftrightarrow> keyed pub_IntentID (s_publications s)"

text \<open>The entry of an intent across one operation: still there, and either the same but for its
  lease or one revision further.\<close>

definition pub_follows :: "OperationalIntentPublication \<Rightarrow> OperationalIntentPublication option \<Rightarrow> bool" where
  "pub_follows p r \<longleftrightarrow> (\<exists>p'. r = Some p' \<and>
     (p'\<lparr>pub_LeaseUntil := pub_LeaseUntil p\<rparr> = p \<or> pub_Revision p' = inc64 (pub_Revision p)))"

definition sample_publication :: OperationalIntentPublication where
  "sample_publication = zero_OperationalIntentPublication\<lparr>pub_IntentID := ''op-1'',
     pub_DesiredIntentVersion := 1, pub_SyncStatus := PublicationSyncPending, pub_NextAttemptAt := 5\<rparr>"

definition sample_pub_store :: Store where
  "sample_pub_store = requestPublicationLocked sample_publication sample_store"

section \<open>Lemmas\<close>

interpretation received: upsert_table "\<lambda>s. map_of (s_receivedPeerNotifications s)"
  RecordReceivedPeerNotification rpn_ID
  by unfold_locales (simp_all add: RecordReceivedPeerNotification_def)

lemma leased_simps [simp]: "\<not> leased None now" "leased (Some u) now \<longleftrightarrow> u > now"
  by (simp_all add: leased_def)

subsection \<open>The contracts\<close>

interpretation pub_update: cas_table "\<lambda>s. map_of (s_publications s)" pub_IntentID pub_Revision
  "\<lambda>_ _. True" "\<lambda>r p. p\<lparr>pub_Revision := inc64 r, pub_LeaseUntil := None\<rparr>"
  UpdateOperationalIntentPublication
  by unfold_locales (auto simp: UpdateOperationalIntentPublication_def)

interpretation pub_confirm: cas_table "\<lambda>s. map_of (s_publications s)" pub_IntentID pub_Revision
  "\<lambda>_ _. True" "\<lambda>r p. p\<lparr>pub_Revision := inc64 r, pub_LeaseUntil := None\<rparr>"
  "\<lambda>p r. ConfirmOperationalIntentPublication p r ns" for ns
  by unfold_locales
    (auto simp: ConfirmOperationalIntentPublication_def enqueuePeerNotificationsLocked_def)

interpretation notification_update: cas_table "\<lambda>s. map_of (s_peerNotifications s)" pn_ID pn_Revision
  "\<lambda>_ _. True" "\<lambda>r n. n\<lparr>pn_Revision := inc64 r, pn_LeaseUntil := None\<rparr>" UpdatePeerNotification
  by unfold_locales (auto simp: UpdatePeerNotification_def)

interpretation pub_claim: lease_table "\<lambda>s. map_of (s_publications s)" pub_LeaseUntil
  ClaimOperationalIntentPublication
proof
  fix s :: Store and k v now until
  assume "map_of (s_publications s) k = Some v" and "\<And>u. pub_LeaseUntil v = Some u \<Longrightarrow> \<not> now < u"
  moreover from this(2) have "\<not> leased (pub_LeaseUntil v) now" by (cases "pub_LeaseUntil v") auto
  ultimately show "\<exists>v'. fst (ClaimOperationalIntentPublication k now until s) = Inr v'
      \<and> pub_LeaseUntil v' = Some until
      \<and> map_of (s_publications (snd (ClaimOperationalIntentPublication k now until s)))
        = (map_of (s_publications s))(k \<mapsto> v')"
    by (simp add: ClaimOperationalIntentPublication_def claimed_publication_def del: map_of_eq_Some_iff)
qed (simp_all add: ClaimOperationalIntentPublication_def)

lemma request_frame [simp]:
  "s_operationalIntents (requestPublicationLocked p s) = s_operationalIntents s"
  "s_operationalVolumes (requestPublicationLocked p s) = s_operationalVolumes s"
  "s_peerNotifications (requestPublicationLocked p s) = s_peerNotifications s"
  "latestOperationalIntent (requestPublicationLocked p s) iid = latestOperationalIntent s iid"
  by (simp_all add: requestPublicationLocked_def latestOperationalIntent_def Let_def)

lemma request_intents_ok [simp]: "intents_ok (requestPublicationLocked p s) \<longleftrightarrow> intents_ok s"
  by (simp add: intents_ok_def)

text \<open>A fenced write followed, where it succeeds, by a write that leaves the intents alone.\<close>

lemma fenced_then:
  assumes w: "fenced_intent_write w b"
    and g: "\<And>s. s_operationalIntents (g s) = s_operationalIntents s"
  shows "fenced_intent_write
    (\<lambda>i r s. case w i r s of (Some e, s') \<Rightarrow> (Some e, s') | (None, s') \<Rightarrow> (None, g s')) b"
    (is "fenced_intent_write ?w b")
proof
  have same: "latestOperationalIntent (g s) iid = latestOperationalIntent s iid" for s iid
    by (simp add: latestOperationalIntent_def g)
  have ok: "intents_ok (g s) = intents_ok s" for s by (simp add: intents_ok_def g)
  fix s :: Store and i c and r :: int and iid
  show "?w i r s = (Some ErrNotFound, s)" if "latestOperationalIntent s (oi_ID i) = None"
    by (simp add: fenced_intent_write.op_missing [OF w that])
  assume c: "latestOperationalIntent s (oi_ID i) = Some c"
  show "?w i r s = (Some ErrVersionConflict, s)" if "oi_Version c \<noteq> oi_Version i \<or> oi_Revision c \<noteq> r"
    by (simp add: fenced_intent_write.op_stale [OF w c that])
  show "fst (?w i r s) \<noteq> None \<and> snd (?w i r s) = s" if "b i s"
    using fenced_intent_write.op_blocked [OF w c that, of r] by (auto split: prod.splits option.splits)
  assume "intents_ok s" "oi_Version c = oi_Version i" "oi_Revision c = r" "\<not> b i s"
  from fenced_intent_write.op_granted [OF w this(1) c this(2-4)]
  show "fst (?w i r s) = None \<and> intents_ok (snd (?w i r s)) \<and> latestOperationalIntent (snd (?w i r s)) iid =
      (if iid = oi_ID i then Some (i\<lparr>oi_Revision := inc64 r\<rparr>) else latestOperationalIntent s iid)"
    by (auto simp: same ok split: prod.splits option.splits)
qed

interpretation accept_publish: fenced_intent_write
  "\<lambda>i r. AcceptOperationalIntentAndRequestPublication i r p" fence_blocked for p
  unfolding AcceptOperationalIntentAndRequestPublication_def
  by (rule fenced_then) (simp_all add: accept_write.fenced_intent_write_axioms)

interpretation update_publish: fenced_intent_write
  "\<lambda>i r. UpdateOperationalIntentAndRequestPublication i r p" fence_blocked for p
  unfolding UpdateOperationalIntentAndRequestPublication_def
  by (rule fenced_then) (simp_all add: update_write.fenced_intent_write_axioms)

subsection \<open>Batches of claims\<close>

lemma claimed_publication_simps [simp]:
  "pub_IntentID (claimed_publication now u p) = pub_IntentID p"
  "pub_Revision (claimed_publication now u p) = inc64 (pub_Revision p)"
  "pub_LeaseUntil (claimed_publication now u p) = Some u"
  by (simp_all add: claimed_publication_def)

lemma claim_publications_spec:
  assumes "claim_publications ids now u s = (cl, s')" and "distinct ids"
    and "set ids \<subseteq> dom (map_of (s_publications s))"
  shows "map Some cl = map (\<lambda>i. map_option (claimed_publication now u) (map_of (s_publications s) i)) ids
    \<and> (\<forall>k. map_of (s_publications s') k =
      (if k \<in> set ids then map_option (claimed_publication now u) (map_of (s_publications s) k)
       else map_of (s_publications s) k))
    \<and> s_operationalIntents s' = s_operationalIntents s"
  using assms
proof (induction ids arbitrary: s cl s')
  case (Cons i ids)
  obtain p where p: "map_of (s_publications s) i = Some p" using Cons.prems(3) by auto
  let ?p = "claimed_publication now u p"
  let ?s = "s\<lparr>s_publications := AList.update i ?p (s_publications s)\<rparr>"
  obtain cl' where run: "claim_publications ids now u ?s = (cl', s')" and cl: "cl = ?p # cl'"
    using Cons.prems(1) p by (auto simp: Let_def simp del: map_of_eq_Some_iff split: prod.splits)
  have dom: "set ids \<subseteq> dom (map_of (s_publications ?s))" and dist: "distinct ids" "i \<notin> set ids"
    using Cons.prems by auto
  from Cons.IH [OF run dist(1) dom] show ?case using p dist(2) cl by auto
qed auto

lemma pubs_ok_publications [simp]:
  "pubs_ok s \<Longrightarrow> pub_IntentID p = k \<Longrightarrow> pubs_ok (s\<lparr>s_publications := AList.update k p (s_publications s)\<rparr>)"
  by (simp add: pubs_ok_def)

lemma claim_publications_ok:
  "pubs_ok s \<Longrightarrow> set ids \<subseteq> dom (map_of (s_publications s)) \<Longrightarrow> pubs_ok (snd (claim_publications ids now u s))"
proof (induction ids arbitrary: s)
  case (Cons i ids)
  then obtain p where p: "map_of (s_publications s) i = Some p" by auto
  then have "pub_IntentID p = i" using keyedD [OF _ p, of pub_IntentID] Cons.prems(1) by (simp add: pubs_ok_def)
  with Cons p show ?case
    by (auto simp: Let_def split_beta simp del: map_of_eq_Some_iff intro!: Cons.IH)
qed simp

lemma due_publications_set:
  "pubs_ok s \<Longrightarrow> i \<in> set (due_publications now s) \<longleftrightarrow>
     (\<exists>p. map_of (s_publications s) i = Some p \<and> publication_due now p)"
  by (auto simp: due_publications_def pubs_ok_def image_iff)

lemma due_publications_distinct: "pubs_ok s \<Longrightarrow> distinct (due_publications now s)"
  by (auto simp: due_publications_def pubs_ok_def intro: distinct_map_filter)

lemma due_taken:
  assumes "pubs_ok s"
  shows "distinct (take n (due_publications now s))"
    and "set (take n (due_publications now s)) \<subseteq> dom (map_of (s_publications s))"
  using assms due_publications_distinct due_publications_set [OF assms] set_take_subset
  by (auto simp: distinct_take simp del: map_of_eq_Some_iff dest!: in_set_takeD)

subsection \<open>One step of a run\<close>

lemma requested_publication_simps [simp]:
  "pub_IntentID (requested_publication q c) = pub_IntentID q"
  "pub_Revision (requested_publication q (Some p)) = inc64 (pub_Revision p)"
  "pub_LeaseUntil (requested_publication q (Some p)) = pub_LeaseUntil p"
  by (simp_all add: requested_publication_def Let_def split: option.splits)

lemma map_of_request:
  "map_of (s_publications (requestPublicationLocked q s)) =
     (map_of (s_publications s))(pub_IntentID q \<mapsto>
        requested_publication q (map_of (s_publications s) (pub_IntentID q)))"
  by (simp add: requestPublicationLocked_def)

lemma pub_follows_refl [simp]: "pub_follows p (Some p)"
  by (simp add: pub_follows_def)

lemma request_follows:
  assumes "map_of (s_publications s) iid = Some p"
  shows "pub_follows p (map_of (s_publications (requestPublicationLocked q s)) iid)"
  using assms by (auto simp: pub_follows_def map_of_request simp del: map_of_eq_Some_iff)

lemma request_pubs_ok [simp]: "pubs_ok s \<Longrightarrow> pubs_ok (requestPublicationLocked q s)"
  by (simp add: pubs_ok_def requestPublicationLocked_def)

lemma locked_writes_publications:
  "s_publications (snd (acceptOperationalIntentLocked i r s)) = s_publications s"
  "s_publications (snd (updateOperationalIntentLocked i r s)) = s_publications s"
  by (simp_all add: acceptOperationalIntentLocked_def updateOperationalIntentLocked_def Let_def
      split: option.splits)

lemma outcome_follows:
  assumes "map_of (s_publications s) iid = Some p"
  shows "pub_follows p (map_of (s_publications (snd (UpdateOperationalIntentPublication q r s))) iid)"
    and "pub_follows p (map_of (s_publications (snd (ConfirmOperationalIntentPublication q r ns s))) iid)"
    and "pub_follows p (map_of (s_publications (snd (RenewOperationalIntentPublicationLease i r u s))) iid)"
    and "pub_follows p (map_of (s_publications (snd (ClaimOperationalIntentPublication i now u s))) iid)"
  using assms
  by (auto simp: UpdateOperationalIntentPublication_def ConfirmOperationalIntentPublication_def
      RenewOperationalIntentPublicationLease_def ClaimOperationalIntentPublication_def
      enqueuePeerNotificationsLocked_def pub_follows_def simp del: map_of_eq_Some_iff split: option.splits)

lemma claim_due_run:
  assumes "pubs_ok s" and "ClaimDueOperationalIntentPublications now u n s = (r, s')"
  shows "pubs_ok s'"
    and "map_of (s_publications s') k =
      (if k \<in> set (take (nat n) (due_publications now s))
       then map_option (claimed_publication now u) (map_of (s_publications s) k)
       else map_of (s_publications s) k)"
    and "\<exists>cl. r = Inr cl \<and> map Some cl =
      map (\<lambda>i. map_option (claimed_publication now u) (map_of (s_publications s) i))
        (take (nat n) (due_publications now s))"
proof -
  note taken = due_taken [OF assms(1), of "nat n" now]
  obtain cl s1 where run: "claim_publications (take (nat n) (due_publications now s)) now u s = (cl, s1)"
    by (cases "claim_publications (take (nat n) (due_publications now s)) now u s")
  then have r: "r = Inr cl" and s': "s' = s1"
    using assms(2) by (auto simp: ClaimDueOperationalIntentPublications_def Let_def split: if_splits)
  show "pubs_ok s'"
    using claim_publications_ok [OF assms(1) taken(2), of now u] run s' by simp
  note spec = claim_publications_spec [OF run taken]
  show "map_of (s_publications s') k =
      (if k \<in> set (take (nat n) (due_publications now s))
       then map_option (claimed_publication now u) (map_of (s_publications s) k)
       else map_of (s_publications s) k)"
    using spec s' by blast
  show "\<exists>cl. r = Inr cl \<and> map Some cl =
      map (\<lambda>i. map_option (claimed_publication now u) (map_of (s_publications s) i))
        (take (nat n) (due_publications now s))"
    using spec r by blast
qed

lemma claim_due_follows:
  assumes "pubs_ok s" and "map_of (s_publications s) iid = Some p"
  shows "pub_follows p (map_of (s_publications (snd (ClaimDueOperationalIntentPublications now u n s))) iid)"
proof -
  obtain r s' where run: "ClaimDueOperationalIntentPublications now u n s = (r, s')" by force
  show ?thesis using claim_due_run(2) [OF assms(1) run, of iid] assms(2)
    by (simp add: run pub_follows_def del: map_of_eq_Some_iff)
qed

lemma publishing_write_publications:
  "s_publications (snd (AcceptOperationalIntentAndRequestPublication i r q s)) =
     (if fst (acceptOperationalIntentLocked i r s) = None
      then s_publications (requestPublicationLocked q s) else s_publications s)"
  "s_publications (snd (UpdateOperationalIntentAndRequestPublication i r q s)) =
     (if fst (updateOperationalIntentLocked i r s) = None
      then s_publications (requestPublicationLocked q s) else s_publications s)"
  using locked_writes_publications [of i r s]
  by (auto simp: AcceptOperationalIntentAndRequestPublication_def
      UpdateOperationalIntentAndRequestPublication_def requestPublicationLocked_def
      split: prod.splits option.splits)

lemma run_pub_op_follows:
  assumes "pubs_ok s" and "map_of (s_publications s) iid = Some p"
  shows "pub_follows p (map_of (s_publications (run_pub_op op s)) iid)"
  using assms request_follows [OF assms(2)] outcome_follows [OF assms(2)] claim_due_follows [OF assms]
  by (cases op)
    (auto simp: publishing_write_publications RequestOperationalIntentPublication_def
      RequestOperationalIntentPublicationIfCurrent_def simp del: map_of_eq_Some_iff split: option.splits)

lemma run_pub_op_ok:
  assumes "pubs_ok s"
  shows "pubs_ok (run_pub_op op s)"
proof (cases op)
  case (OpClaimDue now u n)
  then show ?thesis using claim_due_run(1) [OF assms, of now u n] by (simp add: prod_eq_iff)
next
  case (OpClaim i now u)
  then show ?thesis
    using assms keyedD [of pub_IntentID "s_publications s"]
    by (auto simp: ClaimOperationalIntentPublication_def pubs_ok_def simp del: map_of_eq_Some_iff
        split: option.splits)
next
  case (OpRenew i r u)
  then show ?thesis
    using assms keyedD [of pub_IntentID "s_publications s"]
    by (auto simp: RenewOperationalIntentPublicationLease_def pubs_ok_def simp del: map_of_eq_Some_iff
        split: option.splits)
qed (use assms request_pubs_ok [OF assms] in
  \<open>auto simp: pubs_ok_def publishing_write_publications RequestOperationalIntentPublication_def
      RequestOperationalIntentPublicationIfCurrent_def UpdateOperationalIntentPublication_def
      ConfirmOperationalIntentPublication_def enqueuePeerNotificationsLocked_def split: option.splits\<close>)

lemma lease_only: "p\<lparr>pub_LeaseUntil := l\<rparr> = q \<Longrightarrow> pub_Revision p = pub_Revision q"
  by auto

lemma lease_only_trans:
  "p\<lparr>pub_LeaseUntil := l\<rparr> = q \<Longrightarrow> q\<lparr>pub_LeaseUntil := m\<rparr> = r \<Longrightarrow> p\<lparr>pub_LeaseUntil := m\<rparr> = r"
  by auto

text \<open>Along a run the entry is what it was, but for its lease, or a later revision.\<close>

lemma run_pub_ops_fence:
  assumes "pubs_ok s" and "map_of (s_publications s) iid = Some p"
    and "int64_range (pub_Revision p)" and "pub_Revision p + int (length ops) \<le> max_int64"
  shows "\<exists>p'. map_of (s_publications (run_pub_ops ops s)) iid = Some p' \<and>
    (p'\<lparr>pub_LeaseUntil := pub_LeaseUntil p\<rparr> = p \<or> pub_Revision p < pub_Revision p')"
  using assms
proof (induction ops arbitrary: s p)
  case (Cons op ops)
  from run_pub_op_follows [OF Cons.prems(1,2), of op] obtain q
    where q: "map_of (s_publications (run_pub_op op s)) iid = Some q"
      and qp: "q\<lparr>pub_LeaseUntil := pub_LeaseUntil p\<rparr> = p \<or> pub_Revision q = inc64 (pub_Revision p)"
    by (auto simp: pub_follows_def)
  from qp have rev: "pub_Revision q = pub_Revision p \<or> pub_Revision q = pub_Revision p + 1"
    using Cons.prems(3,4) by (auto dest: arg_cong [where f = pub_Revision])
  with Cons.prems have range: "int64_range (pub_Revision q)" "pub_Revision q + int (length ops) \<le> max_int64"
    by (auto simp: int64_range_def)
  from Cons.IH [OF run_pub_op_ok [OF Cons.prems(1)] q range] obtain p'
    where p': "map_of (s_publications (run_pub_ops (op # ops) s)) iid = Some p'"
      and pq: "p'\<lparr>pub_LeaseUntil := pub_LeaseUntil q\<rparr> = q \<or> pub_Revision q < pub_Revision p'"
    by (auto simp: run_pub_ops_def)
  have inc: "inc64 (pub_Revision p) = pub_Revision p + 1" using Cons.prems(3,4) by simp
  from pq have "p'\<lparr>pub_LeaseUntil := pub_LeaseUntil p\<rparr> = p \<or> pub_Revision p < pub_Revision p'"
  proof
    assume eq: "p'\<lparr>pub_LeaseUntil := pub_LeaseUntil q\<rparr> = q"
    from qp show ?thesis
    proof
      assume "q\<lparr>pub_LeaseUntil := pub_LeaseUntil p\<rparr> = p"
      from lease_only_trans [OF eq this] show ?thesis ..
    qed (simp add: lease_only [OF eq] inc)
  qed (use rev in auto)
  with p' show ?case by blast
qed (simp add: run_pub_ops_def)

lemma bystander_keeps_lease:
  assumes "pubs_ok s" and "map_of (s_publications s) iid = Some p" and "pub_LeaseUntil p = Some u"
    and "bystander iid u op"
  shows "\<exists>p'. map_of (s_publications (run_pub_op op s)) iid = Some p' \<and> pub_LeaseUntil p' = Some u"
proof (cases op)
  case (OpClaimDue now v n)
  obtain r s' where run: "ClaimDueOperationalIntentPublications now v n s = (r, s')" by force
  have "iid \<notin> set (due_publications now s)"
    using assms OpClaimDue by (simp add: due_publications_set publication_due_def del: map_of_eq_Some_iff)
  then have "iid \<notin> set (take (nat n) (due_publications now s))" by (meson in_set_takeD)
  with claim_due_run(2) [OF assms(1) run, of iid] show ?thesis
    using assms(2,3) OpClaimDue by (simp add: run del: map_of_eq_Some_iff)
qed (use assms in \<open>auto simp: map_of_request publishing_write_publications
      RequestOperationalIntentPublication_def RequestOperationalIntentPublicationIfCurrent_def
      ClaimOperationalIntentPublication_def RenewOperationalIntentPublicationLease_def
      UpdateOperationalIntentPublication_def ConfirmOperationalIntentPublication_def
      enqueuePeerNotificationsLocked_def simp del: map_of_eq_Some_iff split: option.splits\<close>)

lemma bystanders_keep_lease:
  assumes "pubs_ok s" and "map_of (s_publications s) iid = Some p" and "pub_LeaseUntil p = Some u"
    and "list_all (bystander iid u) ops"
  shows "pubs_ok (run_pub_ops ops s) \<and>
    (\<exists>p'. map_of (s_publications (run_pub_ops ops s)) iid = Some p' \<and> pub_LeaseUntil p' = Some u)"
  using assms
proof (induction ops arbitrary: s p)
  case (Cons op ops)
  from bystander_keeps_lease [OF Cons.prems(1-3), of op] Cons.prems(4) obtain q
    where "map_of (s_publications (run_pub_op op s)) iid = Some q" "pub_LeaseUntil q = Some u" by auto
  from Cons.IH [OF run_pub_op_ok [OF Cons.prems(1)] this] Cons.prems(4) show ?case
    by (simp add: run_pub_ops_def)
qed (auto simp: run_pub_ops_def)

lemma in_batch:
  assumes "map Some cl = map (\<lambda>i. map_option f (m i)) ids" and "q \<in> set cl"
  shows "\<exists>i c. i \<in> set ids \<and> m i = Some c \<and> q = f c"
proof -
  have "Some q \<in> set (map Some cl)" using assms(2) by simp
  then obtain i where "i \<in> set ids" "map_option f (m i) = Some q" unfolding assms(1) by (auto dest: sym)
  then show ?thesis by auto
qed

lemma due_publications_sorted:
  assumes "pubs_ok s"
  shows "due_publications now s = sorted_list_of_set
    {i. \<exists>p. map_of (s_publications s) i = Some p \<and> publication_due now p}"
proof -
  have "set (due_publications now s) = {i. \<exists>p. map_of (s_publications s) i = Some p \<and> publication_due now p}"
    using due_publications_set [OF assms] by blast
  moreover have "sorted (due_publications now s)" by (simp add: due_publications_def)
  ultimately show ?thesis
    using sorted_list_of_set.idem_if_sorted_distinct due_publications_distinct [OF assms] by metis
qed

lemma enqueue_fold:
  "map_of (fold enqueue_notification ns m) k =
     (case map_of m k of
        Some n \<Rightarrow> Some n
      | None \<Rightarrow> map_option (\<lambda>n. n\<lparr>pn_Revision := 0\<rparr>) (find (\<lambda>n. pn_ID n = k) ns))"
  by (induction ns arbitrary: m) (auto simp: enqueue_notification_def simp del: map_of_eq_Some_iff split: option.splits)

section \<open>Properties\<close>

text \<open>
  C11: an expired worker is fenced off. A worker holds the publication \<open>p\<close> it claimed; others then
  run any sequence of requests, claims, renewals and outcomes. Either the stored publication is
  still the claimed one (but for its lease), or every outcome the worker reports with the
  revision of its claim is refused with \<open>ErrVersionConflict\<close> and changes nothing. The
  revisions stay below the limit of \<open>int64\<close> in the run.
\<close>

theorem stale_publication_worker_fenced:
  assumes "pubs_ok s" and "map_of (s_publications s) iid = Some p"
    and "int64_range (pub_Revision p)" and "pub_Revision p + int (length ops) \<le> max_int64"
    and "pub_IntentID q = iid"
  shows "(\<exists>l. GetOperationalIntentPublication iid (run_pub_ops ops s) = Inr (p\<lparr>pub_LeaseUntil := l\<rparr>))
    \<or> (\<forall>ns u. let s' = run_pub_ops ops s; refused = (Some ErrVersionConflict, s') in
         UpdateOperationalIntentPublication q (pub_Revision p) s' = refused
         \<and> ConfirmOperationalIntentPublication q (pub_Revision p) ns s' = refused
         \<and> RenewOperationalIntentPublicationLease iid (pub_Revision p) u s' = refused)"
proof -
  obtain p' where p': "map_of (s_publications (run_pub_ops ops s)) iid = Some p'"
    and "p'\<lparr>pub_LeaseUntil := pub_LeaseUntil p\<rparr> = p \<or> pub_Revision p < pub_Revision p'"
    using run_pub_ops_fence [OF assms(1-4)] by blast
  from this(2) show ?thesis
  proof
    assume "p'\<lparr>pub_LeaseUntil := pub_LeaseUntil p\<rparr> = p"
    then have "p\<lparr>pub_LeaseUntil := pub_LeaseUntil p'\<rparr> = p'" by (cases p, cases p') simp
    with p' have "GetOperationalIntentPublication iid (run_pub_ops ops s) =
        Inr (p\<lparr>pub_LeaseUntil := pub_LeaseUntil p'\<rparr>)"
      by (simp add: GetOperationalIntentPublication_def del: map_of_eq_Some_iff)
    then show ?thesis by blast
  next
    assume "pub_Revision p < pub_Revision p'"
    with p' assms(5) show ?thesis
      by (simp add: UpdateOperationalIntentPublication_def ConfirmOperationalIntentPublication_def
          RenewOperationalIntentPublicationLease_def Let_def del: map_of_eq_Some_iff)
  qed
qed

lemma sample_pub_ok [simp]: "pubs_ok sample_pub_store"
  by (simp add: pubs_ok_def sample_pub_store_def sample_store_def NewStore_def requestPublicationLocked_def
      store_intent_def keyed_def)

theorem stale_publication_worker_fenced_witness:
  "UpdateOperationalIntentPublication (sample_publication\<lparr>pub_Revision := 1\<rparr>) 1
     (run_pub_ops [OpClaim ''op-1'' 30 40] (snd (ClaimOperationalIntentPublication ''op-1'' 10 20 sample_pub_store)))
   = (Some ErrVersionConflict,
      run_pub_ops [OpClaim ''op-1'' 30 40] (snd (ClaimOperationalIntentPublication ''op-1'' 10 20 sample_pub_store)))"
proof -
  let ?s = "run_pub_op (OpClaim ''op-1'' 10 20) sample_pub_store"
  let ?s' = "run_pub_ops [OpClaim ''op-1'' 30 40] ?s"
  obtain p where p: "map_of (s_publications ?s) ''op-1'' = Some p" and rev: "pub_Revision p = 1"
  proof -
    have "map_option pub_Revision (map_of (s_publications ?s) ''op-1'') = Some 1" by code_simp
    then show ?thesis using that by (auto simp del: map_of_eq_Some_iff)
  qed
  have "map_option pub_Revision (map_of (s_publications ?s') ''op-1'') = Some 2" by code_simp
  then have moved: "GetOperationalIntentPublication ''op-1'' ?s' \<noteq> Inr (p\<lparr>pub_LeaseUntil := l\<rparr>)" for l
    using rev by (auto simp: GetOperationalIntentPublication_def simp del: map_of_eq_Some_iff)
  have "int64_range (pub_Revision p)" "pub_Revision p + int (length [OpClaim ''op-1'' 30 40]) \<le> max_int64"
    by (simp_all add: rev int64_range_def)
  from stale_publication_worker_fenced [OF run_pub_op_ok [OF sample_pub_ok] p this,
      of "sample_publication\<lparr>pub_Revision := 1\<rparr>"] moved rev
  show ?thesis by (simp add: Let_def sample_publication_def)
qed

text \<open>
  A lease is exclusive. After a successful \<open>ClaimOperationalIntentPublication\<close> until \<open>u\<close>, whatever
  requests are made, whatever claims are tried before \<open>u\<close> and whatever is reported for other
  intents, every further claim of the intent before \<open>u\<close> fails, one by one or in a batch.
\<close>

theorem publication_lease_exclusive:
  assumes "pubs_ok s" and "fst (ClaimOperationalIntentPublication iid now u s) = Inr p"
    and "list_all (bystander iid u) ops" and "now2 < u"
  shows "let s' = run_pub_ops ops (snd (ClaimOperationalIntentPublication iid now u s)) in
     ClaimOperationalIntentPublication iid now2 u2 s' = (Inl ErrVersionConflict, s')
     \<and> (\<exists>cl. fst (ClaimDueOperationalIntentPublications now2 u2 n s') = Inr cl
            \<and> iid \<notin> pub_IntentID ` set cl)"
proof -
  let ?s1 = "snd (ClaimOperationalIntentPublication iid now u s)"
  let ?s' = "run_pub_ops ops ?s1"
  have ok1: "pubs_ok ?s1" using run_pub_op_ok [OF assms(1), of "OpClaim iid now u"] by simp
  have "map_of (s_publications ?s1) iid = Some p" "pub_LeaseUntil p = Some u"
    using pub_claim.claim_granted [OF assms(2)] by simp_all
  from bystanders_keep_lease [OF ok1 this assms(3)] obtain p'
    where ok: "pubs_ok ?s'" and p': "map_of (s_publications ?s') iid = Some p'" "pub_LeaseUntil p' = Some u"
    by blast
  obtain r s2 where run: "ClaimDueOperationalIntentPublications now2 u2 n ?s' = (r, s2)" by force
  obtain cl where r: "r = Inr cl" and cl: "map Some cl =
      map (\<lambda>i. map_option (claimed_publication now2 u2) (map_of (s_publications ?s') i))
        (take (nat n) (due_publications now2 ?s'))"
    using claim_due_run(3) [OF ok run] by blast
  have notdue: "iid \<notin> set (due_publications now2 ?s')"
    using p' assms(4) by (simp add: due_publications_set [OF ok] publication_due_def del: map_of_eq_Some_iff)
  have "iid \<notin> pub_IntentID ` set cl"
  proof
    assume "iid \<in> pub_IntentID ` set cl"
    then obtain q where "q \<in> set cl" and q: "pub_IntentID q = iid" by auto
    then obtain i c where i: "i \<in> set (due_publications now2 ?s')" "map_of (s_publications ?s') i = Some c"
        "q = claimed_publication now2 u2 c"
      using in_batch [OF cl] in_set_takeD by metis
    with q keyedD [of pub_IntentID "s_publications ?s'" i c] ok have "i = iid" by (simp add: pubs_ok_def)
    with i(1) notdue show False by simp
  qed
  with pub_claim.claim_leased [OF p' assms(4)] show ?thesis by (simp add: Let_def run r)
qed

theorem publication_lease_exclusive_witness:
  "fst (ClaimOperationalIntentPublication ''op-1'' 15 99
     (run_pub_ops [OpRequest sample_publication, OpClaimDue 12 99 5]
       (snd (ClaimOperationalIntentPublication ''op-1'' 10 20 sample_pub_store)))) = Inl ErrVersionConflict"
proof -
  have "(case fst (ClaimOperationalIntentPublication ''op-1'' 10 20 sample_pub_store) of Inl _ \<Rightarrow> False | Inr _ \<Rightarrow> True)"
    by code_simp
  then obtain p where "fst (ClaimOperationalIntentPublication ''op-1'' 10 20 sample_pub_store) = Inr p"
    by (auto split: sum.splits)
  from publication_lease_exclusive [OF sample_pub_ok this,
      of "[OpRequest sample_publication, OpClaimDue 12 99 5]" 15 99] show ?thesis
    by (simp add: Let_def)
qed

text \<open>
  A batch of claims is exact. \<open>ClaimDueOperationalIntentPublications\<close> takes the publications
  that are due, in the order of the intent identities and no more than the limit; each is
  returned as it is then stored: leased, processing, counted as one more attempt and one
  revision further. No other publication changes.
\<close>

theorem claim_due_publications_exact:
  assumes ok: "pubs_ok s"
    and ids: "ids = take (nat n) (sorted_list_of_set
        {i. \<exists>p. map_of (s_publications s) i = Some p \<and> publication_due now p})"
  shows "\<exists>cl s'. ClaimDueOperationalIntentPublications now u n s = (Inr cl, s')
    \<and> map Some cl = map (map_of (s_publications s')) ids
    \<and> (\<forall>i. map_of (s_publications s') i =
         (if i \<in> set ids then map_option (\<lambda>p. p\<lparr>pub_Revision := inc64 (pub_Revision p),
              pub_SyncStatus := PublicationSyncProcessing, pub_LeaseUntil := Some u,
              pub_LastAttemptAt := Some now, pub_AttemptCount := inc64 (pub_AttemptCount p),
              pub_UpdatedAt := now\<rparr>) (map_of (s_publications s) i)
          else map_of (s_publications s) i))"
proof -
  obtain r s' where run: "ClaimDueOperationalIntentPublications now u n s = (r, s')" by force
  have due: "take (nat n) (due_publications now s) = ids" by (simp add: ids due_publications_sorted [OF ok])
  note spec = claim_due_run [OF ok run, unfolded due]
  from spec(3) obtain cl where "r = Inr cl" and "map Some cl =
      map (\<lambda>i. map_option (claimed_publication now u) (map_of (s_publications s) i)) ids" by blast
  with spec(2) show ?thesis
    by (simp add: run claimed_publication_def [abs_def] del: map_of_eq_Some_iff)
qed

theorem claim_due_publications_exact_witness:
  "\<exists>cl s'. ClaimDueOperationalIntentPublications 10 20 5 sample_pub_store = (Inr cl, s')
     \<and> map Some cl = [map_of (s_publications s') ''op-1'']"
proof -
  have "due_publications 10 sample_pub_store = [''op-1'']" by code_simp
  then have "[''op-1''] = take (nat 5) (sorted_list_of_set
      {i. \<exists>p. map_of (s_publications sample_pub_store) i = Some p \<and> publication_due 10 p})"
    by (simp add: due_publications_sorted [OF sample_pub_ok] del: map_of_eq_Some_iff)
  from claim_due_publications_exact [OF sample_pub_ok this, of 20] show ?thesis by fastforce
qed

text \<open>
  A request keeps what is known of the remote reference. A successful
  \<open>RequestOperationalIntentPublication\<close> stores the wished version and state, one revision further and
  pending from scratch, and keeps the lease, the subscription and the confirmed reference of the
  stored publication; only when that one has been withdrawn and the wish is to publish again
  is the reference (version, OVN, document, confirmation) forgotten.
\<close>

theorem request_keeps_remote_reference:
  assumes "RequestOperationalIntentPublication q s = (None, s')"
    and "GetOperationalIntentPublication (pub_IntentID q) s = Inr c"
  shows "\<exists>p. GetOperationalIntentPublication (pub_IntentID q) s' = Inr p
    \<and> pub_DesiredIntentVersion p = pub_DesiredIntentVersion q \<and> pub_DesiredState p = pub_DesiredState q
    \<and> pub_Revision p = inc64 (pub_Revision c) \<and> pub_SyncStatus p = PublicationSyncPending
    \<and> pub_AttemptCount p = 0 \<and> pub_LeaseUntil p = pub_LeaseUntil c
    \<and> pub_SubscriptionID p = pub_SubscriptionID c \<and> pub_ConfirmedState p = pub_ConfirmedState c
    \<and> (pub_PublishedIntentVersion p, pub_DSSVersion p, pub_OVN p, pub_ReferenceJSON p, pub_ConfirmedAt p) =
        (if pub_SyncStatus c = PublicationSyncWithdrawn
            \<and> pub_DesiredState q \<noteq> OperationalIntentExternalStateWithdrawn
         then (0, 0, [], [], None)
         else (pub_PublishedIntentVersion c, pub_DSSVersion c, pub_OVN c, pub_ReferenceJSON c, pub_ConfirmedAt c))
    \<and> (\<forall>i. i \<noteq> pub_IntentID q \<longrightarrow>
        GetOperationalIntentPublication i s' = GetOperationalIntentPublication i s)"
proof -
  have s': "s' = requestPublicationLocked q s"
    using assms(1) by (auto simp: RequestOperationalIntentPublication_def split: option.splits)
  have "map_of (s_publications s) (pub_IntentID q) = Some c"
    using assms(2) by (simp add: GetOperationalIntentPublication_def)
  then show ?thesis
    unfolding s' GetOperationalIntentPublication_def map_of_request
    by (intro exI [of _ "requested_publication q (Some c)"])
      (simp add: requested_publication_def Let_def del: map_of_eq_Some_iff)
qed

theorem request_keeps_remote_reference_witness:
  "\<exists>p. GetOperationalIntentPublication ''op-1''
      (snd (RequestOperationalIntentPublication sample_publication sample_pub_store)) = Inr p
     \<and> pub_Revision p = 1"
proof -
  let ?r = "RequestOperationalIntentPublication sample_publication sample_pub_store"
  have "fst ?r = None" by code_simp
  then have "?r = (None, snd ?r)" by (simp add: prod_eq_iff)
  moreover have id: "pub_IntentID sample_publication = ''op-1''" by (simp add: sample_publication_def)
  obtain c where c: "GetOperationalIntentPublication ''op-1'' sample_pub_store = Inr c" "pub_Revision c = 0"
  proof -
    have "(case GetOperationalIntentPublication ''op-1'' sample_pub_store of
        Inl _ \<Rightarrow> False | Inr c \<Rightarrow> pub_Revision c = 0)" by code_simp
    then show ?thesis using that by (auto split: sum.splits)
  qed
  ultimately show ?thesis
    using request_keeps_remote_reference [of sample_publication sample_pub_store "snd ?r" c]
    by (auto simp: id inc64_def)
qed

text \<open>
  Notifications are queued with the confirmation, each once. A successful
  \<open>ConfirmOperationalIntentPublication\<close> stores the outcome, free of its lease, and the first
  notification of each identity that was not queued before, with revision 0; what was queued
  before stays as it was, and a failed confirmation queues nothing.
\<close>

theorem confirm_enqueues_notifications_once:
  "case ConfirmOperationalIntentPublication q r ns s of
     (Some e, s') \<Rightarrow> s' = s \<and> e \<in> {ErrNotFound, ErrVersionConflict}
   | (None, s') \<Rightarrow>
       map_option pub_Revision (map_of (s_publications s) (pub_IntentID q)) = Some r
       \<and> map_of (s_publications s') = (map_of (s_publications s))(pub_IntentID q \<mapsto>
           q\<lparr>pub_Revision := inc64 r, pub_LeaseUntil := None\<rparr>)
       \<and> (\<forall>k. map_of (s_peerNotifications s') k =
           (case map_of (s_peerNotifications s) k of
              Some n \<Rightarrow> Some n
            | None \<Rightarrow> map_option (\<lambda>n. n\<lparr>pn_Revision := 0\<rparr>) (find (\<lambda>n. pn_ID n = k) ns)))"
  by (auto simp: ConfirmOperationalIntentPublication_def enqueuePeerNotificationsLocked_def enqueue_fold
      simp del: map_of_eq_Some_iff split: option.splits)

end
