(* ===== verification/Services.thy ===== *)
theory Services
  imports Store_Coordination "HOL-Library.State_Monad"
begin

text \<open>
  How the services run: a state monad over the store and a world \<open>'w\<close> of everything else. Calls of
  the store are single steps of it. The clock, the providers, the publisher and the generator of
  identities are parameters of the services that may change both the store and the world: whatever
  other requests do to the store while a service waits for them is part of what they do.
  \<open>keeps\<close> says that a computation, interference included, keeps an invariant of the store.
\<close>

section \<open>Definitions\<close>

type_synonym ('w, 'a) srv = "(Store \<times> 'w, 'a) state"

definition with_store :: "(Store \<Rightarrow> 'a \<times> Store) \<Rightarrow> ('w, 'a) srv" where
  "with_store f = State (\<lambda>(s, w). case f s of (a, s') \<Rightarrow> (a, (s', w)))"

definition reads :: "(Store \<Rightarrow> 'a) \<Rightarrow> ('w, 'a) srv" where
  "reads f = State (\<lambda>(s, w). (f s, (s, w)))"

definition keeps :: "(Store \<Rightarrow> bool) \<Rightarrow> ('w, 'a) srv \<Rightarrow> bool" where
  "keeps I m \<longleftrightarrow> state_io_rel (\<lambda>\<sigma> \<sigma>'. I (fst \<sigma>) \<longrightarrow> I (fst \<sigma>')) m"

text \<open>A call of the store before which other requests run, and a loop of such calls that stops at an error.\<close>

definition store_call :: "('w, unit) srv \<Rightarrow> (Store \<Rightarrow> 'a \<times> Store) \<Rightarrow> ('w, 'a) srv" where
  "store_call others f = do { _ \<leftarrow> others; with_store f }"

definition store_read :: "('w, unit) srv \<Rightarrow> (Store \<Rightarrow> 'a) \<Rightarrow> ('w, 'a) srv" where
  "store_read others f = do { _ \<leftarrow> others; reads f }"

fun record_all ::
  "('w, unit) srv \<Rightarrow> string \<Rightarrow> ('v \<Rightarrow> Store \<Rightarrow> go_error option \<times> Store) \<Rightarrow> 'v list \<Rightarrow> ('w, go_error option) srv" where
  "record_all others label record_entry [] = State_Monad.return None"
| "record_all others label record_entry (v # vs) = do {
     err \<leftarrow> store_call others (record_entry v);
     case err of
       Some e \<Rightarrow> State_Monad.return (Some (wrap label e))
     | None \<Rightarrow> record_all others label record_entry vs
   }"

text \<open>A computation that removes no entry of a log and leaves the identities of its entries distinct.\<close>

definition log_kept :: "(Store \<Rightarrow> 'v list) \<Rightarrow> ('v \<Rightarrow> 'k) \<Rightarrow> ('w, 'a) srv \<Rightarrow> bool" where
  "log_kept entries ident m \<longleftrightarrow>
     keeps (\<lambda>s. distinct_ids ident (entries s)) m
     \<and> (\<forall>v. keeps (\<lambda>s. distinct_ids ident (entries s) \<and> v \<in> set (entries s)) m)"

section \<open>Lemmas\<close>

lemma run_with_store [simp]:
  "run_state (with_store f) (s, w) = (fst (f s), (snd (f s), w))"
  by (simp add: with_store_def case_prod_beta)

lemma run_reads [simp]: "run_state (reads f) (s, w) = (f s, (s, w))"
  by (simp add: reads_def)

lemma run_bind_iff:
  "run_state (State_Monad.bind m f) \<sigma> = r \<longleftrightarrow>
     (\<exists>x \<sigma>1. run_state m \<sigma> = (x, \<sigma>1) \<and> run_state (f x) \<sigma>1 = r)"
  by (simp split: prod.splits)

lemma run_bindE:
  assumes "run_state (State_Monad.bind m f) \<sigma> = r"
  obtains x \<sigma>1 where "run_state m \<sigma> = (x, \<sigma>1)" "run_state (f x) \<sigma>1 = r"
  using assms by (auto simp: run_bind_iff simp del: run_state_bind)

lemma keeps_run: "keeps I m \<Longrightarrow> run_state m (s, w) = (x, (s1, w1)) \<Longrightarrow> I s \<Longrightarrow> I s1"
  by (auto simp: keeps_def dest: state_io_relD)

lemma keepsI: "(\<And>s w x s1 w1. run_state m (s, w) = (x, (s1, w1)) \<Longrightarrow> I s \<Longrightarrow> I s1) \<Longrightarrow> keeps I m"
  by (force simp: keeps_def intro!: state_io_relI)

lemma keeps_return [simp]: "keeps I (State_Monad.return x)"
  by (rule keepsI) simp

lemma keeps_reads [simp]: "keeps I (reads f)"
  by (rule keepsI) simp

lemma keeps_bind: "keeps I m \<Longrightarrow> (\<And>x. keeps I (f x)) \<Longrightarrow> keeps I (State_Monad.bind m f)"
  by (rule keepsI) (fastforce elim!: run_bindE dest: keeps_run simp del: run_state_bind)

lemma keeps_bind_run:
  assumes "keeps I m"
    and "\<And>s w x s1 w1. I s \<Longrightarrow> run_state m (s, w) = (x, (s1, w1)) \<Longrightarrow> keeps I (f x)"
  shows "keeps I (State_Monad.bind m f)"
proof (rule keepsI)
  fix s w y s' w' assume "run_state (State_Monad.bind m f) (s, w) = (y, (s', w'))" and inv: "I s"
  then obtain x s1 w1 where m: "run_state m (s, w) = (x, (s1, w1))" and f: "run_state (f x) (s1, w1) = (y, (s', w'))"
    by (auto elim!: run_bindE simp del: run_state_bind)
  show "I s'" by (rule keeps_run [OF assms(2) [OF inv m] f keeps_run [OF assms(1) m inv]])
qed

lemma keeps_with_store: "(\<And>s. I s \<Longrightarrow> I (snd (f s))) \<Longrightarrow> keeps I (with_store f)"
  by (rule keepsI) auto

lemma keeps_store_read: "keeps I others \<Longrightarrow> keeps I (store_read others f)"
  by (auto simp: store_read_def intro: keeps_bind)

lemma keeps_store_call: "keeps I others \<Longrightarrow> (\<And>s. I s \<Longrightarrow> I (snd (f s))) \<Longrightarrow> keeps I (store_call others f)"
  by (auto simp: store_call_def intro: keeps_bind keeps_with_store)

lemma store_read_run:
  assumes "keeps I others" and "I s"
  obtains s1 w1 where "run_state (store_read others f) (s, w) = (f s1, (s1, w1))" and "I s1"
  using keeps_run [OF assms(1) _ assms(2)] by (cases "run_state others (s, w)") (auto simp: store_read_def)

lemma keeps_record_all:
  "keeps I others \<Longrightarrow> (\<And>s v. I s \<Longrightarrow> I (snd (record_entry v s))) \<Longrightarrow> keeps I (record_all others label record_entry vs)"
  by (induction vs) (auto intro!: keeps_bind keeps_store_call split: option.split)

lemma keeps_True [simp]: "keeps (\<lambda>s. True) m"
  by (simp add: keepsI)

subsection \<open>Logs of the store\<close>

locale store_log = id_log entries ident record_entry
  for entries :: "Store \<Rightarrow> 'v list" and ident :: "'v \<Rightarrow> string"
    and record_entry :: "'v \<Rightarrow> Store \<Rightarrow> go_error option \<times> Store"
begin

lemma record_all_ok: "fst (run_state (record_all others label record_entry vs) \<sigma>) = None"
proof (induction vs arbitrary: \<sigma>)
  case (Cons v vs)
  obtain s1 w1 where "run_state others \<sigma> = ((), (s1, w1))" by (cases "run_state others \<sigma>") auto
  with Cons show ?case by (simp add: store_call_def write_ok)
qed simp

lemma record_all_keeps_other:
  assumes "log_kept entries ident others" and "ident v \<notin> ident ` set vs"
  shows "keeps (\<lambda>s. distinct_ids ident (entries s) \<and> v \<in> set (entries s)) (record_all others label record_entry vs)"
  using assms(2)
proof (induction vs)
  case (Cons u vs)
  have "keeps (\<lambda>s. distinct_ids ident (entries s) \<and> v \<in> set (entries s)) (store_call others (record_entry u))"
    using assms(1) Cons.prems
    by (intro keeps_store_call) (auto simp: log_kept_def write_distinct write_set)
  with Cons show ?case by (auto intro!: keeps_bind split: option.split)
qed simp

text \<open>A loop that records entries of distinct identities leaves every one of them in the log.\<close>

lemma record_all_records:
  assumes kept: "log_kept entries ident others" and "distinct_ids ident vs" and "v \<in> set vs"
    and "distinct_ids ident (entries s)" and "run_state (record_all others label record_entry vs) (s, w) = (e, (s', w'))"
  shows "distinct_ids ident (entries s') \<and> v \<in> set (entries s')"
  using assms(2-)
proof (induction vs arbitrary: s w)
  case (Cons u vs)
  obtain s1 w1 where o: "run_state others (s, w) = ((), (s1, w1))" by (cases "run_state others (s, w)") auto
  have d1: "distinct_ids ident (entries s1)"
    using kept Cons.prems(3) o by (auto simp: log_kept_def dest: keeps_run)
  let ?s2 = "snd (record_entry u s1)"
  have d2: "distinct_ids ident (entries ?s2)" and u: "u \<in> set (entries ?s2)"
    using d1 by (simp_all add: write_distinct write_set)
  have rest: "run_state (record_all others label record_entry vs) (?s2, w1) = (e, (s', w'))"
    using Cons.prems(4) o by (simp add: store_call_def write_ok)
  show ?case
  proof (cases "v = u")
    case True
    then have "ident v \<notin> ident ` set vs" using Cons.prems(1) by auto
    from keeps_run [OF record_all_keeps_other [OF kept this] rest] d2 u True show ?thesis by simp
  next
    case False
    with Cons.prems(1,2) Cons.IH [OF _ _ d2 rest] show ?thesis by auto
  qed
qed simp

end

end
