(* ===== verification/Deconfliction.thy ===== *)
theory Deconfliction
  imports Conflict Services
begin

text \<open>
  The local airspace provider (\<open>internal/airspaceprovider/local/provider.go\<close>) and the
  deconfliction check (\<open>internal/service/deconfliction/deconfliction.go\<close>). The clock and the
  providers are parameters.
\<close>

section \<open>Definitions\<close>

subsection \<open>Providers\<close>

record 'w Provider =
  pr_ID :: string
  pr_FindOperationalIntents :: "Query \<Rightarrow> ('w, ProviderIntent list \<times> go_error option) srv"

subsection \<open>The local provider\<close>

definition candidateConflictEligible :: "IntentStatus \<Rightarrow> bool" where
  "candidateConflictEligible status \<longleftrightarrow> status = IntentStatusAccepted \<or> status = IntentStatusActive"

definition volumesForVersion :: "OperationalVolume list \<Rightarrow> int \<Rightarrow> OperationalVolume list" where
  "volumesForVersion volumes version = filter (\<lambda>v. ov_IntentVersion v = version) volumes"

text \<open>The first loop: the highest eligible version of each candidate, and the read errors.\<close>

definition select_candidate ::
  "Store \<Rightarrow> Candidate \<Rightarrow> OperationalIntent gomap \<times> go_error list \<Rightarrow> OperationalIntent gomap \<times> go_error list" where
  "select_candidate s candidate acc = (case acc of (selected, readErrors) \<Rightarrow>
     case GetOperationalIntentVersion (cand_IntentID candidate) (cand_IntentVersion candidate) s of
       Inl e \<Rightarrow>
         if errors_Is e ErrNotFound then (selected, readErrors)
         else (selected, readErrors @ [wrap (''get candidate '' @ cand_IntentID candidate @ '' v''
                 @ itoa (cand_IntentVersion candidate)) e])
     | Inr intent \<Rightarrow>
         if \<not> candidateConflictEligible (oi_Status intent) then (selected, readErrors)
         else (case map_of selected (oi_ID intent) of
             None \<Rightarrow> (AList.update (oi_ID intent) intent selected, readErrors)
           | Some current \<Rightarrow>
               if oi_Version intent > oi_Version current
               then (AList.update (oi_ID intent) intent selected, readErrors)
               else (selected, readErrors)))"

definition off_nominal :: "OperationalVolume \<Rightarrow> bool" where
  "off_nominal v \<longleftrightarrow> ov_VolumeType v = OperationalVolumeContingency \<or> ov_VolumeType v = OperationalVolumeEmergency"

text \<open>The second loop, for one selected intent.\<close>

definition local_record :: "OperationalIntent \<Rightarrow> OperationalVolume list \<Rightarrow> ProviderIntent" where
  "local_record intent volumes = \<lparr>
     pi_Source = zero_Source\<lparr>src_ProviderID := ProviderLocal, src_ReferenceID := oi_ID intent,
       src_Manager := oi_OperatorID intent, src_Version := oi_Version intent, src_Local := True\<rparr>,
     pi_Intent = intent,
     pi_Volumes = filter (\<lambda>v. \<not> off_nominal v) (volumesForVersion volumes (oi_Version intent)),
     pi_OffNominalVolumes = filter off_nominal (volumesForVersion volumes (oi_Version intent))\<rparr>"

definition candidate_record ::
  "Store \<Rightarrow> OperationalIntent gomap \<Rightarrow> string \<Rightarrow> ProviderIntent list \<times> go_error list
    \<Rightarrow> ProviderIntent list \<times> go_error list" where
  "candidate_record s selected i acc = (case acc of (records, readErrors) \<Rightarrow>
     case map_of selected i of
       None \<Rightarrow> (records, readErrors)
     | Some intent \<Rightarrow>
     case ListOperationalVolumes i s of
       Inl e \<Rightarrow> (records, readErrors @ [wrap (''list candidate '' @ i @ '' volumes'') e])
     | Inr volumes \<Rightarrow>
         let rec = local_record intent volumes
         in if length (pi_Volumes rec) + length (pi_OffNominalVolumes rec) > 0
            then (records @ [rec], readErrors) else (records, readErrors))"

definition join_errors :: "go_error list \<Rightarrow> go_error option" where
  "join_errors es = (if es = [] then None else Some (ErrJoin es))"

definition local_FindOperationalIntents :: "Query \<Rightarrow> Store \<Rightarrow> ProviderIntent list \<times> go_error option" where
  "local_FindOperationalIntents query s =
     (case FindCandidates \<lparr>cq_ExcludeIntentID = oi_ID (q_Intent query), cq_Volumes = q_Volumes query\<rparr> s of
        Inl e \<Rightarrow> ([], Some (wrap ''find local spatial candidates'' e))
      | Inr candidates \<Rightarrow>
          let (selected, readErrors) = fold (select_candidate s) candidates ([], []);
              ids = sort (map fst selected);
              (records, readErrors) = fold (candidate_record s selected) ids ([], readErrors)
          in (records, join_errors readErrors))"

definition local_provider :: "'w Provider" where
  "local_provider = \<lparr>pr_ID = ProviderLocal,
     pr_FindOperationalIntents = (\<lambda>query. reads (local_FindOperationalIntents query))\<rparr>"

subsection \<open>Posture\<close>

definition postureForFinding :: "ConflictFindingStatus \<Rightarrow> DeconflictionPosture" where
  "postureForFinding status =
     (case status of
        ConflictFindingStatusConflict \<Rightarrow> DeconflictionPostureConflict
      | ConflictFindingStatusPotentialConflict \<Rightarrow> DeconflictionPosturePotentialConflict
      | ConflictFindingStatusIndeterminate \<Rightarrow> DeconflictionPostureIndeterminate
      | _ \<Rightarrow> DeconflictionPostureClear)"

definition postureRank :: "DeconflictionPosture \<Rightarrow> int" where
  "postureRank posture =
     (case posture of
        DeconflictionPostureConflict \<Rightarrow> 4
      | DeconflictionPostureIndeterminate \<Rightarrow> 3
      | DeconflictionPosturePotentialConflict \<Rightarrow> 2
      | _ \<Rightarrow> 1)"

definition maxPosture :: "DeconflictionPosture \<Rightarrow> ConflictFindingStatus \<Rightarrow> DeconflictionPosture" where
  "maxPosture current status =
     (if postureRank (postureForFinding status) > postureRank current then postureForFinding status else current)"

definition conflictSeverity :: "ConflictFindingStatus \<Rightarrow> Severity" where
  "conflictSeverity status =
     (case status of
        ConflictFindingStatusConflict \<Rightarrow> SeverityCritical
      | ConflictFindingStatusPotentialConflict \<Rightarrow> SeverityWarning
      | ConflictFindingStatusIndeterminate \<Rightarrow> SeverityWarning
      | _ \<Rightarrow> SeverityInfo)"

definition emptyID :: "string \<Rightarrow> string" where
  "emptyID value = (if value = [] then ''none'' else value)"

definition deconflictionRuleVersion :: string where
  "deconflictionRuleVersion = ''provider-aggregate-v1''"

subsection \<open>The check\<close>

definition normalizeFinding ::
  "OperationalIntent \<Rightarrow> ConflictFinding \<Rightarrow> string \<Rightarrow> time \<Rightarrow> ConflictFinding" where
  "normalizeFinding intent finding fallbackSourceID checkedAt =
     (let f = finding\<lparr>cf_OperatorID := oi_OperatorID intent, cf_IntentID := oi_ID intent,
            cf_IntentVersion := oi_Version intent, cf_AircraftID := oi_AircraftID intent\<rparr>;
          f = (if cf_SourceID f = [] then f\<lparr>cf_SourceID := fallbackSourceID\<rparr> else f);
          f = (if cf_SourceType f = ConflictFindingSourceTypeOther []
               then f\<lparr>cf_SourceType := ConflictFindingSourceExternal\<rparr> else f);
          f = (if cf_ID f = [] then f\<lparr>cf_ID := join_strings ''-''
                 [''conflict'', oi_ID intent, ''v'' @ itoa (oi_Version intent),
                  ConflictFindingStatus_text (cf_Status f), emptyID (cf_SourceID f), emptyID (cf_VolumeID f),
                  emptyID (cf_ConflictingIntentID f), emptyID (cf_ConflictingVolumeID f)]\<rparr> else f);
          f = (if IsZero (cf_EvaluatedAt f) then f\<lparr>cf_EvaluatedAt := checkedAt\<rparr> else f);
          f = f\<lparr>cf_RuleVersion := deconflictionRuleVersion\<rparr>;
          f = (if cf_Severity f = SeverityOther [] then f\<lparr>cf_Severity := conflictSeverity (cf_Status f)\<rparr> else f)
      in f\<lparr>cf_Blocking := (cf_Status f \<noteq> ConflictFindingStatusClear)\<rparr>)"

definition newResult :: "OperationalIntent \<Rightarrow> time \<Rightarrow> DeconflictionResult" where
  "newResult intent checkedAt = \<lparr>dr_Intent = intent, dr_Posture = DeconflictionPostureClear,
     dr_Findings = [], dr_CheckedAt = checkedAt, dr_RuleVersion = deconflictionRuleVersion\<rparr>"

text \<open>A finding of the service itself about no particular peer.\<close>

definition service_finding :: "ConflictFindingStatus \<Rightarrow> string \<Rightarrow> ConflictFinding" where
  "service_finding status message = zero_ConflictFinding\<lparr>cf_SourceType := ConflictFindingSourceLocal,
     cf_SourceID := service_source, cf_Status := status, cf_Message := message\<rparr>"

definition finalized :: "DeconflictionResult \<Rightarrow> DeconflictionResult" where
  "finalized result =
     (let findings = (if dr_Findings result = []
            then [service_finding ConflictFindingStatusClear ''no airspace provider reported a conflict'']
            else dr_Findings result);
          findings = map (\<lambda>f. normalizeFinding (dr_Intent result) f (cf_SourceID f) (dr_CheckedAt result)) findings
      in result\<lparr>dr_Posture := fold (\<lambda>f p. maxPosture p (cf_Status f)) findings (dr_Posture result),
                dr_Findings := findings\<rparr>)"

definition finalize :: "DeconflictionResult \<Rightarrow> Store \<Rightarrow> DeconflictionResult result \<times> Store" where
  "finalize result s =
     (case ReplaceConflictFindings (oi_ID (dr_Intent result)) (oi_Version (dr_Intent result))
         deconflictionRuleVersion (dr_Findings (finalized result)) s of
        (Some e, s') \<Rightarrow> (Inl (wrap ''replace conflict findings'' e), s')
      | (None, s') \<Rightarrow> (Inr (finalized result), s'))"

definition sourceKey :: "Source \<Rightarrow> string" where
  "sourceKey source = join_strings [CHR 0x00] [src_ProviderID source, src_ReferenceID source, itoa (src_Version source)]"

text \<open>The loop over what one provider returned: records not seen before.\<close>

definition add_record ::
  "string \<Rightarrow> ProviderIntent \<Rightarrow> ProviderIntent list \<times> string list \<Rightarrow> ProviderIntent list \<times> string list" where
  "add_record providerID rec acc = (case acc of (records, seen) \<Rightarrow>
     let rec = rec\<lparr>pi_Source := (pi_Source rec)\<lparr>src_ProviderID := providerID\<rparr>\<rparr>;
         key = sourceKey (pi_Source rec)
     in if key \<in> set seen then (records, seen) else (records @ [rec], key # seen))"

definition provider_finding :: "string \<Rightarrow> go_error \<Rightarrow> ConflictFinding" where
  "provider_finding providerID e = zero_ConflictFinding\<lparr>
     cf_Status := ConflictFindingStatusIndeterminate,
     cf_Message := ''airspace provider '' @ quote providerID @ '' could not be queried: '' @ error_text e,
     cf_SourceID := providerID\<rparr>"

fun discover ::
  "'w Provider list \<Rightarrow> Query \<Rightarrow> ProviderIntent list \<times> string list \<Rightarrow> ConflictFinding list
    \<Rightarrow> ('w, ProviderIntent list \<times> ConflictFinding list) srv" where
  "discover [] query acc findings = State_Monad.return (fst acc, findings)"
| "discover (provider # providers) query acc findings = do {
     (discovered, err) \<leftarrow> pr_FindOperationalIntents provider query;
     discover providers query (fold (add_record (pr_ID provider)) discovered acc)
       (case err of None \<Rightarrow> findings | Some e \<Rightarrow> findings @ [provider_finding (pr_ID provider) e])
   }"

definition discoverOperationalIntents ::
  "'w Provider list \<Rightarrow> OperationalIntent \<Rightarrow> OperationalVolume list
    \<Rightarrow> ('w, ProviderIntent list \<times> ConflictFinding list) srv" where
  "discoverOperationalIntents providers intent volumes =
     discover providers \<lparr>q_Intent = intent, q_Volumes = volumes\<rparr> ([], []) []"

text \<open>
  The service: its providers, clock and decoder. \<open>check\<close> returns the result, or the error, and
  the records the providers returned.
\<close>

record 'w DeconflictionChecker =
  dc_providers :: "'w Provider list"
  dc_now :: "('w, time) srv"
  dc_json :: geo_json

definition check ::
  "'w DeconflictionChecker \<Rightarrow> OperationalIntent \<Rightarrow> OperationalVolume list
    \<Rightarrow> ('w, DeconflictionResult result \<times> ProviderIntent list) srv" where
  "check svc intent volumes = do {
     checkedAt \<leftarrow> dc_now svc;
     let result = newResult intent checkedAt;
     if volumes = [] then do {
       r \<leftarrow> with_store (finalize (result\<lparr>dr_Findings := [service_finding ConflictFindingStatusIndeterminate
              ''intent has no operational volumes to check'']\<rparr>));
       State_Monad.return (r, [])
     } else do {
       (records, providerFindings) \<leftarrow> discoverOperationalIntents (dc_providers svc) intent volumes;
       r \<leftarrow> with_store (finalize (result\<lparr>dr_Findings :=
              providerFindings @ evaluateConflicts (dc_json svc) intent volumes records\<rparr>));
       State_Monad.return (r, records)
     }
   }"

definition loadIntent :: "string \<Rightarrow> Store \<Rightarrow> (OperationalIntent \<times> OperationalVolume list) result" where
  "loadIntent intentID s =
     (case GetOperationalIntent intentID s of
        Inl e \<Rightarrow> Inl (wrap ''get operational intent'' e)
      | Inr intent \<Rightarrow>
      case ListOperationalVolumes (oi_ID intent) s of
        Inl e \<Rightarrow> Inl (wrap ''list operational volumes'' e)
      | Inr volumes \<Rightarrow> Inr (intent, volumesForVersion volumes (oi_Version intent)))"

definition CheckIntent :: "'w DeconflictionChecker \<Rightarrow> string \<Rightarrow> ('w, DeconflictionResult result) srv" where
  "CheckIntent svc intentID = do {
     loaded \<leftarrow> reads (loadIntent intentID);
     case loaded of
       Inl e \<Rightarrow> State_Monad.return (Inl e)
     | Inr (intent, volumes) \<Rightarrow> do {
         (r, records) \<leftarrow> check svc intent volumes;
         State_Monad.return r
       }
   }"

definition service_ListConflictFindings :: "string \<Rightarrow> Store \<Rightarrow> ConflictFinding list result" where
  "service_ListConflictFindings intentID s =
     (if TrimSpace intentID = [] then Inl (Errorf ''validation failed: intent_id is required'' [])
      else case GetOperationalIntent intentID s of
        Inl e \<Rightarrow> Inl (wrap ''get operational intent'' e)
      | Inr intent \<Rightarrow>
      case ListConflictFindings (oi_ID intent) (oi_Version intent) s of
        Inl e \<Rightarrow> Inl (wrap ''list conflict findings'' e)
      | Inr findings \<Rightarrow> Inr findings)"

subsection \<open>What the local provider selects\<close>

text \<open>The intent version a candidate names, when it is in conflict terms alive.\<close>

definition eligible_version :: "Store \<Rightarrow> Candidate \<Rightarrow> OperationalIntent \<Rightarrow> bool" where
  "eligible_version s c j \<longleftrightarrow> GetOperationalIntentVersion (cand_IntentID c) (cand_IntentVersion c) s = Inr j
     \<and> candidateConflictEligible (oi_Status j)"

definition selection_ok :: "Store \<Rightarrow> Candidate list \<Rightarrow> OperationalIntent gomap \<Rightarrow> bool" where
  "selection_ok s cs sel \<longleftrightarrow> keyed oi_ID sel
     \<and> (\<forall>x \<in> set (vals sel). \<exists>c \<in> set cs. eligible_version s c x)
     \<and> (\<forall>c \<in> set cs. \<forall>j. eligible_version s c j \<longrightarrow>
          (\<exists>x. map_of sel (oi_ID j) = Some x \<and> oi_Version j \<le> oi_Version x))"

text \<open>A service with the local provider and a clock that stands still, over a world of its own.\<close>

definition sample_checker :: "unit DeconflictionChecker" where
  "sample_checker = \<lparr>dc_providers = [local_provider], dc_now = reads (\<lambda>_. 5), dc_json = square_json\<rparr>"

definition other_intent :: OperationalIntent where
  "other_intent = sample_intent\<lparr>oi_ID := ''op-2'', oi_Status := IntentStatusAccepted\<rparr>"

definition other_volume :: OperationalVolume where
  "other_volume = placed_volume\<lparr>ov_IntentID := ''op-2'', ov_StartsAt := 20, ov_EndsAt := 30\<rparr>"

definition two_intent_store :: Store where
  "two_intent_store = (store_intent other_intent sample_store)\<lparr>
     s_operationalVolumes := [(operationalVolumeKey other_volume, other_volume)]\<rparr>"

section \<open>Lemmas\<close>

subsection \<open>Finalising\<close>

lemma normalizeFinding_fields [simp]:
  "cf_IntentID (normalizeFinding i f src t) = oi_ID i"
  "cf_IntentVersion (normalizeFinding i f src t) = oi_Version i"
  "cf_RuleVersion (normalizeFinding i f src t) = deconflictionRuleVersion"
  "cf_Status (normalizeFinding i f src t) = cf_Status f"
  "cf_Blocking (normalizeFinding i f src t) \<longleftrightarrow> cf_Status f \<noteq> ConflictFindingStatusClear"
  by (simp_all add: normalizeFinding_def Let_def)

lemma finalized_fields [simp]: "dr_Intent (finalized r) = dr_Intent r" "dr_CheckedAt (finalized r) = dr_CheckedAt r"
  by (simp_all add: finalized_def Let_def)

lemma finalized_scope:
  "list_all (finding_in_scope (oi_ID (dr_Intent r)) (oi_Version (dr_Intent r)) deconflictionRuleVersion)
     (dr_Findings (finalized r))"
  by (simp add: finalized_def Let_def list_all_iff finding_in_scope_def)

text \<open>\<open>finalize\<close> cannot fail: what it writes is inside the scope it replaces.\<close>

lemma finalize_eq:
  "finalize r s = (Inr (finalized r), s\<lparr>s_conflictFindings :=
     filter (\<lambda>f. \<not> finding_in_scope (oi_ID (dr_Intent r)) (oi_Version (dr_Intent r)) deconflictionRuleVersion f)
       (s_conflictFindings s) @ dr_Findings (finalized r)\<rparr>)"
  unfolding finalize_def by (simp add: replace_findings_ok [OF finalized_scope])

lemma postureRank_finding:
  "postureRank (postureForFinding st) = 1 \<longleftrightarrow> postureForFinding st = DeconflictionPostureClear"
  by (cases st) (simp_all add: postureRank_def postureForFinding_def)

lemma fold_maxPosture_rank:
  "postureRank (fold (\<lambda>f p. maxPosture p (cf_Status f)) fs p) =
     Max (insert (postureRank p) ((\<lambda>f. postureRank (postureForFinding (cf_Status f))) ` set fs))"
proof (induction fs arbitrary: p)
  case (Cons f fs)
  have "postureRank (maxPosture p (cf_Status f)) = max (postureRank p) (postureRank (postureForFinding (cf_Status f)))"
    by (simp add: maxPosture_def max_def)
  with Cons show ?case by (cases "fs = []") (simp_all add: max.assoc)
qed simp

lemma fold_maxPosture_in:
  "fold (\<lambda>f p. maxPosture p (cf_Status f)) fs p \<in> insert p ((\<lambda>f. postureForFinding (cf_Status f)) ` set fs)"
proof (induction fs arbitrary: p)
  case (Cons f fs)
  from Cons [of "maxPosture p (cf_Status f)"] show ?case by (auto simp: maxPosture_def split: if_splits)
qed simp

lemma fold_maxPosture_clear:
  "fold (\<lambda>f p. maxPosture p (cf_Status f)) fs DeconflictionPostureClear = DeconflictionPostureClear
     \<longleftrightarrow> (\<forall>f \<in> set fs. postureForFinding (cf_Status f) = DeconflictionPostureClear)"
  (is "?l \<longleftrightarrow> ?r")
proof
  assume ?l
  then have "postureRank (fold (\<lambda>f p. maxPosture p (cf_Status f)) fs DeconflictionPostureClear) = 1"
    by (simp add: postureRank_def)
  then have "\<forall>f \<in> set fs. postureRank (postureForFinding (cf_Status f)) \<le> 1"
    unfolding fold_maxPosture_rank by (metis Max_ge finite_imageI finite_insert finite_set image_eqI insertI2)
  moreover have "1 \<le> postureRank q" for q by (cases q) (simp_all add: postureRank_def)
  ultimately show ?r by (metis order_antisym postureRank_finding)
next
  assume ?r
  with fold_maxPosture_in [of fs DeconflictionPostureClear] show ?l by auto
qed

lemma evaluateVolume_status:
  "fst (snd (evaluateVolume json v)) \<in>
     {ConflictFindingStatusClear, ConflictFindingStatusIndeterminate, ConflictFindingStatusPotentialConflict}"
  by (auto simp: evaluateVolume_def split: sum.splits option.splits)

lemma evaluatedFinding_status [simp]: "cf_Status (evaluatedFinding i src st a b c d m) = st"
  by (simp add: evaluatedFinding_def)

text \<open>Every finding of the evaluation stands in the way of a clear posture.\<close>

lemma evaluateConflicts_status:
  assumes "f \<in> set (evaluateConflicts json i vs rs)"
  shows "cf_Status f \<in> {ConflictFindingStatusIndeterminate, ConflictFindingStatusPotentialConflict}"
proof -
  have peer: "cf_Status f \<in> {ConflictFindingStatusIndeterminate, ConflictFindingStatusPotentialConflict}"
    if "f \<in> set (peer_findings i v b p)" "p \<in> set (preparePeerVolumes json rs)" for v b p
    using that evaluateVolume_status [of json "pp_volume p"]
    by (auto simp: peer_findings_def Let_def preparePeerVolumes_set case_prod_beta split: if_splits)
  from assms obtain v where "f \<in> set (volume_findings json i (preparePeerVolumes json rs) v)"
    by (auto simp: evaluateConflicts_def)
  with peer evaluateVolume_status [of json v] show ?thesis
    by (auto simp: volume_findings_def case_prod_beta split: if_splits)
qed

subsection \<open>The local provider\<close>

lemma select_candidate_eq:
  "select_candidate s c (sel, []) =
     (case GetOperationalIntentVersion (cand_IntentID c) (cand_IntentVersion c) s of
        Inl e \<Rightarrow> (sel, [])
      | Inr j \<Rightarrow>
          if candidateConflictEligible (oi_Status j)
             \<and> (\<forall>x. map_of sel (oi_ID j) = Some x \<longrightarrow> oi_Version x < oi_Version j)
          then (AList.update (oi_ID j) j sel, []) else (sel, []))"
  by (auto simp: select_candidate_def GetOperationalIntentVersion_def found_def
      simp del: map_of_eq_Some_iff split: option.splits sum.splits)

lemma selection_step:
  assumes "selection_ok s cs sel"
  shows "\<exists>sel'. select_candidate s c (sel, []) = (sel', []) \<and> selection_ok s (c # cs) sel'"
proof (cases "GetOperationalIntentVersion (cand_IntentID c) (cand_IntentVersion c) s")
  case (Inl e)
  with assms show ?thesis by (auto simp: select_candidate_eq selection_ok_def eligible_version_def)
next
  case (Inr j)
  let ?take = "candidateConflictEligible (oi_Status j)
      \<and> (\<forall>x. map_of sel (oi_ID j) = Some x \<longrightarrow> oi_Version x < oi_Version j)"
  have only: "eligible_version s c k \<longleftrightarrow> k = j \<and> candidateConflictEligible (oi_Status j)" for k
    using Inr by (auto simp: eligible_version_def)
  have keyed: "keyed oi_ID sel" using assms by (simp add: selection_ok_def)
  show ?thesis
  proof (cases ?take)
    case True
    let ?sel = "AList.update (oi_ID j) j sel"
    have "selection_ok s (c # cs) ?sel"
      unfolding selection_ok_def
    proof (intro conjI ballI allI impI)
      show "keyed oi_ID ?sel" using keyed by simp
      show "\<exists>c' \<in> set (c # cs). eligible_version s c' x" if "x \<in> set (vals ?sel)" for x
        using that True assms only vals_put [OF keyed, of j] by (auto simp: selection_ok_def)
      show "\<exists>x. map_of ?sel (oi_ID k) = Some x \<and> oi_Version k \<le> oi_Version x"
        if c': "c' \<in> set (c # cs)" and k: "eligible_version s c' k" for c' k
      proof (cases "c' \<in> set cs")
        case old: True
        then obtain x where x: "map_of sel (oi_ID k) = Some x" "oi_Version k \<le> oi_Version x"
          using assms k unfolding selection_ok_def by blast
        then show ?thesis using True by (cases "oi_ID k = oi_ID j") (auto simp del: map_of_eq_Some_iff)
      next
        case False
        then show ?thesis using c' k only by simp
      qed
    qed
    with Inr True show ?thesis by (simp add: select_candidate_eq del: map_of_eq_Some_iff)
  next
    case False
    have "selection_ok s (c # cs) sel"
      unfolding selection_ok_def
    proof (intro conjI ballI allI impI)
      show "keyed oi_ID sel" by (rule keyed)
      show "\<exists>c' \<in> set (c # cs). eligible_version s c' x" if "x \<in> set (vals sel)" for x
        using that assms by (auto simp: selection_ok_def)
      show "\<exists>x. map_of sel (oi_ID k) = Some x \<and> oi_Version k \<le> oi_Version x"
        if "c' \<in> set (c # cs)" "eligible_version s c' k" for c' k
        using that assms only False by (fastforce simp: selection_ok_def simp del: map_of_eq_Some_iff)
    qed
    with Inr False show ?thesis by (auto simp: select_candidate_eq simp del: map_of_eq_Some_iff)
  qed
qed

lemma selection_fold:
  "\<exists>sel. fold (select_candidate s) cs ([], []) = (sel, []) \<and> selection_ok s cs sel"
proof -
  have "selection_ok s seen sel \<Longrightarrow>
      \<exists>sel'. fold (select_candidate s) cs (sel, []) = (sel', []) \<and> selection_ok s (rev cs @ seen) sel'" for seen sel
  proof (induction cs arbitrary: seen sel)
    case (Cons c cs)
    obtain sel' where step: "select_candidate s c (sel, []) = (sel', [])" "selection_ok s (c # seen) sel'"
      using selection_step [OF Cons.prems] by blast
    from Cons.IH [OF step(2)] step(1) show ?case by simp
  qed simp
  moreover have "selection_ok s [] []" by (simp add: selection_ok_def vals_def)
  ultimately obtain sel where "fold (select_candidate s) cs ([], []) = (sel, [])" "selection_ok s (rev cs @ []) sel"
    by blast
  then show ?thesis by (auto simp: selection_ok_def)
qed

text \<open>The volumes of an intent, as the store lists them.\<close>

lemma list_volumes_set:
  "i \<noteq> [] \<Longrightarrow> \<exists>vs. ListOperationalVolumes i s = Inr vs \<and> set vs = {v \<in> set (vals (s_operationalVolumes s)). ov_IntentID v = i}"
  by (simp add: ListOperationalVolumes_def)

lemma candidate_record_fold:
  "\<exists>recs'. fold (candidate_record s sel) ids (recs, []) = (recs', []) \<and> set recs \<subseteq> set recs'
     \<and> (\<forall>i \<in> set ids. \<forall>intent vs. map_of sel i = Some intent \<and> ListOperationalVolumes i s = Inr vs
          \<and> volumesForVersion vs (oi_Version intent) \<noteq> [] \<longrightarrow> local_record intent vs \<in> set recs')
     \<and> (\<forall>r \<in> set recs'. r \<in> set recs \<or> (\<exists>i \<in> set ids. \<exists>intent vs. map_of sel i = Some intent \<and> ListOperationalVolumes i s = Inr vs \<and> r = local_record intent vs))"
proof (induction ids arbitrary: recs)
  case (Cons i ids)
  have ok: "\<exists>vs. ListOperationalVolumes i s = Inr vs" by (simp add: ListOperationalVolumes_def)
  obtain recs1 where step: "candidate_record s sel i (recs, []) = (recs1, [])" and sub: "set recs \<subseteq> set recs1"
    and new: "\<And>intent vs. map_of sel i = Some intent \<Longrightarrow> ListOperationalVolumes i s = Inr vs \<Longrightarrow>
        volumesForVersion vs (oi_Version intent) \<noteq> [] \<Longrightarrow> local_record intent vs \<in> set recs1"
    and src: "\<And>r. r \<in> set recs1 \<Longrightarrow> r \<in> set recs \<or> (\<exists>intent vs. map_of sel i = Some intent \<and> ListOperationalVolumes i s = Inr vs \<and> r = local_record intent vs)"
  proof (cases "map_of sel i")
    case None
    then show ?thesis using that [of recs] by (simp add: candidate_record_def del: map_of_eq_Some_iff)
  next
    case (Some intent)
    obtain vs where vs: "ListOperationalVolumes i s = Inr vs" using ok by blast
    have len: "pi_Volumes (local_record intent vs) = [] \<and> pi_OffNominalVolumes (local_record intent vs) = []
        \<longleftrightarrow> volumesForVersion vs (oi_Version intent) = []"
      by (auto simp: local_record_def filter_empty_conv)
    have "candidate_record s sel i (recs, []) =
        (if volumesForVersion vs (oi_Version intent) \<noteq> [] then recs @ [local_record intent vs] else recs, [])"
      using Some vs len by (auto simp: candidate_record_def Let_def simp del: map_of_eq_Some_iff)
    then show ?thesis
      by (rule that) (use Some vs in \<open>auto simp del: map_of_eq_Some_iff split: if_splits\<close>)
  qed
  from Cons.IH [of recs1] obtain recs' where
    fold: "fold (candidate_record s sel) ids (recs1, []) = (recs', [])" and sub': "set recs1 \<subseteq> set recs'"
    and new': "\<forall>i \<in> set ids. \<forall>intent vs. map_of sel i = Some intent \<and> ListOperationalVolumes i s = Inr vs
        \<and> volumesForVersion vs (oi_Version intent) \<noteq> [] \<longrightarrow> local_record intent vs \<in> set recs'"
    and src': "\<forall>r \<in> set recs'. r \<in> set recs1 \<or> (\<exists>i \<in> set ids. \<exists>intent vs. map_of sel i = Some intent \<and> ListOperationalVolumes i s = Inr vs \<and> r = local_record intent vs)"
    by blast
  show ?case
  proof (intro exI [of _ recs'] conjI)
    show "fold (candidate_record s sel) (i # ids) (recs, []) = (recs', [])" using step fold by simp
    show "set recs \<subseteq> set recs'" using sub sub' by blast
    show "\<forall>r \<in> set recs'. r \<in> set recs \<or> (\<exists>j \<in> set (i # ids). \<exists>intent vs.
        map_of sel j = Some intent \<and> ListOperationalVolumes j s = Inr vs \<and> r = local_record intent vs)"
    proof
      fix r assume "r \<in> set recs'"
      with src' have "r \<in> set recs1 \<or> (\<exists>j \<in> set ids. \<exists>intent vs. map_of sel j = Some intent \<and> ListOperationalVolumes j s = Inr vs \<and> r = local_record intent vs)"
        by blast
      then show "r \<in> set recs \<or> (\<exists>j \<in> set (i # ids). \<exists>intent vs.
          map_of sel j = Some intent \<and> ListOperationalVolumes j s = Inr vs \<and> r = local_record intent vs)"
        using src [of r] by (metis list.set_intros(1,2))
    qed
  qed (unfold list.set(2), use sub' new new' in blast)
qed simp

lemma sourceKey_local:
  assumes "sourceKey (src\<lparr>src_ProviderID := p\<rparr>) = sourceKey (src'\<lparr>src_ProviderID := p\<rparr>)"
  shows "src_ReferenceID src = src_ReferenceID src' \<and> src_Version src = src_Version src'"
proof -
  from assms have "src_ReferenceID src @ CHR 0x00 # itoa (src_Version src) =
      src_ReferenceID src' @ CHR 0x00 # itoa (src_Version src')"
    by (simp add: sourceKey_def)
  from last_sep_inj [OF this] show ?thesis by simp
qed

text \<open>
  What the aggregation keeps of one provider's records: for each record, one with the same
  reference and version.
\<close>

lemma add_record_fold:
  assumes "\<forall>k \<in> set seen. \<exists>r \<in> set recs. sourceKey (pi_Source r) = k"
    and "fold (add_record p) rs (recs, seen) = (recs', seen')"
  shows "set recs \<subseteq> set recs' \<and> (\<forall>k \<in> set seen'. \<exists>r \<in> set recs'. sourceKey (pi_Source r) = k)
    \<and> (\<forall>r \<in> set rs. \<exists>r' \<in> set recs'. sourceKey (pi_Source r') = sourceKey ((pi_Source r)\<lparr>src_ProviderID := p\<rparr>))
    \<and> (\<forall>r' \<in> set recs'. r' \<in> set recs \<or> (\<exists>r \<in> set rs. r' = r\<lparr>pi_Source := (pi_Source r)\<lparr>src_ProviderID := p\<rparr>\<rparr>))"
  using assms
proof (induction rs arbitrary: recs seen)
  case (Cons r rs)
  let ?r = "r\<lparr>pi_Source := (pi_Source r)\<lparr>src_ProviderID := p\<rparr>\<rparr>"
  let ?k = "sourceKey (pi_Source ?r)"
  define recs1 where "recs1 = (if ?k \<in> set seen then recs else recs @ [?r])"
  define seen1 where "seen1 = (if ?k \<in> set seen then seen else ?k # seen)"
  have step: "add_record p r (recs, seen) = (recs1, seen1)"
    by (simp add: add_record_def Let_def recs1_def seen1_def)
  have inv: "\<forall>k \<in> set seen1. \<exists>r \<in> set recs1. sourceKey (pi_Source r) = k"
    using Cons.prems(1) by (auto simp: recs1_def seen1_def)
  have "fold (add_record p) rs (recs1, seen1) = (recs', seen')" using Cons.prems(2) step by simp
  note IH = Cons.IH [OF inv this]
  have has: "\<exists>r' \<in> set recs1. sourceKey (pi_Source r') = ?k"
    using Cons.prems(1) by (auto simp: recs1_def)
  have new: "r' \<in> set recs \<or> r' = ?r" if "r' \<in> set recs1" for r'
    using that by (auto simp: recs1_def split: if_splits)
  have sub: "set recs \<subseteq> set recs1" by (auto simp: recs1_def)
  show ?case
  proof (intro conjI)
    show "set recs \<subseteq> set recs'" using IH sub by blast
    show "\<forall>k \<in> set seen'. \<exists>r \<in> set recs'. sourceKey (pi_Source r) = k" using IH by blast
    have "\<exists>r' \<in> set recs'. sourceKey (pi_Source r') = ?k" using IH has by blast
    then show "\<forall>x \<in> set (r # rs). \<exists>r' \<in> set recs'. sourceKey (pi_Source r') =
        sourceKey ((pi_Source x)\<lparr>src_ProviderID := p\<rparr>)" using IH by simp
    show "\<forall>r' \<in> set recs'. r' \<in> set recs \<or> (\<exists>x \<in> set (r # rs).
        r' = x\<lparr>pi_Source := (pi_Source x)\<lparr>src_ProviderID := p\<rparr>\<rparr>)"
    proof
      fix r' assume "r' \<in> set recs'"
      with IH consider "r' \<in> set recs1" | x where "x \<in> set rs" "r' = x\<lparr>pi_Source := (pi_Source x)\<lparr>src_ProviderID := p\<rparr>\<rparr>"
        by blast
      then show "r' \<in> set recs \<or> (\<exists>x \<in> set (r # rs). r' = x\<lparr>pi_Source := (pi_Source x)\<lparr>src_ProviderID := p\<rparr>\<rparr>)"
        using new by cases auto
    qed
  qed
qed simp

lemma find_candidates_exact_set:
  assumes "FindCandidates query s = Inr cs"
  shows "set cs = volume_candidate ` {v \<in> set (vals (s_operationalVolumes s)).
         ov_IntentID v \<noteq> cq_ExcludeIntentID query \<and> couldOverlap (cq_Volumes query) v}"
  using find_candidates_spec [of query s] assms by auto

lemma local_find_spec:
  "\<exists>cs sel recs. FindCandidates \<lparr>cq_ExcludeIntentID = oi_ID (q_Intent q), cq_Volumes = q_Volumes q\<rparr> s = Inr cs
     \<and> selection_ok s cs sel \<and> local_FindOperationalIntents q s = (recs, None)
     \<and> (\<forall>i \<in> set (map fst sel). \<forall>intent vs. map_of sel i = Some intent \<and> ListOperationalVolumes i s = Inr vs
          \<and> volumesForVersion vs (oi_Version intent) \<noteq> [] \<longrightarrow> local_record intent vs \<in> set recs)
     \<and> (\<forall>r \<in> set recs. \<exists>i intent vs. map_of sel i = Some intent \<and> ListOperationalVolumes i s = Inr vs
          \<and> r = local_record intent vs)"
proof -
  obtain cs where cs: "FindCandidates \<lparr>cq_ExcludeIntentID = oi_ID (q_Intent q), cq_Volumes = q_Volumes q\<rparr> s = Inr cs"
    by (simp add: FindCandidates_def Let_def)
  obtain sel where sel: "fold (select_candidate s) cs ([], []) = (sel, [])" "selection_ok s cs sel"
    using selection_fold by blast
  obtain recs where recs: "fold (candidate_record s sel) (sort (map fst sel)) ([], []) = (recs, [])"
    and new: "\<forall>i \<in> set (sort (map fst sel)). \<forall>intent vs. map_of sel i = Some intent
        \<and> ListOperationalVolumes i s = Inr vs \<and> volumesForVersion vs (oi_Version intent) \<noteq> []
        \<longrightarrow> local_record intent vs \<in> set recs"
    and src: "\<forall>r \<in> set recs. r \<in> set [] \<or> (\<exists>i \<in> set (sort (map fst sel)). \<exists>intent vs.
        map_of sel i = Some intent \<and> ListOperationalVolumes i s = Inr vs \<and> r = local_record intent vs)"
    using candidate_record_fold [of s sel "sort (map fst sel)" "[]"] by blast
  have find: "local_FindOperationalIntents q s = (recs, None)"
    by (simp add: local_FindOperationalIntents_def cs sel recs join_errors_def)
  have "\<forall>i \<in> set (map fst sel). \<forall>intent vs. map_of sel i = Some intent \<and> ListOperationalVolumes i s = Inr vs
      \<and> volumesForVersion vs (oi_Version intent) \<noteq> [] \<longrightarrow> local_record intent vs \<in> set recs"
    using new by (simp only: set_sort)
  moreover have "\<forall>r \<in> set recs. \<exists>i intent vs. map_of sel i = Some intent \<and> ListOperationalVolumes i s = Inr vs
      \<and> r = local_record intent vs"
    using src by (metis empty_iff empty_set)
  ultimately show ?thesis using cs sel(2) find by blast
qed

text \<open>
  The local provider returns every volume that could overlap of the highest eligible version of
  every other intent.
\<close>

lemma local_find_complete:
  assumes ok: "intents_ok s" and j: "j \<in> set (vals (s_operationalIntents s))"
    and el: "candidateConflictEligible (oi_Status j)" and other: "oi_ID j \<noteq> oi_ID (q_Intent q)" "oi_ID j \<noteq> []"
    and top: "\<And>k. k \<in> set (vals (s_operationalIntents s)) \<Longrightarrow> oi_ID k = oi_ID j \<Longrightarrow>
        candidateConflictEligible (oi_Status k) \<Longrightarrow> oi_Version k \<le> oi_Version j"
    and w: "w \<in> set (vals (s_operationalVolumes s))" "ov_IntentID w = oi_ID j" "ov_IntentVersion w = oi_Version j"
    and over: "couldOverlap (q_Volumes q) w"
  shows "\<exists>recs recs'. local_FindOperationalIntents q s = (recs, None)
    \<and> fst (fold (add_record ProviderLocal) recs ([], [])) = recs'
    \<and> (\<exists>r \<in> set recs'. w \<in> set (record_volumes r))"
proof -
  obtain cs sel recs where cs: "FindCandidates \<lparr>cq_ExcludeIntentID = oi_ID (q_Intent q), cq_Volumes = q_Volumes q\<rparr> s = Inr cs"
    and sel: "selection_ok s cs sel" and find: "local_FindOperationalIntents q s = (recs, None)"
    and new: "\<forall>i \<in> set (map fst sel). \<forall>intent vs. map_of sel i = Some intent \<and> ListOperationalVolumes i s = Inr vs
          \<and> volumesForVersion vs (oi_Version intent) \<noteq> [] \<longrightarrow> local_record intent vs \<in> set recs"
    and src: "\<forall>r \<in> set recs. \<exists>i intent vs. map_of sel i = Some intent \<and> ListOperationalVolumes i s = Inr vs
          \<and> r = local_record intent vs"
    using local_find_spec [of q s] by blast
  have k: "keyed intent_key (s_operationalIntents s)" using ok by (simp add: intents_ok_def)
  have look: "GetOperationalIntentVersion (oi_ID x) (oi_Version x) s = Inr x"
    if "x \<in> set (vals (s_operationalIntents s))" for x
    using that keyed_vals [OF k] by (simp add: GetOperationalIntentVersion_def)
  have "volume_candidate w \<in> set cs"
    using find_candidates_exact_set [OF cs] w over other by auto
  moreover have "eligible_version s (volume_candidate w) j"
    using look [OF j] el w by (simp add: eligible_version_def volume_candidate_def)
  ultimately obtain x where x: "map_of sel (oi_ID j) = Some x" "oi_Version j \<le> oi_Version x"
    using sel unfolding selection_ok_def by blast
  have ksel: "keyed oi_ID sel" using sel by (simp add: selection_ok_def)
  have xid: "oi_ID x = oi_ID j" using keyedD [OF ksel x(1)] by simp
  have "x \<in> set (vals sel)" using keyed_vals [OF ksel, of x] x(1) xid by simp
  then obtain c where "eligible_version s c x" using sel unfolding selection_ok_def by blast
  then have xs: "x \<in> set (vals (s_operationalIntents s))" "candidateConflictEligible (oi_Status x)"
    using vals_iff [of "s_operationalIntents s" x] keyed_distinct [OF k]
    by (auto simp: eligible_version_def GetOperationalIntentVersion_def)
  have "oi_Version x = oi_Version j" using top [OF xs(1) xid xs(2)] x(2) by simp
  with xid have xj: "x = j" using keyed_vals_inj [OF k xs(1) j] by simp
  obtain vs where vs: "ListOperationalVolumes (oi_ID j) s = Inr vs"
    "set vs = {v \<in> set (vals (s_operationalVolumes s)). ov_IntentID v = oi_ID j}"
    using list_volumes_set [OF other(2)] by blast
  have wv: "w \<in> set (volumesForVersion vs (oi_Version j))" using w vs(2) by (simp add: volumesForVersion_def)
  let ?r = "local_record j vs"
  have "oi_ID j \<in> set (map fst sel)" using x(1) map_of_SomeD [OF x(1)] by (force simp: image_iff)
  then have "?r \<in> set recs" using new x(1) vs(1) wv unfolding xj by (metis length_pos_if_in_set length_0_conv less_nat_zero_code)
  obtain recs' seen' where fold: "fold (add_record ProviderLocal) recs ([], []) = (recs', seen')" by force
  note agg = add_record_fold [OF _ fold, simplified]
  have "\<exists>r' \<in> set recs'. sourceKey (pi_Source r') = sourceKey ((pi_Source ?r)\<lparr>src_ProviderID := ProviderLocal\<rparr>)"
    using agg \<open>?r \<in> set recs\<close> by blast
  then obtain r' where r': "r' \<in> set recs'"
      "sourceKey (pi_Source r') = sourceKey ((pi_Source ?r)\<lparr>src_ProviderID := ProviderLocal\<rparr>)" by blast
  then obtain r'' where r'': "r'' \<in> set recs" "r' = r''\<lparr>pi_Source := (pi_Source r'')\<lparr>src_ProviderID := ProviderLocal\<rparr>\<rparr>"
    using agg by blast
  then obtain i y ys where y: "map_of sel i = Some y" "ListOperationalVolumes i s = Inr ys" "r'' = local_record y ys"
    using src by blast
  have "oi_ID y = i" using keyedD [OF ksel y(1)] by simp
  moreover have "src_ReferenceID (pi_Source r'') = src_ReferenceID (pi_Source ?r)"
    using sourceKey_local [where src = "pi_Source r''" and p = ProviderLocal and src' = "pi_Source ?r"] r'(2) r''(2) by simp
  ultimately have "i = oi_ID j" by (simp add: y(3) local_record_def)
  with y x(1) vs(1) xj have "r'' = ?r" by simp
  then have "w \<in> set (record_volumes r')"
    using wv by (auto simp: r''(2) record_volumes_def local_record_def)
  with find fold r'(1) show ?thesis by auto
qed

subsection \<open>The check\<close>

lemma discover_findings:
  assumes "run_state (discover ps q acc fs) \<sigma> = ((recs, fs'), \<sigma>')"
    and "\<forall>f \<in> set fs. cf_Status f = ConflictFindingStatusIndeterminate"
  shows "\<forall>f \<in> set fs'. cf_Status f = ConflictFindingStatusIndeterminate"
  using assms
proof (induction ps arbitrary: acc fs \<sigma>)
  case (Cons p ps)
  obtain found err \<sigma>1 where step: "run_state (pr_FindOperationalIntents p q) \<sigma> = ((found, err), \<sigma>1)"
    by (metis prod.exhaust)
  let ?fs = "case err of None \<Rightarrow> fs | Some e \<Rightarrow> fs @ [provider_finding (pr_ID p) e]"
  have "run_state (discover ps q (fold (add_record (pr_ID p)) found acc) ?fs) \<sigma>1 = ((recs, fs'), \<sigma>')"
    using Cons.prems(1) step by simp
  moreover have "\<forall>f \<in> set ?fs. cf_Status f = ConflictFindingStatusIndeterminate"
    using Cons.prems(2) by (auto simp: provider_finding_def split: option.splits)
  ultimately show ?case by (rule Cons.IH)
qed simp

lemma finalized_posture_clear:
  assumes "dr_Posture r = DeconflictionPostureClear"
  shows "dr_Posture (finalized r) = DeconflictionPostureClear \<longleftrightarrow>
    (\<forall>f \<in> set (dr_Findings r). postureForFinding (cf_Status f) = DeconflictionPostureClear)"
  using assms
  by (auto simp: finalized_def Let_def fold_maxPosture_clear service_finding_def postureForFinding_def)

text \<open>What a run of the check returns and leaves, given what the clock and the providers did.\<close>

lemma run_check:
  assumes "run_state (dc_now svc) \<sigma> = (t, \<sigma>1)"
    and "run_state (discoverOperationalIntents (dc_providers svc) intent volumes) \<sigma>1 = ((records, pf), (s2, w2))"
    and "volumes \<noteq> []"
  shows "run_state (check svc intent volumes) \<sigma> =
    ((Inr (finalized ((newResult intent t)\<lparr>dr_Findings := pf @ evaluateConflicts (dc_json svc) intent volumes records\<rparr>)),
      records),
     (snd (finalize ((newResult intent t)\<lparr>dr_Findings := pf @ evaluateConflicts (dc_json svc) intent volumes records\<rparr>) s2), w2))"
  using assms by (simp add: check_def finalize_eq)

lemma run_check_empty:
  assumes "run_state (dc_now svc) \<sigma> = (t, (s1, w1))"
  shows "run_state (check svc intent []) \<sigma> =
    ((Inr (finalized ((newResult intent t)\<lparr>dr_Findings := [service_finding ConflictFindingStatusIndeterminate
        ''intent has no operational volumes to check'']\<rparr>)), []),
     (snd (finalize ((newResult intent t)\<lparr>dr_Findings := [service_finding ConflictFindingStatusIndeterminate
        ''intent has no operational volumes to check'']\<rparr>) s1), w1))"
  using assms by (simp add: check_def finalize_eq)

lemma check_clear:
  assumes now: "run_state (dc_now svc) \<sigma> = (t, \<sigma>1)"
    and disc: "run_state (discoverOperationalIntents (dc_providers svc) intent volumes) \<sigma>1 = ((records, pf), \<sigma>2)"
  shows "\<exists>res. fst (fst (run_state (check svc intent volumes) \<sigma>)) = Inr res
    \<and> (dr_Posture res = DeconflictionPostureClear \<longleftrightarrow>
        volumes \<noteq> [] \<and> pf = [] \<and> evaluateConflicts (dc_json svc) intent volumes records = [])"
proof (cases "volumes = []")
  case True
  obtain s1 w1 where "\<sigma>1 = (s1, w1)" by (cases \<sigma>1)
  with True now show ?thesis
    by (simp add: run_check_empty finalized_posture_clear newResult_def service_finding_def postureForFinding_def)
next
  case False
  obtain s2 w2 where s2: "\<sigma>2 = (s2, w2)" by (cases \<sigma>2)
  let ?r = "(newResult intent t)\<lparr>dr_Findings := pf @ evaluateConflicts (dc_json svc) intent volumes records\<rparr>"
  have "\<forall>f \<in> set pf. cf_Status f = ConflictFindingStatusIndeterminate"
    using discover_findings [of _ _ _ "[]"] disc unfolding discoverOperationalIntents_def by (metis empty_iff empty_set)
  then have "(\<forall>f \<in> set pf. postureForFinding (cf_Status f) = DeconflictionPostureClear) \<longleftrightarrow> pf = []"
    by (cases pf) (auto simp: postureForFinding_def)
  moreover have "(\<forall>f \<in> set (evaluateConflicts (dc_json svc) intent volumes records).
      postureForFinding (cf_Status f) = DeconflictionPostureClear)
      \<longleftrightarrow> evaluateConflicts (dc_json svc) intent volumes records = []"
    using evaluateConflicts_status [of _ "dc_json svc" intent volumes records]
    by (cases "evaluateConflicts (dc_json svc) intent volumes records") (force simp: postureForFinding_def)+
  moreover have "dr_Posture ?r = DeconflictionPostureClear" by (simp add: newResult_def)
  note finalized_posture_clear [OF this]
  ultimately have "dr_Posture (finalized ?r) = DeconflictionPostureClear \<longleftrightarrow>
      pf = [] \<and> evaluateConflicts (dc_json svc) intent volumes records = []"
    by (simp add: ball_Un)
  with run_check [OF now disc [unfolded s2] False] False show ?thesis by simp
qed

lemma discover_local:
  "local_FindOperationalIntents \<lparr>q_Intent = intent, q_Volumes = volumes\<rparr> s = (recs, None) \<Longrightarrow>
     run_state (discoverOperationalIntents [local_provider] intent volumes) (s, w) =
       ((fst (fold (add_record ProviderLocal) recs ([], [])), []), (s, w))"
  by (simp add: discoverOperationalIntents_def local_provider_def)

text \<open>Later providers add records to those of the first and take none away.\<close>

lemma discover_mono:
  "run_state (discover ps q acc fs) \<sigma> = ((recs, fs'), \<sigma>') \<Longrightarrow> set (fst acc) \<subseteq> set recs"
proof (induction ps arbitrary: acc fs \<sigma>)
  case (Cons p ps)
  obtain rs err \<sigma>1 where step: "run_state (pr_FindOperationalIntents p q) \<sigma> = ((rs, err), \<sigma>1)"
    by (metis prod.exhaust)
  have "set (fst acc) \<subseteq> set (fst (fold (add_record (pr_ID p)) rs acc))" for rs
    by (induction rs arbitrary: acc) (force simp: add_record_def Let_def split: prod.splits if_splits)+
  with Cons step show ?case by (fastforce split: prod.splits)
qed simp

lemma discover_local_first:
  assumes "local_FindOperationalIntents \<lparr>q_Intent = intent, q_Volumes = volumes\<rparr> s = (recs, None)"
    and "run_state (discoverOperationalIntents (local_provider # ps) intent volumes) (s, w) = ((records, pf), \<sigma>')"
  shows "set (fst (fold (add_record ProviderLocal) recs ([], []))) \<subseteq> set records"
  using assms discover_mono by (fastforce simp: discoverOperationalIntents_def local_provider_def)

lemma clear_check_apart:
  assumes "dc_providers svc = local_provider # ps"
    and now: "run_state (dc_now svc) \<sigma> = (t, (s, w))" and ok: "intents_ok s"
    and res: "fst (fst (run_state (check svc intent volumes) \<sigma>)) = Inr res"
      "dr_Posture res = DeconflictionPostureClear"
    and j: "j \<in> set (vals (s_operationalIntents s))" "candidateConflictEligible (oi_Status j)"
      "oi_ID j \<noteq> oi_ID intent" "oi_ID j \<noteq> []"
    and top: "\<forall>k \<in> set (vals (s_operationalIntents s)). oi_ID k = oi_ID j \<and> candidateConflictEligible (oi_Status k)
        \<longrightarrow> oi_Version k \<le> oi_Version j"
    and u: "u \<in> set (vals (s_operationalVolumes s))" "ov_IntentID u = oi_ID j" "ov_IntentVersion u = oi_Version j"
    and v: "v \<in> set volumes"
  shows "apart (dc_json svc) v u"
proof -
  let ?q = "\<lparr>q_Intent = intent, q_Volumes = volumes\<rparr>"
  obtain recs where find: "local_FindOperationalIntents ?q s = (recs, None)" using local_find_spec [of ?q s] by blast
  obtain records pf \<sigma>' where
    disc: "run_state (discoverOperationalIntents (dc_providers svc) intent volumes) (s, w) = ((records, pf), \<sigma>')"
    by (metis prod.exhaust)
  then have sub: "set (fst (fold (add_record ProviderLocal) recs ([], []))) \<subseteq> set records"
    unfolding assms(1) by (rule discover_local_first [OF find])
  have none: "evaluateConflicts (dc_json svc) intent volumes records = []"
    using check_clear [OF now disc] res by auto
  then have pl: "placed (dc_json svc) v" using v by (simp add: evaluateConflicts_Nil)
  show ?thesis
  proof (cases "couldOverlap volumes u")
    case True
    obtain r where "r \<in> set (fst (fold (add_record ProviderLocal) recs ([], [])))" "u \<in> set (record_volumes r)"
      using local_find_complete [OF ok j(1,2), where q = ?q and w = u] j(3,4) top u True find by auto
    with none v sub show ?thesis by (auto simp: evaluateConflicts_Nil)
  next
    case False
    with could_overlap_complete [OF v pl] show ?thesis by blast
  qed
qed

section \<open>Properties\<close>

text \<open>
  C33: what "clear" means. The check always returns a result. Its posture is clear exactly when the
  intent has volumes, no provider failed, every volume can be placed, and every volume of every
  peer a provider reported has usable dimensions and is apart from each of them. Anything that
  cannot be decided is not clear.
\<close>

theorem check_posture_clear_iff:
  assumes "run_state (dc_now svc) \<sigma> = (t, \<sigma>1)"
    and "run_state (discoverOperationalIntents (dc_providers svc) intent volumes) \<sigma>1 = ((records, failures), \<sigma>2)"
  shows "\<exists>res. fst (fst (run_state (check svc intent volumes) \<sigma>)) = Inr res
    \<and> (dr_Posture res = DeconflictionPostureClear \<longleftrightarrow>
        volumes \<noteq> [] \<and> failures = []
        \<and> (\<forall>v \<in> set volumes. placed (dc_json svc) v
             \<and> (\<forall>r \<in> set records. \<forall>w \<in> set (record_volumes r).
                  dimensionsUsable w \<and> apart (dc_json svc) v w)))"
  using check_clear [OF assms] by (simp add: evaluateConflicts_Nil)

lemma sample_run:
  "run_state (dc_now sample_checker) (two_intent_store, ()) = (5, (two_intent_store, ()))"
  "dc_providers sample_checker = [local_provider]" "dc_json sample_checker = square_json"
  by (simp_all add: sample_checker_def)

lemma two_intents:
  "vals (s_operationalVolumes two_intent_store) = [other_volume]"
  "s_operationalIntents two_intent_store = s_operationalIntents (store_intent other_intent sample_store)"
  by (simp_all add: two_intent_store_def vals_def)

lemma sample_local:
  "local_FindOperationalIntents \<lparr>q_Intent = sample_intent, q_Volumes = [placed_volume]\<rparr> two_intent_store = ([], None)"
proof -
  have "dimensionsUsable placed_volume" using placed_usable [OF square_placed] .
  then have "\<not> couldOverlap [placed_volume] other_volume"
    by (simp add: couldOverlap_def other_volume_def dimensionsUsable_def placed_volume_def sample_volume_def)
  then have "FindCandidates \<lparr>cq_ExcludeIntentID = oi_ID sample_intent, cq_Volumes = [placed_volume]\<rparr>
      two_intent_store = Inr []"
    by (simp add: FindCandidates_def two_intents(1) Let_def) (simp add: vals_def sort_slice_def)
  then show ?thesis by (simp add: local_FindOperationalIntents_def join_errors_def)
qed

lemma sample_discover:
  "run_state (discoverOperationalIntents (dc_providers sample_checker) sample_intent [placed_volume])
     (two_intent_store, ()) = (([], []), (two_intent_store, ()))"
  unfolding sample_run using discover_local [OF sample_local] by simp

theorem check_posture_clear_iff_witness:
  "\<exists>res. fst (fst (run_state (check sample_checker sample_intent [placed_volume]) (two_intent_store, ()))) = Inr res
     \<and> dr_Posture res = DeconflictionPostureClear"
  using check_posture_clear_iff [OF sample_run(1) sample_discover] by (simp add: sample_run)



text \<open>
  The check records what it returns. Afterwards the store holds, for the intent version and the
  rule, exactly the findings of the result, in place of earlier ones; findings of other
  intents, versions and rules stay. Every finding but a clear one is marked as blocking, and the
  posture is the gravest of the findings.
\<close>

theorem check_records_findings:
  assumes "run_state (dc_now svc) \<sigma> = (t, \<sigma>1)"
    and "run_state (discoverOperationalIntents (dc_providers svc) intent volumes) \<sigma>1 = ((records, failures), (s2, w2))"
    and "volumes \<noteq> []"
  shows "\<exists>res s'. run_state (check svc intent volumes) \<sigma> = ((Inr res, records), (s', w2))
    \<and> s_conflictFindings s' = filter (\<lambda>f. \<not> finding_in_scope (oi_ID intent) (oi_Version intent) deconflictionRuleVersion f)
        (s_conflictFindings s2) @ dr_Findings res
    \<and> dr_Findings res \<noteq> []
    \<and> list_all (finding_in_scope (oi_ID intent) (oi_Version intent) deconflictionRuleVersion) (dr_Findings res)
    \<and> list_all (\<lambda>f. cf_Blocking f = (cf_Status f \<noteq> ConflictFindingStatusClear)) (dr_Findings res)
    \<and> postureRank (dr_Posture res) =
        Max ((\<lambda>f. postureRank (postureForFinding (cf_Status f))) ` set (dr_Findings res))"
proof -
  let ?r = "(newResult intent t)\<lparr>dr_Findings := failures @ evaluateConflicts (dc_json svc) intent volumes records\<rparr>"
  let ?fs = "dr_Findings (finalized ?r)"
  have int: "dr_Intent ?r = intent" by (simp add: newResult_def)
  have ne: "?fs \<noteq> []" by (simp add: finalized_def Let_def)
  have blk: "list_all (\<lambda>f. cf_Blocking f = (cf_Status f \<noteq> ConflictFindingStatusClear)) ?fs"
    by (simp add: finalized_def Let_def list_all_iff)
  have post: "dr_Posture (finalized ?r) = fold (\<lambda>f p. maxPosture p (cf_Status f)) ?fs DeconflictionPostureClear"
    by (simp add: finalized_def Let_def newResult_def)
  have one: "postureRank DeconflictionPostureClear \<le> Max ((\<lambda>f. postureRank (postureForFinding (cf_Status f))) ` set ?fs)"
  proof -
    obtain f where f: "f \<in> set ?fs" using ne by (cases ?fs) auto
    have "postureRank DeconflictionPostureClear \<le> postureRank q" for q by (cases q) (simp_all add: postureRank_def)
    also have "postureRank (postureForFinding (cf_Status f))
        \<le> Max ((\<lambda>f. postureRank (postureForFinding (cf_Status f))) ` set ?fs)" using f by simp
    finally show ?thesis .
  qed
  have "postureRank (dr_Posture (finalized ?r)) =
      Max ((\<lambda>f. postureRank (postureForFinding (cf_Status f))) ` set ?fs)"
    unfolding post fold_maxPosture_rank using ne one by (subst Max_insert) (simp_all add: max_absorb2)
  then show ?thesis
    using run_check [OF assms] ne blk finalized_scope [of ?r] int finalize_eq [of ?r s2] by simp
qed

theorem check_records_findings_witness:
  "\<exists>res s'. run_state (check sample_checker sample_intent [placed_volume]) (two_intent_store, ()) = ((Inr res, []), (s', ()))
     \<and> dr_Findings res \<noteq> []"
  using check_records_findings [OF sample_run(1) sample_discover] by auto

end
