(* ===== verification/Store_Fleet.thy ===== *)
theory Store_Fleet
  imports Store_State
begin

text \<open>
  The registers of the in-memory store that other components only read back: operators, aircraft,
  batteries and their installations, operating profiles and limits, maintenance, authorizations,
  preflight checks, conformance records, evidence, reviews, compliance findings and personnel.
  The maps fulfil the contract \<open>upsert_table\<close>, the slices with identities \<open>id_log\<close>; an aircraft
  never has two batteries installed.
\<close>

section \<open>Definitions\<close>

subsection \<open>Operators, aircraft, batteries\<close>

definition UpsertOperator :: "Operator \<Rightarrow> Store \<Rightarrow> go_error option \<times> Store" where
  "UpsertOperator operator s =
     (None, s\<lparr>s_operators := AList.update (op_ID operator) operator (s_operators s)\<rparr>)"

definition GetOperator :: "string \<Rightarrow> Store \<Rightarrow> Operator result" where
  "GetOperator operatorID s = found (map_of (s_operators s) operatorID)"

definition ListOperators :: "Store \<Rightarrow> Operator list result" where
  "ListOperators s = Inr (sort_slice (\<lambda>a b. op_Name a < op_Name b) (vals (s_operators s)))"

definition CreateAircraft :: "Aircraft \<Rightarrow> Store \<Rightarrow> go_error option \<times> Store" where
  "CreateAircraft aircraft s =
     (None, s\<lparr>s_aircraft := AList.update (ac_ID aircraft) aircraft (s_aircraft s)\<rparr>)"

definition GetAircraft :: "string \<Rightarrow> Store \<Rightarrow> Aircraft result" where
  "GetAircraft aircraftID s = found (map_of (s_aircraft s) aircraftID)"

definition ListAircraft :: "Store \<Rightarrow> Aircraft list result" where
  "ListAircraft s = Inr (sort_slice (\<lambda>a b. ac_ID a < ac_ID b) (vals (s_aircraft s)))"

definition CreateBattery :: "Battery \<Rightarrow> Store \<Rightarrow> go_error option \<times> Store" where
  "CreateBattery battery s =
     (None, s\<lparr>s_batteries := AList.update (bat_ID battery) battery (s_batteries s)\<rparr>)"

definition GetBattery :: "string \<Rightarrow> Store \<Rightarrow> Battery result" where
  "GetBattery batteryID s = found (map_of (s_batteries s) batteryID)"

definition ListBatteries :: "Store \<Rightarrow> Battery list result" where
  "ListBatteries s = Inr (sort_slice (\<lambda>a b. bat_ID a < bat_ID b) (vals (s_batteries s)))"

text \<open>The loop of \<open>RecordBatteryInstallation\<close>: the first installation that stands in the way.\<close>

fun installation_conflict ::
  "BatteryInstallation \<Rightarrow> BatteryInstallation list \<Rightarrow> go_error option" where
  "installation_conflict installation [] = None"
| "installation_conflict installation (existing # rest) =
     (if bi_ID existing = bi_ID installation then Some ErrAlreadyExists
      else if bi_AircraftID existing = bi_AircraftID installation \<and> bi_RemovedAt existing = None
      then Some ErrVersionConflict
      else installation_conflict installation rest)"

definition RecordBatteryInstallation ::
  "BatteryInstallation \<Rightarrow> Store \<Rightarrow> go_error option \<times> Store" where
  "RecordBatteryInstallation installation s =
     (case installation_conflict installation (s_batteryInstallations s) of
        Some e \<Rightarrow> (Some e, s)
      | None \<Rightarrow>
          (None, s\<lparr>s_batteryInstallations := s_batteryInstallations s @ [installation]\<rparr>))"

definition GetActiveBatteryInstallation ::
  "string \<Rightarrow> Store \<Rightarrow> BatteryInstallation option result" where
  "GetActiveBatteryInstallation aircraftID s =
     Inr (select_best (\<lambda>item active. bi_InstalledAt item > bi_InstalledAt active)
       (filter (\<lambda>i. bi_AircraftID i = aircraftID \<and> bi_RemovedAt i = None)
         (s_batteryInstallations s)))"

subsection \<open>Operating profiles, limits, maintenance\<close>

definition UpsertAircraftOperatingProfile ::
  "AircraftOperatingProfile \<Rightarrow> Store \<Rightarrow> go_error option \<times> Store" where
  "UpsertAircraftOperatingProfile profile s =
     (None, s\<lparr>s_operatingProfiles :=
        AList.update (aop_AircraftID profile) profile (s_operatingProfiles s)\<rparr>)"

definition GetAircraftOperatingProfile ::
  "string \<Rightarrow> Store \<Rightarrow> AircraftOperatingProfile option result" where
  "GetAircraftOperatingProfile aircraftID s = Inr (map_of (s_operatingProfiles s) aircraftID)"

definition ListOperatingLimits :: "string \<Rightarrow> Store \<Rightarrow> OperatingLimit list result" where
  "ListOperatingLimits aircraftID s =
     Inr (sort_slice (\<lambda>a b. ol_Name a < ol_Name b)
       (filter (\<lambda>l. ol_AircraftID l = aircraftID) (vals (s_operatingLimits s))))"

definition UpsertOperatingLimit :: "OperatingLimit \<Rightarrow> Store \<Rightarrow> go_error option \<times> Store" where
  "UpsertOperatingLimit limit s =
     (None, s\<lparr>s_operatingLimits := AList.update (ol_ID limit) limit (s_operatingLimits s)\<rparr>)"

definition RecordMaintenanceEvent :: "MaintenanceEvent \<Rightarrow> Store \<Rightarrow> go_error option \<times> Store" where
  "RecordMaintenanceEvent event s =
     (None, s\<lparr>s_maintenanceEvents := s_maintenanceEvents s @ [event]\<rparr>)"

definition ListMaintenanceEvents :: "string \<Rightarrow> Store \<Rightarrow> MaintenanceEvent list result" where
  "ListMaintenanceEvents aircraftID s =
     Inr (sort_slice (\<lambda>a b. me_OpenedAt a > me_OpenedAt b)
       (filter (\<lambda>e. aircraftID = [] \<or> me_AircraftID e = aircraftID) (s_maintenanceEvents s)))"

subsection \<open>Authorizations, preflight checks\<close>

definition UpsertRegulatoryAuthorization ::
  "RegulatoryAuthorization \<Rightarrow> Store \<Rightarrow> go_error option \<times> Store" where
  "UpsertRegulatoryAuthorization authorization s =
     (None, s\<lparr>s_authorizations :=
        AList.update (ra_ID authorization) authorization (s_authorizations s)\<rparr>)"

definition GetRegulatoryAuthorization :: "string \<Rightarrow> Store \<Rightarrow> RegulatoryAuthorization result" where
  "GetRegulatoryAuthorization authorizationID s =
     found (map_of (s_authorizations s) authorizationID)"

definition ListRegulatoryAuthorizations ::
  "string \<Rightarrow> Store \<Rightarrow> RegulatoryAuthorization list result" where
  "ListRegulatoryAuthorizations operatorID s =
     Inr (sort_slice (\<lambda>a b. ra_ValidFrom a < ra_ValidFrom b)
       (filter (\<lambda>a. operatorID = [] \<or> ra_OperatorID a = operatorID) (vals (s_authorizations s))))"

definition RecordPreflightCheck :: "PreflightCheck \<Rightarrow> Store \<Rightarrow> go_error option \<times> Store" where
  "RecordPreflightCheck check s =
     (None, s\<lparr>s_preflightChecks := upsert_by pc_ID check (s_preflightChecks s)\<rparr>)"

definition ListPreflightChecks :: "string \<Rightarrow> Store \<Rightarrow> PreflightCheck list result" where
  "ListPreflightChecks intentID s =
     Inr (sort_slice (\<lambda>a b. pc_CapturedAt a < pc_CapturedAt b)
       (filter (\<lambda>c. intentID = [] \<or> pc_IntentID c = intentID) (s_preflightChecks s)))"

subsection \<open>Conformance, evidence, reviews\<close>

definition RecordConformanceEvent :: "ConformanceEvent \<Rightarrow> Store \<Rightarrow> go_error option \<times> Store" where
  "RecordConformanceEvent event s =
     (None, s\<lparr>s_conformanceEvents := upsert_by cev_ID event (s_conformanceEvents s)\<rparr>)"

definition ListConformanceEvents :: "string \<Rightarrow> Store \<Rightarrow> ConformanceEvent list result" where
  "ListConformanceEvents flightID s =
     Inr (sort_slice (\<lambda>a b. cev_OccurredAt a < cev_OccurredAt b)
       (filter (\<lambda>e. flightID = [] \<or> cev_FlightID e = flightID) (s_conformanceEvents s)))"

definition UpsertConformanceSummary ::
  "ConformanceSummary \<Rightarrow> Store \<Rightarrow> go_error option \<times> Store" where
  "UpsertConformanceSummary summary s =
     (None, s\<lparr>s_conformanceSummaries :=
        AList.update (conformanceSummaryKey summary) summary (s_conformanceSummaries s)\<rparr>)"

definition newer_summary :: "ConformanceSummary \<Rightarrow> ConformanceSummary \<Rightarrow> bool" where
  "newer_summary candidate selected \<longleftrightarrow> cs_IntentVersion candidate > cs_IntentVersion selected
     \<or> (cs_IntentVersion candidate = cs_IntentVersion selected
        \<and> cs_UpdatedAt candidate > cs_UpdatedAt selected)"

definition GetConformanceSummary :: "string \<Rightarrow> Store \<Rightarrow> ConformanceSummary option result" where
  "GetConformanceSummary intentID s =
     Inr (select_best newer_summary
       (filter (\<lambda>c. cs_IntentID c = intentID) (vals (s_conformanceSummaries s))))"

definition ListConformanceSummaries :: "string \<Rightarrow> Store \<Rightarrow> ConformanceSummary list result" where
  "ListConformanceSummaries intentID s =
     Inr (sort_slice (\<lambda>a b. cs_UpdatedAt a > cs_UpdatedAt b)
       (filter (\<lambda>c. intentID = [] \<or> cs_IntentID c = intentID) (vals (s_conformanceSummaries s))))"

definition RecordEvidence :: "EvidenceRecord \<Rightarrow> Store \<Rightarrow> go_error option \<times> Store" where
  "RecordEvidence rec s =
     (None, s\<lparr>s_evidenceRecords := AList.update (ev_ID rec) rec (s_evidenceRecords s)\<rparr>)"

definition ListEvidence :: "string \<Rightarrow> Store \<Rightarrow> EvidenceRecord list result" where
  "ListEvidence intentID s =
     Inr (sort_slice (\<lambda>a b. ev_CreatedAt a > ev_CreatedAt b)
       (filter (\<lambda>r. intentID = [] \<or> ev_IntentID r = intentID) (vals (s_evidenceRecords s))))"

definition RecordReportabilityReview ::
  "ReportabilityReview \<Rightarrow> Store \<Rightarrow> go_error option \<times> Store" where
  "RecordReportabilityReview review s =
     (None, s\<lparr>s_reportabilityReviews := s_reportabilityReviews s @ [review]\<rparr>)"

definition ListReportabilityReviews :: "string \<Rightarrow> Store \<Rightarrow> ReportabilityReview list result" where
  "ListReportabilityReviews intentID s =
     Inr (sort_slice (\<lambda>a b. rr_CreatedAt a > rr_CreatedAt b)
       (filter (\<lambda>r. intentID = [] \<or> rr_IntentID r = intentID) (s_reportabilityReviews s)))"

subsection \<open>Compliance findings, personnel\<close>

definition RecordComplianceFinding ::
  "ComplianceFinding \<Rightarrow> Store \<Rightarrow> go_error option \<times> Store" where
  "RecordComplianceFinding finding s =
     (None, s\<lparr>s_complianceFindings := upsert_by cof_ID finding (s_complianceFindings s)\<rparr>)"

definition ListComplianceFindings ::
  "string \<Rightarrow> string \<Rightarrow> Store \<Rightarrow> ComplianceFinding list result" where
  "ListComplianceFindings subjectType subjectID s =
     Inr (sort_slice (\<lambda>a b. cof_EvaluatedAt a > cof_EvaluatedAt b)
       (filter (\<lambda>f. \<not> (subjectType \<noteq> [] \<and> cof_SubjectType f \<noteq> subjectType)
           \<and> \<not> (subjectID \<noteq> [] \<and> cof_SubjectID f \<noteq> subjectID))
         (s_complianceFindings s)))"

definition ListComplianceFindingsForIntent ::
  "string \<Rightarrow> Store \<Rightarrow> ComplianceFinding list result" where
  "ListComplianceFindingsForIntent intentID s =
     Inr (sort_slice (\<lambda>a b. cof_EvaluatedAt a > cof_EvaluatedAt b)
       (filter (\<lambda>f. cof_IntentID f = intentID
           \<or> (cof_SubjectType f = ''operational_intent'' \<and> cof_SubjectID f = intentID))
         (s_complianceFindings s)))"

definition UpsertOperationsPersonnel ::
  "OperationsPersonnel \<Rightarrow> Store \<Rightarrow> go_error option \<times> Store" where
  "UpsertOperationsPersonnel person s =
     (None, s\<lparr>s_personnel := AList.update (per_ID person) person (s_personnel s)\<rparr>)"

definition GetOperationsPersonnel :: "string \<Rightarrow> Store \<Rightarrow> OperationsPersonnel result" where
  "GetOperationsPersonnel personID s = found (map_of (s_personnel s) personID)"

definition RecordPersonnelAssignment ::
  "PersonnelAssignment \<Rightarrow> Store \<Rightarrow> go_error option \<times> Store" where
  "RecordPersonnelAssignment assignment s =
     (None, s\<lparr>s_personnelAssignments := s_personnelAssignments s @ [assignment]\<rparr>)"

definition ListPersonnelAssignments :: "string \<Rightarrow> Store \<Rightarrow> PersonnelAssignment list result" where
  "ListPersonnelAssignments intentID s =
     Inr (sort_slice (\<lambda>a b. pa_AssignedAt a < pa_AssignedAt b)
       (filter (\<lambda>a. intentID = [] \<or> pa_IntentID a = intentID) (s_personnelAssignments s)))"

text \<open>Installations an aircraft carries now.\<close>

definition installed :: "string \<Rightarrow> BatteryInstallation list \<Rightarrow> BatteryInstallation list" where
  "installed aircraftID xs = filter (\<lambda>i. bi_AircraftID i = aircraftID \<and> bi_RemovedAt i = None) xs"

section \<open>Lemmas\<close>

subsection \<open>The maps are tables\<close>

interpretation operators: upsert_table "\<lambda>s. map_of (s_operators s)" UpsertOperator op_ID
  by unfold_locales (simp_all add: UpsertOperator_def)

interpretation aircraft: upsert_table "\<lambda>s. map_of (s_aircraft s)" CreateAircraft ac_ID
  by unfold_locales (simp_all add: CreateAircraft_def)

interpretation batteries: upsert_table "\<lambda>s. map_of (s_batteries s)" CreateBattery bat_ID
  by unfold_locales (simp_all add: CreateBattery_def)

interpretation profiles: upsert_table "\<lambda>s. map_of (s_operatingProfiles s)"
  UpsertAircraftOperatingProfile aop_AircraftID
  by unfold_locales (simp_all add: UpsertAircraftOperatingProfile_def)

interpretation limits: upsert_table "\<lambda>s. map_of (s_operatingLimits s)" UpsertOperatingLimit ol_ID
  by unfold_locales (simp_all add: UpsertOperatingLimit_def)

interpretation authorizations: upsert_table "\<lambda>s. map_of (s_authorizations s)"
  UpsertRegulatoryAuthorization ra_ID
  by unfold_locales (simp_all add: UpsertRegulatoryAuthorization_def)

interpretation summaries: upsert_table "\<lambda>s. map_of (s_conformanceSummaries s)"
  UpsertConformanceSummary conformanceSummaryKey
  by unfold_locales (simp_all add: UpsertConformanceSummary_def)

interpretation evidence: upsert_table "\<lambda>s. map_of (s_evidenceRecords s)" RecordEvidence ev_ID
  by unfold_locales (simp_all add: RecordEvidence_def)

interpretation personnel: upsert_table "\<lambda>s. map_of (s_personnel s)"
  UpsertOperationsPersonnel per_ID
  by unfold_locales (simp_all add: UpsertOperationsPersonnel_def)

subsection \<open>The slices with identities\<close>

interpretation preflight_log: id_log s_preflightChecks pc_ID RecordPreflightCheck
  by unfold_locales (simp_all add: RecordPreflightCheck_def)

interpretation conformance_log: id_log s_conformanceEvents cev_ID RecordConformanceEvent
  by unfold_locales (simp_all add: RecordConformanceEvent_def)

interpretation compliance_log: id_log s_complianceFindings cof_ID RecordComplianceFinding
  by unfold_locales (simp_all add: RecordComplianceFinding_def)

subsection \<open>The newest conformance summary\<close>

interpretation newer_summary: weak_order newer_summary
  by unfold_locales (auto simp: newer_summary_def)

subsection \<open>Battery installations\<close>

interpretation installed_later: weak_order "\<lambda>item active. bi_InstalledAt item > bi_InstalledAt active"
  by (rule weak_order_key_desc)

lemma installation_conflict_None:
  "installation_conflict b xs = None \<longleftrightarrow>
     bi_ID b \<notin> bi_ID ` set xs \<and> installed (bi_AircraftID b) xs = []"
  by (induction xs) (auto simp: installed_def)

lemma installed_append [simp]: "installed a (xs @ ys) = installed a xs @ installed a ys"
  by (simp add: installed_def)

lemma installed_other: "a \<noteq> bi_AircraftID b \<Longrightarrow> installed a [b] = []"
  by (simp add: installed_def)

lemma GetActiveBatteryInstallation_installed:
  "GetActiveBatteryInstallation a s =
     Inr (select_best (\<lambda>item active. bi_InstalledAt item > bi_InstalledAt active)
       (installed a (s_batteryInstallations s)))"
  by (simp add: GetActiveBatteryInstallation_def installed_def)

lemma installed_single: "length (installed a [b]) \<le> 1"
  by (simp add: installed_def)

text \<open>
  \<open>RecordBatteryInstallation\<close> keeps the store free of double installations: if no aircraft
  carries two batteries and no installation identity repeats, the same holds after the call,
  whether it succeeds or fails; it succeeds exactly when the identity is new and the
  aircraft carries no battery, and then the new record is the active installation of its aircraft.
\<close>

theorem battery_installation_exclusive:
  assumes "\<forall>a. length (installed a (s_batteryInstallations s)) \<le> 1"
    and "distinct_ids bi_ID (s_batteryInstallations s)"
    and "RecordBatteryInstallation b s = (e, s')"
  shows "(\<forall>a. length (installed a (s_batteryInstallations s')) \<le> 1)
    \<and> distinct_ids bi_ID (s_batteryInstallations s')
    \<and> (e = None \<longleftrightarrow> bi_ID b \<notin> bi_ID ` set (s_batteryInstallations s)
         \<and> installed (bi_AircraftID b) (s_batteryInstallations s) = [])
    \<and> (e = None \<and> bi_RemovedAt b = None \<longrightarrow>
         GetActiveBatteryInstallation (bi_AircraftID b) s' = Inr (Some b))
    \<and> (e \<noteq> None \<longrightarrow> s' = s)"
proof -
  let ?xs = "s_batteryInstallations s"
  consider (fail) e' where "installation_conflict b ?xs = Some e'" "e = Some e'" "s' = s"
    | (ok) "installation_conflict b ?xs = None" "e = None"
        "s' = s\<lparr>s_batteryInstallations := ?xs @ [b]\<rparr>"
    using assms(3) by (auto simp: RecordBatteryInstallation_def split: option.splits)
  then show ?thesis
  proof cases
    case fail
    with assms(1,2) show ?thesis using installation_conflict_None [of b ?xs] by auto
  next
    case ok
    have one: "length (installed a (?xs @ [b])) \<le> 1" for a
      using ok(1) assms(1) installed_single [of a b] installed_other [of a b]
      by (cases "a = bi_AircraftID b") (auto simp: installation_conflict_None)
    have "bi_RemovedAt b = None \<Longrightarrow> installed (bi_AircraftID b) (?xs @ [b]) = [b]"
      using ok(1) by (simp add: installation_conflict_None) (simp add: installed_def)
    then have "bi_RemovedAt b = None \<Longrightarrow>
        GetActiveBatteryInstallation (bi_AircraftID b) s' = Inr (Some b)"
      by (simp add: ok(3) GetActiveBatteryInstallation_installed select_best_def keep_better_def)
    with ok one assms(2) show ?thesis
      using installation_conflict_None [of b ?xs] by (auto simp del: installed_append)
  qed
qed

text \<open>The theorem applies: a first battery on an aircraft of an empty store.\<close>

theorem battery_installation_exclusive_witness:
  "GetActiveBatteryInstallation ''uav-1''
     (snd (RecordBatteryInstallation
        \<lparr>bi_ID = ''i1'', bi_OperatorID = [], bi_AircraftID = ''uav-1'', bi_BatteryID = ''b1'',
         bi_InstalledAt = 5, bi_RemovedAt = None\<rparr> NewStore))
   = Inr (Some \<lparr>bi_ID = ''i1'', bi_OperatorID = [], bi_AircraftID = ''uav-1'', bi_BatteryID = ''b1'',
         bi_InstalledAt = 5, bi_RemovedAt = None\<rparr>)"
  using battery_installation_exclusive [of NewStore
      "\<lparr>bi_ID = ''i1'', bi_OperatorID = [], bi_AircraftID = ''uav-1'', bi_BatteryID = ''b1'',
         bi_InstalledAt = 5, bi_RemovedAt = None\<rparr>", OF _ _ prod.collapse [symmetric]]
  by (simp add: NewStore_def installed_def)

end
