(* ===== verification/Intent_Service.thy ===== *)
theory Intent_Service
  imports Deconfliction Store_Fleet
begin

text \<open>
  \<open>internal/service/intent_service.go\<close> and \<open>version_helpers.go\<close>: the lifecycle of an operational
  intent as the API offers it, from draft to completion, its volumes, its modification, and the
  gates of activation. The deconfliction service is reached through the interface
  \<open>DeconflictionCoordinator\<close>; \<open>uuid.Parse\<close> and \<open>uuid.NewString\<close> are parameters.
\<close>

section \<open>Definitions\<close>

subsection \<open>Collaborators and requests\<close>

record 'w DeconflictionCoordinator =
  co_CheckIntent :: "string \<Rightarrow> ('w, DeconflictionResult result) srv"
  co_PublishingEnabled :: bool
  co_ValidatePublication :: "OperationalIntent \<Rightarrow> OperationalIntentExternalState \<Rightarrow> ('w, go_error option) srv"
  co_PublicationRequest ::
    "OperationalIntent \<Rightarrow> OperationalIntentExternalState \<Rightarrow> ('w, OperationalIntentPublication) srv"
  co_GetPublication :: "string \<Rightarrow> ('w, OperationalIntentPublication result) srv"
  co_ReconcileIntent :: "string \<Rightarrow> ('w, go_error option) srv"

text \<open>\<open>is_parseUUID\<close> yields the version of a UUID and its canonical text.\<close>

record 'w IntentService =
  is_now :: "('w, time) srv"
  is_deconfliction :: "'w DeconflictionCoordinator option"
  is_newUUID :: "('w, string) srv"
  is_parseUUID :: "string \<Rightarrow> (int \<times> string) option"

record CreateIntentRequest =
  cir_ID :: string
  cir_OperatorID :: string
  cir_AircraftID :: string
  cir_AuthorizationID :: string
  cir_Name :: string
  cir_Summary :: string
  cir_UseCase :: string
  cir_AuthorizationPath :: AuthorizationPath
  cir_PopulationCategory :: PopulationCategory
  cir_ConformanceRequired :: bool
  cir_OperatingAreaID :: string
  cir_RouteSummary :: string
  cir_PlannedStartAt :: time
  cir_PlannedEndAt :: time
  cir_MinAltitudeFtAGL :: "real option"
  cir_MaxAltitudeFtAGL :: "real option"
  cir_SupervisorID :: string
  cir_FlightCoordinatorID :: string

record AddOperationalVolumeRequest =
  avr_ID :: string
  avr_Sequence :: int
  avr_GeometryURI :: string
  avr_GeoJSON :: string
  avr_MinAltitudeM :: "real option"
  avr_MaxAltitudeM :: "real option"
  avr_AltitudeRef :: AltitudeReference
  avr_StartsAt :: time
  avr_EndsAt :: time
  avr_BufferMeters :: "real option"
  avr_VolumeType :: OperationalVolumeType

record ModifyIntentFields =
  mif_Name :: "string option"
  mif_Summary :: "string option"
  mif_UseCase :: "string option"
  mif_AuthorizationPath :: "AuthorizationPath option"
  mif_PopulationCategory :: "PopulationCategory option"
  mif_ConformanceRequired :: "bool option"
  mif_OperatingAreaID :: "string option"
  mif_RouteSummary :: "string option"
  mif_PlannedStartAt :: "time option"
  mif_PlannedEndAt :: "time option"
  mif_MinAltitudeFtAGL :: "real option"
  mif_MaxAltitudeFtAGL :: "real option"
  mif_SupervisorID :: "string option"
  mif_FlightCoordinatorID :: "string option"

text \<open>A nil slice of volumes is \<open>None\<close>, an empty one \<open>Some []\<close>.\<close>

record ModifyIntentRequest =
  mir_Reason :: string
  mir_ExpectedVersion :: int
  mir_Intent :: ModifyIntentFields
  mir_Volumes :: "AddOperationalVolumeRequest list option"

record ModifyIntentResult =
  mr_Intent :: OperationalIntent
  mr_Volumes :: "OperationalVolume list"
  mr_SupersedesIntentID :: string
  mr_SupersedesVersion :: int

definition publishing :: "'w IntentService \<Rightarrow> 'w DeconflictionCoordinator option" where
  "publishing svc = (case is_deconfliction svc of
     None \<Rightarrow> None | Some co \<Rightarrow> if co_PublishingEnabled co then Some co else None)"

definition canonicalDSSIntentID :: "'w IntentService \<Rightarrow> string \<Rightarrow> string result" where
  "canonicalDSSIntentID svc i =
     (case is_parseUUID svc i of
        None \<Rightarrow> Inl (because ErrValidation ''id must be a UUIDv4 when DSS publication is enabled'')
      | Some (version, canonical) \<Rightarrow>
          if version \<noteq> 4 then Inl (because ErrValidation ''id must be a UUIDv4 when DSS publication is enabled'')
          else Inr canonical)"

text \<open>The error of a transition the lifecycle does not have.\<close>

definition invalid_transition :: "IntentStatus \<Rightarrow> IntentStatus \<Rightarrow> go_error" where
  "invalid_transition a b = because ErrInvalidTransition (IntentStatus_text a @ '' -> '' @ IntentStatus_text b)"

subsection \<open>Creation\<close>

definition created_intent :: "CreateIntentRequest \<Rightarrow> string \<Rightarrow> time \<Rightarrow> OperationalIntent" where
  "created_intent req i now = zero_OperationalIntent\<lparr>
     oi_ID := i, oi_OperatorID := cir_OperatorID req, oi_AircraftID := cir_AircraftID req,
     oi_AuthorizationID := cir_AuthorizationID req, oi_Version := 1, oi_Name := cir_Name req,
     oi_Summary := cir_Summary req, oi_UseCase := cir_UseCase req,
     oi_AuthorizationPath := (if cir_AuthorizationPath req = AuthorizationPathOther []
       then AuthorizationPathUnknown else cir_AuthorizationPath req),
     oi_PopulationCategory := (if cir_PopulationCategory req = PopulationCategoryOther []
       then PopulationCategoryUnknown else cir_PopulationCategory req),
     oi_Status := IntentStatusDraft, oi_ConformanceRequired := cir_ConformanceRequired req,
     oi_OperatingAreaID := cir_OperatingAreaID req, oi_RouteSummary := cir_RouteSummary req,
     oi_PlannedStartAt := cir_PlannedStartAt req, oi_PlannedEndAt := cir_PlannedEndAt req,
     oi_MinAltitudeFtAGL := cir_MinAltitudeFtAGL req, oi_MaxAltitudeFtAGL := cir_MaxAltitudeFtAGL req,
     oi_SupervisorID := cir_SupervisorID req, oi_FlightCoordinatorID := cir_FlightCoordinatorID req,
     oi_UpdatedAt := now\<rparr>"

text \<open>The identity of a new intent: generated, canonical when publishing, or as given.\<close>

definition new_intent_id :: "'w IntentService \<Rightarrow> string \<Rightarrow> ('w, string result) srv" where
  "new_intent_id svc raw =
     (if TrimSpace raw = [] then do { i \<leftarrow> is_newUUID svc; State_Monad.return (Inr i) }
      else case publishing svc of
        Some co \<Rightarrow> State_Monad.return (canonicalDSSIntentID svc (TrimSpace raw))
      | None \<Rightarrow> State_Monad.return (Inr (TrimSpace raw)))"

definition CreateIntent :: "'w IntentService \<Rightarrow> CreateIntentRequest \<Rightarrow> ('w, OperationalIntent result) srv" where
  "CreateIntent svc req = do {
     now \<leftarrow> is_now svc;
     ident \<leftarrow> new_intent_id svc (cir_ID req);
     case ident of
       Inl e \<Rightarrow> State_Monad.return (Inl e)
     | Inr i \<Rightarrow>
       if TrimSpace (cir_AircraftID req) = []
       then State_Monad.return (Inl (because ErrValidation ''aircraft_id is required''))
       else if IsZero (cir_PlannedStartAt req) \<or> IsZero (cir_PlannedEndAt req)
       then State_Monad.return (Inl (because ErrValidation ''planned start and end are required''))
       else if \<not> cir_PlannedStartAt req < cir_PlannedEndAt req
       then State_Monad.return (Inl (because ErrValidation ''planned_start_at must be before planned_end_at''))
       else do {
         err \<leftarrow> with_store (CreateOperationalIntent (created_intent req i now));
         case err of
           Some e \<Rightarrow> State_Monad.return (Inl (wrap ''create operational intent'' e))
         | None \<Rightarrow> State_Monad.return (Inr (created_intent req i now))
       }
   }"

definition load_intent :: "string \<Rightarrow> ('w, OperationalIntent result) srv" where
  "load_intent intentID = reads (\<lambda>s. case GetOperationalIntent intentID s of
     Inl e \<Rightarrow> Inl (wrap ''get operational intent'' e) | Inr intent \<Rightarrow> Inr intent)"

definition GetIntent :: "string \<Rightarrow> ('w, OperationalIntent result) srv" where
  "GetIntent intentID = load_intent intentID"

subsection \<open>Volumes\<close>

text \<open>\<open>UnixNano\<close> counts from 1970; it is exact for instants an \<open>int64\<close> can hold.\<close>

definition UnixNano :: "time \<Rightarrow> int" where
  "UnixNano t = t - 62135596800 * 1000000000"

definition request_volume ::
  "OperationalIntent \<Rightarrow> AddOperationalVolumeRequest \<Rightarrow> string \<Rightarrow> real \<Rightarrow> real \<Rightarrow> time \<Rightarrow> OperationalVolume" where
  "request_volume intent req i lo hi now = \<lparr>
     ov_ID = i, ov_OperatorID = oi_OperatorID intent, ov_IntentID = oi_ID intent,
     ov_IntentVersion = oi_Version intent, ov_Sequence = avr_Sequence req,
     ov_GeometryURI = avr_GeometryURI req, ov_GeoJSON = avr_GeoJSON req, ov_MinAltitudeM = lo,
     ov_MaxAltitudeM = hi, ov_AltitudeRef = avr_AltitudeRef req, ov_StartsAt = avr_StartsAt req,
     ov_EndsAt = avr_EndsAt req, ov_BufferMeters = avr_BufferMeters req, ov_VolumeType = avr_VolumeType req,
     ov_CreatedAt = now, ov_UpdatedAt = now\<rparr>"

definition checked_volume ::
  "OperationalIntent \<Rightarrow> AddOperationalVolumeRequest \<Rightarrow> string \<Rightarrow> time \<Rightarrow> OperationalVolume result" where
  "checked_volume intent req i now =
     (case (avr_MinAltitudeM req, avr_MaxAltitudeM req) of
        (Some lo, Some hi) \<Rightarrow>
          if avr_AltitudeRef req = AltitudeReferenceOther []
          then Inl (because ErrValidation ''altitude_ref is required'')
          else Inr (request_volume intent req i lo hi now)
      | _ \<Rightarrow> Inl (because ErrValidation ''min_altitude_m and max_altitude_m are required''))"

definition AddOperationalVolume ::
  "'w IntentService \<Rightarrow> string \<Rightarrow> AddOperationalVolumeRequest \<Rightarrow> ('w, OperationalVolume result) srv" where
  "AddOperationalVolume svc intentID req = do {
     loaded \<leftarrow> load_intent intentID;
     case loaded of
       Inl e \<Rightarrow> State_Monad.return (Inl e)
     | Inr intent \<Rightarrow>
       if oi_Status intent \<noteq> IntentStatusDraft
       then State_Monad.return (Inl (because ErrInvalidTransition
              (''operational volumes are locked after draft status ('' @ IntentStatus_text (oi_Status intent) @ '')'')))
       else do {
         now \<leftarrow> is_now svc;
         let i = (if TrimSpace (avr_ID req) = [] then oi_ID intent @ ''-volume-'' @ itoa (UnixNano now)
                  else TrimSpace (avr_ID req));
         case checked_volume intent req i now of
           Inl e \<Rightarrow> State_Monad.return (Inl e)
         | Inr volume \<Rightarrow> do {
             err \<leftarrow> with_store (RecordOperationalVolume volume);
             case err of
               Some e \<Rightarrow> State_Monad.return (Inl (wrap ''record operational volume'' e))
             | None \<Rightarrow> State_Monad.return (Inr volume)
           }
       }
   }"

subsection \<open>Modification\<close>

definition apply_field :: "'a option \<Rightarrow> ('a \<Rightarrow> OperationalIntent \<Rightarrow> OperationalIntent) \<Rightarrow> OperationalIntent \<Rightarrow> OperationalIntent" where
  "apply_field v put intent = (case v of None \<Rightarrow> intent | Some x \<Rightarrow> put x intent)"

definition applyIntentModification :: "OperationalIntent \<Rightarrow> ModifyIntentFields \<Rightarrow> OperationalIntent" where
  "applyIntentModification intent mods =
     (let i = intent;
          i = apply_field (mif_Name mods) (\<lambda>x i. i\<lparr>oi_Name := x\<rparr>) i;
          i = apply_field (mif_Summary mods) (\<lambda>x i. i\<lparr>oi_Summary := x\<rparr>) i;
          i = apply_field (mif_UseCase mods) (\<lambda>x i. i\<lparr>oi_UseCase := x\<rparr>) i;
          i = apply_field (mif_AuthorizationPath mods) (\<lambda>x i. i\<lparr>oi_AuthorizationPath := x\<rparr>) i;
          i = apply_field (mif_PopulationCategory mods) (\<lambda>x i. i\<lparr>oi_PopulationCategory := x\<rparr>) i;
          i = apply_field (mif_ConformanceRequired mods) (\<lambda>x i. i\<lparr>oi_ConformanceRequired := x\<rparr>) i;
          i = apply_field (mif_OperatingAreaID mods) (\<lambda>x i. i\<lparr>oi_OperatingAreaID := x\<rparr>) i;
          i = apply_field (mif_RouteSummary mods) (\<lambda>x i. i\<lparr>oi_RouteSummary := x\<rparr>) i;
          i = apply_field (mif_PlannedStartAt mods) (\<lambda>x i. i\<lparr>oi_PlannedStartAt := x\<rparr>) i;
          i = apply_field (mif_PlannedEndAt mods) (\<lambda>x i. i\<lparr>oi_PlannedEndAt := x\<rparr>) i;
          i = apply_field (mif_MinAltitudeFtAGL mods) (\<lambda>x i. i\<lparr>oi_MinAltitudeFtAGL := Some x\<rparr>) i;
          i = apply_field (mif_MaxAltitudeFtAGL mods) (\<lambda>x i. i\<lparr>oi_MaxAltitudeFtAGL := Some x\<rparr>) i;
          i = apply_field (mif_SupervisorID mods) (\<lambda>x i. i\<lparr>oi_SupervisorID := x\<rparr>) i
      in apply_field (mif_FlightCoordinatorID mods) (\<lambda>x i. i\<lparr>oi_FlightCoordinatorID := x\<rparr>) i)"

definition validateIntentWindow :: "OperationalIntent \<Rightarrow> go_error option" where
  "validateIntentWindow intent =
     (if IsZero (oi_PlannedStartAt intent) \<or> IsZero (oi_PlannedEndAt intent)
      then Some (because ErrValidation ''planned start and end are required'')
      else if \<not> oi_PlannedStartAt intent < oi_PlannedEndAt intent
      then Some (because ErrValidation ''planned_start_at must be before planned_end_at'')
      else None)"

definition volume_request :: "OperationalVolume \<Rightarrow> AddOperationalVolumeRequest" where
  "volume_request v = \<lparr>avr_ID = ov_ID v, avr_Sequence = ov_Sequence v, avr_GeometryURI = ov_GeometryURI v,
     avr_GeoJSON = ov_GeoJSON v, avr_MinAltitudeM = Some (ov_MinAltitudeM v),
     avr_MaxAltitudeM = Some (ov_MaxAltitudeM v), avr_AltitudeRef = ov_AltitudeRef v,
     avr_StartsAt = ov_StartsAt v, avr_EndsAt = ov_EndsAt v, avr_BufferMeters = ov_BufferMeters v,
     avr_VolumeType = ov_VolumeType v\<rparr>"

definition modifyVolumeRequests ::
  "string \<Rightarrow> int \<Rightarrow> AddOperationalVolumeRequest list option \<Rightarrow> Store \<Rightarrow> AddOperationalVolumeRequest list result" where
  "modifyVolumeRequests intentID sourceVersion requested s =
     (case requested of
        Some reqs \<Rightarrow> Inr reqs
      | None \<Rightarrow>
      case ListOperationalVolumes intentID s of
        Inl e \<Rightarrow> Inl (wrap ''list operational volumes'' e)
      | Inr existing \<Rightarrow> Inr (map volume_request (volumesForVersion existing sourceVersion)))"

definition buildOperationalVolumeFromRequest ::
  "OperationalIntent \<Rightarrow> AddOperationalVolumeRequest \<Rightarrow> time \<Rightarrow> nat \<Rightarrow> OperationalVolume result" where
  "buildOperationalVolumeFromRequest intent req now index =
     (let i = (if TrimSpace (avr_ID req) = []
               then oi_ID intent @ ''-v'' @ itoa (oi_Version intent) @ ''-volume-''
                    @ itoa (if avr_Sequence req = 0 then int index + 1 else avr_Sequence req)
               else TrimSpace (avr_ID req))
      in checked_volume intent req i now)"

fun build_volumes ::
  "OperationalIntent \<Rightarrow> time \<Rightarrow> nat \<Rightarrow> AddOperationalVolumeRequest list \<Rightarrow> OperationalVolume list result" where
  "build_volumes intent now index [] = Inr []"
| "build_volumes intent now index (req # reqs) =
     (case buildOperationalVolumeFromRequest intent req now index of
        Inl e \<Rightarrow> Inl e
      | Inr volume \<Rightarrow>
          (case build_volumes intent now (Suc index) reqs of
             Inl e \<Rightarrow> Inl e
           | Inr volumes \<Rightarrow> Inr (volume # volumes)))"

text \<open>The version a modification writes: the same, or the next as a draft after acceptance.\<close>

definition modification_base :: "OperationalIntent \<Rightarrow> OperationalIntent" where
  "modification_base intent =
     (if oi_Status intent = IntentStatusAccepted
      then intent\<lparr>oi_Version := inc64 (oi_Version intent), oi_Status := IntentStatusDraft,
             oi_SubmittedAt := None, oi_AcceptedAt := None, oi_ActivatedAt := None\<rparr>
      else intent)"

definition modification_guard :: "OperationalIntent \<Rightarrow> ModifyIntentRequest \<Rightarrow> go_error option" where
  "modification_guard intent req =
     (if mir_ExpectedVersion req = 0 then Some (because ErrValidation ''expected_version is required'')
      else if mir_ExpectedVersion req \<noteq> oi_Version intent
      then Some (because ErrInvalidTransition (''expected_version '' @ itoa (mir_ExpectedVersion req)
             @ '' does not match current version '' @ itoa (oi_Version intent)))
      else if oi_Status intent = IntentStatusActive
      then Some (because ErrInvalidTransition ''active intent modification blocked'')
      else if oi_Status intent \<noteq> IntentStatusDraft \<and> oi_Status intent \<noteq> IntentStatusSubmitted
         \<and> oi_Status intent \<noteq> IntentStatusAccepted
      then Some (because ErrInvalidTransition (''cannot modify intent with status ''
             @ IntentStatus_text (oi_Status intent)))
      else None)"

text \<open>The write of a modification, and what the request answers.\<close>

definition modification_write ::
  "OperationalIntent \<Rightarrow> OperationalIntent \<Rightarrow> OperationalVolume list \<Rightarrow> ('w, ModifyIntentResult result) srv" where
  "modification_write source intent volumes = do {
     err \<leftarrow> with_store (ReplaceOperationalIntent (oi_Version source) (oi_Revision source) intent volumes);
     State_Monad.return (case err of
         Some e \<Rightarrow> Inl (
           if errors_Is e ErrVersionConflict
           then because ErrInvalidTransition ''operational intent changed during modification''
           else wrap ''replace operational intent'' e)
       | None \<Rightarrow> Inr \<lparr>
           mr_Intent = intent\<lparr>oi_Revision :=
             (if oi_Version intent = oi_Version source then inc64 (oi_Revision source) else 0)\<rparr>,
           mr_Volumes = volumes,
           mr_SupersedesIntentID = (if oi_Status source = IntentStatusAccepted then oi_ID source else []),
           mr_SupersedesVersion = (if oi_Status source = IntentStatusAccepted then oi_Version source else 0)\<rparr>)
   }"

definition ModifyIntent ::
  "'w IntentService \<Rightarrow> string \<Rightarrow> ModifyIntentRequest \<Rightarrow> ('w, ModifyIntentResult result) srv" where
  "ModifyIntent svc intentID req = do {
     loaded \<leftarrow> load_intent intentID;
     case loaded of
       Inl e \<Rightarrow> State_Monad.return (Inl e)
     | Inr source \<Rightarrow>
       case modification_guard source req of
         Some e \<Rightarrow> State_Monad.return (Inl e)
       | None \<Rightarrow> do {
           now \<leftarrow> is_now svc;
           let intent = (applyIntentModification (modification_base source) (mir_Intent req))\<lparr>oi_UpdatedAt := now\<rparr>;
           case validateIntentWindow intent of
             Some e \<Rightarrow> State_Monad.return (Inl e)
           | None \<Rightarrow> do {
               reqs \<leftarrow> reads (modifyVolumeRequests (oi_ID intent) (oi_Version source) (mir_Volumes req));
               case reqs of
                 Inl e \<Rightarrow> State_Monad.return (Inl e)
               | Inr volumeReqs \<Rightarrow>
                 case build_volumes intent now 0 volumeReqs of
                   Inl e \<Rightarrow> State_Monad.return (Inl e)
                 | Inr volumes \<Rightarrow> modification_write source intent volumes
             }
         }
   }"

subsection \<open>Transitions\<close>

text \<open>The last statements of every transition: the store's write, its error, the new revision.\<close>

definition commit ::
  "(OperationalIntent \<Rightarrow> int \<Rightarrow> Store \<Rightarrow> go_error option \<times> Store) \<Rightarrow> string \<Rightarrow> OperationalIntent \<Rightarrow> int
    \<Rightarrow> ('w, OperationalIntent result) srv" where
  "commit write_op failure intent expectedRevision = do {
     err \<leftarrow> with_store (write_op intent expectedRevision);
     State_Monad.return (case err of
         Some e \<Rightarrow> Inl (wrap failure e)
       | None \<Rightarrow> Inr (intent\<lparr>oi_Revision := inc64 expectedRevision\<rparr>))
   }"

definition transitionIntent ::
  "'w IntentService \<Rightarrow> string \<Rightarrow> IntentStatus \<Rightarrow> IntentStatus list
    \<Rightarrow> (OperationalIntent \<Rightarrow> time \<Rightarrow> OperationalIntent) \<Rightarrow> ('w, OperationalIntent result) srv" where
  "transitionIntent svc intentID next allowed mutate = do {
     loaded \<leftarrow> load_intent intentID;
     case loaded of
       Inl e \<Rightarrow> State_Monad.return (Inl e)
     | Inr intent \<Rightarrow>
       if oi_Status intent \<notin> set allowed
       then State_Monad.return (Inl (invalid_transition (oi_Status intent) next))
       else do {
         now \<leftarrow> is_now svc;
         let intent' = mutate (intent\<lparr>oi_Status := next, oi_UpdatedAt := now\<rparr>) now;
         commit UpdateOperationalIntent ''update operational intent'' intent' (oi_Revision intent)
       }
   }"

text \<open>The write with a request for withdrawal; identities the DSS cannot know are only written.\<close>

definition withdrawal_write ::
  "'w IntentService \<Rightarrow> 'w DeconflictionCoordinator \<Rightarrow> OperationalIntentExternalState \<Rightarrow> OperationalIntent \<Rightarrow> int
    \<Rightarrow> ('w, OperationalIntent result) srv" where
  "withdrawal_write svc co desired intent expectedRevision =
     (case canonicalDSSIntentID svc (oi_ID intent) of
        Inl _ \<Rightarrow> commit UpdateOperationalIntent ''update legacy operational intent'' intent expectedRevision
      | Inr _ \<Rightarrow> do {
          publication \<leftarrow> co_PublicationRequest co intent desired;
          commit (\<lambda>i r. UpdateOperationalIntentAndRequestPublication i r publication)
            ''update operational intent and request DSS withdrawal'' intent expectedRevision
        })"

definition transitionIntentWithPublication ::
  "'w IntentService \<Rightarrow> string \<Rightarrow> IntentStatus \<Rightarrow> IntentStatus list
    \<Rightarrow> (OperationalIntent \<Rightarrow> time \<Rightarrow> OperationalIntent) \<Rightarrow> OperationalIntentExternalState
    \<Rightarrow> ('w, OperationalIntent result) srv" where
  "transitionIntentWithPublication svc intentID next allowed mutate desired =
     (case publishing svc of
        None \<Rightarrow> transitionIntent svc intentID next allowed mutate
      | Some co \<Rightarrow> do {
          loaded \<leftarrow> load_intent intentID;
          case loaded of
            Inl e \<Rightarrow> State_Monad.return (Inl e)
          | Inr intent \<Rightarrow>
            if oi_Status intent \<notin> set allowed
            then State_Monad.return (Inl (invalid_transition (oi_Status intent) next))
            else do {
              now \<leftarrow> is_now svc;
              let intent' = mutate (intent\<lparr>oi_Status := next, oi_UpdatedAt := now\<rparr>) now;
              withdrawal_write svc co desired intent' (oi_Revision intent)
            }
        })"

definition SubmitIntent :: "'w IntentService \<Rightarrow> string \<Rightarrow> ('w, OperationalIntent result) srv" where
  "SubmitIntent svc intentID = transitionIntent svc intentID IntentStatusSubmitted [IntentStatusDraft]
     (\<lambda>intent now. intent\<lparr>oi_SubmittedAt := Some now\<rparr>)"

definition CompleteIntent :: "'w IntentService \<Rightarrow> string \<Rightarrow> ('w, OperationalIntent result) srv" where
  "CompleteIntent svc intentID =
     transitionIntentWithPublication svc intentID IntentStatusComplete [IntentStatusActive]
       (\<lambda>intent now. intent\<lparr>oi_CompletedAt := Some now\<rparr>) OperationalIntentExternalStateWithdrawn"

definition CancelIntent :: "'w IntentService \<Rightarrow> string \<Rightarrow> ('w, OperationalIntent result) srv" where
  "CancelIntent svc intentID =
     transitionIntentWithPublication svc intentID IntentStatusCanceled
       [IntentStatusDraft, IntentStatusSubmitted, IntentStatusReview, IntentStatusAccepted, IntentStatusActive]
       (\<lambda>intent now. intent\<lparr>oi_CanceledAt := Some now\<rparr>) OperationalIntentExternalStateWithdrawn"

text \<open>The checks before acceptance when the intent is to be published.\<close>

definition acceptance_guard :: "'w IntentService \<Rightarrow> OperationalIntent \<Rightarrow> ('w, go_error option) srv" where
  "acceptance_guard svc intent =
     (case publishing svc of
        None \<Rightarrow> State_Monad.return None
      | Some co \<Rightarrow>
          (case canonicalDSSIntentID svc (oi_ID intent) of
             Inl e \<Rightarrow> State_Monad.return (Some e)
           | Inr _ \<Rightarrow> do {
               err \<leftarrow> co_ValidatePublication co intent OperationalIntentExternalStateAccepted;
               State_Monad.return (case err of None \<Rightarrow> None
                 | Some e \<Rightarrow> Some (because ErrValidation
                     (''intent is not compatible with DSS publication: '' @ error_text e)))
             }))"

definition acceptance_write ::
  "'w IntentService \<Rightarrow> OperationalIntent \<Rightarrow> int \<Rightarrow> ('w, OperationalIntent result) srv" where
  "acceptance_write svc intent expectedRevision =
     (case publishing svc of
        Some co \<Rightarrow> do {
          publication \<leftarrow> co_PublicationRequest co intent OperationalIntentExternalStateAccepted;
          commit (\<lambda>i r. AcceptOperationalIntentAndRequestPublication i r publication)
            ''accept operational intent and request DSS publication'' intent expectedRevision
        }
      | None \<Rightarrow> commit AcceptOperationalIntent ''accept operational intent'' intent expectedRevision)"

definition AcceptIntent :: "'w IntentService \<Rightarrow> string \<Rightarrow> ('w, OperationalIntent result) srv" where
  "AcceptIntent svc intentID = do {
     loaded \<leftarrow> load_intent intentID;
     case loaded of
       Inl e \<Rightarrow> State_Monad.return (Inl e)
     | Inr intent \<Rightarrow>
       if oi_Status intent \<noteq> IntentStatusSubmitted \<and> oi_Status intent \<noteq> IntentStatusReview
       then State_Monad.return (Inl (invalid_transition (oi_Status intent) IntentStatusAccepted))
       else do {
         blocked \<leftarrow> acceptance_guard svc intent;
         case blocked of
           Some e \<Rightarrow> State_Monad.return (Inl e)
         | None \<Rightarrow> do {
             now \<leftarrow> is_now svc;
             let intent' = intent\<lparr>oi_Status := IntentStatusAccepted, oi_AcceptedAt := Some now, oi_UpdatedAt := now\<rparr>;
             acceptance_write svc intent' (oi_Revision intent)
           }
       }
   }"

subsection \<open>Activation\<close>

definition latestOperationalVolumeUpdatedAt :: "OperationalVolume list \<Rightarrow> time" where
  "latestOperationalVolumeUpdatedAt volumes =
     fold (\<lambda>v latest. if ov_UpdatedAt v > latest then ov_UpdatedAt v else latest) volumes 0"

definition preflightChecksForVersion :: "PreflightCheck list \<Rightarrow> int \<Rightarrow> PreflightCheck list" where
  "preflightChecksForVersion checks version = filter (\<lambda>c. pc_IntentVersion c = version) checks"

definition complianceFindingsForVersion :: "ComplianceFinding list \<Rightarrow> int \<Rightarrow> ComplianceFinding list" where
  "complianceFindingsForVersion findings version = filter (\<lambda>f. cof_IntentVersion f = version) findings"

definition conformanceSummaryForVersion :: "Store \<Rightarrow> OperationalIntent \<Rightarrow> ConformanceSummary option result" where
  "conformanceSummaryForVersion s intent =
     (case ListConformanceSummaries (oi_ID intent) s of
        Inl e \<Rightarrow> Inl (wrap ''list conformance summaries'' e)
      | Inr summaries \<Rightarrow> Inr (find (\<lambda>c. cs_IntentID c = oi_ID intent \<and> cs_IntentVersion c = oi_Version intent) summaries))"

definition blocking_check :: "PreflightCheck \<Rightarrow> bool" where
  "blocking_check c \<longleftrightarrow> pc_Blocking c
     \<and> (pc_Status c = PreflightStatusBlocked \<or> pc_Status c = PreflightStatusAction)"

definition blocking_finding :: "ComplianceFinding \<Rightarrow> bool" where
  "blocking_finding f \<longleftrightarrow> cof_Blocking f
     \<and> (cof_Status f = ComplianceFindingFail \<or> cof_Status f = ComplianceFindingReview)"

definition activation_blocked :: "string \<Rightarrow> go_error" where
  "activation_blocked reason = because ErrActivationBlocked reason"

definition activationReadiness :: "OperationalIntent \<Rightarrow> Store \<Rightarrow> go_error option" where
  "activationReadiness intent s =
     (case ListOperationalVolumes (oi_ID intent) s of
        Inl e \<Rightarrow> Some (wrap ''list operational volumes'' e)
      | Inr allVolumes \<Rightarrow>
      let volumes = volumesForVersion allVolumes (oi_Version intent) in
      if volumes = [] then Some (activation_blocked ''at least one operational volume is required'')
      else
      let latestVolumeUpdatedAt = latestOperationalVolumeUpdatedAt volumes in
      case ListPreflightChecks (oi_ID intent) s of
        Inl e \<Rightarrow> Some (wrap ''list preflight checks'' e)
      | Inr allChecks \<Rightarrow>
      let checks = preflightChecksForVersion allChecks (oi_Version intent) in
      if checks = [] then Some (activation_blocked ''current preflight checks are required'')
      else case find blocking_check checks of
        Some c \<Rightarrow> Some (activation_blocked (''blocking preflight check '' @ pc_ID c))
      | None \<Rightarrow>
      if \<not> list_ex (\<lambda>c. \<not> pc_CapturedAt c < latestVolumeUpdatedAt) checks
      then Some (activation_blocked ''preflight checks are stale for current operational volumes'')
      else case ListComplianceFindingsForIntent (oi_ID intent) s of
        Inl e \<Rightarrow> Some (wrap ''list compliance findings'' e)
      | Inr allFindings \<Rightarrow>
      case find blocking_finding (complianceFindingsForVersion allFindings (oi_Version intent)) of
        Some f \<Rightarrow> Some (activation_blocked (''blocking compliance finding '' @ cof_ID f))
      | None \<Rightarrow> None)"

text \<open>
  After a failed activation: what the DSS is told instead. An intent that is active, or whose
  publication was not to be activated, needs nothing.
\<close>

definition compensation_target ::
  "string \<Rightarrow> OperationalIntent \<Rightarrow> OperationalIntentPublication \<Rightarrow> Store
    \<Rightarrow> (OperationalIntent \<times> OperationalIntentExternalState) result" where
  "compensation_target intentID current publication s =
     (if oi_Status current = IntentStatusAccepted
      then Inr (current, OperationalIntentExternalStateAccepted)
      else if oi_Status current \<in> {IntentStatusDraft, IntentStatusSubmitted, IntentStatusReview}
      then (case GetOperationalIntentVersion intentID (pub_PublishedIntentVersion publication) s of
              Inl e \<Rightarrow> Inl e
            | Inr published \<Rightarrow>
                if oi_Status published = IntentStatusAccepted
                then Inr (published, OperationalIntentExternalStateAccepted)
                else Inr (current, OperationalIntentExternalStateWithdrawn))
      else Inr (current, OperationalIntentExternalStateWithdrawn))"

definition compensatePublishedActivation ::
  "'w DeconflictionCoordinator \<Rightarrow> string \<Rightarrow> ('w, go_error option) srv" where
  "compensatePublishedActivation co intentID = do {
     loaded \<leftarrow> reads (GetOperationalIntent intentID);
     case loaded of
       Inl e \<Rightarrow> State_Monad.return (Some e)
     | Inr current \<Rightarrow>
       if oi_Status current = IntentStatusActive then State_Monad.return None
       else do {
         published \<leftarrow> co_GetPublication co intentID;
         case published of
           Inl e \<Rightarrow> State_Monad.return (Some e)
         | Inr publication \<Rightarrow>
           if pub_DesiredState publication \<noteq> OperationalIntentExternalStateActivated then State_Monad.return None
           else do {
             target \<leftarrow> reads (compensation_target intentID current publication);
             case target of
               Inl e \<Rightarrow> State_Monad.return (Some e)
             | Inr (desiredIntent, desiredState) \<Rightarrow> do {
                 request \<leftarrow> co_PublicationRequest co desiredIntent desiredState;
                 err \<leftarrow> with_store (RequestOperationalIntentPublicationIfCurrent request
                   (oi_Version current) (oi_Revision current) (oi_Status current));
                 case err of
                   Some e \<Rightarrow> State_Monad.return (Some e)
                 | None \<Rightarrow> do {
                     _ \<leftarrow> co_ReconcileIntent co intentID;
                     State_Monad.return None
                   }
               }
           }
       }
   }"

text \<open>An activation that failed after the DSS may have been told of it.\<close>

definition compensated :: "'w DeconflictionCoordinator \<Rightarrow> string \<Rightarrow> go_error \<Rightarrow> ('w, go_error) srv" where
  "compensated co intentID activationErr = do {
     compensationErr \<leftarrow> compensatePublishedActivation co intentID;
     State_Monad.return (case compensationErr of
         None \<Rightarrow> activationErr
       | Some e \<Rightarrow> ErrJoin [activationErr, wrap ''compensate DSS activation'' e])
   }"

definition deconfliction_gate :: "'w IntentService \<Rightarrow> OperationalIntent \<Rightarrow> ('w, go_error option) srv" where
  "deconfliction_gate svc intent =
     (case is_deconfliction svc of
        None \<Rightarrow> State_Monad.return None
      | Some co \<Rightarrow> do {
          r \<leftarrow> co_CheckIntent co (oi_ID intent);
          State_Monad.return (case r of
              Inl e \<Rightarrow> Some (wrap ''check deconfliction'' e)
            | Inr res \<Rightarrow>
                if dr_Posture res \<noteq> DeconflictionPostureClear
                then Some (activation_blocked (''deconfliction posture is '' @ DeconflictionPosture_text (dr_Posture res)))
                else None)
        })"

text \<open>Asks for a publication and reconciles it; the outer error is the request's.\<close>

definition request_if_current ::
  "'w DeconflictionCoordinator \<Rightarrow> OperationalIntent \<Rightarrow> OperationalIntentExternalState \<Rightarrow> ('w, go_error option) srv" where
  "request_if_current co intent state = do {
     request \<leftarrow> co_PublicationRequest co intent state;
     with_store (RequestOperationalIntentPublicationIfCurrent request (oi_Version intent) (oi_Revision intent)
       IntentStatusAccepted)
   }"

text \<open>The publication of the accepted intent, asked for now where it was never asked for before.\<close>

definition accepted_publication ::
  "'w DeconflictionCoordinator \<Rightarrow> OperationalIntent \<Rightarrow> ('w, go_error + OperationalIntentPublication result) srv" where
  "accepted_publication co intent = do {
     published \<leftarrow> co_GetPublication co (oi_ID intent);
     case published of
       Inl e \<Rightarrow>
         if \<not> errors_Is e ErrNotFound then State_Monad.return (Inr published)
         else do {
           err \<leftarrow> request_if_current co intent OperationalIntentExternalStateAccepted;
           case err of
             Some e \<Rightarrow> State_Monad.return (Inl (wrap ''backfill DSS acceptance'' e))
           | None \<Rightarrow> do {
               err \<leftarrow> co_ReconcileIntent co (oi_ID intent);
               case err of
                 Some e \<Rightarrow> State_Monad.return (Inl (activation_blocked
                     (''coordinate DSS acceptance: '' @ error_text e)))
               | None \<Rightarrow> do {
                   published \<leftarrow> co_GetPublication co (oi_ID intent);
                   State_Monad.return (Inr published)
                 }
             }
         }
     | Inr _ \<Rightarrow> State_Monad.return (Inr published)
   }"

definition publication_confirmed :: "OperationalIntent \<Rightarrow> OperationalIntentPublication \<Rightarrow> bool" where
  "publication_confirmed intent publication \<longleftrightarrow>
     pub_PublishedIntentVersion publication = oi_Version intent
     \<and> pub_SyncStatus publication = PublicationSyncConfirmed"

definition activation_confirmed :: "OperationalIntent \<Rightarrow> OperationalIntentPublication result \<Rightarrow> go_error option" where
  "activation_confirmed intent published =
     (case published of
        Inr publication \<Rightarrow>
          if pub_ConfirmedState publication = OperationalIntentExternalStateActivated
             \<and> publication_confirmed intent publication then None
          else Some (activation_blocked ''DSS activation is not confirmed'')
      | Inl _ \<Rightarrow> Some (activation_blocked ''DSS activation is not confirmed''))"

definition dss_activation :: "'w IntentService \<Rightarrow> OperationalIntent \<Rightarrow> ('w, go_error option) srv" where
  "dss_activation svc intent =
     (case publishing svc of
        None \<Rightarrow> State_Monad.return None
      | Some co \<Rightarrow>
      case canonicalDSSIntentID svc (oi_ID intent) of
        Inl e \<Rightarrow> State_Monad.return (Some e)
      | Inr _ \<Rightarrow> do {
          accepted \<leftarrow> accepted_publication co intent;
          case accepted of
            Inl e \<Rightarrow> State_Monad.return (Some e)
          | Inr (Inl _) \<Rightarrow> State_Monad.return (Some (activation_blocked ''intent is not DSS-confirmed as Accepted''))
          | Inr (Inr publication) \<Rightarrow>
            if \<not> publication_confirmed intent publication
            then State_Monad.return (Some (activation_blocked ''intent is not DSS-confirmed as Accepted''))
            else if pub_ConfirmedState publication = OperationalIntentExternalStateAccepted then do {
              err \<leftarrow> request_if_current co intent OperationalIntentExternalStateActivated;
              case err of
                Some e \<Rightarrow> State_Monad.return (Some (wrap ''request DSS activation'' e))
              | None \<Rightarrow> do {
                  err \<leftarrow> co_ReconcileIntent co (oi_ID intent);
                  case err of
                    Some e \<Rightarrow> do {
                      e' \<leftarrow> compensated co (oi_ID intent) (activation_blocked
                              (''coordinate DSS activation: '' @ error_text e));
                      State_Monad.return (Some e')
                    }
                  | None \<Rightarrow> do {
                      published \<leftarrow> co_GetPublication co (oi_ID intent);
                      State_Monad.return (activation_confirmed intent published)
                    }
                }
            }
            else if pub_ConfirmedState publication = OperationalIntentExternalStateActivated
            then State_Monad.return (activation_confirmed intent (Inr publication))
            else State_Monad.return (Some (activation_blocked ''intent is not DSS-confirmed as Accepted''))
        })"

definition activation_write ::
  "'w IntentService \<Rightarrow> OperationalIntent \<Rightarrow> ('w, OperationalIntent result) srv" where
  "activation_write svc intent = do {
     now \<leftarrow> is_now svc;
     let intent' = intent\<lparr>oi_Status := IntentStatusActive, oi_ActivatedAt := Some now, oi_UpdatedAt := now\<rparr>;
     err \<leftarrow> with_store (ActivateOperationalIntent intent' (oi_Revision intent));
     case err of
       None \<Rightarrow> State_Monad.return (Inr (intent'\<lparr>oi_Revision := inc64 (oi_Revision intent)\<rparr>))
     | Some e \<Rightarrow>
         let activationErr = (if errors_Is e ErrActiveIntent
               then activation_blocked (''aircraft '' @ oi_AircraftID intent @ '' already has an active operational intent'')
               else wrap ''update operational intent'' e) in
         case publishing svc of
           Some co \<Rightarrow>
             if errors_Is e ErrVersionConflict \<or> errors_Is e ErrActiveIntent then do {
               e' \<leftarrow> compensated co (oi_ID intent) activationErr;
               State_Monad.return (Inl e')
             } else State_Monad.return (Inl activationErr)
         | None \<Rightarrow> State_Monad.return (Inl activationErr)
   }"

definition ActivateIntent :: "'w IntentService \<Rightarrow> string \<Rightarrow> ('w, OperationalIntent result) srv" where
  "ActivateIntent svc intentID = do {
     loaded \<leftarrow> load_intent intentID;
     case loaded of
       Inl e \<Rightarrow> State_Monad.return (Inl e)
     | Inr intent \<Rightarrow>
       if oi_Status intent \<noteq> IntentStatusAccepted
       then State_Monad.return (Inl (invalid_transition (oi_Status intent) IntentStatusActive))
       else do {
         blocked \<leftarrow> deconfliction_gate svc intent;
         case blocked of
           Some e \<Rightarrow> State_Monad.return (Inl e)
         | None \<Rightarrow> do {
             notReady \<leftarrow> reads (activationReadiness intent);
             case notReady of
               Some e \<Rightarrow> State_Monad.return (Inl e)
             | None \<Rightarrow> do {
                 blocked \<leftarrow> dss_activation svc intent;
                 case blocked of
                   Some e \<Rightarrow> State_Monad.return (Inl e)
                 | None \<Rightarrow> activation_write svc intent
               }
           }
       }
   }"

subsection \<open>The lifecycle\<close>

text \<open>The edges of the lifecycle, and what the rest of the system may do while a request waits.\<close>

definition lifecycle_edge :: "IntentStatus \<Rightarrow> IntentStatus \<Rightarrow> bool" where
  "lifecycle_edge a b \<longleftrightarrow>
     (a, b) \<in> {(IntentStatusDraft, IntentStatusSubmitted), (IntentStatusSubmitted, IntentStatusAccepted),
       (IntentStatusReview, IntentStatusAccepted), (IntentStatusAccepted, IntentStatusActive),
       (IntentStatusActive, IntentStatusComplete)}
     \<or> b = IntentStatusCanceled \<and> a \<in> {IntentStatusDraft, IntentStatusSubmitted, IntentStatusReview,
         IntentStatusAccepted, IntentStatusActive}"

definition closed_status :: "IntentStatus \<Rightarrow> bool" where
  "closed_status st \<longleftrightarrow> st \<in> {IntentStatusComplete, IntentStatusCanceled, IntentStatusRejected, IntentStatusSuperseded}"

definition coordinator_ok :: "(Store \<Rightarrow> bool) \<Rightarrow> 'w DeconflictionCoordinator \<Rightarrow> bool" where
  "coordinator_ok I co \<longleftrightarrow>
     (\<forall>i. keeps I (co_CheckIntent co i)) \<and> (\<forall>i st. keeps I (co_ValidatePublication co i st))
     \<and> (\<forall>i st. keeps I (co_PublicationRequest co i st)) \<and> (\<forall>i. keeps I (co_GetPublication co i))
     \<and> (\<forall>i. keeps I (co_ReconcileIntent co i))"

definition surroundings_ok :: "(Store \<Rightarrow> bool) \<Rightarrow> 'w IntentService \<Rightarrow> bool" where
  "surroundings_ok I svc \<longleftrightarrow> keeps I (is_now svc)
     \<and> (case is_deconfliction svc of None \<Rightarrow> True | Some co \<Rightarrow> coordinator_ok I co)"

text \<open>
  A compare and swap: what was read as \<open>c\<close> is still at its version and revision in the store \<open>s1\<close>
  just before the write, and what the request returns is the latest version afterwards.
\<close>

definition swapped :: "OperationalIntent \<Rightarrow> Store \<Rightarrow> OperationalIntent \<Rightarrow> Store \<Rightarrow> bool" where
  "swapped c s1 i s' \<longleftrightarrow>
     (\<exists>c1. latestOperationalIntent s1 (oi_ID c) = Some c1 \<and> oi_Version c1 = oi_Version c \<and> oi_Revision c1 = oi_Revision c)
     \<and> latestOperationalIntent s' (oi_ID c) = Some i
     \<and> oi_ID i = oi_ID c \<and> oi_Version i = oi_Version c \<and> oi_Revision i = inc64 (oi_Revision c)"

text \<open>
  What has to be on record before an activation: a volume, no blocking preflight check, a check
  taken after the last change of every volume, no blocking compliance finding, all of the version
  at hand.
\<close>

definition current_volume :: "OperationalIntent \<Rightarrow> Store \<Rightarrow> OperationalVolume \<Rightarrow> bool" where
  "current_volume c s v \<longleftrightarrow> v \<in> set (vals (s_operationalVolumes s)) \<and> ov_IntentID v = oi_ID c
     \<and> ov_IntentVersion v = oi_Version c"

definition current_check :: "OperationalIntent \<Rightarrow> Store \<Rightarrow> PreflightCheck \<Rightarrow> bool" where
  "current_check c s k \<longleftrightarrow> k \<in> set (s_preflightChecks s) \<and> pc_IntentID k = oi_ID c
     \<and> pc_IntentVersion k = oi_Version c"

definition current_finding :: "OperationalIntent \<Rightarrow> Store \<Rightarrow> ComplianceFinding \<Rightarrow> bool" where
  "current_finding c s f \<longleftrightarrow> f \<in> set (s_complianceFindings s) \<and> cof_IntentVersion f = oi_Version c
     \<and> (cof_IntentID f = oi_ID c \<or> cof_SubjectType f = ''operational_intent'' \<and> cof_SubjectID f = oi_ID c)"

definition ready_to_fly :: "OperationalIntent \<Rightarrow> Store \<Rightarrow> bool" where
  "ready_to_fly c s \<longleftrightarrow>
     (\<exists>v. current_volume c s v)
     \<and> (\<exists>k. current_check c s k \<and> 0 \<le> pc_CapturedAt k
          \<and> (\<forall>v. current_volume c s v \<longrightarrow> ov_UpdatedAt v \<le> pc_CapturedAt k))
     \<and> (\<forall>k. current_check c s k \<longrightarrow> \<not> blocking_check k)
     \<and> (\<forall>f. current_finding c s f \<longrightarrow> \<not> blocking_finding f)"

text \<open>A service that publishes, a DSS that has confirmed the activation, an intent ready to fly.\<close>

definition accepted_intent :: OperationalIntent where
  "accepted_intent = sample_intent\<lparr>oi_Status := IntentStatusAccepted\<rparr>"

definition sample_check :: PreflightCheck where
  "sample_check = \<lparr>pc_ID = ''c1'', pc_OperatorID = [], pc_IntentID = ''op-1'', pc_IntentVersion = 1,
     pc_AircraftID = ''uav-1'', pc_Category = PreflightCheckWeather, pc_Source = [], pc_Status = PreflightStatusClear,
     pc_Summary = [], pc_RequirementCode = [], pc_RuleVersion = [], pc_Blocking = True, pc_ValidUntil = None,
     pc_RawDataURI = [], pc_EvidenceRecordID = [], pc_CapturedAt = 9\<rparr>"

definition ready_store :: Store where
  "ready_store = (store_intent accepted_intent NewStore)\<lparr>
     s_operationalVolumes := [(operationalVolumeKey sample_volume, sample_volume)],
     s_preflightChecks := [sample_check]\<rparr>"

definition activated_publication :: OperationalIntentPublication where
  "activated_publication = sample_publication\<lparr>pub_PublishedIntentVersion := 1,
     pub_ConfirmedState := OperationalIntentExternalStateActivated, pub_SyncStatus := PublicationSyncConfirmed\<rparr>"

definition sample_coordinator :: "unit DeconflictionCoordinator" where
  "sample_coordinator = \<lparr>
     co_CheckIntent = (\<lambda>i. State_Monad.return (Inr (newResult accepted_intent 5))),
     co_PublishingEnabled = True,
     co_ValidatePublication = (\<lambda>i st. State_Monad.return None),
     co_PublicationRequest = (\<lambda>i st. State_Monad.return sample_publication),
     co_GetPublication = (\<lambda>i. State_Monad.return (Inr activated_publication)),
     co_ReconcileIntent = (\<lambda>i. State_Monad.return None)\<rparr>"

definition sample_service :: "unit IntentService" where
  "sample_service = \<lparr>is_now = reads (\<lambda>_. 30), is_deconfliction = Some sample_coordinator,
     is_newUUID = reads (\<lambda>_. ''u1''), is_parseUUID = (\<lambda>i. Some (4, i))\<rparr>"

definition sample_modification :: ModifyIntentRequest where
  "sample_modification = \<lparr>mir_Reason = [], mir_ExpectedVersion = 1,
     mir_Intent = \<lparr>mif_Name = Some ''survey'', mif_Summary = None, mif_UseCase = None, mif_AuthorizationPath = None,
       mif_PopulationCategory = None, mif_ConformanceRequired = None, mif_OperatingAreaID = None,
       mif_RouteSummary = None, mif_PlannedStartAt = None, mif_PlannedEndAt = None, mif_MinAltitudeFtAGL = None,
       mif_MaxAltitudeFtAGL = None, mif_SupervisorID = None, mif_FlightCoordinatorID = None\<rparr>,
     mir_Volumes = None\<rparr>"

section \<open>Lemmas\<close>

lemma load_intent_run:
  "run_state (load_intent iid) (s, w) =
     (case latestOperationalIntent s iid of
        None \<Rightarrow> Inl (wrap ''get operational intent'' ErrNotFound) | Some c \<Rightarrow> Inr c, (s, w))"
  by (simp add: load_intent_def GetOperationalIntent_def found_def split: option.splits)

subsection \<open>The write at the end of a transition\<close>

lemma run_commit:
  "run_state (commit write_op failure i r) (s, w) = (Inr j, (s', w')) \<longleftrightarrow>
     run_state (with_store (write_op i r)) (s, w) = (None, (s', w')) \<and> j = i\<lparr>oi_Revision := inc64 r\<rparr>"
  by (auto simp: commit_def split: option.splits)

context fenced_intent_write
begin

lemma service_write:
  assumes ok: "intents_ok s" and run: "run_state (with_store (write_op i r)) (s, w) = (None, (s', w'))"
    and c: "oi_ID i = oi_ID c" "oi_Version i = oi_Version c" "r = oi_Revision c"
  shows "swapped c s (i\<lparr>oi_Revision := inc64 r\<rparr>) s'" and "intents_ok s'" and "\<not> blocked i s"
proof -
  from run have none: "fst (write_op i r s) = None" and s': "s' = snd (write_op i r s)" by simp_all
  show "intents_ok s'" using op_keeps_ok [OF ok] s' by simp
  from none op_success [OF ok] obtain c1 where "latestOperationalIntent s (oi_ID i) = Some c1"
    "oi_Version c1 = oi_Version i" "oi_Revision c1 = r" and free: "\<not> blocked i s" by blast
  then show "swapped c s (i\<lparr>oi_Revision := inc64 r\<rparr>) s'"
    using op_latest [OF ok none] s' c by (simp add: swapped_def)
  show "\<not> blocked i s" by (rule free)
qed

lemma commit_swapped:
  assumes "intents_ok s" and "run_state (commit write_op failure i r) (s, w) = (Inr j, (s', w'))"
    and "oi_ID i = oi_ID c" "oi_Version i = oi_Version c" "r = oi_Revision c"
  shows "swapped c s j s'" and "oi_Status j = oi_Status i"
  using service_write(1) [OF assms(1) _ assms(3-)] assms(2) by (simp_all add: run_commit)

end

lemma now_ok:
  "surroundings_ok intents_ok svc \<Longrightarrow> run_state (is_now svc) (s, w) = (t, (s1, w1)) \<Longrightarrow> intents_ok s \<Longrightarrow> intents_ok s1"
  by (auto simp: surroundings_ok_def intro: keeps_run)

lemma publishing_Some:
  "publishing svc = Some co \<longleftrightarrow> is_deconfliction svc = Some co \<and> co_PublishingEnabled co"
  by (auto simp: publishing_def split: option.splits)

subsection \<open>Fields a modification keeps\<close>

lemma apply_field_keeps:
  "(\<And>x i. oi_ID (put x i) = oi_ID i) \<Longrightarrow> oi_ID (apply_field v put i) = oi_ID i"
  "(\<And>x i. oi_Version (put x i) = oi_Version i) \<Longrightarrow> oi_Version (apply_field v put i) = oi_Version i"
  "(\<And>x i. oi_Status (put x i) = oi_Status i) \<Longrightarrow> oi_Status (apply_field v put i) = oi_Status i"
  "(\<And>x i. oi_Revision (put x i) = oi_Revision i) \<Longrightarrow> oi_Revision (apply_field v put i) = oi_Revision i"
  by (simp_all add: apply_field_def split: option.split)

lemma applyIntentModification_keeps [simp]:
  "oi_ID (applyIntentModification i m) = oi_ID i" "oi_Version (applyIntentModification i m) = oi_Version i"
  "oi_Status (applyIntentModification i m) = oi_Status i" "oi_Revision (applyIntentModification i m) = oi_Revision i"
  by (simp_all add: applyIntentModification_def Let_def apply_field_keeps)

subsection \<open>What every request keeps\<close>

text \<open>
  An invariant of the writes of the lifecycle, each with the arguments the service gives it: only
  an activation writes an active intent. The requests keep what their writes keep.
\<close>

locale lifecycle_invariant =
  fixes I :: "Store \<Rightarrow> bool"
  assumes inv_create: "I s \<Longrightarrow> oi_Status i \<noteq> IntentStatusActive \<Longrightarrow> I (snd (CreateOperationalIntent i s))"
    and inv_update: "I s \<Longrightarrow> oi_Status i \<noteq> IntentStatusActive \<Longrightarrow> I (snd (UpdateOperationalIntent i r s))"
    and inv_accept: "I s \<Longrightarrow> oi_Status i \<noteq> IntentStatusActive \<Longrightarrow> I (snd (AcceptOperationalIntent i r s))"
    and inv_update_publish: "I s \<Longrightarrow> oi_Status i \<noteq> IntentStatusActive \<Longrightarrow>
      I (snd (UpdateOperationalIntentAndRequestPublication i r p s))"
    and inv_accept_publish: "I s \<Longrightarrow> oi_Status i \<noteq> IntentStatusActive \<Longrightarrow>
      I (snd (AcceptOperationalIntentAndRequestPublication i r p s))"
    and inv_activate: "I s \<Longrightarrow> oi_Status i = IntentStatusActive \<Longrightarrow> I (snd (ActivateOperationalIntent i r s))"
    and inv_replace: "I s \<Longrightarrow> oi_Status i \<noteq> IntentStatusActive \<Longrightarrow> I (snd (ReplaceOperationalIntent v r i vs s))"
    and inv_volume: "I s \<Longrightarrow> I (snd (RecordOperationalVolume x s))"
    and inv_request: "I s \<Longrightarrow> I (snd (RequestOperationalIntentPublicationIfCurrent p v r st s))"
begin

lemma coordinator_keeps:
  assumes "surroundings_ok I svc" and "is_deconfliction svc = Some co"
  shows "keeps I (co_CheckIntent co i)" "keeps I (co_ValidatePublication co j st)"
    "keeps I (co_PublicationRequest co j st)" "keeps I (co_GetPublication co i)"
    "keeps I (co_ReconcileIntent co i)"
  using assms by (simp_all add: surroundings_ok_def coordinator_ok_def)

lemma acceptance_guard_keeps: "surroundings_ok I svc \<Longrightarrow> keeps I (acceptance_guard svc intent)"
  by (auto simp: acceptance_guard_def publishing_Some intro!: keeps_bind coordinator_keeps
      split: option.splits sum.splits)

lemma deconfliction_gate_keeps: "surroundings_ok I svc \<Longrightarrow> keeps I (deconfliction_gate svc c)"
  by (auto simp: deconfliction_gate_def intro!: keeps_bind coordinator_keeps split: option.splits)

lemma request_if_current_keeps:
  "surroundings_ok I svc \<Longrightarrow> is_deconfliction svc = Some co \<Longrightarrow> keeps I (request_if_current co c st)"
  unfolding request_if_current_def
  by (intro keeps_bind keeps_with_store coordinator_keeps [of svc]) (auto intro: inv_request)

lemma accepted_publication_keeps:
  assumes "surroundings_ok I svc" "is_deconfliction svc = Some co"
  shows "keeps I (accepted_publication co c)"
  unfolding accepted_publication_def
  using coordinator_keeps [OF assms] request_if_current_keeps [OF assms]
  by (auto intro!: keeps_bind split: sum.splits option.splits)

lemma compensated_keeps:
  assumes "surroundings_ok I svc" "is_deconfliction svc = Some co"
  shows "keeps I (compensated co iid e)"
  unfolding compensated_def compensatePublishedActivation_def
  using coordinator_keeps [OF assms]
  by (auto intro!: keeps_bind keeps_with_store inv_request split: sum.splits option.splits prod.splits)

lemma dss_activation_keeps:
  assumes "surroundings_ok I svc"
  shows "keeps I (dss_activation svc c)"
proof (cases "publishing svc")
  case None
  then show ?thesis by (simp add: dss_activation_def)
next
  case (Some co)
  then have co: "is_deconfliction svc = Some co" by (simp add: publishing_Some)
  note keeps = coordinator_keeps [OF assms co] request_if_current_keeps [OF assms co]
    accepted_publication_keeps [OF assms co] compensated_keeps [OF assms co]
  show ?thesis
    unfolding dss_activation_def Some using keeps
    by (auto intro!: keeps_bind split: sum.splits option.splits)
qed

lemma load_keeps: "keeps I (load_intent i)"
  by (simp add: load_intent_def)

lemma now_keeps: "surroundings_ok I svc \<Longrightarrow> keeps I (is_now svc)"
  by (simp add: surroundings_ok_def)

lemma create_keeps:
  "keeps I (is_newUUID svc) \<Longrightarrow> surroundings_ok I svc \<Longrightarrow> keeps I (CreateIntent svc req)"
  unfolding CreateIntent_def new_intent_id_def
  by (auto intro!: keeps_bind keeps_with_store now_keeps inv_create simp: created_intent_def split: option.splits sum.splits)

lemma add_volume_keeps: "surroundings_ok I svc \<Longrightarrow> keeps I (AddOperationalVolume svc i req)"
  unfolding AddOperationalVolume_def Let_def
  by (auto intro!: keeps_bind keeps_with_store now_keeps load_keeps inv_volume split: option.splits sum.splits)

lemma modification_write_keeps:
  "oi_Status i \<noteq> IntentStatusActive \<Longrightarrow> keeps I (modification_write source i vs)"
  unfolding modification_write_def by (auto intro!: keeps_bind keeps_with_store inv_replace)

lemma modify_keeps: "surroundings_ok I svc \<Longrightarrow> keeps I (ModifyIntent svc i req)"
  unfolding ModifyIntent_def Let_def
  by (auto intro!: keeps_bind now_keeps load_keeps modification_write_keeps
      simp: modification_guard_def modification_base_def split: option.splits sum.splits if_splits)

lemma commit_keeps: "(\<And>s. I s \<Longrightarrow> I (snd (write_op i r s))) \<Longrightarrow> keeps I (commit write_op failure i r)"
  unfolding commit_def by (auto intro!: keeps_bind keeps_with_store)

lemma transition_keeps:
  assumes "surroundings_ok I svc" and "\<And>x t. oi_Status (mutate x t) = oi_Status x" and "next \<noteq> IntentStatusActive"
  shows "keeps I (transitionIntent svc i next allowed mutate)"
    and "keeps I (transitionIntentWithPublication svc i next allowed mutate desired)"
  using assms
  by (auto simp: transitionIntent_def transitionIntentWithPublication_def withdrawal_write_def Let_def publishing_Some
      intro!: keeps_bind now_keeps load_keeps commit_keeps inv_update inv_update_publish coordinator_keeps
      split: option.splits sum.splits simp del: UpdateOperationalIntent_eq)

lemma requests_keep:
  assumes "surroundings_ok I svc"
  shows "keeps I (SubmitIntent svc i)" "keeps I (CompleteIntent svc i)" "keeps I (CancelIntent svc i)"
  unfolding SubmitIntent_def CompleteIntent_def CancelIntent_def by (auto intro!: transition_keeps assms)

lemma accept_keeps: "surroundings_ok I svc \<Longrightarrow> keeps I (AcceptIntent svc i)"
  unfolding AcceptIntent_def acceptance_write_def Let_def
  by (auto simp: publishing_Some intro!: keeps_bind now_keeps load_keeps acceptance_guard_keeps commit_keeps
      inv_accept inv_accept_publish coordinator_keeps split: option.splits sum.splits simp del: AcceptOperationalIntent_eq)

lemma activation_write_keeps:
  assumes "surroundings_ok I svc"
  shows "keeps I (activation_write svc c)"
  unfolding activation_write_def Let_def using compensated_keeps [OF assms] now_keeps [OF assms]
  by (auto simp: publishing_Some intro!: keeps_bind keeps_with_store inv_activate split: option.splits)

lemma activate_keeps: "surroundings_ok I svc \<Longrightarrow> keeps I (ActivateIntent svc i)"
  unfolding ActivateIntent_def
  by (auto intro!: keeps_bind load_keeps deconfliction_gate_keeps dss_activation_keeps activation_write_keeps
      split: option.splits sum.splits)

end

lemma intents_ok_volumes [simp]: "intents_ok (s\<lparr>s_operationalVolumes := m\<rparr>) = intents_ok s"
  by (simp add: intents_ok_def)

interpretation lifecycle_kept: lifecycle_invariant intents_ok
  by unfold_locales
    (auto simp: CreateOperationalIntent_def ReplaceOperationalIntent_def RecordOperationalVolume_def
      RequestOperationalIntentPublicationIfCurrent_def
      update_write.op_keeps_ok accept_write.op_keeps_ok update_publish.op_keeps_ok accept_publish.op_keeps_ok
      activate_write.op_keeps_ok Let_def split: option.splits)

subsection \<open>Transitions\<close>

lemma transition_swapped:
  assumes env: "surroundings_ok intents_ok svc" and ok: "intents_ok s"
    and run: "run_state (transitionIntent svc iid next allowed mutate) (s, w) = (Inr i, (s', w'))"
    and m: "\<And>x t. oi_ID (mutate x t) = oi_ID x" "\<And>x t. oi_Version (mutate x t) = oi_Version x"
      "\<And>x t. oi_Status (mutate x t) = oi_Status x"
  shows "\<exists>c s1. latestOperationalIntent s iid = Some c \<and> oi_Status c \<in> set allowed \<and> oi_Status i = next
    \<and> swapped c s1 i s'"
proof -
  from run obtain c t s1 w1 where c: "latestOperationalIntent s iid = Some c" "oi_Status c \<in> set allowed"
    and now: "run_state (is_now svc) (s, w) = (t, (s1, w1))"
    and wr: "run_state (commit updateOperationalIntentLocked ''update operational intent''
        (mutate (c\<lparr>oi_Status := next, oi_UpdatedAt := t\<rparr>) t) (oi_Revision c)) (s1, w1) = (Inr i, (s', w'))"
    unfolding transitionIntent_def
    by (auto simp: run_bind_iff load_intent_run Let_def simp del: run_state_bind split: option.splits if_splits)
  from update_write.commit_swapped [OF now_ok [OF env now ok] wr, of c] c m show ?thesis by auto
qed

lemma withdrawal_swapped:
  assumes env: "surroundings_ok intents_ok svc" and co: "publishing svc = Some co" and ok: "intents_ok s"
    and run: "run_state (withdrawal_write svc co desired i (oi_Revision c)) (s, w) = (Inr j, (s', w'))"
    and c: "oi_ID i = oi_ID c" "oi_Version i = oi_Version c"
  shows "\<exists>s1. swapped c s1 j s' \<and> oi_Status j = oi_Status i"
proof (cases "canonicalDSSIntentID svc (oi_ID i)")
  case (Inl e)
  with run have "run_state (commit updateOperationalIntentLocked ''update legacy operational intent'' i (oi_Revision c))
      (s, w) = (Inr j, (s', w'))" by (simp add: withdrawal_write_def)
  from update_write.commit_swapped [OF ok this c] show ?thesis by blast
next
  case (Inr x)
  with run obtain p s2 w2 where req: "run_state (co_PublicationRequest co i desired) (s, w) = (p, (s2, w2))"
    and wr: "run_state (commit (\<lambda>i r. UpdateOperationalIntentAndRequestPublication i r p)
      ''update operational intent and request DSS withdrawal'' i (oi_Revision c)) (s2, w2) = (Inr j, (s', w'))"
    by (auto simp: withdrawal_write_def run_bind_iff simp del: run_state_bind)
  have "intents_ok s2"
    using keeps_run [OF lifecycle_kept.coordinator_keeps(3) [OF env] req ok] co by (simp add: publishing_Some)
  from update_publish.commit_swapped [OF this wr c] show ?thesis by blast
qed

lemma transition_publication_swapped:
  assumes env: "surroundings_ok intents_ok svc" and ok: "intents_ok s"
    and run: "run_state (transitionIntentWithPublication svc iid next allowed mutate desired) (s, w) = (Inr i, (s', w'))"
    and m: "\<And>x t. oi_ID (mutate x t) = oi_ID x" "\<And>x t. oi_Version (mutate x t) = oi_Version x"
      "\<And>x t. oi_Status (mutate x t) = oi_Status x"
  shows "\<exists>c s1. latestOperationalIntent s iid = Some c \<and> oi_Status c \<in> set allowed \<and> oi_Status i = next
    \<and> swapped c s1 i s'"
proof (cases "publishing svc")
  case None
  with run show ?thesis
    using transition_swapped [OF env ok _ m] by (simp add: transitionIntentWithPublication_def)
next
  case (Some co)
  with run obtain c t s1 w1 where c: "latestOperationalIntent s iid = Some c" "oi_Status c \<in> set allowed"
    and now: "run_state (is_now svc) (s, w) = (t, (s1, w1))"
    and wr: "run_state (withdrawal_write svc co desired (mutate (c\<lparr>oi_Status := next, oi_UpdatedAt := t\<rparr>) t)
      (oi_Revision c)) (s1, w1) = (Inr i, (s', w'))"
    unfolding transitionIntentWithPublication_def
    by (auto simp: run_bind_iff load_intent_run Let_def simp del: run_state_bind split: option.splits if_splits)
  from withdrawal_swapped [OF env Some now_ok [OF env now ok] wr] c m show ?thesis by auto
qed

lemma acceptance_swapped:
  assumes env: "surroundings_ok intents_ok svc" and ok: "intents_ok s"
    and run: "run_state (acceptance_write svc i (oi_Revision c)) (s, w) = (Inr j, (s', w'))"
    and c: "oi_ID i = oi_ID c" "oi_Version i = oi_Version c"
  shows "\<exists>s1. swapped c s1 j s' \<and> oi_Status j = oi_Status i"
proof (cases "publishing svc")
  case None
  with run have "run_state (commit acceptOperationalIntentLocked ''accept operational intent'' i (oi_Revision c))
      (s, w) = (Inr j, (s', w'))" by (simp add: acceptance_write_def)
  from accept_write.commit_swapped [OF ok this c] show ?thesis by blast
next
  case (Some co)
  with run obtain p s2 w2 where req: "run_state (co_PublicationRequest co i OperationalIntentExternalStateAccepted)
      (s, w) = (p, (s2, w2))"
    and wr: "run_state (commit (\<lambda>i r. AcceptOperationalIntentAndRequestPublication i r p)
      ''accept operational intent and request DSS publication'' i (oi_Revision c)) (s2, w2) = (Inr j, (s', w'))"
    by (auto simp: acceptance_write_def run_bind_iff simp del: run_state_bind)
  have "intents_ok s2"
    using keeps_run [OF lifecycle_kept.coordinator_keeps(3) [OF env] req ok] Some by (simp add: publishing_Some)
  from accept_publish.commit_swapped [OF this wr c] show ?thesis by blast
qed

lemma accept_swapped:
  assumes env: "surroundings_ok intents_ok svc" and ok: "intents_ok s"
    and run: "run_state (AcceptIntent svc iid) (s, w) = (Inr i, (s', w'))"
  shows "\<exists>c s1. latestOperationalIntent s iid = Some c \<and> oi_Status c \<in> {IntentStatusSubmitted, IntentStatusReview}
    \<and> oi_Status i = IntentStatusAccepted \<and> swapped c s1 i s'"
proof -
  from run obtain c s1 w1 t s2 w2 where c: "latestOperationalIntent s iid = Some c"
      "oi_Status c \<in> {IntentStatusSubmitted, IntentStatusReview}"
    and guard: "run_state (acceptance_guard svc c) (s, w) = (None, (s1, w1))"
    and now: "run_state (is_now svc) (s1, w1) = (t, (s2, w2))"
    and wr: "run_state (acceptance_write svc
      (c\<lparr>oi_Status := IntentStatusAccepted, oi_AcceptedAt := Some t, oi_UpdatedAt := t\<rparr>) (oi_Revision c))
      (s2, w2) = (Inr i, (s', w'))"
    unfolding AcceptIntent_def
    by (auto simp: run_bind_iff load_intent_run Let_def simp del: run_state_bind split: option.splits if_splits)
  have "intents_ok s2"
    using now_ok [OF env now] keeps_run [OF lifecycle_kept.acceptance_guard_keeps [OF env] guard ok] by simp
  from acceptance_swapped [OF env this wr] c show ?thesis by auto
qed

subsection \<open>Activation\<close>

lemma latest_updated_le:
  "latestOperationalVolumeUpdatedAt vs \<le> t \<longleftrightarrow> 0 \<le> t \<and> (\<forall>v \<in> set vs. ov_UpdatedAt v \<le> t)"
proof -
  have "fold (\<lambda>v latest. if ov_UpdatedAt v > latest then ov_UpdatedAt v else latest) vs a \<le> t
      \<longleftrightarrow> a \<le> t \<and> (\<forall>v \<in> set vs. ov_UpdatedAt v \<le> t)" for a
    by (induction vs arbitrary: a) auto
  then show ?thesis by (simp add: latestOperationalVolumeUpdatedAt_def)
qed

lemma first_found_None:
  "(case find P xs of None \<Rightarrow> r | Some x \<Rightarrow> Some (f x)) = None \<longleftrightarrow> (\<forall>x \<in> set xs. \<not> P x) \<and> r = None"
  by (induction xs) auto

lemma listed_for_version:
  assumes "oi_ID c \<noteq> []"
  shows "\<exists>vs. ListOperationalVolumes (oi_ID c) s = Inr vs
      \<and> set (volumesForVersion vs (oi_Version c)) = {v. current_volume c s v}"
    and "\<exists>ks. ListPreflightChecks (oi_ID c) s = Inr ks
      \<and> set (preflightChecksForVersion ks (oi_Version c)) = {k. current_check c s k}"
    and "\<exists>fs. ListComplianceFindingsForIntent (oi_ID c) s = Inr fs
      \<and> set (complianceFindingsForVersion fs (oi_Version c)) = {f. current_finding c s f}"
  using assms
  by (auto simp: ListOperationalVolumes_def ListPreflightChecks_def ListComplianceFindingsForIntent_def
      volumesForVersion_def preflightChecksForVersion_def complianceFindingsForVersion_def
      current_volume_def current_check_def current_finding_def)

lemma activationReadiness_None:
  assumes "oi_ID c \<noteq> []"
  shows "activationReadiness c s = None \<longleftrightarrow> ready_to_fly c s"
proof -
  obtain vs ks fs where l: "ListOperationalVolumes (oi_ID c) s = Inr vs" "ListPreflightChecks (oi_ID c) s = Inr ks"
      "ListComplianceFindingsForIntent (oi_ID c) s = Inr fs"
    and vs: "set (volumesForVersion vs (oi_Version c)) = {v. current_volume c s v}"
    and ks: "set (preflightChecksForVersion ks (oi_Version c)) = {k. current_check c s k}"
    and fs: "set (complianceFindingsForVersion fs (oi_Version c)) = {f. current_finding c s f}"
    using listed_for_version [OF assms, of s] by blast
  have ne: "volumesForVersion vs (oi_Version c) = [] \<longleftrightarrow> \<not> (\<exists>v. current_volume c s v)"
    "preflightChecksForVersion ks (oi_Version c) = [] \<longleftrightarrow> \<not> (\<exists>k. current_check c s k)"
    using vs ks by (simp_all flip: set_empty)
  have "activationReadiness c s = None \<longleftrightarrow>
      volumesForVersion vs (oi_Version c) \<noteq> [] \<and> preflightChecksForVersion ks (oi_Version c) \<noteq> []
      \<and> (\<forall>k \<in> set (preflightChecksForVersion ks (oi_Version c)). \<not> blocking_check k)
      \<and> (\<exists>k \<in> set (preflightChecksForVersion ks (oi_Version c)).
           latestOperationalVolumeUpdatedAt (volumesForVersion vs (oi_Version c)) \<le> pc_CapturedAt k)
      \<and> (\<forall>f \<in> set (complianceFindingsForVersion fs (oi_Version c)). \<not> blocking_finding f)"
    by (simp add: activationReadiness_def l Let_def first_found_None list_ex_iff linorder_not_less)
  then show ?thesis unfolding ne vs ks fs latest_updated_le ready_to_fly_def mem_Collect_eq by blast
qed

lemma deconfliction_gate_clear:
  "run_state (deconfliction_gate svc c) \<sigma> = (None, \<sigma>1) \<Longrightarrow>
     (case is_deconfliction svc of None \<Rightarrow> \<sigma>1 = \<sigma>
      | Some co \<Rightarrow> \<exists>res. run_state (co_CheckIntent co (oi_ID c)) \<sigma> = (Inr res, \<sigma>1) \<and> dr_Posture res = DeconflictionPostureClear)"
  by (auto simp: deconfliction_gate_def simp del: run_state_bind elim!: run_bindE split: option.splits sum.splits if_splits)

lemma accepted_publication_source:
  "run_state (accepted_publication co c) \<sigma> = (Inr r, \<sigma>') \<Longrightarrow> \<exists>\<tau>. run_state (co_GetPublication co (oi_ID c)) \<tau> = (r, \<sigma>')"
  unfolding accepted_publication_def
  by (auto simp del: run_state_bind split_paired_Ex elim!: run_bindE split: option.splits sum.splits if_splits) blast+

lemma activation_confirmed_None:
  "activation_confirmed c r = None \<longleftrightarrow>
     (\<exists>p. r = Inr p \<and> pub_ConfirmedState p = OperationalIntentExternalStateActivated \<and> publication_confirmed c p)"
  by (auto simp: activation_confirmed_def split: sum.splits)

lemma dss_activation_confirmed:
  assumes "run_state (dss_activation svc c) \<sigma> = (None, \<sigma>')" and "publishing svc = Some co"
  shows "\<exists>\<tau> p \<tau>'. run_state (co_GetPublication co (oi_ID c)) \<tau> = (Inr p, \<tau>')
    \<and> pub_ConfirmedState p = OperationalIntentExternalStateActivated \<and> publication_confirmed c p"
  using assms
  by (auto simp: dss_activation_def activation_confirmed_None simp del: run_state_bind split_paired_Ex
      elim!: run_bindE dest!: accepted_publication_source split: option.splits sum.splits if_splits) blast+

text \<open>The last write of an activation leaves the intent as the only active one of its aircraft.\<close>

lemma activate_sole_active:
  assumes ok: "intents_ok s" and i: "oi_Status i = IntentStatusActive"
    and run: "fst (ActivateOperationalIntent i r s) = None"
    and j: "j \<in> set (vals (s_operationalIntents (snd (ActivateOperationalIntent i r s))))"
      "oi_Status j = IntentStatusActive" "oi_AircraftID j = oi_AircraftID i"
  shows "j = i\<lparr>oi_Revision := inc64 r\<rparr>"
proof -
  from run activate_write.op_success [OF ok] obtain c where c: "latestOperationalIntent s (oi_ID i) = Some c"
    "oi_Version c = oi_Version i" "oi_Revision c = r" "\<not> fence_blocked i s" and free: "\<not> other_active i s" by blast
  then have "intent_write_guard i r s = None" by (auto simp: intent_write_guard_None)
  then have "snd (ActivateOperationalIntent i r s) = store_intent (i\<lparr>oi_Revision := inc64 r\<rparr>) s"
    using i free c by (simp add: activate_eq update_granted)
  with j have "j = i\<lparr>oi_Revision := inc64 r\<rparr> \<or> j \<in> set (vals (s_operationalIntents s)) \<and> intent_key j \<noteq> intent_key i"
    using vals_store_intent [OF ok, of "i\<lparr>oi_Revision := inc64 r\<rparr>"] by auto
  with free j show ?thesis by (auto simp: other_active_def)
qed

lemma activation_write_run:
  assumes "run_state (activation_write svc c) (s, w) = (Inr i, (s', w'))"
  shows "\<exists>t s1 w1. run_state (is_now svc) (s, w) = (t, (s1, w1))
    \<and> run_state (with_store (ActivateOperationalIntent
         (c\<lparr>oi_Status := IntentStatusActive, oi_ActivatedAt := Some t, oi_UpdatedAt := t\<rparr>) (oi_Revision c))) (s1, w1)
       = (None, (s', w'))
    \<and> i = c\<lparr>oi_Status := IntentStatusActive, oi_ActivatedAt := Some t, oi_UpdatedAt := t,
             oi_Revision := inc64 (oi_Revision c)\<rparr>"
  using assms unfolding activation_write_def Let_def
  by (auto simp del: run_state_bind run_with_store elim!: run_bindE split: option.splits if_splits)

lemma activate_run:
  assumes env: "surroundings_ok intents_ok svc" and ok: "intents_ok s"
    and run: "run_state (ActivateIntent svc iid) (s, w) = (Inr i, (s', w'))"
  obtains c s1 w1 s2 where "latestOperationalIntent s iid = Some c" "oi_Status c = IntentStatusAccepted"
    and "run_state (deconfliction_gate svc c) (s, w) = (None, (s1, w1))" and "activationReadiness c s1 = None"
    and "\<exists>\<sigma>'. run_state (dss_activation svc c) (s1, w1) = (None, \<sigma>')"
    and "oi_Status i = IntentStatusActive" and "swapped c s2 i s'"
    and "\<And>j. j \<in> set (vals (s_operationalIntents s')) \<Longrightarrow> oi_Status j = IntentStatusActive \<Longrightarrow>
      oi_AircraftID j = oi_AircraftID i \<Longrightarrow> j = i"
proof -
  from run obtain c s1 w1 s2 w2 where c: "latestOperationalIntent s iid = Some c" "oi_Status c = IntentStatusAccepted"
    and gate: "run_state (deconfliction_gate svc c) (s, w) = (None, (s1, w1))" and rdy: "activationReadiness c s1 = None"
    and dss: "run_state (dss_activation svc c) (s1, w1) = (None, (s2, w2))"
    and wr: "run_state (activation_write svc c) (s2, w2) = (Inr i, (s', w'))"
    unfolding ActivateIntent_def
    by (auto simp: load_intent_run simp del: run_state_bind elim!: run_bindE split: option.splits if_splits)
  from activation_write_run [OF wr] obtain t s3 w3 where now: "run_state (is_now svc) (s2, w2) = (t, (s3, w3))"
    and act: "run_state (with_store (ActivateOperationalIntent
         (c\<lparr>oi_Status := IntentStatusActive, oi_ActivatedAt := Some t, oi_UpdatedAt := t\<rparr>) (oi_Revision c))) (s3, w3)
       = (None, (s', w'))"
    and i: "i = c\<lparr>oi_Status := IntentStatusActive, oi_ActivatedAt := Some t, oi_UpdatedAt := t,
             oi_Revision := inc64 (oi_Revision c)\<rparr>" by blast
  have "intents_ok s1" by (rule keeps_run [OF lifecycle_kept.deconfliction_gate_keeps [OF env] gate ok])
  then have "intents_ok s2" by (rule keeps_run [OF lifecycle_kept.dss_activation_keeps [OF env] dss])
  then have ok3: "intents_ok s3" by (rule now_ok [OF env now])
  have "swapped c s3 i s'" using activate_write.service_write(1) [OF ok3 act, of c] i by simp
  moreover have "j = i" if "j \<in> set (vals (s_operationalIntents s'))" "oi_Status j = IntentStatusActive"
    "oi_AircraftID j = oi_AircraftID i" for j
    using activate_sole_active [OF ok3, of "c\<lparr>oi_Status := IntentStatusActive, oi_ActivatedAt := Some t,
      oi_UpdatedAt := t\<rparr>" "oi_Revision c" j] act that i by simp
  ultimately show thesis using that [OF c gate rdy] dss i by auto
qed

subsection \<open>Modification\<close>

lemma modification_base_accepted:
  "oi_Status c = IntentStatusAccepted \<Longrightarrow>
     oi_ID (modification_base c) = oi_ID c \<and> oi_Version (modification_base c) = inc64 (oi_Version c)
     \<and> oi_Status (modification_base c) = IntentStatusDraft"
  by (simp add: modification_base_def)

lemma modification_write_run:
  "run_state (modification_write c i vs) (s, w) = (Inr m, (s', w')) \<longleftrightarrow>
     ReplaceOperationalIntent (oi_Version c) (oi_Revision c) i vs s = (None, s') \<and> w' = w
     \<and> m = \<lparr>mr_Intent = i\<lparr>oi_Revision := (if oi_Version i = oi_Version c then inc64 (oi_Revision c) else 0)\<rparr>,
         mr_Volumes = vs,
         mr_SupersedesIntentID = (if oi_Status c = IntentStatusAccepted then oi_ID c else []),
         mr_SupersedesVersion = (if oi_Status c = IntentStatusAccepted then oi_Version c else 0)\<rparr>"
  unfolding modification_write_def
  by (cases "ReplaceOperationalIntent (oi_Version c) (oi_Revision c) i vs s") (auto split: option.splits)

text \<open>What the store did when it replaced an intent.\<close>

lemma replaced_run:
  assumes ok: "intents_ok s" and range: "int64_range ev" "ev < max_int64"
    and run: "ReplaceOperationalIntent ev r i vs s = (None, s')"
  shows "\<exists>c. latestOperationalIntent s (oi_ID i) = Some c \<and> oi_Version c = ev \<and> oi_Revision c = r"
    and "volume_outside (oi_ID i) (oi_Version i) vs = None"
    and "latestOperationalIntent s' (oi_ID i) = Some (i\<lparr>oi_Revision := if oi_Version i = ev then inc64 r else 0\<rparr>)"
    and "s_operationalIntents s' = s_operationalIntents (store_intent (i\<lparr>oi_Revision := if oi_Version i = ev then inc64 r else 0\<rparr>) s)"
    and "s_operationalVolumes s' = replace_volumes (oi_ID i) (oi_Version i) vs (s_operationalVolumes s)"
proof -
  let ?i = "i\<lparr>oi_Revision := if oi_Version i = ev then inc64 r else 0\<rparr>"
  from run have v: "oi_Version i = ev \<or> oi_Version i = inc64 ev"
    and out: "volume_outside (oi_ID i) (oi_Version i) vs = None"
    and c: "\<exists>c. latestOperationalIntent s (oi_ID i) = Some c \<and> oi_Version c = ev \<and> oi_Revision c = r"
    and s': "s' = store_intent ?i s\<lparr>s_operationalVolumes :=
       replace_volumes (oi_ID i) (oi_Version i) vs (s_operationalVolumes s)\<rparr>"
    by (auto simp: ReplaceOperationalIntent_def Let_def split: if_splits option.splits)
  show "\<exists>c. latestOperationalIntent s (oi_ID i) = Some c \<and> oi_Version c = ev \<and> oi_Revision c = r"
    "volume_outside (oi_ID i) (oi_Version i) vs = None" by (fact c, fact out)
  have "ev \<le> oi_Version i" using v range by auto
  then have "latestOperationalIntent (store_intent ?i s) (oi_ID i) = Some ?i"
    using latest_store_intent [OF ok, of ?i "oi_ID i"] c by auto
  then show "latestOperationalIntent s' (oi_ID i) = Some ?i" by (simp add: s' latestOperationalIntent_def)
  show "s_operationalIntents s' = s_operationalIntents (store_intent ?i s)"
    "s_operationalVolumes s' = replace_volumes (oi_ID i) (oi_Version i) vs (s_operationalVolumes s)"
    by (simp_all add: s')
qed

section \<open>Properties\<close>


lemma sample_surroundings: "surroundings_ok intents_ok sample_service" "intents_ok ready_store"
  by (simp_all add: surroundings_ok_def sample_service_def sample_coordinator_def coordinator_ok_def
      ready_store_def intents_ok_def store_intent_def NewStore_def keyed_def)

lemma sample_activation:
  "\<exists>i s'. run_state (ActivateIntent sample_service ''op-1'') (ready_store, ()) = (Inr i, (s', ()))"
proof -
  have "(case fst (run_state (ActivateIntent sample_service ''op-1'') (ready_store, ())) of Inr i \<Rightarrow> True | Inl e \<Rightarrow> False)"
    by code_simp
  then show ?thesis
    by (cases "run_state (ActivateIntent sample_service ''op-1'') (ready_store, ())") (auto split: sum.splits)
qed




text \<open>
  C32: closed intents stay closed. While the latest version of an intent is complete, canceled,
  rejected or superseded, no request of the service changes it: submitting, accepting, activating,
  completing, canceling, modifying it or adding a volume fails, and store and world are as before.
\<close>

theorem closed_intents_stay:
  assumes "latestOperationalIntent s iid = Some c" and "closed_status (oi_Status c)"
  shows "(\<exists>e. run_state (SubmitIntent svc iid) (s, w) = (Inl e, (s, w)))
    \<and> (\<exists>e. run_state (AcceptIntent svc iid) (s, w) = (Inl e, (s, w)))
    \<and> (\<exists>e. run_state (ActivateIntent svc iid) (s, w) = (Inl e, (s, w)))
    \<and> (\<exists>e. run_state (CompleteIntent svc iid) (s, w) = (Inl e, (s, w)))
    \<and> (\<exists>e. run_state (CancelIntent svc iid) (s, w) = (Inl e, (s, w)))
    \<and> (\<exists>e. run_state (AddOperationalVolume svc iid vreq) (s, w) = (Inl e, (s, w)))
    \<and> (\<exists>e. run_state (ModifyIntent svc iid mreq) (s, w) = (Inl e, (s, w)))"
proof -
  have "oi_Status c \<noteq> IntentStatusDraft" "oi_Status c \<noteq> IntentStatusSubmitted" "oi_Status c \<noteq> IntentStatusReview"
    "oi_Status c \<noteq> IntentStatusAccepted" "oi_Status c \<noteq> IntentStatusActive"
    using assms(2) by (auto simp: closed_status_def)
  with assms(1) show ?thesis
    by (intro conjI) (simp_all add: SubmitIntent_def CompleteIntent_def CancelIntent_def AcceptIntent_def
      ActivateIntent_def AddOperationalVolume_def ModifyIntent_def transitionIntent_def
      transitionIntentWithPublication_def modification_guard_def load_intent_run split: option.split)
qed

theorem closed_intents_stay_witness:
  "\<exists>e. run_state (ActivateIntent sample_service ''op-1'')
     (store_intent (sample_intent\<lparr>oi_Status := IntentStatusCanceled\<rparr>) NewStore, ())
     = (Inl e, (store_intent (sample_intent\<lparr>oi_Status := IntentStatusCanceled\<rparr>) NewStore, ()))"
proof -
  let ?c = "sample_intent\<lparr>oi_Status := IntentStatusCanceled\<rparr>"
  have "latestOperationalIntent (store_intent ?c NewStore) ''op-1'' = Some ?c"
    by (simp add: latestOperationalIntent_def store_intent_def NewStore_def vals_def sample_intent_def
        select_best_def keep_better_def)
  moreover have "closed_status (oi_Status ?c)" by (simp add: closed_status_def)
  ultimately show ?thesis using closed_intents_stay [where c = ?c and svc = sample_service and w = "()"] by blast
qed

text \<open>
  Modifying what was accepted. A successful modification of an accepted intent opens the next
  version as a draft that names what it is to supersede; the accepted version stays in the store
  as it was, and so do the volumes of every other version, while the new version has exactly the
  volumes of the result. The clock does not touch the store, the identities of volumes are
  distinct and free of colons, and the version is not the last one an \<open>int\<close> can hold.
\<close>

theorem modification_reopens_accepted:
  assumes ok: "intents_ok s" "volumes_ok s"
    and c: "latestOperationalIntent s iid = Some c" "oi_Status c = IntentStatusAccepted"
    and range: "int64_range (oi_Version c)" "oi_Version c < max_int64"
    and now: "run_state (is_now svc) (s, w) = (t, (s, w1))"
    and run: "run_state (ModifyIntent svc iid req) (s, w) = (Inr m, (s', w'))"
    and vols: "list_all (\<lambda>v. CHR '':'' \<notin> set (ov_ID v)) (mr_Volumes m)" "distinct (map ov_ID (mr_Volumes m))"
  shows "mr_SupersedesIntentID m = iid \<and> mr_SupersedesVersion m = oi_Version c
    \<and> oi_Version (mr_Intent m) = oi_Version c + 1 \<and> oi_Status (mr_Intent m) = IntentStatusDraft
    \<and> GetOperationalIntent iid s' = Inr (mr_Intent m)
    \<and> GetOperationalIntentVersion iid (oi_Version c) s' = Inr c
    \<and> set (vals (s_operationalVolumes s')) =
        {v \<in> set (vals (s_operationalVolumes s)). \<not> (ov_IntentID v = iid \<and> ov_IntentVersion v = oi_Version c + 1)}
        \<union> set (mr_Volumes m)"
proof -
  let ?i = "(applyIntentModification (modification_base c) (mir_Intent req))\<lparr>oi_UpdatedAt := t\<rparr>"
  have id: "oi_ID c = iid" using c(1) latestOperationalIntent_in by blast
  have i: "oi_ID ?i = iid" "oi_Version ?i = oi_Version c + 1" "oi_Status ?i = IntentStatusDraft"
    using modification_base_accepted [OF c(2)] id range by simp_all
  from run obtain vs where wr: "run_state (modification_write c ?i vs) (s, w1) = (Inr m, (s', w'))"
    unfolding ModifyIntent_def using now c
    by (auto simp: load_intent_run Let_def simp del: run_state_bind elim!: run_bindE
        split: option.splits sum.splits if_splits)
  then have repl: "ReplaceOperationalIntent (oi_Version c) (oi_Revision c) ?i vs s = (None, s')"
    and m: "m = \<lparr>mr_Intent = ?i\<lparr>oi_Revision := 0\<rparr>, mr_Volumes = vs, mr_SupersedesIntentID = iid,
      mr_SupersedesVersion = oi_Version c\<rparr>"
    using i(2) c(2) id unfolding modification_write_run by simp_all
  note r = replaced_run [OF ok(1) range repl]
  have "map_of (s_operationalIntents s') (operationalIntentKey iid (oi_Version c)) = Some c"
    using latestOperationalIntent_lookup [OF ok(1) [unfolded intents_ok_def] c(1)] i
    by (simp add: r(4) store_intent_def del: map_of_eq_Some_iff)
  then have "GetOperationalIntentVersion iid (oi_Version c) s' = Inr c"
    by (simp add: GetOperationalIntentVersion_def del: map_of_eq_Some_iff)
  moreover have "GetOperationalIntent iid s' = Inr (mr_Intent m)"
    using r(3) i m by (simp add: GetOperationalIntent_def)
  moreover have "set (vals (s_operationalVolumes s')) =
        {v \<in> set (vals (s_operationalVolumes s)). \<not> (ov_IntentID v = iid \<and> ov_IntentVersion v = oi_Version c + 1)}
        \<union> set (mr_Volumes m)"
    using replace_volumes_set(2) [OF ok(2) r(2)] vols i m by (simp add: r(5) list_all_iff)
  ultimately show ?thesis using m i by simp
qed

theorem modification_reopens_accepted_witness:
  "\<exists>m s'. run_state (ModifyIntent sample_service ''op-1'' sample_modification) (ready_store, ()) = (Inr m, (s', ()))
     \<and> oi_Version (mr_Intent m) = 2 \<and> GetOperationalIntentVersion ''op-1'' 1 s' = Inr accepted_intent"
proof -
  let ?run = "run_state (ModifyIntent sample_service ''op-1'' sample_modification) (ready_store, ())"
  have "(case fst ?run of Inl e \<Rightarrow> False
      | Inr m \<Rightarrow> list_all (\<lambda>v. CHR '':'' \<notin> set (ov_ID v)) (mr_Volumes m) \<and> distinct (map ov_ID (mr_Volumes m)))"
    by code_simp
  then obtain m s' where run: "?run = (Inr m, (s', ()))" and vols:
    "list_all (\<lambda>v. CHR '':'' \<notin> set (ov_ID v)) (mr_Volumes m)" "distinct (map ov_ID (mr_Volumes m))"
    by (cases ?run) (auto split: sum.splits)
  have "latestOperationalIntent ready_store ''op-1'' = Some accepted_intent"
    by (simp add: latestOperationalIntent_def ready_store_def store_intent_def NewStore_def vals_def
        accepted_intent_def sample_intent_def select_best_def keep_better_def)
  moreover have "volumes_ok ready_store"
    by (simp add: volumes_ok_def ready_store_def keyed_def vals_def sample_volume_def)
  moreover have "oi_Version accepted_intent = 1" "oi_Status accepted_intent = IntentStatusAccepted"
    by (simp_all add: accepted_intent_def sample_intent_def)
  moreover have "run_state (is_now sample_service) (ready_store, ()) = (30, (ready_store, ()))"
    by (simp add: sample_service_def)
  ultimately show ?thesis
    using modification_reopens_accepted [OF sample_surroundings(2) _ _ _ _ _ _ run vols] run
    by (simp add: int64_range_def)
qed

end
