(* ===== verification/Publication.thy ===== *)
theory Publication
  imports Deconfliction
begin

text \<open>
  \<open>internal/service/deconfliction/publication.go\<close> and the publisher's side of
  \<open>internal/airspaceprovider/provider.go\<close>: how the service brings what the DSS knows of an intent
  to what the store wants it to know, retries, and tells the peers. The publisher (the DSS client)
  and \<open>sha256\<close> with its hexadecimal text are parameters. The rounds of the worker
  (\<open>ReconcileDue\<close>) are bounded by the batch sizes of the code.
\<close>

section \<open>Definitions\<close>

subsection \<open>The publisher\<close>

record PublicationRequest =
  pq_Intent :: OperationalIntent
  pq_Volumes :: "OperationalVolume list"
  pq_State :: OperationalIntentExternalState
  pq_Key :: "string list"
  pq_OVN :: string
  pq_SubscriptionID :: string

record SubscriptionState =
  sst_ID :: string
  sst_NotificationIndex :: int

record Subscriber =
  sb_USSBaseURL :: string
  sb_Subscriptions :: "SubscriptionState list"

record PublicationReceipt =
  rc_Manager :: string
  rc_Version :: int
  rc_OVN :: string
  rc_SubscriptionID :: string
  rc_USSBaseURL :: string
  rc_State :: OperationalIntentExternalState
  rc_ReferenceJSON :: bytes
  rc_Subscribers :: "Subscriber list"

definition zero_PublicationReceipt :: PublicationReceipt where
  "zero_PublicationReceipt = \<lparr>rc_Manager = [], rc_Version = 0, rc_OVN = [], rc_SubscriptionID = [],
     rc_USSBaseURL = [], rc_State = OperationalIntentExternalStateOther [], rc_ReferenceJSON = [],
     rc_Subscribers = []\<rparr>"

record 'w Publisher =
  pb_PublicationEnabled :: bool
  pb_ValidateOperationalIntent :: "PublicationRequest \<Rightarrow> go_error option"
  pb_CreateOperationalIntent :: "PublicationRequest \<Rightarrow> ('w, PublicationReceipt result) srv"
  pb_UpdateOperationalIntent :: "PublicationRequest \<Rightarrow> ('w, PublicationReceipt result) srv"
  pb_DeleteOperationalIntent :: "string \<Rightarrow> string \<Rightarrow> ('w, PublicationReceipt result) srv"
  pb_GetOperationalIntentReference :: "string \<Rightarrow> ('w, PublicationReceipt result) srv"
  pb_FindSubscribers :: "OperationalVolume list \<Rightarrow> ('w, Subscriber list result) srv"
  pb_BuildPeerNotification :: "PublicationRequest \<Rightarrow> PublicationReceipt \<Rightarrow> Subscriber \<Rightarrow> bool \<Rightarrow> bytes result"
  pb_DeliverPeerNotification :: "string \<Rightarrow> bytes \<Rightarrow> ('w, go_error option) srv"

text \<open>The service: what its checks need, the publisher, the lease, and the digest of identities.\<close>

record 'w DeconflictionService =
  ds_checker :: "'w DeconflictionChecker"
  ds_publisher :: "'w Publisher option"
  ds_publicationLease :: duration
  ds_digest :: "string \<Rightarrow> string"

abbreviation ds_now :: "'w DeconflictionService \<Rightarrow> ('w, time) srv" where
  "ds_now svc \<equiv> dc_now (ds_checker svc)"

definition publicationLease :: duration where
  "publicationLease = 30 * second"

definition publicationBatch :: nat where
  "publicationBatch = 20"

definition peerNotificationBatch :: nat where
  "peerNotificationBatch = 20"

text \<open>
  \<open>newDeconflictionService\<close>: the providers given, each with its side as a publisher where it has
  one; \<open>None\<close> stands for a nil provider.
\<close>

fun sole_publisher :: "'w Publisher option list \<Rightarrow> 'w Publisher option \<Rightarrow> 'w Publisher option result" where
  "sole_publisher [] sole = Inr sole"
| "sole_publisher (None # ps) sole = sole_publisher ps sole"
| "sole_publisher (Some p # ps) sole =
     (case sole of
        Some _ \<Rightarrow> Inl (Errorf ''only one deconfliction publisher may be configured'' [])
      | None \<Rightarrow> sole_publisher ps (Some p))"

definition newDeconflictionService ::
  "('w, time) srv \<Rightarrow> duration \<Rightarrow> geo_json \<Rightarrow> (string \<Rightarrow> string) \<Rightarrow> ('w Provider \<times> 'w Publisher option) option list
    \<Rightarrow> 'w DeconflictionService result" where
  "newDeconflictionService now lease json digest providers =
     (if lease \<le> 0 then Inl (Errorf ''DSS publication lease must be positive'' [])
      else let configured = List.map_filter id providers in
        if configured = [] then Inl (Errorf ''deconfliction airspace provider is required'' [])
        else case sole_publisher (map snd configured) None of
          Inl e \<Rightarrow> Inl e
        | Inr publisher \<Rightarrow> Inr \<lparr>ds_checker = \<lparr>dc_providers = map fst configured, dc_now = now, dc_json = json\<rparr>,
            ds_publisher = publisher, ds_publicationLease = lease, ds_digest = digest\<rparr>)"

definition PublishingEnabled :: "'w DeconflictionService \<Rightarrow> bool" where
  "PublishingEnabled svc = (case ds_publisher svc of None \<Rightarrow> False | Some p \<Rightarrow> pb_PublicationEnabled p)"

subsection \<open>Requests and reads\<close>

definition publication_request ::
  "OperationalIntent \<Rightarrow> OperationalIntentExternalState \<Rightarrow> time \<Rightarrow> OperationalIntentPublication" where
  "publication_request intent state now = zero_OperationalIntentPublication\<lparr>
     pub_IntentID := oi_ID intent, pub_DesiredIntentVersion := oi_Version intent, pub_DesiredState := state,
     pub_SyncStatus := PublicationSyncPending, pub_NextAttemptAt := now, pub_UpdatedAt := now\<rparr>"

definition service_PublicationRequest ::
  "'w DeconflictionService \<Rightarrow> OperationalIntent \<Rightarrow> OperationalIntentExternalState
    \<Rightarrow> ('w, OperationalIntentPublication) srv" where
  "service_PublicationRequest svc intent state = do {
     now \<leftarrow> ds_now svc;
     State_Monad.return (publication_request intent state now)
   }"

definition ValidatePublication ::
  "'w Publisher \<Rightarrow> OperationalIntent \<Rightarrow> OperationalIntentExternalState \<Rightarrow> Store \<Rightarrow> go_error option" where
  "ValidatePublication publisher intent state s =
     (case ListOperationalVolumes (oi_ID intent) s of
        Inl e \<Rightarrow> Some e
      | Inr all \<Rightarrow>
      let volumes = volumesForVersion all (oi_Version intent) in
      if volumes = [] then Some (Errorf ''at least one operational volume is required'' [])
      else pb_ValidateOperationalIntent publisher \<lparr>pq_Intent = intent, pq_Volumes = volumes, pq_State = state,
             pq_Key = [], pq_OVN = [], pq_SubscriptionID = []\<rparr>)"

definition GetPublication :: "string \<Rightarrow> Store \<Rightarrow> OperationalIntentPublication result" where
  "GetPublication intentID s = GetOperationalIntentPublication intentID s"

definition service_RecordReceivedPeerNotification ::
  "ReceivedPeerNotification \<Rightarrow> Store \<Rightarrow> go_error option \<times> Store" where
  "service_RecordReceivedPeerNotification notification s = RecordReceivedPeerNotification notification s"

definition GetPublishedOperationalIntent ::
  "string \<Rightarrow> int \<Rightarrow> Store \<Rightarrow> (OperationalIntentPublication \<times> OperationalVolume list) result" where
  "GetPublishedOperationalIntent intentID dssVersion s =
     (case GetPublication intentID s of
        Inl e \<Rightarrow> Inl e
      | Inr publication \<Rightarrow>
      if pub_PublishedIntentVersion publication = 0 \<or> pub_OVN publication = []
         \<or> pub_SyncStatus publication = PublicationSyncWithdrawn
         \<or> (dssVersion > 0 \<and> pub_DSSVersion publication \<noteq> dssVersion)
      then Inl ErrNotFound
      else case ListOperationalVolumes intentID s of
        Inl e \<Rightarrow> Inl e
      | Inr volumes \<Rightarrow> Inr (publication, volumesForVersion volumes (pub_PublishedIntentVersion publication)))"

subsection \<open>Errors of the DSS\<close>

text \<open>\<open>errors.As(err, &responseErr)\<close>: the first response error in the tree, here its status code.\<close>

fun response_codes :: "go_error \<Rightarrow> int list" where
  "response_codes (SCDResponseError code body) = [code]"
| "response_codes (Errorf msg ws) = concat (map response_codes ws)"
| "response_codes (ErrJoin es) = concat (map response_codes es)"
| "response_codes e = []"

definition has_status :: "go_error \<Rightarrow> int \<Rightarrow> bool" where
  "has_status e code \<longleftrightarrow> (case response_codes e of [] \<Rightarrow> False | c # cs \<Rightarrow> c = code)"

definition permanentPublicationError :: "go_error \<Rightarrow> bool" where
  "permanentPublicationError e \<longleftrightarrow> has_status e 400 \<or> has_status e 413"

definition retryableDeconflictionResult :: "DeconflictionResult \<Rightarrow> bool" where
  "retryableDeconflictionResult result \<longleftrightarrow>
     dr_Posture result = DeconflictionPostureIndeterminate
     \<and> list_ex (\<lambda>f. cf_Status f = ConflictFindingStatusIndeterminate \<and> cf_SourceType f = ConflictFindingSourceExternal)
         (dr_Findings result)"

subsection \<open>Outcomes\<close>

definition applyReceipt ::
  "PublicationReceipt \<Rightarrow> OperationalIntentPublication \<Rightarrow> OperationalIntentPublication" where
  "applyReceipt receipt publication = publication\<lparr>
     pub_Manager := rc_Manager receipt, pub_DSSVersion := rc_Version receipt, pub_OVN := rc_OVN receipt,
     pub_SubscriptionID := rc_SubscriptionID receipt, pub_USSBaseURL := rc_USSBaseURL receipt,
     pub_ReferenceJSON := rc_ReferenceJSON receipt\<rparr>"

text \<open>\<open>time.Second << min(attempts, 8)\<close>; the counts are never negative, where Go would panic.\<close>

definition retry_delay :: "int \<Rightarrow> duration" where
  "retry_delay attempts = second * 2 ^ nat (min attempts 8)"

definition failed_publication ::
  "OperationalIntentPublication \<Rightarrow> go_error \<Rightarrow> bool \<Rightarrow> time \<Rightarrow> OperationalIntentPublication" where
  "failed_publication publication cause permanent now =
     (let publication = publication\<lparr>pub_LastError := error_text cause, pub_UpdatedAt := now\<rparr>
      in if permanent then publication\<lparr>pub_SyncStatus := PublicationSyncBlocked, pub_NextAttemptAt := 0\<rparr>
         else publication\<lparr>pub_SyncStatus := PublicationSyncRetrying,
                pub_NextAttemptAt := now + retry_delay (pub_AttemptCount publication)\<rparr>)"

definition recordPublicationFailure ::
  "'w DeconflictionService \<Rightarrow> OperationalIntentPublication \<Rightarrow> int \<Rightarrow> go_error \<Rightarrow> bool
    \<Rightarrow> ('w, go_error option) srv" where
  "recordPublicationFailure svc publication expectedRevision cause permanent = do {
     now \<leftarrow> ds_now svc;
     err \<leftarrow> with_store (UpdateOperationalIntentPublication (failed_publication publication cause permanent now)
              expectedRevision);
     State_Monad.return (Some (case err of None \<Rightarrow> cause | Some e \<Rightarrow> ErrJoin [cause, e]))
   }"

definition renewPublicationLease ::
  "'w DeconflictionService \<Rightarrow> OperationalIntentPublication \<Rightarrow> ('w, go_error option) srv" where
  "renewPublicationLease svc publication = do {
     now \<leftarrow> ds_now svc;
     with_store (RenewOperationalIntentPublicationLease (pub_IntentID publication) (pub_Revision publication)
       (now + ds_publicationLease svc))
   }"

subsection \<open>Notifications of peers\<close>

definition notification_identity :: "PublicationRequest \<Rightarrow> PublicationReceipt \<Rightarrow> Subscriber \<Rightarrow> bool \<Rightarrow> string" where
  "notification_identity request receipt subscriber deleted =
     (if deleted
      then join_strings [CHR 0x00] [oi_ID (pq_Intent request), ''withdrawn'', itoa (oi_Version (pq_Intent request)),
             sb_USSBaseURL subscriber]
      else join_strings [CHR 0x00] [oi_ID (pq_Intent request), itoa (rc_Version receipt), sb_USSBaseURL subscriber])"

definition peer_notification ::
  "(string \<Rightarrow> string) \<Rightarrow> PublicationRequest \<Rightarrow> PublicationReceipt \<Rightarrow> Subscriber \<Rightarrow> bool \<Rightarrow> bytes \<Rightarrow> time \<Rightarrow> PeerNotification" where
  "peer_notification digest request receipt subscriber deleted payload now = zero_PeerNotification\<lparr>
     pn_ID := digest (notification_identity request receipt subscriber deleted),
     pn_IntentID := oi_ID (pq_Intent request), pn_IntentVersion := oi_Version (pq_Intent request),
     pn_USSBaseURL := sb_USSBaseURL subscriber, pn_Payload := payload,
     pn_NextAttemptAt := now, pn_CreatedAt := now, pn_UpdatedAt := now\<rparr>"

fun build_notifications ::
  "'w Publisher \<Rightarrow> (string \<Rightarrow> string) \<Rightarrow> PublicationRequest \<Rightarrow> PublicationReceipt \<Rightarrow> bool \<Rightarrow> time \<Rightarrow> Subscriber list
    \<Rightarrow> PeerNotification list result" where
  "build_notifications publisher digest request receipt deleted now [] = Inr []"
| "build_notifications publisher digest request receipt deleted now (subscriber # subscribers) =
     (case pb_BuildPeerNotification publisher request receipt subscriber deleted of
        Inl e \<Rightarrow> Inl e
      | Inr payload \<Rightarrow>
          (case build_notifications publisher digest request receipt deleted now subscribers of
             Inl e \<Rightarrow> Inl e
           | Inr ns \<Rightarrow> Inr (peer_notification digest request receipt subscriber deleted payload now # ns)))"

definition buildPeerNotifications ::
  "'w DeconflictionService \<Rightarrow> 'w Publisher \<Rightarrow> PublicationRequest \<Rightarrow> PublicationReceipt \<Rightarrow> bool
    \<Rightarrow> ('w, PeerNotification list result) srv" where
  "buildPeerNotifications svc publisher request receipt deleted = do {
     now \<leftarrow> ds_now svc;
     State_Monad.return (build_notifications publisher (ds_digest svc) request receipt deleted now
       (rc_Subscribers receipt))
   }"

subsection \<open>Withdrawal\<close>

definition withdrawn_publication ::
  "OperationalIntentPublication \<Rightarrow> PublicationReceipt \<Rightarrow> OperationalIntentPublication" where
  "withdrawn_publication publication receipt =
     (if rc_OVN receipt \<noteq> [] then applyReceipt receipt publication else publication)"

definition confirmWithdrawal ::
  "'w DeconflictionService \<Rightarrow> 'w Publisher \<Rightarrow> OperationalIntentPublication \<Rightarrow> int \<Rightarrow> PublicationReceipt
    \<Rightarrow> ('w, go_error option) srv" where
  "confirmWithdrawal svc publisher publication expectedRevision receipt = do {
     now \<leftarrow> ds_now svc;
     let publication = withdrawn_publication publication receipt;
     let request = \<lparr>pq_Intent = zero_OperationalIntent\<lparr>oi_ID := pub_IntentID publication,
           oi_Version := pub_DesiredIntentVersion publication\<rparr>, pq_Volumes = [],
           pq_State = OperationalIntentExternalStateOther [], pq_Key = [], pq_OVN = [], pq_SubscriptionID = []\<rparr>;
     built \<leftarrow> buildPeerNotifications svc publisher request receipt True;
     case built of
       Inl e \<Rightarrow> recordPublicationFailure svc publication expectedRevision e False
     | Inr notifications \<Rightarrow>
         with_store (ConfirmOperationalIntentPublication
           (publication\<lparr>pub_SyncStatus := PublicationSyncWithdrawn,
              pub_ConfirmedState := OperationalIntentExternalStateWithdrawn, pub_PublishedIntentVersion := 0,
              pub_ConfirmedAt := Some now, pub_LastError := [], pub_UpdatedAt := now\<rparr>)
           expectedRevision notifications)
   }"

definition recoverWithdrawalReceipt ::
  "'w Publisher \<Rightarrow> OperationalIntentPublication \<Rightarrow> ('w, PublicationReceipt result) srv" where
  "recoverWithdrawalReceipt publisher publication = do {
     listed \<leftarrow> reads (ListOperationalVolumes (pub_IntentID publication));
     case listed of
       Inl e \<Rightarrow> State_Monad.return (Inl e)
     | Inr volumes \<Rightarrow> do {
         let version = (if pub_PublishedIntentVersion publication = 0 then pub_DesiredIntentVersion publication
                        else pub_PublishedIntentVersion publication);
         r \<leftarrow> pb_FindSubscribers publisher (volumesForVersion volumes version);
         State_Monad.return (case r of
             Inl e \<Rightarrow> Inl (wrap ''recover subscribers after DSS deletion'' e)
           | Inr subscribers \<Rightarrow> Inr \<lparr>rc_Manager = pub_Manager publication, rc_Version = pub_DSSVersion publication,
               rc_OVN = pub_OVN publication, rc_SubscriptionID = pub_SubscriptionID publication,
               rc_USSBaseURL = pub_USSBaseURL publication, rc_State = pub_ConfirmedState publication,
               rc_ReferenceJSON = pub_ReferenceJSON publication, rc_Subscribers = subscribers\<rparr>)
       }
   }"

text \<open>The deletion at the DSS, once the reference is known.\<close>

definition delete_reference ::
  "'w DeconflictionService \<Rightarrow> 'w Publisher \<Rightarrow> OperationalIntentPublication \<Rightarrow> int \<Rightarrow> ('w, go_error option) srv" where
  "delete_reference svc publisher publication expectedRevision = do {
     lease \<leftarrow> renewPublicationLease svc publication;
     case lease of
       Some e \<Rightarrow> State_Monad.return (Some e)
     | None \<Rightarrow> do {
         deleted \<leftarrow> pb_DeleteOperationalIntent publisher (pub_IntentID publication) (pub_OVN publication);
         case deleted of
           Inr receipt \<Rightarrow> confirmWithdrawal svc publisher publication expectedRevision receipt
         | Inl e \<Rightarrow>
             if has_status e 404 then do {
               recovered \<leftarrow> recoverWithdrawalReceipt publisher publication;
               case recovered of
                 Inl recoverErr \<Rightarrow> recordPublicationFailure svc publication expectedRevision recoverErr False
               | Inr receipt \<Rightarrow> confirmWithdrawal svc publisher publication expectedRevision receipt
             }
             else if has_status e 409 then do {
               current \<leftarrow> pb_GetOperationalIntentReference publisher (pub_IntentID publication);
               case current of
                 Inl readErr \<Rightarrow> recordPublicationFailure svc publication expectedRevision (ErrJoin [e, readErr]) False
               | Inr receipt \<Rightarrow>
                   if rc_OVN receipt = []
                   then recordPublicationFailure svc publication expectedRevision
                          (Errorf ''DSS reference omitted manager OVN after delete conflict'' []) False
                   else recordPublicationFailure svc (applyReceipt receipt publication) expectedRevision e False
             }
             else recordPublicationFailure svc publication expectedRevision e False
       }
   }"

definition reconcile_withdrawal ::
  "'w DeconflictionService \<Rightarrow> 'w Publisher \<Rightarrow> OperationalIntentPublication \<Rightarrow> int \<Rightarrow> ('w, go_error option) srv" where
  "reconcile_withdrawal svc publisher publication expectedRevision =
     (if pub_OVN publication \<noteq> [] then delete_reference svc publisher publication expectedRevision
      else do {
        current \<leftarrow> pb_GetOperationalIntentReference publisher (pub_IntentID publication);
        case current of
          Inl e \<Rightarrow>
            if has_status e 404
            then confirmWithdrawal svc publisher publication expectedRevision zero_PublicationReceipt
            else recordPublicationFailure svc publication expectedRevision e False
        | Inr receipt \<Rightarrow>
            if rc_OVN receipt = []
            then recordPublicationFailure svc publication expectedRevision
                   (Errorf ''DSS reference omitted manager OVN'' []) False
            else delete_reference svc publisher (applyReceipt receipt publication) expectedRevision
      })"

subsection \<open>Publication\<close>

text \<open>The OVNs of the peers the check saw, each once, in order.\<close>

definition peer_key :: "OperationalIntent \<Rightarrow> ProviderIntent list \<Rightarrow> string list" where
  "peer_key intent records =
     sort (remdups (map (src_OVN \<circ> pi_Source) (filter (\<lambda>r. src_OVN (pi_Source r) \<noteq> []
       \<and> src_ReferenceID (pi_Source r) \<noteq> oi_ID intent) records)))"

text \<open>A mutation whose answer was an error: what the DSS holds now, and the failure to record.\<close>

definition mutation_failed ::
  "'w DeconflictionService \<Rightarrow> 'w Publisher \<Rightarrow> OperationalIntentPublication \<Rightarrow> int \<Rightarrow> go_error
    \<Rightarrow> ('w, go_error option) srv" where
  "mutation_failed svc publisher publication expectedRevision e = do {
     current \<leftarrow> pb_GetOperationalIntentReference publisher (pub_IntentID publication);
     case current of
       Inl _ \<Rightarrow> recordPublicationFailure svc publication expectedRevision e (permanentPublicationError e)
     | Inr receipt \<Rightarrow>
         if rc_Version receipt > pub_DSSVersion publication \<and> rc_State receipt = pub_DesiredState publication
         then recordPublicationFailure svc
                ((applyReceipt receipt publication)\<lparr>
                   pub_PublishedIntentVersion := pub_DesiredIntentVersion publication,
                   pub_ConfirmedState := rc_State receipt\<rparr>)
                expectedRevision
                (wrap ''DSS mutation response was lost before subscribers were recorded'' e) False
         else recordPublicationFailure svc
                (if rc_OVN receipt \<noteq> [] then applyReceipt receipt publication else publication)
                expectedRevision e (permanentPublicationError e)
   }"

definition confirmed_publication ::
  "OperationalIntentPublication \<Rightarrow> PublicationReceipt \<Rightarrow> time \<Rightarrow> OperationalIntentPublication" where
  "confirmed_publication publication receipt now = (applyReceipt receipt publication)\<lparr>
     pub_PublishedIntentVersion := pub_DesiredIntentVersion publication,
     pub_ConfirmedState := pub_DesiredState publication, pub_SyncStatus := PublicationSyncConfirmed,
     pub_ConfirmedAt := Some now, pub_LastError := [], pub_UpdatedAt := now\<rparr>"

definition publish_request ::
  "'w DeconflictionService \<Rightarrow> 'w Publisher \<Rightarrow> OperationalIntentPublication \<Rightarrow> int \<Rightarrow> time \<Rightarrow> PublicationRequest
    \<Rightarrow> ('w, go_error option) srv" where
  "publish_request svc publisher publication expectedRevision now request = do {
     lease \<leftarrow> renewPublicationLease svc publication;
     case lease of
       Some e \<Rightarrow> State_Monad.return (Some e)
     | None \<Rightarrow> do {
         answer \<leftarrow> (if pub_OVN publication = [] then pb_CreateOperationalIntent publisher request
                    else pb_UpdateOperationalIntent publisher request);
         case answer of
           Inl e \<Rightarrow> mutation_failed svc publisher publication expectedRevision e
         | Inr receipt \<Rightarrow> do {
             built \<leftarrow> buildPeerNotifications svc publisher request receipt False;
             case built of
               Inl e \<Rightarrow> recordPublicationFailure svc (confirmed_publication publication receipt now) expectedRevision e False
             | Inr notifications \<Rightarrow>
                 with_store (ConfirmOperationalIntentPublication (confirmed_publication publication receipt now)
                   expectedRevision notifications)
           }
       }
   }"

definition reconcile_publication ::
  "'w DeconflictionService \<Rightarrow> 'w Publisher \<Rightarrow> OperationalIntentPublication \<Rightarrow> int \<Rightarrow> time \<Rightarrow> ('w, go_error option) srv" where
  "reconcile_publication svc publisher publication expectedRevision now = do {
     loaded \<leftarrow> reads (GetOperationalIntentVersion (pub_IntentID publication) (pub_DesiredIntentVersion publication));
     case loaded of
       Inl e \<Rightarrow> recordPublicationFailure svc publication expectedRevision e True
     | Inr intent \<Rightarrow> do {
         listed \<leftarrow> reads (ListOperationalVolumes (oi_ID intent));
         case listed of
           Inl e \<Rightarrow> recordPublicationFailure svc publication expectedRevision e False
         | Inr all \<Rightarrow> do {
             let volumes = volumesForVersion all (oi_Version intent);
             (checked, records) \<leftarrow> check (ds_checker svc) intent volumes;
             case checked of
               Inl e \<Rightarrow> recordPublicationFailure svc publication expectedRevision e False
             | Inr result \<Rightarrow>
                 if dr_Posture result \<noteq> DeconflictionPostureClear
                 then recordPublicationFailure svc publication expectedRevision
                        (Errorf (''deconfliction posture is '' @ DeconflictionPosture_text (dr_Posture result)) [])
                        (\<not> retryableDeconflictionResult result)
                 else publish_request svc publisher publication expectedRevision now
                        \<lparr>pq_Intent = intent, pq_Volumes = volumes, pq_State = pub_DesiredState publication,
                         pq_Key = peer_key intent records, pq_OVN = pub_OVN publication,
                         pq_SubscriptionID = pub_SubscriptionID publication\<rparr>
           }
       }
   }"

definition reconcileClaimed ::
  "'w DeconflictionService \<Rightarrow> 'w Publisher \<Rightarrow> OperationalIntentPublication \<Rightarrow> ('w, go_error option) srv" where
  "reconcileClaimed svc publisher publication = do {
     now \<leftarrow> ds_now svc;
     if pub_DesiredState publication = OperationalIntentExternalStateWithdrawn
     then reconcile_withdrawal svc publisher publication (pub_Revision publication)
     else reconcile_publication svc publisher publication (pub_Revision publication) now
   }"

definition ReconcileIntent :: "'w DeconflictionService \<Rightarrow> string \<Rightarrow> ('w, go_error option) srv" where
  "ReconcileIntent svc intentID =
     (case ds_publisher svc of
        Some publisher \<Rightarrow>
          if \<not> pb_PublicationEnabled publisher
          then State_Monad.return (Some (Errorf ''DSS publication is not configured'' []))
          else do {
            now \<leftarrow> ds_now svc;
            claimed \<leftarrow> with_store (ClaimOperationalIntentPublication intentID now (now + ds_publicationLease svc));
            case claimed of
              Inl e \<Rightarrow> State_Monad.return (Some e)
            | Inr publication \<Rightarrow> reconcileClaimed svc publisher publication
          }
      | None \<Rightarrow> State_Monad.return (Some (Errorf ''DSS publication is not configured'' [])))"

subsection \<open>The worker\<close>

definition delivered_notification ::
  "PeerNotification \<Rightarrow> go_error option \<Rightarrow> time \<Rightarrow> PeerNotification" where
  "delivered_notification notification err now =
     (let notification = notification\<lparr>pn_UpdatedAt := now\<rparr>
      in case err of
           None \<Rightarrow> notification\<lparr>pn_DeliveredAt := Some now, pn_LastError := []\<rparr>
         | Some e \<Rightarrow> notification\<lparr>pn_LastError := error_text e,
             pn_NextAttemptAt := now + retry_delay (pn_AttemptCount notification)\<rparr>)"

fun deliver_rounds ::
  "'w DeconflictionService \<Rightarrow> 'w Publisher \<Rightarrow> nat \<Rightarrow> go_error list \<Rightarrow> ('w, go_error list) srv" where
  "deliver_rounds svc publisher 0 errs = State_Monad.return errs"
| "deliver_rounds svc publisher (Suc n) errs = do {
     now \<leftarrow> ds_now svc;
     claimed \<leftarrow> with_store (ClaimDuePeerNotifications now (now + ds_publicationLease svc) 1);
     case claimed of
       Inl e \<Rightarrow> State_Monad.return (errs @ [e])
     | Inr [] \<Rightarrow> State_Monad.return errs
     | Inr (notification # _) \<Rightarrow> do {
         err \<leftarrow> pb_DeliverPeerNotification publisher (pn_USSBaseURL notification) (pn_Payload notification);
         now \<leftarrow> ds_now svc;
         updateErr \<leftarrow> with_store (UpdatePeerNotification (delivered_notification notification err now)
                        (pn_Revision notification));
         deliver_rounds svc publisher n
           (errs @ (case err of None \<Rightarrow> [] | Some e \<Rightarrow> [e]) @ (case updateErr of None \<Rightarrow> [] | Some e \<Rightarrow> [e]))
       }
   }"

definition DeliverDuePeerNotifications :: "'w DeconflictionService \<Rightarrow> ('w, go_error option) srv" where
  "DeliverDuePeerNotifications svc =
     (case ds_publisher svc of
        None \<Rightarrow> State_Monad.return None
      | Some publisher \<Rightarrow>
          if \<not> pb_PublicationEnabled publisher then State_Monad.return None
          else do {
            errs \<leftarrow> deliver_rounds svc publisher peerNotificationBatch [];
            State_Monad.return (join_errors errs)
          })"

fun reconcile_rounds ::
  "'w DeconflictionService \<Rightarrow> 'w Publisher \<Rightarrow> nat \<Rightarrow> go_error list \<Rightarrow> ('w, go_error list) srv" where
  "reconcile_rounds svc publisher 0 errs = State_Monad.return errs"
| "reconcile_rounds svc publisher (Suc n) errs = do {
     now \<leftarrow> ds_now svc;
     claimed \<leftarrow> with_store (ClaimDueOperationalIntentPublications now (now + ds_publicationLease svc) 1);
     case claimed of
       Inl e \<Rightarrow> State_Monad.return (errs @ [e])
     | Inr [] \<Rightarrow> State_Monad.return errs
     | Inr (publication # _) \<Rightarrow> do {
         err \<leftarrow> reconcileClaimed svc publisher publication;
         reconcile_rounds svc publisher n
           (errs @ (case err of None \<Rightarrow> [] | Some e \<Rightarrow> [wrap (''reconcile intent '' @ pub_IntentID publication) e]))
       }
   }"

definition ReconcileDue :: "'w DeconflictionService \<Rightarrow> ('w, go_error option) srv" where
  "ReconcileDue svc =
     (case ds_publisher svc of
        None \<Rightarrow> State_Monad.return None
      | Some publisher \<Rightarrow>
          if \<not> pb_PublicationEnabled publisher then State_Monad.return None
          else do {
            errs \<leftarrow> reconcile_rounds svc publisher publicationBatch [];
            err \<leftarrow> DeliverDuePeerNotifications svc;
            State_Monad.return (join_errors (errs @ (case err of None \<Rightarrow> [] | Some e \<Rightarrow> [e])))
          })"

subsection \<open>What the worker keeps true\<close>

text \<open>A publication waits for work, or is settled until somebody asks for something else.\<close>

definition work_left :: "OperationalIntentPublication \<Rightarrow> bool" where
  "work_left p \<longleftrightarrow> pub_SyncStatus p \<in> {PublicationSyncPending, PublicationSyncRetrying, PublicationSyncProcessing}"

definition settled :: "OperationalIntentPublication \<Rightarrow> bool" where
  "settled p \<longleftrightarrow> pub_SyncStatus p \<in> {PublicationSyncConfirmed, PublicationSyncWithdrawn, PublicationSyncBlocked}"

definition pubs_live :: "Store \<Rightarrow> bool" where
  "pubs_live s \<longleftrightarrow> pubs_ok s \<and> (\<forall>k p. map_of (s_publications s) k = Some p \<longrightarrow> work_left p \<or> settled p)"

definition notifications_ok :: "Store \<Rightarrow> bool" where
  "notifications_ok s \<longleftrightarrow> distinct_keys (s_peerNotifications s)"

definition deliveries_ok :: "(string \<Rightarrow> bytes \<Rightarrow> bool) \<Rightarrow> Store \<Rightarrow> bool" where
  "deliveries_ok accepted s \<longleftrightarrow> notifications_ok s
     \<and> (\<forall>k n. map_of (s_peerNotifications s) k = Some n \<longrightarrow> pn_DeliveredAt n \<noteq> None
          \<longrightarrow> accepted (pn_USSBaseURL n) (pn_Payload n))"

definition checker_keeps :: "(Store \<Rightarrow> bool) \<Rightarrow> 'w DeconflictionChecker \<Rightarrow> bool" where
  "checker_keeps I c \<longleftrightarrow> keeps I (dc_now c) \<and> (\<forall>p \<in> set (dc_providers c). \<forall>q. keeps I (pr_FindOperationalIntents p q))"

definition publisher_keeps :: "(Store \<Rightarrow> bool) \<Rightarrow> 'w Publisher \<Rightarrow> bool" where
  "publisher_keeps I p \<longleftrightarrow> (\<forall>q. keeps I (pb_CreateOperationalIntent p q)) \<and> (\<forall>q. keeps I (pb_UpdateOperationalIntent p q))
     \<and> (\<forall>i v. keeps I (pb_DeleteOperationalIntent p i v)) \<and> (\<forall>i. keeps I (pb_GetOperationalIntentReference p i))
     \<and> (\<forall>vs. keeps I (pb_FindSubscribers p vs)) \<and> (\<forall>u x. keeps I (pb_DeliverPeerNotification p u x))"

text \<open>A DSS that takes everything and knows one subscriber, and an accepted intent to be published.\<close>

definition sample_receipt :: PublicationReceipt where
  "sample_receipt = zero_PublicationReceipt\<lparr>rc_Version := 1, rc_OVN := ''ovn-1'',
     rc_Subscribers := [\<lparr>sb_USSBaseURL = ''https://peer'', sb_Subscriptions = []\<rparr>]\<rparr>"

definition sample_publisher :: "unit Publisher" where
  "sample_publisher = \<lparr>pb_PublicationEnabled = True, pb_ValidateOperationalIntent = (\<lambda>q. None),
     pb_CreateOperationalIntent = (\<lambda>q. State_Monad.return (Inr sample_receipt)),
     pb_UpdateOperationalIntent = (\<lambda>q. State_Monad.return (Inr sample_receipt)),
     pb_DeleteOperationalIntent = (\<lambda>i v. State_Monad.return (Inr sample_receipt)),
     pb_GetOperationalIntentReference = (\<lambda>i. State_Monad.return (Inr sample_receipt)),
     pb_FindSubscribers = (\<lambda>vs. State_Monad.return (Inr [])),
     pb_BuildPeerNotification = (\<lambda>q r b del. Inr ''payload''),
     pb_DeliverPeerNotification = (\<lambda>u x. State_Monad.return None)\<rparr>"

definition sample_deconfliction :: "unit DeconflictionService" where
  "sample_deconfliction = \<lparr>ds_checker = sample_checker, ds_publisher = Some sample_publisher,
     ds_publicationLease = publicationLease, ds_digest = id\<rparr>"

definition publish_store :: Store where
  "publish_store = (store_intent (sample_intent\<lparr>oi_Status := IntentStatusAccepted\<rparr>) NewStore)\<lparr>
     s_operationalVolumes := [(operationalVolumeKey placed_volume, placed_volume)],
     s_publications := [(''op-1'', sample_publication)]\<rparr>"

section \<open>Lemmas\<close>

subsection \<open>Retries\<close>

lemma retry_delay_bounds: "0 \<le> n \<Longrightarrow> second \<le> retry_delay n \<and> retry_delay n \<le> 256 * second"
proof -
  assume "0 \<le> n"
  have "(2 :: int) ^ nat (min n 8) \<le> 2 ^ 8" by (rule power_increasing) auto
  moreover have "(1 :: int) \<le> 2 ^ nat (min n 8)" by simp
  ultimately show ?thesis by (simp add: retry_delay_def second_def)
qed

lemma retry_delay_mono: "0 \<le> m \<Longrightarrow> m \<le> n \<Longrightarrow> retry_delay m \<le> retry_delay n"
  by (auto simp: retry_delay_def second_def intro!: power_increasing)

lemma failed_publication_simps [simp]:
  "pub_IntentID (failed_publication p e b t) = pub_IntentID p"
  "pub_SyncStatus (failed_publication p e b t) = (if b then PublicationSyncBlocked else PublicationSyncRetrying)"
  "pub_NextAttemptAt (failed_publication p e b t) = (if b then 0 else t + retry_delay (pub_AttemptCount p))"
  by (simp_all add: failed_publication_def Let_def)

lemma applyReceipt_simps [simp]:
  "pub_IntentID (applyReceipt r p) = pub_IntentID p" "pub_OVN (applyReceipt r p) = rc_OVN r"
  "pub_DesiredState (applyReceipt r p) = pub_DesiredState p" "pub_Revision (applyReceipt r p) = pub_Revision p"
  "pub_DesiredIntentVersion (applyReceipt r p) = pub_DesiredIntentVersion p"
  by (simp_all add: applyReceipt_def)

lemma confirmed_publication_simps [simp]:
  "pub_IntentID (confirmed_publication p r t) = pub_IntentID p"
  "pub_SyncStatus (confirmed_publication p r t) = PublicationSyncConfirmed"
  "pub_ConfirmedState (confirmed_publication p r t) = pub_DesiredState p"
  "pub_PublishedIntentVersion (confirmed_publication p r t) = pub_DesiredIntentVersion p"
  by (simp_all add: confirmed_publication_def)

lemma build_notifications_undelivered:
  "build_notifications publisher d q r del t subs = Inr ns \<Longrightarrow> n \<in> set ns \<Longrightarrow> pn_DeliveredAt n = None"
  by (induction subs arbitrary: ns)
    (auto simp: peer_notification_def zero_PeerNotification_def split: sum.splits)

lemma build_notifications_ids:
  "build_notifications publisher d q r del t subs = Inr ns \<Longrightarrow>
     map pn_ID ns = map (\<lambda>b. d (notification_identity q r b del)) subs"
  by (induction subs arbitrary: ns) (auto simp: peer_notification_def split: sum.splits)

subsection \<open>Claims of notifications\<close>

lemma claim_notifications_spec:
  assumes "claim_notifications ids now u s = (cl, s')" and "distinct ids"
    and "set ids \<subseteq> dom (map_of (s_peerNotifications s))"
  shows "map Some cl = map (\<lambda>i. map_option (claimed_notification now u) (map_of (s_peerNotifications s) i)) ids
    \<and> (\<forall>k. map_of (s_peerNotifications s') k =
      (if k \<in> set ids then map_option (claimed_notification now u) (map_of (s_peerNotifications s) k)
       else map_of (s_peerNotifications s) k))
    \<and> (distinct_keys (s_peerNotifications s) \<longrightarrow> distinct_keys (s_peerNotifications s'))
    \<and> s_operationalIntents s' = s_operationalIntents s \<and> s_publications s' = s_publications s"
  using assms
proof (induction ids arbitrary: s cl s')
  case (Cons i ids)
  obtain n where n: "map_of (s_peerNotifications s) i = Some n" using Cons.prems(3) by auto
  let ?n = "claimed_notification now u n"
  let ?s = "s\<lparr>s_peerNotifications := AList.update i ?n (s_peerNotifications s)\<rparr>"
  obtain cl' where run: "claim_notifications ids now u ?s = (cl', s')" and cl: "cl = ?n # cl'"
    using Cons.prems(1) n by (auto simp: Let_def simp del: map_of_eq_Some_iff split: prod.splits)
  have dom: "set ids \<subseteq> dom (map_of (s_peerNotifications ?s))" and dist: "distinct ids" "i \<notin> set ids"
    using Cons.prems by auto
  from Cons.IH [OF run dist(1) dom] show ?case using n dist(2) cl by (auto simp: distinct_update)
qed auto

lemma claim_due_notifications_run:
  assumes ok: "notifications_ok s" and run: "ClaimDuePeerNotifications now u l s = (r, s')"
  shows "notifications_ok s'" and "s_operationalIntents s' = s_operationalIntents s"
    and "s_publications s' = s_publications s"
    and "r = Inr ns \<Longrightarrow> n \<in> set ns \<Longrightarrow> pn_DeliveredAt n = None"
    and "map_of (s_peerNotifications s') k = Some n \<Longrightarrow> pn_DeliveredAt n \<noteq> None \<Longrightarrow>
      map_of (s_peerNotifications s) k = Some n"
proof -
  let ?due = "sort (map fst (filter (\<lambda>(i, n). notification_due now n) (s_peerNotifications s)))"
  let ?ids = "if l < int (length ?due) then take (nat (max l 0)) ?due else ?due"
  obtain cl s1 where c: "claim_notifications ?ids now u s = (cl, s1)" by force
  then have r: "r = Inr cl" "s' = s1"
    using run by (simp_all add: ClaimDuePeerNotifications_def Let_def)
  have due: "\<exists>m. map_of (s_peerNotifications s) i = Some m \<and> pn_DeliveredAt m = None" if "i \<in> set ?ids" for i
  proof -
    have "i \<in> set ?due" using that set_take_subset by (fastforce split: if_splits)
    then show ?thesis using ok by (auto simp: notification_due_def notifications_ok_def)
  qed
  have dist: "distinct ?ids"
    using ok by (auto simp: notifications_ok_def intro!: distinct_take distinct_map_filter)
  have dom: "set ?ids \<subseteq> dom (map_of (s_peerNotifications s))" using due by blast
  note spec = claim_notifications_spec [OF c dist dom]
  show "notifications_ok s'" "s_operationalIntents s' = s_operationalIntents s" "s_publications s' = s_publications s"
    using spec ok r by (simp_all add: notifications_ok_def)
  show "pn_DeliveredAt n = None" if "r = Inr ns" "n \<in> set ns"
  proof -
    have "Some n \<in> set (map Some cl)" using that r by simp
    with spec obtain i where "i \<in> set ?ids" "Some n = map_option (claimed_notification now u) (map_of (s_peerNotifications s) i)"
      by auto
    with due show ?thesis by (fastforce simp: claimed_notification_def)
  qed
  show "map_of (s_peerNotifications s) k = Some n" if "map_of (s_peerNotifications s') k = Some n" "pn_DeliveredAt n \<noteq> None"
    using spec that due [of k] r by (fastforce simp: claimed_notification_def split: if_splits)
qed

subsection \<open>Invariants of the store under the worker\<close>

text \<open>
  The contract of an invariant with the calls of the store that a reconciliation makes. The lemmas
  follow the code from its leaves to \<open>ReconcileIntent\<close>.
\<close>

locale publication_invariant =
  fixes I :: "Store \<Rightarrow> bool"
  assumes inv_findings: "I s \<Longrightarrow> I (s\<lparr>s_conflictFindings := fs\<rparr>)"
    and inv_renew: "I s \<Longrightarrow> I (snd (RenewOperationalIntentPublicationLease i r t s))"
    and inv_outcome: "I s \<Longrightarrow> work_left p \<or> settled p \<Longrightarrow> I (snd (UpdateOperationalIntentPublication p r s))"
    and inv_confirm: "I s \<Longrightarrow> settled p \<Longrightarrow> (\<And>n. n \<in> set ns \<Longrightarrow> pn_DeliveredAt n = None) \<Longrightarrow>
      I (snd (ConfirmOperationalIntentPublication p r ns s))"
    and inv_claim: "I s \<Longrightarrow> I (snd (ClaimOperationalIntentPublication i t u s))"
begin

lemma failure_keeps: "checker_keeps I (ds_checker svc) \<Longrightarrow> keeps I (recordPublicationFailure svc p r e b)"
  unfolding recordPublicationFailure_def
  by (intro keeps_bind keeps_with_store)
    (auto simp: checker_keeps_def work_left_def settled_def intro!: inv_outcome)

lemma renew_keeps: "checker_keeps I (ds_checker svc) \<Longrightarrow> keeps I (renewPublicationLease svc p)"
  unfolding renewPublicationLease_def
  by (intro keeps_bind keeps_with_store) (auto simp: checker_keeps_def intro: inv_renew)

lemma build_keeps: "checker_keeps I (ds_checker svc) \<Longrightarrow> keeps I (buildPeerNotifications svc publisher q r del)"
  unfolding buildPeerNotifications_def by (intro keeps_bind) (auto simp: checker_keeps_def)

lemma built_undelivered:
  "run_state (buildPeerNotifications svc publisher q r del) (s, w) = (Inr ns, \<sigma>) \<Longrightarrow> n \<in> set ns \<Longrightarrow> pn_DeliveredAt n = None"
  unfolding buildPeerNotifications_def
  by (auto elim!: run_bindE simp del: run_state_bind dest: build_notifications_undelivered)

lemma confirm_keeps:
  assumes "checker_keeps I (ds_checker svc)" and "settled p" and "\<And>e. keeps I (g e)"
  shows "keeps I (do {
    built \<leftarrow> buildPeerNotifications svc publisher q receipt del;
    case built of Inl e \<Rightarrow> g e | Inr ns \<Rightarrow> with_store (ConfirmOperationalIntentPublication p r ns) })"
proof (rule keeps_bind_run [OF build_keeps [OF assms(1)]])
  fix s w built s1 w1
  assume run: "run_state (buildPeerNotifications svc publisher q receipt del) (s, w) = (built, (s1, w1))"
  show "keeps I (case built of Inl e \<Rightarrow> g e | Inr ns \<Rightarrow> with_store (ConfirmOperationalIntentPublication p r ns))"
  proof (cases built)
    case (Inr ns)
    have "keeps I (with_store (ConfirmOperationalIntentPublication p r ns))"
      using built_undelivered [OF run [unfolded Inr]] by (intro keeps_with_store inv_confirm [OF _ assms(2)])
    then show ?thesis by (simp add: Inr)
  qed (simp add: assms(3))
qed

lemma confirm_withdrawal_keeps:
  assumes "checker_keeps I (ds_checker svc)"
  shows "keeps I (confirmWithdrawal svc publisher p r receipt)"
  unfolding confirmWithdrawal_def Let_def
  using assms failure_keeps [OF assms]
  by (intro keeps_bind confirm_keeps) (simp_all add: checker_keeps_def settled_def)

lemma delete_keeps:
  assumes c: "checker_keeps I (ds_checker svc)" and p: "publisher_keeps I publisher"
  shows "keeps I (delete_reference svc publisher p r)"
proof -
  have "keeps I (recoverWithdrawalReceipt publisher p)"
    unfolding recoverWithdrawalReceipt_def Let_def using p
    by (auto simp: publisher_keeps_def intro!: keeps_bind split: sum.splits)
  with c p show ?thesis
    unfolding delete_reference_def
    by (auto simp: publisher_keeps_def intro!: keeps_bind renew_keeps failure_keeps confirm_withdrawal_keeps
        split: option.splits sum.splits)
qed

lemma withdrawal_keeps:
  "checker_keeps I (ds_checker svc) \<Longrightarrow> publisher_keeps I publisher \<Longrightarrow> keeps I (reconcile_withdrawal svc publisher p r)"
  unfolding reconcile_withdrawal_def
  by (auto simp: publisher_keeps_def intro!: keeps_bind failure_keeps confirm_withdrawal_keeps delete_keeps
      split: sum.splits)

lemma discover_keeps:
  "(\<And>p. p \<in> set ps \<Longrightarrow> keeps I (pr_FindOperationalIntents p q)) \<Longrightarrow> keeps I (discover ps q acc fs)"
proof (induction ps arbitrary: acc fs)
  case (Cons p ps)
  show ?case
    unfolding discover.simps
  proof (rule keeps_bind)
    show "keeps I (pr_FindOperationalIntents p q)" by (rule Cons.prems) simp
    show "keeps I (case x of (recs, err) \<Rightarrow> discover ps q (fold (add_record (pr_ID p)) recs acc)
        (case err of None \<Rightarrow> fs | Some e \<Rightarrow> fs @ [provider_finding (pr_ID p) e]))" for x
      by (cases x) (simp add: Cons.IH Cons.prems)
  qed
qed simp

lemma check_keeps: "checker_keeps I c \<Longrightarrow> keeps I (check c i vs)"
  unfolding check_def Let_def discoverOperationalIntents_def
  by (auto simp: checker_keeps_def finalize_eq intro!: keeps_bind discover_keeps keeps_with_store inv_findings
      split: prod.splits)

lemma publish_keeps:
  assumes c: "checker_keeps I (ds_checker svc)" and p: "publisher_keeps I publisher"
  shows "keeps I (publish_request svc publisher p r t q)"
proof -
  have "keeps I (mutation_failed svc publisher p r e)" for e
    unfolding mutation_failed_def using c p
    by (auto simp: publisher_keeps_def intro!: keeps_bind failure_keeps split: sum.splits)
  moreover have "keeps I (do {
      built \<leftarrow> buildPeerNotifications svc publisher q receipt False;
      case built of
        Inl e \<Rightarrow> recordPublicationFailure svc (confirmed_publication p receipt t) r e False
      | Inr ns \<Rightarrow> with_store (ConfirmOperationalIntentPublication (confirmed_publication p receipt t) r ns) })" for receipt
    by (rule confirm_keeps [OF c _ failure_keeps [OF c]]) (simp add: settled_def)
  moreover have "keeps I (pb_CreateOperationalIntent publisher q)" "keeps I (pb_UpdateOperationalIntent publisher q)"
    using p by (simp_all add: publisher_keeps_def)
  ultimately show ?thesis
    unfolding publish_request_def
    by (intro keeps_bind renew_keeps [OF c]) (auto intro!: keeps_bind split: option.split sum.split)
qed

lemma reconcile_keeps:
  assumes c: "checker_keeps I (ds_checker svc)" and p: "publisher_keeps I publisher"
  shows "keeps I (reconcileClaimed svc publisher p)"
proof -
  have "keeps I (reconcile_publication svc publisher p r t)" for r t
    unfolding reconcile_publication_def Let_def
    using check_keeps [OF c] publish_keeps [OF c p] failure_keeps [OF c]
    by (auto intro!: keeps_bind split: sum.splits prod.splits)
  with withdrawal_keeps [OF c p] c show ?thesis
    unfolding reconcileClaimed_def by (auto simp: checker_keeps_def intro!: keeps_bind)
qed

lemma reconcile_intent_keeps:
  assumes "checker_keeps I (ds_checker svc)" and "\<And>p. ds_publisher svc = Some p \<Longrightarrow> publisher_keeps I p"
  shows "keeps I (ReconcileIntent svc iid)"
  unfolding ReconcileIntent_def using assms
  by (auto simp: checker_keeps_def intro!: keeps_bind keeps_with_store inv_claim reconcile_keeps
      split: option.splits sum.splits)

end

text \<open>And with those of the worker, up to \<open>ReconcileDue\<close>; \<open>accepted\<close> is what the peers took.\<close>

locale worker_invariant = publication_invariant I for I :: "Store \<Rightarrow> bool" +
  fixes accepted :: "string \<Rightarrow> bytes \<Rightarrow> bool"
  assumes inv_notifications: "I s \<Longrightarrow> notifications_ok s"
    and inv_claim_due: "I s \<Longrightarrow> I (snd (ClaimDueOperationalIntentPublications t u l s))"
    and inv_claim_notifications: "I s \<Longrightarrow> I (snd (ClaimDuePeerNotifications t u l s))"
    and inv_notification: "I s \<Longrightarrow> (pn_DeliveredAt n \<noteq> None \<Longrightarrow> accepted (pn_USSBaseURL n) (pn_Payload n)) \<Longrightarrow>
      I (snd (UpdatePeerNotification n r s))"
begin

lemma deliver_keeps:
  assumes c: "checker_keeps I (ds_checker svc)" and p: "publisher_keeps I publisher"
    and acc: "\<And>u x \<tau> \<tau>'. run_state (pb_DeliverPeerNotification publisher u x) \<tau> = (None, \<tau>') \<Longrightarrow> accepted u x"
  shows "keeps I (deliver_rounds svc publisher n errs)"
proof (induction n arbitrary: errs)
  case (Suc n)
  have now: "keeps I (ds_now svc)" and del: "keeps I (pb_DeliverPeerNotification publisher u x)" for u x
    using c p by (simp_all add: checker_keeps_def publisher_keeps_def)
  have upd: "keeps I (with_store (UpdatePeerNotification (delivered_notification m err t) r))"
    if "pn_DeliveredAt m = None" "err = None \<Longrightarrow> accepted (pn_USSBaseURL m) (pn_Payload m)" for m err t r
    using that by (intro keeps_with_store inv_notification)
      (auto simp: delivered_notification_def Let_def split: option.splits)
  have one: "keeps I (do {
      err \<leftarrow> pb_DeliverPeerNotification publisher (pn_USSBaseURL m) (pn_Payload m);
      now \<leftarrow> ds_now svc;
      updateErr \<leftarrow> with_store (UpdatePeerNotification (delivered_notification m err now) (pn_Revision m));
      deliver_rounds svc publisher n (f err updateErr) })" if "pn_DeliveredAt m = None" for m f
  proof (rule keeps_bind_run [OF del], rule keeps_bind [OF now], rule keeps_bind)
    fix s w err s1 w1 t
    assume run: "run_state (pb_DeliverPeerNotification publisher (pn_USSBaseURL m) (pn_Payload m)) (s, w) = (err, (s1, w1))"
    show "keeps I (with_store (UpdatePeerNotification (delivered_notification m err t) (pn_Revision m)))"
    proof (rule upd [OF that])
      assume "err = None"
      with run show "accepted (pn_USSBaseURL m) (pn_Payload m)" using acc by simp
    qed
  qed (rule Suc.IH)
  have claim: "keeps I (with_store (ClaimDuePeerNotifications t u l))" for t u l
    by (rule keeps_with_store) (rule inv_claim_notifications)
  show ?case
  proof (simp only: deliver_rounds.simps, rule keeps_bind [OF now], rule keeps_bind_run [OF claim], goal_cases)
    case (1 t s w claimed s1 w1)
    have run: "ClaimDuePeerNotifications t (t + ds_publicationLease svc) 1 s = (claimed, s1)"
      using 1(2) by (simp add: prod_eq_iff)
    have "pn_DeliveredAt m = None" if "claimed = Inr (m # ms)" for m ms
      using claim_due_notifications_run(4) [OF inv_notifications [OF 1(1)] run that] by simp
    then show ?case using one by (cases claimed) (auto split: list.split)
  qed
qed simp

lemma reconcile_rounds_keeps:
  assumes "checker_keeps I (ds_checker svc)" and "publisher_keeps I publisher"
  shows "keeps I (reconcile_rounds svc publisher n errs)"
  using assms
proof (induction n arbitrary: errs)
  case (Suc n)
  have now: "keeps I (ds_now svc)" using Suc.prems by (simp add: checker_keeps_def)
  have claim: "keeps I (with_store (ClaimDueOperationalIntentPublications t u l))" for t u l
    by (rule keeps_with_store) (rule inv_claim_due)
  show ?case
    unfolding reconcile_rounds.simps
    by (rule keeps_bind [OF now], rule keeps_bind [OF claim])
      (auto intro!: keeps_bind Suc.IH Suc.prems reconcile_keeps split: sum.split list.split)
qed simp

lemma reconcile_due_keeps:
  assumes c: "checker_keeps I (ds_checker svc)" and p: "\<And>p. ds_publisher svc = Some p \<Longrightarrow> publisher_keeps I p"
    and acc: "\<And>p u x \<tau> \<tau>'. ds_publisher svc = Some p \<Longrightarrow>
      run_state (pb_DeliverPeerNotification p u x) \<tau> = (None, \<tau>') \<Longrightarrow> accepted u x"
  shows "keeps I (ReconcileDue svc)"
proof -
  have "keeps I (DeliverDuePeerNotifications svc)"
    unfolding DeliverDuePeerNotifications_def using c p acc
    by (auto intro!: keeps_bind deliver_keeps split: option.splits)
  then show ?thesis
    unfolding ReconcileDue_def using c p
    by (auto intro!: keeps_bind reconcile_rounds_keeps split: option.splits)
qed

end

text \<open>What the calls of the worker leave alone.\<close>

lemma claim_publications_frame:
  "s_peerNotifications (snd (claim_publications ids t u s)) = s_peerNotifications s"
  "s_operationalIntents (snd (claim_publications ids t u s)) = s_operationalIntents s"
  by (induction ids arbitrary: s) (simp_all add: Let_def split_beta)

lemma worker_frames [store_frame]:
  "s_peerNotifications (snd (RenewOperationalIntentPublicationLease i r t s)) = s_peerNotifications s"
  "s_peerNotifications (snd (UpdateOperationalIntentPublication p r s)) = s_peerNotifications s"
  "s_peerNotifications (snd (ClaimOperationalIntentPublication i t u s)) = s_peerNotifications s"
  "s_peerNotifications (snd (ClaimDueOperationalIntentPublications t u l s)) = s_peerNotifications s"
  "s_publications (snd (UpdatePeerNotification n r s)) = s_publications s"
  "s_operationalIntents (snd (RenewOperationalIntentPublicationLease i r t s)) = s_operationalIntents s"
  "s_operationalIntents (snd (UpdateOperationalIntentPublication p r s)) = s_operationalIntents s"
  "s_operationalIntents (snd (ConfirmOperationalIntentPublication p r ns s)) = s_operationalIntents s"
  "s_operationalIntents (snd (ClaimOperationalIntentPublication i t u s)) = s_operationalIntents s"
  "s_operationalIntents (snd (ClaimDueOperationalIntentPublications t u l s)) = s_operationalIntents s"
  "s_operationalIntents (snd (UpdatePeerNotification n r s)) = s_operationalIntents s"
  by (simp_all add: RenewOperationalIntentPublicationLease_def UpdateOperationalIntentPublication_def
      ConfirmOperationalIntentPublication_def ClaimOperationalIntentPublication_def enqueuePeerNotificationsLocked_def
      ClaimDueOperationalIntentPublications_def UpdatePeerNotification_def claim_publications_frame Let_def split_beta
      split: option.split)

lemma notifications_ok_frame: "s_peerNotifications s' = s_peerNotifications s \<Longrightarrow> notifications_ok s' = notifications_ok s"
  by (simp add: notifications_ok_def)

lemma notifications_ok_update: "notifications_ok s \<Longrightarrow> notifications_ok (snd (UpdatePeerNotification n r s))"
  by (simp add: notifications_ok_def UpdatePeerNotification_def split: option.split)

lemma enqueue_all_distinct: "distinct_keys m \<Longrightarrow> distinct_keys (fold enqueue_notification ns m)"
  by (induction ns arbitrary: m) (auto simp: enqueue_notification_def)

lemma notifications_ok_confirm: "notifications_ok s \<Longrightarrow> notifications_ok (snd (ConfirmOperationalIntentPublication p r ns s))"
  by (simp add: notifications_ok_def ConfirmOperationalIntentPublication_def enqueuePeerNotificationsLocked_def
      enqueue_all_distinct split: option.split)

lemma claim_notifications_keep:
  assumes "notifications_ok s"
  shows "notifications_ok (snd (ClaimDuePeerNotifications t u l s))"
    "s_operationalIntents (snd (ClaimDuePeerNotifications t u l s)) = s_operationalIntents s"
    "s_publications (snd (ClaimDuePeerNotifications t u l s)) = s_publications s"
  using claim_due_notifications_run(1-3) [OF assms, of t u l] by (metis prod.collapse)+

lemmas notifications_frame = notifications_ok_update notifications_ok_confirm claim_notifications_keep

lemma findings_frame [simp]:
  "intents_ok (s\<lparr>s_conflictFindings := fs\<rparr>) = intents_ok s"
  "pubs_live (s\<lparr>s_conflictFindings := fs\<rparr>) = pubs_live s"
  "notifications_ok (s\<lparr>s_conflictFindings := fs\<rparr>) = notifications_ok s"
  "deliveries_ok a (s\<lparr>s_conflictFindings := fs\<rparr>) = deliveries_ok a s"
  by (simp_all add: intents_ok_def pubs_live_def pubs_ok_def notifications_ok_def deliveries_ok_def)

lemmas notifications_ok_frames =
  worker_frames(1) [THEN notifications_ok_frame] worker_frames(2) [THEN notifications_ok_frame]
  worker_frames(3) [THEN notifications_ok_frame] worker_frames(4) [THEN notifications_ok_frame]

interpretation intents_kept: publication_invariant intents_ok
  by unfold_locales (simp_all add: intents_ok_def worker_frames)

lemma pubs_live_put:
  "pubs_live s \<Longrightarrow> work_left p \<or> settled p \<Longrightarrow> pub_IntentID p = k \<Longrightarrow>
     pubs_live (s\<lparr>s_publications := AList.update k p (s_publications s)\<rparr>)"
  by (auto simp: pubs_live_def pubs_ok_def simp del: map_of_eq_Some_iff)

lemma pubs_live_frame: "s_publications s' = s_publications s \<Longrightarrow> pubs_live s' = pubs_live s"
  by (simp add: pubs_live_def pubs_ok_def)

lemma pubs_live_steps:
  assumes live: "pubs_live s"
  shows "pubs_live (snd (RenewOperationalIntentPublicationLease i r t s))"
    and "work_left p \<or> settled p \<Longrightarrow> pubs_live (snd (UpdateOperationalIntentPublication p r s))"
    and "settled p \<Longrightarrow> pubs_live (snd (ConfirmOperationalIntentPublication p r ns s))"
    and "pubs_live (snd (ClaimOperationalIntentPublication i t u s))"
    and "pubs_live (snd (ClaimDueOperationalIntentPublications t u l s))"
proof -
  have known: "pub_IntentID q = k \<and> (work_left q \<or> settled q)" if "map_of (s_publications s) k = Some q" for k q
    using live that by (auto simp: pubs_live_def pubs_ok_def dest: keyedD)
  have status: "work_left (q\<lparr>pub_LeaseUntil := l\<rparr>) = work_left q" "settled (q\<lparr>pub_LeaseUntil := l\<rparr>) = settled q"
    "work_left (q\<lparr>pub_Revision := n, pub_LeaseUntil := l\<rparr>) = work_left q"
    "settled (q\<lparr>pub_Revision := n, pub_LeaseUntil := l\<rparr>) = settled q"
    "work_left (claimed_publication a b q)" for q l n a b
    by (simp_all add: work_left_def settled_def claimed_publication_def)
  have enqueue: "pubs_live (enqueuePeerNotificationsLocked ns s1) = pubs_live s1" for s1
    by (rule pubs_live_frame) (simp add: enqueuePeerNotificationsLocked_def)
  show "pubs_live (snd (RenewOperationalIntentPublicationLease i r t s))"
    "work_left p \<or> settled p \<Longrightarrow> pubs_live (snd (UpdateOperationalIntentPublication p r s))"
    "settled p \<Longrightarrow> pubs_live (snd (ConfirmOperationalIntentPublication p r ns s))"
    "pubs_live (snd (ClaimOperationalIntentPublication i t u s))"
    using known status
    by (auto simp: RenewOperationalIntentPublicationLease_def UpdateOperationalIntentPublication_def
        ConfirmOperationalIntentPublication_def ClaimOperationalIntentPublication_def enqueue live
        simp del: map_of_eq_Some_iff dest: known intro!: pubs_live_put [OF live] split: option.split)
  obtain res s' where run: "ClaimDueOperationalIntentPublications t u l s = (res, s')" by force
  note claim = claim_due_run(1,2) [OF _ run]
  show "pubs_live (snd (ClaimDueOperationalIntentPublications t u l s))"
    using claim live status(5) by (auto simp: run pubs_live_def simp del: map_of_eq_Some_iff split: if_splits)
qed

interpretation live_kept: worker_invariant "\<lambda>s. pubs_live s \<and> notifications_ok s" "\<lambda>u x. True"
  by unfold_locales (auto simp: pubs_live_steps notifications_frame notifications_ok_frames
      pubs_live_frame [OF worker_frames(5)] pubs_live_frame [OF claim_notifications_keep(3)])

lemma enqueue_lookup:
  "map_of (fold enqueue_notification ns m) k = Some n \<Longrightarrow>
     map_of m k = Some n \<or> (\<exists>n' \<in> set ns. n = n'\<lparr>pn_Revision := 0\<rparr>)"
  by (induction ns arbitrary: m)
    (fastforce simp: enqueue_notification_def simp del: map_of_eq_Some_iff split: if_splits)+

lemma deliveries_ok_confirm:
  assumes ok: "deliveries_ok a s" and ns: "\<And>n. n \<in> set ns \<Longrightarrow> pn_DeliveredAt n = None"
  shows "deliveries_ok a (snd (ConfirmOperationalIntentPublication p r ns s))"
proof -
  have "a (pn_USSBaseURL n) (pn_Payload n)"
    if "map_of (fold enqueue_notification ns (s_peerNotifications s)) k = Some n" "pn_DeliveredAt n \<noteq> None" for k n
    using enqueue_lookup [OF that(1)] that(2) ok ns by (auto simp: deliveries_ok_def simp del: map_of_eq_Some_iff)
  then show ?thesis
    using ok notifications_ok_confirm [of s p r ns]
    by (auto simp: deliveries_ok_def ConfirmOperationalIntentPublication_def enqueuePeerNotificationsLocked_def
        simp del: map_of_eq_Some_iff split: option.splits)
qed

lemma deliveries_ok_update:
  assumes ok: "deliveries_ok a s" and n: "pn_DeliveredAt n \<noteq> None \<Longrightarrow> a (pn_USSBaseURL n) (pn_Payload n)"
  shows "deliveries_ok a (snd (UpdatePeerNotification n r s))"
  using ok notifications_ok_update [of s n r] n
  by (auto simp: deliveries_ok_def UpdatePeerNotification_def simp del: map_of_eq_Some_iff split: option.splits if_splits)

lemma deliveries_ok_claim: "deliveries_ok a s \<Longrightarrow> deliveries_ok a (snd (ClaimDuePeerNotifications t u l s))"
proof -
  assume ok: "deliveries_ok a s"
  obtain r s' where run: "ClaimDuePeerNotifications t u l s = (r, s')" by force
  have n: "notifications_ok s" using ok by (simp add: deliveries_ok_def)
  show ?thesis
    using ok claim_due_notifications_run(1) [OF n run] claim_due_notifications_run(5) [OF n run]
    unfolding deliveries_ok_def run snd_conv by blast
qed

lemma deliveries_ok_frame:
  "s_peerNotifications s' = s_peerNotifications s \<Longrightarrow> deliveries_ok a s' = deliveries_ok a s"
  by (simp add: deliveries_ok_def notifications_ok_def)

interpretation deliveries_kept: worker_invariant "deliveries_ok accepted" accepted for accepted
  by unfold_locales
    (auto simp: deliveries_ok_frame [OF worker_frames(1)] deliveries_ok_frame [OF worker_frames(2)]
      deliveries_ok_frame [OF worker_frames(3)] deliveries_ok_frame [OF worker_frames(4)]
      intro: deliveries_ok_confirm deliveries_ok_claim deliveries_ok_update,
     simp add: deliveries_ok_def)

subsection \<open>Runs that succeed\<close>

lemma failure_reported: "run_state (recordPublicationFailure svc p r e b) \<sigma> \<noteq> (None, \<sigma>')"
  by (auto simp: recordPublicationFailure_def simp del: run_state_bind elim!: run_bindE)

lemma mutation_failure_reported: "run_state (mutation_failed svc publisher p r e) \<sigma> \<noteq> (None, \<sigma>')"
  by (auto simp: mutation_failed_def failure_reported simp del: run_state_bind elim!: run_bindE split: sum.splits if_splits)

lemma enqueue_keeps_keys: "map_of m k \<noteq> None \<Longrightarrow> map_of (fold enqueue_notification ns m) k \<noteq> None"
  by (induction ns arbitrary: m) (auto simp: enqueue_notification_def simp del: map_of_eq_Some_iff)

lemma enqueued: "n \<in> set ns \<Longrightarrow> map_of (fold enqueue_notification ns m) (pn_ID n) \<noteq> None"
proof (induction ns arbitrary: m)
  case (Cons a ns)
  have "map_of (enqueue_notification a m) (pn_ID a) \<noteq> None"
    by (simp add: enqueue_notification_def del: map_of_eq_Some_iff)
  from enqueue_keeps_keys [OF this, of ns] Cons show ?case by auto
qed simp

lemma confirmed_run:
  assumes "ConfirmOperationalIntentPublication p r ns s = (None, s')"
  shows "map_of (s_publications s') (pub_IntentID p) = Some (p\<lparr>pub_Revision := inc64 r, pub_LeaseUntil := None\<rparr>)"
    and "n \<in> set ns \<Longrightarrow> map_of (s_peerNotifications s') (pn_ID n) \<noteq> None"
  using assms enqueued [of n ns]
  by (auto simp: ConfirmOperationalIntentPublication_def enqueuePeerNotificationsLocked_def
      simp del: map_of_eq_Some_iff split: option.splits if_splits)

lemma publish_request_run:
  assumes "run_state (publish_request svc publisher p r t q) \<sigma> = (None, (s', w'))"
  obtains \<tau> \<tau>' receipt ns s1 where
    "run_state (if pub_OVN p = [] then pb_CreateOperationalIntent publisher q else pb_UpdateOperationalIntent publisher q) \<tau>
      = (Inr receipt, \<tau>')"
    "map pn_ID ns = map (\<lambda>b. ds_digest svc (notification_identity q receipt b False)) (rc_Subscribers receipt)"
    "ConfirmOperationalIntentPublication (confirmed_publication p receipt t) r ns s1 = (None, s')"
proof -
  from assms obtain \<tau> \<tau>' receipt ns s1 w1 \<tau>2 where
    "run_state (if pub_OVN p = [] then pb_CreateOperationalIntent publisher q else pb_UpdateOperationalIntent publisher q) \<tau>
      = (Inr receipt, \<tau>')"
    and built: "run_state (buildPeerNotifications svc publisher q receipt False) \<tau>2 = (Inr ns, (s1, w1))"
    and conf: "run_state (with_store (ConfirmOperationalIntentPublication (confirmed_publication p receipt t) r ns)) (s1, w1)
      = (None, (s', w'))"
    unfolding publish_request_def
    by (auto simp: failure_reported mutation_failure_reported simp del: run_state_bind run_with_store split_paired_Ex
        elim!: run_bindE split: option.splits sum.splits)
  moreover from built have "map pn_ID ns = map (\<lambda>b. ds_digest svc (notification_identity q receipt b False)) (rc_Subscribers receipt)"
    unfolding buildPeerNotifications_def
    by (auto elim!: run_bindE simp del: run_state_bind dest: build_notifications_ids)
  moreover from conf have "ConfirmOperationalIntentPublication (confirmed_publication p receipt t) r ns s1 = (None, s')"
    by (simp add: prod_eq_iff)
  ultimately show thesis using that by blast
qed

lemma peer_key_set:
  "set (peer_key intent records) = {src_OVN (pi_Source r) |r. r \<in> set records \<and> src_OVN (pi_Source r) \<noteq> []
     \<and> src_ReferenceID (pi_Source r) \<noteq> oi_ID intent}"
  by (auto simp: peer_key_def)

lemma listed_volumes:
  "ListOperationalVolumes i s = Inr all \<Longrightarrow> set (volumesForVersion all v) =
     {x \<in> set (vals (s_operationalVolumes s)). (i = [] \<or> ov_IntentID x = i) \<and> ov_IntentVersion x = v}"
  by (auto simp: ListOperationalVolumes_def volumesForVersion_def)

lemma reconcile_publication_run:
  assumes "run_state (reconcile_publication svc publisher p r t) (s, w) = (None, (s', w'))"
  obtains intent all res records \<sigma>2 where
    "GetOperationalIntentVersion (pub_IntentID p) (pub_DesiredIntentVersion p) s = Inr intent"
    "ListOperationalVolumes (oi_ID intent) s = Inr all"
    "run_state (check (ds_checker svc) intent (volumesForVersion all (oi_Version intent))) (s, w) = ((Inr res, records), \<sigma>2)"
    "dr_Posture res = DeconflictionPostureClear"
    "run_state (publish_request svc publisher p r t \<lparr>pq_Intent = intent,
       pq_Volumes = volumesForVersion all (oi_Version intent), pq_State = pub_DesiredState p,
       pq_Key = peer_key intent records, pq_OVN = pub_OVN p, pq_SubscriptionID = pub_SubscriptionID p\<rparr>) \<sigma>2
     = (None, (s', w'))"
  using assms unfolding reconcile_publication_def Let_def
  by (auto simp: failure_reported simp del: run_state_bind elim!: run_bindE split: sum.splits prod.splits if_splits)

section \<open>Properties\<close>

text \<open>
  C5: a publication is confirmed behind a clear check only. When the worker settles a publication
  that is to be accepted or activated, it checked the version of the intent that is to be
  published, with the volumes of that version, and the check was clear; the DSS answered a
  creation or an update that named exactly the versions (OVNs) of the peers that check saw; the
  store now holds that version as confirmed in the desired state with the reference of the answer;
  and a notification for every subscriber of the answer is queued.
\<close>

theorem publication_confirmed_behind_clear_check:
  assumes "run_state (reconcileClaimed svc publisher pub) (s, w) = (None, (s', w'))"
    and "pub_DesiredState pub \<noteq> OperationalIntentExternalStateWithdrawn"
  shows "\<exists>t intent volumes \<sigma>1 res records \<sigma>2 request receipt.
    GetOperationalIntentVersion (pub_IntentID pub) (pub_DesiredIntentVersion pub) (fst \<sigma>1) = Inr intent
    \<and> set volumes = {v \<in> set (vals (s_operationalVolumes (fst \<sigma>1))). (oi_ID intent = [] \<or> ov_IntentID v = oi_ID intent)
         \<and> ov_IntentVersion v = oi_Version intent}
    \<and> run_state (check (ds_checker svc) intent volumes) \<sigma>1 = ((Inr res, records), \<sigma>2)
    \<and> dr_Posture res = DeconflictionPostureClear
    \<and> pq_Intent request = intent \<and> pq_Volumes request = volumes \<and> pq_State request = pub_DesiredState pub
    \<and> set (pq_Key request) = {src_OVN (pi_Source r) |r. r \<in> set records \<and> src_OVN (pi_Source r) \<noteq> []
         \<and> src_ReferenceID (pi_Source r) \<noteq> oi_ID intent}
    \<and> (\<exists>\<tau> \<tau>'. run_state (if pub_OVN pub = [] then pb_CreateOperationalIntent publisher request
          else pb_UpdateOperationalIntent publisher request) \<tau> = (Inr receipt, \<tau>'))
    \<and> map_of (s_publications s') (pub_IntentID pub) =
        Some ((confirmed_publication pub receipt t)\<lparr>pub_Revision := inc64 (pub_Revision pub), pub_LeaseUntil := None\<rparr>)
    \<and> (\<forall>b \<in> set (rc_Subscribers receipt).
         map_of (s_peerNotifications s') (ds_digest svc (notification_identity request receipt b False)) \<noteq> None)"
proof -
  from assms obtain t s1 w1 where
    "run_state (reconcile_publication svc publisher pub (pub_Revision pub) t) (s1, w1) = (None, (s', w'))"
    unfolding reconcileClaimed_def by (auto simp del: run_state_bind elim!: run_bindE)
  then obtain intent all res records \<sigma>2 where i:
    "GetOperationalIntentVersion (pub_IntentID pub) (pub_DesiredIntentVersion pub) s1 = Inr intent"
    "ListOperationalVolumes (oi_ID intent) s1 = Inr all"
    "run_state (check (ds_checker svc) intent (volumesForVersion all (oi_Version intent))) (s1, w1) = ((Inr res, records), \<sigma>2)"
    "dr_Posture res = DeconflictionPostureClear"
    and pub: "run_state (publish_request svc publisher pub (pub_Revision pub) t \<lparr>pq_Intent = intent,
       pq_Volumes = volumesForVersion all (oi_Version intent), pq_State = pub_DesiredState pub,
       pq_Key = peer_key intent records, pq_OVN = pub_OVN pub, pq_SubscriptionID = pub_SubscriptionID pub\<rparr>) \<sigma>2
     = (None, (s', w'))" by (rule reconcile_publication_run)
  let ?q = "\<lparr>pq_Intent = intent, pq_Volumes = volumesForVersion all (oi_Version intent), pq_State = pub_DesiredState pub,
       pq_Key = peer_key intent records, pq_OVN = pub_OVN pub, pq_SubscriptionID = pub_SubscriptionID pub\<rparr>"
  obtain \<tau> \<tau>' receipt ns s2 where r:
    "run_state (if pub_OVN pub = [] then pb_CreateOperationalIntent publisher ?q else pb_UpdateOperationalIntent publisher ?q) \<tau>
      = (Inr receipt, \<tau>')"
    and ids: "map pn_ID ns = map (\<lambda>b. ds_digest svc (notification_identity ?q receipt b False)) (rc_Subscribers receipt)"
    and conf: "ConfirmOperationalIntentPublication (confirmed_publication pub receipt t) (pub_Revision pub) ns s2 = (None, s')"
    by (rule publish_request_run [OF pub])
  have "map_of (s_peerNotifications s') (ds_digest svc (notification_identity ?q receipt b False)) \<noteq> None"
    if "b \<in> set (rc_Subscribers receipt)" for b
  proof -
    have "ds_digest svc (notification_identity ?q receipt b False) \<in> set (map pn_ID ns)" unfolding ids using that by simp
    then show ?thesis using confirmed_run(2) [OF conf] by (auto simp del: map_of_eq_Some_iff)
  qed
  moreover have "map_of (s_publications s') (pub_IntentID pub) =
      Some ((confirmed_publication pub receipt t)\<lparr>pub_Revision := inc64 (pub_Revision pub), pub_LeaseUntil := None\<rparr>)"
    using confirmed_run(1) [OF conf] by simp
  ultimately show ?thesis
    using i r listed_volumes [OF i(2), of "oi_Version intent"] peer_key_set [of intent records]
    by (intro exI [of _ t] exI [of _ intent] exI [of _ "volumesForVersion all (oi_Version intent)"] exI [of _ "(s1, w1)"]
        exI [of _ res] exI [of _ records] exI [of _ \<sigma>2] exI [of _ ?q] exI [of _ receipt])
      (auto simp del: split_paired_Ex map_of_eq_Some_iff, blast+)
qed

lemma sample_publish_check:
  "run_state (check sample_checker (sample_intent\<lparr>oi_Status := IntentStatusAccepted\<rparr>) [placed_volume]) (publish_store, ()) =
     ((Inr (finalized (newResult (sample_intent\<lparr>oi_Status := IntentStatusAccepted\<rparr>) 5)), []),
      (snd (finalize (newResult (sample_intent\<lparr>oi_Status := IntentStatusAccepted\<rparr>) 5) publish_store), ()))"
proof -
  let ?i = "sample_intent\<lparr>oi_Status := IntentStatusAccepted\<rparr>"
  have "FindCandidates \<lparr>cq_ExcludeIntentID = oi_ID ?i, cq_Volumes = [placed_volume]\<rparr> publish_store = Inr []"
    by (simp add: FindCandidates_def publish_store_def vals_def placed_volume_def sample_volume_def sample_intent_def
        sort_slice_def)
  then have "local_FindOperationalIntents \<lparr>q_Intent = ?i, q_Volumes = [placed_volume]\<rparr> publish_store = ([], None)"
    by (simp add: local_FindOperationalIntents_def join_errors_def)
  from discover_local [OF this]
  have disc: "run_state (discoverOperationalIntents (dc_providers sample_checker) ?i [placed_volume]) (publish_store, ())
      = (([], []), (publish_store, ()))" by (simp add: sample_run)
  have now: "run_state (dc_now sample_checker) (publish_store, ()) = (5, (publish_store, ()))"
    by (simp add: sample_checker_def)
  have "evaluateConflicts (dc_json sample_checker) ?i [placed_volume] [] = []"
    by (simp add: evaluateConflicts_Nil sample_run)
  moreover have "(newResult ?i 5)\<lparr>dr_Findings := []\<rparr> = newResult ?i 5" by (simp add: newResult_def)
  ultimately show ?thesis using run_check [OF now disc] by simp
qed

lemma sample_publish_run:
  "\<exists>s'. run_state (reconcileClaimed sample_deconfliction sample_publisher sample_publication) (publish_store, ())
     = (None, (s', ()))"
proof -
  let ?i = "sample_intent\<lparr>oi_Status := IntentStatusAccepted\<rparr>"
  have get: "GetOperationalIntentVersion ''op-1'' 1 publish_store = Inr ?i"
    by (simp add: GetOperationalIntentVersion_def publish_store_def store_intent_def NewStore_def sample_intent_def)
  have vols: "ListOperationalVolumes (oi_ID ?i) publish_store = Inr [placed_volume]"
    by (simp add: ListOperationalVolumes_def publish_store_def vals_def sort_slice_def placed_volume_def sample_volume_def
        sample_intent_def)
  have v: "volumesForVersion [placed_volume] (oi_Version ?i) = [placed_volume]"
    by (simp add: volumesForVersion_def placed_volume_def sample_volume_def sample_intent_def)
  have clear: "dr_Posture (finalized (newResult ?i 5)) = DeconflictionPostureClear"
    by (simp add: finalized_posture_clear newResult_def)
  have fin: "s_publications (snd (finalize (newResult ?i 5) publish_store)) = [(''op-1'', sample_publication)]"
    by (simp add: finalize_eq publish_store_def)
  let ?p = sample_publication
  have p: "pub_IntentID ?p = ''op-1''" "pub_DesiredIntentVersion ?p = 1" "pub_OVN ?p = []" "pub_Revision ?p = 0"
    "pub_DesiredState ?p \<noteq> OperationalIntentExternalStateWithdrawn"
    by (simp_all add: sample_publication_def zero_OperationalIntentPublication_def)
  let ?q = "\<lparr>pq_Intent = ?i, pq_Volumes = [placed_volume], pq_State = pub_DesiredState ?p, pq_Key = peer_key ?i [],
    pq_OVN = pub_OVN ?p, pq_SubscriptionID = pub_SubscriptionID ?p\<rparr>"
  let ?s = "snd (finalize (newResult ?i 5) publish_store)"
  have ds: "ds_checker sample_deconfliction = sample_checker" "ds_publicationLease sample_deconfliction = publicationLease"
    "run_state (dc_now sample_checker) (s, ()) = (5, (s, ()))" for s
    by (simp_all add: sample_deconfliction_def sample_checker_def)
  have "run_state (reconcileClaimed sample_deconfliction sample_publisher ?p) (publish_store, ()) =
      run_state (publish_request sample_deconfliction sample_publisher ?p 0 5 ?q) (?s, ())"
    unfolding reconcileClaimed_def reconcile_publication_def
    using get vols v sample_publish_check clear by (simp add: p ds Let_def)
  moreover have "fst (run_state (publish_request sample_deconfliction sample_publisher ?p 0 5 ?q) (?s, ())) = None"
    by (simp add: publish_request_def renewPublicationLease_def RenewOperationalIntentPublicationLease_def ds p fin
        sample_publisher_def sample_receipt_def buildPeerNotifications_def ConfirmOperationalIntentPublication_def)
  ultimately show ?thesis by (metis prod.collapse old.unit.exhaust)
qed

theorem publication_confirmed_behind_clear_check_witness:
  "\<exists>s' receipt t. run_state (reconcileClaimed sample_deconfliction sample_publisher sample_publication) (publish_store, ())
      = (None, (s', ()))
    \<and> map_of (s_publications s') ''op-1'' = Some ((confirmed_publication sample_publication receipt t)
        \<lparr>pub_Revision := inc64 (pub_Revision sample_publication), pub_LeaseUntil := None\<rparr>)"
proof -
  obtain s' where run: "run_state (reconcileClaimed sample_deconfliction sample_publisher sample_publication)
      (publish_store, ()) = (None, (s', ()))" using sample_publish_run by blast
  have "pub_DesiredState sample_publication \<noteq> OperationalIntentExternalStateWithdrawn"
    "pub_IntentID sample_publication = ''op-1''"
    by (simp_all add: sample_publication_def zero_OperationalIntentPublication_def)
  then obtain receipt t where "map_of (s_publications s') ''op-1'' = Some ((confirmed_publication sample_publication receipt t)
        \<lparr>pub_Revision := inc64 (pub_Revision sample_publication), pub_LeaseUntil := None\<rparr>)"
    using publication_confirmed_behind_clear_check [OF run] by metis
  with run show ?thesis by blast
qed


lemma sample_surroundings_keep:
  "checker_keeps I sample_checker" "publisher_keeps I sample_publisher"
  by (simp_all add: checker_keeps_def publisher_keeps_def sample_checker_def sample_publisher_def local_provider_def)

lemma publish_store_ok: "pubs_live publish_store" "notifications_ok publish_store" "deliveries_ok a publish_store"
  by (simp_all add: pubs_live_def pubs_ok_def keyed_def publish_store_def sample_publication_def work_left_def
      notifications_ok_def deliveries_ok_def store_intent_def NewStore_def)


text \<open>
  C31: what is marked as delivered was taken. If every notification the store marks as delivered
  was accepted by the peer it is for, and the surroundings do not spoil that, then so it is after
  a round of the worker.
\<close>

theorem delivered_notifications_were_accepted:
  assumes pub: "ds_publisher svc = Some publisher"
    and acc: "accepted = (\<lambda>u x. \<exists>\<tau> \<tau>'. run_state (pb_DeliverPeerNotification publisher u x) \<tau> = (None, \<tau>'))"
    and keep: "checker_keeps (deliveries_ok accepted) (ds_checker svc)" "publisher_keeps (deliveries_ok accepted) publisher"
    and ok: "deliveries_ok accepted s" and run: "run_state (ReconcileDue svc) (s, w) = (r, (s', w'))"
  shows "deliveries_ok accepted s'"
proof -
  have "keeps (deliveries_ok accepted) (ReconcileDue svc)"
    using keep pub by (intro deliveries_kept.reconcile_due_keeps) (auto simp: acc simp del: split_paired_Ex)
  from keeps_run [OF this run ok] show ?thesis .
qed

theorem delivered_notifications_were_accepted_witness:
  "deliveries_ok (\<lambda>u x. \<exists>\<tau> \<tau>'. run_state (pb_DeliverPeerNotification sample_publisher u x) \<tau> = (None, \<tau>'))
     (fst (snd (run_state (ReconcileDue sample_deconfliction) (publish_store, ()))))"
proof -
  obtain r s' w' where run: "run_state (ReconcileDue sample_deconfliction) (publish_store, ()) = (r, (s', w'))"
    by (metis prod.exhaust)
  have "ds_publisher sample_deconfliction = Some sample_publisher" "ds_checker sample_deconfliction = sample_checker"
    by (simp_all add: sample_deconfliction_def)
  from delivered_notifications_were_accepted [OF this(1) refl _ _ publish_store_ok(3) run] this(2)
    sample_surroundings_keep show ?thesis by (simp add: run)
qed

text \<open>
  Failed attempts back off. A failure that may pass leaves the publication of the claim free of
  its lease and due again after a delay that doubles with every attempt, from one second up to 256
  of them; a permanent one blocks it, and the worker never takes a blocked publication.
\<close>

theorem failed_attempts_back_off:
  assumes now: "run_state (ds_now svc) (s, w) = (t, (s1, w1))"
    and cur: "map_of (s_publications s1) (pub_IntentID pub) = Some c" "pub_Revision c = r"
    and "0 \<le> pub_AttemptCount pub"
  shows "\<exists>e s'. run_state (recordPublicationFailure svc pub r cause permanent) (s, w) = (Some e, (s', w1))
    \<and> (\<exists>p. map_of (s_publications s') (pub_IntentID pub) = Some p
        \<and> (if permanent then \<forall>u. \<not> publication_due u p
           else (\<forall>u. publication_due u p \<longleftrightarrow> t + retry_delay (pub_AttemptCount pub) \<le> u)))
    \<and> second \<le> retry_delay (pub_AttemptCount pub) \<and> retry_delay (pub_AttemptCount pub) \<le> 256 * second
    \<and> (pub_AttemptCount pub < 8 \<longrightarrow> retry_delay (pub_AttemptCount pub + 1) = 2 * retry_delay (pub_AttemptCount pub))"
proof -
  let ?p = "(failed_publication pub cause permanent t)\<lparr>pub_Revision := inc64 r, pub_LeaseUntil := None\<rparr>"
  have double: "retry_delay (pub_AttemptCount pub + 1) = 2 * retry_delay (pub_AttemptCount pub)" if "pub_AttemptCount pub < 8"
    using that assms(4) by (simp add: retry_delay_def min_def nat_add_distrib)
  have "if permanent then \<forall>u. \<not> publication_due u ?p
     else (\<forall>u. publication_due u ?p \<longleftrightarrow> t + retry_delay (pub_AttemptCount pub) \<le> u)"
    by (simp add: publication_due_def linorder_not_less)
  with now cur double retry_delay_bounds [OF assms(4)] show ?thesis
    by (simp add: recordPublicationFailure_def UpdateOperationalIntentPublication_def del: map_of_eq_Some_iff)
qed

theorem failed_attempts_back_off_witness:
  "\<exists>e s'. run_state (recordPublicationFailure sample_deconfliction sample_publication 0 ErrNotFound False) (publish_store, ())
      = (Some e, (s', ()))"
proof -
  have "run_state (ds_now sample_deconfliction) (publish_store, ()) = (5, (publish_store, ()))"
    by (simp add: sample_deconfliction_def sample_checker_def)
  moreover have "map_of (s_publications publish_store) (pub_IntentID sample_publication) = Some sample_publication"
    "pub_Revision sample_publication = 0" "0 \<le> pub_AttemptCount sample_publication"
    by (simp_all add: publish_store_def sample_publication_def zero_OperationalIntentPublication_def)
  note facts = calculation this
  show ?thesis
    using failed_attempts_back_off [OF facts(1,2,3,4), of ErrNotFound False] by blast
qed

end
