(* ===== verification/Coordinator.thy ===== *)
theory Coordinator
  imports Intent_Service Publication
begin

text \<open>
  The intent service with the deconfliction service in place: how \<open>cmd/aero-arc-api/main.go\<close> hands
  the one to the other, and what a caller of the API gets from both together.
\<close>

section \<open>Definitions\<close>

text \<open>
  The deconfliction service as the intent service sees it. \<open>ValidatePublication\<close> is called only
  where publishing is enabled, so that there is a publisher.
\<close>

definition coordinator :: "'w DeconflictionService \<Rightarrow> 'w DeconflictionCoordinator" where
  "coordinator ds = \<lparr>
     co_CheckIntent = CheckIntent (ds_checker ds),
     co_PublishingEnabled = PublishingEnabled ds,
     co_ValidatePublication = (\<lambda>intent state. case ds_publisher ds of
         None \<Rightarrow> State_Monad.return (Some (Errorf ''DSS publication is not configured'' []))
       | Some publisher \<Rightarrow> reads (ValidatePublication publisher intent state)),
     co_PublicationRequest = service_PublicationRequest ds,
     co_GetPublication = (\<lambda>intentID. reads (GetPublication intentID)),
     co_ReconcileIntent = ReconcileIntent ds\<rparr>"

definition deconfliction_keeps :: "(Store \<Rightarrow> bool) \<Rightarrow> 'w DeconflictionService \<Rightarrow> bool" where
  "deconfliction_keeps I ds \<longleftrightarrow> checker_keeps I (ds_checker ds)
     \<and> (case ds_publisher ds of None \<Rightarrow> True | Some p \<Rightarrow> publisher_keeps I p)"

text \<open>An accepted intent whose volume can be placed, with a passed preflight check, and the services around it.\<close>

definition cleared_store :: Store where
  "cleared_store = (store_intent other_intent ready_store)\<lparr>
     s_operationalVolumes := [(operationalVolumeKey placed_volume, placed_volume),
       (operationalVolumeKey other_volume, other_volume)]\<rparr>"

definition local_deconfliction :: "unit DeconflictionService" where
  "local_deconfliction = sample_deconfliction\<lparr>ds_publisher := None\<rparr>"

definition local_service :: "unit IntentService" where
  "local_service = sample_service\<lparr>is_deconfliction := Some (coordinator local_deconfliction)\<rparr>"

section \<open>Lemmas\<close>

context publication_invariant
begin

lemma check_intent_keeps: "checker_keeps I c \<Longrightarrow> keeps I (CheckIntent c i)"
  unfolding CheckIntent_def by (auto intro!: keeps_bind check_keeps split: sum.splits prod.splits)

lemma coordinator_keeps:
  assumes "deconfliction_keeps I ds"
  shows "coordinator_ok I (coordinator ds)"
proof -
  have c: "checker_keeps I (ds_checker ds)" and p: "\<And>p. ds_publisher ds = Some p \<Longrightarrow> publisher_keeps I p"
    using assms by (auto simp: deconfliction_keeps_def)
  have "keeps I (service_PublicationRequest ds i st)" for i st
    using c by (auto simp: service_PublicationRequest_def checker_keeps_def intro!: keeps_bind)
  with check_intent_keeps [OF c] reconcile_intent_keeps [OF c p] show ?thesis
    by (auto simp: coordinator_ok_def coordinator_def split: option.splits)
qed

end

lemma check_intent_run:
  assumes "run_state (CheckIntent c iid) (s, w) = (Inr res, \<sigma>)" and "latestOperationalIntent s iid = Some i"
  shows "\<exists>all. ListOperationalVolumes (oi_ID i) s = Inr all
    \<and> fst (fst (run_state (check c i (volumesForVersion all (oi_Version i))) (s, w))) = Inr res"
  using assms unfolding CheckIntent_def loadIntent_def
  by (fastforce simp: GetOperationalIntent_def simp del: run_state_bind elim!: run_bindE
      split: sum.splits prod.splits option.splits)

lemma local_surroundings:
  "deconfliction_keeps intents_ok local_deconfliction" "intents_ok cleared_store" "keeps intents_ok (is_now local_service)"
  using sample_surroundings_keep(1) [of intents_ok] intents_ok_store [OF sample_surroundings(2), of other_intent]
  by (simp_all add: deconfliction_keeps_def local_deconfliction_def sample_deconfliction_def cleared_store_def
      intents_ok_def local_service_def sample_service_def)

lemma cleared_latest: "latestOperationalIntent cleared_store ''op-1'' = Some accepted_intent"
  by code_simp

lemma cleared_check:
  "run_state (CheckIntent sample_checker ''op-1'') (cleared_store, ()) =
     (Inr (finalized (newResult accepted_intent 5)), (snd (finalize (newResult accepted_intent 5) cleared_store), ()))"
proof -
  have load: "loadIntent ''op-1'' cleared_store = Inr (accepted_intent, [placed_volume])" by code_simp
  have "local_FindOperationalIntents \<lparr>q_Intent = accepted_intent, q_Volumes = [placed_volume]\<rparr> cleared_store = ([], None)"
    by code_simp
  from discover_local [OF this]
  have disc: "run_state (discoverOperationalIntents (dc_providers sample_checker) accepted_intent [placed_volume])
      (cleared_store, ()) = (([], []), (cleared_store, ()))" by (simp add: sample_run)
  have now: "run_state (dc_now sample_checker) (cleared_store, ()) = (5, (cleared_store, ()))"
    by (simp add: sample_checker_def)
  have "evaluateConflicts (dc_json sample_checker) accepted_intent [placed_volume] [] = []"
    by (simp add: evaluateConflicts_Nil sample_run)
  moreover have "(newResult accepted_intent 5)\<lparr>dr_Findings := []\<rparr> = newResult accepted_intent 5" by (simp add: newResult_def)
  ultimately show ?thesis using run_check [OF now disc] by (simp add: CheckIntent_def load)
qed

lemma cleared_activation:
  "\<exists>i s'. run_state (ActivateIntent local_service ''op-1'') (cleared_store, ()) = (Inr i, (s', ())) \<and> oi_ID i = ''op-1''
     \<and> oi_Version i = 1"
proof -
  let ?s = "snd (finalize (newResult accepted_intent 5) cleared_store)"
  have "dr_Posture (finalized (newResult accepted_intent 5)) = DeconflictionPostureClear"
    by (simp add: finalized_posture_clear newResult_def)
  then have gate: "run_state (deconfliction_gate local_service accepted_intent) (cleared_store, ()) = (None, (?s, ()))"
    using cleared_check
    by (simp add: deconfliction_gate_def local_service_def coordinator_def local_deconfliction_def sample_deconfliction_def
        accepted_intent_def sample_intent_def)
  have rdy: "activationReadiness accepted_intent ?s = None" by code_simp
  have dss: "dss_activation local_service accepted_intent = State_Monad.return None"
    by (simp add: dss_activation_def publishing_def local_service_def coordinator_def PublishingEnabled_def
        local_deconfliction_def)
  have act: "oi_Status accepted_intent = IntentStatusAccepted" by (simp add: accepted_intent_def)
  have load: "run_state (load_intent ''op-1'') (cleared_store, ()) = (Inr accepted_intent, (cleared_store, ()))"
    using cleared_latest by (simp add: load_intent_run)
  have "run_state (ActivateIntent local_service ''op-1'') (cleared_store, ()) =
      run_state (activation_write local_service accepted_intent) (?s, ())"
    by (simp add: ActivateIntent_def load gate rdy dss act)
  moreover have "activation_write local_service accepted_intent =
      activation_write (sample_service\<lparr>is_deconfliction := None\<rparr>) accepted_intent"
    by (simp add: activation_write_def publishing_def local_service_def coordinator_def PublishingEnabled_def
        local_deconfliction_def)
  moreover have "(case fst (run_state (activation_write (sample_service\<lparr>is_deconfliction := None\<rparr>) accepted_intent) (?s, ())) of
      Inl e \<Rightarrow> False | Inr i \<Rightarrow> oi_ID i = ''op-1'' \<and> oi_Version i = 1)"
    by code_simp
  ultimately show ?thesis
    by (cases "run_state (activation_write (sample_service\<lparr>is_deconfliction := None\<rparr>) accepted_intent) (?s, ())")
      (auto split: sum.splits)
qed

section \<open>Properties\<close>



end
