(* ===== verification/Interleaving.thy ===== *)
theory Interleaving
  imports Coordinator
begin

text \<open>
  Requests that run at the same time. Every operation of the store holds its lock, so that what
  concurrent requests, the publication worker and their collaborators do to the store is a
  sequence of its operations. \<open>store_step\<close> is one of them, with arguments as the services give
  them; \<open>api_step\<close> is one request or one round of the worker, during which others may take steps
  of the store. What the steps of the store keep true holds in every store that is reached.
\<close>

section \<open>Definitions\<close>

text \<open>The last rule stands for the operations on the other tables, which the earlier theories hold.\<close>

inductive store_step :: "Store \<Rightarrow> Store \<Rightarrow> bool" where
  step_create: "oi_Status i \<noteq> IntentStatusActive \<Longrightarrow> store_step s (snd (CreateOperationalIntent i s))"
| step_update: "oi_Status i \<noteq> IntentStatusActive \<Longrightarrow> store_step s (snd (UpdateOperationalIntent i r s))"
| step_accept: "oi_Status i \<noteq> IntentStatusActive \<Longrightarrow> store_step s (snd (AcceptOperationalIntent i r s))"
| step_update_publish: "oi_Status i \<noteq> IntentStatusActive \<Longrightarrow>
    store_step s (snd (UpdateOperationalIntentAndRequestPublication i r p s))"
| step_accept_publish: "oi_Status i \<noteq> IntentStatusActive \<Longrightarrow>
    store_step s (snd (AcceptOperationalIntentAndRequestPublication i r p s))"
| step_activate: "oi_Status i = IntentStatusActive \<Longrightarrow> store_step s (snd (ActivateOperationalIntent i r s))"
| step_replace: "oi_Status i \<noteq> IntentStatusActive \<Longrightarrow> store_step s (snd (ReplaceOperationalIntent v r i vs s))"
| step_request: "store_step s (snd (RequestOperationalIntentPublicationIfCurrent p v r st s))"
| step_claim: "store_step s (snd (ClaimOperationalIntentPublication k t u s))"
| step_claim_due: "store_step s (snd (ClaimDueOperationalIntentPublications t u l s))"
| step_renew: "store_step s (snd (RenewOperationalIntentPublicationLease k r t s))"
| step_outcome: "work_left p \<or> settled p \<Longrightarrow> store_step s (snd (UpdateOperationalIntentPublication p r s))"
| step_confirm: "settled p \<Longrightarrow> store_step s (snd (ConfirmOperationalIntentPublication p r ns s))"
| step_claim_notifications: "store_step s (snd (ClaimDuePeerNotifications t u l s))"
| step_notification: "store_step s (snd (UpdatePeerNotification n r s))"
| step_elsewhere: "s_operationalIntents s' = s_operationalIntents s \<Longrightarrow> s_publications s' = s_publications s \<Longrightarrow>
    s_peerNotifications s' = s_peerNotifications s \<Longrightarrow> store_step s s'"

abbreviation store_reached :: "Store \<Rightarrow> bool" where
  "store_reached \<equiv> reachable NewStore store_step"

definition store_inv :: "Store \<Rightarrow> bool" where
  "store_inv s \<longleftrightarrow> intents_ok s \<and> one_active s \<and> pubs_live s \<and> notifications_ok s"

inductive api_step :: "'w IntentService \<Rightarrow> 'w DeconflictionService \<Rightarrow> Store \<times> 'w \<Rightarrow> Store \<times> 'w \<Rightarrow> bool"
  for svc :: "'w IntentService" and ds :: "'w DeconflictionService" where
  "run_state (CreateIntent svc creq) \<sigma> = (i, \<sigma>') \<Longrightarrow> api_step svc ds \<sigma> \<sigma>'"
| "run_state (AddOperationalVolume svc iid vreq) \<sigma> = (v, \<sigma>') \<Longrightarrow> api_step svc ds \<sigma> \<sigma>'"
| "run_state (ModifyIntent svc iid mreq) \<sigma> = (m, \<sigma>') \<Longrightarrow> api_step svc ds \<sigma> \<sigma>'"
| "run_state (SubmitIntent svc iid) \<sigma> = (i, \<sigma>') \<Longrightarrow> api_step svc ds \<sigma> \<sigma>'"
| "run_state (AcceptIntent svc iid) \<sigma> = (i, \<sigma>') \<Longrightarrow> api_step svc ds \<sigma> \<sigma>'"
| "run_state (ActivateIntent svc iid) \<sigma> = (i, \<sigma>') \<Longrightarrow> api_step svc ds \<sigma> \<sigma>'"
| "run_state (CompleteIntent svc iid) \<sigma> = (i, \<sigma>') \<Longrightarrow> api_step svc ds \<sigma> \<sigma>'"
| "run_state (CancelIntent svc iid) \<sigma> = (i, \<sigma>') \<Longrightarrow> api_step svc ds \<sigma> \<sigma>'"
| "run_state (CheckIntent (ds_checker ds) iid) \<sigma> = (d, \<sigma>') \<Longrightarrow> api_step svc ds \<sigma> \<sigma>'"
| "run_state (ReconcileIntent ds iid) \<sigma> = (e, \<sigma>') \<Longrightarrow> api_step svc ds \<sigma> \<sigma>'"
| "run_state (ReconcileDue ds) \<sigma> = (e, \<sigma>') \<Longrightarrow> api_step svc ds \<sigma> \<sigma>'"

definition sample_creation :: CreateIntentRequest where
  "sample_creation = \<lparr>cir_ID = ''op-1'', cir_OperatorID = [], cir_AircraftID = ''ac-1'', cir_AuthorizationID = [], cir_Name = [],
     cir_Summary = [], cir_UseCase = [], cir_AuthorizationPath = AuthorizationPathOther [],
     cir_PopulationCategory = PopulationCategoryOther [], cir_ConformanceRequired = False, cir_OperatingAreaID = [],
     cir_RouteSummary = [], cir_PlannedStartAt = 10, cir_PlannedEndAt = 20, cir_MinAltitudeFtAGL = None,
     cir_MaxAltitudeFtAGL = None, cir_SupervisorID = [], cir_FlightCoordinatorID = []\<rparr>"

section \<open>Lemmas\<close>

subsection \<open>The table of intents\<close>

text \<open>A write that is not of an active intent, with others rewritten to states that are not active.\<close>

lemma one_active_store:
  assumes "intents_ok s" "one_active s" "oi_Status i \<noteq> IntentStatusActive"
  shows "one_active (store_intent i s)"
  using assms by (auto simp: one_active_def vals_store_intent)

lemma one_active_rewrite:
  assumes "one_active s" and "\<And>p. oi_Status (f p) \<noteq> IntentStatusActive"
  shows "one_active (rewrite_accepted_priors f i s)"
proof -
  have "prior_map f i x = x" if "oi_Status (prior_map f i x) = IntentStatusActive" for x
    using that assms(2) by (auto simp: prior_map_def split: if_splits)
  with assms(1) show ?thesis by (auto simp: one_active_def vals_rewrite_priors) (metis+)
qed

lemma one_active_frame: "s_operationalIntents s' = s_operationalIntents s \<Longrightarrow> one_active s' = one_active s"
  by (simp add: one_active_def)

lemma one_active_update:
  assumes "intents_ok s" "one_active s" "oi_Status i \<noteq> IntentStatusActive"
  shows "one_active (snd (updateOperationalIntentLocked i r s))"
    and "one_active (snd (acceptOperationalIntentLocked i r s))"
proof -
  let ?i = "i\<lparr>oi_Revision := inc64 r\<rparr>"
  have st: "one_active (store_intent ?i s)" using assms by (intro one_active_store) auto
  show "one_active (snd (updateOperationalIntentLocked i r s))"
    using assms st one_active_rewrite [OF st, of "close_prior ?i"]
    by (simp add: updateOperationalIntentLocked_def Let_def split: option.split)
  show "one_active (snd (acceptOperationalIntentLocked i r s))"
    using assms st one_active_rewrite [OF st, of "supersede_prior ?i"]
    by (simp add: acceptOperationalIntentLocked_def Let_def split: option.split)
qed

lemma one_active_activate:
  assumes ok: "intents_ok s" and one: "one_active s" and i: "oi_Status i = IntentStatusActive"
  shows "one_active (snd (ActivateOperationalIntent i r s))"
proof (cases "fst (ActivateOperationalIntent i r s)")
  case None
  let ?s = "snd (ActivateOperationalIntent i r s)"
  have sub: "j = i\<lparr>oi_Revision := inc64 r\<rparr> \<or> j \<in> set (vals (s_operationalIntents s))"
    if "j \<in> set (vals (s_operationalIntents ?s))" for j
    using that i None vals_store_intent [OF ok]
    by (auto simp: ActivateOperationalIntent_def updateOperationalIntentLocked_def Let_def
        split: option.splits if_splits)
  show ?thesis
    unfolding one_active_def
  proof (intro ballI impI, elim conjE)
    fix j k assume jk: "j \<in> set (vals (s_operationalIntents ?s))" "k \<in> set (vals (s_operationalIntents ?s))"
      "oi_Status j = IntentStatusActive" "oi_Status k = IntentStatusActive" "oi_AircraftID j = oi_AircraftID k"
    show "j = k"
    proof (cases "oi_AircraftID j = oi_AircraftID i")
      case True
      then show ?thesis
        using activate_sole_active [OF ok i None jk(1,3)] activate_sole_active [OF ok i None jk(2,4)] jk(5) by simp
    next
      case False
      then have "j \<noteq> i\<lparr>oi_Revision := inc64 r\<rparr>" "k \<noteq> i\<lparr>oi_Revision := inc64 r\<rparr>" using jk(5) by auto
      then have "j \<in> set (vals (s_operationalIntents s))" "k \<in> set (vals (s_operationalIntents s))"
        using sub [OF jk(1)] sub [OF jk(2)] by blast+
      then show ?thesis using one jk(3-) unfolding one_active_def by blast
    qed
  qed
next
  case (Some e)
  then have "snd (ActivateOperationalIntent i r s) = s"
    by (auto simp: ActivateOperationalIntent_def updateOperationalIntentLocked_def Let_def
        split: option.splits if_splits)
  with one show ?thesis by simp
qed

lemma one_active_create_replace:
  assumes "intents_ok s" "one_active s" "oi_Status i \<noteq> IntentStatusActive"
  shows "one_active (snd (CreateOperationalIntent i s))" and "one_active (snd (ReplaceOperationalIntent v r i vs s))"
proof -
  have st: "one_active (store_intent (i\<lparr>oi_Revision := n\<rparr>) s)" for n using assms by (intro one_active_store) auto
  then have "one_active ((store_intent (i\<lparr>oi_Revision := n\<rparr>) s)\<lparr>s_operationalVolumes := m\<rparr>)" for n m
    by (simp add: one_active_def)
  with st assms(2) show "one_active (snd (CreateOperationalIntent i s))" "one_active (snd (ReplaceOperationalIntent v r i vs s))"
    by (auto simp: CreateOperationalIntent_def ReplaceOperationalIntent_def Let_def split: option.split)
qed

subsection \<open>The other tables\<close>

lemma lifecycle_frames [store_frame]:
  "s_publications (snd (CreateOperationalIntent i s)) = s_publications s"
  "s_publications (snd (updateOperationalIntentLocked i r s)) = s_publications s"
  "s_publications (snd (acceptOperationalIntentLocked i r s)) = s_publications s"
  "s_publications (snd (ActivateOperationalIntent i r s)) = s_publications s"
  "s_publications (snd (ReplaceOperationalIntent v r i vs s)) = s_publications s"
  "s_peerNotifications (snd (CreateOperationalIntent i s)) = s_peerNotifications s"
  "s_peerNotifications (snd (updateOperationalIntentLocked i r s)) = s_peerNotifications s"
  "s_peerNotifications (snd (acceptOperationalIntentLocked i r s)) = s_peerNotifications s"
  "s_peerNotifications (snd (ActivateOperationalIntent i r s)) = s_peerNotifications s"
  "s_peerNotifications (snd (ReplaceOperationalIntent v r i vs s)) = s_peerNotifications s"
  by (auto simp: CreateOperationalIntent_def updateOperationalIntentLocked_def acceptOperationalIntentLocked_def
      ActivateOperationalIntent_def ReplaceOperationalIntent_def Let_def store_intent_def rewrite_accepted_priors_def
      split: option.split)

lemma request_frames [simp]:
  "s_operationalIntents (requestPublicationLocked p s) = s_operationalIntents s"
  "s_peerNotifications (requestPublicationLocked p s) = s_peerNotifications s"
  by (simp_all add: requestPublicationLocked_def)

lemma requested_work_left: "work_left (requested_publication p c)" "pub_IntentID (requested_publication p c) = pub_IntentID p"
  by (simp_all add: work_left_def requested_publication_def Let_def split: option.split)

lemma pubs_live_request: "pubs_live s \<Longrightarrow> pubs_live (requestPublicationLocked p s)"
  unfolding requestPublicationLocked_def using requested_work_left by (intro pubs_live_put) auto

lemma store_inv_request: "store_inv s \<Longrightarrow> store_inv (requestPublicationLocked p s)"
  using pubs_live_request [of s p]
  by (auto simp: store_inv_def one_active_def intents_ok_def notifications_ok_def)

lemma store_inv_intents:
  assumes "store_inv s" and "intents_ok s'" and "one_active s'"
    and "s_publications s' = s_publications s" and "s_peerNotifications s' = s_peerNotifications s"
  shows "store_inv s'"
  using assms pubs_live_frame [of s' s] by (simp add: store_inv_def notifications_ok_def)

lemma store_inv_lifecycle:
  assumes inv: "store_inv s" and i: "oi_Status i \<noteq> IntentStatusActive"
  shows "store_inv (snd (CreateOperationalIntent i s))" "store_inv (snd (updateOperationalIntentLocked i r s))"
    "store_inv (snd (acceptOperationalIntentLocked i r s))" "store_inv (snd (ReplaceOperationalIntent v r i vs s))"
proof -
  have ok: "intents_ok s" and one: "one_active s" using inv by (simp_all add: store_inv_def)
  note keep = lifecycle_kept.inv_create [OF ok i] lifecycle_kept.inv_update [OF ok i] lifecycle_kept.inv_accept [OF ok i]
    lifecycle_kept.inv_replace [OF ok i]
  show "store_inv (snd (CreateOperationalIntent i s))" "store_inv (snd (updateOperationalIntentLocked i r s))"
    "store_inv (snd (acceptOperationalIntentLocked i r s))" "store_inv (snd (ReplaceOperationalIntent v r i vs s))"
    using keep by (auto intro!: store_inv_intents [OF inv] one_active_update one_active_create_replace ok one i
        simp: lifecycle_frames)
qed

lemma store_inv_activate:
  "store_inv s \<Longrightarrow> oi_Status i = IntentStatusActive \<Longrightarrow> store_inv (snd (ActivateOperationalIntent i r s))"
  by (rule store_inv_intents [of s])
    (auto simp: store_inv_def lifecycle_frames activate_write.op_keeps_ok intro: one_active_activate)

lemma store_inv_publish:
  assumes "store_inv s" and "oi_Status i \<noteq> IntentStatusActive"
  shows "store_inv (snd (UpdateOperationalIntentAndRequestPublication i r p s))"
    "store_inv (snd (AcceptOperationalIntentAndRequestPublication i r p s))"
  using store_inv_lifecycle(2,3) [OF assms, of r] store_inv_request
  by (auto simp: UpdateOperationalIntentAndRequestPublication_def AcceptOperationalIntentAndRequestPublication_def
      split: prod.splits option.splits)

lemma store_inv_request_current:
  "store_inv s \<Longrightarrow> store_inv (snd (RequestOperationalIntentPublicationIfCurrent p v r st s))"
  by (auto simp: RequestOperationalIntentPublicationIfCurrent_def store_inv_request split: option.splits)

lemma store_inv_coordination:
  assumes inv: "store_inv s" and "s_operationalIntents s' = s_operationalIntents s" and "pubs_live s'" "notifications_ok s'"
  shows "store_inv s'"
  using assms one_active_frame [of s' s] by (simp add: store_inv_def intents_ok_def)

lemma store_inv_worker:
  assumes inv: "store_inv s"
  shows "store_inv (snd (ClaimOperationalIntentPublication k t u s))"
    "store_inv (snd (ClaimDueOperationalIntentPublications t u l s))"
    "store_inv (snd (RenewOperationalIntentPublicationLease k r t s))"
    "work_left p \<or> settled p \<Longrightarrow> store_inv (snd (UpdateOperationalIntentPublication p r s))"
    "settled p \<Longrightarrow> store_inv (snd (ConfirmOperationalIntentPublication p r ns s))"
    "store_inv (snd (ClaimDuePeerNotifications t u l s))"
    "store_inv (snd (UpdatePeerNotification n r s))"
proof -
  have "pubs_live s" "notifications_ok s" using inv by (simp_all add: store_inv_def)
  note facts = this worker_frames claim_notifications_keep pubs_live_steps notifications_frame notifications_ok_frames
    pubs_live_frame [OF worker_frames(5)] pubs_live_frame [OF claim_notifications_keep(3)]
  show "store_inv (snd (ClaimOperationalIntentPublication k t u s))"
    "store_inv (snd (ClaimDueOperationalIntentPublications t u l s))"
    "store_inv (snd (RenewOperationalIntentPublicationLease k r t s))"
    "work_left p \<or> settled p \<Longrightarrow> store_inv (snd (UpdateOperationalIntentPublication p r s))"
    "settled p \<Longrightarrow> store_inv (snd (ConfirmOperationalIntentPublication p r ns s))"
    "store_inv (snd (ClaimDuePeerNotifications t u l s))"
    "store_inv (snd (UpdatePeerNotification n r s))"
    by (rule store_inv_coordination [OF inv]; simp add: facts)+
qed

subsection \<open>The invariant\<close>

lemma store_inv_elsewhere:
  assumes "store_inv s" and "s_operationalIntents s' = s_operationalIntents s" "s_publications s' = s_publications s"
    "s_peerNotifications s' = s_peerNotifications s"
  shows "store_inv s'"
  using assms pubs_live_frame [of s' s] one_active_frame [of s' s]
  by (simp add: store_inv_def intents_ok_def notifications_ok_def)

lemma store_inv_step: "store_step s s' \<Longrightarrow> store_inv s \<Longrightarrow> store_inv s'"
  by (induction rule: store_step.induct)
    (auto intro: store_inv_lifecycle store_inv_activate store_inv_publish store_inv_request_current
      store_inv_worker store_inv_elsewhere)

lemma store_inv_New: "store_inv NewStore"
  by (simp add: store_inv_def one_active_def intents_ok_def pubs_live_def pubs_ok_def notifications_ok_def NewStore_def
      vals_def)

interpretation store_system: invariant_system NewStore store_step store_inv
  by unfold_locales (auto simp: store_inv_New intro: store_inv_step)

subsection \<open>What is reached\<close>

text \<open>The services take steps of the store only, so that they stay within what such steps reach.\<close>

lemma reached_step: "store_reached s \<Longrightarrow> store_step s s' \<Longrightarrow> store_reached s'"
  by (rule reach_step)

lemmas reached_call = reached_step [OF _ step_create] reached_step [OF _ step_update] reached_step [OF _ step_accept]
  reached_step [OF _ step_update_publish] reached_step [OF _ step_accept_publish] reached_step [OF _ step_activate]
  reached_step [OF _ step_replace] reached_step [OF _ step_request] reached_step [OF _ step_claim]
  reached_step [OF _ step_claim_due] reached_step [OF _ step_renew] reached_step [OF _ step_outcome]
  reached_step [OF _ step_confirm] reached_step [OF _ step_claim_notifications] reached_step [OF _ step_notification]

lemma reached_elsewhere:
  "store_reached s \<Longrightarrow> store_reached (snd (RecordOperationalVolume x s))"
  "store_reached s \<Longrightarrow> store_reached (s\<lparr>s_conflictFindings := fs\<rparr>)"
  by (rule reached_step, assumption, rule step_elsewhere, simp_all add: RecordOperationalVolume_def)+

lemma reached_inv: "store_reached s \<Longrightarrow> store_inv s"
  by (rule store_system.reachable_inv)

interpretation lifecycle_reached: lifecycle_invariant store_reached
  by unfold_locales (rule reached_call reached_elsewhere; assumption)+

interpretation worker_reached: worker_invariant store_reached "\<lambda>u x. True"
  by unfold_locales (rule reached_call reached_elsewhere; assumption | simp add: reached_inv [unfolded store_inv_def])+

subsection \<open>Requests\<close>

lemma api_step_reached:
  assumes now: "keeps store_reached (is_now svc)" and new: "keeps store_reached (is_newUUID svc)"
    and ds: "deconfliction_keeps store_reached ds"
    and co: "is_deconfliction svc = None \<or> is_deconfliction svc = Some (coordinator ds)"
    and step: "api_step svc ds \<sigma> \<sigma>'" and s: "store_reached (fst \<sigma>)"
  shows "store_reached (fst \<sigma>')"
proof -
  have env: "surroundings_ok store_reached svc"
    using now co worker_reached.coordinator_keeps [OF ds] by (auto simp: surroundings_ok_def)
  have c: "checker_keeps store_reached (ds_checker ds)"
    and p: "\<And>p. ds_publisher ds = Some p \<Longrightarrow> publisher_keeps store_reached p"
    using ds by (auto simp: deconfliction_keeps_def)
  have run: "store_reached (fst \<sigma>')" if "keeps store_reached m" "run_state m \<sigma> = (x, \<sigma>')" for m :: "(_, 'x) srv" and x
    using keeps_run [OF that(1), of "fst \<sigma>" "snd \<sigma>" x "fst \<sigma>'" "snd \<sigma>'"] that(2) s by simp
  note keeps = lifecycle_reached.create_keeps [OF new env] lifecycle_reached.add_volume_keeps [OF env]
    lifecycle_reached.modify_keeps [OF env] lifecycle_reached.requests_keep [OF env] lifecycle_reached.accept_keeps [OF env]
    lifecycle_reached.activate_keeps [OF env] worker_reached.check_intent_keeps [OF c]
    worker_reached.reconcile_intent_keeps [OF c p] worker_reached.reconcile_due_keeps [OF c p]
  show ?thesis using step by (cases rule: api_step.cases) (erule run [rotated], rule keeps; simp?)+
qed

section \<open>Properties\<close>

text \<open>
  C1: one active intent per aircraft, always. Start with an empty store, and let requests of the
  intent service and rounds of the publication worker run one after the other or at the same
  time, with the clock, the DSS and the peers doing to the store at most what other requests do.
  Then at every time no aircraft has two active intents, every intent and every publication is
  stored under its own key, and each publication is settled or waiting for the worker.
\<close>

theorem one_active_intent_always:
  assumes "keeps store_reached (is_now svc)" and "keeps store_reached (is_newUUID svc)"
    and "deconfliction_keeps store_reached ds"
    and "is_deconfliction svc = None \<or> is_deconfliction svc = Some (coordinator ds)"
    and "reachable (NewStore, w0) (api_step svc ds) (s, w)"
  shows "one_active s \<and> intents_ok s \<and> pubs_live s"
proof -
  have "invariant_system (NewStore, w0) (api_step svc ds) (\<lambda>\<sigma>. store_reached (fst \<sigma>))"
    using api_step_reached [OF assms(1-4)] by unfold_locales (auto intro: reach_init)
  from invariant_system.reachable_inv [OF this assms(5)] have "store_inv s" by (simp add: reached_inv)
  then show ?thesis by (simp add: store_inv_def)
qed

theorem one_active_intent_always_witness:
  "\<exists>s. reachable (NewStore, ()) (api_step local_service local_deconfliction) (s, ())
     \<and> length (s_operationalIntents s) = 1 \<and> one_active s"
proof -
  have pub: "publishing local_service = None"
    by (simp add: publishing_def local_service_def coordinator_def PublishingEnabled_def local_deconfliction_def)
  obtain r s where run: "run_state (CreateIntent local_service sample_creation) (NewStore, ()) = (r, (s, ()))"
    by (cases "run_state (CreateIntent local_service sample_creation) (NewStore, ())") auto
  have trim: "TrimSpace (cir_ID sample_creation) = ''op-1''" "TrimSpace (cir_AircraftID sample_creation) = ''ac-1''"
    by (simp_all add: TrimSpace_plain sample_creation_def strip1_def space_runes_def char_of_def)
  have dates: "IsZero (cir_PlannedStartAt sample_creation) = False" "IsZero (cir_PlannedEndAt sample_creation) = False"
    "cir_PlannedStartAt sample_creation < cir_PlannedEndAt sample_creation"
    by (simp_all add: sample_creation_def)
  have one: "length (s_operationalIntents s) = 1"
    using run pub
    by (auto simp: CreateIntent_def new_intent_id_def trim dates local_service_def sample_service_def CreateOperationalIntent_def
        NewStore_def store_intent_def hasOutstandingMissionDeploymentForIntentLocked_def vals_def)
  have reach: "reachable (NewStore, ()) (api_step local_service local_deconfliction) (s, ())"
    using run by (intro reach_step [OF reach_init]) (rule api_step.intros)
  have "keeps store_reached (is_now local_service)" "keeps store_reached (is_newUUID local_service)"
    "deconfliction_keeps store_reached local_deconfliction"
    "is_deconfliction local_service = None \<or> is_deconfliction local_service = Some (coordinator local_deconfliction)"
    using sample_surroundings_keep(1) [of store_reached]
    by (simp_all add: local_service_def sample_service_def deconfliction_keeps_def local_deconfliction_def
        sample_deconfliction_def)
  from one_active_intent_always [OF this reach] reach one show ?thesis by blast
qed

end
