(* ===== verification/Store_Missions.thy ===== *)
theory Store_Missions
  imports Store_Intents
begin

text \<open>
  Flights, missions and mission deployments in the in-memory store. Creating a mission or a
  deployment is idempotent by a key of the caller (contract \<open>idempotent_create\<close>), versions of a
  mission count up per flight, deployments are ordered by a counter of the store, and a flight
  starts only behind the latest verified deployment for its aircraft.
\<close>

section \<open>Definitions\<close>

subsection \<open>Flights\<close>

definition CreateFlightRecord :: "FlightRecord \<Rightarrow> Store \<Rightarrow> go_error option \<times> Store" where
  "CreateFlightRecord flight s =
     (if map_of (s_flightRecords s) (fl_ID flight) \<noteq> None then (Some ErrAlreadyExists, s)
      else (None, s\<lparr>s_flightRecords := AList.update (fl_ID flight) flight (s_flightRecords s)\<rparr>))"

definition UpdateFlightRecord :: "FlightRecord \<Rightarrow> FlightStatus \<Rightarrow> Store \<Rightarrow> go_error option \<times> Store" where
  "UpdateFlightRecord flight expectedStatus s =
     (case map_of (s_flightRecords s) (fl_ID flight) of
        None \<Rightarrow> (Some ErrNotFound, s)
      | Some current \<Rightarrow>
          if fl_Status current \<noteq> expectedStatus then (Some ErrVersionConflict, s)
          else if hasOutstandingMissionDeploymentForFlightLocked s (fl_ID current)
          then (Some ErrVersionConflict, s)
          else (None, s\<lparr>s_flightRecords := AList.update (fl_ID flight) flight (s_flightRecords s)\<rparr>))"

definition GetFlightRecord :: "string \<Rightarrow> Store \<Rightarrow> FlightRecord result" where
  "GetFlightRecord flightID s = found (map_of (s_flightRecords s) flightID)"

definition ListFlightRecords :: "string \<Rightarrow> Store \<Rightarrow> FlightRecord list result" where
  "ListFlightRecords aircraftID s =
     Inr (sort_slice (\<lambda>a b. fl_StartedAt a > fl_StartedAt b)
       (filter (\<lambda>f. aircraftID = [] \<or> fl_AircraftID f = aircraftID) (vals (s_flightRecords s))))"

subsection \<open>Missions\<close>

text \<open>\<open>m[id]\<close> for a key that may be missing: the zero value.\<close>

definition mission_at :: "Store \<Rightarrow> string \<Rightarrow> Mission" where
  "mission_at s i = (case map_of (s_missions s) i of None \<Rightarrow> zero_Mission | Some m \<Rightarrow> m)"

definition mission_by_key :: "Store \<Rightarrow> string \<Rightarrow> Mission option" where
  "mission_by_key s key = map_option (mission_at s) (map_of (s_missionByIdempotencyKey s) key)"

text \<open>\<open>cloneMission\<close> copies two slices and is the identity on values.\<close>

definition next_mission_version :: "Store \<Rightarrow> string \<Rightarrow> int" where
  "next_mission_version s flightID = fold (\<lambda>existing version.
     if ms_FlightID existing = flightID \<and> ms_Version existing \<ge> version
     then inc64 (ms_Version existing) else version) (vals (s_missions s)) 1"

definition add_mission :: "Mission \<Rightarrow> Store \<Rightarrow> Store" where
  "add_mission mission s = s\<lparr>
     s_missions := AList.update (ms_ID mission) mission (s_missions s),
     s_missionByIdempotencyKey :=
       AList.update (ms_IdempotencyKey mission) (ms_ID mission) (s_missionByIdempotencyKey s)\<rparr>"

definition createMissionLocked :: "Mission \<Rightarrow> Store \<Rightarrow> Mission result \<times> Store" where
  "createMissionLocked mission s =
     (case mission_by_key s (ms_IdempotencyKey mission) of
        Some existing \<Rightarrow>
          if ms_IdempotencyRequest existing \<noteq> ms_IdempotencyRequest mission
          then (Inl ErrIdempotencyConflict, s) else (Inr existing, s)
      | None \<Rightarrow>
          if map_of (s_missions s) (ms_ID mission) \<noteq> None then (Inl ErrAlreadyExists, s)
          else
            let mission = mission\<lparr>ms_Version := next_mission_version s (ms_FlightID mission)\<rparr>
            in (Inr mission, add_mission mission s))"

definition CreateMission :: "Mission \<Rightarrow> Store \<Rightarrow> Mission result \<times> Store" where
  "CreateMission mission s = createMissionLocked mission s"

definition CreateMissionForPlannedFlight :: "Mission \<Rightarrow> Store \<Rightarrow> Mission result \<times> Store" where
  "CreateMissionForPlannedFlight mission s =
     (case mission_by_key s (ms_IdempotencyKey mission) of
        Some existing \<Rightarrow>
          if ms_IdempotencyRequest existing \<noteq> ms_IdempotencyRequest mission
          then (Inl ErrIdempotencyConflict, s) else (Inr existing, s)
      | None \<Rightarrow>
      case map_of (s_flightRecords s) (ms_FlightID mission) of
        None \<Rightarrow> (Inl ErrNotFound, s)
      | Some flight \<Rightarrow>
      if fl_Status flight \<noteq> FlightStatusPlanned then (Inl ErrVersionConflict, s)
      else case latestOperationalIntent s (fl_IntentID flight) of
        None \<Rightarrow> (Inl ErrNotFound, s)
      | Some intent \<Rightarrow>
      if ms_FlightID mission \<noteq> fl_ID flight \<or> ms_OperatorID mission \<noteq> fl_OperatorID flight
         \<or> ms_AircraftID mission \<noteq> fl_AircraftID flight \<or> ms_IntentID mission \<noteq> fl_IntentID flight
         \<or> ms_IntentVersion mission \<noteq> fl_IntentVersion flight \<or> oi_Version intent \<noteq> fl_IntentVersion flight
         \<or> oi_OperatorID intent \<noteq> fl_OperatorID flight \<or> oi_AircraftID intent \<noteq> fl_AircraftID flight
         \<or> (oi_Status intent \<noteq> IntentStatusAccepted \<and> oi_Status intent \<noteq> IntentStatusActive)
      then (Inl ErrVersionConflict, s)
      else if hasOutstandingMissionDeploymentForFlightLocked s (fl_ID flight)
      then (Inl ErrVersionConflict, s)
      else createMissionLocked mission s)"

definition GetMissionByIdempotencyKey :: "string \<Rightarrow> Store \<Rightarrow> Mission result" where
  "GetMissionByIdempotencyKey key s = found (mission_by_key s key)"

definition GetMission :: "string \<Rightarrow> Store \<Rightarrow> Mission result" where
  "GetMission missionID s = found (map_of (s_missions s) missionID)"

definition currentMissionForFlightLocked :: "Store \<Rightarrow> string \<Rightarrow> Mission option" where
  "currentMissionForFlightLocked s flightID =
     select_best (\<lambda>m c. ms_Version m > ms_Version c)
       (filter (\<lambda>m. ms_FlightID m = flightID) (vals (s_missions s)))"

definition GetCurrentMissionForFlight :: "string \<Rightarrow> Store \<Rightarrow> Mission result" where
  "GetCurrentMissionForFlight flightID s = found (currentMissionForFlightLocked s flightID)"

definition newer_mission :: "Mission \<Rightarrow> Mission \<Rightarrow> bool" where
  "newer_mission m c \<longleftrightarrow> ms_CreatedAt m > ms_CreatedAt c
     \<or> (ms_CreatedAt m = ms_CreatedAt c \<and> ms_Version m > ms_Version c)"

definition GetCurrentMissionForIntent :: "string \<Rightarrow> string \<Rightarrow> int \<Rightarrow> Store \<Rightarrow> Mission result" where
  "GetCurrentMissionForIntent aircraftID intentID intentVersion s =
     found (select_best newer_mission (filter (\<lambda>m.
       \<not> (ms_AircraftID m \<noteq> aircraftID \<or> ms_IntentID m \<noteq> intentID \<or> ms_IntentVersion m \<noteq> intentVersion))
       (vals (s_missions s))))"

definition deployment_verified :: "MissionDeployment \<Rightarrow> bool" where
  "deployment_verified d \<longleftrightarrow> md_Status d = MissionDeploymentApplied
     \<or> md_Status d = MissionDeploymentAlreadyApplied"

definition GetDeployedMissionForActiveFlight :: "string \<Rightarrow> string \<Rightarrow> int \<Rightarrow> Store \<Rightarrow> Mission result" where
  "GetDeployedMissionForActiveFlight aircraftID intentID intentVersion s =
     (case filter (\<lambda>f. \<not> (fl_Status f \<noteq> FlightStatusActive \<or> fl_AircraftID f \<noteq> aircraftID
          \<or> fl_IntentID f \<noteq> intentID \<or> fl_IntentVersion f \<noteq> intentVersion)) (vals (s_flightRecords s)) of
        [] \<Rightarrow> Inl ErrNotFound
      | activeFlight # another # others \<Rightarrow> Inl ErrVersionConflict
      | [activeFlight] \<Rightarrow>
      case currentMissionForFlightLocked s (fl_ID activeFlight) of
        None \<Rightarrow> Inl ErrNotFound
      | Some current \<Rightarrow>
      if list_ex (\<lambda>d. \<not> (md_FlightID d \<noteq> fl_ID activeFlight \<or> md_MissionID d \<noteq> ms_ID current
             \<or> md_MissionDigest d \<noteq> ms_MissionDigest current) \<and> deployment_verified d)
           (vals (s_missionDeployments s))
      then Inr current else Inl ErrNotFound)"

subsection \<open>Deployments\<close>

definition deployment_at :: "Store \<Rightarrow> string \<Rightarrow> MissionDeployment" where
  "deployment_at s i =
     (case map_of (s_missionDeployments s) i of None \<Rightarrow> zero_MissionDeployment | Some d \<Rightarrow> d)"

definition deployment_by_key :: "Store \<Rightarrow> string \<Rightarrow> MissionDeployment option" where
  "deployment_by_key s key = map_option (deployment_at s) (map_of (s_deploymentByIdempotencyKey s) key)"

definition creation_order :: "Store \<Rightarrow> string \<Rightarrow> nat" where
  "creation_order s i = (case map_of (s_deploymentCreationOrder s) i of None \<Rightarrow> 0 | Some n \<Rightarrow> n)"

text \<open>The four writes of a creation, after \<open>s.nextDeploymentOrder++\<close>.\<close>

definition add_deployment :: "MissionDeployment \<Rightarrow> Store \<Rightarrow> Store" where
  "add_deployment deployment s = s\<lparr>
     s_missionDeployments := AList.update (md_ID deployment) deployment (s_missionDeployments s),
     s_deploymentByIdempotencyKey :=
       AList.update (md_IdempotencyKey deployment) (md_ID deployment) (s_deploymentByIdempotencyKey s),
     s_deploymentCreationOrder :=
       AList.update (md_ID deployment) (inc_uint64 (s_nextDeploymentOrder s)) (s_deploymentCreationOrder s),
     s_nextDeploymentOrder := inc_uint64 (s_nextDeploymentOrder s)\<rparr>"

definition createMissionDeploymentLocked ::
  "MissionDeployment \<Rightarrow> Store \<Rightarrow> MissionDeployment result \<times> Store" where
  "createMissionDeploymentLocked deployment s =
     (case deployment_by_key s (md_IdempotencyKey deployment) of
        Some existing \<Rightarrow>
          if md_IdempotencyRequest existing \<noteq> md_IdempotencyRequest deployment
          then (Inl ErrIdempotencyConflict, s) else (Inr existing, s)
      | None \<Rightarrow>
          if map_of (s_missionDeployments s) (md_ID deployment) \<noteq> None then (Inl ErrAlreadyExists, s)
          else
            let deployment = deployment\<lparr>md_Revision := 0\<rparr>
            in (Inr deployment, add_deployment deployment s))"

definition CreateMissionDeployment ::
  "MissionDeployment \<Rightarrow> Store \<Rightarrow> MissionDeployment result \<times> Store" where
  "CreateMissionDeployment deployment s = createMissionDeploymentLocked deployment s"

text \<open>A deployment for another planned flight of the aircraft that is still under way.\<close>

definition outstanding_for_aircraft :: "Store \<Rightarrow> string \<Rightarrow> MissionDeployment \<Rightarrow> bool" where
  "outstanding_for_aircraft s aircraftID d \<longleftrightarrow>
     (case map_of (s_flightRecords s) (md_FlightID d) of
        None \<Rightarrow> False
      | Some f \<Rightarrow> \<not> (fl_AircraftID f \<noteq> aircraftID \<or> fl_Status f \<noteq> FlightStatusPlanned
          \<or> \<not> missionDeploymentOutstanding (md_Status d)))"

text \<open>The checks after the idempotency key; \<open>replay\<close> is the outstanding deployment asked for again.\<close>

definition planned_deployment_error ::
  "MissionDeployment \<Rightarrow> MissionDeployment option \<Rightarrow> Store \<Rightarrow> go_error option" where
  "planned_deployment_error deployment replay s =
     (case map_of (s_flightRecords s) (md_FlightID deployment) of
        None \<Rightarrow> Some ErrNotFound
      | Some flight \<Rightarrow>
      if fl_Status flight \<noteq> FlightStatusPlanned \<or> md_AircraftID deployment \<noteq> fl_AircraftID flight
      then Some ErrVersionConflict
      else case latestOperationalIntent s (fl_IntentID flight) of
        None \<Rightarrow> Some ErrNotFound
      | Some intent \<Rightarrow>
      if md_OperatorID deployment \<noteq> fl_OperatorID flight \<or> md_IntentID deployment \<noteq> fl_IntentID flight
         \<or> md_IntentVersion deployment \<noteq> fl_IntentVersion flight \<or> oi_Version intent \<noteq> fl_IntentVersion flight
         \<or> oi_OperatorID intent \<noteq> fl_OperatorID flight \<or> oi_AircraftID intent \<noteq> fl_AircraftID flight
         \<or> (oi_Status intent \<noteq> IntentStatusAccepted \<and> oi_Status intent \<noteq> IntentStatusActive)
      then Some ErrVersionConflict
      else if list_ex (\<lambda>f. fl_AircraftID f = fl_AircraftID flight \<and> fl_Status f = FlightStatusActive)
           (vals (s_flightRecords s))
      then Some ErrVersionConflict
      else case currentMissionForFlightLocked s (md_FlightID deployment) of
        None \<Rightarrow> Some ErrVersionConflict
      | Some currentMission \<Rightarrow>
      if ms_ID currentMission \<noteq> md_MissionID deployment
         \<or> ms_MissionDigest currentMission \<noteq> md_MissionDigest deployment
      then Some ErrVersionConflict
      else if list_ex (\<lambda>existing. \<not> (case replay of None \<Rightarrow> False | Some r \<Rightarrow> md_ID existing = md_ID r)
             \<and> outstanding_for_aircraft s (fl_AircraftID flight) existing) (vals (s_missionDeployments s))
      then Some ErrVersionConflict
      else None)"

definition CreateMissionDeploymentForPlannedFlight ::
  "MissionDeployment \<Rightarrow> Store \<Rightarrow> MissionDeployment result \<times> Store" where
  "CreateMissionDeploymentForPlannedFlight deployment s =
     (case deployment_by_key s (md_IdempotencyKey deployment) of
        Some existing \<Rightarrow>
          if md_IdempotencyRequest existing \<noteq> md_IdempotencyRequest deployment
          then (Inl ErrIdempotencyConflict, s)
          else if \<not> missionDeploymentOutstanding (md_Status existing) then (Inr existing, s)
          else (case planned_deployment_error deployment (Some existing) s of
              Some e \<Rightarrow> (Inl e, s)
            | None \<Rightarrow> (Inr existing, s))
      | None \<Rightarrow>
          (case planned_deployment_error deployment None s of
              Some e \<Rightarrow> (Inl e, s)
            | None \<Rightarrow> createMissionDeploymentLocked deployment s))"

definition StartFlightWithCurrentMissionDeployment ::
  "FlightRecord \<Rightarrow> FlightStatus \<Rightarrow> Store \<Rightarrow> go_error option \<times> Store" where
  "StartFlightWithCurrentMissionDeployment flight expectedStatus s =
     (case map_of (s_flightRecords s) (fl_ID flight) of
        None \<Rightarrow> (Some ErrNotFound, s)
      | Some currentFlight \<Rightarrow>
      if fl_Status currentFlight \<noteq> expectedStatus then (Some ErrVersionConflict, s)
      else if list_ex (\<lambda>(i, existing). i \<noteq> fl_ID flight
             \<and> fl_AircraftID existing = fl_AircraftID currentFlight
             \<and> fl_Status existing = FlightStatusActive) (s_flightRecords s)
      then (Some ErrVersionConflict, s)
      else case latestOperationalIntent s (fl_IntentID currentFlight) of
        None \<Rightarrow> (Some ErrNotFound, s)
      | Some intent \<Rightarrow>
      if oi_Status intent \<noteq> IntentStatusActive \<or> oi_Version intent \<noteq> fl_IntentVersion currentFlight
         \<or> oi_AircraftID intent \<noteq> fl_AircraftID currentFlight
      then (Some ErrVersionConflict, s)
      else case currentMissionForFlightLocked s (fl_ID flight) of
        None \<Rightarrow> (Some ErrVersionConflict, s)
      | Some currentMission \<Rightarrow>
      let aircraftDeployments = filter (\<lambda>d.
            case map_of (s_flightRecords s) (md_FlightID d) of
              None \<Rightarrow> False | Some f \<Rightarrow> fl_AircraftID f = fl_AircraftID currentFlight)
            (vals (s_missionDeployments s))
      in if list_ex (outstanding_for_aircraft s (fl_AircraftID currentFlight)) aircraftDeployments
      then (Some ErrVersionConflict, s)
      else case select_best (\<lambda>d c. creation_order s (md_ID d) > creation_order s (md_ID c)) aircraftDeployments of
        None \<Rightarrow> (Some ErrVersionConflict, s)
      | Some latest \<Rightarrow>
      if md_FlightID latest \<noteq> fl_ID flight \<or> md_MissionID latest \<noteq> ms_ID currentMission
         \<or> md_MissionDigest latest \<noteq> ms_MissionDigest currentMission
         \<or> (md_Status latest \<noteq> MissionDeploymentApplied
            \<and> md_Status latest \<noteq> MissionDeploymentAlreadyApplied)
      then (Some ErrVersionConflict, s)
      else (None, s\<lparr>s_flightRecords := AList.update (fl_ID flight) flight (s_flightRecords s)\<rparr>))"

definition GetMissionDeployment :: "string \<Rightarrow> Store \<Rightarrow> MissionDeployment result" where
  "GetMissionDeployment deploymentID s = found (map_of (s_missionDeployments s) deploymentID)"

definition GetMissionDeploymentByIdempotencyKey :: "string \<Rightarrow> Store \<Rightarrow> MissionDeployment result" where
  "GetMissionDeploymentByIdempotencyKey key s = found (deployment_by_key s key)"

definition GetPreviousMissionDeploymentForAircraft ::
  "string \<Rightarrow> string \<Rightarrow> Store \<Rightarrow> MissionDeployment result" where
  "GetPreviousMissionDeploymentForAircraft aircraftID deploymentID s =
     (case map_of (s_missionDeployments s) deploymentID of
        None \<Rightarrow> Inl ErrNotFound
      | Some current \<Rightarrow>
          if md_AircraftID current \<noteq> aircraftID then Inl ErrNotFound
          else found (map_option snd (select_best
            (\<lambda>(i, d) (j, c). \<not> creation_order s i \<le> creation_order s j)
            (filter (\<lambda>(i, d). \<not> (md_AircraftID d \<noteq> aircraftID
                 \<or> creation_order s i \<ge> creation_order s deploymentID)) (s_missionDeployments s)))))"

definition missionDeploymentRestorePriority :: "MissionDeploymentStatus \<Rightarrow> int" where
  "missionDeploymentRestorePriority status =
     (if status = MissionDeploymentOutcomeUnknown then 0
      else if status = MissionDeploymentPending \<or> status = MissionDeploymentTemporaryError then 1
      else 2)"

definition deploymentPreferredForRestore ::
  "Store \<Rightarrow> MissionDeployment \<Rightarrow> MissionDeployment \<Rightarrow> bool" where
  "deploymentPreferredForRestore s candidate current =
     (let candidatePriority = missionDeploymentRestorePriority (md_Status candidate);
          currentPriority = missionDeploymentRestorePriority (md_Status current);
          candidateOrder = creation_order s (md_ID candidate);
          currentOrder = creation_order s (md_ID current)
      in if candidatePriority \<noteq> currentPriority then candidatePriority < currentPriority
         else if candidateOrder \<noteq> currentOrder then candidateOrder > currentOrder
         else md_ID candidate > md_ID current)"

definition GetCurrentMissionDeploymentForFlight :: "string \<Rightarrow> Store \<Rightarrow> MissionDeployment result" where
  "GetCurrentMissionDeploymentForFlight flightID s =
     found (select_best (deploymentPreferredForRestore s)
       (filter (\<lambda>d. md_FlightID d = flightID
          \<and> \<not> (\<not> missionDeploymentOutstanding (md_Status d)
               \<and> (case currentMissionForFlightLocked s flightID of
                    None \<Rightarrow> True
                  | Some m \<Rightarrow> md_MissionID d \<noteq> ms_ID m \<or> md_MissionDigest d \<noteq> ms_MissionDigest m)))
         (vals (s_missionDeployments s))))"

definition UpdateMissionDeployment :: "MissionDeployment \<Rightarrow> int \<Rightarrow> Store \<Rightarrow> go_error option \<times> Store" where
  "UpdateMissionDeployment deployment expectedRevision s =
     (case map_of (s_missionDeployments s) (md_ID deployment) of
        None \<Rightarrow> (Some ErrNotFound, s)
      | Some existing \<Rightarrow>
          if md_Revision existing \<noteq> expectedRevision then (Some ErrVersionConflict, s)
          else if md_IdempotencyKey existing \<noteq> md_IdempotencyKey deployment
             \<or> md_IdempotencyRequest existing \<noteq> md_IdempotencyRequest deployment
             \<or> md_CommandID existing \<noteq> md_CommandID deployment
             \<or> md_MissionID existing \<noteq> md_MissionID deployment
          then (Some ErrVersionConflict, s)
          else (None, s\<lparr>s_missionDeployments := AList.update (md_ID deployment)
                  (deployment\<lparr>md_Revision := inc64 expectedRevision\<rparr>) (s_missionDeployments s)\<rparr>))"

subsection \<open>What the store keeps true of flights, missions and deployments\<close>

text \<open>An index by idempotency key names stored records that carry the key.\<close>

definition index_ok :: "string gomap \<Rightarrow> 'v gomap \<Rightarrow> ('v \<Rightarrow> string) \<Rightarrow> bool" where
  "index_ok idx m key \<longleftrightarrow> (\<forall>k i. map_of idx k = Some i \<longrightarrow> (\<exists>v. map_of m i = Some v \<and> key v = k))"

definition missions_ok :: "Store \<Rightarrow> bool" where
  "missions_ok s \<longleftrightarrow> keyed ms_ID (s_missions s)
     \<and> index_ok (s_missionByIdempotencyKey s) (s_missions s) ms_IdempotencyKey"

definition deployments_ok :: "Store \<Rightarrow> bool" where
  "deployments_ok s \<longleftrightarrow> keyed md_ID (s_missionDeployments s)
     \<and> index_ok (s_deploymentByIdempotencyKey s) (s_missionDeployments s) md_IdempotencyKey"

text \<open>The counter gives every deployment a number of its own, from 1.\<close>

definition order_ok :: "Store \<Rightarrow> bool" where
  "order_ok s \<longleftrightarrow> dom (map_of (s_deploymentCreationOrder s)) = dom (map_of (s_missionDeployments s))
     \<and> inj_on (map_of (s_deploymentCreationOrder s)) (dom (map_of (s_deploymentCreationOrder s)))
     \<and> (\<forall>i n. map_of (s_deploymentCreationOrder s) i = Some n \<longrightarrow> 0 < n \<and> n \<le> s_nextDeploymentOrder s)"

definition flights_ok :: "Store \<Rightarrow> bool" where
  "flights_ok s \<longleftrightarrow> keyed fl_ID (s_flightRecords s)"

text \<open>At most one deployment under way for the planned flights of an aircraft.\<close>

definition one_outstanding :: "Store \<Rightarrow> bool" where
  "one_outstanding s \<longleftrightarrow> (\<forall>d \<in> set (vals (s_missionDeployments s)). \<forall>e \<in> set (vals (s_missionDeployments s)). \<forall>a.
     outstanding_for_aircraft s a d \<and> outstanding_for_aircraft s a e \<longrightarrow> d = e)"

text \<open>At most one active flight for an aircraft.\<close>

definition one_airborne :: "Store \<Rightarrow> bool" where
  "one_airborne s \<longleftrightarrow> (\<forall>f \<in> set (vals (s_flightRecords s)). \<forall>g \<in> set (vals (s_flightRecords s)).
     fl_Status f = FlightStatusActive \<and> fl_Status g = FlightStatusActive
       \<and> fl_AircraftID f = fl_AircraftID g \<longrightarrow> f = g)"

definition sample_mission :: Mission where
  "sample_mission = zero_Mission\<lparr>ms_ID := ''ms-1'', ms_FlightID := ''fl-1'', ms_AircraftID := ''uav-1'',
     ms_IntentID := ''op-1'', ms_IntentVersion := 1, ms_MissionDigest := ''d1'',
     ms_IdempotencyKey := ''mk-1'', ms_IdempotencyRequest := ''mr-1''\<rparr>"

definition sample_flight_store :: Store where
  "sample_flight_store =
     (snd (CreateMission sample_mission (snd (CreateFlightRecord sample_flight
        (store_intent (sample_intent\<lparr>oi_Status := IntentStatusActive\<rparr>) NewStore)))))"

definition sample_ready_store :: Store where
  "sample_ready_store = store_intent (sample_intent\<lparr>oi_Status := IntentStatusActive\<rparr>) NewStore\<lparr>
     s_flightRecords := [(''fl-1'', sample_flight)],
     s_missions := [(''ms-1'', sample_mission\<lparr>ms_Version := 1\<rparr>)],
     s_missionDeployments := [(''dep-1'', sample_deployment\<lparr>md_Status := MissionDeploymentApplied\<rparr>)],
     s_deploymentCreationOrder := [(''dep-1'', 1)], s_nextDeploymentOrder := 1\<rparr>"

section \<open>Lemmas\<close>

subsection \<open>Idempotent creation\<close>

text \<open>
  Creation under a key of the caller. \<open>existing\<close> is the record a key stands for, \<open>ok\<close> the
  invariant the provider keeps.
\<close>

locale idempotent_create =
  fixes create :: "'v \<Rightarrow> 's \<Rightarrow> 'v result \<times> 's"
    and existing :: "'s \<Rightarrow> string \<Rightarrow> 'v option"
    and ikey :: "'v \<Rightarrow> string"
    and request :: "'v \<Rightarrow> string"
    and ok :: "'s \<Rightarrow> bool"
  assumes create_known: "existing s (ikey v) = Some w \<Longrightarrow>
      create v s = (if request w = request v then Inr w else Inl ErrIdempotencyConflict, s)"
    and create_error: "fst (create v s) = Inl e \<Longrightarrow> snd (create v s) = s"
    and create_fresh: "ok s \<Longrightarrow> existing s (ikey v) = None \<Longrightarrow> fst (create v s) = Inr w \<Longrightarrow>
      ok (snd (create v s)) \<and> existing (snd (create v s)) = (existing s)(ikey v \<mapsto> w)
        \<and> request w = request v \<and> ikey w = ikey v"
begin

lemma create_keeps_ok: "ok s \<Longrightarrow> ok (snd (create v s))"
proof (cases "fst (create v s)")
  case (Inr w)
  assume "ok s"
  then show ?thesis
    using create_fresh [OF _ _ Inr] create_known [of s v] by (cases "existing s (ikey v)") simp_all
qed (simp add: create_error)

lemma create_registers:
  assumes "ok s" and "fst (create v s) = Inr w"
  shows "existing (snd (create v s)) (ikey v) = Some w" and "request w = request v"
  using assms create_fresh [of s v w]
  by (cases "existing s (ikey v)"; auto simp: create_known split: if_splits)+

text \<open>Once a key is taken, later creations keep what it stands for.\<close>

lemma create_keeps_existing:
  assumes "ok s" and "existing s k = Some w"
  shows "existing (snd (create v s)) k = Some w"
proof (cases "fst (create v s)")
  case (Inl e)
  with assms show ?thesis by (simp add: create_error)
next
  case (Inr x)
  show ?thesis
  proof (cases "existing s (ikey v)")
    case None
    with assms create_fresh [OF assms(1) None Inr] show ?thesis by auto
  next
    case (Some y)
    with assms show ?thesis by (simp add: create_known)
  qed
qed

lemma creates_keep_existing:
  "ok s \<Longrightarrow> existing s k = Some w \<Longrightarrow> existing (fold (\<lambda>v s. snd (create v s)) vs s) k = Some w"
  by (induction vs arbitrary: s) (auto simp: create_keeps_existing create_keeps_ok)

text \<open>A repeated request gets the first answer, however many others came between.\<close>

lemma create_replay:
  assumes "ok s" and "fst (create v s) = Inr w" and "ikey v' = ikey v"
    and s': "s' = fold (\<lambda>v s. snd (create v s)) vs (snd (create v s))"
  shows "create v' s' = (if request v' = request v then Inr w else Inl ErrIdempotencyConflict, s')"
proof -
  note reg = create_registers [OF assms(1,2)]
  have "existing s' (ikey v') = Some w"
    unfolding s' assms(3) by (rule creates_keep_existing [OF create_keeps_ok [OF assms(1)] reg(1)])
  then show ?thesis using reg(2) by (auto simp: create_known)
qed

end

lemma index_ok_add:
  "index_ok idx m key \<Longrightarrow> map_of m i = None \<Longrightarrow> key v = k \<Longrightarrow>
     index_ok (AList.update k i idx) (AList.update i v m) key"
  unfolding index_ok_def map_of_put
  by (metis fun_upd_other fun_upd_same option.inject option.distinct(1))

lemma index_fresh: "index_ok idx m key \<Longrightarrow> map_of m i = None \<Longrightarrow> map_of idx k \<noteq> Some i"
  by (metis index_ok_def option.distinct(1))

lemma by_key_add:
  assumes "index_ok idx m key" and "map_of m i = None"
  shows "map_option (\<lambda>j. case ((map_of m)(i \<mapsto> w)) j of None \<Rightarrow> z | Some v \<Rightarrow> v) (((map_of idx)(k0 \<mapsto> i)) k)
    = (if k = k0 then Some w
       else map_option (\<lambda>j. case map_of m j of None \<Rightarrow> z | Some v \<Rightarrow> v) (map_of idx k))"
  using index_fresh [OF assms, of k] by (cases "map_of idx k") auto

lemma add_mission_frame [simp]:
  "s_missions (add_mission m s) = AList.update (ms_ID m) m (s_missions s)"
  "s_flightRecords (add_mission m s) = s_flightRecords s"
  "s_operationalIntents (add_mission m s) = s_operationalIntents s"
  "s_missionDeployments (add_mission m s) = s_missionDeployments s"
  by (simp_all add: add_mission_def)

lemma create_mission_fresh:
  assumes ok: "missions_ok s" and "mission_by_key s (ms_IdempotencyKey v) = None"
    and "fst (createMissionLocked v s) = Inr w"
  shows "missions_ok (snd (createMissionLocked v s))"
    and "mission_by_key (snd (createMissionLocked v s)) = (mission_by_key s)(ms_IdempotencyKey v \<mapsto> w)"
    and "w = v\<lparr>ms_Version := next_mission_version s (ms_FlightID v)\<rparr>"
    and "map_of (s_missions s) (ms_ID v) = None"
    and "snd (createMissionLocked v s) = add_mission w s"
proof -
  from assms(2,3) show new: "map_of (s_missions s) (ms_ID v) = None"
    and w: "w = v\<lparr>ms_Version := next_mission_version s (ms_FlightID v)\<rparr>"
    and s': "snd (createMissionLocked v s) = add_mission w s"
    by (auto simp: createMissionLocked_def Let_def simp del: map_of_eq_Some_iff split: if_splits)
  from ok have idx: "index_ok (s_missionByIdempotencyKey s) (s_missions s) ms_IdempotencyKey"
    by (simp add: missions_ok_def)
  show "mission_by_key (snd (createMissionLocked v s)) = (mission_by_key s)(ms_IdempotencyKey v \<mapsto> w)"
    unfolding s' using by_key_add [OF idx new]
    by (simp add: fun_eq_iff mission_by_key_def mission_at_def [abs_def] add_mission_def w)
  show "missions_ok (snd (createMissionLocked v s))"
    using ok idx new w unfolding s' by (simp add: missions_ok_def index_ok_add add_mission_def)
qed

interpretation mission_create: idempotent_create createMissionLocked mission_by_key ms_IdempotencyKey
  ms_IdempotencyRequest missions_ok
proof
  fix s v e
  assume "fst (createMissionLocked v s) = Inl e"
  then show "snd (createMissionLocked v s) = s"
    by (auto simp: createMissionLocked_def Let_def split: option.splits if_splits)
next
  fix s v w
  assume "missions_ok s" "mission_by_key s (ms_IdempotencyKey v) = None" "fst (createMissionLocked v s) = Inr w"
  note fresh = create_mission_fresh [OF this]
  show "missions_ok (snd (createMissionLocked v s))
      \<and> mission_by_key (snd (createMissionLocked v s)) = (mission_by_key s)(ms_IdempotencyKey v \<mapsto> w)
      \<and> ms_IdempotencyRequest w = ms_IdempotencyRequest v \<and> ms_IdempotencyKey w = ms_IdempotencyKey v"
    using fresh(1,2) unfolding fresh(5) by (simp_all add: fresh(3))
qed (simp add: createMissionLocked_def)

lemma planned_mission_cases:
  "mission_by_key s (ms_IdempotencyKey v) = None \<Longrightarrow>
     (\<exists>e. CreateMissionForPlannedFlight v s = (Inl e, s))
     \<or> CreateMissionForPlannedFlight v s = createMissionLocked v s"
  by (auto simp: CreateMissionForPlannedFlight_def split: option.splits)

interpretation planned_mission_create: idempotent_create CreateMissionForPlannedFlight mission_by_key
  ms_IdempotencyKey ms_IdempotencyRequest missions_ok
proof
  fix s v e
  assume e: "fst (CreateMissionForPlannedFlight v s) = Inl e"
  show "snd (CreateMissionForPlannedFlight v s) = s"
  proof (cases "mission_by_key s (ms_IdempotencyKey v)")
    case None
    from planned_mission_cases [OF None] e show ?thesis using mission_create.create_error by auto
  next
    case (Some w)
    then show ?thesis by (simp add: CreateMissionForPlannedFlight_def)
  qed
next
  fix s v w
  assume a: "missions_ok s" "mission_by_key s (ms_IdempotencyKey v) = None"
    "fst (CreateMissionForPlannedFlight v s) = Inr w"
  with planned_mission_cases [OF a(2)] have "CreateMissionForPlannedFlight v s = createMissionLocked v s" by auto
  with a mission_create.create_fresh [OF a(1,2), of w]
  show "missions_ok (snd (CreateMissionForPlannedFlight v s))
      \<and> mission_by_key (snd (CreateMissionForPlannedFlight v s)) = (mission_by_key s)(ms_IdempotencyKey v \<mapsto> w)
      \<and> ms_IdempotencyRequest w = ms_IdempotencyRequest v \<and> ms_IdempotencyKey w = ms_IdempotencyKey v"
    by simp
qed (simp add: CreateMissionForPlannedFlight_def)

lemma add_deployment_frame [simp]:
  "s_missionDeployments (add_deployment d s) = AList.update (md_ID d) d (s_missionDeployments s)"
  "s_flightRecords (add_deployment d s) = s_flightRecords s"
  "s_operationalIntents (add_deployment d s) = s_operationalIntents s"
  "s_missions (add_deployment d s) = s_missions s"
  by (simp_all add: add_deployment_def)

lemma create_deployment_fresh:
  assumes ok: "deployments_ok s" and "deployment_by_key s (md_IdempotencyKey v) = None"
    and "fst (createMissionDeploymentLocked v s) = Inr w"
  shows "deployments_ok (snd (createMissionDeploymentLocked v s))"
    and "deployment_by_key (snd (createMissionDeploymentLocked v s)) = (deployment_by_key s)(md_IdempotencyKey v \<mapsto> w)"
    and "w = v\<lparr>md_Revision := 0\<rparr>"
    and "map_of (s_missionDeployments s) (md_ID v) = None"
    and "snd (createMissionDeploymentLocked v s) = add_deployment w s"
proof -
  from assms(2,3) show new: "map_of (s_missionDeployments s) (md_ID v) = None"
    and w: "w = v\<lparr>md_Revision := 0\<rparr>"
    and s': "snd (createMissionDeploymentLocked v s) = add_deployment w s"
    by (auto simp: createMissionDeploymentLocked_def Let_def simp del: map_of_eq_Some_iff split: if_splits)
  from ok have idx: "index_ok (s_deploymentByIdempotencyKey s) (s_missionDeployments s) md_IdempotencyKey"
    by (simp add: deployments_ok_def)
  show "deployment_by_key (snd (createMissionDeploymentLocked v s)) = (deployment_by_key s)(md_IdempotencyKey v \<mapsto> w)"
    unfolding s' using by_key_add [OF idx new]
    by (simp add: fun_eq_iff deployment_by_key_def deployment_at_def [abs_def] add_deployment_def w)
  show "deployments_ok (snd (createMissionDeploymentLocked v s))"
    using ok idx new w unfolding s' by (simp add: deployments_ok_def index_ok_add add_deployment_def)
qed

interpretation deployment_create: idempotent_create createMissionDeploymentLocked deployment_by_key
  md_IdempotencyKey md_IdempotencyRequest deployments_ok
proof
  fix s v e
  assume "fst (createMissionDeploymentLocked v s) = Inl e"
  then show "snd (createMissionDeploymentLocked v s) = s"
    by (auto simp: createMissionDeploymentLocked_def Let_def split: option.splits if_splits)
next
  fix s v w
  assume "deployments_ok s" "deployment_by_key s (md_IdempotencyKey v) = None"
    "fst (createMissionDeploymentLocked v s) = Inr w"
  note fresh = create_deployment_fresh [OF this]
  show "deployments_ok (snd (createMissionDeploymentLocked v s))
      \<and> deployment_by_key (snd (createMissionDeploymentLocked v s)) = (deployment_by_key s)(md_IdempotencyKey v \<mapsto> w)
      \<and> md_IdempotencyRequest w = md_IdempotencyRequest v \<and> md_IdempotencyKey w = md_IdempotencyKey v"
    using fresh(1,2) unfolding fresh(5) by (simp_all add: fresh(3))
qed (simp add: createMissionDeploymentLocked_def)

interpretation deployment_update: cas_table "\<lambda>s. map_of (s_missionDeployments s)" md_ID md_Revision
  "\<lambda>c d. md_IdempotencyKey c = md_IdempotencyKey d \<and> md_IdempotencyRequest c = md_IdempotencyRequest d
     \<and> md_CommandID c = md_CommandID d \<and> md_MissionID c = md_MissionID d"
  "\<lambda>r d. d\<lparr>md_Revision := inc64 r\<rparr>" UpdateMissionDeployment
  by unfold_locales (auto simp: UpdateMissionDeployment_def simp del: map_of_eq_Some_iff)

subsection \<open>Versions of a mission\<close>

lemma next_version_fold:
  assumes "\<forall>m \<in> set ms. int64_range (ms_Version m) \<and> ms_Version m < max_int64"
  shows "v \<le> fold (\<lambda>m v. if ms_FlightID m = f \<and> ms_Version m \<ge> v then inc64 (ms_Version m) else v) ms v
    \<and> (\<forall>m \<in> set ms. ms_FlightID m = f \<longrightarrow>
        ms_Version m < fold (\<lambda>m v. if ms_FlightID m = f \<and> ms_Version m \<ge> v then inc64 (ms_Version m) else v) ms v)
    \<and> (fold (\<lambda>m v. if ms_FlightID m = f \<and> ms_Version m \<ge> v then inc64 (ms_Version m) else v) ms v = v
       \<or> (\<exists>m \<in> set ms. ms_FlightID m = f \<and> ms_Version m + 1 =
          fold (\<lambda>m v. if ms_FlightID m = f \<and> ms_Version m \<ge> v then inc64 (ms_Version m) else v) ms v))"
  using assms
proof (induction ms arbitrary: v)
  case (Cons m ms)
  let ?v = "if ms_FlightID m = f \<and> ms_Version m \<ge> v then inc64 (ms_Version m) else v"
  have inc: "inc64 (ms_Version m) = ms_Version m + 1" using Cons.prems by simp
  have "v \<le> ?v" and "ms_FlightID m = f \<Longrightarrow> ms_Version m < ?v"
    and "?v = v \<or> ms_FlightID m = f \<and> ms_Version m + 1 = ?v" by (auto simp: inc)
  with Cons.IH [of ?v] Cons.prems show ?case by (fastforce simp del: inc64_no_wrap)
qed simp

interpretation by_mission_version: weak_order "\<lambda>m c. ms_Version m > ms_Version c"
  by (rule weak_order_key_desc)

interpretation newer_mission: weak_order newer_mission
  by unfold_locales (auto simp: newer_mission_def)

interpretation by_restore: weak_order "deploymentPreferredForRestore s" for s
  by unfold_locales (auto simp: deploymentPreferredForRestore_def Let_def split: if_splits)

interpretation by_creation: weak_order "\<lambda>d c. creation_order s (md_ID d) > creation_order s (md_ID c)" for s
  by (rule weak_order_key_desc)

interpretation by_creation_entry: weak_order "\<lambda>(i, d) (j, c). \<not> creation_order s i \<le> creation_order s j" for s
  by unfold_locales (auto split: prod.splits)

interpretation by_start: weak_order "\<lambda>a b. fl_StartedAt a > fl_StartedAt b"
  by (rule weak_order_key_desc)

subsection \<open>Reads of the current records\<close>

lemma CreateMission_eq: "CreateMission = createMissionLocked"
  by (intro ext) (simp add: CreateMission_def)

lemma current_mission_iff:
  assumes "keyed ms_ID (s_missions s)"
  shows "currentMissionForFlightLocked s f = Some m \<Longrightarrow>
    m \<in> set (vals (s_missions s)) \<and> ms_FlightID m = f
    \<and> (\<forall>n \<in> set (vals (s_missions s)). ms_FlightID n = f \<longrightarrow> ms_Version n \<le> ms_Version m)"
  unfolding currentMissionForFlightLocked_def
  using by_mission_version.select_best_max select_best_in by fastforce

lemma current_mission_unique:
  assumes "m \<in> set (vals (s_missions s))" and "ms_FlightID m = f"
    and "\<And>n. n \<in> set (vals (s_missions s)) \<Longrightarrow> ms_FlightID n = f \<Longrightarrow> n \<noteq> m \<Longrightarrow> ms_Version n < ms_Version m"
  shows "currentMissionForFlightLocked s f = Some m"
proof -
  let ?xs = "filter (\<lambda>m. ms_FlightID m = f) (vals (s_missions s))"
  have m: "m \<in> set ?xs" using assms(1,2) by simp
  then obtain n where n: "select_best (\<lambda>m c. ms_Version m > ms_Version c) ?xs = Some n"
    by (cases "select_best (\<lambda>m c. ms_Version m > ms_Version c) ?xs") (auto simp: filter_empty_conv)
  then have "\<not> ms_Version n < ms_Version m" using by_mission_version.select_best_max [OF n m] by simp
  moreover have "n \<in> set ?xs" by (rule select_best_in [OF n])
  ultimately have "n = m" using assms(3) by auto
  with n show ?thesis by (simp add: currentMissionForFlightLocked_def)
qed

lemma outstanding_for_aircraft_frame:
  "s_flightRecords s' = s_flightRecords s \<Longrightarrow> outstanding_for_aircraft s' = outstanding_for_aircraft s"
  by (intro ext) (simp add: outstanding_for_aircraft_def)

lemma planned_deployment_ok:
  assumes "planned_deployment_error d r s = None"
  shows "\<exists>f i m. map_of (s_flightRecords s) (md_FlightID d) = Some f \<and> fl_Status f = FlightStatusPlanned
    \<and> md_AircraftID d = fl_AircraftID f \<and> latestOperationalIntent s (fl_IntentID f) = Some i
    \<and> oi_Version i = fl_IntentVersion f \<and> oi_Status i \<in> {IntentStatusAccepted, IntentStatusActive}
    \<and> currentMissionForFlightLocked s (md_FlightID d) = Some m
    \<and> md_MissionID d = ms_ID m \<and> md_MissionDigest d = ms_MissionDigest m
    \<and> (\<forall>g \<in> set (vals (s_flightRecords s)). fl_AircraftID g = fl_AircraftID f \<longrightarrow> fl_Status g \<noteq> FlightStatusActive)
    \<and> (\<forall>e \<in> set (vals (s_missionDeployments s)).
         (\<forall>x. r = Some x \<longrightarrow> md_ID e \<noteq> md_ID x) \<longrightarrow> \<not> outstanding_for_aircraft s (fl_AircraftID f) e)"
  using assms
  by (auto simp: planned_deployment_error_def list_ex_iff simp del: map_of_eq_Some_iff
      split: option.splits if_splits)

lemma planned_deployment_cases:
  assumes "CreateMissionDeploymentForPlannedFlight d s = (r, s')"
  obtains (unchanged) "s' = s"
  | (created) "deployment_by_key s (md_IdempotencyKey d) = None" "planned_deployment_error d None s = None"
      "createMissionDeploymentLocked d s = (r, s')"
  using assms by (auto simp: CreateMissionDeploymentForPlannedFlight_def split: option.splits if_splits)

section \<open>Properties\<close>

text \<open>
  Creating a mission is idempotent. After a creation that succeeds, and any number of other
  creations, a request with the same key gets the mission of the first answer when it is the
  same request, is refused with \<open>ErrIdempotencyConflict\<close> when it is another, and changes nothing
  in either case; with or without the checks against the planned flight.
\<close>

theorem mission_creation_idempotent:
  assumes "create \<in> {CreateMission, CreateMissionForPlannedFlight}" and "missions_ok s"
    and "fst (create m s) = Inr w" and "ms_IdempotencyKey m' = ms_IdempotencyKey m"
    and "s' = fold (\<lambda>v s. snd (create v s)) others (snd (create m s))"
  shows "create m' s' =
    (if ms_IdempotencyRequest m' = ms_IdempotencyRequest m then Inr w else Inl ErrIdempotencyConflict, s')"
  using assms mission_create.create_replay [OF assms(2)] planned_mission_create.create_replay [OF assms(2)]
  by (auto simp: CreateMission_eq)

lemma sample_missions_ok [simp]: "missions_ok NewStore"
  by (simp add: missions_ok_def NewStore_def index_ok_def)

theorem mission_creation_idempotent_witness:
  "CreateMission (sample_mission\<lparr>ms_ID := ''ms-9''\<rparr>) (snd (CreateMission sample_mission NewStore))
   = (Inr (sample_mission\<lparr>ms_Version := 1\<rparr>), snd (CreateMission sample_mission NewStore))"
proof -
  have "fst (CreateMission sample_mission NewStore) = Inr (sample_mission\<lparr>ms_Version := 1\<rparr>)"
    by (simp add: CreateMission_eq createMissionLocked_def mission_by_key_def NewStore_def Let_def
        next_mission_version_def vals_def)
  then show ?thesis
    using mission_creation_idempotent [where create = CreateMission and m = sample_mission and s = NewStore
        and m' = "sample_mission\<lparr>ms_ID := ''ms-9''\<rparr>" and others = "[]"] by simp
qed

text \<open>
  The missions of a flight are numbered from 1 without a gap, and the newest is current. A new
  mission gets the number after the highest of its flight (1 for the first), whatever the
  order of the map, and \<open>GetCurrentMissionForFlight\<close> then returns it.
\<close>

theorem mission_versions_count_up:
  assumes ok: "missions_ok s" and "mission_by_key s (ms_IdempotencyKey m) = None"
    and "CreateMission m s = (Inr w, s')"
    and "\<forall>n \<in> set (vals (s_missions s)). int64_range (ms_Version n) \<and> ms_Version n < max_int64"
  shows "(\<forall>n \<in> set (vals (s_missions s)). ms_FlightID n = ms_FlightID m \<longrightarrow> ms_Version n < ms_Version w)
    \<and> (ms_Version w = 1
       \<or> (\<exists>n \<in> set (vals (s_missions s)). ms_FlightID n = ms_FlightID m \<and> ms_Version w = ms_Version n + 1))
    \<and> GetCurrentMissionForFlight (ms_FlightID m) s' = Inr w"
proof -
  have "fst (createMissionLocked m s) = Inr w" and s': "s' = snd (createMissionLocked m s)"
    using assms(3) by (simp_all add: CreateMission_eq)
  note fresh = create_mission_fresh [OF ok assms(2) this(1)]
  note fold = next_version_fold [OF assms(4), of 1 "ms_FlightID m", folded next_mission_version_def]
  have w: "ms_FlightID w = ms_FlightID m" "ms_Version w = next_mission_version s (ms_FlightID m)" "ms_ID w = ms_ID m"
    by (simp_all add: fresh(3))
  have "s_missions s' = AList.update (ms_ID w) w (s_missions s)" by (simp add: s' fresh(5))
  then have vals: "set (vals (s_missions s')) = insert w {n \<in> set (vals (s_missions s)). ms_ID n \<noteq> ms_ID w}"
    using vals_put [of ms_ID "s_missions s" w] ok by (simp add: missions_ok_def)
  have "currentMissionForFlightLocked s' (ms_FlightID m) = Some w"
    using fold by (intro current_mission_unique) (auto simp: vals w)
  with fold w(2) show ?thesis by (fastforce simp: GetCurrentMissionForFlight_def)
qed

theorem mission_versions_count_up_witness:
  "GetCurrentMissionForFlight ''fl-1'' (snd (CreateMission sample_mission NewStore))
   = Inr (sample_mission\<lparr>ms_Version := 1\<rparr>)"
proof -
  have "CreateMission sample_mission NewStore =
      (Inr (sample_mission\<lparr>ms_Version := 1\<rparr>), snd (CreateMission sample_mission NewStore))"
    by (simp add: CreateMission_eq createMissionLocked_def mission_by_key_def NewStore_def Let_def
        next_mission_version_def vals_def)
  from mission_versions_count_up [OF sample_missions_ok _ this] show ?thesis
    by (simp add: NewStore_def vals_def mission_by_key_def sample_mission_def)
qed

text \<open>
  C10: one deployment under way per aircraft. \<open>CreateMissionDeploymentForPlannedFlight\<close> keeps it that
  no two outstanding deployments are for planned flights of one aircraft; what it creates is for
  a planned flight of an accepted or active intent in its latest version, carries the current
  mission of the flight with its digest, and no flight of the aircraft is active.
\<close>

theorem planned_deployment_exclusive:
  assumes ok: "deployments_ok s" and one: "one_outstanding s"
    and run: "CreateMissionDeploymentForPlannedFlight d s = (r, s')"
  shows "one_outstanding s' \<and> deployments_ok s'
    \<and> (s' \<noteq> s \<longrightarrow> r = Inr (d\<lparr>md_Revision := 0\<rparr>)
        \<and> (\<exists>f i m. GetFlightRecord (md_FlightID d) s = Inr f \<and> fl_Status f = FlightStatusPlanned
             \<and> md_AircraftID d = fl_AircraftID f
             \<and> GetOperationalIntent (fl_IntentID f) s = Inr i \<and> oi_Version i = fl_IntentVersion f
             \<and> oi_Status i \<in> {IntentStatusAccepted, IntentStatusActive}
             \<and> GetCurrentMissionForFlight (md_FlightID d) s = Inr m
             \<and> md_MissionID d = ms_ID m \<and> md_MissionDigest d = ms_MissionDigest m
             \<and> (\<forall>g \<in> set (vals (s_flightRecords s)).
                  fl_AircraftID g = fl_AircraftID f \<longrightarrow> fl_Status g \<noteq> FlightStatusActive)))"
  using run
proof (cases rule: planned_deployment_cases)
  case unchanged
  with ok one show ?thesis by simp
next
  case created
  show ?thesis
  proof (cases r)
    case (Inl e)
    then have "s' = s" using deployment_create.create_error [of d s e] created(3) by simp
    with ok one show ?thesis by simp
  next
    case (Inr w)
    then have "fst (createMissionDeploymentLocked d s) = Inr w" using created(3) by simp
    note fresh = create_deployment_fresh [OF ok created(1) this]
    have s': "s' = add_deployment w s" using fresh(5) created(3) by simp
    obtain f i m where f: "map_of (s_flightRecords s) (md_FlightID d) = Some f"
      and guards: "fl_Status f = FlightStatusPlanned" "md_AircraftID d = fl_AircraftID f"
        "latestOperationalIntent s (fl_IntentID f) = Some i" "oi_Version i = fl_IntentVersion f"
        "oi_Status i \<in> {IntentStatusAccepted, IntentStatusActive}"
        "currentMissionForFlightLocked s (md_FlightID d) = Some m"
        "md_MissionID d = ms_ID m" "md_MissionDigest d = ms_MissionDigest m"
        "\<forall>g \<in> set (vals (s_flightRecords s)). fl_AircraftID g = fl_AircraftID f \<longrightarrow> fl_Status g \<noteq> FlightStatusActive"
      and none: "\<forall>e \<in> set (vals (s_missionDeployments s)). \<not> outstanding_for_aircraft s (fl_AircraftID f) e"
      using planned_deployment_ok [OF created(2)] by auto
    have vals: "set (vals (s_missionDeployments s')) =
        insert w {e \<in> set (vals (s_missionDeployments s)). md_ID e \<noteq> md_ID w}"
      using vals_put [of md_ID "s_missionDeployments s" w] ok by (simp add: s' deployments_ok_def)
    have out: "outstanding_for_aircraft s' = outstanding_for_aircraft s"
      by (rule outstanding_for_aircraft_frame) (simp add: s')
    have aw: "a = fl_AircraftID f" if "outstanding_for_aircraft s a w" for a
      using that f by (simp add: outstanding_for_aircraft_def fresh(3) del: map_of_eq_Some_iff)
    have "one_outstanding s'"
      using one none aw unfolding one_outstanding_def out vals by auto
    moreover have "deployments_ok s'" using fresh(1) created(3) by simp
    ultimately show ?thesis
      using f guards Inr fresh(3)
      by (simp add: GetFlightRecord_def GetOperationalIntent_def GetCurrentMissionForFlight_def
          del: map_of_eq_Some_iff)
  qed
qed

lemma NewStore_deployments [simp]:
  "deployments_ok NewStore" "one_outstanding NewStore" "order_ok NewStore"
  by (simp_all add: deployments_ok_def one_outstanding_def order_ok_def NewStore_def vals_def index_ok_def)

lemma sample_flight_store_ok [simp]:
  "s_missionDeployments sample_flight_store = []" "s_deploymentByIdempotencyKey sample_flight_store = []"
  by code_simp+

theorem planned_deployment_exclusive_witness:
  "one_outstanding (snd (CreateMissionDeploymentForPlannedFlight sample_deployment sample_flight_store))
   \<and> fst (CreateMissionDeploymentForPlannedFlight sample_deployment sample_flight_store)
     = Inr (sample_deployment\<lparr>md_Revision := 0\<rparr>)"
proof -
  have "planned_deployment_error sample_deployment None sample_flight_store = None" by code_simp
  then have run: "CreateMissionDeploymentForPlannedFlight sample_deployment sample_flight_store =
      (Inr (sample_deployment\<lparr>md_Revision := 0\<rparr>),
       add_deployment (sample_deployment\<lparr>md_Revision := 0\<rparr>) sample_flight_store)"
    by (simp add: CreateMissionDeploymentForPlannedFlight_def deployment_by_key_def
        createMissionDeploymentLocked_def Let_def)
  have "deployments_ok sample_flight_store" "one_outstanding sample_flight_store"
    by (simp_all add: deployments_ok_def one_outstanding_def index_ok_def vals_def)
  from planned_deployment_exclusive [OF this run] run show ?thesis by simp
qed

lemma no_outstanding_for_aircraft:
  "\<not> list_ex (outstanding_for_aircraft s a) (filter (\<lambda>e. case map_of (s_flightRecords s) (md_FlightID e) of
       None \<Rightarrow> False | Some f \<Rightarrow> fl_AircraftID f = a) ds)
   \<longleftrightarrow> list_all (\<lambda>e. \<not> outstanding_for_aircraft s a e) ds"
  by (induction ds) (auto simp: outstanding_for_aircraft_def simp del: map_of_eq_Some_iff split: option.splits)

lemma start_flight_ok:
  assumes "StartFlightWithCurrentMissionDeployment fl st s = (None, s')"
  obtains cf i m d where "map_of (s_flightRecords s) (fl_ID fl) = Some cf" "fl_Status cf = st"
    "\<not> list_ex (\<lambda>(k, g). k \<noteq> fl_ID fl \<and> fl_AircraftID g = fl_AircraftID cf
         \<and> fl_Status g = FlightStatusActive) (s_flightRecords s)"
    "latestOperationalIntent s (fl_IntentID cf) = Some i" "oi_Status i = IntentStatusActive"
    "oi_Version i = fl_IntentVersion cf" "oi_AircraftID i = fl_AircraftID cf"
    "currentMissionForFlightLocked s (fl_ID fl) = Some m"
    "list_all (\<lambda>e. \<not> outstanding_for_aircraft s (fl_AircraftID cf) e) (vals (s_missionDeployments s))"
    "select_best (\<lambda>d c. creation_order s (md_ID d) > creation_order s (md_ID c))
        (filter (\<lambda>e. case map_of (s_flightRecords s) (md_FlightID e) of
              None \<Rightarrow> False | Some f \<Rightarrow> fl_AircraftID f = fl_AircraftID cf) (vals (s_missionDeployments s))) = Some d"
    "md_FlightID d = fl_ID fl" "md_MissionID d = ms_ID m" "md_MissionDigest d = ms_MissionDigest m"
    "deployment_verified d"
    "s' = s\<lparr>s_flightRecords := AList.update (fl_ID fl) fl (s_flightRecords s)\<rparr>"
  using assms unfolding StartFlightWithCurrentMissionDeployment_def Let_def
proof (elim some_passed guard_passed)
  fix cf i m d
  assume a: "map_of (s_flightRecords s) (fl_ID fl) = Some cf" "\<not> fl_Status cf \<noteq> st"
    "\<not> list_ex (\<lambda>(k, g). k \<noteq> fl_ID fl \<and> fl_AircraftID g = fl_AircraftID cf
         \<and> fl_Status g = FlightStatusActive) (s_flightRecords s)"
    "latestOperationalIntent s (fl_IntentID cf) = Some i"
    "\<not> (oi_Status i \<noteq> IntentStatusActive \<or> oi_Version i \<noteq> fl_IntentVersion cf
         \<or> oi_AircraftID i \<noteq> fl_AircraftID cf)"
    "currentMissionForFlightLocked s (fl_ID fl) = Some m"
    "\<not> list_ex (outstanding_for_aircraft s (fl_AircraftID cf)) (filter (\<lambda>e.
         case map_of (s_flightRecords s) (md_FlightID e) of
              None \<Rightarrow> False | Some f \<Rightarrow> fl_AircraftID f = fl_AircraftID cf) (vals (s_missionDeployments s)))"
    "select_best (\<lambda>d c. creation_order s (md_ID d) > creation_order s (md_ID c))
        (filter (\<lambda>e. case map_of (s_flightRecords s) (md_FlightID e) of
              None \<Rightarrow> False | Some f \<Rightarrow> fl_AircraftID f = fl_AircraftID cf) (vals (s_missionDeployments s))) = Some d"
    "\<not> (md_FlightID d \<noteq> fl_ID fl \<or> md_MissionID d \<noteq> ms_ID m \<or> md_MissionDigest d \<noteq> ms_MissionDigest m
         \<or> (md_Status d \<noteq> MissionDeploymentApplied \<and> md_Status d \<noteq> MissionDeploymentAlreadyApplied))"
    "(None, s\<lparr>s_flightRecords := AList.update (fl_ID fl) fl (s_flightRecords s)\<rparr>) = (None, s')"
  show ?thesis
    by (rule that [OF a(1) _ a(3,4) _ _ _ a(6) a(7) [unfolded no_outstanding_for_aircraft] a(8)])
      (use a(2,5,9,10) in \<open>simp_all add: deployment_verified_def del: map_of_eq_Some_iff\<close>)
qed

text \<open>
  C9: a flight starts only behind its verified mission. When
  \<open>StartFlightWithCurrentMissionDeployment\<close> succeeds, the stored flight had the expected status,
  its intent is active in the version of the flight, and the newest deployment for any flight
  of the aircraft is for this flight, carries its current mission and is verified, while no
  planned flight of the aircraft has a deployment under way. No other flight of the aircraft is
  active then, so that there is at most one active flight per aircraft afterwards as before.
\<close>

theorem start_flight_needs_verified_deployment:
  assumes ok: "flights_ok s" and run: "StartFlightWithCurrentMissionDeployment fl st s = (None, s')"
  shows "\<exists>cf i m d. GetFlightRecord (fl_ID fl) s = Inr cf \<and> fl_Status cf = st
    \<and> GetOperationalIntent (fl_IntentID cf) s = Inr i \<and> oi_Status i = IntentStatusActive
    \<and> oi_Version i = fl_IntentVersion cf \<and> oi_AircraftID i = fl_AircraftID cf
    \<and> GetCurrentMissionForFlight (fl_ID fl) s = Inr m
    \<and> d \<in> set (vals (s_missionDeployments s)) \<and> md_FlightID d = fl_ID fl
    \<and> md_MissionID d = ms_ID m \<and> md_MissionDigest d = ms_MissionDigest m \<and> deployment_verified d
    \<and> (\<forall>e \<in> set (vals (s_missionDeployments s)).
         \<not> outstanding_for_aircraft s (fl_AircraftID cf) e
         \<and> (\<forall>f. GetFlightRecord (md_FlightID e) s = Inr f \<and> fl_AircraftID f = fl_AircraftID cf \<longrightarrow>
              creation_order s (md_ID e) \<le> creation_order s (md_ID d)))
    \<and> (\<forall>g \<in> set (vals (s_flightRecords s')). fl_AircraftID g = fl_AircraftID cf
         \<and> fl_Status g = FlightStatusActive \<longrightarrow> g = fl)
    \<and> (\<forall>k. k \<noteq> fl_ID fl \<longrightarrow> GetFlightRecord k s' = GetFlightRecord k s)
    \<and> GetFlightRecord (fl_ID fl) s' = Inr fl
    \<and> (one_airborne s \<and> fl_AircraftID fl = fl_AircraftID cf \<longrightarrow> one_airborne s')"
proof -
  obtain cf i m d where cf: "map_of (s_flightRecords s) (fl_ID fl) = Some cf" and st: "fl_Status cf = st"
    and free: "\<not> list_ex (\<lambda>(k, g). k \<noteq> fl_ID fl \<and> fl_AircraftID g = fl_AircraftID cf
         \<and> fl_Status g = FlightStatusActive) (s_flightRecords s)"
    and i: "latestOperationalIntent s (fl_IntentID cf) = Some i" "oi_Status i = IntentStatusActive"
      "oi_Version i = fl_IntentVersion cf" "oi_AircraftID i = fl_AircraftID cf"
    and m: "currentMissionForFlightLocked s (fl_ID fl) = Some m"
    and out: "list_all (\<lambda>e. \<not> outstanding_for_aircraft s (fl_AircraftID cf) e) (vals (s_missionDeployments s))"
    and d: "select_best (\<lambda>d c. creation_order s (md_ID d) > creation_order s (md_ID c))
        (filter (\<lambda>e. case map_of (s_flightRecords s) (md_FlightID e) of
              None \<Rightarrow> False | Some f \<Rightarrow> fl_AircraftID f = fl_AircraftID cf) (vals (s_missionDeployments s))) = Some d"
    and dm: "md_FlightID d = fl_ID fl" "md_MissionID d = ms_ID m" "md_MissionDigest d = ms_MissionDigest m"
      "deployment_verified d"
    and s': "s' = s\<lparr>s_flightRecords := AList.update (fl_ID fl) fl (s_flightRecords s)\<rparr>"
    using start_flight_ok [OF run] .
  have kf: "keyed fl_ID (s_flightRecords s)" using ok by (simp add: flights_ok_def)
  have vals: "set (vals (s_flightRecords s')) =
      insert fl {g \<in> set (vals (s_flightRecords s)). fl_ID g \<noteq> fl_ID fl}"
    using vals_put [OF kf, of fl] by (simp add: s')
  have grounded: "fl_Status g \<noteq> FlightStatusActive"
    if "g \<in> set (vals (s_flightRecords s))" "fl_ID g \<noteq> fl_ID fl" "fl_AircraftID g = fl_AircraftID cf" for g
    using free that kf by (fastforce simp: list_ex_iff vals_def keyed_def list_all_iff)
  have one: "one_airborne s'" if "one_airborne s" "fl_AircraftID fl = fl_AircraftID cf"
    using that grounded unfolding one_airborne_def vals by auto
  have din: "d \<in> set (vals (s_missionDeployments s))" using select_best_in [OF d] by simp
  have newest: "creation_order s (md_ID e) \<le> creation_order s (md_ID d)"
    if "e \<in> set (vals (s_missionDeployments s))" "map_of (s_flightRecords s) (md_FlightID e) = Some f"
      "fl_AircraftID f = fl_AircraftID cf" for e f
    using by_creation.select_best_max [OF d, of e] that by (simp del: map_of_eq_Some_iff)
  have get: "GetFlightRecord k s' = (if k = fl_ID fl then Inr fl else GetFlightRecord k s)" for k
    by (simp add: GetFlightRecord_def s')
  have "GetFlightRecord (fl_ID fl) s = Inr cf" "GetOperationalIntent (fl_IntentID cf) s = Inr i"
    "GetCurrentMissionForFlight (fl_ID fl) s = Inr m"
    using cf i(1) m by (simp_all add: GetFlightRecord_def GetOperationalIntent_def GetCurrentMissionForFlight_def)
  moreover have "\<forall>g \<in> set (vals (s_flightRecords s')). fl_AircraftID g = fl_AircraftID cf
      \<and> fl_Status g = FlightStatusActive \<longrightarrow> g = fl"
    using grounded unfolding vals by auto
  moreover have "\<forall>e \<in> set (vals (s_missionDeployments s)). \<not> outstanding_for_aircraft s (fl_AircraftID cf) e
      \<and> (\<forall>f. GetFlightRecord (md_FlightID e) s = Inr f \<and> fl_AircraftID f = fl_AircraftID cf \<longrightarrow>
           creation_order s (md_ID e) \<le> creation_order s (md_ID d))"
    using out newest by (simp add: list_all_iff GetFlightRecord_def del: map_of_eq_Some_iff)
  ultimately show ?thesis using st i(2-4) dm din one get by (intro exI conjI) auto
qed

theorem start_flight_needs_verified_deployment_witness:
  "GetFlightRecord ''fl-1'' (snd (StartFlightWithCurrentMissionDeployment
      (sample_flight\<lparr>fl_Status := FlightStatusActive\<rparr>) FlightStatusPlanned sample_ready_store))
   = Inr (sample_flight\<lparr>fl_Status := FlightStatusActive\<rparr>)"
proof -
  let ?f = "sample_flight\<lparr>fl_Status := FlightStatusActive\<rparr>"
  let ?r = "StartFlightWithCurrentMissionDeployment ?f FlightStatusPlanned sample_ready_store"
  have "fst ?r = None" by code_simp
  then have r: "?r = (None, snd ?r)" by (simp add: prod_eq_iff)
  have "flights_ok sample_ready_store"
    by (simp add: flights_ok_def sample_ready_store_def keyed_def sample_flight_def)
  from start_flight_needs_verified_deployment [OF this r] show ?thesis by (auto simp: sample_flight_def)
qed

text \<open>
  Restoring after a restart finds what is under way. When a flight has an outstanding
  deployment, \<open>GetCurrentMissionDeploymentForFlight\<close> returns an outstanding one for the flight:
  one of unknown outcome when there is any, and the newest of those of its rank.
\<close>

theorem restore_prefers_outstanding:
  assumes "e \<in> set (vals (s_missionDeployments s))" and "md_FlightID e = fid"
    and "missionDeploymentOutstanding (md_Status e)"
  shows "\<exists>d. GetCurrentMissionDeploymentForFlight fid s = Inr d \<and> d \<in> set (vals (s_missionDeployments s))
    \<and> md_FlightID d = fid \<and> missionDeploymentOutstanding (md_Status d)
    \<and> (md_Status e = MissionDeploymentOutcomeUnknown \<longrightarrow> md_Status d = MissionDeploymentOutcomeUnknown)
    \<and> (missionDeploymentRestorePriority (md_Status e) = missionDeploymentRestorePriority (md_Status d) \<longrightarrow>
         creation_order s (md_ID e) \<le> creation_order s (md_ID d))"
proof -
  let ?xs = "filter (\<lambda>d. md_FlightID d = fid \<and> \<not> (\<not> missionDeploymentOutstanding (md_Status d)
               \<and> (case currentMissionForFlightLocked s fid of
                    None \<Rightarrow> True
                  | Some m \<Rightarrow> md_MissionID d \<noteq> ms_ID m \<or> md_MissionDigest d \<noteq> ms_MissionDigest m)))
         (vals (s_missionDeployments s))"
  have e: "e \<in> set ?xs" using assms by simp
  obtain d where d: "select_best (deploymentPreferredForRestore s) ?xs = Some d"
    using e by (cases "select_best (deploymentPreferredForRestore s) ?xs") (auto simp: filter_empty_conv)
  have "d \<in> set ?xs" by (rule select_best_in [OF d])
  moreover have best: "\<not> deploymentPreferredForRestore s e d" by (rule by_restore.select_best_max [OF d e])
  ultimately show ?thesis
    using assms(3) d
    by (intro exI [of _ d])
      (auto simp: GetCurrentMissionDeploymentForFlight_def deploymentPreferredForRestore_def Let_def
        missionDeploymentRestorePriority_def missionDeploymentOutstanding_def split: if_splits)
qed

theorem restore_prefers_outstanding_witness:
  "\<exists>d. GetCurrentMissionDeploymentForFlight ''fl-1''
      (NewStore\<lparr>s_missionDeployments := [(''dep-1'', sample_deployment)]\<rparr>) = Inr d
     \<and> missionDeploymentOutstanding (md_Status d)"
proof -
  let ?s = "NewStore\<lparr>s_missionDeployments := [(''dep-1'', sample_deployment)]\<rparr>"
  have "sample_deployment \<in> set (vals (s_missionDeployments ?s))" "md_FlightID sample_deployment = ''fl-1''"
    "missionDeploymentOutstanding (md_Status sample_deployment)"
    by (simp_all add: vals_def sample_deployment_def missionDeploymentOutstanding_def)
  from restore_prefers_outstanding [OF this] show ?thesis by blast
qed

end
