(* ===== verification/Numbers.thy ===== *)
theory Numbers
  imports Prelude
begin

text \<open>
  What the import of missions uses of \<open>strconv\<close>, \<open>strings\<close>, \<open>fmt\<close>, \<open>math\<close> and of IEEE 754
  arithmetic: the integers and floating-point numbers a text denotes, rounding to \<open>float32\<close> and
  \<open>float64\<close> as a function on the reals (nearest, ties to even, \<open>None\<close> for an infinity; the sign of
  zero is not kept), and printing with three decimals.
\<close>

section \<open>Definitions\<close>

subsection \<open>Rounding\<close>

definition round_half_even :: "real \<Rightarrow> int" where
  "round_half_even x =
     (if frac x = 1 / 2 then (if even \<lfloor>x\<rfloor> then \<lfloor>x\<rfloor> else \<lfloor>x\<rfloor> + 1) else \<lfloor>x + 1 / 2\<rfloor>)"

text \<open>The exponent of the leading bit, at least \<open>emin\<close> and at most \<open>emin + n\<close>.\<close>

fun binary_exponent :: "int \<Rightarrow> nat \<Rightarrow> real \<Rightarrow> int" where
  "binary_exponent emin 0 x = emin"
| "binary_exponent emin (Suc n) x = (if 2 powi (emin + int (Suc n)) \<le> \<bar>x\<bar> then emin + int (Suc n) else binary_exponent emin n x)"

definition round_float :: "nat \<Rightarrow> int \<Rightarrow> nat \<Rightarrow> real \<Rightarrow> real option" where
  "round_float p emin n x =
     (let ulp = 2 powi (binary_exponent emin n x - int p + 1);
          r = real_of_int (round_half_even (x / ulp)) * ulp
      in if \<bar>r\<bar> \<ge> 2 powi (emin + int n + 1) then None else Some r)"

definition float32 :: "real \<Rightarrow> real option" where
  "float32 = round_float 24 (- 126) 253"

definition float64 :: "real \<Rightarrow> real option" where
  "float64 = round_float 53 (- 1022) 2045"

text \<open>\<open>math.Round\<close>: half away from zero.\<close>

definition math_Round :: "real \<Rightarrow> int" where
  "math_Round x = (if x < 0 then \<lceil>x - 1 / 2\<rceil> else \<lfloor>x + 1 / 2\<rfloor>)"

subsection \<open>Texts of numbers\<close>

definition digit_value :: "nat \<Rightarrow> char \<Rightarrow> nat option" where
  "digit_value base c =
     (let n = of_char c :: nat in
      if 48 \<le> n \<and> n \<le> 57 then Some (n - 48)
      else if base = 16 \<and> 97 \<le> n \<and> n \<le> 102 then Some (n - 87)
      else if base = 16 \<and> 65 \<le> n \<and> n \<le> 70 then Some (n - 55)
      else None)"

definition is_digit :: "char \<Rightarrow> bool" where
  "is_digit c \<longleftrightarrow> digit_value 10 c \<noteq> None"

definition decimal_value :: "string \<Rightarrow> nat" where
  "decimal_value s = fold (\<lambda>c n. 10 * n + the (digit_value 10 c)) s 0"

definition split_sign :: "string \<Rightarrow> bool \<times> string" where
  "split_sign s =
     (case s of
        c # cs \<Rightarrow> if c = CHR ''-'' then (True, cs) else if c = CHR ''+'' then (False, cs) else (False, s)
      | [] \<Rightarrow> (False, s))"

text \<open>\<open>strconv.Atoi\<close>, \<open>None\<close> for an error.\<close>

definition Atoi :: "string \<Rightarrow> int option" where
  "Atoi s =
     (case split_sign s of (neg, ds) \<Rightarrow>
      if ds = [] \<or> \<not> list_all is_digit ds then None
      else
        let n = int (decimal_value ds); v = if neg then - n else n
        in if int64_range v then Some v else None)"

text \<open>
  \<open>strconv.ParseFloat(s, 64)\<close>: the mantissa, the number of its digits after the point, whether
  there was a digit, and the rest of the text; then the exponent, whose digits stop counting at
  10000. Underscores separate digits.
\<close>

fun scan_mantissa :: "nat \<Rightarrow> bool \<Rightarrow> nat \<Rightarrow> nat \<Rightarrow> bool \<Rightarrow> string \<Rightarrow> nat \<times> nat \<times> bool \<times> string" where
  "scan_mantissa base sawdot m f seen [] = (m, f, seen, [])"
| "scan_mantissa base sawdot m f seen (c # cs) =
     (if c = CHR ''_'' then scan_mantissa base sawdot m f seen cs
      else if c = CHR ''.'' \<and> \<not> sawdot then scan_mantissa base True m f seen cs
      else case digit_value base c of
        Some d \<Rightarrow> scan_mantissa base sawdot (base * m + d) (if sawdot then f + 1 else f) True cs
      | None \<Rightarrow> (m, f, seen, c # cs))"

fun scan_exponent :: "nat \<Rightarrow> string \<Rightarrow> nat \<times> string" where
  "scan_exponent e [] = (e, [])"
| "scan_exponent e (c # cs) =
     (if c = CHR ''_'' then scan_exponent e cs
      else case digit_value 10 c of
        Some d \<Rightarrow> scan_exponent (if e < 10000 then 10 * e + d else e) cs
      | None \<Rightarrow> (e, c # cs))"

definition parse_exponent :: "string \<Rightarrow> (int \<times> string) option" where
  "parse_exponent s =
     (case split_sign s of (neg, cs) \<Rightarrow>
      if cs = [] \<or> \<not> is_digit (hd cs) then None
      else case scan_exponent 0 cs of (e, rest) \<Rightarrow> Some (if neg then - int e else int e, rest))"

text \<open>An underscore stands between two digits, or a base prefix and a digit; \<open>saw\<close> is the last of them.\<close>

datatype seen_char = SeenNothing | SeenDigit | SeenUnderscore | SeenOther

fun underscores_ok :: "nat \<Rightarrow> seen_char \<Rightarrow> string \<Rightarrow> bool" where
  "underscores_ok base saw [] \<longleftrightarrow> saw \<noteq> SeenUnderscore"
| "underscores_ok base saw (c # cs) \<longleftrightarrow>
     (if digit_value base c \<noteq> None then underscores_ok base SeenDigit cs
      else if c = CHR ''_'' then saw = SeenDigit \<and> underscores_ok base SeenUnderscore cs
      else saw \<noteq> SeenUnderscore \<and> underscores_ok base SeenOther cs)"

definition hex_prefix :: "string \<Rightarrow> bool" where
  "hex_prefix s \<longleftrightarrow> length s > 2 \<and> s ! 0 = CHR ''0'' \<and> (s ! 1 = CHR ''x'' \<or> s ! 1 = CHR ''X'')"

definition parse_decimal :: "string \<Rightarrow> real option" where
  "parse_decimal s =
     (case scan_mantissa 10 False 0 0 False s of (m, f, seen, rest) \<Rightarrow>
      if \<not> seen then None
      else
        case (case rest of
            [] \<Rightarrow> Some (0, [])
          | c # cs \<Rightarrow> if c = CHR ''e'' \<or> c = CHR ''E'' then parse_exponent cs else Some (0, rest)) of
          Some (e, []) \<Rightarrow>
            if CHR ''_'' \<in> set s \<and> \<not> underscores_ok 10 SeenNothing s then None
            else Some (real m * 10 powi (e - int f))
        | _ \<Rightarrow> None)"

definition parse_hexadecimal :: "string \<Rightarrow> real option" where
  "parse_hexadecimal s =
     (case scan_mantissa 16 False 0 0 False s of (m, f, seen, rest) \<Rightarrow>
      if \<not> seen then None
      else
        case rest of
          [] \<Rightarrow> None
        | c # cs \<Rightarrow>
            if c = CHR ''p'' \<or> c = CHR ''P'' then
              (case parse_exponent cs of
                 Some (e, []) \<Rightarrow>
                   if CHR ''_'' \<in> set s \<and> \<not> underscores_ok 16 SeenDigit s then None
                   else Some (real m * 2 powi (e - 4 * int f))
               | _ \<Rightarrow> None)
            else None)"

text \<open>
  The finite number a text denotes. \<open>None\<close> stands for an error, a number out of range, the
  infinities and NaN, whose names have no digits before their letters.
\<close>

definition ParseFloat :: "string \<Rightarrow> real option" where
  "ParseFloat s =
     (case split_sign s of (neg, cs) \<Rightarrow>
      case (if hex_prefix cs then parse_hexadecimal (drop 2 cs) else parse_decimal cs) of
        None \<Rightarrow> None
      | Some x \<Rightarrow> float64 (if neg then - x else x))"

text \<open>\<open>strings.Split(s, sep)\<close> for a separator of one byte.\<close>

fun split_at :: "char \<Rightarrow> string \<Rightarrow> string list" where
  "split_at sep [] = [[]]"
| "split_at sep (c # cs) =
     (if c = sep then [] # split_at sep cs
      else case split_at sep cs of [] \<Rightarrow> [[c]] | f # fs \<Rightarrow> (c # f) # fs)"

text \<open>The verb \<open>.3f\<close> of \<open>fmt\<close>, for a finite number.\<close>

definition print3 :: "real \<Rightarrow> string" where
  "print3 x =
     (let n = nat (round_half_even (1000 * \<bar>x\<bar>)) in
      (if x < 0 then ''-'' else '''') @ digits (n div 1000)
      @ ''.'' @ digits (n mod 1000 div 100) @ digits (n mod 100 div 10) @ digits (n mod 10))"

subsection \<open>Printed numbers\<close>

definition digits_from :: "nat \<Rightarrow> string \<Rightarrow> nat" where
  "digits_from m s = fold (\<lambda>c n. 10 * n + the (digit_value 10 c)) s m"

fun fixed_digits :: "nat \<Rightarrow> nat \<Rightarrow> string" where
  "fixed_digits 0 n = []"
| "fixed_digits (Suc w) n = fixed_digits w (n div 10) @ [char_of (48 + n mod 10)]"

text \<open>A decimal with \<open>w\<close> digits after the point, of the number \<open>k / 10 ^ w\<close>.\<close>

definition decimal :: "nat \<Rightarrow> int \<Rightarrow> string" where
  "decimal w k = (if k < 0 then ''-'' else '''') @ digits (nat \<bar>k\<bar> div 10 ^ w) @ ''.'' @ fixed_digits w (nat \<bar>k\<bar>)"

section \<open>Lemmas\<close>

subsection \<open>Rounding errors\<close>

lemma round_half_even_close: "\<bar>real_of_int (round_half_even x) - x\<bar> \<le> 1 / 2"
proof (cases "frac x = 1 / 2")
  case True
  then have "x = real_of_int \<lfloor>x\<rfloor> + 1 / 2" by (simp add: frac_def)
  then show ?thesis using True by (simp add: round_half_even_def abs_if)
next
  case False
  then have "round_half_even x = \<lfloor>x + 1 / 2\<rfloor>" by (simp add: round_half_even_def)
  moreover have "real_of_int \<lfloor>x + 1 / 2\<rfloor> \<le> x + 1 / 2" "x + 1 / 2 < real_of_int \<lfloor>x + 1 / 2\<rfloor> + 1"
    using floor_correct [of "x + 1 / 2"] by auto
  ultimately show ?thesis by linarith
qed

lemma round_half_even_of_int [simp]: "round_half_even (real_of_int i) = i"
  by (simp add: round_half_even_def frac_def floor_eq_iff)

lemma binary_exponent_le: "emin \<le> binary_exponent emin n x" "binary_exponent emin n x \<le> emin + int n"
  by (induction n) auto

lemma binary_exponent_less:
  assumes "\<bar>x\<bar> < 2 powi k" and "emin < k"
  shows "binary_exponent emin n x < k"
proof (induction n)
  case (Suc n)
  have "emin + int (Suc n) < k" if "2 powi (emin + int (Suc n)) \<le> \<bar>x\<bar>"
  proof (rule ccontr)
    assume "\<not> emin + int (Suc n) < k"
    then have "2 powi k \<le> (2 :: real) powi (emin + int (Suc n))" by (intro power_int_increasing) auto
    with that assms(1) show False by linarith
  qed
  then show ?case using Suc by auto
qed (simp add: assms)

lemma round_float_close:
  assumes "\<bar>x\<bar> < 2 powi k" and "emin < k" and "k \<le> emin + int n"
  shows "\<exists>r. round_float p emin n x = Some r \<and> \<bar>r - x\<bar> \<le> 2 powi (k - int p - 1)"
proof -
  define e where "e = binary_exponent emin n x"
  define ulp :: real where "ulp = 2 powi (e - int p + 1)"
  define r where "r = real_of_int (round_half_even (x / ulp)) * ulp"
  have ulp: "0 < ulp" by (simp add: ulp_def)
  have e: "e < k" using binary_exponent_less [OF assms(1,2)] by (simp add: e_def)
  have "\<bar>r - x\<bar> = \<bar>real_of_int (round_half_even (x / ulp)) - x / ulp\<bar> * ulp"
  proof -
    have "r - x = (real_of_int (round_half_even (x / ulp)) - x / ulp) * ulp"
      using ulp by (simp add: r_def left_diff_distrib)
    then show ?thesis using ulp by (simp add: abs_mult)
  qed
  also have "\<dots> \<le> 1 / 2 * ulp" using round_half_even_close [of "x / ulp"] ulp by (intro mult_right_mono) auto
  also have "\<dots> = 2 powi (e - int p)" by (simp add: ulp_def power_int_add)
  also have "\<dots> \<le> 2 powi (k - int p - 1)" using e by (intro power_int_increasing) auto
  finally have close: "\<bar>r - x\<bar> \<le> 2 powi (k - int p - 1)" .
  also have "\<dots> \<le> 2 powi k" by (intro power_int_increasing) auto
  finally have "\<bar>r\<bar> < 2 * 2 powi k" using assms(1) by linarith
  also have "\<dots> = 2 powi (k + 1)" by (simp add: power_int_add)
  also have "\<dots> \<le> 2 powi (emin + int n + 1)" using assms(3) by (intro power_int_increasing) auto
  finally show ?thesis
    using close by (auto simp: round_float_def Let_def e_def [symmetric] ulp_def [symmetric] r_def [symmetric])
qed

lemma round_float_of_int:
  assumes "\<bar>i\<bar> < 2 ^ p" and "emin < int p" and "int p \<le> emin + int n"
  shows "round_float p emin n (real_of_int i) = Some (real_of_int i)"
proof -
  define e where "e = binary_exponent emin n (real_of_int i)"
  have "\<bar>real_of_int i\<bar> < 2 powi int p"
  proof -
    from assms(1) have "real_of_int \<bar>i\<bar> < real_of_int (2 ^ p)" by (simp only: of_int_less_iff)
    then show ?thesis by simp
  qed
  with assms have e: "e < int p" unfolding e_def by (intro binary_exponent_less)
  define k where "k = nat (int p - 1 - e)"
  have k: "e - int p + 1 = - int k" using e by (simp add: k_def)
  have up: "real_of_int i / 2 powi (e - int p + 1) = real_of_int (i * 2 ^ k)"
    unfolding k by (simp add: power_int_minus divide_inverse)
  have "2 powi int p \<le> (2 :: real) powi (emin + int n + 1)" using assms(3) by (intro power_int_increasing) auto
  then have "\<bar>real_of_int i\<bar> < 2 powi (emin + int n + 1)"
    using \<open>\<bar>real_of_int i\<bar> < 2 powi int p\<close> by linarith
  moreover have "real_of_int (i * 2 ^ k) * 2 powi (e - int p + 1) = real_of_int i"
    unfolding up [symmetric] by simp
  ultimately show ?thesis
    unfolding round_float_def Let_def e_def [symmetric] up round_half_even_of_int by (simp only:) simp
qed

lemma float64_of_int: "\<bar>i\<bar> < 2 ^ 53 \<Longrightarrow> float64 (real_of_int i) = Some (real_of_int i)"
  unfolding float64_def by (rule round_float_of_int) simp_all

lemma float32_of_int: "\<bar>i\<bar> < 2 ^ 24 \<Longrightarrow> float32 (real_of_int i) = Some (real_of_int i)"
  unfolding float32_def by (rule round_float_of_int) simp_all

lemma float64_close: "\<bar>x\<bar> < 2 powi k \<Longrightarrow> 0 \<le> k \<Longrightarrow> k \<le> 1000 \<Longrightarrow> \<exists>r. float64 x = Some r \<and> \<bar>r - x\<bar> \<le> 2 powi (k - 54)"
  unfolding float64_def using round_float_close [of x k "- 1022" 2045 53] by simp

lemma float32_close: "\<bar>x\<bar> < 2 powi k \<Longrightarrow> 0 \<le> k \<Longrightarrow> k \<le> 100 \<Longrightarrow> \<exists>r. float32 x = Some r \<and> \<bar>r - x\<bar> \<le> 2 powi (k - 25)"
  unfolding float32_def using round_float_close [of x k "- 126" 253 24] by simp

lemma math_Round_close: "\<bar>x - real_of_int n\<bar> < 1 / 2 \<Longrightarrow> math_Round x = n"
proof -
  assume a: "\<bar>x - real_of_int n\<bar> < 1 / 2"
  then have "\<lceil>x - 1 / 2\<rceil> = n" "\<lfloor>x + 1 / 2\<rfloor> = n" unfolding ceiling_eq_iff floor_eq_iff by linarith+
  then show ?thesis by (simp add: math_Round_def)
qed

subsection \<open>Texts of digits\<close>

lemma digit_value_char [simp]: "(n :: nat) < 10 \<Longrightarrow> digit_value 10 (char_of (48 + n)) = Some n"
  by (simp add: digit_value_def Let_def)

lemma is_digit_char [simp]: "(n :: nat) < 10 \<Longrightarrow> is_digit (char_of (48 + n))"
  by (simp add: is_digit_def)

lemma is_digit_iff: "is_digit c \<longleftrightarrow> 48 \<le> (of_char c :: nat) \<and> (of_char c :: nat) \<le> 57"
  by (simp add: is_digit_def digit_value_def Let_def)

lemma digits_are_digits [simp]: "list_all is_digit (digits n)"
  by (induction n rule: digits.induct) (subst digits.simps, auto)

lemma digits_from_append [simp]: "digits_from m (s @ t) = digits_from (digits_from m s) t"
  by (simp add: digits_from_def)

lemma digits_from_simps [simp]: "digits_from m [] = m" "digits_from m (c # cs) = digits_from (10 * m + the (digit_value 10 c)) cs"
  by (simp_all add: digits_from_def)

lemma digits_from_digits [simp]: "digits_from 0 (digits n) = n"
proof (induction n rule: digits.induct)
  case (1 n)
  then show ?case by (subst digits.simps) auto
qed

lemma decimal_value_digits [simp]: "decimal_value (digits n) = n"
  using digits_from_digits [of n] by (simp add: decimal_value_def digits_from_def)

lemma fixed_digits_facts [simp]:
  "length (fixed_digits w n) = w" "list_all is_digit (fixed_digits w n)"
  by (induction w arbitrary: n) auto

lemma digits_from_fixed: "digits_from m (fixed_digits w n) = m * 10 ^ w + n mod 10 ^ w"
proof (induction w arbitrary: n)
  case (Suc w)
  have "10 * (n div 10 mod 10 ^ w) + n mod 10 = n mod (10 * 10 ^ w)"
    by (metis mod_mult2_eq add.commute)
  with Suc show ?case by (simp add: algebra_simps)
qed simp

lemma scan_digits:
  "list_all is_digit ds \<Longrightarrow> scan_mantissa 10 dot m f seen (ds @ cs)
     = scan_mantissa 10 dot (digits_from m ds) (if dot then f + length ds else f) (seen \<or> ds \<noteq> []) cs"
proof (induction ds arbitrary: m f seen)
  case (Cons c ds)
  then obtain d where d: "digit_value 10 c = Some d" by (auto simp: is_digit_def)
  have "c \<noteq> CHR ''_''" "c \<noteq> CHR ''.''" using Cons.prems by (auto simp: is_digit_iff)
  with Cons d show ?case by simp
qed simp

lemma parse_decimal_decimal:
  "parse_decimal (digits (n div 10 ^ w) @ ''.'' @ fixed_digits w n) = Some (real n / 10 ^ w)"
proof -
  have "scan_mantissa 10 True m 0 True (fixed_digits w n) = (digits_from m (fixed_digits w n), w, True, [])" for m
    using scan_digits [of "fixed_digits w n" True m 0 True "[]"] by simp
  moreover have "n div 10 ^ w * 10 ^ w + n mod 10 ^ w = n" by (rule div_mult_mod_eq)
  moreover have "CHR ''_'' \<notin> set (digits (n div 10 ^ w)) \<union> set (fixed_digits w n)"
    using digits_are_digits [of "n div 10 ^ w"] fixed_digits_facts(2) [of w n] unfolding list_all_iff is_digit_iff by force
  ultimately show ?thesis
    by (simp add: parse_decimal_def scan_digits digits_from_fixed power_int_minus divide_inverse)
qed

lemma no_hex_prefix: "\<forall>c \<in> set s. is_digit c \<or> c = CHR ''.'' \<Longrightarrow> \<not> hex_prefix s"
proof
  assume s: "\<forall>c \<in> set s. is_digit c \<or> c = CHR ''.''" and hex: "hex_prefix s"
  then have "s ! 1 \<in> set s" by (intro nth_mem) (simp add: hex_prefix_def)
  with s have "is_digit (s ! 1) \<or> s ! 1 = CHR ''.''" by blast
  with hex show False by (auto simp: hex_prefix_def is_digit_iff)
qed

lemma split_sign_digit: "s \<noteq> [] \<Longrightarrow> is_digit (hd s) \<Longrightarrow> split_sign s = (False, s)"
  by (cases s) (auto simp: split_sign_def is_digit_iff)

lemma hd_digits: "is_digit (hd (digits n))"
  using digits_are_digits [of n] by (simp add: list_all_iff)

lemma ParseFloat_decimal: "ParseFloat (decimal w k) = float64 (real_of_int k / 10 ^ w)"
proof -
  let ?s = "digits (nat \<bar>k\<bar> div 10 ^ w) @ ''.'' @ fixed_digits w (nat \<bar>k\<bar>)"
  have "\<forall>c \<in> set ?s. is_digit c \<or> c = CHR ''.''"
    using digits_are_digits fixed_digits_facts(2) unfolding list_all_iff by auto
  then have "\<not> hex_prefix ?s" by (rule no_hex_prefix)
  moreover have "split_sign ?s = (False, ?s)" by (rule split_sign_digit) (simp_all add: hd_digits)
  moreover have "split_sign (CHR ''-'' # ?s) = (True, ?s)" by (simp add: split_sign_def)
  ultimately show ?thesis
    using parse_decimal_decimal [of "nat \<bar>k\<bar>" w] by (auto simp: ParseFloat_def decimal_def)
qed

lemma ParseFloat_digits: "ParseFloat (digits n) = float64 (real n)"
proof -
  have "\<forall>c \<in> set (digits n). is_digit c \<or> c = CHR ''.''"
    using digits_are_digits [of n] by (simp add: list_all_iff)
  then have "\<not> hex_prefix (digits n)" by (rule no_hex_prefix)
  moreover have "CHR ''_'' \<notin> set (digits n)"
    using digits_are_digits [of n] unfolding list_all_iff is_digit_iff by force
  ultimately show ?thesis
    using scan_digits [of "digits n" False 0 0 False "[]"]
    by (simp add: ParseFloat_def split_sign_digit hd_digits parse_decimal_def)
qed

lemma Atoi_itoa: "int64_range i \<Longrightarrow> Atoi (itoa i) = Some i"
proof (cases "i < 0")
  case True
  then show "int64_range i \<Longrightarrow> Atoi (itoa i) = Some i" by (simp add: Atoi_def itoa_def split_sign_def)
qed (simp add: Atoi_def itoa_def split_sign_digit hd_digits)

lemma split_at_append: "sep \<notin> set s \<Longrightarrow> split_at sep (s @ sep # t) = s # split_at sep t"
  by (induction s) auto

lemma split_at_single: "sep \<notin> set s \<Longrightarrow> split_at sep s = [s]"
  by (induction s) auto

lemma split_at_join:
  "fs \<noteq> [] \<Longrightarrow> \<forall>f \<in> set fs. sep \<notin> set f \<Longrightarrow> split_at sep (join_strings [sep] fs) = fs"
proof (induction fs rule: induct_list012)
  case (3 x y zs)
  then show ?case by (simp add: split_at_append)
qed (simp_all add: split_at_single)


lemma binary_exponent_upper:
  assumes "binary_exponent emin n x < emin + int n"
  shows "\<bar>x\<bar> < 2 powi (binary_exponent emin n x + 1)"
proof -
  have "\<bar>x\<bar> < 2 powi (emin + int m) \<longrightarrow> \<bar>x\<bar> < 2 powi (binary_exponent emin m x + 1)" for m
  proof (induction m)
    case 0
    have "2 powi emin \<le> (2 :: real) powi (emin + 1)" by (intro power_int_increasing) auto
    then show ?case by auto
  next
    case (Suc m)
    show ?case
    proof (cases "\<bar>x\<bar> < 2 powi (emin + int m)")
      case True
      have "2 powi (emin + int m) \<le> (2 :: real) powi (emin + int (Suc m))" by (intro power_int_increasing) auto
      with True Suc show ?thesis by auto
    next
      case False
      then show ?thesis
      proof (cases m)
        case (Suc k)
        then show ?thesis using False by (auto simp: algebra_simps)
      qed (auto simp: algebra_simps)
    qed
  qed
  moreover have "\<bar>x\<bar> < 2 powi (emin + int n)"
  proof (cases n)
    case (Suc m)
    then show ?thesis using assms by (auto split: if_splits)
  qed (use assms in simp)
  ultimately show ?thesis by blast
qed

lemma binary_exponent_lower:
  assumes "binary_exponent emin n x \<noteq> emin"
  shows "2 powi binary_exponent emin n x \<le> \<bar>x\<bar>"
  using assms by (induction n) auto

text \<open>A number with at most \<open>p\<close> significant bits stays itself.\<close>

lemma round_float_exact:
  assumes x: "x = real_of_int i * 2 powi (e - int p + 1)" and "\<bar>i\<bar> \<le> 2 ^ p" and "emin \<le> e" and "e \<le> emin + int n"
    and "\<bar>x\<bar> < 2 powi (emin + int n + 1)" and "0 < p"
  shows "round_float p emin n x = Some x"
proof -
  define e' where "e' = binary_exponent emin n x"
  have abs_x: "\<bar>x\<bar> = real_of_int \<bar>i\<bar> * 2 powi (e - int p + 1)" by (simp add: x abs_mult)
  have "real_of_int \<bar>i\<bar> \<le> 2 ^ p" using assms(2) by (metis of_int_le_iff of_int_numeral of_int_power)
  then have "\<bar>x\<bar> \<le> 2 ^ p * 2 powi (e - int p + 1)" unfolding abs_x by (intro mult_right_mono) auto
  also have "\<dots> = 2 powi (e + 1)" by (simp add: power_int_add power_int_diff flip: power_int_of_nat)
  finally have le: "\<bar>x\<bar> \<le> 2 powi (e + 1)" .
  have integral: "\<exists>j. x / 2 powi (e' - int p + 1) = real_of_int j"
  proof (cases "e' \<le> e")
    case True
    define k where "k = nat (e - e')"
    have up: "e - int p + 1 = (e' - int p + 1) + int k" using True by (simp add: k_def)
    have "(2 :: real) powi (e - int p + 1) = 2 powi (e' - int p + 1) * 2 ^ k"
      unfolding up by (subst power_int_add) simp_all
    then have "x = real_of_int (i * 2 ^ k) * 2 powi (e' - int p + 1)" unfolding x by simp
    then have "x / 2 powi (e' - int p + 1) = real_of_int (i * 2 ^ k)" by simp
    then show ?thesis ..
  next
    case False
    have low: "2 powi e' \<le> \<bar>x\<bar>" using binary_exponent_lower [of emin n x] False assms(3) by (auto simp: e'_def)
    have "\<not> e + 1 < e'"
    proof
      assume "e + 1 < e'"
      then have "2 powi (e + 1) < (2 :: real) powi e'" by (intro power_int_strict_increasing) auto
      with low le show False by linarith
    qed
    then have e': "e' = e + 1" using False by linarith
    have "\<bar>x\<bar> = 2 powi e'" using low le unfolding e' by (rule antisym [rotated])
    moreover have "2 powi e' = real_of_int (2 ^ (p - 1)) * 2 powi (e' - int p + 1)"
      using \<open>0 < p\<close> by (simp add: power_int_diff power_int_add of_nat_diff flip: power_int_of_nat)
    ultimately have "x = real_of_int (2 ^ (p - 1)) * 2 powi (e' - int p + 1)
        \<or> x = real_of_int (- (2 ^ (p - 1))) * 2 powi (e' - int p + 1)" by (auto simp: abs_if split: if_splits)
    then have "x / 2 powi (e' - int p + 1) = real_of_int (2 ^ (p - 1))
        \<or> x / 2 powi (e' - int p + 1) = real_of_int (- (2 ^ (p - 1)))" by (metis nonzero_mult_div_cancel_right power_int_not_zero zero_neq_numeral)
    then show ?thesis by blast
  qed
  then obtain j where j: "x / 2 powi (e' - int p + 1) = real_of_int j" by blast
  then have "real_of_int j * 2 powi (e' - int p + 1) = x" by (simp flip: j)
  then show ?thesis
    using assms(5) unfolding round_float_def Let_def e'_def [symmetric] j round_half_even_of_int by simp
qed

lemma round_float_idem:
  assumes "round_float p emin n x = Some c" and "0 < p"
  shows "round_float p emin n c = Some c"
proof -
  define e where "e = binary_exponent emin n x"
  define ulp :: real where "ulp = 2 powi (e - int p + 1)"
  define i where "i = round_half_even (x / ulp)"
  have c: "c = real_of_int i * ulp" and small: "\<bar>c\<bar> < 2 powi (emin + int n + 1)"
    using assms(1) by (auto simp: round_float_def Let_def e_def ulp_def i_def split: if_splits)
  have ulp: "0 < ulp" by (simp add: ulp_def)
  have scale: "2 ^ p * ulp = 2 powi (e + 1)"
    by (simp add: ulp_def power_int_add power_int_diff flip: power_int_of_nat)
  have e: "emin \<le> e" "e \<le> emin + int n" using binary_exponent_le by (auto simp: e_def)
  have "\<bar>i\<bar> \<le> 2 ^ p"
  proof (cases "e < emin + int n")
    case True
    then have "\<bar>x\<bar> < 2 ^ p * ulp" using binary_exponent_upper [of emin n x] by (simp add: e_def scale)
    then have "\<bar>x / ulp\<bar> < 2 ^ p" using ulp by (simp add: abs_divide pos_divide_less_eq)
    then have "real_of_int \<bar>i\<bar> < 2 ^ p + 1" using round_half_even_close [of "x / ulp"] unfolding i_def by linarith
    then have "\<bar>i\<bar> < 2 ^ p + 1" by (metis (mono_tags) of_int_less_iff of_int_add of_int_1 of_int_numeral of_int_power)
    then show ?thesis by simp
  next
    case False
    then have "\<bar>c\<bar> < 2 ^ p * ulp" using small e by (simp add: scale)
    then have "real_of_int \<bar>i\<bar> < 2 ^ p" using ulp by (simp add: c abs_mult)
    then show ?thesis by (metis less_imp_le of_int_less_iff of_int_numeral of_int_power)
  qed
  then show ?thesis using c e small assms(2) unfolding ulp_def by (intro round_float_exact) auto
qed

lemma float32_idem: "float32 x = Some c \<Longrightarrow> float32 c = Some c"
  unfolding float32_def by (rule round_float_idem) auto

end
