(* ===== verification/Mission_Deployment.thy ===== *)
theory Mission_Deployment
  imports Store_Fleet Store_Missions Services Numbers "HOL-Library.Word"
begin

text \<open>
  \<open>internal/service/mission_deployment.go\<close>, with what it uses of \<open>mission_import.go\<close>: how the
  current mission of a planned flight is sent to its aircraft, once, under a durable record that
  says what is known of the outcome. The Relay (\<open>MissionDeployer\<close>), the clock, \<open>uuid\<close> and
  \<open>sha256\<close> are parameters, and so is \<open>fs_others\<close>: what other requests do to the store before each
  of its calls. The messages of the Agent protocol are records with the fields the code uses.
\<close>

section \<open>Definitions\<close>

subsection \<open>Messages\<close>

type_synonym uint32 = "32 word"

record OperationContext =
  oc_AircraftId :: string
  oc_FlightId :: string
  oc_IntentId :: string
  oc_IntentVersion :: uint32

record SetOperationContextCommand =
  soc_CommandId :: string
  soc_Context :: OperationContext

record ClearOperationContextCommand =
  coc_CommandId :: string
  coc_FlightId :: string
  coc_Authoritative :: bool

record MissionBinding =
  mb_MissionId :: string
  mb_MissionVersion :: uint32
  mb_MissionDigest :: string
  mb_DeploymentId :: string
  mb_OperatorId :: string
  mb_AircraftId :: string
  mb_FlightId :: string
  mb_IntentId :: string
  mb_IntentVersion :: uint32

record PlanItem =
  it_Sequence :: uint32
  it_Frame :: uint32
  it_Command :: uint32
  it_Current :: bool
  it_Autocontinue :: bool
  it_Param1 :: real
  it_Param2 :: real
  it_Param3 :: real
  it_Param4 :: real
  it_LatitudeE7 :: int
  it_LongitudeE7 :: int
  it_AltitudeM :: "real option"

record MissionPlan =
  pl_SchemaVersion :: uint32
  pl_Items :: "PlanItem list"

record DeployMissionCommand =
  dc_CommandId :: string
  dc_Binding :: MissionBinding
  dc_Plan :: MissionPlan
  dc_IssuedAtUnixMs :: int
  dc_ExpiresAtUnixMs :: int

datatype ResultStatus =
    STATUS_APPLIED
  | STATUS_ALREADY_APPLIED
  | STATUS_REJECTED
  | STATUS_TEMPORARY_ERROR
  | STATUS_OUTCOME_UNKNOWN
  | STATUS_BINDING_MISMATCH
  | STATUS_ONBOARD_MISSION_MISMATCH
  | STATUS_OTHER string

record MissionDeploymentResult =
  rs_CommandId :: string
  rs_Binding :: "MissionBinding option"
  rs_Status :: ResultStatus
  rs_Message :: string
  rs_OnboardMissionDigest :: string
  rs_UploadedItemCount :: uint32
  rs_MavlinkMissionAckType :: "uint32 option"
  rs_CompletedAtUnixMs :: int

record 'w MissionDeployer =
  de_EnsureOperationContext :: "string \<Rightarrow> SetOperationContextCommand \<Rightarrow> ('w, go_error option) srv"
  de_ClearOperationContextForReconciliation ::
    "string \<Rightarrow> ClearOperationContextCommand \<Rightarrow> OperationContext \<Rightarrow> ('w, go_error option) srv"
  de_DeployMission :: "string \<Rightarrow> DeployMissionCommand \<Rightarrow> ('w, MissionDeploymentResult option result) srv"

record 'w FleetService =
  fs_now :: "('w, time) srv"
  fs_newUUID :: "('w, string) srv"
  fs_others :: "('w, unit) srv"
  fs_missionDeployer :: "'w MissionDeployer option"
  fs_sha256Hex :: "string \<Rightarrow> string"

record DeployMissionResult =
  dmr_Deployment :: MissionDeployment
  dmr_Replayed :: bool

text \<open>A call of the store, after whatever other requests did to it.\<close>

definition durable_call :: "'w FleetService \<Rightarrow> (Store \<Rightarrow> 'a \<times> Store) \<Rightarrow> ('w, 'a) srv" where
  "durable_call svc f = do { _ \<leftarrow> fs_others svc; with_store f }"

definition durable_read :: "'w FleetService \<Rightarrow> (Store \<Rightarrow> 'a) \<Rightarrow> ('w, 'a) srv" where
  "durable_read svc f = do { _ \<leftarrow> fs_others svc; reads f }"

subsection \<open>Commands\<close>

definition minute :: duration where
  "minute = 60 * second"

definition missionDeploymentCommandTTL :: duration where
  "missionDeploymentCommandTTL = 2 * minute"

definition missionDeploymentReconciliationTTL :: duration where
  "missionDeploymentReconciliationTTL = 15 * minute"

definition maxIdempotencyKeyLen :: nat where
  "maxIdempotencyKeyLen = 128"

definition ErrMissionDeploymentUnavailable :: go_error where
  "ErrMissionDeploymentUnavailable = Errorf ''mission deployment unavailable'' []"

text \<open>Every rune outside visible ASCII has a byte outside of it, and the other way round.\<close>

definition validateIdempotencyKey :: "string \<Rightarrow> go_error option" where
  "validateIdempotencyKey key =
     (if key = [] \<or> length key > maxIdempotencyKeyLen
      then Some (because ErrValidation (''Idempotency-Key is required and must be at most ''
             @ itoa (int maxIdempotencyKeyLen) @ '' bytes''))
      else if list_ex (\<lambda>c. (of_char c :: nat) < 0x21 \<or> (of_char c :: nat) > 0x7e) key
      then Some (because ErrValidation ''Idempotency-Key must contain visible ASCII characters only'')
      else None)"

text \<open>An altitude that \<open>float32\<close> cannot hold is \<open>None\<close>.\<close>

definition plan_item :: "MissionItem \<Rightarrow> PlanItem" where
  "plan_item item = \<lparr>it_Sequence = word_of_int (mi_Sequence item), it_Frame = word_of_int (mi_Frame item),
     it_Command = word_of_int (mi_Command item), it_Current = mi_Current item,
     it_Autocontinue = mi_Autocontinue item, it_Param1 = mi_Param1 item, it_Param2 = mi_Param2 item,
     it_Param3 = mi_Param3 item, it_Param4 = mi_Param4 item, it_LatitudeE7 = mi_LatitudeE7 item,
     it_LongitudeE7 = mi_LongitudeE7 item, it_AltitudeM = float32 (mi_AltitudeM item)\<rparr>"

definition canonicalMissionPlan :: "MissionItem list \<Rightarrow> MissionPlan" where
  "canonicalMissionPlan items = \<lparr>pl_SchemaVersion = 1, pl_Items = map plan_item items\<rparr>"

text \<open>Instants in milliseconds since 1970.\<close>

definition UnixMilli :: "time \<Rightarrow> int" where
  "UnixMilli t = (t - 62135596800 * 1000000000) div 1000000"

definition time_UnixMilli :: "int \<Rightarrow> time" where
  "time_UnixMilli ms = ms * 1000000 + 62135596800 * 1000000000"

definition missionDeploymentCommand :: "MissionDeployment \<Rightarrow> Mission \<Rightarrow> DeployMissionCommand" where
  "missionDeploymentCommand deployment mission = \<lparr>
     dc_CommandId = md_CommandID deployment,
     dc_Binding = \<lparr>mb_MissionId = ms_ID mission, mb_MissionVersion = word_of_int (ms_Version mission),
       mb_MissionDigest = ms_MissionDigest mission, mb_DeploymentId = md_ID deployment,
       mb_OperatorId = ms_OperatorID mission, mb_AircraftId = ms_AircraftID mission,
       mb_FlightId = ms_FlightID mission, mb_IntentId = ms_IntentID mission,
       mb_IntentVersion = word_of_int (ms_IntentVersion mission)\<rparr>,
     dc_Plan = canonicalMissionPlan (ms_Items mission),
     dc_IssuedAtUnixMs = UnixMilli (md_IssuedAt deployment),
     dc_ExpiresAtUnixMs = UnixMilli (md_ExpiresAt deployment)\<rparr>"

definition missionDeploymentRetryable :: "MissionDeploymentStatus \<Rightarrow> bool" where
  "missionDeploymentRetryable status \<longleftrightarrow>
     status = MissionDeploymentPending \<or> status = MissionDeploymentTemporaryError
     \<or> status = MissionDeploymentOutcomeUnknown"

subsection \<open>Results of the Agent\<close>

definition missionBindingsEqual :: "MissionBinding option \<Rightarrow> MissionBinding option \<Rightarrow> bool" where
  "missionBindingsEqual left right =
     (case (left, right) of
        (Some l, Some r) \<Rightarrow>
          mb_MissionId l = mb_MissionId r \<and> mb_MissionVersion l = mb_MissionVersion r
          \<and> mb_MissionDigest l = mb_MissionDigest r \<and> mb_DeploymentId l = mb_DeploymentId r
          \<and> mb_OperatorId l = mb_OperatorId r \<and> mb_AircraftId l = mb_AircraftId r
          \<and> mb_FlightId l = mb_FlightId r \<and> mb_IntentId l = mb_IntentId r
          \<and> mb_IntentVersion l = mb_IntentVersion r
      | _ \<Rightarrow> False)"

definition result_status :: "ResultStatus \<Rightarrow> MissionDeploymentStatus option" where
  "result_status st =
     (case st of
        STATUS_APPLIED \<Rightarrow> Some MissionDeploymentApplied
      | STATUS_ALREADY_APPLIED \<Rightarrow> Some MissionDeploymentAlreadyApplied
      | STATUS_REJECTED \<Rightarrow> Some MissionDeploymentRejected
      | STATUS_TEMPORARY_ERROR \<Rightarrow> Some MissionDeploymentTemporaryError
      | STATUS_OUTCOME_UNKNOWN \<Rightarrow> Some MissionDeploymentOutcomeUnknown
      | STATUS_BINDING_MISMATCH \<Rightarrow> Some MissionDeploymentBindingMismatch
      | STATUS_ONBOARD_MISSION_MISMATCH \<Rightarrow> Some MissionDeploymentOnboardMissionMismatch
      | STATUS_OTHER name \<Rightarrow> None)"

definition status_text :: "ResultStatus \<Rightarrow> string" where
  "status_text st = (case st of STATUS_OTHER name \<Rightarrow> name | _ \<Rightarrow> [])"

text \<open>What is on board is checked against what was sent, whatever the Agent calls its result.\<close>

definition verified_status :: "MissionDeployment \<Rightarrow> MissionDeploymentResult \<Rightarrow> nat \<Rightarrow> MissionDeploymentStatus
    \<Rightarrow> MissionDeploymentStatus" where
  "verified_status deployment result itemCount st =
     (if st = MissionDeploymentApplied
         \<and> (rs_OnboardMissionDigest result \<noteq> md_MissionDigest deployment
            \<or> unat (rs_UploadedItemCount result) \<noteq> itemCount)
      then MissionDeploymentOnboardMissionMismatch
      else if st = MissionDeploymentAlreadyApplied \<and> rs_OnboardMissionDigest result \<noteq> md_MissionDigest deployment
      then MissionDeploymentOnboardMissionMismatch
      else st)"

definition applyMissionDeploymentResult ::
  "MissionDeployment \<Rightarrow> MissionDeploymentResult option \<Rightarrow> MissionBinding \<Rightarrow> nat \<Rightarrow> MissionDeployment result" where
  "applyMissionDeploymentResult deployment answer binding itemCount =
     (case answer of
        None \<Rightarrow> Inl (Errorf ''relay returned no mission deployment result'' [])
      | Some result \<Rightarrow>
      if rs_CommandId result \<noteq> md_CommandID deployment
         \<or> \<not> missionBindingsEqual (rs_Binding result) (Some binding)
      then Inl (Errorf ''relay returned a mission deployment result for a different command or binding'' [])
      else case result_status (rs_Status result) of
        None \<Rightarrow> Inl (Errorf (''relay returned unsupported mission deployment status '' @ status_text (rs_Status result)) [])
      | Some st \<Rightarrow> Inr (deployment\<lparr>
          md_Status := verified_status deployment result itemCount st,
          md_Message := rs_Message result,
          md_UploadedItemCount := unat (rs_UploadedItemCount result),
          md_OnboardMissionDigest := rs_OnboardMissionDigest result,
          md_MAVLinkMissionAckType := (case rs_MavlinkMissionAckType result of
              None \<Rightarrow> md_MAVLinkMissionAckType deployment | Some v \<Rightarrow> Some (unat v)),
          md_CompletedAt := (if rs_CompletedAtUnixMs result > 0 then Some (time_UnixMilli (rs_CompletedAtUnixMs result))
              else md_CompletedAt deployment)\<rparr>))"

subsection \<open>Reads and their checks\<close>

definition GetCurrentMission :: "'w FleetService \<Rightarrow> string \<Rightarrow> ('w, Mission result) srv" where
  "GetCurrentMission svc rawFlightID =
     (let flightID = TrimSpace rawFlightID in
      if flightID = [] then State_Monad.return (Inl (because ErrValidation ''flight_id is required''))
      else do {
        loaded \<leftarrow> durable_read svc (GetFlightRecord flightID);
        case loaded of
          Inl e \<Rightarrow> State_Monad.return (Inl (wrap ''get flight record'' e))
        | Inr flight \<Rightarrow> do {
            current \<leftarrow> durable_read svc (GetCurrentMissionForFlight flightID);
            State_Monad.return (case current of
                Inl e \<Rightarrow> Inl (wrap ''get current mission'' e)
              | Inr mission \<Rightarrow>
                  if ms_AircraftID mission \<noteq> fl_AircraftID flight \<or> ms_IntentID mission \<noteq> fl_IntentID flight
                     \<or> ms_IntentVersion mission \<noteq> fl_IntentVersion flight
                  then Inl (wrap ''mission binding is inconsistent with flight'' ErrVersionConflict)
                  else if ms_OperatorID mission \<noteq> fl_OperatorID flight
                  then Inl (wrap ''mission operator binding is inconsistent with flight'' ErrVersionConflict)
                  else Inr mission)
          }
      })"

definition validateCurrentMissionDeploymentReplay ::
  "'w FleetService \<Rightarrow> MissionDeployment \<Rightarrow> ('w, go_error option) srv" where
  "validateCurrentMissionDeploymentReplay svc deployment = do {
     current \<leftarrow> GetCurrentMission svc (md_FlightID deployment);
     State_Monad.return (case current of
         Inl e \<Rightarrow> Some e
       | Inr mission \<Rightarrow>
           if ms_ID mission \<noteq> md_MissionID deployment \<or> ms_Version mission \<noteq> md_MissionVersion deployment
              \<or> ms_MissionDigest mission \<noteq> md_MissionDigest deployment
              \<or> ms_OperatorID mission \<noteq> md_OperatorID deployment
              \<or> ms_AircraftID mission \<noteq> md_AircraftID deployment \<or> ms_IntentID mission \<noteq> md_IntentID deployment
              \<or> ms_IntentVersion mission \<noteq> md_IntentVersion deployment
           then Some (because ErrVersionConflict ''terminal deployment belongs to a superseded mission binding'')
           else None)
   }"

text \<open>The checks of \<open>validateMissionDeploymentBinding\<close> on the intent and the aircraft, once read.\<close>

definition intent_bound :: "FlightRecord \<Rightarrow> OperationalIntent \<Rightarrow> bool" where
  "intent_bound flight intent \<longleftrightarrow>
     \<not> (oi_Version intent \<noteq> fl_IntentVersion flight \<or> oi_AircraftID intent \<noteq> fl_AircraftID flight
        \<or> (oi_Status intent \<noteq> IntentStatusAccepted \<and> oi_Status intent \<noteq> IntentStatusActive))"

definition aircraft_bound :: "Mission \<Rightarrow> OperationalIntent \<Rightarrow> Aircraft \<Rightarrow> go_error option" where
  "aircraft_bound mission intent aircraft =
     (if TrimSpace (ac_AgentID aircraft) = []
      then Some (because ErrValidation ''bound aircraft has no authoritative agent_id'')
      else if ac_OperatorID aircraft \<noteq> ms_OperatorID mission \<or> oi_OperatorID intent \<noteq> ms_OperatorID mission
      then Some (because ErrVersionConflict ''deployment operator bindings disagree'')
      else None)"

definition validateMissionDeploymentBinding ::
  "'w FleetService \<Rightarrow> string \<Rightarrow> ('w, (FlightRecord \<times> Mission \<times> Aircraft) result) srv" where
  "validateMissionDeploymentBinding svc flightID = do {
     loaded \<leftarrow> durable_read svc (GetFlightRecord flightID);
     case loaded of
       Inl e \<Rightarrow> State_Monad.return (Inl (wrap ''get flight record'' e))
     | Inr flight \<Rightarrow>
       if fl_Status flight \<noteq> FlightStatusPlanned
       then State_Monad.return (Inl (because ErrInvalidTransition
              (''missions may only be deployed while flight '' @ fl_ID flight @ '' is planned'')))
       else do {
         current \<leftarrow> GetCurrentMission svc flightID;
         case current of
           Inl e \<Rightarrow> State_Monad.return (Inl e)
         | Inr mission \<Rightarrow> do {
             read \<leftarrow> durable_read svc (GetOperationalIntent (fl_IntentID flight));
             case read of
               Inl e \<Rightarrow> State_Monad.return (Inl (wrap ''get current operational intent'' e))
             | Inr intent \<Rightarrow>
               if \<not> intent_bound flight intent
               then State_Monad.return (Inl (because ErrInvalidTransition
                      ''flight is not bound to the current accepted or active intent version''))
               else do {
                 bound \<leftarrow> durable_read svc (GetAircraft (fl_AircraftID flight));
                 State_Monad.return (case bound of
                     Inl e \<Rightarrow> Inl (wrap ''get bound aircraft'' e)
                   | Inr aircraft \<Rightarrow>
                       (case aircraft_bound mission intent aircraft of
                          Some e \<Rightarrow> Inl e | None \<Rightarrow> Inr (flight, mission, aircraft)))
               }
           }
       }
   }"

subsection \<open>Writes\<close>

text \<open>
  A write of the record under its revision. Where another request was faster, the answer is what
  it left: \<open>Inl\<close> ends the request, \<open>Inr\<close> goes on with the new revision.
\<close>

definition write_deployment ::
  "'w FleetService \<Rightarrow> MissionDeployment \<Rightarrow> int \<Rightarrow> string \<Rightarrow> ('w, DeployMissionResult result + MissionDeployment) srv" where
  "write_deployment svc updated expectedRevision failure = do {
     err \<leftarrow> durable_call svc (UpdateMissionDeployment updated expectedRevision);
     case err of
       None \<Rightarrow> State_Monad.return (Inr (updated\<lparr>md_Revision := inc64 (md_Revision updated)\<rparr>))
     | Some e \<Rightarrow>
         if errors_Is e ErrVersionConflict then do {
           read \<leftarrow> durable_read svc (GetMissionDeployment (md_ID updated));
           State_Monad.return (Inl (case read of
               Inr current \<Rightarrow> Inr \<lparr>dmr_Deployment = current, dmr_Replayed = True\<rparr>
             | Inl _ \<Rightarrow> Inl (wrap failure e)))
         }
         else State_Monad.return (Inl (Inl (wrap failure e)))
   }"

definition finish_write ::
  "'w FleetService \<Rightarrow> MissionDeployment \<Rightarrow> int \<Rightarrow> bool \<Rightarrow> string \<Rightarrow> ('w, DeployMissionResult result) srv" where
  "finish_write svc updated expectedRevision replayed failure = do {
     r \<leftarrow> write_deployment svc updated expectedRevision failure;
     State_Monad.return (case r of
         Inl answer \<Rightarrow> answer
       | Inr stored \<Rightarrow> Inr \<lparr>dmr_Deployment = stored, dmr_Replayed = replayed\<rparr>)
   }"

definition persistUndispatchedMissionExpiry ::
  "'w FleetService \<Rightarrow> MissionDeployment \<Rightarrow> bool \<Rightarrow> string \<Rightarrow> time \<Rightarrow> ('w, DeployMissionResult result) srv" where
  "persistUndispatchedMissionExpiry svc deployment replayed message now =
     finish_write svc (deployment\<lparr>md_Status := MissionDeploymentOutcomeUnknown, md_Message := message,
         md_UpdatedAt := now\<rparr>) (md_Revision deployment) replayed ''persist expired mission deployment''"

text \<open>The record after the context of the operation could not be cleared or set.\<close>

definition context_failure ::
  "'w FleetService \<Rightarrow> MissionDeployment \<Rightarrow> bool \<Rightarrow> string \<Rightarrow> string \<Rightarrow> string \<Rightarrow> go_error \<Rightarrow> ('w, DeployMissionResult result) srv" where
  "context_failure svc deployment replayed dispatched undispatched failure e = do {
     now \<leftarrow> fs_now svc;
     let updated = deployment\<lparr>md_AttemptCount := inc64 (md_AttemptCount deployment), md_UpdatedAt := now\<rparr>;
     finish_write svc (if md_DispatchStarted deployment
         then updated\<lparr>md_Status := MissionDeploymentOutcomeUnknown, md_Message := dispatched @ error_text e\<rparr>
         else updated\<lparr>md_Status := MissionDeploymentTemporaryError, md_Message := undispatched @ error_text e\<rparr>)
       (md_Revision deployment) replayed failure
   }"

definition sameMissionDeploymentCommand :: "MissionDeployment \<Rightarrow> MissionDeployment \<Rightarrow> bool" where
  "sameMissionDeploymentCommand l r \<longleftrightarrow>
     md_ID l = md_ID r \<and> md_OperatorID l = md_OperatorID r
     \<and> md_FlightID l = md_FlightID r \<and> md_AircraftID l = md_AircraftID r \<and> md_AgentID l = md_AgentID r
     \<and> md_IntentID l = md_IntentID r \<and> md_IntentVersion l = md_IntentVersion r
     \<and> md_MissionID l = md_MissionID r \<and> md_MissionVersion l = md_MissionVersion r
     \<and> md_MissionDigest l = md_MissionDigest r
     \<and> md_CommandID l = md_CommandID r \<and> md_OperationContextCommandID l = md_OperationContextCommandID r
     \<and> md_ReconciliationClearCommandID l = md_ReconciliationClearCommandID r
     \<and> md_IdempotencyKey l = md_IdempotencyKey r \<and> md_IdempotencyRequest l = md_IdempotencyRequest r
     \<and> md_IssuedAt l = md_IssuedAt r \<and> md_ExpiresAt l = md_ExpiresAt r
     \<and> md_ReconcileUntil l = md_ReconcileUntil r \<and> md_CreatedAt l = md_CreatedAt r"

text \<open>A known outcome on top of what a concurrent retry recorded of its attempt.\<close>

definition merged_outcome :: "MissionDeployment \<Rightarrow> MissionDeployment \<Rightarrow> MissionDeployment" where
  "merged_outcome desired current = current\<lparr>
     md_Status := md_Status desired, md_Message := md_Message desired,
     md_UploadedItemCount := md_UploadedItemCount desired,
     md_OnboardMissionDigest := md_OnboardMissionDigest desired,
     md_MAVLinkMissionAckType := md_MAVLinkMissionAckType desired,
     md_CompletedAt := md_CompletedAt desired,
     md_UpdatedAt := (if md_UpdatedAt desired > md_UpdatedAt current then md_UpdatedAt desired
                      else md_UpdatedAt current)\<rparr>"

text \<open>
  The loop of \<open>persistCorrelatedMissionDeploymentResult\<close>, which goes round as long as other requests
  write the record first. The first argument bounds the rounds; \<open>None\<close> says that it goes on.
\<close>

fun persistCorrelatedMissionDeploymentResult ::
  "'w FleetService \<Rightarrow> nat \<Rightarrow> MissionDeployment \<Rightarrow> int \<Rightarrow> ('w, MissionDeployment result option) srv" where
  "persistCorrelatedMissionDeploymentResult svc 0 desired expectedRevision = State_Monad.return None"
| "persistCorrelatedMissionDeploymentResult svc (Suc n) desired expectedRevision = do {
     err \<leftarrow> durable_call svc (UpdateMissionDeployment desired expectedRevision);
     case err of
       None \<Rightarrow> State_Monad.return (Some (Inr (desired\<lparr>md_Revision := inc64 expectedRevision\<rparr>)))
     | Some e \<Rightarrow>
       if \<not> errors_Is e ErrVersionConflict then State_Monad.return (Some (Inl e))
       else do {
         read \<leftarrow> durable_read svc (GetMissionDeployment (md_ID desired));
         case read of
           Inl e \<Rightarrow> State_Monad.return (Some (Inl e))
         | Inr current \<Rightarrow>
           if \<not> sameMissionDeploymentCommand current desired
           then State_Monad.return (Some (Inl ErrVersionConflict))
           else if \<not> missionDeploymentRetryable (md_Status current)
           then State_Monad.return (Some (Inr current))
           else if missionDeploymentRetryable (md_Status desired)
           then State_Monad.return (Some (Inr current))
           else persistCorrelatedMissionDeploymentResult svc n (merged_outcome desired current) (md_Revision current)
       }
   }"

subsection \<open>Preparation\<close>

text \<open>The answer to a request whose deployment has a final outcome.\<close>

definition terminal_replay :: "'w FleetService \<Rightarrow> MissionDeployment \<Rightarrow> ('w, DeployMissionResult result) srv" where
  "terminal_replay svc deployment = do {
     err \<leftarrow> validateCurrentMissionDeploymentReplay svc deployment;
     State_Monad.return (case err of
         Some e \<Rightarrow> Inl e
       | None \<Rightarrow> Inr \<lparr>dmr_Deployment = deployment, dmr_Replayed = True\<rparr>)
   }"

definition request_hash :: "'w FleetService \<Rightarrow> string \<Rightarrow> string \<Rightarrow> int \<Rightarrow> string \<Rightarrow> string" where
  "request_hash svc flightID missionID missionVersion digest = fs_sha256Hex svc
     (join_strings [CHR 0x00] [''deploy-mission-v1'', flightID, missionID, itoa missionVersion, digest])"

definition new_deployment ::
  "'w FleetService \<Rightarrow> FlightRecord \<Rightarrow> Mission \<Rightarrow> Aircraft \<Rightarrow> string \<Rightarrow> time \<Rightarrow> string \<Rightarrow> string \<Rightarrow> string \<Rightarrow> string
    \<Rightarrow> MissionDeployment" where
  "new_deployment svc flight mission aircraft idempotencyKey now ident command context clear =
     zero_MissionDeployment\<lparr>
       md_ID := ident, md_OperatorID := ms_OperatorID mission, md_FlightID := fl_ID flight,
       md_AircraftID := fl_AircraftID flight, md_AgentID := ac_AgentID aircraft, md_IntentID := fl_IntentID flight,
       md_IntentVersion := fl_IntentVersion flight, md_MissionID := ms_ID mission,
       md_MissionVersion := ms_Version mission, md_MissionDigest := ms_MissionDigest mission,
       md_CommandID := command, md_IdempotencyKey := idempotencyKey,
       md_OperationContextCommandID := context, md_ReconciliationClearCommandID := clear,
       md_IdempotencyRequest := request_hash svc (fl_ID flight) (ms_ID mission) (ms_Version mission)
         (ms_MissionDigest mission),
       md_Status := MissionDeploymentPending, md_IssuedAt := now,
       md_ExpiresAt := now + missionDeploymentCommandTTL,
       md_ReconcileUntil := now + (missionDeploymentCommandTTL + missionDeploymentReconciliationTTL),
       md_CreatedAt := now, md_UpdatedAt := now\<rparr>"

text \<open>
  The phases before a dispatch end the request with an answer, \<open>Inl\<close>, or go on. The first says
  whether the command may only read back what an earlier dispatch did.
\<close>

definition expiry_after_clear ::
  "'w FleetService \<Rightarrow> MissionDeployment \<Rightarrow> bool \<Rightarrow> ('w, DeployMissionResult result + bool) srv" where
  "expiry_after_clear svc deployment replayed = do {
     phaseNow \<leftarrow> fs_now svc;
     if md_ExpiresAt deployment > phaseNow then State_Monad.return (Inr False)
     else if md_Status deployment = MissionDeploymentOutcomeUnknown then State_Monad.return (Inr True)
     else do {
       r \<leftarrow> persistUndispatchedMissionExpiry svc deployment replayed
             ''deployment authorization expired after context clear; mission was not dispatched'' phaseNow;
       State_Monad.return (Inl r)
     }
   }"

definition clear_previous ::
  "'w FleetService \<Rightarrow> 'w MissionDeployer \<Rightarrow> MissionDeployment \<Rightarrow> bool \<Rightarrow> ('w, DeployMissionResult result + bool) srv" where
  "clear_previous svc deployer deployment replayed = do {
     read \<leftarrow> durable_read svc (GetPreviousMissionDeploymentForAircraft (md_AircraftID deployment) (md_ID deployment));
     case read of
       Inl e \<Rightarrow>
         if \<not> errors_Is e ErrNotFound
         then State_Monad.return (Inl (Inl (wrap ''get previous aircraft mission deployment'' e)))
         else expiry_after_clear svc deployment replayed
     | Inr previous \<Rightarrow>
         if md_FlightID previous = md_FlightID deployment then expiry_after_clear svc deployment replayed
         else do {
           err \<leftarrow> de_ClearOperationContextForReconciliation deployer (md_AgentID deployment)
             \<lparr>coc_CommandId = md_ReconciliationClearCommandID deployment, coc_FlightId = md_FlightID previous,
              coc_Authoritative = False\<rparr>
             \<lparr>oc_AircraftId = md_AircraftID previous, oc_FlightId = md_FlightID previous,
              oc_IntentId = md_IntentID previous, oc_IntentVersion = word_of_int (md_IntentVersion previous)\<rparr>;
           case err of
             None \<Rightarrow> expiry_after_clear svc deployment replayed
           | Some e \<Rightarrow> do {
               r \<leftarrow> context_failure svc deployment replayed
                 ''previous operation context was not conditionally cleared during reconciliation; prior mission outcome remains unknown: ''
                 ''previous operation context was not conditionally cleared; mission was not dispatched: ''
                 ''persist operation context clear failure'' e;
               State_Monad.return (Inl r)
             }
         }
   }"

definition set_context ::
  "'w FleetService \<Rightarrow> 'w MissionDeployer \<Rightarrow> FlightRecord \<Rightarrow> MissionDeployment \<Rightarrow> bool
    \<Rightarrow> ('w, DeployMissionResult result + unit) srv" where
  "set_context svc deployer flight deployment replayed = do {
     err \<leftarrow> de_EnsureOperationContext deployer (md_AgentID deployment)
       \<lparr>soc_CommandId = md_OperationContextCommandID deployment,
        soc_Context = \<lparr>oc_AircraftId = fl_AircraftID flight, oc_FlightId = fl_ID flight,
          oc_IntentId = fl_IntentID flight, oc_IntentVersion = word_of_int (fl_IntentVersion flight)\<rparr>\<rparr>;
     case err of
       Some e \<Rightarrow> do {
         r \<leftarrow> context_failure svc deployment replayed
           ''operation context was not acknowledged during reconciliation; prior mission outcome remains unknown: ''
           ''operation context was not acknowledged; mission was not dispatched: ''
           ''persist operation context failure'' e;
         State_Monad.return (Inl r)
       }
     | None \<Rightarrow> do {
         phaseNow \<leftarrow> fs_now svc;
         if \<not> md_ExpiresAt deployment > phaseNow \<and> md_Status deployment \<noteq> MissionDeploymentOutcomeUnknown
         then do {
           r \<leftarrow> persistUndispatchedMissionExpiry svc deployment replayed
             ''deployment authorization expired after context acknowledgement; mission was not dispatched'' phaseNow;
           State_Monad.return (Inl r)
         }
         else State_Monad.return (Inr ())
       }
   }"

definition prepare_dispatch ::
  "'w FleetService \<Rightarrow> 'w MissionDeployer \<Rightarrow> FlightRecord \<Rightarrow> MissionDeployment \<Rightarrow> bool \<Rightarrow> bool
    \<Rightarrow> ('w, DeployMissionResult result + unit) srv" where
  "prepare_dispatch svc deployer flight deployment replayed readback = do {
     phase \<leftarrow> (if readback then State_Monad.return (Inr True) else clear_previous svc deployer deployment replayed);
     case phase of
       Inl answer \<Rightarrow> State_Monad.return (Inl answer)
     | Inr readback \<Rightarrow>
         if readback then State_Monad.return (Inr ())
         else set_context svc deployer flight deployment replayed
   }"

text \<open>From the stored deployment to the dispatch of its mission, which comes last in the tuple.\<close>

type_synonym dispatch = "MissionDeployment \<times> Mission \<times> bool"

definition deployment_expired :: "MissionDeployment \<Rightarrow> bool \<Rightarrow> time \<Rightarrow> bool" where
  "deployment_expired deployment replayed now \<longleftrightarrow>
     \<not> md_ExpiresAt deployment > now
     \<and> (\<not> replayed \<or> md_Status deployment \<noteq> MissionDeploymentOutcomeUnknown
        \<or> \<not> md_DispatchStarted deployment \<or> \<not> md_ReconcileUntil deployment > now)"

definition expiry_message :: "MissionDeployment \<Rightarrow> time \<Rightarrow> string" where
  "expiry_message deployment now =
     (if md_ReconcileUntil deployment > now
      then ''deployment command expired before its first dispatch; no effect was authorized''
      else ''deployment reconciliation window elapsed with no correlated terminal outcome'')"

definition deploy_created ::
  "'w FleetService \<Rightarrow> 'w MissionDeployer \<Rightarrow> string \<Rightarrow> MissionDeployment \<Rightarrow> bool \<Rightarrow> time
    \<Rightarrow> ('w, DeployMissionResult result + dispatch) srv" where
  "deploy_created svc deployer flightID deployment replayed now =
     (if deployment_expired deployment replayed now then
        if missionDeploymentRetryable (md_Status deployment) then do {
          r \<leftarrow> persistUndispatchedMissionExpiry svc deployment replayed (expiry_message deployment now) now;
          State_Monad.return (Inl r)
        }
        else State_Monad.return (Inl (Inr \<lparr>dmr_Deployment = deployment, dmr_Replayed = replayed\<rparr>))
      else do {
        bound \<leftarrow> validateMissionDeploymentBinding svc flightID;
        case bound of
          Inl e \<Rightarrow> State_Monad.return (Inl (Inl e))
        | Inr (flight, mission, aircraft) \<Rightarrow>
          if ms_ID mission \<noteq> md_MissionID deployment \<or> ms_Version mission \<noteq> md_MissionVersion deployment
             \<or> ms_MissionDigest mission \<noteq> md_MissionDigest deployment
             \<or> ac_AgentID aircraft \<noteq> md_AgentID deployment
          then State_Monad.return (Inl (Inl (because ErrVersionConflict
                 ''mission or aircraft placement binding changed before dispatch'')))
          else do {
            ready \<leftarrow> prepare_dispatch svc deployer flight deployment replayed
              (\<not> md_ExpiresAt deployment > now \<and> md_DispatchStarted deployment);
            State_Monad.return (case ready of
                Inl answer \<Rightarrow> Inl answer
              | Inr _ \<Rightarrow> Inr (deployment, mission, replayed))
          }
      })"

definition deploy_fresh ::
  "'w FleetService \<Rightarrow> 'w MissionDeployer \<Rightarrow> string \<Rightarrow> string \<Rightarrow> string \<Rightarrow> string
    \<Rightarrow> ('w, DeployMissionResult result + dispatch) srv" where
  "deploy_fresh svc deployer flightID expectedMissionID expectedDigest idempotencyKey = do {
     bound \<leftarrow> validateMissionDeploymentBinding svc flightID;
     case bound of
       Inl e \<Rightarrow> State_Monad.return (Inl (Inl e))
     | Inr (flight, mission, aircraft) \<Rightarrow>
       if ms_ID mission \<noteq> expectedMissionID \<or> ms_MissionDigest mission \<noteq> expectedDigest
       then State_Monad.return (Inl (Inl (because ErrVersionConflict
              ''expected mission identity or digest is not the current immutable mission'')))
       else do {
         now \<leftarrow> fs_now svc;
         ident \<leftarrow> fs_newUUID svc;
         command \<leftarrow> fs_newUUID svc;
         context \<leftarrow> fs_newUUID svc;
         clear \<leftarrow> fs_newUUID svc;
         let created = new_deployment svc flight mission aircraft idempotencyKey now ident command context clear;
         stored \<leftarrow> durable_call svc (CreateMissionDeploymentForPlannedFlight created);
         case stored of
           Inl e \<Rightarrow> State_Monad.return (Inl (Inl (wrap ''create mission deployment'' e)))
         | Inr deployment \<Rightarrow>
           let replayed = (md_ID deployment \<noteq> md_ID created) in
           if replayed \<and> md_IdempotencyRequest deployment \<noteq> md_IdempotencyRequest created
           then State_Monad.return (Inl (Inl ErrIdempotencyConflict))
           else if replayed \<and> \<not> missionDeploymentRetryable (md_Status deployment) then do {
             r \<leftarrow> terminal_replay svc deployment;
             State_Monad.return (Inl r)
           }
           else deploy_created svc deployer flightID deployment replayed now
       }
   }"

definition deploy_or_replay ::
  "'w FleetService \<Rightarrow> string \<Rightarrow> string \<Rightarrow> string \<Rightarrow> string \<Rightarrow> ('w, DeployMissionResult result + dispatch) srv" where
  "deploy_or_replay svc flightID expectedMissionID expectedDigest idempotencyKey = do {
     lookup \<leftarrow> durable_read svc (GetMissionDeploymentByIdempotencyKey idempotencyKey);
     let go_on = (case fs_missionDeployer svc of
         None \<Rightarrow> State_Monad.return (Inl (Inl ErrMissionDeploymentUnavailable))
       | Some deployer \<Rightarrow> deploy_fresh svc deployer flightID expectedMissionID expectedDigest idempotencyKey);
     case lookup of
       Inl e \<Rightarrow>
         if \<not> errors_Is e ErrNotFound
         then State_Monad.return (Inl (Inl (wrap ''get mission deployment replay'' e)))
         else go_on
     | Inr existing \<Rightarrow>
         if md_FlightID existing \<noteq> flightID \<or> md_MissionID existing \<noteq> expectedMissionID
            \<or> md_MissionDigest existing \<noteq> expectedDigest
         then State_Monad.return (Inl (Inl ErrIdempotencyConflict))
         else if md_IdempotencyRequest existing \<noteq> request_hash svc (md_FlightID existing) (md_MissionID existing)
            (md_MissionVersion existing) (md_MissionDigest existing)
         then State_Monad.return (Inl (Inl ErrIdempotencyConflict))
         else if \<not> missionDeploymentRetryable (md_Status existing) then do {
           r \<leftarrow> terminal_replay svc existing;
           State_Monad.return (Inl r)
         }
         else go_on
   }"

subsection \<open>Dispatch\<close>

definition dispatching :: "MissionDeployment \<Rightarrow> time \<Rightarrow> MissionDeployment" where
  "dispatching deployment now = deployment\<lparr>
     md_AttemptCount := inc64 (md_AttemptCount deployment), md_DispatchStarted := True, md_UpdatedAt := now,
     md_Status := MissionDeploymentOutcomeUnknown,
     md_Message := ''mission dispatch began; no correlated Agent outcome has been persisted yet''\<rparr>"

definition outcome :: "MissionDeployment \<Rightarrow> MissionDeploymentResult option result \<Rightarrow> MissionBinding \<Rightarrow> nat \<Rightarrow> MissionDeployment" where
  "outcome deployment answer binding itemCount =
     (case answer of
        Inl e \<Rightarrow> deployment\<lparr>md_Status := MissionDeploymentOutcomeUnknown, md_Message := error_text e\<rparr>
      | Inr result \<Rightarrow>
          (case applyMissionDeploymentResult deployment result binding itemCount of
             Inl e \<Rightarrow> deployment\<lparr>md_Status := MissionDeploymentOutcomeUnknown, md_Message := error_text e\<rparr>
           | Inr d \<Rightarrow> d))"

definition dispatch_mission ::
  "'w FleetService \<Rightarrow> nat \<Rightarrow> 'w MissionDeployer \<Rightarrow> MissionDeployment \<Rightarrow> Mission \<Rightarrow> bool
    \<Rightarrow> ('w, DeployMissionResult result option) srv" where
  "dispatch_mission svc n deployer deployment mission replayed = do {
     let command = missionDeploymentCommand deployment mission;
     now \<leftarrow> fs_now svc;
     marked \<leftarrow> write_deployment svc (dispatching deployment now) (md_Revision deployment)
       ''persist mission dispatch attempt'';
     case marked of
       Inl answer \<Rightarrow> State_Monad.return (Some answer)
     | Inr deployment \<Rightarrow> do {
         answer \<leftarrow> de_DeployMission deployer (md_AgentID deployment) command;
         now \<leftarrow> fs_now svc;
         persisted \<leftarrow> persistCorrelatedMissionDeploymentResult svc n
           (outcome (deployment\<lparr>md_UpdatedAt := now\<rparr>) answer (dc_Binding command) (length (ms_Items mission)))
           (md_Revision deployment);
         State_Monad.return (case persisted of
             None \<Rightarrow> None
           | Some (Inl e) \<Rightarrow> Some (Inl (wrap ''persist mission deployment result'' e))
           | Some (Inr d) \<Rightarrow> Some (Inr \<lparr>dmr_Deployment = d, dmr_Replayed = replayed\<rparr>))
       }
   }"

definition DeployCurrentMission ::
  "'w FleetService \<Rightarrow> nat \<Rightarrow> string \<Rightarrow> string \<Rightarrow> string \<Rightarrow> string \<Rightarrow> ('w, DeployMissionResult result option) srv" where
  "DeployCurrentMission svc n rawFlightID rawMissionID rawDigest rawKey =
     (let flightID = TrimSpace rawFlightID; expectedMissionID = TrimSpace rawMissionID;
          expectedDigest = TrimSpace rawDigest; idempotencyKey = TrimSpace rawKey in
      if flightID = [] \<or> expectedMissionID = [] \<or> length expectedDigest \<noteq> 64
      then State_Monad.return (Some (Inl (because ErrValidation
             ''flight_id, expected mission_id, and mission digest are required'')))
      else case validateIdempotencyKey idempotencyKey of
        Some e \<Rightarrow> State_Monad.return (Some (Inl e))
      | None \<Rightarrow> do {
          r \<leftarrow> deploy_or_replay svc flightID expectedMissionID expectedDigest idempotencyKey;
          case r of
            Inl answer \<Rightarrow> State_Monad.return (Some answer)
          | Inr (deployment, mission, replayed) \<Rightarrow>
              (case fs_missionDeployer svc of
                 None \<Rightarrow> State_Monad.return (Some (Inl ErrMissionDeploymentUnavailable))
               | Some deployer \<Rightarrow> dispatch_mission svc n deployer deployment mission replayed)
        })"

subsection \<open>Results by identity\<close>

definition service_GetMissionDeployment ::
  "'w FleetService \<Rightarrow> string \<Rightarrow> string \<Rightarrow> ('w, MissionDeployment result) srv" where
  "service_GetMissionDeployment svc flightID deploymentID =
     (if TrimSpace flightID = [] \<or> TrimSpace deploymentID = []
      then State_Monad.return (Inl (because ErrValidation ''flight_id and deployment_id are required''))
      else do {
        read \<leftarrow> durable_read svc (GetMissionDeployment deploymentID);
        State_Monad.return (case read of
            Inl e \<Rightarrow> Inl (wrap ''get mission deployment'' e)
          | Inr deployment \<Rightarrow> if md_FlightID deployment \<noteq> flightID then Inl ErrNotFound else Inr deployment)
      })"

definition GetCurrentMissionDeployment :: "'w FleetService \<Rightarrow> string \<Rightarrow> ('w, MissionDeployment result) srv" where
  "GetCurrentMissionDeployment svc rawFlightID =
     (let flightID = TrimSpace rawFlightID in
      if flightID = [] then State_Monad.return (Inl (because ErrValidation ''flight_id is required''))
      else do {
        read \<leftarrow> durable_read svc (GetCurrentMissionDeploymentForFlight flightID);
        State_Monad.return (case read of
            Inl e \<Rightarrow> Inl (wrap ''get current mission deployment'' e)
          | Inr deployment \<Rightarrow> if md_FlightID deployment \<noteq> flightID then Inl ErrNotFound else Inr deployment)
      })"

definition ReconcileMissionDeployment ::
  "'w FleetService \<Rightarrow> nat \<Rightarrow> string \<Rightarrow> string \<Rightarrow> ('w, DeployMissionResult result option) srv" where
  "ReconcileMissionDeployment svc n flightID deploymentID = do {
     read \<leftarrow> service_GetMissionDeployment svc (TrimSpace flightID) (TrimSpace deploymentID);
     case read of
       Inl e \<Rightarrow> State_Monad.return (Some (Inl e))
     | Inr deployment \<Rightarrow>
         if \<not> missionDeploymentRetryable (md_Status deployment) then do {
           r \<leftarrow> terminal_replay svc deployment;
           State_Monad.return (Some r)
         }
         else DeployCurrentMission svc n (md_FlightID deployment) (md_MissionID deployment) (md_MissionDigest deployment)
           (md_IdempotencyKey deployment)
   }"

subsection \<open>What the records say\<close>

text \<open>A mission counts as deployed only with its own digest read back from the aircraft.\<close>

definition readback_ok :: "MissionDeployment \<Rightarrow> bool" where
  "readback_ok d \<longleftrightarrow> (deployment_verified d \<longrightarrow> md_OnboardMissionDigest d = md_MissionDigest d)"

definition readbacks_ok :: "Store \<Rightarrow> bool" where
  "readbacks_ok s \<longleftrightarrow> (\<forall>d \<in> set (vals (s_missionDeployments s)). readback_ok d)"

definition fleet_keeps :: "(Store \<Rightarrow> bool) \<Rightarrow> 'w FleetService \<Rightarrow> bool" where
  "fleet_keeps I svc \<longleftrightarrow> keeps I (fs_now svc) \<and> keeps I (fs_newUUID svc) \<and> keeps I (fs_others svc)
     \<and> (case fs_missionDeployer svc of None \<Rightarrow> True | Some d \<Rightarrow>
          (\<forall>a c. keeps I (de_EnsureOperationContext d a c))
          \<and> (\<forall>a c x. keeps I (de_ClearOperationContextForReconciliation d a c x))
          \<and> (\<forall>a c. keeps I (de_DeployMission d a c)))"

definition put_deployment :: "MissionDeployment \<Rightarrow> Store \<Rightarrow> Store" where
  "put_deployment d s = s\<lparr>s_missionDeployments := AList.update (md_ID d) d (s_missionDeployments s)\<rparr>"

text \<open>Other requests write the record \<open>k\<close> at most \<open>f\<close> times more.\<close>

definition writes_bounded :: "'w FleetService \<Rightarrow> string \<Rightarrow> (Store \<times> 'w \<Rightarrow> nat) \<Rightarrow> bool" where
  "writes_bounded svc k f \<longleftrightarrow> (\<forall>\<sigma> \<sigma>'. run_state (fs_others svc) \<sigma> = ((), \<sigma>') \<longrightarrow>
     f \<sigma>' \<le> f \<sigma>
     \<and> (map_of (s_missionDeployments (fst \<sigma>')) k \<noteq> map_of (s_missionDeployments (fst \<sigma>)) k \<longrightarrow> f \<sigma>' < f \<sigma>))"

text \<open>An answer of the loop: what the store holds, or the record is gone or another command's.\<close>

definition outcome_answer :: "MissionDeployment \<Rightarrow> MissionDeployment result \<Rightarrow> Store \<Rightarrow> bool" where
  "outcome_answer desired answer s \<longleftrightarrow>
     (case answer of
        Inr d \<Rightarrow> map_of (s_missionDeployments s) (md_ID desired) = Some d
          \<and> (\<not> missionDeploymentRetryable (md_Status desired) \<longrightarrow> \<not> missionDeploymentRetryable (md_Status d))
      | Inl e \<Rightarrow> \<not> (\<exists>c. map_of (s_missionDeployments s) (md_ID desired) = Some c \<and> sameMissionDeploymentCommand c desired))"

text \<open>What the store says when a command goes to the Agent.\<close>

definition dispatch_recorded :: "string \<Rightarrow> DeployMissionCommand \<Rightarrow> Store \<Rightarrow> bool" where
  "dispatch_recorded agent command s \<longleftrightarrow>
     (\<exists>d. map_of (s_missionDeployments s) (mb_DeploymentId (dc_Binding command)) = Some d
       \<and> md_DispatchStarted d \<and> md_Status d = MissionDeploymentOutcomeUnknown
       \<and> md_AgentID d = agent \<and> md_CommandID d = dc_CommandId command
       \<and> md_MissionID d = mb_MissionId (dc_Binding command)
       \<and> md_MissionDigest d = mb_MissionDigest (dc_Binding command)
       \<and> dc_ExpiresAtUnixMs command = UnixMilli (md_ExpiresAt d))"

text \<open>The deployment a request goes on to dispatch, with its mission.\<close>

definition dispatchable :: "'w FleetService \<Rightarrow> MissionDeployment \<Rightarrow> Mission \<Rightarrow> Store \<times> 'w \<Rightarrow> bool" where
  "dispatchable svc d m \<sigma> \<longleftrightarrow> ms_ID m = md_MissionID d \<and> ms_Version m = md_MissionVersion d
     \<and> ms_MissionDigest m = md_MissionDigest d
     \<and> (md_DispatchStarted d \<or> md_Status d = MissionDeploymentOutcomeUnknown
        \<or> (\<exists>\<tau> t. run_state (fs_now svc) \<tau> = (t, \<sigma>) \<and> t < md_ExpiresAt d))"

text \<open>A planned flight with its mission, and an Agent that takes every command.\<close>

definition sample_digest :: string where
  "sample_digest = replicate 64 (CHR ''a'')"

definition sample_aircraft :: Aircraft where
  "sample_aircraft = \<lparr>ac_ID = ''uav-1'', ac_OperatorID = [], ac_AgentID = ''ag-1'', ac_TailNumber = [], ac_Registration = [],
     ac_SerialNumber = [], ac_Name = [], ac_Model = [], ac_Manufacturer = [], ac_Status = AircraftStatusActive,
     ac_AcceptanceStatus = AcceptanceStatusAccepted, ac_RemoteIDSerial = [], ac_RemoteIDStatus = RemoteIDStatusUnknown,
     ac_ConfigVersion = [], ac_SoftwareVersion = [], ac_HardwareVersion = [], ac_CreatedAt = 0, ac_UpdatedAt = 0\<rparr>"

definition sample_fleet_store :: Store where
  "sample_fleet_store = store_intent (sample_intent\<lparr>oi_Status := IntentStatusActive\<rparr>) NewStore\<lparr>
     s_aircraft := [(''uav-1'', sample_aircraft)],
     s_flightRecords := [(''fl-1'', sample_flight)],
     s_missions := [(''ms-1'', sample_mission\<lparr>ms_Version := 1, ms_MissionDigest := sample_digest\<rparr>)]\<rparr>"

definition sample_agent :: "'w MissionDeployer" where
  "sample_agent = \<lparr>de_EnsureOperationContext = (\<lambda>a c. State_Monad.return None),
     de_ClearOperationContextForReconciliation = (\<lambda>a c x. State_Monad.return None),
     de_DeployMission = (\<lambda>a c. State_Monad.return (Inr (Some \<lparr>rs_CommandId = dc_CommandId c,
       rs_Binding = Some (dc_Binding c), rs_Status = STATUS_APPLIED, rs_Message = [],
       rs_OnboardMissionDigest = mb_MissionDigest (dc_Binding c), rs_UploadedItemCount = 0,
       rs_MavlinkMissionAckType = None, rs_CompletedAtUnixMs = 0\<rparr>)))\<rparr>"

definition sample_fleet :: "unit FleetService" where
  "sample_fleet = \<lparr>fs_now = reads (\<lambda>_. 5), fs_newUUID = reads (\<lambda>_. ''u-1''), fs_others = State_Monad.return (),
     fs_missionDeployer = Some sample_agent, fs_sha256Hex = id\<rparr>"

definition guarded_deploy :: "string \<Rightarrow> DeployMissionCommand \<Rightarrow> (unit, MissionDeploymentResult option result) srv" where
  "guarded_deploy a c = State (\<lambda>(s, w). if dispatch_recorded a c s
     then run_state (de_DeployMission sample_agent a c) (s, w) else (Inl ErrNotFound, (s, w)))"

text \<open>A clock that ticks with every reading, and a request that expires the deployment while another waits.\<close>

definition expiring_deployment :: MissionDeployment where
  "expiring_deployment = sample_deployment\<lparr>md_AgentID := ''ag-1'', md_MissionVersion := 1, md_MissionDigest := sample_digest,
     md_IdempotencyRequest := request_hash sample_fleet ''fl-1'' ''ms-1'' 1 sample_digest,
     md_IdempotencyKey := ''k-1'', md_ExpiresAt := 10, md_ReconcileUntil := 20\<rparr>"

definition expiring_store :: Store where
  "expiring_store = add_deployment expiring_deployment sample_fleet_store"

definition ticking_fleet :: "int FleetService" where
  "ticking_fleet = \<lparr>fs_now = State (\<lambda>(s, t). (t, (s, t + 1))), fs_newUUID = State_Monad.return ''u-1'',
     fs_others = State (\<lambda>(s, t). ((), (if t = 10 then fst (snd (run_state (persistUndispatchedMissionExpiry
        \<lparr>fs_now = State_Monad.return 10, fs_newUUID = State_Monad.return ''u-2'', fs_others = State_Monad.return (),
         fs_missionDeployer = None, fs_sha256Hex = id\<rparr> expiring_deployment True [] 10) (s, ()))) else s, t))),
     fs_missionDeployer = Some sample_agent, fs_sha256Hex = id\<rparr>"

text \<open>The records and the store of that run.\<close>

definition current_sample :: Mission where
  "current_sample = sample_mission\<lparr>ms_Version := 1, ms_MissionDigest := sample_digest\<rparr>"

definition sample_created :: MissionDeployment where
  "sample_created = new_deployment sample_fleet sample_flight current_sample sample_aircraft ''k-1'' 5 ''u-1'' ''u-1'' ''u-1'' ''u-1''"

definition expired_record :: MissionDeployment where
  "expired_record = expiring_deployment\<lparr>md_Status := MissionDeploymentOutcomeUnknown, md_Message := [], md_UpdatedAt := 10, md_Revision := 1\<rparr>"

definition expired_store :: Store where
  "expired_store = expiring_store\<lparr>s_missionDeployments := [(''dep-1'', expired_record)]\<rparr>"

definition retried :: MissionDeployment where
  "retried = new_deployment ticking_fleet sample_flight current_sample sample_aircraft ''k-1'' 9 ''u-1'' ''u-1'' ''u-1'' ''u-1''"

section \<open>Lemmas\<close>

subsection \<open>Outcomes are read back\<close>

lemma readback_retryable: "missionDeploymentRetryable (md_Status d) \<Longrightarrow> readback_ok d"
  by (auto simp: missionDeploymentRetryable_def readback_ok_def deployment_verified_def)

lemma readback_outcome: "readback_ok (outcome d answer binding n)"
  by (auto simp: outcome_def applyMissionDeploymentResult_def readback_ok_def deployment_verified_def
      verified_status_def split: sum.splits option.splits if_splits)

lemma readback_merged:
  "readback_ok desired \<Longrightarrow> sameMissionDeploymentCommand current desired \<Longrightarrow> readback_ok (merged_outcome desired current)"
  by (auto simp: readback_ok_def deployment_verified_def merged_outcome_def sameMissionDeploymentCommand_def)

subsection \<open>An invariant of the record's writes\<close>

locale deployment_invariant =
  fixes I :: "Store \<Rightarrow> bool"
  assumes inv_write: "I s \<Longrightarrow> readback_ok d \<Longrightarrow> I (snd (UpdateMissionDeployment d r s))"
    and inv_creation: "I s \<Longrightarrow> readback_ok d \<Longrightarrow> I (snd (CreateMissionDeploymentForPlannedFlight d s))"
begin

lemma call_keeps: "fleet_keeps I svc \<Longrightarrow> (\<And>s. I s \<Longrightarrow> I (snd (f s))) \<Longrightarrow> keeps I (durable_call svc f)"
  unfolding durable_call_def by (intro keeps_bind keeps_with_store) (auto simp: fleet_keeps_def)

lemma read_keeps: "fleet_keeps I svc \<Longrightarrow> keeps I (durable_read svc f)"
  unfolding durable_read_def by (intro keeps_bind) (auto simp: fleet_keeps_def)

lemma now_keeps: "fleet_keeps I svc \<Longrightarrow> keeps I (fs_now svc)" "fleet_keeps I svc \<Longrightarrow> keeps I (fs_newUUID svc)"
  by (simp_all add: fleet_keeps_def)

lemma write_keeps:
  assumes "fleet_keeps I svc" and "readback_ok d"
  shows "keeps I (write_deployment svc d r failure)" and "keeps I (finish_write svc d r replayed failure)"
proof -
  show "keeps I (write_deployment svc d r failure)"
    unfolding write_deployment_def using assms
    by (auto intro!: keeps_bind call_keeps read_keeps inv_write split: option.splits)
  then show "keeps I (finish_write svc d r replayed failure)"
    unfolding finish_write_def by (auto intro!: keeps_bind)
qed

lemma expiry_keeps: "fleet_keeps I svc \<Longrightarrow> keeps I (persistUndispatchedMissionExpiry svc d replayed m t)"
  unfolding persistUndispatchedMissionExpiry_def
  by (intro write_keeps) (simp_all add: readback_ok_def deployment_verified_def)

lemma failure_keeps: "fleet_keeps I svc \<Longrightarrow> keeps I (context_failure svc d replayed m1 m2 f e)"
  unfolding context_failure_def Let_def
  by (intro keeps_bind write_keeps now_keeps) (simp_all add: readback_ok_def deployment_verified_def)

lemma binding_keeps:
  assumes "fleet_keeps I svc"
  shows "keeps I (GetCurrentMission svc i)" and "keeps I (validateMissionDeploymentBinding svc i)"
    and "keeps I (terminal_replay svc d)"
proof -
  show m: "keeps I (GetCurrentMission svc i)" for i
    unfolding GetCurrentMission_def Let_def by (auto intro!: keeps_bind read_keeps assms split: sum.splits)
  then show "keeps I (validateMissionDeploymentBinding svc i)" "keeps I (terminal_replay svc d)"
    unfolding validateMissionDeploymentBinding_def terminal_replay_def validateCurrentMissionDeploymentReplay_def
    by (auto intro!: keeps_bind read_keeps assms split: sum.splits)
qed

lemma phases_keep:
  assumes "fleet_keeps I svc" and "fs_missionDeployer svc = Some deployer"
  shows "keeps I (expiry_after_clear svc d replayed)" "keeps I (clear_previous svc deployer d replayed)"
    "keeps I (set_context svc deployer flight d replayed)"
    "keeps I (prepare_dispatch svc deployer flight d replayed readback)"
proof -
  have de: "keeps I (de_EnsureOperationContext deployer a c)" "keeps I (de_ClearOperationContextForReconciliation deployer a c' x)"
    for a c c' x using assms by (simp_all add: fleet_keeps_def)
  show e: "keeps I (expiry_after_clear svc d replayed)"
    unfolding expiry_after_clear_def by (auto intro!: keeps_bind now_keeps expiry_keeps assms(1))
  show c: "keeps I (clear_previous svc deployer d replayed)"
    unfolding clear_previous_def
    by (auto intro!: keeps_bind read_keeps failure_keeps e de assms(1) split: sum.splits option.splits)
  show s: "keeps I (set_context svc deployer flight d replayed)"
    unfolding set_context_def
    by (auto intro!: keeps_bind now_keeps failure_keeps expiry_keeps de assms(1) split: option.splits)
  show "keeps I (prepare_dispatch svc deployer flight d replayed readback)"
    unfolding prepare_dispatch_def by (auto intro!: keeps_bind c s split: sum.splits)
qed

lemma deploy_created_keeps:
  "fleet_keeps I svc \<Longrightarrow> fs_missionDeployer svc = Some deployer \<Longrightarrow> keeps I (deploy_created svc deployer i d replayed t)"
  unfolding deploy_created_def
  by (auto intro!: keeps_bind expiry_keeps binding_keeps phases_keep split: sum.splits prod.splits)

lemma deploy_or_replay_keeps:
  assumes "fleet_keeps I svc"
  shows "keeps I (deploy_or_replay svc i m dg k)"
proof -
  have "keeps I (deploy_fresh svc deployer i m dg k)" if "fs_missionDeployer svc = Some deployer" for deployer
    unfolding deploy_fresh_def Let_def using that assms
    by (auto intro!: keeps_bind binding_keeps now_keeps call_keeps inv_creation deploy_created_keeps
        simp: readback_ok_def deployment_verified_def new_deployment_def split: sum.splits prod.splits)
  then show ?thesis
    unfolding deploy_or_replay_def Let_def
    by (auto intro!: keeps_bind read_keeps binding_keeps assms split: sum.splits option.splits)
qed

lemma persist_keeps:
  assumes "fleet_keeps I svc"
  shows "readback_ok desired \<Longrightarrow> keeps I (persistCorrelatedMissionDeploymentResult svc n desired r)"
proof (induction n arbitrary: desired r)
  case (Suc n)
  then show ?case
    using assms
    by (auto intro!: keeps_bind call_keeps read_keeps inv_write Suc.IH readback_merged split: option.splits sum.splits)
qed simp

lemma dispatch_keeps:
  assumes "fleet_keeps I svc" and "fs_missionDeployer svc = Some deployer"
  shows "keeps I (dispatch_mission svc n deployer d m replayed)"
proof -
  have "keeps I (de_DeployMission deployer a c)" for a c using assms by (simp add: fleet_keeps_def)
  moreover have "keeps I (write_deployment svc (dispatching d t) r f)" for t r f
    using assms(1) by (intro write_keeps) (simp_all add: readback_retryable missionDeploymentRetryable_def dispatching_def)
  ultimately show ?thesis
    unfolding dispatch_mission_def Let_def
    by (auto intro!: keeps_bind now_keeps persist_keeps readback_outcome assms(1) split: sum.splits)
qed

lemma deploy_keeps:
  assumes "fleet_keeps I svc"
  shows "keeps I (DeployCurrentMission svc n i m dg k)"
  unfolding DeployCurrentMission_def Let_def
  by (auto intro!: keeps_bind deploy_or_replay_keeps dispatch_keeps assms split: option.splits sum.splits prod.splits)

lemma reconcile_keeps:
  assumes "fleet_keeps I svc"
  shows "keeps I (ReconcileMissionDeployment svc n i d)"
  unfolding ReconcileMissionDeployment_def service_GetMissionDeployment_def
  by (auto intro!: keeps_bind read_keeps binding_keeps deploy_keeps assms split: sum.splits)

end

lemma vals_update_subset: "x \<in> set (vals (AList.update k v m)) \<Longrightarrow> x = v \<or> x \<in> set (vals m)"
  by (induction m) (auto simp: vals_def split: if_splits)

lemma readbacks_update: "readbacks_ok s \<Longrightarrow> readback_ok d \<Longrightarrow> readbacks_ok (snd (UpdateMissionDeployment d r s))"
  by (auto simp: readbacks_ok_def UpdateMissionDeployment_def readback_ok_def deployment_verified_def
      dest!: vals_update_subset split: option.split)

lemma readbacks_create:
  "readbacks_ok s \<Longrightarrow> readback_ok d \<Longrightarrow> readbacks_ok (snd (CreateMissionDeploymentForPlannedFlight d s))"
  by (auto simp: readbacks_ok_def CreateMissionDeploymentForPlannedFlight_def createMissionDeploymentLocked_def Let_def
      add_deployment_def readback_ok_def deployment_verified_def dest!: vals_update_subset split: option.split)

interpretation readbacks_kept: deployment_invariant readbacks_ok
  by unfold_locales (simp_all add: readbacks_update readbacks_create)

subsection \<open>The loop that records an outcome\<close>

text \<open>What an update answers, and that it succeeds on a record it was computed from.\<close>

lemma update_conflict:
  assumes "map_of (s_missionDeployments s) (md_ID d) = Some c" and "md_Revision c = r"
    and "md_IdempotencyKey c = md_IdempotencyKey d" "md_IdempotencyRequest c = md_IdempotencyRequest d"
      "md_CommandID c = md_CommandID d" "md_MissionID c = md_MissionID d"
  shows "fst (UpdateMissionDeployment d r s) = None"
  using assms by (simp add: UpdateMissionDeployment_def)

lemma update_cases:
  "UpdateMissionDeployment d r s = (None, put_deployment (d\<lparr>md_Revision := inc64 r\<rparr>) s)
   \<or> (\<exists>e. UpdateMissionDeployment d r s = (Some e, s))"
  by (simp add: UpdateMissionDeployment_def put_deployment_def split: option.split)

lemma update_success:
  "fst (UpdateMissionDeployment d r s) = None \<Longrightarrow>
     map_of (s_missionDeployments (snd (UpdateMissionDeployment d r s))) =
       (map_of (s_missionDeployments s))(md_ID d \<mapsto> d\<lparr>md_Revision := inc64 r\<rparr>)"
  using update_cases [of d r s] by (auto simp: put_deployment_def)

lemma update_failure: "fst (UpdateMissionDeployment d r s) \<noteq> None \<Longrightarrow> snd (UpdateMissionDeployment d r s) = s"
  using update_cases [of d r s] by auto

lemma same_command_fields:
  assumes "sameMissionDeploymentCommand c d"
  shows "md_ID c = md_ID d" "md_IdempotencyKey c = md_IdempotencyKey d" "md_IdempotencyRequest c = md_IdempotencyRequest d"
    "md_CommandID c = md_CommandID d" "md_MissionID c = md_MissionID d" "md_MissionDigest c = md_MissionDigest d"
  using assms by (simp_all add: sameMissionDeploymentCommand_def)

lemma merged_fields [simp]:
  "md_ID (merged_outcome d c) = md_ID c" "md_IdempotencyKey (merged_outcome d c) = md_IdempotencyKey c"
  "md_IdempotencyRequest (merged_outcome d c) = md_IdempotencyRequest c" "md_CommandID (merged_outcome d c) = md_CommandID c"
  "md_MissionID (merged_outcome d c) = md_MissionID c" "md_Status (merged_outcome d c) = md_Status d"
  by (simp_all add: merged_outcome_def)

lemma merged_same:
  "sameMissionDeploymentCommand c d \<Longrightarrow>
     sameMissionDeploymentCommand x (merged_outcome d c) \<longleftrightarrow> sameMissionDeploymentCommand x d"
  by (auto simp: sameMissionDeploymentCommand_def merged_outcome_def)

lemma outcome_answer_merged:
  "sameMissionDeploymentCommand c d \<Longrightarrow> outcome_answer (merged_outcome d c) a s \<longleftrightarrow> outcome_answer d a s"
  by (simp add: outcome_answer_def merged_same same_command_fields split: sum.split)

lemma update_not_found:
  "fst (UpdateMissionDeployment d r s) = Some e \<Longrightarrow> \<not> errors_Is e ErrVersionConflict \<Longrightarrow>
     map_of (s_missionDeployments s) (md_ID d) = None"
  by (auto simp: UpdateMissionDeployment_def split: option.splits if_splits)

text \<open>One round: an answer, or another with the outcome on top of the record as it is then.\<close>

lemma persist_round:
  assumes o1: "run_state (fs_others svc) \<sigma> = ((), (s1, w1))" and o2: "run_state (fs_others svc) (s1, w1) = ((), (s2, w2))"
  shows "(\<exists>a \<sigma>'. (\<forall>n. run_state (persistCorrelatedMissionDeploymentResult svc (Suc n) d r) \<sigma> = (Some a, \<sigma>'))
        \<and> outcome_answer d a (fst \<sigma>'))
    \<or> (\<exists>c. fst (UpdateMissionDeployment d r s1) \<noteq> None \<and> map_of (s_missionDeployments s2) (md_ID d) = Some c
        \<and> sameMissionDeploymentCommand c d
        \<and> (\<forall>n. run_state (persistCorrelatedMissionDeploymentResult svc (Suc n) d r) \<sigma> =
              run_state (persistCorrelatedMissionDeploymentResult svc n (merged_outcome d c) (md_Revision c)) (s2, w2)))"
proof (cases "fst (UpdateMissionDeployment d r s1)")
  case None
  with o1 update_success [OF None] show ?thesis by (auto simp: durable_call_def outcome_answer_def)
next
  case (Some e)
  then have st: "snd (UpdateMissionDeployment d r s1) = s1" by (simp add: update_failure)
  show ?thesis
  proof (cases "errors_Is e ErrVersionConflict")
    case False
    then show ?thesis using o1 Some st update_not_found [OF Some] by (auto simp: durable_call_def outcome_answer_def)
  next
    case True
    have run: "run_state (persistCorrelatedMissionDeploymentResult svc (Suc n) d r) \<sigma> =
        (case map_of (s_missionDeployments s2) (md_ID d) of
           None \<Rightarrow> (Some (Inl ErrNotFound), (s2, w2))
         | Some c \<Rightarrow>
             if \<not> sameMissionDeploymentCommand c d then (Some (Inl ErrVersionConflict), (s2, w2))
             else if \<not> missionDeploymentRetryable (md_Status c) \<or> missionDeploymentRetryable (md_Status d)
             then (Some (Inr c), (s2, w2))
             else run_state (persistCorrelatedMissionDeploymentResult svc n (merged_outcome d c) (md_Revision c)) (s2, w2))" for n
      using o1 o2 Some st True
      by (simp add: durable_call_def durable_read_def GetMissionDeployment_def found_def split: option.split)
    show ?thesis
    proof (cases "map_of (s_missionDeployments s2) (md_ID d)")
      case None
      with run show ?thesis by (intro disjI1) (simp add: outcome_answer_def)
    next
      case c: (Some c)
      consider "\<not> sameMissionDeploymentCommand c d"
        | "sameMissionDeploymentCommand c d" "\<not> missionDeploymentRetryable (md_Status c) \<or> missionDeploymentRetryable (md_Status d)"
        | "sameMissionDeploymentCommand c d" "missionDeploymentRetryable (md_Status c)" "\<not> missionDeploymentRetryable (md_Status d)"
        by blast
      then show ?thesis
      proof cases
        case 3
        with run c Some show ?thesis by (intro disjI2 exI [of _ c]) simp
      qed (use run c in \<open>intro disjI1, simp add: outcome_answer_def, blast?\<close>)+
    qed
  qed
qed

declare persistCorrelatedMissionDeploymentResult.simps [simp del]

lemma writes_boundedD:
  "writes_bounded svc k f \<Longrightarrow> run_state (fs_others svc) \<sigma> = ((), \<sigma>') \<Longrightarrow>
     f \<sigma>' \<le> f \<sigma> \<and> (map_of (s_missionDeployments (fst \<sigma>')) k \<noteq> map_of (s_missionDeployments (fst \<sigma>)) k \<longrightarrow> f \<sigma>' < f \<sigma>)"
  unfolding writes_bounded_def by blast

lemma others_run:
  obtains s1 w1 s2 w2 where "run_state (fs_others svc) \<sigma> = ((), (s1, w1))"
    and "run_state (fs_others svc) (s1, w1) = ((), (s2, w2))"
  by (metis old.unit.exhaust prod.exhaust)

lemma persist_returns_synced:
  assumes bound: "writes_bounded svc k f"
  shows "md_ID d = k \<Longrightarrow> map_of (s_missionDeployments (fst \<sigma>)) k = Some c \<Longrightarrow> md_Revision c = r \<Longrightarrow>
     sameMissionDeploymentCommand c d \<Longrightarrow> f \<sigma> < n \<Longrightarrow>
     \<exists>a \<sigma>'. run_state (persistCorrelatedMissionDeploymentResult svc n d r) \<sigma> = (Some a, \<sigma>') \<and> outcome_answer d a (fst \<sigma>')"
proof (induction n arbitrary: d r \<sigma> c)
  case (Suc n)
  obtain s1 w1 s2 w2 where o: "run_state (fs_others svc) \<sigma> = ((), (s1, w1))"
    "run_state (fs_others svc) (s1, w1) = ((), (s2, w2))" by (rule others_run)
  then have f: "f (s1, w1) \<le> f \<sigma>" "f (s2, w2) \<le> f (s1, w1)"
    "map_of (s_missionDeployments s1) k \<noteq> map_of (s_missionDeployments (fst \<sigma>)) k \<Longrightarrow> f (s1, w1) < f \<sigma>"
    using writes_boundedD [OF bound o(1)] writes_boundedD [OF bound o(2)] by auto
  from persist_round [OF o, of d r] show ?case
  proof (elim disjE exE conjE)
    fix c' assume fail: "fst (UpdateMissionDeployment d r s1) \<noteq> None"
      and c': "map_of (s_missionDeployments s2) (md_ID d) = Some c'" "sameMissionDeploymentCommand c' d"
      and run: "\<forall>n. run_state (persistCorrelatedMissionDeploymentResult svc (Suc n) d r) \<sigma> =
        run_state (persistCorrelatedMissionDeploymentResult svc n (merged_outcome d c') (md_Revision c')) (s2, w2)"
    have "map_of (s_missionDeployments s1) k \<noteq> map_of (s_missionDeployments (fst \<sigma>)) k"
      using fail update_conflict [of s1 d c r] Suc.prems same_command_fields [OF Suc.prems(4)] by auto
    with f Suc.prems(5) have "f (s2, w2) < n" by simp
    then have "\<exists>a \<sigma>'. run_state (persistCorrelatedMissionDeploymentResult svc n (merged_outcome d c') (md_Revision c')) (s2, w2)
        = (Some a, \<sigma>') \<and> outcome_answer (merged_outcome d c') a (fst \<sigma>')"
      using c' Suc.prems(1) same_command_fields(1) [OF c'(2)] by (intro Suc.IH [where c = c']) (simp_all add: merged_same)
    then show ?thesis by (simp only: run [rule_format] outcome_answer_merged [OF c'(2)])
  qed blast
qed simp

lemma persist_returns:
  assumes bound: "writes_bounded svc (md_ID d) f" and n: "f \<sigma> + 2 \<le> n"
  shows "\<exists>a \<sigma>'. run_state (persistCorrelatedMissionDeploymentResult svc n d r) \<sigma> = (Some a, \<sigma>') \<and> outcome_answer d a (fst \<sigma>')"
proof -
  obtain m where m: "n = Suc m" using n by (cases n) auto
  obtain s1 w1 s2 w2 where o: "run_state (fs_others svc) \<sigma> = ((), (s1, w1))"
    "run_state (fs_others svc) (s1, w1) = ((), (s2, w2))" by (rule others_run)
  then have "f (s2, w2) < m" using writes_boundedD [OF bound o(1)] writes_boundedD [OF bound o(2)] n m by auto
  then have synced: "\<exists>a \<sigma>'. run_state (persistCorrelatedMissionDeploymentResult svc m (merged_outcome d c) (md_Revision c)) (s2, w2)
      = (Some a, \<sigma>') \<and> outcome_answer (merged_outcome d c) a (fst \<sigma>')"
    if "map_of (s_missionDeployments s2) (md_ID d) = Some c" "sameMissionDeploymentCommand c d" for c
    using that same_command_fields(1) [OF that(2)] by (intro persist_returns_synced [OF bound, where c = c]) (simp_all add: merged_same)
  from persist_round [OF o, of d r] show ?thesis
  proof (elim disjE exE conjE)
    fix c assume c: "map_of (s_missionDeployments s2) (md_ID d) = Some c" "sameMissionDeploymentCommand c d"
      and run: "\<forall>n. run_state (persistCorrelatedMissionDeploymentResult svc (Suc n) d r) \<sigma> =
        run_state (persistCorrelatedMissionDeploymentResult svc n (merged_outcome d c) (md_Revision c)) (s2, w2)"
    from synced [OF c] show ?thesis by (simp only: m run [rule_format] outcome_answer_merged [OF c(2)])
  qed (auto simp only: m)
qed

subsection \<open>What leads to a dispatch\<close>

lemma write_deployment_run:
  assumes "run_state (write_deployment svc u r failure) \<sigma> = (Inr x, (s', w'))"
  shows "x = u\<lparr>md_Revision := inc64 (md_Revision u)\<rparr>"
    and "map_of (s_missionDeployments s') (md_ID u) = Some (u\<lparr>md_Revision := inc64 r\<rparr>)"
proof -
  obtain s1 w1 where o: "run_state (fs_others svc) \<sigma> = ((), (s1, w1))" by (metis old.unit.exhaust prod.exhaust)
  have none: "fst (UpdateMissionDeployment u r s1) = None" and x: "x = u\<lparr>md_Revision := inc64 (md_Revision u)\<rparr>"
    and s': "s' = snd (UpdateMissionDeployment u r s1)"
    using assms o
    by (auto simp: write_deployment_def durable_call_def durable_read_def split: option.splits if_splits prod.splits)
  show "x = u\<lparr>md_Revision := inc64 (md_Revision u)\<rparr>" by (rule x)
  show "map_of (s_missionDeployments s') (md_ID u) = Some (u\<lparr>md_Revision := inc64 r\<rparr>)"
    using update_success [OF none] s' by simp
qed

lemma set_context_run:
  "run_state (set_context svc deployer flight d replayed) \<sigma> = (Inr (), \<sigma>') \<Longrightarrow>
     md_Status d = MissionDeploymentOutcomeUnknown \<or> (\<exists>\<tau> t. run_state (fs_now svc) \<tau> = (t, \<sigma>') \<and> t < md_ExpiresAt d)"
  unfolding set_context_def
  by (auto simp del: run_state_bind split_paired_Ex elim!: run_bindE split: option.splits if_splits)

lemma expiry_after_clear_run:
  "run_state (expiry_after_clear svc d replayed) \<sigma> = (Inr True, \<sigma>') \<Longrightarrow> md_Status d = MissionDeploymentOutcomeUnknown"
  unfolding expiry_after_clear_def by (auto simp del: run_state_bind elim!: run_bindE split: if_splits)

lemma clear_previous_run:
  "run_state (clear_previous svc deployer d replayed) \<sigma> = (Inr True, \<sigma>') \<Longrightarrow> md_Status d = MissionDeploymentOutcomeUnknown"
  unfolding clear_previous_def
  by (auto simp del: run_state_bind elim!: run_bindE dest!: expiry_after_clear_run split: sum.splits option.splits if_splits)

lemma prepare_dispatch_run:
  assumes "run_state (prepare_dispatch svc deployer flight d replayed readback) \<sigma> = (Inr (), \<sigma>')"
  shows "readback \<or> md_Status d = MissionDeploymentOutcomeUnknown
    \<or> (\<exists>\<tau> t. run_state (fs_now svc) \<tau> = (t, \<sigma>') \<and> t < md_ExpiresAt d)"
  using assms unfolding prepare_dispatch_def
  by (cases readback)
    (auto simp del: run_state_bind split_paired_Ex split_paired_All elim!: run_bindE
      dest!: clear_previous_run set_context_run split: sum.splits if_splits)

lemma deploy_created_run:
  assumes "run_state (deploy_created svc deployer i d replayed t) \<sigma> = (Inr (d', m, rep), \<sigma>')"
  shows "d' = d \<and> rep = replayed \<and> dispatchable svc d m \<sigma>'"
  using assms unfolding deploy_created_def dispatchable_def
  by (auto simp del: run_state_bind split_paired_Ex elim!: run_bindE dest!: prepare_dispatch_run
      split: sum.splits prod.splits if_splits)

lemma deploy_fresh_run:
  assumes "run_state (deploy_fresh svc deployer i mid dg k) \<sigma> = (Inr (d, m, rep), \<sigma>')"
  shows "dispatchable svc d m \<sigma>'"
  using assms unfolding deploy_fresh_def Let_def
  by (auto simp del: run_state_bind split_paired_Ex elim!: run_bindE dest!: deploy_created_run
      split: sum.splits prod.splits if_splits)

lemma deploy_or_replay_run:
  assumes "run_state (deploy_or_replay svc i mid dg k) \<sigma> = (Inr (d, m, rep), \<sigma>')"
  shows "dispatchable svc d m \<sigma>' \<and> fs_missionDeployer svc \<noteq> None"
  using assms unfolding deploy_or_replay_def Let_def
  by (auto simp del: run_state_bind split_paired_Ex elim!: run_bindE dest!: deploy_fresh_run
      split: sum.splits option.splits if_splits)

subsection \<open>What does not depend on the Agent\<close>

named_theorems irrelevant

lemma deployer_fields [irrelevant]:
  "fs_now (svc\<lparr>fs_missionDeployer := x\<rparr>) = fs_now svc" "fs_newUUID (svc\<lparr>fs_missionDeployer := x\<rparr>) = fs_newUUID svc"
  "fs_sha256Hex (svc\<lparr>fs_missionDeployer := x\<rparr>) = fs_sha256Hex svc"
  "de_EnsureOperationContext (d\<lparr>de_DeployMission := g\<rparr>) = de_EnsureOperationContext d"
  "de_ClearOperationContextForReconciliation (d\<lparr>de_DeployMission := g\<rparr>) = de_ClearOperationContextForReconciliation d"
  by simp_all

lemma calls_irrelevant [irrelevant]:
  "durable_call (svc\<lparr>fs_missionDeployer := x\<rparr>) f = durable_call svc f" "durable_read (svc\<lparr>fs_missionDeployer := x\<rparr>) h = durable_read svc h"
  by (simp_all add: durable_call_def durable_read_def)

lemma write_deployment_irrelevant [irrelevant]:
  "write_deployment (svc\<lparr>fs_missionDeployer := x\<rparr>) = write_deployment svc"
  unfolding write_deployment_def [abs_def] irrelevant by (rule refl)

lemma finish_write_irrelevant [irrelevant]:
  "finish_write (svc\<lparr>fs_missionDeployer := x\<rparr>) = finish_write svc"
  unfolding finish_write_def [abs_def] irrelevant by (rule refl)

lemma persistUndispatchedMissionExpiry_irrelevant [irrelevant]:
  "persistUndispatchedMissionExpiry (svc\<lparr>fs_missionDeployer := x\<rparr>) = persistUndispatchedMissionExpiry svc"
  unfolding persistUndispatchedMissionExpiry_def [abs_def] irrelevant by (rule refl)

lemma context_failure_irrelevant [irrelevant]:
  "context_failure (svc\<lparr>fs_missionDeployer := x\<rparr>) = context_failure svc"
  unfolding context_failure_def [abs_def] irrelevant by (rule refl)

lemma GetCurrentMission_irrelevant [irrelevant]:
  "GetCurrentMission (svc\<lparr>fs_missionDeployer := x\<rparr>) = GetCurrentMission svc"
  unfolding GetCurrentMission_def [abs_def] irrelevant by (rule refl)

lemma validateMissionDeploymentBinding_irrelevant [irrelevant]:
  "validateMissionDeploymentBinding (svc\<lparr>fs_missionDeployer := x\<rparr>) = validateMissionDeploymentBinding svc"
  unfolding validateMissionDeploymentBinding_def [abs_def] irrelevant by (rule refl)

lemma validateCurrentMissionDeploymentReplay_irrelevant [irrelevant]:
  "validateCurrentMissionDeploymentReplay (svc\<lparr>fs_missionDeployer := x\<rparr>) = validateCurrentMissionDeploymentReplay svc"
  unfolding validateCurrentMissionDeploymentReplay_def [abs_def] irrelevant by (rule refl)

lemma terminal_replay_irrelevant [irrelevant]:
  "terminal_replay (svc\<lparr>fs_missionDeployer := x\<rparr>) = terminal_replay svc"
  unfolding terminal_replay_def [abs_def] irrelevant by (rule refl)

lemma request_hash_irrelevant [irrelevant]:
  "request_hash (svc\<lparr>fs_missionDeployer := x\<rparr>) = request_hash svc"
  unfolding request_hash_def [abs_def] irrelevant by (rule refl)

lemma new_deployment_irrelevant [irrelevant]:
  "new_deployment (svc\<lparr>fs_missionDeployer := x\<rparr>) = new_deployment svc"
  unfolding new_deployment_def [abs_def] irrelevant by (rule refl)

lemma expiry_after_clear_irrelevant [irrelevant]:
  "expiry_after_clear (svc\<lparr>fs_missionDeployer := x\<rparr>) = expiry_after_clear svc"
  unfolding expiry_after_clear_def [abs_def] irrelevant by (rule refl)

lemma clear_previous_irrelevant [irrelevant]:
  "clear_previous (svc\<lparr>fs_missionDeployer := x\<rparr>) (d\<lparr>de_DeployMission := g\<rparr>) = clear_previous svc d"
  unfolding clear_previous_def [abs_def] irrelevant by (rule refl)

lemma set_context_irrelevant [irrelevant]:
  "set_context (svc\<lparr>fs_missionDeployer := x\<rparr>) (d\<lparr>de_DeployMission := g\<rparr>) = set_context svc d"
  unfolding set_context_def [abs_def] irrelevant by (rule refl)

lemma prepare_dispatch_irrelevant [irrelevant]:
  "prepare_dispatch (svc\<lparr>fs_missionDeployer := x\<rparr>) (d\<lparr>de_DeployMission := g\<rparr>) = prepare_dispatch svc d"
  unfolding prepare_dispatch_def [abs_def] irrelevant by (rule refl)

lemma deploy_created_irrelevant [irrelevant]:
  "deploy_created (svc\<lparr>fs_missionDeployer := x\<rparr>) (d\<lparr>de_DeployMission := g\<rparr>) = deploy_created svc d"
  unfolding deploy_created_def [abs_def] irrelevant by (rule refl)

lemma deploy_fresh_irrelevant [irrelevant]:
  "deploy_fresh (svc\<lparr>fs_missionDeployer := x\<rparr>) (d\<lparr>de_DeployMission := g\<rparr>) = deploy_fresh svc d"
  unfolding deploy_fresh_def [abs_def] irrelevant by (rule refl)

lemma deploy_or_replay_irrelevant:
  "fs_missionDeployer svc = Some d \<Longrightarrow>
     deploy_or_replay (svc\<lparr>fs_missionDeployer := Some (d\<lparr>de_DeployMission := g\<rparr>)\<rparr>) = deploy_or_replay svc"
  unfolding deploy_or_replay_def [abs_def] irrelevant by (simp add: irrelevant)

lemma persist_irrelevant [irrelevant]:
  "persistCorrelatedMissionDeploymentResult (svc\<lparr>fs_missionDeployer := x\<rparr>) n e r = persistCorrelatedMissionDeploymentResult svc n e r"
proof (induction n arbitrary: e r)
  case (Suc n)
  show ?case unfolding persistCorrelatedMissionDeploymentResult.simps irrelevant Suc.IH by (rule refl)
qed (simp add: persistCorrelatedMissionDeploymentResult.simps)

lemma dispatch_agree:
  assumes agree: "\<And>agent command s w. dispatch_recorded agent command s \<Longrightarrow>
      run_state (g agent command) (s, w) = run_state (de_DeployMission deployer agent command) (s, w)"
    and d: "dispatchable svc d m \<sigma>"
  shows "run_state (dispatch_mission (svc\<lparr>fs_missionDeployer := x\<rparr>) n (deployer\<lparr>de_DeployMission := g\<rparr>) d m rep) \<sigma>
    = run_state (dispatch_mission svc n deployer d m rep) \<sigma>"
proof -
  obtain t \<sigma>1 where now: "run_state (fs_now svc) \<sigma> = (t, \<sigma>1)" by (metis prod.exhaust)
  obtain r s2 w2 where wr: "run_state (write_deployment svc (dispatching d t) (md_Revision d) ''persist mission dispatch attempt'') \<sigma>1
    = (r, (s2, w2))" by (metis prod.exhaust)
  show ?thesis
  proof (cases r)
    case (Inr u)
    with wr have u: "u = (dispatching d t)\<lparr>md_Revision := inc64 (md_Revision (dispatching d t))\<rparr>"
      and st: "map_of (s_missionDeployments s2) (md_ID d) = Some ((dispatching d t)\<lparr>md_Revision := inc64 (md_Revision d)\<rparr>)"
      using write_deployment_run [of svc "dispatching d t"] by (auto simp: dispatching_def)
    have "dispatch_recorded (md_AgentID u) (missionDeploymentCommand d m) s2"
      using st d by (auto simp: dispatch_recorded_def missionDeploymentCommand_def u dispatching_def dispatchable_def)
    from agree [OF this] show ?thesis using now wr Inr by (simp add: dispatch_mission_def Let_def irrelevant)
  qed (use now wr in \<open>simp add: dispatch_mission_def Let_def irrelevant\<close>)
qed

section \<open>Properties\<close>

subsection \<open>Two runs\<close>

lemma sample_texts: "TrimSpace ''fl-1'' = ''fl-1''" "TrimSpace ''ag-1'' \<noteq> []"
  by code_simp+

lemma sample_binding_run:
  assumes "run_state (fs_others svc) (s, w) = ((), (s, w))"
    and "s_flightRecords s = s_flightRecords sample_fleet_store" "s_missions s = s_missions sample_fleet_store"
    "s_aircraft s = s_aircraft sample_fleet_store" "s_operationalIntents s = s_operationalIntents sample_fleet_store"
  shows "run_state (validateMissionDeploymentBinding svc ''fl-1'') (s, w) = (Inr (sample_flight, current_sample, sample_aircraft), (s, w))"
proof -
  have "GetFlightRecord ''fl-1'' sample_fleet_store = Inr sample_flight" by code_simp
  then have fl: "GetFlightRecord ''fl-1'' s = Inr sample_flight" by (simp add: GetFlightRecord_def assms)
  have "GetCurrentMissionForFlight ''fl-1'' sample_fleet_store = Inr current_sample" by code_simp
  then have ms: "GetCurrentMissionForFlight ''fl-1'' s = Inr current_sample"
    by (simp add: GetCurrentMissionForFlight_def currentMissionForFlightLocked_def assms)
  have "GetOperationalIntent ''op-1'' sample_fleet_store = Inr (sample_intent\<lparr>oi_Status := IntentStatusActive\<rparr>)" by code_simp
  then have oi: "GetOperationalIntent ''op-1'' s = Inr (sample_intent\<lparr>oi_Status := IntentStatusActive\<rparr>)"
    by (simp add: GetOperationalIntent_def latestOperationalIntent_def assms)
  have "GetAircraft ''uav-1'' sample_fleet_store = Inr sample_aircraft" by code_simp
  then have ac: "GetAircraft ''uav-1'' s = Inr sample_aircraft" by (simp add: GetAircraft_def assms)
  show ?thesis
    unfolding validateMissionDeploymentBinding_def GetCurrentMission_def durable_read_def Let_def
    using fl ms oi ac
    by (simp add: assms(1) sample_texts sample_flight_def current_sample_def sample_mission_def intent_bound_def sample_intent_def aircraft_bound_def
        sample_aircraft_def zero_FlightRecord_def zero_Mission_def zero_OperationalIntent_def)
qed

lemma sample_plan:
  assumes "s_flightRecords s = s_flightRecords sample_fleet_store" "s_missions s = s_missions sample_fleet_store"
    "s_operationalIntents s = s_operationalIntents sample_fleet_store"
    and "vals (s_missionDeployments s) = (case replay of None \<Rightarrow> [] | Some e \<Rightarrow> [e])"
  shows "planned_deployment_error (new_deployment svc sample_flight current_sample sample_aircraft k now i c x l) replay s = None"
proof -
  have fl: "map_of (s_flightRecords s) ''fl-1'' = Some sample_flight" "vals (s_flightRecords s) = [sample_flight]"
    by (simp_all add: assms sample_fleet_store_def store_intent_def vals_def)
  have "currentMissionForFlightLocked sample_fleet_store ''fl-1'' = Some current_sample" by code_simp
  then have ms: "currentMissionForFlightLocked s ''fl-1'' = Some current_sample"
    by (simp add: currentMissionForFlightLocked_def assms)
  have "latestOperationalIntent sample_fleet_store ''op-1'' = Some (sample_intent\<lparr>oi_Status := IntentStatusActive\<rparr>)" by code_simp
  then have oi: "latestOperationalIntent s ''op-1'' = Some (sample_intent\<lparr>oi_Status := IntentStatusActive\<rparr>)"
    by (simp add: latestOperationalIntent_def assms)
  show ?thesis
    unfolding planned_deployment_error_def
    using ms oi
    by (simp add: fl assms(4) new_deployment_def sample_flight_def sample_intent_def current_sample_def sample_mission_def
        zero_FlightRecord_def zero_Mission_def zero_OperationalIntent_def zero_MissionDeployment_def split: option.splits)
qed

lemma sample_deployments:
  "s_missionDeployments sample_fleet_store = []" "s_deploymentByIdempotencyKey sample_fleet_store = []"
  "s_deploymentCreationOrder sample_fleet_store = []"
  by (simp_all add: sample_fleet_store_def store_intent_def NewStore_def)

lemma sample_created_fields:
  "md_ID sample_created = ''u-1''" "md_AircraftID sample_created = ''uav-1''" "md_MissionID sample_created = ms_ID current_sample"
  "md_MissionVersion sample_created = ms_Version current_sample" "md_MissionDigest sample_created = ms_MissionDigest current_sample"
  "md_AgentID sample_created = ac_AgentID sample_aircraft" "md_Status sample_created = MissionDeploymentPending"
  "md_ExpiresAt sample_created > 5" "\<not> md_DispatchStarted sample_created" "md_Revision sample_created = 0"
  "sample_created\<lparr>md_Revision := 0\<rparr> = sample_created"
  by (simp_all add: sample_created_def new_deployment_def sample_flight_def zero_FlightRecord_def zero_MissionDeployment_def
     missionDeploymentCommandTTL_def minute_def second_def)

lemma sample_created_stored:
  "CreateMissionDeploymentForPlannedFlight sample_created sample_fleet_store = (Inr sample_created, add_deployment sample_created sample_fleet_store)"
proof -
  have "planned_deployment_error sample_created None sample_fleet_store = None"
    unfolding sample_created_def by (rule sample_plan) (simp_all add: sample_deployments vals_def)
  then show ?thesis
    by (simp add: CreateMissionDeploymentForPlannedFlight_def createMissionDeploymentLocked_def deployment_by_key_def
      sample_deployments sample_created_fields)
qed

lemma sample_previous:
  assumes "s_missionDeployments s = [(i, d)]" "md_AircraftID d = a"
  shows "GetPreviousMissionDeploymentForAircraft a i s = Inl ErrNotFound"
  using assms by (simp add: GetPreviousMissionDeploymentForAircraft_def)

lemma sample_lookup: "GetMissionDeploymentByIdempotencyKey ''k-1'' sample_fleet_store = Inl ErrNotFound"
  by (simp add: GetMissionDeploymentByIdempotencyKey_def deployment_by_key_def sample_deployments)

lemma current_sample_fields: "ms_ID current_sample = ''ms-1''" "ms_MissionDigest current_sample = sample_digest"
  by (simp_all add: current_sample_def sample_mission_def)

lemma sample_prepared:
  "run_state (prepare_dispatch sample_fleet sample_agent sample_flight sample_created False False)
    (add_deployment sample_created sample_fleet_store, ()) = (Inr (), (add_deployment sample_created sample_fleet_store, ()))"
  by (simp add: prepare_dispatch_def clear_previous_def expiry_after_clear_def set_context_def durable_read_def
    sample_fleet_def sample_agent_def sample_created_fields sample_previous [of _ _ sample_created] add_deployment_def sample_deployments reads_def)

lemma sample_deploy:
  "run_state (deploy_or_replay sample_fleet ''fl-1'' ''ms-1'' sample_digest ''k-1'') (sample_fleet_store, ())
    = (Inr (sample_created, current_sample, False), (add_deployment sample_created sample_fleet_store, ()))"
proof -
  have "run_state (validateMissionDeploymentBinding sample_fleet ''fl-1'') (sample_fleet_store, ())
      = (Inr (sample_flight, current_sample, sample_aircraft), (sample_fleet_store, ()))"
    by (rule sample_binding_run) (simp_all add: sample_fleet_def)
  moreover have "run_state (validateMissionDeploymentBinding sample_fleet ''fl-1'') (add_deployment sample_created sample_fleet_store, ())
      = (Inr (sample_flight, current_sample, sample_aircraft), (add_deployment sample_created sample_fleet_store, ()))"
    by (rule sample_binding_run) (simp_all add: sample_fleet_def add_deployment_def)
  moreover have "fs_missionDeployer sample_fleet = Some sample_agent" by (simp add: sample_fleet_def)
  moreover have "run_state (fs_others sample_fleet) (s, ()) = ((), (s, ()))" "run_state (fs_now sample_fleet) (s, ()) = (5, (s, ()))"
    "run_state (fs_newUUID sample_fleet) (s, ()) = (''u-1'', (s, ()))" for s
    by (simp_all add: sample_fleet_def reads_def)
  ultimately show ?thesis
    using sample_created_stored [unfolded sample_created_def] sample_created_fields sample_prepared
    by (simp add: deploy_or_replay_def deploy_fresh_def deploy_created_def durable_read_def durable_call_def Let_def
      sample_lookup current_sample_fields sample_created_def [symmetric] deployment_expired_def)
qed

lemma expiring_tables:
  "s_missionDeployments expiring_store = [(''dep-1'', expiring_deployment)]"
  "s_deploymentByIdempotencyKey expiring_store = [(''k-1'', ''dep-1'')]"
  "s_flightRecords expiring_store = s_flightRecords sample_fleet_store"
  "s_missions expiring_store = s_missions sample_fleet_store"
  "s_aircraft expiring_store = s_aircraft sample_fleet_store"
  "s_operationalIntents expiring_store = s_operationalIntents sample_fleet_store"
  by (simp_all add: expiring_store_def add_deployment_def sample_deployments expiring_deployment_def sample_deployment_def)

lemma expired_tables:
  "s_missionDeployments expired_store = [(''dep-1'', expired_record)]"
  "s_deploymentByIdempotencyKey expired_store = [(''k-1'', ''dep-1'')]"
  "s_flightRecords expired_store = s_flightRecords sample_fleet_store"
  "s_missions expired_store = s_missions sample_fleet_store"
  "s_aircraft expired_store = s_aircraft sample_fleet_store"
  "s_operationalIntents expired_store = s_operationalIntents sample_fleet_store"
  by (simp_all add: expired_store_def expiring_tables)

lemma expiring_fields:
  "md_ID expiring_deployment = ''dep-1''" "md_Revision expiring_deployment = 0" "md_FlightID expiring_deployment = ''fl-1''"
  "md_AircraftID expiring_deployment = ''uav-1''" "md_MissionID expiring_deployment = ms_ID current_sample"
  "md_MissionVersion expiring_deployment = ms_Version current_sample" "md_MissionDigest expiring_deployment = sample_digest"
  "md_AgentID expiring_deployment = ac_AgentID sample_aircraft" "md_Status expiring_deployment = MissionDeploymentPending"
  "md_ExpiresAt expiring_deployment = 10" "\<not> md_DispatchStarted expiring_deployment"
  "md_IdempotencyRequest expiring_deployment = request_hash sample_fleet ''fl-1'' ''ms-1'' 1 sample_digest"
  by (simp_all add: expiring_deployment_def sample_deployment_def zero_MissionDeployment_def current_sample_def sample_mission_def
     sample_aircraft_def)

lemma expired_fields:
  "md_ID expired_record = ''dep-1''" "md_Revision expired_record = 1" "md_AircraftID expired_record = ''uav-1''"
  "md_MissionID expired_record = ms_ID current_sample"
  "md_MissionVersion expired_record = ms_Version current_sample" "md_MissionDigest expired_record = sample_digest"
  "md_AgentID expired_record = ac_AgentID sample_aircraft" "md_Status expired_record = MissionDeploymentOutcomeUnknown"
  "md_ExpiresAt expired_record = 10" "\<not> md_DispatchStarted expired_record"
  "md_IdempotencyRequest expired_record = request_hash sample_fleet ''fl-1'' ''ms-1'' 1 sample_digest"
  by (simp_all add: expired_record_def expiring_fields)

lemma ticking_others:
  "t \<noteq> 10 \<Longrightarrow> run_state (fs_others ticking_fleet) (s, t) = ((), (s, t))"
  "run_state (fs_others ticking_fleet) (expiring_store, 10) = ((), (expired_store, 10))"
  "run_state (fs_others ticking_fleet) (expired_store, 10) = ((), (expired_store, 10))"
  by (simp_all add: ticking_fleet_def persistUndispatchedMissionExpiry_def finish_write_def write_deployment_def durable_call_def durable_read_def
     UpdateMissionDeployment_def expiring_tables expired_tables expiring_fields expired_fields expired_store_def expired_record_def
     GetMissionDeployment_def inc64_def)

lemma ticking_fields:
  "fs_missionDeployer ticking_fleet = Some sample_agent" "run_state (fs_now ticking_fleet) (s, t) = (t, (s, t + 1))"
  "run_state (fs_newUUID ticking_fleet) (s, t) = (''u-1'', (s, t))"
  "request_hash ticking_fleet = request_hash sample_fleet"
  by (simp_all add: ticking_fleet_def sample_fleet_def request_hash_def fun_eq_iff)

lemma retried_fields:
  "md_ID retried = ''u-1''" "md_IdempotencyKey retried = ''k-1''"
  "md_IdempotencyRequest retried = request_hash sample_fleet ''fl-1'' ''ms-1'' 1 sample_digest"
  by (simp_all add: retried_def new_deployment_def ticking_fields sample_flight_def current_sample_def sample_mission_def)

lemma retried_replayed: "CreateMissionDeploymentForPlannedFlight retried expired_store = (Inr expired_record, expired_store)"
proof -
  have "planned_deployment_error retried (Some expired_record) expired_store = None"
    unfolding retried_def by (rule sample_plan) (simp_all add: expired_tables vals_def)
  then show ?thesis
    by (simp add: CreateMissionDeploymentForPlannedFlight_def deployment_by_key_def deployment_at_def expired_tables
      expired_fields retried_fields)
qed

lemma expired_prepared:
  "run_state (prepare_dispatch ticking_fleet sample_agent sample_flight expired_record True False) (expired_store, 10)
    = (Inr (), (expired_store, 11))"
  by (simp add: prepare_dispatch_def clear_previous_def expiry_after_clear_def durable_read_def ticking_others ticking_fields
    expired_fields sample_previous [of _ _ expired_record] expired_tables)

lemma expired_run:
  "run_state (deploy_or_replay ticking_fleet ''fl-1'' ''ms-1'' sample_digest ''k-1'') (expiring_store, 9)
    = (Inr (expired_record, current_sample, True), (expired_store, 11))"
proof -
  have "run_state (validateMissionDeploymentBinding ticking_fleet ''fl-1'') (expiring_store, 9)
      = (Inr (sample_flight, current_sample, sample_aircraft), (expiring_store, 9))"
    by (rule sample_binding_run) (simp_all add: ticking_others expiring_tables)
  moreover have "run_state (validateMissionDeploymentBinding ticking_fleet ''fl-1'') (expired_store, 10)
      = (Inr (sample_flight, current_sample, sample_aircraft), (expired_store, 10))"
    by (rule sample_binding_run) (simp_all add: ticking_others expired_tables)
  moreover have "GetMissionDeploymentByIdempotencyKey ''k-1'' expiring_store = Inr expiring_deployment"
    by (simp add: GetMissionDeploymentByIdempotencyKey_def deployment_by_key_def deployment_at_def expiring_tables)
  moreover have "ms_Version current_sample = 1" by (simp add: current_sample_def)
  ultimately show ?thesis
    using retried_replayed [unfolded retried_def] expired_prepared
    by (simp add: deploy_or_replay_def deploy_fresh_def deploy_created_def durable_read_def durable_call_def Let_def
      current_sample_fields retried_def [symmetric] deployment_expired_def ticking_others ticking_fields
      expired_fields expiring_fields missionDeploymentRetryable_def retried_fields)
qed

text \<open>
  C12: no command without a record. Whatever the Agent would do with a command for which the store
  does not hold the deployment, marked as dispatched with unknown outcome and with the command's
  identity, mission, digest and expiry, makes no difference to any request: no such command is
  sent. So a crash at any time leaves a record of every command the Agent may have.
\<close>

theorem mission_dispatch_is_recorded:
  assumes "fs_missionDeployer svc = Some deployer"
    and "\<And>agent command s w. dispatch_recorded agent command s \<Longrightarrow>
      run_state (g agent command) (s, w) = run_state (de_DeployMission deployer agent command) (s, w)"
  shows "run_state (DeployCurrentMission (svc\<lparr>fs_missionDeployer := Some (deployer\<lparr>de_DeployMission := g\<rparr>)\<rparr>) n i m dg k) \<sigma>
    = run_state (DeployCurrentMission svc n i m dg k) \<sigma>"
proof -
  let ?svc = "svc\<lparr>fs_missionDeployer := Some (deployer\<lparr>de_DeployMission := g\<rparr>)\<rparr>"
  obtain r \<sigma>1 where run: "run_state (deploy_or_replay svc (TrimSpace i) (TrimSpace m) (TrimSpace dg) (TrimSpace k)) \<sigma> = (r, \<sigma>1)"
    by (metis prod.exhaust)
  have "run_state (dispatch_mission ?svc n (deployer\<lparr>de_DeployMission := g\<rparr>) d x rep) \<sigma>1
      = run_state (dispatch_mission svc n deployer d x rep) \<sigma>1" if "r = Inr (d, x, rep)" for d x rep
    using deploy_or_replay_run [of svc] run that by (intro dispatch_agree assms(2)) auto
  then show ?thesis
    using run assms(1)
    by (auto simp: DeployCurrentMission_def Let_def deploy_or_replay_irrelevant [OF assms(1)] split: option.split sum.split)
qed

theorem mission_dispatch_is_recorded_witness:
  "run_state (DeployCurrentMission (sample_fleet\<lparr>fs_missionDeployer := Some (sample_agent\<lparr>de_DeployMission := guarded_deploy\<rparr>)\<rparr>)
      2 ''fl-1'' ''ms-1'' sample_digest ''k-1'') (sample_fleet_store, ())
   = run_state (DeployCurrentMission sample_fleet 2 ''fl-1'' ''ms-1'' sample_digest ''k-1'') (sample_fleet_store, ())"
proof (rule mission_dispatch_is_recorded)
  show "fs_missionDeployer sample_fleet = Some sample_agent" by (simp add: sample_fleet_def)
qed (simp add: guarded_deploy_def)

text \<open>
  C30: a known outcome gets recorded. The loop that stores the outcome of a dispatch goes on as long
  as other requests write the record first. When they write it at most \<open>f\<close> times more, \<open>f + 2\<close>
  rounds are enough: it returns, and unless the record is gone or another command's, it returns
  what the store holds; when the outcome is final, so is that.
\<close>

theorem mission_outcome_gets_recorded:
  assumes "writes_bounded svc (md_ID d) f" and "f (s, w) + 2 \<le> n"
  shows "\<exists>a s' w'. run_state (persistCorrelatedMissionDeploymentResult svc n d r) (s, w) = (Some a, (s', w'))
    \<and> (case a of
         Inr x \<Rightarrow> map_of (s_missionDeployments s') (md_ID d) = Some x
           \<and> (\<not> missionDeploymentRetryable (md_Status d) \<longrightarrow> \<not> missionDeploymentRetryable (md_Status x))
       | Inl e \<Rightarrow> \<not> (\<exists>c. map_of (s_missionDeployments s') (md_ID d) = Some c \<and> sameMissionDeploymentCommand c d))"
proof -
  from persist_returns [OF assms, of r] obtain a s' w' where
    "run_state (persistCorrelatedMissionDeploymentResult svc n d r) (s, w) = (Some a, (s', w'))" "outcome_answer d a s'"
    by auto
  then show ?thesis by (auto simp: outcome_answer_def simp del: map_of_eq_Some_iff)
qed

theorem mission_outcome_gets_recorded_witness:
  "\<exists>a s' w'. run_state (persistCorrelatedMissionDeploymentResult sample_fleet 2 expiring_deployment 7) (expiring_store, ())
     = (Some a, (s', w'))"
proof -
  have "writes_bounded sample_fleet (md_ID expiring_deployment) (\<lambda>_. 0)"
    by (simp add: writes_bounded_def sample_fleet_def)
  from mission_outcome_gets_recorded [OF this, where s = expiring_store and w = "()" and n = 2 and r = 7]
  show ?thesis by auto
qed

text \<open>
  C29: expiry fences the first dispatch. When a request goes on to dispatch a deployment that was
  never dispatched before and is not of unknown outcome, the last thing it did was to read the
  clock before the deployment's expiry.
\<close>

theorem first_dispatch_before_expiry:
  assumes "run_state (deploy_or_replay svc i mid dg k) \<sigma> = (Inr (d, m, replayed), \<sigma>')"
    and "\<not> md_DispatchStarted d" and "md_Status d \<noteq> MissionDeploymentOutcomeUnknown"
  shows "\<exists>\<tau> t. run_state (fs_now svc) \<tau> = (t, \<sigma>') \<and> t < md_ExpiresAt d"
  using deploy_or_replay_run [OF assms(1)] assms(2,3) by (simp add: dispatchable_def del: split_paired_Ex)

theorem first_dispatch_before_expiry_witness:
  "\<exists>d m r \<sigma>'. run_state (deploy_or_replay sample_fleet ''fl-1'' ''ms-1'' sample_digest ''k-1'') (sample_fleet_store, ())
      = (Inr (d, m, r), \<sigma>') \<and> (\<exists>\<tau> t. run_state (fs_now sample_fleet) \<tau> = (t, \<sigma>') \<and> t < md_ExpiresAt d)"
proof -
  have "md_Status sample_created \<noteq> MissionDeploymentOutcomeUnknown" by (simp add: sample_created_fields)
  from first_dispatch_before_expiry [OF sample_deploy _ this] sample_deploy sample_created_fields show ?thesis
    by (simp del: split_paired_Ex) blast
qed

text \<open>
  C36: the fence has a gap. A request may read the clock just before a deployment expires, find at
  its creation that another request has since recorded the expiry as an unknown outcome, and then
  take it for a deployment that was dispatched: it goes on to dispatch it, for the first time, after
  reading a time past its expiry.
\<close>

theorem expired_first_dispatch:
  "\<exists>d m s' t'. run_state (deploy_or_replay ticking_fleet ''fl-1'' ''ms-1'' sample_digest ''k-1'') (expiring_store, 9)
      = (Inr (d, m, True), (s', t'))
    \<and> \<not> md_DispatchStarted d \<and> md_ExpiresAt d \<le> t' - 1"
  using expired_run expired_fields by (simp del: split_paired_Ex)

end
