(* ===== verification/Flights.thy ===== *)
theory Flights
  imports Mission_Deployment
begin

text \<open>
  The writing requests of \<open>internal/service/fleet_service.go\<close>: aircraft, batteries and their
  installation, maintenance events, planned flights and their start. As in the other services,
  other requests may write the store before each of its calls. The property says what stands
  behind a started flight: the mission on board is the current one, read back from the aircraft.
\<close>

section \<open>Definitions\<close>

record InstallBatteryRequest =
  ibr_ID :: string
  ibr_OperatorID :: string
  ibr_BatteryID :: string
  ibr_InstalledAt :: time

record CreateFlightRequest =
  cfr_ID :: string
  cfr_OperatorID :: string
  cfr_Origin :: string
  cfr_Destination :: string
  cfr_MissionType :: string
  cfr_TelemetryURI :: string

fun FlightStatus_text :: "FlightStatus \<Rightarrow> string" where
  "FlightStatus_text FlightStatusPlanned = ''planned''"
| "FlightStatus_text FlightStatusActive = ''active''"
| "FlightStatus_text FlightStatusComplete = ''complete''"
| "FlightStatus_text FlightStatusAborted = ''aborted''"
| "FlightStatus_text FlightStatusInterrupted = ''interrupted''"
| "FlightStatus_text (FlightStatusOther s) = s"

text \<open>The loop of \<open>consistentOperatorID\<close>, with the operator found so far.\<close>

fun agreed_operator :: "string \<Rightarrow> string list \<Rightarrow> string result" where
  "agreed_operator operatorID [] = Inr operatorID"
| "agreed_operator operatorID (value # values) =
     (let v = TrimSpace value in
      if v = [] then agreed_operator operatorID values
      else if operatorID \<noteq> [] \<and> v \<noteq> operatorID
      then Inl (because ErrValidation ''operator_id does not match linked resources'')
      else agreed_operator v values)"

definition consistentOperatorID :: "string list \<Rightarrow> string result" where
  "consistentOperatorID values = agreed_operator [] values"

definition service_CreateAircraft :: "'w FleetService \<Rightarrow> Aircraft \<Rightarrow> ('w, go_error option) srv" where
  "service_CreateAircraft svc aircraft = durable_call svc (CreateAircraft aircraft)"

definition service_CreateBattery :: "'w FleetService \<Rightarrow> Battery \<Rightarrow> ('w, go_error option) srv" where
  "service_CreateBattery svc battery = durable_call svc (CreateBattery battery)"

definition service_RecordMaintenanceEvent :: "'w FleetService \<Rightarrow> MaintenanceEvent \<Rightarrow> ('w, go_error option) srv" where
  "service_RecordMaintenanceEvent svc event = durable_call svc (RecordMaintenanceEvent event)"

definition InstallBattery ::
  "'w FleetService \<Rightarrow> string \<Rightarrow> InstallBatteryRequest \<Rightarrow> ('w, BatteryInstallation result) srv" where
  "InstallBattery svc rawAircraftID req =
     (let aircraftID = TrimSpace rawAircraftID; ident = TrimSpace (ibr_ID req); batteryID = TrimSpace (ibr_BatteryID req) in
      if aircraftID = [] \<or> ident = [] \<or> batteryID = []
      then State_Monad.return (Inl (because ErrValidation ''aircraft_id, id, and battery_id are required''))
      else do {
        read \<leftarrow> durable_read svc (GetAircraft aircraftID);
        case read of
          Inl e \<Rightarrow> State_Monad.return (Inl (wrap ''get aircraft'' e))
        | Inr aircraft \<Rightarrow> do {
            read \<leftarrow> durable_read svc (GetBattery batteryID);
            case read of
              Inl e \<Rightarrow> State_Monad.return (Inl (wrap ''get battery'' e))
            | Inr battery \<Rightarrow>
              (case consistentOperatorID [ibr_OperatorID req, ac_OperatorID aircraft, bat_OperatorID battery] of
                 Inl e \<Rightarrow> State_Monad.return (Inl e)
               | Inr operatorID \<Rightarrow> do {
                   read \<leftarrow> durable_read svc (GetActiveBatteryInstallation aircraftID);
                   case read of
                     Inl e \<Rightarrow> State_Monad.return (Inl (wrap ''get active battery installation'' e))
                   | Inr (Some active) \<Rightarrow> State_Monad.return (Inl (because ErrVersionConflict
                       (''aircraft '' @ aircraftID @ '' already has active installation '' @ bi_ID active)))
                   | Inr None \<Rightarrow> do {
                       installedAt \<leftarrow> (if IsZero (ibr_InstalledAt req) then fs_now svc
                         else State_Monad.return (ibr_InstalledAt req));
                       let installation = \<lparr>bi_ID = ident, bi_OperatorID = operatorID, bi_AircraftID = aircraftID,
                         bi_BatteryID = batteryID, bi_InstalledAt = installedAt, bi_RemovedAt = None\<rparr>;
                       err \<leftarrow> durable_call svc (RecordBatteryInstallation installation);
                       State_Monad.return (case err of
                           Some e \<Rightarrow> Inl (wrap ''record battery installation'' e)
                         | None \<Rightarrow> Inr installation)
                     }
                 })
          }
      })"

definition planned_flight :: "OperationalIntent \<Rightarrow> string \<Rightarrow> string \<Rightarrow> CreateFlightRequest \<Rightarrow> FlightRecord" where
  "planned_flight intent ident operatorID req = zero_FlightRecord\<lparr>
     fl_ID := ident, fl_OperatorID := operatorID, fl_AircraftID := oi_AircraftID intent,
     fl_IntentID := oi_ID intent, fl_IntentVersion := oi_Version intent, fl_Status := FlightStatusPlanned,
     fl_Origin := cfr_Origin req, fl_Destination := cfr_Destination req, fl_MissionType := cfr_MissionType req,
     fl_TelemetryURI := cfr_TelemetryURI req\<rparr>"

definition CreatePlannedFlight ::
  "'w FleetService \<Rightarrow> string \<Rightarrow> CreateFlightRequest \<Rightarrow> ('w, FlightRecord result) srv" where
  "CreatePlannedFlight svc rawIntentID req =
     (let intentID = TrimSpace rawIntentID; ident = TrimSpace (cfr_ID req) in
      if intentID = [] \<or> ident = []
      then State_Monad.return (Inl (because ErrValidation ''intent_id and id are required''))
      else do {
        read \<leftarrow> durable_read svc (GetOperationalIntent intentID);
        case read of
          Inl e \<Rightarrow> State_Monad.return (Inl (wrap ''get operational intent'' e))
        | Inr intent \<Rightarrow>
          if oi_Status intent \<noteq> IntentStatusAccepted \<and> oi_Status intent \<noteq> IntentStatusActive
          then State_Monad.return (Inl (because ErrInvalidTransition
                 (''cannot create flight for intent in '' @ IntentStatus_text (oi_Status intent) @ '' status'')))
          else do {
            read \<leftarrow> durable_read svc (GetAircraft (oi_AircraftID intent));
            case read of
              Inl e \<Rightarrow> State_Monad.return (Inl (wrap ''get aircraft'' e))
            | Inr aircraft \<Rightarrow>
              (case consistentOperatorID [cfr_OperatorID req, oi_OperatorID intent, ac_OperatorID aircraft] of
                 Inl e \<Rightarrow> State_Monad.return (Inl e)
               | Inr operatorID \<Rightarrow> do {
                   let flight = planned_flight intent ident operatorID req;
                   err \<leftarrow> durable_call svc (CreateFlightRecord flight);
                   State_Monad.return (case err of
                       Some e \<Rightarrow> Inl (wrap ''create flight record'' e)
                     | None \<Rightarrow> Inr flight)
                 })
          }
      })"

text \<open>The write that starts a flight, and the answer when another request was faster.\<close>

definition start_write :: "'w FleetService \<Rightarrow> string \<Rightarrow> FlightRecord \<Rightarrow> ('w, FlightRecord result) srv" where
  "start_write svc flightID flight = do {
     err \<leftarrow> durable_call svc (StartFlightWithCurrentMissionDeployment flight FlightStatusPlanned);
     case err of
       None \<Rightarrow> State_Monad.return (Inr flight)
     | Some e \<Rightarrow>
         if errors_Is e ErrVersionConflict then do {
           read \<leftarrow> durable_read svc (GetFlightRecord flightID);
           State_Monad.return (case read of
               Inr current \<Rightarrow> if fl_Status current = FlightStatusActive then Inr current else Inl (wrap ''start flight record'' e)
             | Inl _ \<Rightarrow> Inl (wrap ''start flight record'' e))
         }
         else State_Monad.return (Inl (wrap ''start flight record'' e))
   }"

definition StartFlight :: "'w FleetService \<Rightarrow> string \<Rightarrow> ('w, FlightRecord result) srv" where
  "StartFlight svc rawFlightID =
     (let flightID = TrimSpace rawFlightID in
      if flightID = [] then State_Monad.return (Inl (because ErrValidation ''flight_id is required''))
      else do {
        read \<leftarrow> durable_read svc (GetFlightRecord flightID);
        case read of
          Inl e \<Rightarrow> State_Monad.return (Inl (wrap ''get flight record'' e))
        | Inr flight \<Rightarrow>
          if fl_Status flight = FlightStatusActive then State_Monad.return (Inr flight)
          else if fl_Status flight \<noteq> FlightStatusPlanned
          then State_Monad.return (Inl (because ErrInvalidTransition
                 (''cannot start flight in '' @ FlightStatus_text (fl_Status flight) @ '' status'')))
          else do {
            read \<leftarrow> durable_read svc (GetOperationalIntent (fl_IntentID flight));
            case read of
              Inl e \<Rightarrow> State_Monad.return (Inl (wrap ''get operational intent'' e))
            | Inr intent \<Rightarrow>
              if oi_Status intent \<noteq> IntentStatusActive \<or> oi_Version intent \<noteq> fl_IntentVersion flight
                 \<or> oi_AircraftID intent \<noteq> fl_AircraftID flight
              then State_Monad.return (Inl (because ErrInvalidTransition ''linked intent version is not active''))
              else do {
                now \<leftarrow> fs_now svc;
                start_write svc flightID (flight\<lparr>fl_Status := FlightStatusActive, fl_StartedAt := now\<rparr>)
              }
          }
      })"

subsection \<open>What is kept\<close>

text \<open>The planned flight \<open>f\<close> waits for its start, in a store in order.\<close>

definition flight_waits :: "FlightRecord \<Rightarrow> Store \<Rightarrow> bool" where
  "flight_waits f s \<longleftrightarrow> flights_ok s \<and> one_airborne s \<and> readbacks_ok s
     \<and> map_of (s_flightRecords s) (fl_ID f) = Some f \<and> fl_Status f = FlightStatusPlanned"

text \<open>Behind the flight \<open>f\<close> is an active intent and the current mission, read back from its aircraft.\<close>

definition mission_on_board :: "FlightRecord \<Rightarrow> Store \<Rightarrow> bool" where
  "mission_on_board f s \<longleftrightarrow> (\<exists>i m d.
     GetOperationalIntent (fl_IntentID f) s = Inr i \<and> oi_Status i = IntentStatusActive
     \<and> oi_Version i = fl_IntentVersion f \<and> oi_AircraftID i = fl_AircraftID f
     \<and> GetCurrentMissionForFlight (fl_ID f) s = Inr m
     \<and> d \<in> set (vals (s_missionDeployments s)) \<and> md_FlightID d = fl_ID f \<and> md_MissionID d = ms_ID m
     \<and> deployment_verified d \<and> md_OnboardMissionDigest d = ms_MissionDigest m)"

text \<open>A planned flight whose mission was read back.\<close>

definition boarded_store :: Store where
  "boarded_store = sample_ready_store\<lparr>s_missionDeployments :=
     [(''dep-1'', sample_deployment\<lparr>md_Status := MissionDeploymentApplied, md_OnboardMissionDigest := ''d1''\<rparr>)]\<rparr>"

section \<open>Lemmas\<close>

lemma agreed_operator_iff:
  "agreed_operator oid vs = Inr r \<longleftrightarrow>
     (\<forall>v \<in> set vs. TrimSpace v \<noteq> [] \<longrightarrow> TrimSpace v = r) \<and> (oid \<noteq> [] \<longrightarrow> r = oid)
     \<and> (oid = [] \<and> (\<forall>v \<in> set vs. TrimSpace v = []) \<longrightarrow> r = [])"
  by (induction vs arbitrary: oid) (auto simp: Let_def)

lemma consistentOperatorID_iff:
  "consistentOperatorID vs = Inr r \<longleftrightarrow>
     (\<forall>v \<in> set vs. TrimSpace v \<noteq> [] \<longrightarrow> TrimSpace v = r) \<and> ((\<forall>v \<in> set vs. TrimSpace v = []) \<longrightarrow> r = [])"
  by (simp add: consistentOperatorID_def agreed_operator_iff)

lemma current_mission_frame:
  "s_missions s' = s_missions s \<Longrightarrow> GetCurrentMissionForFlight i s' = GetCurrentMissionForFlight i s"
  by (simp add: GetCurrentMissionForFlight_def currentMissionForFlightLocked_def)

lemma start_puts_mission_on_board:
  assumes "flight_waits f s" and "g = f\<lparr>fl_Status := FlightStatusActive, fl_StartedAt := t\<rparr>"
    and "StartFlightWithCurrentMissionDeployment g FlightStatusPlanned s = (None, s')"
  shows "map_of (s_flightRecords s') (fl_ID f) = Some g \<and> one_airborne s' \<and> mission_on_board g s'"
proof -
  have g: "fl_ID g = fl_ID f" "fl_AircraftID g = fl_AircraftID f" "fl_IntentID g = fl_IntentID f"
    "fl_IntentVersion g = fl_IntentVersion f" "fl_Status g = FlightStatusActive" by (simp_all add: assms(2))
  have inv: "flights_ok s" "one_airborne s" "readbacks_ok s" "map_of (s_flightRecords s) (fl_ID f) = Some f"
    using assms(1) by (simp_all add: flight_waits_def del: map_of_eq_Some_iff)
  obtain i m d where i: "latestOperationalIntent s (fl_IntentID f) = Some i" "oi_Status i = IntentStatusActive"
      "oi_Version i = fl_IntentVersion f" "oi_AircraftID i = fl_AircraftID f"
    and free: "\<not> list_ex (\<lambda>(k, h). k \<noteq> fl_ID f \<and> fl_AircraftID h = fl_AircraftID f
         \<and> fl_Status h = FlightStatusActive) (s_flightRecords s)"
    and m: "currentMissionForFlightLocked s (fl_ID f) = Some m"
    and d: "d \<in> set (vals (s_missionDeployments s))" "md_FlightID d = fl_ID f" "md_MissionID d = ms_ID m"
      "md_MissionDigest d = ms_MissionDigest m" "deployment_verified d"
    and s': "s' = s\<lparr>s_flightRecords := AList.update (fl_ID g) g (s_flightRecords s)\<rparr>"
    using assms(3) inv(4) unfolding g(1) [symmetric]
    by (elim start_flight_ok) (auto dest!: select_best_in simp: g simp del: map_of_eq_Some_iff)
  have kf: "keyed fl_ID (s_flightRecords s)" using inv(1) by (simp add: flights_ok_def)
  have "fl_Status h \<noteq> FlightStatusActive"
    if "h \<in> set (vals (s_flightRecords s))" "fl_ID h \<noteq> fl_ID f" "fl_AircraftID h = fl_AircraftID f" for h
    using free that kf by (fastforce simp: list_ex_iff vals_def keyed_def list_all_iff)
  then have "one_airborne s'"
    using inv(2) vals_put [OF kf, of g] unfolding one_airborne_def by (auto simp: s' g)
  moreover have "mission_on_board g s'"
    unfolding mission_on_board_def using i m d inv(3)
    by (auto simp: s' g GetOperationalIntent_def latestOperationalIntent_def GetCurrentMissionForFlight_def
        currentMissionForFlightLocked_def readbacks_ok_def readback_ok_def)
  ultimately show ?thesis by (simp add: s' g)
qed

lemma start_flight_error: "StartFlightWithCurrentMissionDeployment g st s = (Some e, s') \<Longrightarrow> s' = s"
  by (auto simp: StartFlightWithCurrentMissionDeployment_def Let_def split: option.splits if_splits)

lemma start_write_run:
  assumes "fleet_keeps (flight_waits f) svc" and "flight_waits f s"
    and "run_state (start_write svc (fl_ID f) (f\<lparr>fl_Status := FlightStatusActive, fl_StartedAt := t\<rparr>)) (s, w) = (Inr g, (s', w'))"
  shows "g = f\<lparr>fl_Status := FlightStatusActive, fl_StartedAt := t\<rparr>
    \<and> map_of (s_flightRecords s') (fl_ID f) = Some g \<and> one_airborne s' \<and> mission_on_board g s'"
proof -
  let ?g = "f\<lparr>fl_Status := FlightStatusActive, fl_StartedAt := t\<rparr>"
  have others: "keeps (flight_waits f) (fs_others svc)" using assms(1) by (simp add: fleet_keeps_def)
  obtain s1 w1 where o1: "run_state (fs_others svc) (s, w) = ((), (s1, w1))" by (cases "run_state (fs_others svc) (s, w)") auto
  have w1: "flight_waits f s1" by (rule keeps_run [OF others o1 assms(2)])
  obtain e s2 where e: "StartFlightWithCurrentMissionDeployment ?g FlightStatusPlanned s1 = (e, s2)" by force
  show ?thesis
  proof (cases e)
    case None
    with assms(3) o1 e have "g = ?g" "s' = s2" by (auto simp: start_write_def durable_call_def)
    with start_puts_mission_on_board [OF w1 _ e [unfolded None]] show ?thesis by blast
  next
    case (Some x)
    have "s2 = s1" using start_flight_error [OF e [unfolded Some]] .
    obtain s3 w3 where o3: "run_state (fs_others svc) (s1, w1) = ((), (s3, w3))" by (cases "run_state (fs_others svc) (s1, w1)") auto
    have "flight_waits f s3" by (rule keeps_run [OF others o3 w1])
    then have "GetFlightRecord (fl_ID f) s3 = Inr f" "fl_Status f \<noteq> FlightStatusActive"
      by (simp_all add: flight_waits_def GetFlightRecord_def del: map_of_eq_Some_iff)
    with assms(3) o1 e o3 Some \<open>s2 = s1\<close> have False
      by (auto simp: start_write_def durable_call_def durable_read_def split: if_splits)
    then show ?thesis ..
  qed
qed

section \<open>Properties\<close>

text \<open>
  C23: a started flight has its mission on board. When \<open>StartFlight\<close> answers a request for a planned
  flight with success, and other requests leave that flight to it, the flight is stored as active,
  its intent is active in the version it was planned for, and a verified deployment of its current
  mission says that the aircraft read back the digest of just that mission; still no aircraft has
  two active flights.
\<close>

theorem started_flight_has_mission_on_board:
  assumes "fleet_keeps (flight_waits f) svc" and "flight_waits f s"
    and "run_state (StartFlight svc i) (s, w) = (Inr g, (s', w'))" and "TrimSpace i = fl_ID f"
  shows "(\<exists>t. g = f\<lparr>fl_Status := FlightStatusActive, fl_StartedAt := t\<rparr>)
    \<and> GetFlightRecord (fl_ID f) s' = Inr g \<and> one_airborne s' \<and> mission_on_board g s'"
proof -
  have others: "keeps (flight_waits f) (fs_others svc)" and now: "keeps (flight_waits f) (fs_now svc)"
    using assms(1) by (simp_all add: fleet_keeps_def)
  obtain s1 w1 where o1: "run_state (fs_others svc) (s, w) = ((), (s1, w1))" by (cases "run_state (fs_others svc) (s, w)") auto
  have w1: "flight_waits f s1" by (rule keeps_run [OF others o1 assms(2)])
  obtain s2 w2 where o2: "run_state (fs_others svc) (s1, w1) = ((), (s2, w2))" by (cases "run_state (fs_others svc) (s1, w1)") auto
  have w2: "flight_waits f s2" by (rule keeps_run [OF others o2 w1])
  obtain t s3 w3 where n: "run_state (fs_now svc) (s2, w2) = (t, (s3, w3))" by (cases "run_state (fs_now svc) (s2, w2)") auto
  have w3: "flight_waits f s3" by (rule keeps_run [OF now n w2])
  have "GetFlightRecord (fl_ID f) s1 = Inr f" "fl_Status f = FlightStatusPlanned"
    using w1 by (simp_all add: flight_waits_def GetFlightRecord_def del: map_of_eq_Some_iff)
  with assms(3,4) o1 o2 n
  have "run_state (start_write svc (fl_ID f) (f\<lparr>fl_Status := FlightStatusActive, fl_StartedAt := t\<rparr>)) (s3, w3)
      = (Inr g, (s', w'))"
    by (auto simp: StartFlight_def Let_def durable_read_def split: if_splits sum.splits)
  from start_write_run [OF assms(1) w3 this] show ?thesis
    by (auto simp: GetFlightRecord_def simp del: map_of_eq_Some_iff)
qed

theorem started_flight_has_mission_on_board_witness:
  "\<exists>g s' w'. run_state (StartFlight sample_fleet ''fl-1'') (boarded_store, ()) = (Inr g, (s', w')) \<and> mission_on_board g s'"
proof -
  have waits: "flight_waits sample_flight boarded_store"
    by (simp add: flight_waits_def boarded_store_def sample_ready_store_def store_intent_def NewStore_def
      flights_ok_def keyed_def one_airborne_def vals_def readbacks_ok_def readback_ok_def sample_flight_def sample_deployment_def)
  have keeps: "fleet_keeps (flight_waits sample_flight) sample_fleet"
    by (simp add: fleet_keeps_def sample_fleet_def sample_agent_def)
  have "fst (StartFlightWithCurrentMissionDeployment (sample_flight\<lparr>fl_Status := FlightStatusActive, fl_StartedAt := 5\<rparr>)
      FlightStatusPlanned boarded_store) = None" by code_simp
  moreover have "GetFlightRecord ''fl-1'' boarded_store = Inr sample_flight"
    "GetOperationalIntent ''op-1'' boarded_store = Inr (sample_intent\<lparr>oi_Status := IntentStatusActive\<rparr>)" by code_simp+
  ultimately have "\<exists>g s' w'. run_state (StartFlight sample_fleet ''fl-1'') (boarded_store, ()) = (Inr g, (s', w'))"
    by (simp add: StartFlight_def start_write_def durable_read_def durable_call_def Let_def sample_fleet_def sample_texts
      sample_flight_def sample_intent_def)
  then obtain g s' w' where run: "run_state (StartFlight sample_fleet ''fl-1'') (boarded_store, ()) = (Inr g, (s', w'))" by blast
  have "TrimSpace ''fl-1'' = fl_ID sample_flight" by (simp add: sample_texts sample_flight_def)
  from started_flight_has_mission_on_board [OF keeps waits run this] run show ?thesis by blast
qed

end
