(* ===== verification/Mission_Import.thy ===== *)
theory Mission_Import
  imports Flights Deconfliction
begin

text \<open>
  \<open>internal/service/mission_import.go\<close>: the parser of WPL 110 mission files and the request that
  binds a parsed mission to a planned flight and checks it against the authorized volume. The
  digest of a plan (\<open>missiondigest\<close>, a third-party package) is a parameter, as are \<open>sha256\<close> and the
  decoded geometry. Arithmetic on altitudes and coordinates is rounded as \<open>float32\<close> and \<open>float64\<close>.
  Properties: every accepted mission is well formed and flyable, a printed route parses back to
  itself, and an imported mission stays inside the volume its intent was authorized for.
\<close>

section \<open>Definitions\<close>

subsection \<open>Findings\<close>

definition maxMissionSourceBytes :: nat where
  "maxMissionSourceBytes = 1048576"

definition maxMissionLineBytes :: nat where
  "maxMissionLineBytes = 4096"

definition maxMissionItems :: int where
  "maxMissionItems = 200"

definition supportedMissionCommands :: "(int \<times> string) list" where
  "supportedMissionCommands = [(16, ''NAV_WAYPOINT''), (21, ''NAV_LAND''), (22, ''NAV_TAKEOFF'')]"

definition supportedMissionFrames :: "(int \<times> string) list" where
  "supportedMissionFrames = [(0, ''GLOBAL'')]"

record ImportMissionRequest =
  imr_SourceFormat :: MissionSourceFormat
  imr_Source :: string
  imr_AircraftID :: string
  imr_IntentID :: string
  imr_IntentVersion :: int

record ImportMissionResult =
  imp_Mission :: Mission
  imp_Replayed :: bool

definition missionFinding :: "string \<Rightarrow> string \<Rightarrow> int option \<Rightarrow> MissionValidationFinding" where
  "missionFinding code message sequence =
     \<lparr>mvf_Severity = ''error'', mvf_Code = code, mvf_Message = message, mvf_Sequence = sequence\<rparr>"

definition missionWarning :: "string \<Rightarrow> string \<Rightarrow> MissionValidationFinding" where
  "missionWarning code message =
     \<lparr>mvf_Severity = ''warning'', mvf_Code = code, mvf_Message = message, mvf_Sequence = None\<rparr>"

subsection \<open>Altitudes\<close>

definition missionAltitudeCMInInt32Range :: "real \<Rightarrow> bool" where
  "missionAltitudeCMInInt32Range scaled \<longleftrightarrow> - (2 ^ 31) \<le> scaled \<and> scaled < 2 ^ 31"

text \<open>The conversion \<open>int32(x)\<close> of a number in range truncates toward zero.\<close>

definition trunc_int32 :: "real \<Rightarrow> int" where
  "trunc_int32 x = (if x < 0 then \<lceil>x\<rceil> else \<lfloor>x\<rfloor>)"

definition missionAltitudeCMRoundTrips :: "real \<Rightarrow> bool" where
  "missionAltitudeCMRoundTrips altitudeM =
     (case float32 altitudeM of
        None \<Rightarrow> False
      | Some canonical \<Rightarrow>
      case float32 (canonical * 100) of
        None \<Rightarrow> False
      | Some scaled \<Rightarrow>
          if \<not> missionAltitudeCMInInt32Range scaled then False
          else
            let altitudeCM = trunc_int32 scaled
            in (case float32 (real_of_int altitudeCM) of
                  None \<Rightarrow> False
                | Some cm \<Rightarrow>
                case float32 (1 / 100) of
                  None \<Rightarrow> False
                | Some hundredth \<Rightarrow> float32 (cm * hundredth) = Some canonical))"

subsection \<open>Rows\<close>

text \<open>
  A field of the row, or zero and a finding. The loops over the fields of one kind are maps over
  their indices.
\<close>

definition int_field :: "int \<Rightarrow> int \<Rightarrow> string list \<Rightarrow> nat \<Rightarrow> int \<times> MissionValidationFinding list" where
  "int_field lineNumber seq fs index =
     (case Atoi (fs ! index) of
        Some value \<Rightarrow> (value, [])
      | None \<Rightarrow> (0, [missionFinding ''invalid_integer''
          (''line '' @ itoa lineNumber @ '' field '' @ itoa (int index + 1) @ '' is not an integer'') (Some seq)]))"

definition number_field :: "int \<Rightarrow> int \<Rightarrow> string list \<Rightarrow> nat \<Rightarrow> real \<times> MissionValidationFinding list" where
  "number_field lineNumber seq fs index =
     (case ParseFloat (fs ! index) of
        Some value \<Rightarrow> (value, [])
      | None \<Rightarrow> (0, [missionFinding ''invalid_number''
          (''line '' @ itoa lineNumber @ '' field '' @ itoa (int index + 1) @ '' must be finite'') (Some seq)]))"

definition param_findings :: "int \<Rightarrow> int \<Rightarrow> real list \<Rightarrow> MissionValidationFinding list" where
  "param_findings lineNumber seq values =
     concat (map (\<lambda>index. if float32 (values ! index) = None
       then [missionFinding ''number_out_of_float32_range'' (''line '' @ itoa lineNumber @ '' field ''
         @ itoa (int index + 5) @ '' cannot be represented by MAVLink float32'') (Some seq)]
       else []) [0, 1, 2, 3])"

definition canonical_altitude :: "int \<Rightarrow> int \<Rightarrow> real \<Rightarrow> real \<times> MissionValidationFinding list" where
  "canonical_altitude lineNumber seq value =
     (case float32 value of
        Some canonical \<Rightarrow> (canonical, [])
      | None \<Rightarrow> (value, [missionFinding ''number_out_of_float32_range'' (''line '' @ itoa lineNumber
          @ '' field 11 cannot be represented by MAVLink float32'') (Some seq)]))"

definition finding_unless :: "bool \<Rightarrow> string \<Rightarrow> string \<Rightarrow> int \<Rightarrow> MissionValidationFinding list" where
  "finding_unless ok code message seq = (if ok then [] else [missionFinding code message (Some seq)])"

text \<open>
  \<open>int32(math.Round(v * 1e7))\<close>. Go leaves the conversion of a number out of range open; a coordinate
  so large comes with a finding and its item is dropped.
\<close>

definition degrees_e7 :: "real \<Rightarrow> int" where
  "degrees_e7 v = (case float64 (v * 10000000) of None \<Rightarrow> 0 | Some x \<Rightarrow> math_Round x)"

definition parseWPLItem :: "string list \<Rightarrow> int \<Rightarrow> int \<Rightarrow> MissionItem \<times> MissionValidationFinding list" where
  "parseWPLItem fs expectedSequence lineNumber =
     (let seq = expectedSequence; line = ''line '' @ itoa lineNumber;
          parsed_ints = map (int_field lineNumber seq fs) [0, 1, 2, 3];
          parsed_values = map (number_field lineNumber seq fs) [4, 5, 6, 7, 8, 9, 10];
          ints = map fst parsed_ints; values = map fst parsed_values;
          (altitude, altitude_findings) = canonical_altitude lineNumber seq (values ! 6);
          autoContinue = Atoi (fs ! 11)
      in (\<lparr>mi_Sequence = ints ! 0, mi_Current = (ints ! 1 = 1), mi_Frame = ints ! 2, mi_Command = ints ! 3,
           mi_Param1 = values ! 0, mi_Param2 = values ! 1, mi_Param3 = values ! 2, mi_Param4 = values ! 3,
           mi_LatitudeE7 = degrees_e7 (values ! 4), mi_LongitudeE7 = degrees_e7 (values ! 5),
           mi_AltitudeM = altitude, mi_Autocontinue = (autoContinue = Some 1)\<rparr>,
          concat (map snd parsed_ints) @ concat (map snd parsed_values)
          @ param_findings lineNumber seq values @ altitude_findings
          @ finding_unless (autoContinue = Some 0 \<or> autoContinue = Some 1) ''invalid_auto_continue''
              (line @ '' auto_continue must be 0 or 1'') seq
          @ finding_unless (ints ! 0 = expectedSequence) ''non_contiguous_sequence''
              (line @ '' sequence must be '' @ itoa expectedSequence) seq
          @ finding_unless (ints ! 1 = 0 \<or> ints ! 1 = 1) ''invalid_current''
              (line @ '' current must be 0 or 1'') seq
          @ finding_unless (map_of supportedMissionFrames (ints ! 2) \<noteq> None) ''unsupported_frame''
              (line @ '' frame '' @ itoa (ints ! 2) @ '' is not supported'') seq
          @ finding_unless (map_of supportedMissionCommands (ints ! 3) \<noteq> None) ''unsupported_command''
              (line @ '' MAVLink command '' @ itoa (ints ! 3) @ '' is not supported'') seq
          @ finding_unless (\<not> (values ! 4 < -90 \<or> values ! 4 > 90)) ''latitude_out_of_range''
              (line @ '' latitude must be between -90 and 90'') seq
          @ finding_unless (\<not> (values ! 5 < -180 \<or> values ! 5 > 180)) ''longitude_out_of_range''
              (line @ '' longitude must be between -180 and 180'') seq
          @ finding_unless (\<not> (altitude < -1000 \<or> altitude > 10000)) ''altitude_out_of_range''
              (line @ '' altitude must be between -1000 and 10000 metres'') seq))"

subsection \<open>Files\<close>

text \<open>What the loop of \<open>parseWPL110\<close> adds to the findings of a row, and its canonical landing.\<close>

definition params_zero :: "MissionItem \<Rightarrow> bool" where
  "params_zero item \<longleftrightarrow> mi_Param1 item = 0 \<and> mi_Param2 item = 0 \<and> mi_Param3 item = 0"

definition canonical_params ::
  "int \<Rightarrow> MissionItem \<Rightarrow> MissionItem \<times> MissionValidationFinding list" where
  "canonical_params rows item =
     (let row = itoa rows in
      if mi_Command item = 21 then
        if \<not> params_zero item \<or> (mi_Param4 item \<noteq> 0 \<and> mi_Param4 item \<noteq> 1)
        then (item, [missionFinding ''nonzero_parameters_unsupported'' (''WPL LAND source row '' @ row
                @ '' requires params 1 through 3 zero and param 4 zero or one'') (Some (rows - 1))])
        else (item\<lparr>mi_Param4 := 1\<rparr>, [])
      else if \<not> params_zero item \<or> mi_Param4 item \<noteq> 0
      then (item, [missionFinding ''nonzero_parameters_unsupported'' (''WPL source row '' @ row
              @ '' params 1 through 4 must be zero in the first ArduPilot slice'') (Some (rows - 1))])
      else (item, []))"

definition check_row ::
  "int \<Rightarrow> MissionItem \<Rightarrow> MissionValidationFinding list \<Rightarrow> MissionItem \<times> MissionValidationFinding list" where
  "check_row rows item findings =
     (let row = itoa rows;
          findings = findings @ (if rows = 0 \<and> (\<not> mi_Current item \<or> mi_Frame item \<noteq> 0 \<or> mi_Command item \<noteq> 16)
            then [missionFinding ''invalid_home_metadata''
              ''WPL row 0 must be HOME metadata with sequence 0, current 1, frame 0, and command 16'' (Some 0)]
            else []);
          findings = findings @ (if findings = [] \<and> rows > 0 \<and> mi_Current item
            then [missionFinding ''operational_item_marked_current''
              (''WPL source row '' @ row @ '' must set current to 0'') (Some (rows - 1))]
            else [])
      in if rows > 0 then
           let autocontinue = finding_unless (mi_Autocontinue item) ''autocontinue_required''
                 (''WPL source row '' @ row @ '' must set autocontinue to 1'') (rows - 1);
               (item, params) = canonical_params rows item;
               altitude = finding_unless (missionAltitudeCMRoundTrips (mi_AltitudeM item))
                 ''altitude_not_centimeter_roundtrippable''
                 (''WPL source row '' @ row @ '' altitude must round-trip through ArduPilot centimeter storage'') (rows - 1)
           in (item, findings @ autocontinue @ params @ altitude)
         else (item, findings))"

record wpl_state =
  wp_lineNumber :: int
  wp_items :: "MissionItem list"
  wp_findings :: "MissionValidationFinding list"
  wp_hasTakeoff :: bool
  wp_hasLanding :: bool
  wp_sourceItemCount :: int

definition add_finding :: "MissionValidationFinding \<Rightarrow> wpl_state \<Rightarrow> wpl_state" where
  "add_finding f st = st\<lparr>wp_findings := wp_findings st @ [f]\<rparr>"

definition wpl_row :: "string \<Rightarrow> wpl_state \<Rightarrow> wpl_state" where
  "wpl_row line st =
     (let fs = split_at (CHR 0x09) line; rows = wp_sourceItemCount st in
      if length fs \<noteq> 12 then
        add_finding (missionFinding ''invalid_field_count''
            (''line '' @ itoa (wp_lineNumber st) @ '' must contain 12 tab-separated fields'') (Some rows)) st
          \<lparr>wp_sourceItemCount := rows + 1\<rparr>
      else
        let (parsed, parse_findings) = parseWPLItem fs rows (wp_lineNumber st);
            (item, findings) = check_row rows parsed parse_findings;
            st = st\<lparr>wp_findings := wp_findings st @ findings, wp_sourceItemCount := rows + 1\<rparr>
        in if findings = [] \<and> rows > 0 then
             st\<lparr>wp_items := wp_items st @ [item\<lparr>mi_Sequence := rows - 1\<rparr>],
                wp_hasTakeoff := wp_hasTakeoff st \<or> mi_Command item = 22,
                wp_hasLanding := wp_hasLanding st \<or> mi_Command item = 21\<rparr>
           else st)"

text \<open>\<open>strings.TrimSuffix(s, "\r")\<close>, which \<open>bufio.ScanLines\<close> does to every line as well.\<close>

definition trim_cr :: "string \<Rightarrow> string" where
  "trim_cr s = (if s \<noteq> [] \<and> last s = CHR 0x0D then butlast s else s)"

text \<open>
  The lines of \<open>bufio.Scanner\<close> over the source, and whether it stops at a line that does not fit its
  buffer: with the line feed, or before the end of the source is seen, it needs one byte more.
\<close>

function scan_lines :: "string \<Rightarrow> string list \<times> bool" where
  "scan_lines s =
     (if s = [] then ([], False)
      else
        let line = takeWhile (\<lambda>c. c \<noteq> CHR 0x0A) s; rest = drop (Suc (length line)) s
        in if length line \<ge> maxMissionLineBytes then ([], True)
           else (case scan_lines rest of (ls, tooLong) \<Rightarrow> (trim_cr line # ls, tooLong)))"
  by pat_completeness auto
termination by (relation "measure length") auto

declare scan_lines.simps [simp del]

text \<open>The loop over the lines, and the error of the scanner after it; a \<open>break\<close> leaves it without one.\<close>

fun wpl_lines :: "string list \<Rightarrow> bool \<Rightarrow> wpl_state \<Rightarrow> wpl_state \<times> bool" where
  "wpl_lines [] tooLong st = (st, tooLong)"
| "wpl_lines (text # texts) tooLong st =
     (let st = st\<lparr>wp_lineNumber := wp_lineNumber st + 1\<rparr>; line = trim_cr text in
      if wp_lineNumber st = 1 then
        wpl_lines texts tooLong (if line \<noteq> ''QGC WPL 110''
          then add_finding (missionFinding ''invalid_header'' ''first line must be exactly QGC WPL 110'' None) st else st)
      else if TrimSpace line = [] then wpl_lines texts tooLong st
      else if wp_sourceItemCount st > maxMissionItems then
        (add_finding (missionFinding ''too_many_items''
           (''mission may contain at most '' @ itoa maxMissionItems @ '' items'') None) st, False)
      else wpl_lines texts tooLong (wpl_row line st))"

definition start_wpl :: wpl_state where
  "start_wpl = \<lparr>wp_lineNumber = 0, wp_items = [], wp_findings = [], wp_hasTakeoff = False, wp_hasLanding = False,
     wp_sourceItemCount = 0\<rparr>"

definition final_findings :: "wpl_state \<Rightarrow> bool \<Rightarrow> MissionValidationFinding list" where
  "final_findings st tooLong = wp_findings st
     @ (if tooLong then [missionFinding ''line_too_long''
          (''mission line exceeds '' @ itoa (int maxMissionLineBytes) @ '' bytes'') None] else [])
     @ (if wp_lineNumber st = 0 then [missionFinding ''invalid_header'' ''first line must be exactly QGC WPL 110'' None] else [])
     @ (if wp_sourceItemCount st = 0
        then [missionFinding ''missing_home_metadata'' ''mission must contain WPL row 0 HOME metadata'' None] else [])
     @ (if wp_items st = []
        then [missionFinding ''empty_mission''
          ''mission must contain at least one operational item after HOME metadata'' None] else [])"

definition canonicalMissionSHA :: "(MissionPlan \<Rightarrow> string result) \<Rightarrow> MissionItem list \<Rightarrow> string result" where
  "canonicalMissionSHA digest items = digest (canonicalMissionPlan items)"

definition parseWPL110 ::
  "(string \<Rightarrow> string) \<Rightarrow> (MissionPlan \<Rightarrow> string result) \<Rightarrow> string
    \<Rightarrow> (MissionItem list \<times> MissionValidationFinding list \<times> string \<times> string) result" where
  "parseWPL110 sha256Hex digest source =
     (if source = [] \<or> length source > maxMissionSourceBytes
      then Inl (MissionValidationError [missionFinding ''source_size''
             (''source must contain 1 to '' @ itoa (int maxMissionSourceBytes) @ '' bytes'') None])
      else
        let sourceSHA = sha256Hex source;
            (ls, long_line) = scan_lines source;
            (st, tooLong) = wpl_lines ls long_line start_wpl;
            findings = final_findings st tooLong
        in if findings \<noteq> [] then Inl (MissionValidationError findings)
           else
             let warnings =
               (if wp_hasTakeoff st then [] else [missionWarning ''takeoff_not_declared'' ''mission contains no NAV_TAKEOFF item''])
               @ (if wp_hasLanding st then [] else [missionWarning ''landing_not_declared'' ''mission contains no NAV_LAND item''])
             in (case canonicalMissionSHA digest (wp_items st) of
                   Inl e \<Rightarrow> Inl (wrap ''encode canonical mission plan'' e)
                 | Inr d \<Rightarrow> Inr (wp_items st, warnings, d, sourceSHA)))"

subsection \<open>The authorized volume\<close>

definition altitude_findings :: "OperationalVolume \<Rightarrow> MissionItem list \<Rightarrow> MissionValidationFinding list" where
  "altitude_findings volume items =
     concat (map (\<lambda>item. if mi_AltitudeM item < ov_MinAltitudeM volume \<or> mi_AltitudeM item > ov_MaxAltitudeM volume
       then [missionFinding ''mission_altitude_outside_authorized_volume''
         (''item '' @ itoa (mi_Sequence item) @ '' altitude '' @ print3 (mi_AltitudeM item)
          @ '' m MSL is outside authorized range '' @ print3 (ov_MinAltitudeM volume) @ '' to ''
          @ print3 (ov_MaxAltitudeM volume) @ '' m MSL'') (Some (mi_Sequence item))]
       else []) items)"

definition coverage_findings :: "MissionCoverageResult \<Rightarrow> MissionValidationFinding list" where
  "coverage_findings coverage =
     map (\<lambda>sequence. missionFinding ''mission_item_outside_authorized_volume''
       (''item '' @ itoa sequence @ '' is outside the authorized footprint'') (Some sequence))
       (mcr_UncoveredItems coverage)
     @ map (\<lambda>sequence. missionFinding ''mission_segment_outside_authorized_volume''
       (''route segment '' @ itoa sequence @ '' to '' @ itoa (inc64 sequence) @ '' leaves the authorized footprint'')
       (Some sequence)) (mcr_UncoveredSegments coverage)"

definition volume_error :: "string \<Rightarrow> string \<Rightarrow> go_error" where
  "volume_error code message = MissionValidationError [missionFinding code message None]"

definition volume_mismatch :: "OperationalIntent \<Rightarrow> OperationalVolume \<Rightarrow> go_error option" where
  "volume_mismatch intent volume =
     (if ov_AltitudeRef volume \<noteq> AltitudeReferenceMSL
      then Some (volume_error ''unsupported_altitude_reference''
             ''first mission slice requires a GLOBAL WPL mission and MSL operational volume'')
      else if ov_StartsAt volume > oi_PlannedStartAt intent \<or> ov_EndsAt volume < oi_PlannedEndAt intent
      then Some (volume_error ''ambiguous_volume_time''
             ''the single operational volume must cover the entire intent window because WPL 110 has no waypoint schedule'')
      else None)"

definition coverage_error :: "MissionCoverageResult result \<Rightarrow> MissionValidationFinding list \<Rightarrow> go_error option" where
  "coverage_error checked findings =
     (case checked of
        Inl e \<Rightarrow>
          if errors_Is e ErrInvalidMissionCoverageGeometry
          then Some (volume_error ''authorized_geometry_not_evaluable''
                 ''authorized volume geometry is malformed or unsupported'')
          else Some (wrap ''check mission coverage against authorized volume'' e)
      | Inr coverage \<Rightarrow>
          let findings = findings @ coverage_findings coverage
          in if findings \<noteq> [] then Some (MissionValidationError findings) else None)"

definition validateMissionAgainstIntent ::
  "'w FleetService \<Rightarrow> mission_json \<Rightarrow> OperationalIntent \<Rightarrow> MissionItem list \<Rightarrow> ('w, go_error option) srv" where
  "validateMissionAgainstIntent svc json intent items = do {
     read \<leftarrow> durable_read svc (ListOperationalVolumes (oi_ID intent));
     case read of
       Inl e \<Rightarrow> State_Monad.return (Some (wrap ''list linked operational volumes'' e))
     | Inr allVolumes \<Rightarrow>
       let volumes = volumesForVersion allVolumes (oi_Version intent) in
       if length volumes \<noteq> 1 then State_Monad.return (Some (volume_error ''unsupported_volume_topology''
            (''first mission slice requires exactly one volume for intent version '' @ itoa (oi_Version intent)
             @ ''; found '' @ itoa (int (length volumes)))))
       else
         let volume = hd volumes in
         case volume_mismatch intent volume of
           Some e \<Rightarrow> State_Monad.return (Some e)
         | None \<Rightarrow> do {
             checked \<leftarrow> durable_read svc (\<lambda>_. CheckMissionCoverage json volume items);
             State_Monad.return (coverage_error checked (altitude_findings volume items))
           }
   }"

subsection \<open>Imports\<close>

definition import_request_hash ::
  "'w FleetService \<Rightarrow> string \<Rightarrow> string \<Rightarrow> string \<Rightarrow> int \<Rightarrow> string \<Rightarrow> string" where
  "import_request_hash svc flightID aircraftID intentID intentVersion source = fs_sha256Hex svc
     (join_strings [CHR 0x0A] [flightID, aircraftID, intentID, itoa intentVersion, ''qgc_wpl_110'', fs_sha256Hex svc source])"

text \<open>The flight's intent, in the version the flight is bound to, and the operator of the whole binding.\<close>

definition import_binding ::
  "'w FleetService \<Rightarrow> FlightRecord \<Rightarrow> ('w, (OperationalIntent \<times> string) result) srv" where
  "import_binding svc flight = do {
     read \<leftarrow> durable_read svc (GetOperationalIntentVersion (fl_IntentID flight) (fl_IntentVersion flight));
     case read of
       Inl e \<Rightarrow> State_Monad.return (Inl (wrap ''get linked operational intent version'' e))
     | Inr intent \<Rightarrow> do {
         read \<leftarrow> durable_read svc (GetOperationalIntent (fl_IntentID flight));
         case read of
           Inl e \<Rightarrow> State_Monad.return (Inl (wrap ''get current operational intent'' e))
         | Inr currentIntent \<Rightarrow>
           if oi_Version currentIntent \<noteq> fl_IntentVersion flight
           then State_Monad.return (Inl (because ErrInvalidTransition
                  (''flight is bound to superseded intent version '' @ itoa (fl_IntentVersion flight))))
           else if oi_AircraftID intent \<noteq> fl_AircraftID flight \<or> oi_AircraftID currentIntent \<noteq> fl_AircraftID flight
           then State_Monad.return (Inl (because ErrValidation
                  ''flight and operational-intent aircraft bindings disagree''))
           else if oi_Status intent \<noteq> IntentStatusAccepted \<and> oi_Status intent \<noteq> IntentStatusActive
           then State_Monad.return (Inl (because ErrInvalidTransition
                  ''mission import requires an accepted or active intent''))
           else do {
             read \<leftarrow> durable_read svc (GetAircraft (fl_AircraftID flight));
             State_Monad.return (case read of
                 Inl e \<Rightarrow> Inl (wrap ''get bound aircraft'' e)
               | Inr aircraft \<Rightarrow>
                 case consistentOperatorID [fl_OperatorID flight, oi_OperatorID intent, ac_OperatorID aircraft] of
                   Inl e \<Rightarrow> Inl e
                 | Inr operatorID \<Rightarrow>
                   if operatorID = []
                   then Inl (because ErrValidation ''bound operator_id is required for mission deployment'')
                   else Inr (intent, operatorID))
           }
       }
   }"

definition imported_mission ::
  "FlightRecord \<Rightarrow> string \<Rightarrow> string \<Rightarrow> string \<Rightarrow> string \<Rightarrow> string \<Rightarrow> MissionValidationFinding list \<Rightarrow> MissionItem list
    \<Rightarrow> string \<Rightarrow> time \<Rightarrow> Mission" where
  "imported_mission flight operatorID sourceSHA canonicalSHA idempotencyKey requestHash findings items ident now =
     zero_Mission\<lparr>ms_ID := ident, ms_OperatorID := operatorID, ms_FlightID := fl_ID flight,
       ms_AircraftID := fl_AircraftID flight, ms_IntentID := fl_IntentID flight,
       ms_IntentVersion := fl_IntentVersion flight, ms_SourceFormat := MissionSourceFormatQGCWPL110,
       ms_SourceSHA256 := sourceSHA, ms_MissionDigest := canonicalSHA, ms_IdempotencyKey := idempotencyKey,
       ms_IdempotencyRequest := requestHash, ms_ValidationFindings := findings, ms_Items := items, ms_CreatedAt := now\<rparr>"

text \<open>From the parsed mission to the stored one.\<close>

type_synonym parsed_mission = "MissionItem list \<times> MissionValidationFinding list \<times> string"

definition store_mission ::
  "'w FleetService \<Rightarrow> FlightRecord \<Rightarrow> string \<Rightarrow> string \<Rightarrow> string \<Rightarrow> string \<Rightarrow> parsed_mission
    \<Rightarrow> ('w, ImportMissionResult result) srv" where
  "store_mission svc flight operatorID idempotencyKey requestHash sourceSHA parsed = do {
     ident \<leftarrow> fs_newUUID svc;
     now \<leftarrow> fs_now svc;
     let mission = imported_mission flight operatorID sourceSHA (snd (snd parsed)) idempotencyKey requestHash
       (fst (snd parsed)) (fst parsed) ident now;
     stored \<leftarrow> durable_call svc (CreateMissionForPlannedFlight mission);
     State_Monad.return (case stored of
         Inl e \<Rightarrow> Inl (wrap ''create mission'' e)
       | Inr m \<Rightarrow> Inr \<lparr>imp_Mission = m, imp_Replayed = (ms_ID m \<noteq> ms_ID mission)\<rparr>)
   }"

definition check_and_store ::
  "'w FleetService \<Rightarrow> mission_json \<Rightarrow> FlightRecord \<Rightarrow> string \<Rightarrow> string \<Rightarrow> string \<Rightarrow> parsed_mission
    \<Rightarrow> ('w, ImportMissionResult result) srv" where
  "check_and_store svc json flight idempotencyKey requestHash sourceSHA parsed = do {
     bound \<leftarrow> import_binding svc flight;
     case bound of
       Inl e \<Rightarrow> State_Monad.return (Inl e)
     | Inr (intent, operatorID) \<Rightarrow> do {
         err \<leftarrow> validateMissionAgainstIntent svc json intent (fst parsed);
         case err of
           Some e \<Rightarrow> State_Monad.return (Inl e)
         | None \<Rightarrow> store_mission svc flight operatorID idempotencyKey requestHash sourceSHA parsed
       }
   }"

definition bind_mission ::
  "'w FleetService \<Rightarrow> mission_json \<Rightarrow> string \<Rightarrow> string \<Rightarrow> string \<Rightarrow> ImportMissionRequest \<Rightarrow> string \<Rightarrow> parsed_mission
    \<Rightarrow> ('w, ImportMissionResult result) srv" where
  "bind_mission svc json flightID idempotencyKey requestHash req sourceSHA parsed = do {
     read \<leftarrow> durable_read svc (GetFlightRecord flightID);
     case read of
       Inl e \<Rightarrow> State_Monad.return (Inl (wrap ''get flight record'' e))
     | Inr flight \<Rightarrow>
       if fl_Status flight \<noteq> FlightStatusPlanned
       then State_Monad.return (Inl (because ErrInvalidTransition
              (''missions may only be imported while flight '' @ fl_ID flight @ '' is planned'')))
       else if fl_AircraftID flight \<noteq> imr_AircraftID req \<or> fl_IntentID flight \<noteq> imr_IntentID req
          \<or> fl_IntentVersion flight \<noteq> imr_IntentVersion req
       then State_Monad.return (Inl (because ErrValidation
              ''requested mission binding does not match the flight's aircraft and exact intent version''))
       else check_and_store svc json flight idempotencyKey requestHash sourceSHA parsed
   }"

definition ImportMission ::
  "'w FleetService \<Rightarrow> mission_json \<Rightarrow> (MissionPlan \<Rightarrow> string result) \<Rightarrow> string \<Rightarrow> string \<Rightarrow> ImportMissionRequest
    \<Rightarrow> ('w, ImportMissionResult result) srv" where
  "ImportMission svc json digest rawFlightID rawKey rawReq =
     (let flightID = TrimSpace rawFlightID; idempotencyKey = TrimSpace rawKey;
          req = rawReq\<lparr>imr_AircraftID := TrimSpace (imr_AircraftID rawReq), imr_IntentID := TrimSpace (imr_IntentID rawReq)\<rparr> in
      if flightID = [] \<or> imr_AircraftID req = [] \<or> imr_IntentID req = [] \<or> imr_IntentVersion req \<le> 0
      then State_Monad.return (Inl (because ErrValidation
             ''flight_id, aircraft_id, intent_id, and positive intent_version are required''))
      else case validateIdempotencyKey idempotencyKey of
        Some e \<Rightarrow> State_Monad.return (Inl e)
      | None \<Rightarrow>
      if imr_SourceFormat req \<noteq> MissionSourceFormatQGCWPL110
      then State_Monad.return (Inl (because ErrValidation ''source_format must be \"qgc_wpl_110\"''))
      else do {
        let sourceSHA = fs_sha256Hex svc (imr_Source req);
        let requestHash = import_request_hash svc flightID (imr_AircraftID req) (imr_IntentID req) (imr_IntentVersion req)
          (imr_Source req);
        read \<leftarrow> durable_read svc (GetMissionByIdempotencyKey idempotencyKey);
        case read of
          Inr existing \<Rightarrow>
            if ms_IdempotencyRequest existing \<noteq> requestHash then State_Monad.return (Inl ErrIdempotencyConflict)
            else State_Monad.return (Inr \<lparr>imp_Mission = existing, imp_Replayed = True\<rparr>)
        | Inl e \<Rightarrow>
            if \<not> errors_Is e ErrNotFound
            then State_Monad.return (Inl (wrap ''get mission idempotency record'' e))
            else case parseWPL110 (fs_sha256Hex svc) digest (imr_Source req) of
              Inl e \<Rightarrow> State_Monad.return (Inl e)
            | Inr (items, findings, canonicalSHA, parsedSourceSHA) \<Rightarrow>
              if parsedSourceSHA \<noteq> sourceSHA
              then State_Monad.return (Inl (Errorf ''mission source hash changed during import'' []))
              else bind_mission svc json flightID idempotencyKey requestHash req sourceSHA (items, findings, canonicalSHA)
      })"

subsection \<open>What is accepted\<close>

text \<open>An item at position \<open>n\<close> that the autopilot of the first slice flies as it was read.\<close>

definition flyable :: "int \<Rightarrow> MissionItem \<Rightarrow> bool" where
  "flyable n item \<longleftrightarrow> mi_Sequence item = n \<and> \<not> mi_Current item \<and> mi_Autocontinue item
     \<and> mi_Frame item = 0 \<and> mi_Command item \<in> {16, 21, 22} \<and> params_zero item
     \<and> mi_Param4 item = (if mi_Command item = 21 then 1 else 0)
     \<and> \<bar>mi_LatitudeE7 item\<bar> \<le> 900000000 \<and> \<bar>mi_LongitudeE7 item\<bar> \<le> 1800000000
     \<and> -1000 \<le> mi_AltitudeM item \<and> mi_AltitudeM item \<le> 10000
     \<and> float32 (mi_AltitudeM item) = Some (mi_AltitudeM item)
     \<and> missionAltitudeCMRoundTrips (mi_AltitudeM item)"

definition wpl_inv :: "wpl_state \<Rightarrow> bool" where
  "wpl_inv st \<longleftrightarrow> 0 \<le> wp_sourceItemCount st \<and> wp_sourceItemCount st \<le> maxMissionItems + 1
     \<and> (wp_findings st = [] \<longrightarrow>
          int (length (wp_items st)) = max 0 (wp_sourceItemCount st - 1)
          \<and> (\<forall>n < length (wp_items st). flyable (int n) (wp_items st ! n))
          \<and> (wp_hasTakeoff st \<longleftrightarrow> (\<exists>item \<in> set (wp_items st). mi_Command item = 22))
          \<and> (wp_hasLanding st \<longleftrightarrow> (\<exists>item \<in> set (wp_items st). mi_Command item = 21)))"

subsection \<open>Printed routes\<close>

text \<open>
  A route in the units of the autopilot: coordinates in units of \<open>1e-7\<close> degrees, altitudes in
  centimetres. Its text has the HOME row first.
\<close>

record waypoint =
  wy_command :: int
  wy_latitudeE7 :: int
  wy_longitudeE7 :: int
  wy_altitudeCM :: int

definition row_fields :: "int \<Rightarrow> waypoint \<Rightarrow> string list" where
  "row_fields n w = [itoa n, itoa (if n = 0 then 1 else 0), itoa 0, itoa (wy_command w), itoa 0, itoa 0, itoa 0, itoa 0,
     decimal 7 (wy_latitudeE7 w), decimal 7 (wy_longitudeE7 w), decimal 2 (wy_altitudeCM w), itoa 1]"

definition row_text :: "int \<Rightarrow> waypoint \<Rightarrow> string" where
  "row_text n w = join_strings [CHR 0x09] (row_fields n w)"

fun row_texts :: "int \<Rightarrow> waypoint list \<Rightarrow> string list" where
  "row_texts n [] = []"
| "row_texts n (w # ws) = row_text n w # row_texts (n + 1) ws"

definition print_route :: "waypoint \<Rightarrow> waypoint list \<Rightarrow> string" where
  "print_route home route = join_strings [CHR 0x0A] (''QGC WPL 110'' # row_texts 0 (home # route))"

text \<open>What the decimals of a waypoint denote, and the item of a waypoint.\<close>

definition metres :: "int \<Rightarrow> real" where
  "metres k = the (float32 (the (float64 (real_of_int k / 10 ^ 2))))"

definition waypoint_item :: "int \<Rightarrow> waypoint \<Rightarrow> MissionItem" where
  "waypoint_item n w = \<lparr>mi_Sequence = n, mi_Current = False, mi_Frame = 0, mi_Command = wy_command w,
     mi_Param1 = 0, mi_Param2 = 0, mi_Param3 = 0, mi_Param4 = (if wy_command w = 21 then 1 else 0),
     mi_LatitudeE7 = wy_latitudeE7 w, mi_LongitudeE7 = wy_longitudeE7 w, mi_AltitudeM = metres (wy_altitudeCM w),
     mi_Autocontinue = True\<rparr>"

fun route_items :: "int \<Rightarrow> waypoint list \<Rightarrow> MissionItem list" where
  "route_items n [] = []"
| "route_items n (w # ws) = waypoint_item n w # route_items (n + 1) ws"

definition waypoint_ok :: "waypoint \<Rightarrow> bool" where
  "waypoint_ok w \<longleftrightarrow> wy_command w \<in> {16, 21, 22} \<and> \<bar>wy_latitudeE7 w\<bar> \<le> 900000000 \<and> \<bar>wy_longitudeE7 w\<bar> \<le> 1800000000
     \<and> -100000 \<le> wy_altitudeCM w \<and> wy_altitudeCM w \<le> 1000000"

definition sample_home :: waypoint where
  "sample_home = \<lparr>wy_command = 16, wy_latitudeE7 = 4999999, wy_longitudeE7 = -2500000, wy_altitudeCM = 48800\<rparr>"

definition sample_leg :: waypoint where
  "sample_leg = \<lparr>wy_command = 22, wy_latitudeE7 = 5000000, wy_longitudeE7 = 2500000, wy_altitudeCM = 10000\<rparr>"

subsection \<open>Missions inside their volume\<close>

definition inside_volume :: "mission_json \<Rightarrow> OperationalVolume \<Rightarrow> MissionItem list \<Rightarrow> bool" where
  "inside_volume json volume items \<longleftrightarrow> ov_AltitudeRef volume = AltitudeReferenceMSL
     \<and> (\<forall>item \<in> set items. ov_MinAltitudeM volume \<le> mi_AltitudeM item \<and> mi_AltitudeM item \<le> ov_MaxAltitudeM volume)
     \<and> (\<exists>polygon. decodeMissionPolygon json (ov_GeoJSON volume) = Inr polygon
          \<and> (\<forall>item \<in> set items. missionPolygonCoversPoint polygon (mission_point item))
          \<and> (\<forall>(i, j) \<in> set (edges items). missionPolygonCoversSegment polygon (mission_point i) (mission_point j)))"

text \<open>
  While an import runs: the volumes of the intent version, which an accepted intent keeps, and the
  identities that \<open>uuid\<close> has not given out yet.
\<close>

definition import_ready :: "string set \<Rightarrow> string \<Rightarrow> int \<Rightarrow> OperationalVolume list \<Rightarrow> Store \<Rightarrow> bool" where
  "import_ready fresh i v vs s \<longleftrightarrow> intents_ok s
     \<and> (\<exists>all. ListOperationalVolumes i s = Inr all \<and> volumesForVersion all v = vs)
     \<and> [] \<notin> fresh \<and> (\<forall>m \<in> set (vals (s_missions s)). ms_ID m \<notin> fresh)"

definition import_volume :: OperationalVolume where
  "import_volume = sample_volume\<lparr>ov_AltitudeRef := AltitudeReferenceMSL\<rparr>"

definition import_store :: Store where
  "import_store = store_intent (sample_intent\<lparr>oi_Status := IntentStatusAccepted, oi_OperatorID := ''o-1''\<rparr>) NewStore\<lparr>
     s_aircraft := [(''uav-1'', sample_aircraft)],
     s_flightRecords := [(''fl-1'', sample_flight\<lparr>fl_OperatorID := ''o-1''\<rparr>)],
     s_operationalVolumes := [(operationalVolumeKey import_volume, import_volume)]\<rparr>"

definition sample_import :: ImportMissionRequest where
  "sample_import = \<lparr>imr_SourceFormat = MissionSourceFormatQGCWPL110, imr_Source = print_route sample_home [sample_leg],
     imr_AircraftID = ''uav-1'', imr_IntentID = ''op-1'', imr_IntentVersion = 1\<rparr>"

abbreviation import_json :: mission_json where
  "import_json \<equiv> sample_decoder [[[0, 0], [1, 0], [1, 1], [0, 1], [0, 0]]]"

section \<open>Lemmas\<close>

subsection \<open>Accepted rows\<close>

lemma finding_unless_Nil [simp]: "finding_unless ok code message seq = [] \<longleftrightarrow> ok"
  by (simp add: finding_unless_def)

lemma degrees_e7_bounds:
  assumes "\<bar>v\<bar> \<le> real_of_int d" and "d \<le> 180"
  shows "\<bar>degrees_e7 v\<bar> \<le> d * 10000000"
proof -
  have "\<bar>v * 10000000\<bar> \<le> real_of_int (d * 10000000)" using assms(1) by (simp add: abs_mult)
  moreover have "real_of_int (d * 10000000) < 2 powi 31" using assms(2) by simp
  ultimately obtain r where r: "float64 (v * 10000000) = Some r" "\<bar>r - v * 10000000\<bar> \<le> 2 powi (31 - 54)"
    using float64_close [of "v * 10000000" 31] by fastforce
  have "\<bar>r\<bar> < real_of_int (d * 10000000) + 1 / 2"
  proof -
    have "2 powi (31 - 54) < (1 / 2 :: real)" by (simp add: power_int_minus)
    then show ?thesis using r(2) \<open>\<bar>v * 10000000\<bar> \<le> real_of_int (d * 10000000)\<close> by linarith
  qed
  then have "- (d * 10000000) \<le> \<lceil>r - 1 / 2\<rceil>" "\<lfloor>r + 1 / 2\<rfloor> \<le> d * 10000000"
    unfolding le_ceiling_iff floor_le_iff by (simp_all add: abs_less_iff)
  moreover have "r < 0 \<Longrightarrow> \<lceil>r - 1 / 2\<rceil> \<le> 0" "\<not> r < 0 \<Longrightarrow> 0 \<le> \<lfloor>r + 1 / 2\<rfloor>"
    unfolding ceiling_le_iff le_floor_iff by simp_all
  ultimately show ?thesis by (auto simp: degrees_e7_def r math_Round_def)
qed

lemma parsed_item_clean:
  assumes "parseWPLItem fs n line = (item, [])"
  shows "mi_Sequence item = n" "mi_Frame item = 0" "mi_Command item \<in> {16, 21, 22}"
    "\<bar>mi_LatitudeE7 item\<bar> \<le> 900000000" "\<bar>mi_LongitudeE7 item\<bar> \<le> 1800000000"
    "-1000 \<le> mi_AltitudeM item" "mi_AltitudeM item \<le> 10000" "float32 (mi_AltitudeM item) = Some (mi_AltitudeM item)"
proof -
  let ?v = "\<lambda>k. fst (number_field line n fs k)"
  obtain alt af where ca: "canonical_altitude line n (?v 10) = (alt, af)" by force
  have item: "mi_Sequence item = fst (int_field line n fs 0)" "mi_Frame item = fst (int_field line n fs 2)"
      "mi_Command item = fst (int_field line n fs 3)" "mi_AltitudeM item = alt"
      "mi_LatitudeE7 item = degrees_e7 (?v 8)" "mi_LongitudeE7 item = degrees_e7 (?v 9)"
    and clean: "af = []" "fst (int_field line n fs 0) = n" "map_of supportedMissionFrames (fst (int_field line n fs 2)) \<noteq> None"
      "map_of supportedMissionCommands (fst (int_field line n fs 3)) \<noteq> None"
      "\<not> (?v 8 < -90 \<or> ?v 8 > 90)" "\<not> (?v 9 < -180 \<or> ?v 9 > 180)" "\<not> (alt < -1000 \<or> alt > 10000)"
    using assms by (auto simp: parseWPLItem_def Let_def ca)
  show "mi_Sequence item = n" "-1000 \<le> mi_AltitudeM item" "mi_AltitudeM item \<le> 10000" using item clean by auto
  show "mi_Frame item = 0" "mi_Command item \<in> {16, 21, 22}"
    using item clean by (auto simp: supportedMissionFrames_def supportedMissionCommands_def split: if_splits)
  show "float32 (mi_AltitudeM item) = Some (mi_AltitudeM item)"
    using ca clean(1) by (auto simp: item canonical_altitude_def float32_idem split: option.splits)
  have "\<bar>?v 8\<bar> \<le> real_of_int 90" "\<bar>?v 9\<bar> \<le> real_of_int 180" using clean by auto
  from degrees_e7_bounds [OF this(1)] degrees_e7_bounds [OF this(2)]
  show "\<bar>mi_LatitudeE7 item\<bar> \<le> 900000000" "\<bar>mi_LongitudeE7 item\<bar> \<le> 1800000000" by (simp_all add: item)
qed

lemma checked_row_clean:
  assumes "check_row rows item fs = (item', [])" and "0 \<le> rows"
  shows "fs = []" "rows > 0 \<longrightarrow> \<not> mi_Current item \<and> mi_Autocontinue item \<and> params_zero item
      \<and> missionAltitudeCMRoundTrips (mi_AltitudeM item)
      \<and> item' = item\<lparr>mi_Param4 := if mi_Command item = 21 then 1 else 0\<rparr>"
  using assms by (auto simp: check_row_def canonical_params_def Let_def split: if_splits prod.splits)

lemma accepted_item_flyable:
  assumes "parseWPLItem fs rows line = (parsed, pf)" and "check_row rows parsed pf = (item, [])" and "0 < rows"
  shows "flyable (rows - 1) (item\<lparr>mi_Sequence := rows - 1\<rparr>)"
proof -
  have "pf = []" using checked_row_clean(1) [OF assms(2)] assms(3) by simp
  with assms(1) have p: "parseWPLItem fs rows line = (parsed, [])" by simp
  show ?thesis
    using checked_row_clean(2) [OF assms(2)] assms(3) parsed_item_clean [OF p]
    by (auto simp: flyable_def params_zero_def)
qed

lemma wpl_row_inv:
  assumes "wpl_inv st" and "wp_sourceItemCount st \<le> maxMissionItems"
  shows "wpl_inv (wpl_row line st)"
proof -
  let ?fs = "split_at (CHR 0x09) line" and ?n = "wp_sourceItemCount st"
  obtain parsed pf where p: "parseWPLItem ?fs ?n (wp_lineNumber st) = (parsed, pf)" by force
  obtain item cf where c: "check_row ?n parsed pf = (item, cf)" by force
  have "flyable (?n - 1) (item\<lparr>mi_Sequence := ?n - 1\<rparr>)" if "cf = []" "0 < ?n"
    using accepted_item_flyable [OF p _ that(2)] c that(1) by simp
  then show ?thesis
    using assms unfolding wpl_inv_def wpl_row_def Let_def p c prod.case
    by (auto simp: add_finding_def nth_append less_Suc_eq)
qed

lemma wpl_lines_inv: "wpl_inv st \<Longrightarrow> wpl_lines ls e st = (st', e') \<Longrightarrow> wpl_inv st'"
proof (induction ls e st rule: wpl_lines.induct)
  case (2 l ls tooLong st)
  have line: "wpl_inv (st\<lparr>wp_lineNumber := k\<rparr>)" "wpl_inv (add_finding f (st\<lparr>wp_lineNumber := k\<rparr>))" for k f
    using "2.prems"(1) by (simp_all add: wpl_inv_def add_finding_def)
  have "wpl_inv (wpl_row t (st\<lparr>wp_lineNumber := k\<rparr>))" if "\<not> maxMissionItems < wp_sourceItemCount st" for t k
    using that by (intro wpl_row_inv line) simp
  with "2.prems"(2) line show ?case
    by (auto simp: Let_def intro: "2.IH" split: if_splits)
qed simp

lemma wpl_lines_findings: "wp_findings st \<noteq> [] \<Longrightarrow> wp_findings (fst (wpl_lines ls e st)) \<noteq> []"
proof (induction ls e st rule: wpl_lines.induct)
  case (2 l ls tooLong st)
  have "wp_findings (wpl_row line (st\<lparr>wp_lineNumber := k\<rparr>)) \<noteq> []" for k line
    using "2.prems" by (simp add: wpl_row_def Let_def add_finding_def split: prod.splits)
  then show ?case using 2 by (simp add: Let_def add_finding_def)
qed simp

lemma wpl_lines_header:
  assumes "wpl_lines ls e start_wpl = (st', e')" "wp_findings st' = []" "wp_lineNumber st' \<noteq> 0"
  shows "ls \<noteq> [] \<and> trim_cr (hd ls) = ''QGC WPL 110''"
proof (cases ls)
  case (Cons l ls')
  let ?f = "missionFinding ''invalid_header'' ''first line must be exactly QGC WPL 110'' None"
  have "wp_findings (fst (wpl_lines ls' e (add_finding ?f (start_wpl\<lparr>wp_lineNumber := 1\<rparr>)))) \<noteq> []"
    by (rule wpl_lines_findings) (simp add: add_finding_def)
  then have "wpl_lines ls' e (add_finding ?f (start_wpl\<lparr>wp_lineNumber := 1\<rparr>)) \<noteq> (st', e')" using assms(2) by auto
  with assms(1) Cons show ?thesis by (auto simp: start_wpl_def Let_def split: if_splits)
qed (use assms in \<open>auto simp: start_wpl_def\<close>)

subsection \<open>Numbers of a route\<close>

lemma float64_degrees:
  assumes "\<bar>k\<bar> \<le> d * 10000000" and "0 < d" and "d \<le> 180"
  shows "\<exists>v. float64 (real_of_int k / 10 ^ 7) = Some v \<and> degrees_e7 v = k \<and> \<bar>v\<bar> \<le> real_of_int d"
proof -
  let ?x = "real_of_int k / 10 ^ 7"
  have x: "\<bar>?x\<bar> \<le> real_of_int d"
  proof -
    have "real_of_int \<bar>k\<bar> \<le> real_of_int (d * 10000000)" using assms(1) by (simp only: of_int_le_iff)
    then show ?thesis by (simp add: field_simps)
  qed
  then have "\<bar>?x\<bar> < 2 powi 8" using assms(3) by simp
  then obtain v where v: "float64 ?x = Some v" and close: "\<bar>v - ?x\<bar> \<le> 2 powi (8 - 54)"
    using float64_close [of ?x 8] by auto
  have tiny: "2 powi (8 - 54) \<le> (1 / 1000000000000 :: real)" "2 powi (31 - 54) \<le> (1 / 1000000 :: real)"
    by (simp_all add: power_int_minus)
  have "v * 10000000 - real_of_int k = 10000000 * (v - ?x)" by simp
  then have "\<bar>v * 10000000 - real_of_int k\<bar> = 10000000 * \<bar>v - ?x\<bar>" by (simp only: abs_mult abs_numeral)
  moreover have "10000000 * \<bar>v - ?x\<bar> \<le> 10000000 * (1 / 1000000000000)"
    by (intro mult_left_mono order_trans [OF close tiny(1)]) simp
  ultimately have "\<bar>v * 10000000 - real_of_int k\<bar> \<le> 1 / 100000" by simp
  moreover have "\<bar>v\<bar> \<le> 181"
  proof -
    have "real_of_int d \<le> 180" using assms(3) by simp
    then show ?thesis using close tiny(1) x by linarith
  qed
  then have "\<bar>v * 10000000\<bar> < 2 powi 31" by (simp add: abs_mult)
  then obtain y where y: "float64 (v * 10000000) = Some y" and "\<bar>y - v * 10000000\<bar> \<le> 2 powi (31 - 54)"
    using float64_close [of "v * 10000000" 31] by auto
  ultimately have "\<bar>y - real_of_int k\<bar> < 1 / 2" using tiny(2) by linarith
  then have e7: "degrees_e7 v = k" by (simp add: degrees_e7_def y math_Round_close)
  have "\<bar>v\<bar> \<le> real_of_int d"
  proof (cases "\<bar>k\<bar> = d * 10000000")
    case True
    then have "?x = real_of_int d \<or> ?x = real_of_int (- d)" by (auto simp: abs_if split: if_splits)
    then have "float64 ?x = Some ?x" using assms(2,3) float64_of_int [of d] float64_of_int [of "- d"] by auto
    then show ?thesis using v x by simp
  next
    case False
    then have "\<bar>k\<bar> \<le> d * 10000000 - 1" using assms(1) by linarith
    then have "real_of_int \<bar>k\<bar> \<le> real_of_int (d * 10000000 - 1)" by (simp only: of_int_le_iff)
    then have "\<bar>?x\<bar> \<le> real_of_int d - 1 / 10000000" by (simp add: field_simps)
    then show ?thesis using close tiny(1) by linarith
  qed
  with v e7 show ?thesis by blast
qed

lemma float_metres:
  assumes "-100000 \<le> k" and "k \<le> 1000000"
  shows "\<exists>a. float64 (real_of_int k / 10 ^ 2) = Some a \<and> float32 a = Some (metres k) \<and> -1000 \<le> metres k \<and> metres k \<le> 10000"
proof -
  let ?x = "real_of_int k / 10 ^ 2"
  have x: "-1000 \<le> ?x" "?x \<le> 10000" using assms by simp_all
  then have "\<bar>?x\<bar> < 2 powi 14" by simp
  then obtain a where a: "float64 ?x = Some a" and ca: "\<bar>a - ?x\<bar> \<le> 2 powi (14 - 54)"
    using float64_close [of ?x 14] by auto
  have tiny: "2 powi (14 - 54) \<le> (1 / 100000000000 :: real)" "2 powi (14 - 25) \<le> (1 / 1000 :: real)"
    by (simp_all add: power_int_minus)
  have "\<bar>a\<bar> < 16384" using ca tiny(1) x by linarith
  then have "\<bar>a\<bar> < 2 powi 14" by simp
  then obtain c where c: "float32 a = Some c" and cc: "\<bar>c - a\<bar> \<le> 2 powi (14 - 25)"
    using float32_close [of a 14] by auto
  have m: "metres k = c" unfolding metres_def a option.sel c ..
  have exact: "c = ?x" if "?x = real_of_int i" "\<bar>i\<bar> \<le> 10000" for i
  proof -
    have "\<bar>i\<bar> < 2 ^ 53" "\<bar>i\<bar> < 2 ^ 24" using that(2) by simp_all
    then show ?thesis using float64_of_int [of i] float32_of_int [of i] a c unfolding that(1) by simp
  qed
  have "-1000 \<le> c \<and> c \<le> 10000"
  proof (cases "k = -100000 \<or> k = 1000000")
    case True
    then show ?thesis using exact [of "-1000"] exact [of 10000] by auto
  next
    case False
    then have "-99999 \<le> k" "k \<le> 999999" using assms by auto
    then have "-99999 \<le> real_of_int k" "real_of_int k \<le> 999999" by simp_all
    then have "- (99999 / 100) \<le> ?x" "?x \<le> 999999 / 100" by simp_all
    moreover have "\<bar>a - ?x\<bar> \<le> 1 / 1000" "\<bar>c - a\<bar> \<le> 1 / 1000" using ca cc tiny by linarith+
    ultimately show ?thesis by (intro conjI) linarith+
  qed
  with a c m show ?thesis by auto
qed

subsection \<open>Rows of a route\<close>

lemma zero_texts: "ParseFloat (itoa 0) = Some 0" "float32 0 = Some 0"
  using ParseFloat_digits [of 0] float64_of_int [of 0] float32_of_int [of 0] by (simp_all add: itoa_def)

lemma Atoi_small: "0 \<le> k \<Longrightarrow> k \<le> 1000 \<Longrightarrow> Atoi (itoa k) = Some k"
  by (rule Atoi_itoa) (simp add: int64_range_def)

lemma parse_row:
  assumes "waypoint_ok w" and "0 \<le> n" and "n \<le> 200"
  shows "parseWPLItem (row_fields n w) n line = ((waypoint_item n w)\<lparr>mi_Current := (n = 0), mi_Param4 := 0\<rparr>, [])"
proof -
  have ok: "wy_command w \<in> {16, 21, 22}" "\<bar>wy_latitudeE7 w\<bar> \<le> 90 * 10000000" "\<bar>wy_longitudeE7 w\<bar> \<le> 180 * 10000000"
    "-100000 \<le> wy_altitudeCM w" "wy_altitudeCM w \<le> 1000000"
    using assms(1) by (simp_all add: waypoint_ok_def)
  obtain lat where lat: "ParseFloat (decimal 7 (wy_latitudeE7 w)) = Some lat" "degrees_e7 lat = wy_latitudeE7 w" "\<bar>lat\<bar> \<le> 90"
    using float64_degrees [OF ok(2)] by (auto simp: ParseFloat_decimal)
  obtain lon where lon: "ParseFloat (decimal 7 (wy_longitudeE7 w)) = Some lon" "degrees_e7 lon = wy_longitudeE7 w" "\<bar>lon\<bar> \<le> 180"
    using float64_degrees [OF ok(3)] by (auto simp: ParseFloat_decimal)
  obtain a where a: "ParseFloat (decimal 2 (wy_altitudeCM w)) = Some a" "float32 a = Some (metres (wy_altitudeCM w))"
    "-1000 \<le> metres (wy_altitudeCM w)" "metres (wy_altitudeCM w) \<le> 10000"
    using float_metres [OF ok(4,5)] by (auto simp: ParseFloat_decimal)
  have command: "Atoi (itoa (wy_command w)) = Some (wy_command w)" "map_of supportedMissionCommands (wy_command w) \<noteq> None"
    using ok(1) by (auto simp: Atoi_small supportedMissionCommands_def)
  show ?thesis
    using assms(2,3) lat lon a command
    by (simp add: parseWPLItem_def row_fields_def Let_def int_field_def number_field_def param_findings_def
        canonical_altitude_def Atoi_small zero_texts waypoint_item_def supportedMissionFrames_def finding_unless_def not_less abs_le_iff)
qed

lemma check_printed_row:
  assumes "waypoint_ok w" and "0 \<le> n" and "n = 0 \<longrightarrow> wy_command w = 16"
    and "0 < n \<longrightarrow> missionAltitudeCMRoundTrips (metres (wy_altitudeCM w))"
  shows "check_row n ((waypoint_item n w)\<lparr>mi_Current := (n = 0), mi_Param4 := 0\<rparr>) []
    = ((waypoint_item n w)\<lparr>mi_Current := (n = 0)\<rparr>, [])"
  using assms by (auto simp: check_row_def canonical_params_def Let_def waypoint_item_def params_zero_def finding_unless_def)

lemma decimal_chars: "c \<in> set (decimal w k) \<Longrightarrow> is_digit c \<or> c = CHR ''-'' \<or> c = CHR ''.''"
  using digits_are_digits [of "nat \<bar>k\<bar> div 10 ^ w"] fixed_digits_facts(2) [of w "nat \<bar>k\<bar>"]
  by (auto simp: decimal_def list_all_iff split: if_splits)

lemma itoa_digit: "c \<in> set (itoa k) \<Longrightarrow> is_digit c \<or> c = CHR ''-''"
  using itoa_chars [of c k] by (auto simp: is_digit_iff)

lemma row_field_chars: "f \<in> set (row_fields n w) \<Longrightarrow> c \<in> set f \<Longrightarrow> is_digit c \<or> c = CHR ''-'' \<or> c = CHR ''.''"
  unfolding row_fields_def by (auto dest: itoa_digit decimal_chars)

lemma row_text_fields: "split_at (CHR 0x09) (row_text n w) = row_fields n w"
  unfolding row_text_def
proof (rule split_at_join)
  show "\<forall>f \<in> set (row_fields n w). CHR 0x09 \<notin> set f" by (auto dest!: row_field_chars simp: is_digit_iff)
qed (simp add: row_fields_def)

lemma set_join: "set (join_strings sep xs) \<subseteq> \<Union> (set ` set xs) \<union> set sep"
  by (induction xs rule: induct_list012) auto

lemma row_text_chars: "c \<in> set (row_text n w) \<Longrightarrow> is_digit c \<or> c = CHR ''-'' \<or> c = CHR ''.'' \<or> c = CHR 0x09"
  using set_join [of "[CHR 0x09]" "row_fields n w"] row_field_chars [of _ n w c] unfolding row_text_def by auto

lemma row_text_ends:
  assumes "0 \<le> n"
  shows "row_text n w \<noteq> []" "is_digit (hd (row_text n w))" "is_digit (last (row_text n w))"
proof -
  have "itoa n = digits (nat n)" "itoa 1 = digits 1" using assms by (simp_all add: itoa_def)
  moreover have "is_digit (last (digits 1))" using digits_are_digits [of 1] by (simp add: list_all_iff)
  ultimately show "row_text n w \<noteq> []" "is_digit (hd (row_text n w))" "is_digit (last (row_text n w))"
    by (simp_all add: row_text_def row_fields_def hd_digits)
qed

lemma row_text_trim:
  assumes "0 \<le> n"
  shows "trim_cr (row_text n w) = row_text n w" "TrimSpace (row_text n w) \<noteq> []"
proof -
  show "trim_cr (row_text n w) = row_text n w"
    using row_text_ends [OF assms, of w] by (auto simp: trim_cr_def is_digit_iff)
  have "TrimSpace (row_text n w) = row_text n w"
    using row_text_ends [OF assms, of w] by (intro TrimSpace_visible) (auto simp: visible_def is_digit_iff)
  then show "TrimSpace (row_text n w) \<noteq> []" using row_text_ends [OF assms] by simp
qed

lemma wpl_printed_row:
  assumes "waypoint_ok w" and "0 < n" and "n \<le> 200" and "missionAltitudeCMRoundTrips (metres (wy_altitudeCM w))"
    and "wp_sourceItemCount st = n"
  shows "wpl_row (row_text n w) st = st\<lparr>wp_sourceItemCount := n + 1, wp_items := wp_items st @ [waypoint_item (n - 1) w],
     wp_hasTakeoff := wp_hasTakeoff st \<or> wy_command w = 22, wp_hasLanding := wp_hasLanding st \<or> wy_command w = 21\<rparr>"
proof -
  have "length (row_fields n w) = 12" by (simp add: row_fields_def)
  moreover have "(waypoint_item n w)\<lparr>mi_Current := False, mi_Sequence := n - 1\<rparr> = waypoint_item (n - 1) w"
    by (simp add: waypoint_item_def)
  ultimately show ?thesis
    using assms parse_row [of w n] check_printed_row [of w n]
    by (simp add: wpl_row_def row_text_fields Let_def) (simp add: waypoint_item_def)
qed

lemma wpl_home_row:
  assumes "waypoint_ok w" and "wy_command w = 16" and "wp_sourceItemCount st = 0"
  shows "wpl_row (row_text 0 w) st = st\<lparr>wp_sourceItemCount := 1\<rparr>"
proof -
  have "length (row_fields 0 w) = 12" by (simp add: row_fields_def)
  then show ?thesis
    using assms parse_row [of w 0] check_printed_row [of w 0]
    by (simp add: wpl_row_def row_text_fields Let_def)
qed

lemma wpl_printed_rows:
  "\<forall>w \<in> set ws. waypoint_ok w \<and> missionAltitudeCMRoundTrips (metres (wy_altitudeCM w)) \<Longrightarrow>
   0 < n \<Longrightarrow> n + int (length ws) \<le> 201 \<Longrightarrow> wp_sourceItemCount st = n \<Longrightarrow> 0 < wp_lineNumber st \<Longrightarrow>
   wpl_lines (row_texts n ws) False st = (st\<lparr>wp_lineNumber := wp_lineNumber st + int (length ws),
     wp_sourceItemCount := n + int (length ws), wp_items := wp_items st @ route_items (n - 1) ws,
     wp_hasTakeoff := wp_hasTakeoff st \<or> (\<exists>w \<in> set ws. wy_command w = 22),
     wp_hasLanding := wp_hasLanding st \<or> (\<exists>w \<in> set ws. wy_command w = 21)\<rparr>, False)"
proof (induction ws arbitrary: n st)
  case (Cons w ws)
  have n: "0 \<le> n" "n \<le> 200" "\<not> maxMissionItems < n" using Cons.prems by (simp_all add: maxMissionItems_def)
  define st1 where "st1 = wpl_row (row_text n w) (st\<lparr>wp_lineNumber := wp_lineNumber st + 1\<rparr>)"
  have st1: "st1 = st\<lparr>wp_lineNumber := wp_lineNumber st + 1, wp_sourceItemCount := n + 1,
      wp_items := wp_items st @ [waypoint_item (n - 1) w], wp_hasTakeoff := wp_hasTakeoff st \<or> wy_command w = 22,
      wp_hasLanding := wp_hasLanding st \<or> wy_command w = 21\<rparr>"
    unfolding st1_def using Cons.prems n by (subst wpl_printed_row [where n = n]) auto
  have "wpl_lines (row_texts n (w # ws)) False st = wpl_lines (row_texts (n + 1) ws) False st1"
    using Cons.prems n by (simp add: Let_def row_text_trim st1_def)
  also have "\<dots> = (st1\<lparr>wp_lineNumber := wp_lineNumber st1 + int (length ws),
     wp_sourceItemCount := n + 1 + int (length ws), wp_items := wp_items st1 @ route_items (n + 1 - 1) ws,
     wp_hasTakeoff := wp_hasTakeoff st1 \<or> (\<exists>w \<in> set ws. wy_command w = 22),
     wp_hasLanding := wp_hasLanding st1 \<or> (\<exists>w \<in> set ws. wy_command w = 21)\<rparr>, False)"
    using Cons.prems by (intro Cons.IH) (auto simp: st1)
  finally show ?case by (simp add: st1 ac_simps)
qed simp

subsection \<open>Lines and lengths\<close>

lemma scan_lines_join:
  "\<forall>l \<in> set ls. CHR 0x0A \<notin> set l \<and> length l < maxMissionLineBytes \<and> trim_cr l = l \<and> l \<noteq> [] \<Longrightarrow>
   scan_lines (join_strings [CHR 0x0A] ls) = (ls, False)"
proof (induction ls rule: induct_list012)
  case 1
  show ?case by (simp add: scan_lines.simps)
next
  case (2 l)
  then have tw: "takeWhile (\<lambda>c. c \<noteq> CHR 0x0A) l = l" by (auto simp: takeWhile_eq_all_conv)
  show ?case using 2 by (subst scan_lines.simps) (simp add: Let_def tw scan_lines.simps [of "[]"])
next
  case (3 l l' ls)
  have tw: "takeWhile (\<lambda>c. c \<noteq> CHR 0x0A) (l @ CHR 0x0A # s) = l" for s
    using "3.prems" by (subst takeWhile_tail) (auto simp: takeWhile_eq_all_conv)
  show ?case using 3 by (subst scan_lines.simps) (simp add: Let_def tw)
qed

lemma length_join: "length (join_strings sep xs) \<le> sum_list (map (\<lambda>x. length x + length sep) xs)"
  by (induction xs rule: induct_list012) auto

lemma length_digits: "n < 10 ^ Suc k \<Longrightarrow> length (digits n) \<le> Suc k"
proof (induction k arbitrary: n)
  case 0
  then show ?case by (simp add: digits.simps)
next
  case (Suc k)
  have "length (digits (n div 10)) \<le> Suc k" if "\<not> n < 10"
    using Suc.prems by (intro Suc.IH) (simp add: div_less_iff_less_mult mult.commute)
  then show ?case by (subst digits.simps) auto
qed

lemma length_decimal: "nat \<bar>k\<bar> div 10 ^ w < 100000 \<Longrightarrow> length (decimal w k) \<le> 7 + w"
  using length_digits [of "nat \<bar>k\<bar> div 10 ^ w" 4] by (auto simp: decimal_def)

lemma length_itoa: "\<bar>k\<bar> < 1000 \<Longrightarrow> length (itoa k) \<le> 4"
  using length_digits [of "nat \<bar>k\<bar>" 2] by (cases "k < 0") (auto simp: itoa_def nat_less_iff)

lemma length_row_text:
  assumes "waypoint_ok w" and "0 \<le> n" and "n \<le> 200"
  shows "length (row_text n w) < 200"
proof -
  have small: "\<bar>wy_command w\<bar> < 1000" "\<bar>n\<bar> < 1000" using assms by (auto simp: waypoint_ok_def)
  have "nat \<bar>wy_latitudeE7 w\<bar> div 10 ^ 7 < 100000" "nat \<bar>wy_longitudeE7 w\<bar> div 10 ^ 7 < 100000"
    "nat \<bar>wy_altitudeCM w\<bar> div 10 ^ 2 < 100000"
    using assms(1) by (auto simp: waypoint_ok_def div_less_iff_less_mult nat_less_iff abs_less_iff)
  then have "length (decimal 7 (wy_latitudeE7 w)) \<le> 14" "length (decimal 7 (wy_longitudeE7 w)) \<le> 14"
    "length (decimal 2 (wy_altitudeCM w)) \<le> 9" using length_decimal by fastforce+
  moreover have "length (itoa 0) \<le> 4" "length (itoa 1) \<le> 4" "length (itoa n) \<le> 4" "length (itoa (wy_command w)) \<le> 4"
    using small by (simp_all add: length_itoa)
  ultimately show ?thesis
    using length_join [of "[CHR 0x09]" "row_fields n w"] unfolding row_text_def by (simp add: row_fields_def split: if_splits)
qed

lemma row_texts_facts:
  "\<forall>w \<in> set ws. waypoint_ok w \<Longrightarrow> 0 \<le> n \<Longrightarrow> n + int (length ws) \<le> 201 \<Longrightarrow> l \<in> set (row_texts n ws) \<Longrightarrow>
   CHR 0x0A \<notin> set l \<and> length l < 200 \<and> trim_cr l = l \<and> l \<noteq> []"
proof (induction ws arbitrary: n)
  case (Cons w ws)
  have "CHR 0x0A \<notin> set (row_text n w)" using row_text_chars [of "CHR 0x0A" n w] by (auto simp: is_digit_iff)
  then show ?case
    using Cons.prems Cons.IH [of "n + 1"] row_text_ends(1) [of n w] row_text_trim(1) [of n w] length_row_text [of w n]
    by auto
qed simp

lemma length_row_texts [simp]: "length (row_texts n ws) = length ws"
  by (induction ws arbitrary: n) auto

lemma length_route_items [simp]: "length (route_items n ws) = length ws"
  by (induction ws arbitrary: n) auto

lemma print_route_lines:
  assumes "\<forall>w \<in> set (home # route). waypoint_ok w" and "length route \<le> 200"
  shows "scan_lines (print_route home route) = (''QGC WPL 110'' # row_texts 0 (home # route), False)"
    and "length (print_route home route) \<le> maxMissionSourceBytes" and "print_route home route \<noteq> []"
proof -
  have rows: "CHR 0x0A \<notin> set l \<and> length l < 200 \<and> trim_cr l = l \<and> l \<noteq> []" if "l \<in> set (row_texts 0 (home # route))" for l
    using row_texts_facts [OF assms(1), of 0 l] assms(2) that by simp
  have head: "trim_cr ''QGC WPL 110'' = ''QGC WPL 110''" by (simp add: trim_cr_def)
  show "scan_lines (print_route home route) = (''QGC WPL 110'' # row_texts 0 (home # route), False)"
    unfolding print_route_def using rows head by (intro scan_lines_join) (fastforce simp: maxMissionLineBytes_def)
  have "sum_list (map (\<lambda>x. length x + 1) (row_texts 0 (home # route))) \<le> 200 * length (row_texts 0 (home # route))"
    using sum_list_mono [of "row_texts 0 (home # route)" "\<lambda>x. length x + 1" "\<lambda>_. 200"] rows
    by (fastforce simp: sum_list_triv)
  then show "length (print_route home route) \<le> maxMissionSourceBytes"
    using length_join [of "[CHR 0x0A]" "''QGC WPL 110'' # row_texts 0 (home # route)"] assms(2)
    unfolding print_route_def by (simp add: maxMissionSourceBytes_def del: row_texts.simps)
  show "print_route home route \<noteq> []" by (simp add: print_route_def)
qed

subsection \<open>A route\<close>

lemma binary_exponent_ge: "2 powi e \<le> \<bar>x\<bar> \<Longrightarrow> e \<le> emin + int n \<Longrightarrow> e \<le> binary_exponent emin n x"
proof (induction n)
  case (Suc n)
  show ?case
  proof (cases "e = emin + int (Suc n)")
    case False
    then show ?thesis using Suc by auto
  qed (use Suc.prems in simp)
qed simp

lemma float32_eq:
  assumes "2 powi e \<le> \<bar>x\<bar>" "\<bar>x\<bar> < 2 powi (e + 1)" "- 126 \<le> e" "e \<le> 127" "\<bar>real_of_int i\<bar> < 2 ^ 24"
    and "\<bar>x / 2 powi (e - 23) - real_of_int i\<bar> < 1 / 2"
  shows "float32 x = Some (real_of_int i * 2 powi (e - 23))"
proof -
  have "binary_exponent (- 126) 253 x < e + 1" using assms by (intro binary_exponent_less) auto
  moreover have "e \<le> binary_exponent (- 126) 253 x" using assms by (intro binary_exponent_ge) auto
  ultimately have e: "binary_exponent (- 126) 253 x = e" by linarith
  have "\<bar>real_of_int (round_half_even (x / 2 powi (e - 23)) - i)\<bar> < 1"
    using round_half_even_close [of "x / 2 powi (e - 23)"] assms(6) unfolding of_int_diff by linarith
  then have i: "round_half_even (x / 2 powi (e - 23)) = i" by linarith
  have "\<bar>real_of_int i * 2 powi (e - 23)\<bar> < 2 ^ 24 * 2 powi (e - 23)" using assms(5) by (simp add: abs_mult)
  also have "\<dots> = 2 powi (e + 1)" by (simp add: power_int_add power_int_diff)
  also have "\<dots> \<le> 2 powi 128" using assms(4) by (intro power_int_increasing) auto
  finally show ?thesis by (simp add: float32_def round_float_def Let_def e i)
qed

lemma hundred_metres: "metres 10000 = 100" "missionAltitudeCMRoundTrips 100"
proof -
  have "float64 100 = Some 100" "float32 100 = Some 100" "float32 10000 = Some 10000"
    using float64_of_int [of 100] float32_of_int [of 100] float32_of_int [of 10000] by simp_all
  moreover have "float32 (1 / 100) = Some (5368709 * 2 powi (- 29))"
    using float32_eq [of "- 7" "1 / 100" 10737418] by (simp add: power_int_minus)
  moreover have "float32 (10000 * (5368709 * 2 powi (- 29))) = Some 100"
    using float32_eq [of 6 "10000 * (5368709 * 2 powi (- 29))" 13107200] by (simp add: power_int_minus)
  ultimately show "metres 10000 = 100" "missionAltitudeCMRoundTrips 100"
    by (simp_all add: metres_def missionAltitudeCMRoundTrips_def missionAltitudeCMInInt32Range_def trunc_int32_def)
qed

lemma printed_route_parsed:
  assumes "\<forall>w \<in> set (home # route). waypoint_ok w" and "wy_command home = 16" and "route \<noteq> []" and "length route \<le> 200"
    and "\<forall>w \<in> set route. missionAltitudeCMRoundTrips (metres (wy_altitudeCM w))"
    and "digest (canonicalMissionPlan (route_items 0 route)) = Inr d"
  shows "parseWPL110 sha digest (print_route home route) = Inr (route_items 0 route,
      (if \<exists>w \<in> set route. wy_command w = 22 then []
       else [missionWarning ''takeoff_not_declared'' ''mission contains no NAV_TAKEOFF item''])
      @ (if \<exists>w \<in> set route. wy_command w = 21 then []
         else [missionWarning ''landing_not_declared'' ''mission contains no NAV_LAND item'']),
      d, sha (print_route home route))"
proof -
  let ?st = "start_wpl\<lparr>wp_lineNumber := 2, wp_sourceItemCount := 1\<rparr>"
  let ?ls = "''QGC WPL 110'' # row_texts 0 (home # route)"
  define st where "st = ?st\<lparr>wp_lineNumber := wp_lineNumber ?st + int (length route),
     wp_sourceItemCount := 1 + int (length route), wp_items := wp_items ?st @ route_items (1 - 1) route,
     wp_hasTakeoff := wp_hasTakeoff ?st \<or> (\<exists>w \<in> set route. wy_command w = 22),
     wp_hasLanding := wp_hasLanding ?st \<or> (\<exists>w \<in> set route. wy_command w = 21)\<rparr>"
  have "wpl_lines ?ls False start_wpl = wpl_lines (row_texts 1 route) False ?st"
  proof -
    let ?h = "start_wpl\<lparr>wp_lineNumber := 1\<rparr>"
    have "wpl_lines ?ls False start_wpl = wpl_lines (row_text 0 home # row_texts 1 route) False ?h"
      by (simp add: start_wpl_def Let_def trim_cr_def)
    also have "\<dots> = wpl_lines (row_texts 1 route) False (wpl_row (row_text 0 home) (start_wpl\<lparr>wp_lineNumber := 2\<rparr>))"
      by (simp add: start_wpl_def Let_def row_text_trim maxMissionItems_def)
    also have "wpl_row (row_text 0 home) (start_wpl\<lparr>wp_lineNumber := 2\<rparr>) = ?st"
      using assms(1,2) by (subst wpl_home_row) (simp_all add: start_wpl_def)
    finally show ?thesis .
  qed
  also have "\<dots> = (st, False)" unfolding st_def using assms by (intro wpl_printed_rows) (auto simp: start_wpl_def)
  finally have run: "wpl_lines ?ls False start_wpl = (st, False)" .
  have st: "wp_items st = route_items 0 route" "wp_hasTakeoff st = (\<exists>w \<in> set route. wy_command w = 22)"
    "wp_hasLanding st = (\<exists>w \<in> set route. wy_command w = 21)" "final_findings st False = []"
    using assms(3) by (cases route; simp add: st_def start_wpl_def final_findings_def)+
  show ?thesis
    unfolding parseWPL110_def Let_def print_route_lines(1) [OF assms(1,4)] prod.case run st canonicalMissionSHA_def assms(6)
    using print_route_lines(2,3) [OF assms(1,4)] by simp
qed

lemma sample_route_accepted:
  "parseWPL110 id (\<lambda>_. Inr ''d'') (print_route sample_home [sample_leg])
    = Inr ([waypoint_item 0 sample_leg], [missionWarning ''landing_not_declared'' ''mission contains no NAV_LAND item''], ''d'',
        id (print_route sample_home [sample_leg]))"
proof -
  have "wy_command sample_leg = 22" by (simp add: sample_leg_def)
  moreover note printed_route_parsed [of sample_home "[sample_leg]" "\<lambda>_. Inr ''d''" "''d''" id]
  ultimately show ?thesis by (simp add: sample_home_def waypoint_ok_def hundred_metres sample_leg_def)
qed

subsection \<open>The request\<close>

lemma durable_read_run:
  assumes "keeps I (fs_others svc)" and "I s" and "run_state (durable_read svc f) (s, w) = (x, (s', w'))"
  shows "I s' \<and> x = f s'"
proof -
  obtain s1 w1 where o: "run_state (fs_others svc) (s, w) = ((), (s1, w1))" by (cases "run_state (fs_others svc) (s, w)") auto
  with assms(3) keeps_run [OF assms(1) o assms(2)] show ?thesis by (auto simp: durable_read_def)
qed

lemma concat_findings_Nil: "concat (map (\<lambda>x. if P x then [f x] else []) xs) = [] \<longleftrightarrow> (\<forall>x \<in> set xs. \<not> P x)"
  by auto

lemma coverage_error_None:
  assumes "coverage_error (CheckMissionCoverage json volume items) (altitude_findings volume items) = None"
    and "volume_mismatch intent volume = None"
  shows "inside_volume json volume items"
proof -
  obtain r where r: "CheckMissionCoverage json volume items = Inr r" and a: "altitude_findings volume items = []"
    and none: "mcr_UncoveredItems r = []" "mcr_UncoveredSegments r = []"
    using assms(1) by (auto simp: coverage_error_def Let_def coverage_findings_def split: sum.splits if_splits)
  obtain polygon where p: "decodeMissionPolygon json (ov_GeoJSON volume) = Inr polygon"
    using r by (auto simp: CheckMissionCoverage_def split: sum.splits)
  have "mcr_UncoveredItems r = map mi_Sequence (filter (\<lambda>i. \<not> missionPolygonCoversPoint polygon (mission_point i)) items)
      \<and> mcr_UncoveredSegments r = map (mi_Sequence \<circ> fst) (filter (\<lambda>(i, j).
          \<not> missionPolygonCoversSegment polygon (mission_point i) (mission_point j)) (edges items))"
    using mission_coverage_report_exact [of json volume items] r by (simp add: p)
  then show ?thesis
    using none a assms(2) p
    unfolding inside_volume_def altitude_findings_def concat_findings_Nil
    by (auto simp: volume_mismatch_def filter_empty_conv split: if_splits)
qed

lemma validated_run:
  assumes keeps: "keeps (import_ready F (oi_ID intent) (oi_Version intent) vs) (fs_others svc)"
    and ready: "import_ready F (oi_ID intent) (oi_Version intent) vs s"
    and run: "run_state (validateMissionAgainstIntent svc json intent items) (s, w) = (None, (s', w'))"
  shows "\<exists>v. vs = [v] \<and> inside_volume json v items
    \<and> ov_StartsAt v \<le> oi_PlannedStartAt intent \<and> oi_PlannedEndAt intent \<le> ov_EndsAt v"
proof -
  let ?I = "import_ready F (oi_ID intent) (oi_Version intent) vs"
  obtain x s1 w1 where read: "run_state (durable_read svc (ListOperationalVolumes (oi_ID intent))) (s, w) = (x, (s1, w1))"
    by (cases "run_state (durable_read svc (ListOperationalVolumes (oi_ID intent))) (s, w)") auto
  have s1: "?I s1" "x = ListOperationalVolumes (oi_ID intent) s1" using durable_read_run [OF keeps ready read] by auto
  then obtain all where all: "x = Inr all" "volumesForVersion all (oi_Version intent) = vs" by (auto simp: import_ready_def)
  have one: "length vs = 1" and ok: "volume_mismatch intent (hd vs) = None"
    using run read all by (auto simp: validateMissionAgainstIntent_def Let_def split: if_splits option.splits)
  obtain c s2 w2 where cov: "run_state (durable_read svc (\<lambda>_. CheckMissionCoverage json (hd vs) items)) (s1, w1) = (c, (s2, w2))"
    by (cases "run_state (durable_read svc (\<lambda>_. CheckMissionCoverage json (hd vs) items)) (s1, w1)") auto
  have c: "c = CheckMissionCoverage json (hd vs) items" using durable_read_run [OF keeps s1(1) cov] by simp
  have "coverage_error c (altitude_findings (hd vs) items) = None"
    using run read all one ok cov by (simp add: validateMissionAgainstIntent_def Let_def)
  then have "inside_volume json (hd vs) items" unfolding c using ok by (rule coverage_error_None)
  moreover obtain v where "vs = [v]" using one by (cases vs) auto
  ultimately show ?thesis using ok by (auto simp: volume_mismatch_def split: if_splits)
qed

lemma import_binding_run:
  assumes keeps: "keeps I (fs_others svc)" and ready: "I s" and I: "\<And>s. I s \<Longrightarrow> intents_ok s"
    and run: "run_state (import_binding svc flight) (s, w) = (Inr (intent, operatorID), (s', w'))"
  shows "I s'" "oi_ID intent = fl_IntentID flight" "oi_Version intent = fl_IntentVersion flight"
    "oi_AircraftID intent = fl_AircraftID flight" "oi_Status intent \<in> {IntentStatusAccepted, IntentStatusActive}" "operatorID \<noteq> []"
proof -
  let ?get = "GetOperationalIntentVersion (fl_IntentID flight) (fl_IntentVersion flight)"
  from run obtain x s1 w1 where r1: "run_state (durable_read svc ?get) (s, w) = (x, (s1, w1))"
    by (cases "run_state (durable_read svc ?get) (s, w)") auto
  have s1: "I s1" "x = ?get s1" using durable_read_run [OF keeps ready r1] by auto
  obtain y s2 w2 where r2: "run_state (durable_read svc (GetOperationalIntent (fl_IntentID flight))) (s1, w1) = (y, (s2, w2))"
    by (cases "run_state (durable_read svc (GetOperationalIntent (fl_IntentID flight))) (s1, w1)") auto
  have s2: "I s2" using durable_read_run [OF keeps s1(1) r2] by auto
  obtain z s3 w3 where r3: "run_state (durable_read svc (GetAircraft (fl_AircraftID flight))) (s2, w2) = (z, (s3, w3))"
    by (cases "run_state (durable_read svc (GetAircraft (fl_AircraftID flight))) (s2, w2)") auto
  have s3: "I s3" using durable_read_run [OF keeps s2 r3] by auto
  have x: "x = Inr intent" and rest: "oi_AircraftID intent = fl_AircraftID flight"
      "oi_Status intent \<in> {IntentStatusAccepted, IntentStatusActive}" "operatorID \<noteq> []" "s' = s3"
    using run r1 r2 r3 by (auto simp: import_binding_def split: sum.splits if_splits)
  from rest s3 show "I s'" "oi_AircraftID intent = fl_AircraftID flight"
    "oi_Status intent \<in> {IntentStatusAccepted, IntentStatusActive}" "operatorID \<noteq> []" by auto
  have "map_of (s_operationalIntents s1) (operationalIntentKey (fl_IntentID flight) (fl_IntentVersion flight)) = Some intent"
    using x s1(2) by (auto simp: GetOperationalIntentVersion_def found_def split: option.splits)
  then have "operationalIntentKey (fl_IntentID flight) (fl_IntentVersion flight) = intent_key intent"
    using keyedD [of intent_key "s_operationalIntents s1"] I [OF s1(1)] by (auto simp: intents_ok_def)
  then show "oi_ID intent = fl_IntentID flight" "oi_Version intent = fl_IntentVersion flight" by auto
qed

lemma created_mission:
  assumes "import_ready F i v vs s" and "ms_ID mission \<in> F"
    and "CreateMissionForPlannedFlight mission s = (Inr m, s')" and "ms_ID m = ms_ID mission"
  shows "m = mission\<lparr>ms_Version := next_mission_version s (ms_FlightID mission)\<rparr>"
    and "map_of (s_missions s') (ms_ID m) = Some m"
    and "\<exists>flight. map_of (s_flightRecords s) (ms_FlightID mission) = Some flight \<and> fl_Status flight = FlightStatusPlanned
      \<and> fl_OperatorID flight = ms_OperatorID mission \<and> fl_AircraftID flight = ms_AircraftID mission
      \<and> \<not> hasOutstandingMissionDeploymentForFlightLocked s (fl_ID flight)"
proof -
  have "mission_by_key s (ms_IdempotencyKey mission) = None"
  proof (rule ccontr)
    assume "mission_by_key s (ms_IdempotencyKey mission) \<noteq> None"
    then obtain e where e: "mission_by_key s (ms_IdempotencyKey mission) = Some e" by blast
    then have "m = e" using assms(3) by (auto simp: CreateMissionForPlannedFlight_def split: if_splits)
    moreover obtain k where "e = mission_at s k" using e by (auto simp: mission_by_key_def simp del: map_of_eq_Some_iff)
    then have "e = zero_Mission \<or> e \<in> set (vals (s_missions s))"
    proof (cases "map_of (s_missions s) k")
      case (Some x)
      then show ?thesis using \<open>e = mission_at s k\<close> map_of_SomeD [OF Some] by (force simp: mission_at_def vals_def)
    qed (simp add: mission_at_def)
    ultimately show False using assms(1,2,4) by (auto simp: import_ready_def zero_Mission_def)
  qed
  then show "m = mission\<lparr>ms_Version := next_mission_version s (ms_FlightID mission)\<rparr>" "map_of (s_missions s') (ms_ID m) = Some m"
    "\<exists>flight. map_of (s_flightRecords s) (ms_FlightID mission) = Some flight \<and> fl_Status flight = FlightStatusPlanned
      \<and> fl_OperatorID flight = ms_OperatorID mission \<and> fl_AircraftID flight = ms_AircraftID mission
      \<and> \<not> hasOutstandingMissionDeploymentForFlightLocked s (fl_ID flight)"
    using assms(3)
    by (auto simp: CreateMissionForPlannedFlight_def createMissionLocked_def Let_def add_mission_def
        simp del: map_of_eq_Some_iff split: option.splits if_splits)
qed

lemma store_mission_run:
  assumes ready: "import_ready F i v vs s" and keeps: "fleet_keeps (import_ready F i v vs) svc"
    and fresh: "\<forall>\<sigma>. fst (run_state (fs_newUUID svc) \<sigma>) \<in> F"
    and run: "run_state (store_mission svc flight operatorID key h sha parsed) (s, w) = (Inr r, (s', w'))"
    and new: "\<not> imp_Replayed r"
  shows "\<exists>version ident now. imp_Mission r = (imported_mission flight operatorID sha (snd (snd parsed)) key h (fst (snd parsed))
      (fst parsed) ident now)\<lparr>ms_Version := version\<rparr> \<and> map_of (s_missions s') (ms_ID (imp_Mission r)) = Some (imp_Mission r)"
proof -
  let ?I = "import_ready F i v vs"
  have keep: "keeps ?I (fs_others svc)" "keeps ?I (fs_now svc)" "keeps ?I (fs_newUUID svc)"
    using keeps by (simp_all add: fleet_keeps_def)
  obtain ident s1 w1 where u: "run_state (fs_newUUID svc) (s, w) = (ident, (s1, w1))" by (cases "run_state (fs_newUUID svc) (s, w)") auto
  obtain now s2 w2 where n: "run_state (fs_now svc) (s1, w1) = (now, (s2, w2))" by (cases "run_state (fs_now svc) (s1, w1)") auto
  obtain s3 w3 where o: "run_state (fs_others svc) (s2, w2) = ((), (s3, w3))" by (cases "run_state (fs_others svc) (s2, w2)") auto
  have s3: "?I s3"
    by (rule keeps_run [OF keep(1) o keeps_run [OF keep(2) n keeps_run [OF keep(3) u ready]]])
  define mission where "mission = imported_mission flight operatorID sha (snd (snd parsed)) key h (fst (snd parsed)) (fst parsed) ident now"
  have id: "ms_ID mission = ident" "ident \<in> F"
    using fresh [rule_format, of "(s, w)"] u by (simp_all add: mission_def imported_mission_def)
  obtain m where "CreateMissionForPlannedFlight mission s3 = (Inr m, s')" "r = \<lparr>imp_Mission = m, imp_Replayed = (ms_ID m \<noteq> ident)\<rparr>"
    using run u n o id
    by (cases "CreateMissionForPlannedFlight mission s3")
      (auto simp: store_mission_def durable_call_def Let_def mission_def [symmetric] split: sum.splits)
  with created_mission [OF s3 _ this(1)] id new show ?thesis by (auto simp: mission_def simp del: map_of_eq_Some_iff)
qed

lemma bind_mission_run:
  assumes ready: "import_ready F (imr_IntentID req) (imr_IntentVersion req) vs s"
    and keeps: "fleet_keeps (import_ready F (imr_IntentID req) (imr_IntentVersion req) vs) svc"
    and fresh: "\<forall>\<sigma>. fst (run_state (fs_newUUID svc) \<sigma>) \<in> F"
    and run: "run_state (bind_mission svc json flightID key h req sha parsed) (s, w) = (Inr r, (s', w'))"
    and new: "\<not> imp_Replayed r"
  shows "map_of (s_missions s') (ms_ID (imp_Mission r)) = Some (imp_Mission r)
    \<and> ms_Items (imp_Mission r) = fst parsed \<and> ms_MissionDigest (imp_Mission r) = snd (snd parsed)
    \<and> ms_IntentID (imp_Mission r) = imr_IntentID req \<and> ms_IntentVersion (imp_Mission r) = imr_IntentVersion req
    \<and> ms_AircraftID (imp_Mission r) = imr_AircraftID req
    \<and> (\<exists>v. vs = [v] \<and> inside_volume json v (fst parsed))"
proof -
  let ?I = "import_ready F (imr_IntentID req) (imr_IntentVersion req) vs"
  have others: "keeps ?I (fs_others svc)" using keeps by (simp add: fleet_keeps_def)
  obtain x s1 w1 where f1: "run_state (durable_read svc (GetFlightRecord flightID)) (s, w) = (x, (s1, w1))"
    by (cases "run_state (durable_read svc (GetFlightRecord flightID)) (s, w)") auto
  have s1: "?I s1" using durable_read_run [OF others ready f1] by simp
  obtain flight where bound: "fl_AircraftID flight = imr_AircraftID req" "fl_IntentID flight = imr_IntentID req"
      "fl_IntentVersion flight = imr_IntentVersion req"
    and run1: "run_state (check_and_store svc json flight key h sha parsed) (s1, w1) = (Inr r, (s', w'))"
    using run f1 by (auto simp: bind_mission_def split: sum.splits if_splits)
  obtain y s2 w2 where b: "run_state (import_binding svc flight) (s1, w1) = (y, (s2, w2))"
    by (cases "run_state (import_binding svc flight) (s1, w1)") auto
  obtain intent operatorID where y: "y = Inr (intent, operatorID)"
    using run1 b by (auto simp: check_and_store_def split: sum.splits)
  have I: "intents_ok s" if "?I s" for s using that by (simp add: import_ready_def)
  note intent = import_binding_run [OF others s1 I b [unfolded y]]
  obtain z s3 w3 where v: "run_state (validateMissionAgainstIntent svc json intent (fst parsed)) (s2, w2) = (z, (s3, w3))"
    by (cases "run_state (validateMissionAgainstIntent svc json intent (fst parsed)) (s2, w2)") auto
  have z: "z = None" and run2: "run_state (store_mission svc flight operatorID key h sha parsed) (s3, w3) = (Inr r, (s', w'))"
    using run1 b y v by (auto simp: check_and_store_def split: option.splits)
  have "keeps ?I (validateMissionAgainstIntent svc json intent (fst parsed))"
    unfolding validateMissionAgainstIntent_def Let_def durable_read_def
    by (auto intro!: keeps_bind others split: sum.splits option.splits)
  then have s3: "?I s3" using v intent(1) by (rule keeps_run)
  have ids: "oi_ID intent = imr_IntentID req" "oi_Version intent = imr_IntentVersion req" using intent bound by simp_all
  have "\<exists>v. vs = [v] \<and> inside_volume json v (fst parsed)"
    using validated_run [OF _ _ v [unfolded z], of F vs] others intent(1) unfolding ids by blast
  with store_mission_run [OF s3 keeps fresh run2 new] bound show ?thesis
    by (auto simp: imported_mission_def simp del: map_of_eq_Some_iff)
qed

subsection \<open>An import\<close>

lemma import_texts:
  "TrimSpace ''fl-1'' = ''fl-1''" "TrimSpace ''k-1'' = ''k-1''" "TrimSpace ''op-1'' = ''op-1''" "TrimSpace ''uav-1'' = ''uav-1''"
  "validateIdempotencyKey ''k-1'' = None" "consistentOperatorID [''o-1'', ''o-1'', []] = Inr ''o-1''"
  by code_simp+

lemma import_tables:
  "s_missions import_store = []" "s_missionByIdempotencyKey import_store = []" "s_missionDeployments import_store = []"
  "s_operationalVolumes import_store = [(operationalVolumeKey import_volume, import_volume)]"
  by (simp_all add: import_store_def store_intent_def NewStore_def)

lemma import_reads:
  "GetFlightRecord ''fl-1'' import_store = Inr (sample_flight\<lparr>fl_OperatorID := ''o-1''\<rparr>)"
  "GetOperationalIntentVersion ''op-1'' 1 import_store = Inr (sample_intent\<lparr>oi_Status := IntentStatusAccepted, oi_OperatorID := ''o-1''\<rparr>)"
  "GetOperationalIntent ''op-1'' import_store = Inr (sample_intent\<lparr>oi_Status := IntentStatusAccepted, oi_OperatorID := ''o-1''\<rparr>)"
  "GetAircraft ''uav-1'' import_store = Inr sample_aircraft"
  by code_simp+

lemma import_volumes: "ListOperationalVolumes ''op-1'' import_store = Inr [import_volume]" "ov_IntentVersion import_volume = 1"
  by (simp_all add: ListOperationalVolumes_def import_tables vals_def import_volume_def sample_volume_def sort_slice_def)

lemma import_covered:
  "CheckMissionCoverage import_json import_volume [waypoint_item 0 sample_leg] = Inr \<lparr>mcr_UncoveredItems = [], mcr_UncoveredSegments = []\<rparr>"
proof -
  have "decodeMissionPolygon import_json (ov_GeoJSON import_volume) = Inr [sample_square]"
    by (simp add: decodeMissionPolygon_def sample_decoder_def sample_square_def point_at_def missionPointsEqual_def)
  moreover have "missionPolygonCoversPoint [sample_square] (mission_point (waypoint_item 0 sample_leg))"
    by (simp add: missionPolygonCoversPoint_def missionRingCoversPoint_def missionPointStrictlyInRing_def cyclic_edges_def
      sample_square_def point_at_def ray_crosses_def mission_point_def waypoint_item_def sample_leg_def)
  ultimately show ?thesis by (simp add: CheckMissionCoverage_def)
qed

lemma import_binding_sample:
  "run_state (import_binding sample_fleet (sample_flight\<lparr>fl_OperatorID := ''o-1''\<rparr>)) (import_store, ())
    = (Inr (sample_intent\<lparr>oi_Status := IntentStatusAccepted, oi_OperatorID := ''o-1''\<rparr>, ''o-1''), (import_store, ()))"
  using import_reads(2-4)
  by (simp add: import_binding_def durable_read_def sample_fleet_def sample_flight_def sample_intent_def sample_aircraft_def import_texts)

lemma import_validated:
  "run_state (validateMissionAgainstIntent sample_fleet import_json
      (sample_intent\<lparr>oi_Status := IntentStatusAccepted, oi_OperatorID := ''o-1''\<rparr>) [waypoint_item 0 sample_leg]) (import_store, ())
    = (None, (import_store, ()))"
proof -
  have "volume_mismatch (sample_intent\<lparr>oi_Status := IntentStatusAccepted, oi_OperatorID := ''o-1''\<rparr>) import_volume = None"
    by (simp add: volume_mismatch_def import_volume_def sample_volume_def sample_intent_def)
  moreover have "altitude_findings import_volume [waypoint_item 0 sample_leg] = []"
    by (simp add: altitude_findings_def waypoint_item_def sample_leg_def hundred_metres import_volume_def sample_volume_def
      zero_OperationalVolume_def)
  moreover have "oi_ID sample_intent = ''op-1''" "oi_Version sample_intent = 1" by (simp_all add: sample_intent_def)
  ultimately show ?thesis
    by (simp add: validateMissionAgainstIntent_def durable_read_def sample_fleet_def import_volumes volumesForVersion_def
      import_covered coverage_error_def coverage_findings_def)
qed

lemma import_created:
  "\<exists>m s'. CreateMissionForPlannedFlight (imported_mission (sample_flight\<lparr>fl_OperatorID := ''o-1''\<rparr>) ''o-1'' sha d ''k-1'' h fs items ''u-1'' 5)
     import_store = (Inr m, s') \<and> ms_ID m = ''u-1''"
proof -
  have "map_of (s_flightRecords import_store) ''fl-1'' = Some (sample_flight\<lparr>fl_OperatorID := ''o-1''\<rparr>)"
    "latestOperationalIntent import_store ''op-1'' = Some (sample_intent\<lparr>oi_Status := IntentStatusAccepted, oi_OperatorID := ''o-1''\<rparr>)"
    using import_reads(1,3) by (auto simp: GetFlightRecord_def GetOperationalIntent_def found_def split: option.splits)
  then show ?thesis
    by (simp add: CreateMissionForPlannedFlight_def createMissionLocked_def Let_def mission_by_key_def import_tables
      imported_mission_def sample_flight_def sample_intent_def hasOutstandingMissionDeploymentForFlightLocked_def vals_def)
qed

lemma import_sample_run:
  "\<exists>r s'. run_state (ImportMission sample_fleet import_json (\<lambda>_. Inr ''d'') ''fl-1'' ''k-1'' sample_import) (import_store, ())
     = (Inr r, (s', ())) \<and> \<not> imp_Replayed r"
proof -
  have keys: "GetMissionByIdempotencyKey ''k-1'' import_store = Inl ErrNotFound"
    by (simp add: GetMissionByIdempotencyKey_def mission_by_key_def import_tables)
  have fleet: "run_state (fs_others sample_fleet) (s, ()) = ((), (s, ()))" "run_state (fs_now sample_fleet) (s, ()) = (5, (s, ()))"
    "run_state (fs_newUUID sample_fleet) (s, ()) = (''u-1'', (s, ()))" "fs_sha256Hex sample_fleet = id" for s
    by (simp_all add: sample_fleet_def)
  have flight: "fl_Status (sample_flight\<lparr>fl_OperatorID := ''o-1''\<rparr>) = FlightStatusPlanned"
    "fl_AircraftID (sample_flight\<lparr>fl_OperatorID := ''o-1''\<rparr>) = ''uav-1''"
    "fl_IntentID (sample_flight\<lparr>fl_OperatorID := ''o-1''\<rparr>) = ''op-1''"
    "fl_IntentVersion (sample_flight\<lparr>fl_OperatorID := ''o-1''\<rparr>) = 1" by (simp_all add: sample_flight_def)
  obtain m s' where created: "CreateMissionForPlannedFlight (imported_mission (sample_flight\<lparr>fl_OperatorID := ''o-1''\<rparr>) ''o-1''
       (print_route sample_home [sample_leg]) ''d'' ''k-1''
       (import_request_hash sample_fleet ''fl-1'' ''uav-1'' ''op-1'' 1 (print_route sample_home [sample_leg]))
       [missionWarning ''landing_not_declared'' ''mission contains no NAV_LAND item''] [waypoint_item 0 sample_leg] ''u-1'' 5)
     import_store = (Inr m, s')" "ms_ID m = ''u-1''"
    using import_created by blast
  have "run_state (store_mission sample_fleet (sample_flight\<lparr>fl_OperatorID := ''o-1''\<rparr>) ''o-1'' ''k-1''
       (import_request_hash sample_fleet ''fl-1'' ''uav-1'' ''op-1'' 1 (print_route sample_home [sample_leg]))
       (print_route sample_home [sample_leg]) ([waypoint_item 0 sample_leg],
         [missionWarning ''landing_not_declared'' ''mission contains no NAV_LAND item''], ''d'')) (import_store, ())
    = (Inr \<lparr>imp_Mission = m, imp_Replayed = False\<rparr>, (s', ()))"
    using created by (simp add: store_mission_def fleet durable_call_def Let_def imported_mission_def)
  then have "run_state (bind_mission sample_fleet import_json ''fl-1'' ''k-1''
       (import_request_hash sample_fleet ''fl-1'' ''uav-1'' ''op-1'' 1 (print_route sample_home [sample_leg])) sample_import
       (print_route sample_home [sample_leg]) ([waypoint_item 0 sample_leg],
         [missionWarning ''landing_not_declared'' ''mission contains no NAV_LAND item''], ''d'')) (import_store, ())
    = (Inr \<lparr>imp_Mission = m, imp_Replayed = False\<rparr>, (s', ()))"
    using flight by (simp add: bind_mission_def check_and_store_def durable_read_def fleet import_reads(1) sample_import_def
      import_binding_sample import_validated)
  moreover have "sample_import\<lparr>imr_AircraftID := ''uav-1'', imr_IntentID := ''op-1''\<rparr> = sample_import"
    by (simp add: sample_import_def)
  ultimately show ?thesis
    using sample_route_accepted
    by (simp add: ImportMission_def Let_def durable_read_def fleet keys import_texts sample_import_def)
qed

section \<open>Properties\<close>



text \<open>
  C28: a printed route parses back to itself. A route of at most 200 waypoints, written as a WPL 110
  file with a HOME row, coordinates with seven decimals and altitudes with two, is accepted, and
  the parsed items are its waypoints: sequence, command and coordinates to the last digit, and
  the altitude the decimals denote, when the centimetres of the autopilot can hold it.
\<close>

theorem printed_route_parses_back:
  assumes "\<forall>w \<in> set (home # route). waypoint_ok w" and "wy_command home = 16" and "route \<noteq> []" and "length route \<le> 200"
    and "\<forall>w \<in> set route. missionAltitudeCMRoundTrips (metres (wy_altitudeCM w))"
    and "digest (canonicalMissionPlan (route_items 0 route)) = Inr d"
  shows "\<exists>warnings. parseWPL110 sha digest (print_route home route)
    = Inr (route_items 0 route, warnings, d, sha (print_route home route))"
  using printed_route_parsed [of home route digest d sha] assms by blast

theorem printed_route_parses_back_witness:
  "\<exists>warnings. parseWPL110 id (\<lambda>_. Inr ''d'') (print_route sample_home [sample_leg])
    = Inr ([waypoint_item 0 sample_leg], warnings, ''d'', print_route sample_home [sample_leg])"
proof -
  have "\<exists>warnings. parseWPL110 id (\<lambda>_. Inr ''d'') (print_route sample_home [sample_leg])
    = Inr (route_items 0 [sample_leg], warnings, ''d'', id (print_route sample_home [sample_leg]))"
    by (rule printed_route_parses_back)
      (simp_all add: sample_home_def sample_leg_def waypoint_ok_def hundred_metres)
  then show ?thesis by simp
qed

text \<open>
  C26: an imported mission stays inside what was authorized. When \<open>ImportMission\<close> stores a mission,
  and other requests leave the volumes of the intent version to it, the mission is stored under
  its identity, bound to the aircraft and the intent version of the request, with the items and
  the digest the parser made of the source; that intent version has exactly one volume, in MSL,
  and every item is within its altitudes and inside its polygon, as is every leg.
\<close>

theorem imported_mission_inside_volume:
  assumes "import_ready fresh (TrimSpace (imr_IntentID req)) (imr_IntentVersion req) vs s"
    and "fleet_keeps (import_ready fresh (TrimSpace (imr_IntentID req)) (imr_IntentVersion req) vs) svc"
    and "\<forall>\<sigma>. fst (run_state (fs_newUUID svc) \<sigma>) \<in> fresh"
    and "run_state (ImportMission svc json digest i k req) (s, w) = (Inr r, (s', w'))" and "\<not> imp_Replayed r"
  shows "GetMission (ms_ID (imp_Mission r)) s' = Inr (imp_Mission r)
    \<and> ms_AircraftID (imp_Mission r) = TrimSpace (imr_AircraftID req)
    \<and> ms_IntentID (imp_Mission r) = TrimSpace (imr_IntentID req) \<and> ms_IntentVersion (imp_Mission r) = imr_IntentVersion req
    \<and> (\<exists>findings. parseWPL110 (fs_sha256Hex svc) digest (imr_Source req)
         = Inr (ms_Items (imp_Mission r), findings, ms_MissionDigest (imp_Mission r), fs_sha256Hex svc (imr_Source req)))
    \<and> (\<exists>v. vs = [v] \<and> inside_volume json v (ms_Items (imp_Mission r)))"
proof -
  define req' where "req' = req\<lparr>imr_AircraftID := TrimSpace (imr_AircraftID req), imr_IntentID := TrimSpace (imr_IntentID req)\<rparr>"
  define h where "h = import_request_hash svc (TrimSpace i) (imr_AircraftID req') (imr_IntentID req') (imr_IntentVersion req')
    (imr_Source req')"
  have others: "keeps (import_ready fresh (TrimSpace (imr_IntentID req)) (imr_IntentVersion req) vs) (fs_others svc)"
    using assms(2) by (simp add: fleet_keeps_def)
  obtain x s1 w1 where r1: "run_state (durable_read svc (GetMissionByIdempotencyKey (TrimSpace k))) (s, w) = (x, (s1, w1))"
    by (cases "run_state (durable_read svc (GetMissionByIdempotencyKey (TrimSpace k))) (s, w)") auto
  have s1: "import_ready fresh (imr_IntentID req') (imr_IntentVersion req') vs s1"
    using durable_read_run [OF others assms(1) r1] by (simp add: req'_def)
  obtain items findings d where p: "parseWPL110 (fs_sha256Hex svc) digest (imr_Source req)
      = Inr (items, findings, d, fs_sha256Hex svc (imr_Source req))"
    and run: "run_state (bind_mission svc json (TrimSpace i) (TrimSpace k) h req' (fs_sha256Hex svc (imr_Source req))
        (items, findings, d)) (s1, w1) = (Inr r, (s', w'))"
    using assms(4,5) r1 unfolding ImportMission_def Let_def req'_def [symmetric] h_def [symmetric]
    by (auto simp: req'_def split: if_splits option.splits sum.splits prod.splits)
  have "fleet_keeps (import_ready fresh (imr_IntentID req') (imr_IntentVersion req') vs) svc" using assms(2) by (simp add: req'_def)
  from bind_mission_run [OF s1 this assms(3) run assms(5)] p show ?thesis
    by (auto simp: GetMission_def req'_def simp del: map_of_eq_Some_iff)
qed

theorem imported_mission_inside_volume_witness:
  "\<exists>r s'. run_state (ImportMission sample_fleet import_json (\<lambda>_. Inr ''d'') ''fl-1'' ''k-1'' sample_import) (import_store, ())
     = (Inr r, (s', ())) \<and> inside_volume import_json import_volume (ms_Items (imp_Mission r))"
proof -
  obtain r s' where run: "run_state (ImportMission sample_fleet import_json (\<lambda>_. Inr ''d'') ''fl-1'' ''k-1'' sample_import)
      (import_store, ()) = (Inr r, (s', ()))" and new: "\<not> imp_Replayed r"
    using import_sample_run by blast
  let ?I = "import_ready {''u-1''} (TrimSpace (imr_IntentID sample_import)) (imr_IntentVersion sample_import) [import_volume]"
  have "intents_ok import_store" by (simp add: intents_ok_def import_store_def store_intent_def NewStore_def keyed_def)
  then have ready: "?I import_store"
    by (simp add: import_ready_def sample_import_def import_texts import_volumes volumesForVersion_def import_tables vals_def)
  have keeps: "fleet_keeps ?I sample_fleet" by (simp add: fleet_keeps_def sample_fleet_def sample_agent_def)
  have "\<forall>\<sigma>. fst (run_state (fs_newUUID sample_fleet) \<sigma>) \<in> {''u-1''}" by (simp add: sample_fleet_def)
  from imported_mission_inside_volume [OF ready keeps this run new] run show ?thesis by auto
qed

end
