(* ===== verification/Preflight.thy ===== *)
theory Preflight
  imports Intent_Service
begin

text \<open>
  The preflight service, \<open>internal/service/preflight/service.go\<close>: what it checks before an intent may
  be activated, the checks and findings it records, and how the activation of
  \<open>internal/service/intent_service.go\<close> relies on them. Other requests may write the store before each
  of its calls. The weather and NOTAM checks are placeholders in the code and always clear.
\<close>

section \<open>Definitions\<close>

record 'w PreflightService =
  ps_now :: "('w, time) srv"
  ps_others :: "('w, unit) srv"

record PreflightEvaluation =
  pe_Intent :: OperationalIntent
  pe_Checks :: "PreflightCheck list"
  pe_Findings :: "ComplianceFinding list"
  pe_Blocked :: bool

record preflightBuilder =
  pb_intent :: OperationalIntent
  pb_now :: time
  pb_checks :: "PreflightCheck list"
  pb_findings :: "ComplianceFinding list"
  pb_blocked :: bool

subsection \<open>The builder\<close>

definition check_id :: "OperationalIntent \<Rightarrow> string \<Rightarrow> string" where
  "check_id intent key = ''preflight-'' @ oi_ID intent @ ''-v'' @ itoa (oi_Version intent) @ ''-'' @ key"

definition finding_id :: "OperationalIntent \<Rightarrow> string \<Rightarrow> string" where
  "finding_id intent key = ''finding-'' @ oi_ID intent @ ''-v'' @ itoa (oi_Version intent) @ ''-'' @ key"

definition builder_check ::
  "PreflightCheckCategory \<Rightarrow> string \<Rightarrow> string \<Rightarrow> string \<Rightarrow> string \<Rightarrow> string \<Rightarrow> PreflightStatus \<Rightarrow> bool
    \<Rightarrow> preflightBuilder \<Rightarrow> preflightBuilder" where
  "builder_check category key source requirementCode summary remediation status blocking b =
     (let intent = pb_intent b;
          preflight = \<lparr>pc_ID = check_id intent key, pc_OperatorID = oi_OperatorID intent, pc_IntentID = oi_ID intent,
            pc_IntentVersion = oi_Version intent, pc_AircraftID = oi_AircraftID intent, pc_Category = category,
            pc_Source = source, pc_Status = status, pc_Summary = summary, pc_RequirementCode = requirementCode,
            pc_RuleVersion = ''demo.v1'', pc_Blocking = blocking, pc_ValidUntil = None, pc_RawDataURI = [],
            pc_EvidenceRecordID = [], pc_CapturedAt = pb_now b\<rparr>;
          finding = \<lparr>cof_ID = finding_id intent key, cof_OperatorID = oi_OperatorID intent, cof_IntentID = oi_ID intent,
            cof_IntentVersion = oi_Version intent, cof_SubjectType = ''operational_intent'', cof_SubjectID = oi_ID intent,
            cof_RequirementCode = requirementCode,
            cof_Status = (if blocking then ComplianceFindingFail else ComplianceFindingPass),
            cof_Severity = (if blocking then SeverityCritical else SeverityInfo), cof_Blocking = blocking,
            cof_RuleVersion = ''demo.v1'', cof_Remediation = (if blocking then remediation else []),
            cof_Message = summary, cof_EvidenceRecordID = [], cof_EvaluatedAt = pb_now b\<rparr>
      in b\<lparr>pb_checks := pb_checks b @ [preflight], pb_findings := pb_findings b @ [finding]\<rparr>)"

definition builder_clear ::
  "PreflightCheckCategory \<Rightarrow> string \<Rightarrow> string \<Rightarrow> string \<Rightarrow> string \<Rightarrow> preflightBuilder \<Rightarrow> preflightBuilder" where
  "builder_clear category key source requirementCode summary b =
     builder_check category key source requirementCode summary [] PreflightStatusClear False b"

definition builder_block ::
  "PreflightCheckCategory \<Rightarrow> string \<Rightarrow> string \<Rightarrow> string \<Rightarrow> string \<Rightarrow> string \<Rightarrow> preflightBuilder \<Rightarrow> preflightBuilder" where
  "builder_block category key source requirementCode summary remediation b =
     (builder_check category key source requirementCode summary remediation PreflightStatusBlocked True b)\<lparr>pb_blocked := True\<rparr>"

subsection \<open>Aircraft, window and volumes\<close>

definition aircraft_checks :: "Aircraft result \<Rightarrow> preflightBuilder \<Rightarrow> preflightBuilder" where
  "aircraft_checks read b =
     (case read of
        Inl _ \<Rightarrow> builder_block PreflightCheckAirspace ''aircraft_exists'' ''fleet_registry'' ''AIRCRAFT-EXISTS''
          ''aircraft does not exist'' ''create or select a valid aircraft'' b
      | Inr aircraft \<Rightarrow>
          let b1 = builder_clear PreflightCheckAirspace ''aircraft_exists'' ''fleet_registry'' ''AIRCRAFT-EXISTS''
                ''aircraft exists'' b;
              b2 = (if ac_Status aircraft \<noteq> AircraftStatusActive \<or> ac_AcceptanceStatus aircraft \<noteq> AcceptanceStatusAccepted
                then builder_block PreflightCheckAirspace ''aircraft_operational_status'' ''fleet_registry'' ''AIRCRAFT-STATUS''
                  ''aircraft is not active or accepted'' ''set aircraft active or complete acceptance'' b1
                else builder_clear PreflightCheckAirspace ''aircraft_operational_status'' ''fleet_registry'' ''AIRCRAFT-STATUS''
                  ''aircraft status allows operation'' b1)
          in if ac_RemoteIDStatus aircraft = RemoteIDStatusOffline
             then builder_block PreflightCheckRemoteID ''remote_id_online'' ''remote_id_monitor'' ''RID-ONLINE''
               ''remote ID is offline'' ''restore Remote ID broadcast before activation'' b2
             else builder_clear PreflightCheckRemoteID ''remote_id_online'' ''remote_id_monitor'' ''RID-ONLINE''
               ''remote ID is not offline'' b2)"

definition window_check :: "OperationalIntent \<Rightarrow> preflightBuilder \<Rightarrow> preflightBuilder" where
  "window_check intent b =
     (if oi_PlannedStartAt intent < oi_PlannedEndAt intent
      then builder_clear PreflightCheckAirspace ''intent_time_window'' ''intent_service'' ''INTENT-WINDOW''
        ''intent planned time window is valid'' b
      else builder_block PreflightCheckAirspace ''intent_time_window'' ''intent_service'' ''INTENT-WINDOW''
        ''intent planned start must be before planned end'' ''set planned_start_at before planned_end_at'' b)"

definition volumes_check :: "OperationalVolume list \<Rightarrow> preflightBuilder \<Rightarrow> preflightBuilder" where
  "volumes_check volumes b =
     (if volumes = []
      then builder_block PreflightCheckAirspace ''operational_volume_exists'' ''intent_service'' ''VOLUME-EXISTS''
        ''at least one operational volume is required'' ''add an operational volume'' b
      else builder_clear PreflightCheckAirspace ''operational_volume_exists'' ''intent_service'' ''VOLUME-EXISTS''
        ''operational volume exists'' b)"

definition volume_time_check :: "OperationalVolume \<Rightarrow> preflightBuilder \<Rightarrow> preflightBuilder" where
  "volume_time_check volume b =
     (let key = ''volume_'' @ ov_ID volume @ ''_time_window'' in
      if ov_StartsAt volume < ov_EndsAt volume
      then builder_clear PreflightCheckAirspace key ''intent_service'' ''VOLUME-WINDOW''
        ''operational volume time window is valid'' b
      else builder_block PreflightCheckAirspace key ''intent_service'' ''VOLUME-WINDOW''
        ''operational volume start must be before end'' ''set volume starts_at before ends_at'' b)"

definition volume_altitude_check :: "OperationalVolume \<Rightarrow> preflightBuilder \<Rightarrow> preflightBuilder" where
  "volume_altitude_check volume b =
     (let key = ''volume_'' @ ov_ID volume @ ''_altitude_range'' in
      if ov_MinAltitudeM volume \<le> ov_MaxAltitudeM volume
      then builder_clear PreflightCheckAirspace key ''intent_service'' ''VOLUME-ALTITUDE''
        ''operational volume altitude range is valid'' b
      else builder_block PreflightCheckAirspace key ''intent_service'' ''VOLUME-ALTITUDE''
        ''operational volume minimum altitude exceeds maximum altitude'' ''set min_altitude_m <= max_altitude_m'' b)"

definition volume_inside_check :: "OperationalIntent \<Rightarrow> OperationalVolume \<Rightarrow> preflightBuilder \<Rightarrow> preflightBuilder" where
  "volume_inside_check intent volume b =
     (let key = ''volume_'' @ ov_ID volume @ ''_inside_intent_window'' in
      if \<not> ov_StartsAt volume < oi_PlannedStartAt intent \<and> \<not> ov_EndsAt volume > oi_PlannedEndAt intent
      then builder_clear PreflightCheckAirspace key ''intent_service'' ''VOLUME-IN-INTENT''
        ''operational volume is inside planned intent window'' b
      else builder_block PreflightCheckAirspace key ''intent_service'' ''VOLUME-IN-INTENT''
        ''operational volume must be inside planned intent window'' ''adjust volume or planned intent time window'' b)"

definition volume_geojson_check :: "OperationalVolume \<Rightarrow> preflightBuilder \<Rightarrow> preflightBuilder" where
  "volume_geojson_check volume b =
     (let key = ''volume_'' @ ov_ID volume @ ''_inline_geojson'' in
      if ov_GeoJSON volume \<noteq> []
      then builder_clear PreflightCheckAirspace key ''intent_service'' ''VOLUME-GEOJSON''
        ''operational volume has inline GeoJSON evaluable by this server'' b
      else builder_block PreflightCheckAirspace key ''intent_service'' ''VOLUME-GEOJSON''
        ''operational volume requires inline GeoJSON for local conformance evaluation''
        ''provide inline GeoJSON; geometry_uri resolution is not implemented'' b)"

definition volume_checks :: "OperationalIntent \<Rightarrow> OperationalVolume \<Rightarrow> preflightBuilder \<Rightarrow> preflightBuilder" where
  "volume_checks intent volume b =
     volume_geojson_check volume (volume_inside_check intent volume (volume_altitude_check volume (volume_time_check volume b)))"

subsection \<open>Battery and maintenance\<close>

definition battery_health_checks :: "Battery result \<Rightarrow> preflightBuilder \<Rightarrow> preflightBuilder" where
  "battery_health_checks read b =
     (case (case read of Inl _ \<Rightarrow> None | Inr battery \<Rightarrow> bat_StateOfHealth battery) of
        None \<Rightarrow> builder_block PreflightCheckBattery ''battery_soh_known'' ''maintenance_control'' ''BATTERY-SOH-KNOWN''
          ''battery state of health is unknown'' ''record battery state of health'' b
      | Some health \<Rightarrow>
          let b1 = builder_clear PreflightCheckBattery ''battery_soh_known'' ''maintenance_control'' ''BATTERY-SOH-KNOWN''
                ''battery state of health is known'' b
          in if health < 80
             then builder_block PreflightCheckBattery ''battery_soh_minimum'' ''maintenance_control'' ''BATTERY-SOH-80''
               ''battery state of health is below 80'' ''replace or service battery'' b1
             else builder_clear PreflightCheckBattery ''battery_soh_minimum'' ''maintenance_control'' ''BATTERY-SOH-80''
               ''battery state of health is at least 80'' b1)"

definition evaluateBattery ::
  "'w PreflightService \<Rightarrow> OperationalIntent \<Rightarrow> preflightBuilder \<Rightarrow> ('w, preflightBuilder) srv" where
  "evaluateBattery svc intent b = do {
     read \<leftarrow> store_read (ps_others svc) (GetActiveBatteryInstallation (oi_AircraftID intent));
     case (case read of Inl _ \<Rightarrow> None | Inr installation \<Rightarrow> installation) of
       None \<Rightarrow> State_Monad.return (builder_block PreflightCheckBattery ''battery_installed'' ''maintenance_control''
         ''BATTERY-INSTALLED'' ''battery is not installed'' ''install a battery'' b)
     | Some installation \<Rightarrow> do {
         read \<leftarrow> store_read (ps_others svc) (GetBattery (bi_BatteryID installation));
         State_Monad.return (battery_health_checks read (builder_clear PreflightCheckBattery ''battery_installed''
           ''maintenance_control'' ''BATTERY-INSTALLED'' ''battery is installed'' b))
       }
   }"

definition critical_open :: "MaintenanceEvent \<Rightarrow> bool" where
  "critical_open event \<longleftrightarrow> me_Severity event = SeverityCritical \<and> me_ResolvedAt event = None
     \<and> me_Status event \<noteq> MaintenanceStatusClosed"

definition maintenance_check :: "MaintenanceEvent list result \<Rightarrow> preflightBuilder \<Rightarrow> preflightBuilder" where
  "maintenance_check read b =
     (case read of
        Inl _ \<Rightarrow> builder_block PreflightCheckMaintenance ''maintenance_events_available'' ''maintenance_control''
          ''MX-AVAILABLE'' ''maintenance status could not be loaded'' ''retry maintenance status lookup'' b
      | Inr events \<Rightarrow>
          if list_ex critical_open events
          then builder_block PreflightCheckMaintenance ''critical_open_maintenance'' ''maintenance_control'' ''MX-CRITICAL-OPEN''
            ''critical open maintenance event exists'' ''resolve critical maintenance before activation'' b
          else builder_clear PreflightCheckMaintenance ''critical_open_maintenance'' ''maintenance_control'' ''MX-CRITICAL-OPEN''
            ''no critical open maintenance events'' b)"

definition evaluateMaintenance ::
  "'w PreflightService \<Rightarrow> OperationalIntent \<Rightarrow> preflightBuilder \<Rightarrow> ('w, preflightBuilder) srv" where
  "evaluateMaintenance svc intent b = do {
     read \<leftarrow> store_read (ps_others svc) (ListMaintenanceEvents (oi_AircraftID intent));
     State_Monad.return (maintenance_check read b)
   }"

subsection \<open>The evaluation\<close>

definition demo_checks :: "preflightBuilder \<Rightarrow> preflightBuilder" where
  "demo_checks b =
     builder_clear PreflightCheckNOTAM ''demo_notam'' ''demo_notam_provider'' ''NOTAM-DEMO'' ''demo NOTAM check clear''
       (builder_clear PreflightCheckWeather ''demo_weather'' ''demo_weather_provider'' ''WX-DEMO'' ''demo weather check clear'' b)"

definition record_evaluation ::
  "'w PreflightService \<Rightarrow> OperationalIntent \<Rightarrow> preflightBuilder \<Rightarrow> ('w, PreflightEvaluation result) srv" where
  "record_evaluation svc intent b = do {
     err \<leftarrow> record_all (ps_others svc) ''record preflight check'' RecordPreflightCheck (pb_checks b);
     case err of
       Some e \<Rightarrow> State_Monad.return (Inl e)
     | None \<Rightarrow> do {
         err \<leftarrow> record_all (ps_others svc) ''record compliance finding'' RecordComplianceFinding (pb_findings b);
         State_Monad.return (case err of
             Some e \<Rightarrow> Inl e
           | None \<Rightarrow> Inr \<lparr>pe_Intent = intent, pe_Checks = pb_checks b, pe_Findings = pb_findings b, pe_Blocked = pb_blocked b\<rparr>)
       }
   }"

text \<open>What is known before the store is asked for battery and maintenance.\<close>

definition intent_checks ::
  "OperationalIntent \<Rightarrow> Aircraft result \<Rightarrow> OperationalVolume list \<Rightarrow> time \<Rightarrow> preflightBuilder" where
  "intent_checks intent aircraft volumes now =
     fold (volume_checks intent) volumes (volumes_check volumes (window_check intent (aircraft_checks aircraft
       \<lparr>pb_intent = intent, pb_now = now, pb_checks = [], pb_findings = [], pb_blocked = False\<rparr>)))"

definition EvaluateIntent :: "'w PreflightService \<Rightarrow> string \<Rightarrow> ('w, PreflightEvaluation result) srv" where
  "EvaluateIntent svc intentID = do {
     read \<leftarrow> store_read (ps_others svc) (GetOperationalIntent intentID);
     case read of
       Inl e \<Rightarrow> State_Monad.return (Inl (wrap ''get operational intent'' e))
     | Inr intent \<Rightarrow> do {
         aircraft \<leftarrow> store_read (ps_others svc) (GetAircraft (oi_AircraftID intent));
         listed \<leftarrow> store_read (ps_others svc) (ListOperationalVolumes (oi_ID intent));
         case listed of
           Inl e \<Rightarrow> State_Monad.return (Inl (wrap ''list operational volumes'' e))
         | Inr volumes \<Rightarrow> do {
             now \<leftarrow> ps_now svc;
             b \<leftarrow> evaluateBattery svc intent
               (intent_checks intent aircraft (volumesForVersion volumes (oi_Version intent)) now);
             b \<leftarrow> evaluateMaintenance svc intent b;
             record_evaluation svc intent (demo_checks b)
           }
       }
   }"

subsection \<open>What the evaluation means\<close>

text \<open>An intent that may fly, in terms of the store alone.\<close>

definition volume_fit :: "OperationalIntent \<Rightarrow> OperationalVolume \<Rightarrow> bool" where
  "volume_fit i v \<longleftrightarrow> ov_StartsAt v < ov_EndsAt v \<and> ov_MinAltitudeM v \<le> ov_MaxAltitudeM v
     \<and> oi_PlannedStartAt i \<le> ov_StartsAt v \<and> ov_EndsAt v \<le> oi_PlannedEndAt i \<and> ov_GeoJSON v \<noteq> []"

definition battery_fit :: "string \<Rightarrow> Store \<Rightarrow> bool" where
  "battery_fit aircraftID s \<longleftrightarrow> (\<exists>inst bat health. GetActiveBatteryInstallation aircraftID s = Inr (Some inst)
     \<and> GetBattery (bi_BatteryID inst) s = Inr bat \<and> bat_StateOfHealth bat = Some health \<and> 80 \<le> health)"

definition fit_to_fly :: "OperationalIntent \<Rightarrow> Store \<Rightarrow> bool" where
  "fit_to_fly i s \<longleftrightarrow>
     (\<exists>a. GetAircraft (oi_AircraftID i) s = Inr a \<and> ac_Status a = AircraftStatusActive
        \<and> ac_AcceptanceStatus a = AcceptanceStatusAccepted \<and> ac_RemoteIDStatus a \<noteq> RemoteIDStatusOffline)
     \<and> oi_PlannedStartAt i < oi_PlannedEndAt i
     \<and> (\<exists>v. current_volume i s v) \<and> (\<forall>v. current_volume i s v \<longrightarrow> volume_fit i v)
     \<and> battery_fit (oi_AircraftID i) s
     \<and> (\<forall>e \<in> set (s_maintenanceEvents s). me_AircraftID e = oi_AircraftID i \<longrightarrow> \<not> critical_open e)"

text \<open>The tables an evaluation reads, unchanged.\<close>

definition same_fleet :: "Store \<Rightarrow> Store \<Rightarrow> bool" where
  "same_fleet s0 s \<longleftrightarrow> s_operationalIntents s = s_operationalIntents s0 \<and> s_aircraft s = s_aircraft s0
     \<and> s_operationalVolumes s = s_operationalVolumes s0 \<and> s_batteryInstallations s = s_batteryInstallations s0
     \<and> s_batteries s = s_batteries s0 \<and> s_maintenanceEvents s = s_maintenanceEvents s0"

text \<open>
  Builders that agree with what they hold: they are blocked exactly when a check and a finding of
  theirs block an activation, and all they hold is of their intent version.
\<close>

definition faithful :: "preflightBuilder \<Rightarrow> bool" where
  "faithful b \<longleftrightarrow> (pb_blocked b \<longleftrightarrow> (\<exists>c \<in> set (pb_checks b). blocking_check c))
     \<and> (pb_blocked b \<longleftrightarrow> (\<exists>f \<in> set (pb_findings b). blocking_finding f))
     \<and> (\<forall>c \<in> set (pb_checks b). pc_IntentID c = oi_ID (pb_intent b) \<and> pc_IntentVersion c = oi_Version (pb_intent b))"

definition extends :: "string set \<Rightarrow> preflightBuilder \<Rightarrow> preflightBuilder \<Rightarrow> bool" where
  "extends K b b' \<longleftrightarrow> pb_intent b' = pb_intent b \<and> (faithful b \<longrightarrow> faithful b')
     \<and> (\<exists>ks. distinct ks \<and> set ks \<subseteq> K
          \<and> map pc_ID (pb_checks b') = map pc_ID (pb_checks b) @ map (check_id (pb_intent b)) ks)"

definition aircraft_keys :: "string set" where
  "aircraft_keys = {''aircraft_exists'', ''aircraft_operational_status'', ''remote_id_online''}"

definition intent_keys :: "string set" where
  "intent_keys = {''intent_time_window'', ''operational_volume_exists''}"

definition upkeep_keys :: "string set" where
  "upkeep_keys = {''battery_installed'', ''battery_soh_known'', ''battery_soh_minimum'',
     ''maintenance_events_available'', ''critical_open_maintenance'', ''demo_weather'', ''demo_notam''}"

definition volume_keys :: "OperationalVolume \<Rightarrow> string set" where
  "volume_keys v = (\<lambda>suffix. ''volume_'' @ ov_ID v @ suffix)
     ` {''_time_window'', ''_altitude_range'', ''_inside_intent_window'', ''_inline_geojson''}"

text \<open>A fleet that may fly, a service that runs undisturbed, and a check of a volume that was replaced.\<close>

definition fit_aircraft :: Aircraft where
  "fit_aircraft = \<lparr>ac_ID = ''uav-1'', ac_OperatorID = [], ac_AgentID = [], ac_TailNumber = [], ac_Registration = [],
     ac_SerialNumber = [], ac_Name = [], ac_Model = [], ac_Manufacturer = [], ac_Status = AircraftStatusActive,
     ac_AcceptanceStatus = AcceptanceStatusAccepted, ac_RemoteIDSerial = [], ac_RemoteIDStatus = RemoteIDStatusBroadcasting,
     ac_ConfigVersion = [], ac_SoftwareVersion = [], ac_HardwareVersion = [], ac_CreatedAt = 0, ac_UpdatedAt = 0\<rparr>"

definition sample_battery :: "real \<Rightarrow> Battery" where
  "sample_battery health = \<lparr>bat_ID = ''b1'', bat_OperatorID = [], bat_SerialNumber = [], bat_Model = [],
     bat_StateOfHealth = Some health, bat_CycleCount = 1, bat_Status = MaintenanceStatusCurrent, bat_ManufacturedAt = None,
     bat_CreatedAt = 0, bat_UpdatedAt = 0\<rparr>"

definition sample_installation :: BatteryInstallation where
  "sample_installation = \<lparr>bi_ID = ''i1'', bi_OperatorID = [], bi_AircraftID = ''uav-1'', bi_BatteryID = ''b1'',
     bi_InstalledAt = 5, bi_RemovedAt = None\<rparr>"

definition fleet_store :: "real \<Rightarrow> PreflightCheck list \<Rightarrow> Store" where
  "fleet_store health checks = ready_store\<lparr>s_aircraft := [(''uav-1'', fit_aircraft)],
     s_batteries := [(''b1'', sample_battery health)], s_batteryInstallations := [sample_installation],
     s_operationalVolumes := [(operationalVolumeKey sample_volume, sample_volume\<lparr>ov_GeoJSON := ''{}''\<rparr>)],
     s_preflightChecks := checks\<rparr>"

definition quiet_preflight :: "unit PreflightService" where
  "quiet_preflight = \<lparr>ps_now = reads (\<lambda>_. 9), ps_others = State_Monad.return ()\<rparr>"

definition replaced_check :: PreflightCheck where
  "replaced_check = sample_check\<lparr>pc_ID := check_id sample_intent ''volume_v0_time_window'', pc_Status := PreflightStatusBlocked\<rparr>"

section \<open>Lemmas\<close>

interpretation preflight_records: store_log s_preflightChecks pc_ID RecordPreflightCheck ..

interpretation finding_records: store_log s_complianceFindings cof_ID RecordComplianceFinding ..

subsection \<open>The builder\<close>

lemma check_id_inj [simp]: "check_id i k = check_id i k' \<longleftrightarrow> k = k'"
  by (simp add: check_id_def)

lemma builder_intent [simp]:
  "pb_intent (builder_clear c k so rc su b) = pb_intent b"
  "pb_intent (builder_block c k so rc su re b) = pb_intent b"
  "pb_intent (b\<lparr>pb_blocked := x\<rparr>) = pb_intent b"
  by (simp_all add: builder_clear_def builder_block_def builder_check_def Let_def)

lemma builder_blocked [simp]:
  "pb_blocked (builder_clear c k so rc su b) = pb_blocked b"
  "pb_blocked (builder_block c k so rc su re b)"
  by (simp_all add: builder_clear_def builder_block_def builder_check_def Let_def)

lemma builder_ids [simp]:
  "map pc_ID (pb_checks (builder_clear c k so rc su b)) = map pc_ID (pb_checks b) @ [check_id (pb_intent b) k]"
  "map pc_ID (pb_checks (builder_block c k so rc su re b)) = map pc_ID (pb_checks b) @ [check_id (pb_intent b) k]"
  by (simp_all add: builder_clear_def builder_block_def builder_check_def Let_def)

lemma faithful_clear: "faithful b \<Longrightarrow> faithful (builder_clear c k so rc su b)"
  by (auto simp: faithful_def builder_clear_def builder_check_def Let_def blocking_check_def blocking_finding_def)

lemma faithful_block: "faithful b \<Longrightarrow> faithful (builder_block c k so rc su re b)"
  by (auto simp: faithful_def builder_block_def builder_check_def Let_def blocking_check_def blocking_finding_def)

lemma extends_refl: "extends L b b"
  by (auto simp: extends_def)

lemma extends_add:
  assumes "extends (L - {k}) b b'" and "k \<in> L" and "pb_intent b'' = pb_intent b'" and "faithful b' \<Longrightarrow> faithful b''"
    and "map pc_ID (pb_checks b'') = map pc_ID (pb_checks b') @ [check_id (pb_intent b') k]"
  shows "extends L b b''"
proof -
  from assms(1) obtain ks where "distinct ks" "set ks \<subseteq> L - {k}"
    "map pc_ID (pb_checks b') = map pc_ID (pb_checks b) @ map (check_id (pb_intent b)) ks"
    by (auto simp: extends_def)
  then show ?thesis using assms by (auto simp: extends_def intro!: exI [of _ "ks @ [k]"])
qed

lemma extends_clear:
  "extends (L - {k}) b b' \<Longrightarrow> k \<in> L \<Longrightarrow> extends L b (builder_clear c k so rc su b')"
  by (rule extends_add [of L k b b']) (simp_all add: faithful_clear)

lemma extends_block:
  "extends (L - {k}) b b' \<Longrightarrow> k \<in> L \<Longrightarrow> extends L b (builder_block c k so rc su re b')"
  by (rule extends_add [of L k b b']) (simp_all add: faithful_block)

lemmas extends_intros = extends_clear extends_block extends_refl

lemma extends_trans:
  assumes "extends K b b'" and "extends L b' b''" and "K \<inter> L = {}"
  shows "extends (K \<union> L) b b''"
proof -
  from assms obtain ks ls where "distinct ks" "set ks \<subseteq> K" "distinct ls" "set ls \<subseteq> L"
    "map pc_ID (pb_checks b'') = map pc_ID (pb_checks b) @ map (check_id (pb_intent b)) (ks @ ls)"
    by (auto simp: extends_def)
  moreover from this(1-4) assms(3) have "distinct (ks @ ls)" by auto
  ultimately show ?thesis using assms(1,2) by (auto simp: extends_def intro!: exI [of _ "ks @ ls"])
qed

lemma extends_mono: "extends K b b' \<Longrightarrow> K \<subseteq> L \<Longrightarrow> extends L b b'"
  by (fastforce simp: extends_def)

subsection \<open>The checks of each part\<close>

lemma aircraft_checks_extends: "extends aircraft_keys b (aircraft_checks r b)"
  by (auto simp: aircraft_checks_def aircraft_keys_def Let_def intro!: extends_intros split: sum.split)

lemma window_checks_extends: "extends intent_keys b (volumes_check vs (window_check i b))"
  by (auto simp: volumes_check_def window_check_def intent_keys_def intro!: extends_intros)

lemma volume_checks_extends: "extends (volume_keys v) b (volume_checks i v b)"
  by (auto simp: volume_checks_def volume_geojson_check_def volume_inside_check_def volume_altitude_check_def
      volume_time_check_def volume_keys_def Let_def intro!: extends_intros)

lemma volume_keys_disjoint: "ov_ID v \<noteq> ov_ID u \<Longrightarrow> volume_keys v \<inter> volume_keys u = {}"
  by (auto simp: volume_keys_def dest!: arg_cong [where f = rev])

lemma volumes_extends:
  "distinct (map ov_ID vs) \<Longrightarrow> extends (\<Union>v \<in> set vs. volume_keys v) b (fold (volume_checks i) vs b)"
proof (induction vs arbitrary: b)
  case (Cons v vs)
  have "volume_keys v \<inter> (\<Union>u \<in> set vs. volume_keys u) = {}"
    using Cons.prems volume_keys_disjoint [of v] by (fastforce simp: image_iff)
  with Cons show ?case
    using extends_trans [OF volume_checks_extends [of v b i], of "\<Union>u \<in> set vs. volume_keys u"] by simp
qed (simp add: extends_refl)

lemma battery_health_extends:
  "extends L b b' \<Longrightarrow> {''battery_soh_known'', ''battery_soh_minimum''} \<inter> L = {} \<Longrightarrow>
     {''battery_soh_known'', ''battery_soh_minimum''} \<union> L \<subseteq> M \<Longrightarrow> extends M b (battery_health_checks r b')"
  by (auto simp: battery_health_checks_def Let_def intro!: extends_intros extends_mono [of L b b'] split: sum.split option.split)

lemma evaluateBattery_extends:
  "extends {''battery_installed'', ''battery_soh_known'', ''battery_soh_minimum''} b
     (fst (run_state (evaluateBattery svc i b) \<sigma>))"
proof -
  obtain s1 w1 where o1: "run_state (ps_others svc) \<sigma> = ((), (s1, w1))" by (cases "run_state (ps_others svc) \<sigma>") auto
  obtain s2 w2 where o2: "run_state (ps_others svc) (s1, w1) = ((), (s2, w2))"
    by (cases "run_state (ps_others svc) (s1, w1)") auto
  show ?thesis
    by (auto simp: evaluateBattery_def store_read_def o1 o2 GetActiveBatteryInstallation_def split: option.split
        intro!: extends_intros battery_health_extends [of "{''battery_installed''}"])
qed

lemma maintenance_extends:
  "extends {''maintenance_events_available'', ''critical_open_maintenance'', ''demo_weather'', ''demo_notam''} b
     (demo_checks (maintenance_check r b))"
  by (auto simp: demo_checks_def maintenance_check_def intro!: extends_intros split: sum.split)

lemma fixed_keys_disjoint:
  "aircraft_keys \<inter> intent_keys = {}" "(aircraft_keys \<union> intent_keys) \<inter> volume_keys v = {}"
  "upkeep_keys \<inter> volume_keys v = {}" "(aircraft_keys \<union> intent_keys) \<inter> upkeep_keys = {}"
  by (auto simp: aircraft_keys_def intent_keys_def upkeep_keys_def volume_keys_def)

lemma intent_checks_extends:
  assumes "distinct (map ov_ID vs)"
  shows "extends (aircraft_keys \<union> intent_keys \<union> (\<Union>v \<in> set vs. volume_keys v))
    \<lparr>pb_intent = i, pb_now = now, pb_checks = [], pb_findings = [], pb_blocked = False\<rparr> (intent_checks i a vs now)"
  unfolding intent_checks_def
  by (rule extends_trans [OF extends_trans [OF aircraft_checks_extends window_checks_extends fixed_keys_disjoint(1)]
      volumes_extends [OF assms]]) (use fixed_keys_disjoint(2) in blast)

text \<open>The builder an evaluation ends with is faithful, and no two of its checks share an identity.\<close>

lemma evaluation_builder:
  assumes "distinct (map ov_ID vs)" and "run_state (evaluateBattery svc i (intent_checks i a vs now)) \<sigma> = (b, \<sigma>')"
  shows "faithful (demo_checks (maintenance_check r b)) \<and> distinct_ids pc_ID (pb_checks (demo_checks (maintenance_check r b)))
    \<and> pb_intent (demo_checks (maintenance_check r b)) = i
    \<and> pc_ID ` set (pb_checks (demo_checks (maintenance_check r b)))
        \<subseteq> check_id i ` (aircraft_keys \<union> intent_keys \<union> upkeep_keys \<union> (\<Union>v \<in> set vs. volume_keys v))"
proof -
  let ?start = "\<lparr>pb_intent = i, pb_now = now, pb_checks = [], pb_findings = [], pb_blocked = False\<rparr>"
  let ?b = "demo_checks (maintenance_check r b)"
  let ?K = "aircraft_keys \<union> intent_keys \<union> (\<Union>v \<in> set vs. volume_keys v)"
  have "extends {''battery_installed'', ''battery_soh_known'', ''battery_soh_minimum''} (intent_checks i a vs now) b"
    using evaluateBattery_extends [of "intent_checks i a vs now" svc i \<sigma>] assms(2) by simp
  from extends_trans [OF this maintenance_extends [of b r]] have "extends upkeep_keys (intent_checks i a vs now) ?b"
    by (rule extends_mono) (simp_all add: upkeep_keys_def)
  then have "extends (?K \<union> upkeep_keys) ?start ?b"
    by (rule extends_trans [OF intent_checks_extends [OF assms(1)]]) (use fixed_keys_disjoint in blast)
  then obtain ks where ks: "distinct ks" "set ks \<subseteq> ?K \<union> upkeep_keys" "map pc_ID (pb_checks ?b) = map (check_id i) ks"
    and b: "pb_intent ?b = i" "faithful ?start \<longrightarrow> faithful ?b" by (auto simp: extends_def)
  have "distinct (map pc_ID (pb_checks ?b))" unfolding ks(3) using ks(1) by (simp add: distinct_map inj_on_def)
  moreover have "pc_ID ` set (pb_checks ?b) = check_id i ` set ks" using ks(3) by (metis list.set_map)
  moreover have "faithful ?start" by (simp add: faithful_def)
  ultimately show ?thesis using b ks(2) by blast
qed

subsection \<open>Reads of an unchanged fleet\<close>

lemma same_fleet_reads:
  assumes "same_fleet s0 s"
  shows "GetOperationalIntent i s = GetOperationalIntent i s0" "GetAircraft a s = GetAircraft a s0"
    "ListOperationalVolumes i s = ListOperationalVolumes i s0"
    "GetActiveBatteryInstallation a s = GetActiveBatteryInstallation a s0" "GetBattery bt s = GetBattery bt s0"
    "ListMaintenanceEvents a s = ListMaintenanceEvents a s0"
  using assms
  by (simp_all add: same_fleet_def GetOperationalIntent_def latestOperationalIntent_def GetAircraft_def
      ListOperationalVolumes_def GetActiveBatteryInstallation_def GetBattery_def ListMaintenanceEvents_def)

lemma same_fleet_refl: "same_fleet s s"
  by (simp add: same_fleet_def)

lemma same_fleet_records [simp]:
  "same_fleet s0 (snd (RecordPreflightCheck c s)) = same_fleet s0 s"
  "same_fleet s0 (snd (RecordComplianceFinding f s)) = same_fleet s0 s"
  by (simp_all add: same_fleet_def RecordPreflightCheck_def RecordComplianceFinding_def)

subsection \<open>When each part blocks\<close>

lemma aircraft_blocked:
  "pb_blocked (aircraft_checks r b) \<longleftrightarrow> pb_blocked b \<or> \<not> (\<exists>a. r = Inr a \<and> ac_Status a = AircraftStatusActive
     \<and> ac_AcceptanceStatus a = AcceptanceStatusAccepted \<and> ac_RemoteIDStatus a \<noteq> RemoteIDStatusOffline)"
  by (auto simp: aircraft_checks_def Let_def split: sum.split)

lemma volume_blocked: "pb_blocked (volume_checks i v b) \<longleftrightarrow> pb_blocked b \<or> \<not> volume_fit i v"
  by (auto simp: volume_checks_def volume_geojson_check_def volume_inside_check_def volume_altitude_check_def
      volume_time_check_def volume_fit_def Let_def)

lemma volumes_blocked: "pb_blocked (fold (volume_checks i) vs b) \<longleftrightarrow> pb_blocked b \<or> (\<exists>v \<in> set vs. \<not> volume_fit i v)"
  by (induction vs arbitrary: b) (auto simp: volume_blocked)

lemma intent_checks_blocked:
  "pb_blocked (intent_checks i r vs now) \<longleftrightarrow> \<not> ((\<exists>a. r = Inr a \<and> ac_Status a = AircraftStatusActive
       \<and> ac_AcceptanceStatus a = AcceptanceStatusAccepted \<and> ac_RemoteIDStatus a \<noteq> RemoteIDStatusOffline)
     \<and> oi_PlannedStartAt i < oi_PlannedEndAt i \<and> vs \<noteq> [] \<and> (\<forall>v \<in> set vs. volume_fit i v))"
  by (auto simp: intent_checks_def volumes_blocked volumes_check_def window_check_def aircraft_blocked)

lemma battery_blocked:
  assumes "keeps (same_fleet s0) (ps_others svc)" and "same_fleet s0 s"
    and "run_state (evaluateBattery svc i b) (s, w) = (b', (s', w'))"
  shows "pb_blocked b' \<longleftrightarrow> pb_blocked b \<or> \<not> battery_fit (oi_AircraftID i) s0"
proof -
  obtain s1 w1 where o1: "run_state (ps_others svc) (s, w) = ((), (s1, w1))" by (cases "run_state (ps_others svc) (s, w)") auto
  have 1: "same_fleet s0 s1" by (rule keeps_run [OF assms(1) o1 assms(2)])
  obtain s2 w2 where o2: "run_state (ps_others svc) (s1, w1) = ((), (s2, w2))"
    by (cases "run_state (ps_others svc) (s1, w1)") auto
  have 2: "same_fleet s0 s2" by (rule keeps_run [OF assms(1) o2 1])
  from assms(3) show ?thesis
    by (auto simp: evaluateBattery_def store_read_def o1 o2 same_fleet_reads [OF 1] same_fleet_reads [OF 2]
        battery_fit_def battery_health_checks_def Let_def split: sum.splits option.splits if_splits)
qed

lemma maintenance_blocked:
  "pb_blocked (demo_checks (maintenance_check (ListMaintenanceEvents a s) b)) \<longleftrightarrow> pb_blocked b
     \<or> (\<exists>e \<in> set (s_maintenanceEvents s). (a = [] \<or> me_AircraftID e = a) \<and> critical_open e)"
  by (auto simp: demo_checks_def maintenance_check_def ListMaintenanceEvents_def list_ex_iff)

subsection \<open>The run of an evaluation\<close>

lemma evaluateBattery_keeps: "keeps I (ps_others svc) \<Longrightarrow> keeps I (evaluateBattery svc i b)"
  by (auto simp: evaluateBattery_def intro!: keeps_bind keeps_store_read split: option.split)

lemma keeps_conj: "keeps I m \<Longrightarrow> keeps J m \<Longrightarrow> keeps (\<lambda>s. I s \<and> J s) m"
  by (auto simp: keeps_def state_io_rel_def)

lemma record_evaluation_run:
  "\<exists>s1 w1 s' w'. run_state (record_all (ps_others svc) ''record preflight check'' RecordPreflightCheck (pb_checks b)) (s, w)
      = (None, (s1, w1))
    \<and> run_state (record_all (ps_others svc) ''record compliance finding'' RecordComplianceFinding (pb_findings b)) (s1, w1)
      = (None, (s', w'))
    \<and> run_state (record_evaluation svc i b) (s, w) =
      (Inr \<lparr>pe_Intent = i, pe_Checks = pb_checks b, pe_Findings = pb_findings b, pe_Blocked = pb_blocked b\<rparr>, (s', w'))"
proof -
  obtain s1 w1 where r1: "run_state (record_all (ps_others svc) ''record preflight check'' RecordPreflightCheck (pb_checks b)) (s, w)
      = (None, (s1, w1))"
    using preflight_records.record_all_ok by (metis prod.collapse)
  obtain s' w' where "run_state (record_all (ps_others svc) ''record compliance finding'' RecordComplianceFinding (pb_findings b))
      (s1, w1) = (None, (s', w'))"
    using finding_records.record_all_ok by (metis prod.collapse)
  with r1 show ?thesis by (auto simp: record_evaluation_def)
qed

lemma record_evaluation_keeps:
  assumes "keeps I (ps_others svc)" and "\<And>s c. I s \<Longrightarrow> I (snd (RecordPreflightCheck c s))"
    and "\<And>s f. I s \<Longrightarrow> I (snd (RecordComplianceFinding f s))"
  shows "keeps I (record_evaluation svc i b)"
  using assms by (auto simp: record_evaluation_def intro!: keeps_bind keeps_record_all split: option.split)

text \<open>Every evaluation of a stored intent comes to an answer; \<open>I\<close> is what other requests keep.\<close>

lemma evaluate_run:
  assumes "keeps I (ps_others svc)" and "keeps I (ps_now svc)" and "I s"
  obtains s1 s2 s3 i vs now st wt b s4 w4 s5 w5 where "I s1" and "I s2" and "I s3" and "I st" and "I s5"
    and "GetOperationalIntent iid s1 = Inr i" and "ListOperationalVolumes (oi_ID i) s3 = Inr vs"
    and "run_state (evaluateBattery svc i (intent_checks i (GetAircraft (oi_AircraftID i) s2)
           (volumesForVersion vs (oi_Version i)) now)) (st, wt) = (b, (s4, w4))"
    and "run_state (EvaluateIntent svc iid) (s, w) = run_state (record_evaluation svc i
           (demo_checks (maintenance_check (ListMaintenanceEvents (oi_AircraftID i) s5) b))) (s5, w5)"
  | e \<sigma> s1 where "I s1" and "GetOperationalIntent iid s1 = Inl e"
      and "run_state (EvaluateIntent svc iid) (s, w) = (Inl (wrap ''get operational intent'' e), \<sigma>)"
proof -
  obtain s1 w1 where r1: "run_state (store_read (ps_others svc) (GetOperationalIntent iid)) (s, w)
      = (GetOperationalIntent iid s1, (s1, w1))" and i1: "I s1" by (rule store_read_run [OF assms(1,3)])
  show ?thesis
  proof (cases "GetOperationalIntent iid s1")
    case (Inl e)
    with r1 i1 show ?thesis by (intro that(2) [of s1 e]) (simp_all add: EvaluateIntent_def)
  next
    case (Inr i)
    obtain s2 w2 where r2: "run_state (store_read (ps_others svc) (GetAircraft (oi_AircraftID i))) (s1, w1)
        = (GetAircraft (oi_AircraftID i) s2, (s2, w2))" and i2: "I s2" by (rule store_read_run [OF assms(1) i1])
    obtain s3 w3 where r3: "run_state (store_read (ps_others svc) (ListOperationalVolumes (oi_ID i))) (s2, w2)
        = (ListOperationalVolumes (oi_ID i) s3, (s3, w3))" and i3: "I s3" by (rule store_read_run [OF assms(1) i2])
    obtain vs where vs: "ListOperationalVolumes (oi_ID i) s3 = Inr vs" by (simp add: ListOperationalVolumes_def)
    obtain now st wt where r4: "run_state (ps_now svc) (s3, w3) = (now, (st, wt))" by (cases "run_state (ps_now svc) (s3, w3)") auto
    have i4: "I st" by (rule keeps_run [OF assms(2) r4 i3])
    let ?b = "intent_checks i (GetAircraft (oi_AircraftID i) s2) (volumesForVersion vs (oi_Version i)) now"
    obtain b s4 w4 where r5: "run_state (evaluateBattery svc i ?b) (st, wt) = (b, (s4, w4))"
      by (cases "run_state (evaluateBattery svc i ?b) (st, wt)") auto
    have i5: "I s4" by (rule keeps_run [OF evaluateBattery_keeps [OF assms(1)] r5 i4])
    obtain s5 w5 where r6: "run_state (store_read (ps_others svc) (ListMaintenanceEvents (oi_AircraftID i))) (s4, w4)
        = (ListMaintenanceEvents (oi_AircraftID i) s5, (s5, w5))" and i6: "I s5" by (rule store_read_run [OF assms(1) i5])
    show ?thesis
      by (rule that(1) [OF i1 i2 i3 i4 i6 Inr vs r5])
        (use r1 r2 r3 r4 r5 r6 Inr vs in \<open>simp add: EvaluateIntent_def evaluateMaintenance_def\<close>)
  qed
qed

lemma listed_volume_ids:
  assumes "volumes_ok s" and "iid \<noteq> []" and "ListOperationalVolumes iid s = Inr vs"
  shows "distinct (map ov_ID (volumesForVersion vs n))"
proof -
  let ?m = "s_operationalVolumes s"
  let ?l = "volumesForVersion vs n"
  have "map operationalVolumeKey (vals ?m) = map fst ?m" and "distinct (map fst ?m)"
    using assms(1) by (auto simp: volumes_ok_def keyed_def vals_def list_all_iff)
  then have d: "distinct_ids operationalVolumeKey (vals ?m)" by simp
  have sorted: "distinct_ids operationalVolumeKey (sort_slice lt xs) = distinct_ids operationalVolumeKey xs" for lt xs
    by (metis mset_map mset_sort_slice distinct_count_atmost_1 set_mset_mset)
  have "distinct_ids operationalVolumeKey vs"
    using d assms(3) by (auto simp: ListOperationalVolumes_def sorted intro: distinct_map_filter)
  then have "distinct_ids operationalVolumeKey ?l" by (simp add: volumesForVersion_def distinct_map_filter)
  moreover have "map operationalVolumeKey ?l = map (\<lambda>i. operationalIntentKey iid n @ CHR '':'' # i) (map ov_ID ?l)"
    using assms(2,3) by (auto simp: volumesForVersion_def ListOperationalVolumes_def operationalVolumeKey_eq)
  ultimately show ?thesis by (metis distinct_map)
qed

lemma current_intent_id: "GetOperationalIntent iid s = Inr i \<Longrightarrow> oi_ID i = iid"
  by (auto simp: GetOperationalIntent_def dest: latestOperationalIntent_in)

subsection \<open>What an evaluation answers\<close>

lemma evaluation_answers:
  assumes others: "keeps (same_fleet s) (ps_others svc)" and now: "keeps (same_fleet s) (ps_now svc)"
    and i: "GetOperationalIntent iid s = Inr i" and ne: "iid \<noteq> []" "oi_AircraftID i \<noteq> []" and ok: "volumes_ok s"
  shows "\<exists>r s' w'. run_state (EvaluateIntent svc iid) (s, w) = (Inr r, (s', w')) \<and> pe_Intent r = i
    \<and> (pe_Blocked r \<longleftrightarrow> \<not> fit_to_fly i s)
    \<and> (pe_Blocked r \<longleftrightarrow> (\<exists>c \<in> set (pe_Checks r). blocking_check c))
    \<and> (pe_Blocked r \<longleftrightarrow> (\<exists>f \<in> set (pe_Findings r). blocking_finding f))
    \<and> pc_ID ` set (pe_Checks r) \<subseteq> check_id i ` (aircraft_keys \<union> intent_keys \<union> upkeep_keys
        \<union> (\<Union>v \<in> {v. current_volume i s v}. volume_keys v))
    \<and> same_fleet s s'"
proof (cases rule: evaluate_run [OF others now same_fleet_refl, of iid w, case_names run err])
  case (err e \<sigma> s1)
  with i show ?thesis by (simp add: same_fleet_reads)
next
  case (run s1 s2 s3 i' vs t st wt b s4 w4 s5 w5)
  note reads = same_fleet_reads [OF run(1)] same_fleet_reads [OF run(2)] same_fleet_reads [OF run(3)] same_fleet_reads [OF run(5)]
  have [simp]: "i' = i" using run(6) i reads(1) by simp
  have id: "oi_ID i = iid" by (rule current_intent_id [OF i])
  let ?vs = "volumesForVersion vs (oi_Version i)"
  let ?b = "demo_checks (maintenance_check (ListMaintenanceEvents (oi_AircraftID i) s5) b)"
  have vs: "set ?vs = {v. current_volume i s v}" using run(7) listed_for_version(1) [of i s] id ne(1) by (auto simp: reads)
  have "distinct (map ov_ID ?vs)"
    using listed_volume_ids [OF ok, of iid vs] run(7) ne(1) id by (simp add: reads)
  note b = evaluation_builder [OF this run(8) [unfolded \<open>i' = i\<close>], of "ListMaintenanceEvents (oi_AircraftID i) s5"]
  have "pb_blocked ?b \<longleftrightarrow> \<not> fit_to_fly i s"
    using battery_blocked [OF others run(4) run(8)] ne(2) vs
    by (auto simp: reads maintenance_blocked intent_checks_blocked fit_to_fly_def simp flip: set_empty)
  moreover obtain s' w' where r: "run_state (record_evaluation svc i ?b) (s5, w5) =
      (Inr \<lparr>pe_Intent = i, pe_Checks = pb_checks ?b, pe_Findings = pb_findings ?b, pe_Blocked = pb_blocked ?b\<rparr>, (s', w'))"
    using record_evaluation_run [of svc ?b s5 w5 i] by blast
  moreover have "same_fleet s s'" by (rule keeps_run [where I = "same_fleet s", OF record_evaluation_keeps r run(5)]) (simp_all add: others)
  ultimately show ?thesis
    using run(9) b vs by (auto simp: faithful_def)
qed

subsection \<open>What an evaluation leaves in the store\<close>

lemma findings_leave_checks:
  "log_kept s_preflightChecks pc_ID others \<Longrightarrow>
     keeps (\<lambda>s. distinct_ids pc_ID (s_preflightChecks s) \<and> c \<in> set (s_preflightChecks s))
       (record_all others label RecordComplianceFinding fs)"
  by (intro keeps_record_all) (auto simp: log_kept_def RecordComplianceFinding_def)

lemma evaluation_records:
  assumes kept: "log_kept s_preflightChecks pc_ID (ps_others svc)" "log_kept s_preflightChecks pc_ID (ps_now svc)"
    and vols: "keeps volumes_ok (ps_others svc)" "keeps volumes_ok (ps_now svc)"
    and start: "volumes_ok s" "distinct_ids pc_ID (s_preflightChecks s)" and ne: "iid \<noteq> []"
    and run: "run_state (EvaluateIntent svc iid) (s, w) = (Inr r, (s', w'))"
  shows "distinct_ids pc_ID (s_preflightChecks s') \<and> set (pe_Checks r) \<subseteq> set (s_preflightChecks s')
    \<and> oi_ID (pe_Intent r) = iid
    \<and> (\<forall>c \<in> set (pe_Checks r). pc_IntentID c = iid \<and> pc_IntentVersion c = oi_Version (pe_Intent r))
    \<and> (pe_Blocked r \<longleftrightarrow> (\<exists>c \<in> set (pe_Checks r). blocking_check c))"
proof -
  let ?I = "\<lambda>s. volumes_ok s \<and> distinct_ids pc_ID (s_preflightChecks s)"
  have "keeps ?I (ps_others svc)" "keeps ?I (ps_now svc)" "?I s"
    using kept vols start by (auto simp: log_kept_def intro: keeps_conj)
  then show ?thesis
  proof (cases rule: evaluate_run [of ?I svc s iid w, case_names run err])
    case err
    with run show ?thesis by simp
  next
    case (run s1 s2 s3 i vs t st wt b s4 w4 s5 w5)
    let ?b = "demo_checks (maintenance_check (ListMaintenanceEvents (oi_AircraftID i) s5) b)"
    have id: "oi_ID i = iid" by (rule current_intent_id [OF run(6)])
    have "distinct (map ov_ID (volumesForVersion vs (oi_Version i)))"
      using listed_volume_ids [of s3 iid vs] run(3,7) ne id by blast
    note b = evaluation_builder [OF this run(8), of "ListMaintenanceEvents (oi_AircraftID i) s5"]
    obtain sa wa sb wb where r1: "run_state (record_all (ps_others svc) ''record preflight check'' RecordPreflightCheck
          (pb_checks ?b)) (s5, w5) = (None, (sa, wa))"
      and r2: "run_state (record_all (ps_others svc) ''record compliance finding'' RecordComplianceFinding
          (pb_findings ?b)) (sa, wa) = (None, (sb, wb))"
      and r: "run_state (record_evaluation svc i ?b) (s5, w5) =
        (Inr \<lparr>pe_Intent = i, pe_Checks = pb_checks ?b, pe_Findings = pb_findings ?b, pe_Blocked = pb_blocked ?b\<rparr>, (sb, wb))"
      using record_evaluation_run [of svc ?b s5 w5 i] by blast
    have out: "s' = sb" "r = \<lparr>pe_Intent = i, pe_Checks = pb_checks ?b, pe_Findings = pb_findings ?b, pe_Blocked = pb_blocked ?b\<rparr>"
      using run(9) r assms(8) by simp_all
    have rec: "distinct_ids pc_ID (s_preflightChecks sb) \<and> c \<in> set (s_preflightChecks sb)" if c: "c \<in> set (pb_checks ?b)" for c
      using preflight_records.record_all_records [OF kept(1) _ c _ r1] b run(5) 
        keeps_run [OF findings_leave_checks [OF kept(1), of c] r2] by blast
    moreover have "pb_checks ?b \<noteq> []" by (simp add: demo_checks_def builder_clear_def builder_check_def Let_def)
    then obtain c0 where "c0 \<in> set (pb_checks ?b)" by (cases "pb_checks ?b") auto
    ultimately show ?thesis using b rec id out by (auto simp: faithful_def)
  qed
qed

lemma evaluation_leaves_other_checks:
  assumes kept: "log_kept s_preflightChecks pc_ID (ps_others svc)" "log_kept s_preflightChecks pc_ID (ps_now svc)"
    and start: "distinct_ids pc_ID (s_preflightChecks s)" "k \<in> set (s_preflightChecks s)"
    and run: "run_state (EvaluateIntent svc iid) (s, w) = (Inr r, (s', w'))" and new: "pc_ID k \<notin> pc_ID ` set (pe_Checks r)"
  shows "k \<in> set (s_preflightChecks s')"
proof -
  let ?I = "\<lambda>s. distinct_ids pc_ID (s_preflightChecks s) \<and> k \<in> set (s_preflightChecks s)"
  have "keeps ?I (ps_others svc)" "keeps ?I (ps_now svc)" "?I s" using kept start by (auto simp: log_kept_def)
  then show ?thesis
  proof (cases rule: evaluate_run [of ?I svc s iid w, case_names run err])
    case err
    with run show ?thesis by simp
  next
    case (run s1 s2 s3 i vs t st wt b s4 w4 s5 w5)
    define b' where "b' = demo_checks (maintenance_check (ListMaintenanceEvents (oi_AircraftID i) s5) b)"
    obtain sa wa sb wb where r1: "run_state (record_all (ps_others svc) ''record preflight check'' RecordPreflightCheck
          (pb_checks b')) (s5, w5) = (None, (sa, wa))"
      and r2: "run_state (record_all (ps_others svc) ''record compliance finding'' RecordComplianceFinding
          (pb_findings b')) (sa, wa) = (None, (sb, wb))"
      and r: "run_state (record_evaluation svc i b') (s5, w5) =
        (Inr \<lparr>pe_Intent = i, pe_Checks = pb_checks b', pe_Findings = pb_findings b', pe_Blocked = pb_blocked b'\<rparr>, (sb, wb))"
      using record_evaluation_run [of svc b' s5 w5 i] by blast
    have out: "s' = sb" "pe_Checks r = pb_checks b'" using run(9) r assms(5) by (simp_all flip: b'_def)
    have "?I sa"
      by (rule keeps_run [OF preflight_records.record_all_keeps_other [OF kept(1)] r1 run(5)]) (use new out in simp)
    then have "?I sb"
      by (rule keeps_run [where I = ?I, OF findings_leave_checks [OF kept(1)] r2])
    then show ?thesis by (simp add: out)
  qed
qed

lemma blocking_check_blocks:
  "oi_ID c \<noteq> [] \<Longrightarrow> current_check c s k \<Longrightarrow> blocking_check k \<Longrightarrow> activationReadiness c s \<noteq> None"
  by (auto simp: activationReadiness_None ready_to_fly_def)

lemma gate_keeps_log:
  assumes "\<forall>co. is_deconfliction isvc = Some co \<longrightarrow> log_kept entries ident (co_CheckIntent co (oi_ID c))"
  shows "keeps (\<lambda>s. distinct_ids ident (entries s) \<and> v \<in> set (entries s)) (deconfliction_gate isvc c)"
  using assms by (auto simp: deconfliction_gate_def log_kept_def intro!: keeps_bind split: option.split)

subsection \<open>Examples\<close>

lemma fleet_store_ok: "volumes_ok (fleet_store h cs)" "GetOperationalIntent ''op-1'' (fleet_store h cs) = Inr accepted_intent"
  "s_preflightChecks (fleet_store h cs) = cs" "intents_ok (fleet_store h cs)"
  by (simp_all add: fleet_store_def volumes_ok_def keyed_def vals_def sample_volume_def operationalVolumeKey_def
      zero_OperationalVolume_def GetOperationalIntent_def latestOperationalIntent_def ready_store_def store_intent_def
      NewStore_def accepted_intent_def sample_intent_def select_best_def keep_better_def intents_ok_def)

lemma fleet_store_fit: "fit_to_fly accepted_intent (fleet_store h cs) \<longleftrightarrow> 80 \<le> h"
  by (auto simp: fit_to_fly_def fleet_store_def ready_store_def NewStore_def store_intent_def accepted_intent_def
      sample_intent_def zero_OperationalIntent_def fit_aircraft_def GetAircraft_def current_volume_def vals_def
      sample_volume_def zero_OperationalVolume_def volume_fit_def battery_fit_def GetActiveBatteryInstallation_def
      sample_installation_def select_best_def keep_better_def GetBattery_def sample_battery_def)

lemma quiet_keeps [simp]: "keeps I (ps_others quiet_preflight)" "keeps I (ps_now quiet_preflight)"
  by (simp_all add: quiet_preflight_def)

lemma accepted_intent_ids: "oi_ID accepted_intent = ''op-1''" "oi_AircraftID accepted_intent = ''uav-1''"
  "oi_Version accepted_intent = 1" "oi_Status accepted_intent = IntentStatusAccepted"
  by (simp_all add: accepted_intent_def sample_intent_def zero_OperationalIntent_def)

section \<open>Properties\<close>

text \<open>
  C15: an evaluation blocks exactly the intents that are not fit to fly. While other requests leave the
  fleet and the intents to it, \<open>EvaluateIntent\<close> always answers for a stored intent, and reports it as
  blocked exactly when the aircraft is not active, accepted and visible to Remote ID, the time window
  is empty, there is no volume of the version or one that is malformed, outside the window or without
  GeoJSON, no battery with at least 80 percent health is installed, or critical maintenance is open.
  The checks and the findings of the answer block an activation in just these cases.
\<close>

theorem preflight_blocks_unless_fit:
  assumes "keeps (same_fleet s) (ps_others svc)" and "keeps (same_fleet s) (ps_now svc)"
    and "GetOperationalIntent iid s = Inr i" and "iid \<noteq> []" and "oi_AircraftID i \<noteq> []" and "volumes_ok s"
  shows "\<exists>r s' w'. run_state (EvaluateIntent svc iid) (s, w) = (Inr r, (s', w')) \<and> pe_Intent r = i
    \<and> (pe_Blocked r \<longleftrightarrow> \<not> fit_to_fly i s)
    \<and> (pe_Blocked r \<longleftrightarrow> (\<exists>c \<in> set (pe_Checks r). blocking_check c))
    \<and> (pe_Blocked r \<longleftrightarrow> (\<exists>f \<in> set (pe_Findings r). blocking_finding f))"
  using evaluation_answers [OF assms, of w] by blast

theorem preflight_blocks_unless_fit_witness:
  "\<exists>r s'. run_state (EvaluateIntent quiet_preflight ''op-1'') (fleet_store 79 [], ()) = (Inr r, (s', ())) \<and> pe_Blocked r
    \<and> (\<exists>c \<in> set (pe_Checks r). blocking_check c)"
  using preflight_blocks_unless_fit [of "fleet_store 79 []" quiet_preflight "''op-1''" accepted_intent "()"]
    fleet_store_ok [of 79 "[]"] fleet_store_fit [of 79 "[]"] by (simp add: accepted_intent_ids) blast

text \<open>
  C13: a blocked evaluation refuses the activation. After \<open>EvaluateIntent\<close> reported an intent as
  blocked, \<open>ActivateIntent\<close> fails for that version, whatever else happens to the store in between and
  meanwhile, as long as nobody removes the recorded checks.
\<close>

theorem blocked_preflight_refuses_activation:
  assumes "log_kept s_preflightChecks pc_ID (ps_others svc)" and "log_kept s_preflightChecks pc_ID (ps_now svc)"
    and "keeps volumes_ok (ps_others svc)" and "keeps volumes_ok (ps_now svc)"
    and "volumes_ok s" and "distinct_ids pc_ID (s_preflightChecks s)" and "iid \<noteq> []"
    and "run_state (EvaluateIntent svc iid) (s, w) = (Inr r, (s1, w1))" and "pe_Blocked r"
    and "\<forall>k. distinct_ids pc_ID (s_preflightChecks s1) \<and> k \<in> set (s_preflightChecks s1)
           \<longrightarrow> distinct_ids pc_ID (s_preflightChecks s2) \<and> k \<in> set (s_preflightChecks s2)"
    and "surroundings_ok intents_ok isvc" and "intents_ok s2"
    and "\<forall>co. is_deconfliction isvc = Some co \<longrightarrow> log_kept s_preflightChecks pc_ID (co_CheckIntent co iid)"
    and "latestOperationalIntent s2 iid = Some c" and "oi_Version c = oi_Version (pe_Intent r)"
  shows "\<exists>e. fst (run_state (ActivateIntent isvc iid) (s2, w2)) = Inl e"
proof (rule ccontr)
  assume "\<nexists>e. fst (run_state (ActivateIntent isvc iid) (s2, w2)) = Inl e"
  then obtain i s' w' where run: "run_state (ActivateIntent isvc iid) (s2, w2) = (Inr i, (s', w'))"
    by (cases "run_state (ActivateIntent isvc iid) (s2, w2)"; cases "fst (run_state (ActivateIntent isvc iid) (s2, w2))") auto
  have id: "oi_ID c = iid" using assms(14) latestOperationalIntent_in by blast
  obtain k where k: "k \<in> set (pe_Checks r)" "blocking_check k" "pc_IntentID k = iid" "pc_IntentVersion k = oi_Version c"
      "distinct_ids pc_ID (s_preflightChecks s2) \<and> k \<in> set (s_preflightChecks s2)"
    using evaluation_records [OF assms(1-8)] assms(9,10,15) by (metis (no_types, lifting) subsetD)
  from activate_run [OF assms(11,12) run] obtain s3 w3
    where gate: "run_state (deconfliction_gate isvc c) (s2, w2) = (None, (s3, w3))" and ready: "activationReadiness c s3 = None"
    using assms(14) by (metis option.inject)
  have "current_check c s3 k"
    using keeps_run [OF gate_keeps_log [of isvc s_preflightChecks pc_ID c k] gate] assms(13) id k by (simp add: current_check_def)
  with ready k(2) blocking_check_blocks id assms(7) show False by blast
qed

theorem blocked_preflight_refuses_activation_witness:
  "\<exists>r s1. run_state (EvaluateIntent quiet_preflight ''op-1'') (fleet_store 79 [], ()) = (Inr r, (s1, ())) \<and> pe_Blocked r
    \<and> (\<exists>e. fst (run_state (ActivateIntent sample_service ''op-1'') (s1, ())) = Inl e)"
proof -
  let ?s = "fleet_store 79 []"
  obtain r s1 where run: "run_state (EvaluateIntent quiet_preflight ''op-1'') (?s, ()) = (Inr r, (s1, ()))"
    and r: "pe_Intent r = accepted_intent" "pe_Blocked r" and same: "same_fleet ?s s1"
    using evaluation_answers [of ?s quiet_preflight "''op-1''" accepted_intent "()"]
      fleet_store_ok [of 79 "[]"] fleet_store_fit [of 79 "[]"] by (auto simp: accepted_intent_ids)
  have kept: "log_kept s_preflightChecks pc_ID (ps_others quiet_preflight)" "log_kept s_preflightChecks pc_ID (ps_now quiet_preflight)"
    by (simp_all add: log_kept_def)
  have "\<exists>e. fst (run_state (ActivateIntent sample_service ''op-1'') (s1, ())) = Inl e"
    by (rule blocked_preflight_refuses_activation [OF kept _ _ _ _ _ run r(2), of s1 sample_service accepted_intent])
      (use same r sample_surroundings fleet_store_ok [of 79 "[]"] in \<open>simp_all add: log_kept_def sample_service_def
         sample_coordinator_def same_fleet_def intents_ok_def latestOperationalIntent_def GetOperationalIntent_def\<close>)
  with run r show ?thesis by blast
qed


end
