(* ===== verification/Conformance.thy ===== *)
theory Conformance
  imports Intent_Service Spatial
begin

text \<open>
  The conformance service, \<open>internal/service/conformance_service.go\<close>: telemetry samples judged against
  the volumes of the active intent, the events and the summary this leaves in the store. Other
  requests may write the store before each of its calls, and while a telemetry store takes the
  sample. The decoders of \<open>encoding/json\<close> are the parameter \<open>mission_json\<close> of \<open>Spatial\<close>, since the code
  decodes into the same three shapes.
\<close>

section \<open>Definitions\<close>

record TelemetrySample =
  ts_ID :: string
  ts_OperatorID :: string
  ts_AircraftID :: string
  ts_IntentID :: string
  ts_IntentVersion :: int
  ts_FlightID :: string
  ts_RecordedAt :: time
  ts_Latitude :: real
  ts_Longitude :: real
  ts_AltitudeM :: real
  ts_VelocityMPS :: real
  ts_HeadingDeg :: real
  ts_BatteryPct :: "real option"

text \<open>The telemetry store counts only when it is a \<open>telemetryWriter\<close>, with \<open>AddSample\<close>.\<close>

record 'w ConformanceService =
  cns_now :: "('w, time) srv"
  cns_others :: "('w, unit) srv"
  cns_AddSample :: "(TelemetrySample \<Rightarrow> ('w, go_error option) srv) option"
  cns_json :: mission_json

record ConformanceEvaluation =
  ce_Intent :: OperationalIntent
  ce_Summary :: ConformanceSummary
  ce_Events :: "ConformanceEvent list"

subsection \<open>Geometry\<close>

text \<open>One round of the loop over a ring; positions with fewer than two numbers are passed over.\<close>

definition ring_toggle :: "real \<Rightarrow> real \<Rightarrow> real list \<times> real list \<Rightarrow> bool \<Rightarrow> bool" where
  "ring_toggle lon lat edge inside =
     (case edge of (p_i, p_j) \<Rightarrow>
        if length p_i < 2 \<or> length p_j < 2 then inside
        else let xi = p_i ! 0; yi = p_i ! 1; xj = p_j ! 0; yj = p_j ! 1 in
          if (yi > lat) \<noteq> (yj > lat) \<and> lon < (xj - xi) * (lat - yi) / (yj - yi) + xi then \<not> inside else inside)"

definition pointInRing :: "real \<Rightarrow> real \<Rightarrow> real list list \<Rightarrow> bool" where
  "pointInRing lon lat ring =
     (if length ring < 3 then False else fold (ring_toggle lon lat) (cyclic_edges ring) False)"

definition pointInGeoJSONPolygon :: "mission_json \<Rightarrow> real \<Rightarrow> real \<Rightarrow> string \<Rightarrow> bool" where
  "pointInGeoJSONPolygon json lon lat raw =
     (case unmarshal_payload json raw of
        Inl _ \<Rightarrow> False
      | Inr (typ, geometry, coordinates) \<Rightarrow>
      case (if typ = ''Feature'' then
              (case unmarshal_geometry json geometry of
                 Inl _ \<Rightarrow> None
               | Inr (gtyp, gcoordinates) \<Rightarrow> if gtyp \<noteq> ''Polygon'' then None else Some gcoordinates)
            else if typ \<noteq> ''Polygon'' then None else Some coordinates) of
        None \<Rightarrow> False
      | Some coords \<Rightarrow>
      case unmarshal_coordinates json coords of
        Inl _ \<Rightarrow> False
      | Inr [] \<Rightarrow> False
      | Inr (outer # holes) \<Rightarrow>
          if \<not> pointInRing lon lat outer then False
          else \<not> list_ex (pointInRing lon lat) holes)"

definition sampleInsideVolume :: "mission_json \<Rightarrow> TelemetrySample \<Rightarrow> OperationalVolume \<Rightarrow> bool" where
  "sampleInsideVolume json sample volume =
     (if ts_RecordedAt sample < ov_StartsAt volume \<or> ts_RecordedAt sample > ov_EndsAt volume then False
      else if ts_AltitudeM sample < ov_MinAltitudeM volume \<or> ts_AltitudeM sample > ov_MaxAltitudeM volume then False
      else if ov_GeoJSON volume = [] then False
      else pointInGeoJSONPolygon json (ts_Longitude sample) (ts_Latitude sample) (ov_GeoJSON volume))"

subsection \<open>Identities\<close>

text \<open>\<open>UnixNano\<close>: the zero instant of Go is 62135596800 seconds before the epoch; the result is an \<open>int64\<close>.\<close>

definition UnixNano :: "time \<Rightarrow> int" where
  "UnixNano t = (t - 62135596800 * second + 2 ^ 63) mod 2 ^ 64 - 2 ^ 63"

definition conformanceEventID :: "TelemetrySample \<Rightarrow> OperationalIntent \<Rightarrow> string" where
  "conformanceEventID sample intent =
     (if ts_ID sample \<noteq> [] then ''conformance-event-'' @ ts_ID sample @ ''-intent-exit''
      else ''conformance-event-'' @ oi_ID intent @ ''-'' @ itoa (UnixNano (ts_RecordedAt sample)) @ ''-intent-exit'')"

definition zero_ConformanceSummary :: ConformanceSummary where
  "zero_ConformanceSummary = \<lparr>cs_ID = [], cs_OperatorID = [], cs_IntentID = [], cs_IntentVersion = 0, cs_FlightID = [],
     cs_AircraftID = [], cs_Status = ConformanceStatusOther [], cs_Score = None, cs_AlertCount = 0,
     cs_ReportabilityStatus = ReportabilityStatusOther [], cs_UpdatedAt = 0, cs_AssignmentID = [],
     cs_AssignmentGeneration = 0, cs_EvaluationRevision = 0, cs_EvaluationID = [], cs_Condition = [],
     cs_MonitoringStatus = [], cs_RecordingStatus = [], cs_ObservedAt = None, cs_FrameID = [], cs_Violations = []\<rparr>"

subsection \<open>The intent a sample belongs to\<close>

definition pick_active :: "string \<Rightarrow> time \<Rightarrow> OperationalIntent list result \<Rightarrow> OperationalIntent result" where
  "pick_active aircraftID recordedAt read =
     (case read of
        Inl e \<Rightarrow> Inl (wrap ''list operational intents'' e)
      | Inr intents \<Rightarrow>
        case find (\<lambda>i. oi_Status i = IntentStatusActive
            \<and> \<not> recordedAt < oi_PlannedStartAt i \<and> \<not> recordedAt > oi_PlannedEndAt i) intents of
          Some intent \<Rightarrow> Inr intent
        | None \<Rightarrow>
        case find (\<lambda>i. oi_Status i = IntentStatusActive) intents of
          Some intent \<Rightarrow> Inr intent
        | None \<Rightarrow> Inl (because ErrNotFound (''active operational intent for aircraft '' @ aircraftID)))"

definition activeIntentForAircraft ::
  "'w ConformanceService \<Rightarrow> string \<Rightarrow> time \<Rightarrow> ('w, OperationalIntent result) srv" where
  "activeIntentForAircraft svc aircraftID recordedAt = do {
     read \<leftarrow> store_read (cns_others svc) (ListOperationalIntents aircraftID);
     State_Monad.return (pick_active aircraftID recordedAt read)
   }"

definition sample_mismatch :: "TelemetrySample \<Rightarrow> OperationalIntent \<Rightarrow> go_error option" where
  "sample_mismatch sample intent =
     (if oi_AircraftID intent \<noteq> ts_AircraftID sample
      then Some (because ErrValidation (''telemetry aircraft_id '' @ ts_AircraftID sample
             @ '' does not match intent aircraft_id '' @ oi_AircraftID intent))
      else if oi_Status intent \<noteq> IntentStatusActive
      then Some (because ErrActivationBlocked (''referenced intent '' @ oi_ID intent @ '' is not active''))
      else if ts_RecordedAt sample < oi_PlannedStartAt intent \<or> ts_RecordedAt sample > oi_PlannedEndAt intent
      then Some (because ErrActivationBlocked ''telemetry time is outside referenced intent window'')
      else None)"

definition referenced_intent :: "TelemetrySample \<Rightarrow> OperationalIntent result \<Rightarrow> OperationalIntent result" where
  "referenced_intent sample read =
     (case read of
        Inl e \<Rightarrow> Inl (wrap ''get operational intent'' e)
      | Inr intent \<Rightarrow> (case sample_mismatch sample intent of Some e \<Rightarrow> Inl e | None \<Rightarrow> Inr intent))"

definition resolveIntentForTelemetry ::
  "'w ConformanceService \<Rightarrow> TelemetrySample \<Rightarrow> ('w, OperationalIntent result) srv" where
  "resolveIntentForTelemetry svc sample =
     (if ts_IntentID sample = [] then activeIntentForAircraft svc (ts_AircraftID sample) (ts_RecordedAt sample)
      else do {
        read \<leftarrow> store_read (cns_others svc) (GetOperationalIntent (ts_IntentID sample));
        State_Monad.return (referenced_intent sample read)
      })"

subsection \<open>Summaries\<close>

definition sample_summary ::
  "OperationalIntent \<Rightarrow> TelemetrySample \<Rightarrow> ConformanceStatus \<Rightarrow> real option \<Rightarrow> int \<Rightarrow> ReportabilityStatus \<Rightarrow> time
    \<Rightarrow> ConformanceSummary" where
  "sample_summary intent sample status score alerts reportability now = zero_ConformanceSummary\<lparr>
     cs_ID := ''conformance-'' @ oi_ID intent, cs_OperatorID := oi_OperatorID intent, cs_IntentID := oi_ID intent,
     cs_IntentVersion := oi_Version intent, cs_FlightID := ts_FlightID sample, cs_AircraftID := ts_AircraftID sample,
     cs_Status := status, cs_Score := score, cs_AlertCount := alerts, cs_ReportabilityStatus := reportability,
     cs_UpdatedAt := now\<rparr>"

text \<open>The end of both kinds of evaluation: the time is taken, the summary is stored.\<close>

definition store_summary ::
  "'w ConformanceService \<Rightarrow> (time \<Rightarrow> ConformanceSummary) \<Rightarrow> ('w, ConformanceSummary result) srv" where
  "store_summary svc summary_at = do {
     now \<leftarrow> cns_now svc;
     err \<leftarrow> store_call (cns_others svc) (UpsertConformanceSummary (summary_at now));
     State_Monad.return (case err of
         Some e \<Rightarrow> Inl (wrap ''upsert conformance summary'' e)
       | None \<Rightarrow> Inr (summary_at now))
   }"

definition unknownSummary ::
  "'w ConformanceService \<Rightarrow> OperationalIntent \<Rightarrow> TelemetrySample \<Rightarrow> ('w, ConformanceSummary result) srv" where
  "unknownSummary svc intent sample = do {
     read \<leftarrow> store_read (cns_others svc) (\<lambda>s. conformanceSummaryForVersion s intent);
     case read of
       Inl e \<Rightarrow> State_Monad.return (Inl e)
     | Inr existing \<Rightarrow>
         store_summary svc (sample_summary intent sample ConformanceStatusUnknown None
           (case existing of None \<Rightarrow> 0 | Some c \<Rightarrow> cs_AlertCount c)
           (case existing of None \<Rightarrow> ReportabilityStatusNo | Some c \<Rightarrow> cs_ReportabilityStatus c))
   }"

definition event_of_version :: "OperationalIntent \<Rightarrow> ConformanceEvent \<Rightarrow> bool" where
  "event_of_version intent event \<longleftrightarrow> cev_IntentID event = oi_ID intent \<and> cev_IntentVersion event = oi_Version intent"

definition alertCount :: "'w ConformanceService \<Rightarrow> OperationalIntent \<Rightarrow> ('w, int result) srv" where
  "alertCount svc intent = do {
     read \<leftarrow> store_read (cns_others svc) (ListConformanceEvents []);
     State_Monad.return (case read of
         Inl e \<Rightarrow> Inl (wrap ''list conformance events'' e)
       | Inr events \<Rightarrow> Inr (int (length (remdups (map cev_ID (filter (event_of_version intent) events))))))
   }"

subsection \<open>The evaluation of a sample\<close>

text \<open>The search over the volumes: the one that contains the sample, else the first with an identity.\<close>

fun search_volumes ::
  "mission_json \<Rightarrow> TelemetrySample \<Rightarrow> string \<Rightarrow> OperationalVolume list \<Rightarrow> string \<times> bool" where
  "search_volumes json sample expectedVolumeID [] = (expectedVolumeID, False)"
| "search_volumes json sample expectedVolumeID (volume # volumes) =
     (if sampleInsideVolume json sample volume then (ov_ID volume, True)
      else search_volumes json sample (if expectedVolumeID = [] then ov_ID volume else expectedVolumeID) volumes)"

definition exit_event :: "OperationalIntent \<Rightarrow> TelemetrySample \<Rightarrow> string \<Rightarrow> ConformanceEvent" where
  "exit_event intent sample expectedVolumeID = \<lparr>cev_ID = conformanceEventID sample intent,
     cev_OperatorID = oi_OperatorID intent, cev_IntentID = oi_ID intent, cev_IntentVersion = oi_Version intent,
     cev_FlightID = ts_FlightID sample, cev_AircraftID = ts_AircraftID sample, cev_Severity = SeverityWarning,
     cev_EventCode = ConformanceEventIntentExit, cev_ExpectedVolumeID = expectedVolumeID,
     cev_Message = ''telemetry sample is outside all active operational volumes'',
     cev_Latitude = Some (ts_Latitude sample), cev_Longitude = Some (ts_Longitude sample),
     cev_AltitudeM = Some (ts_AltitudeM sample), cev_AltitudeRef = AltitudeReferenceAGL,
     cev_ObservedValue = None, cev_ThresholdValue = None, cev_DeviationMeters = None, cev_DeviationSeconds = None,
     cev_OccurredAt = ts_RecordedAt sample\<rparr>"

definition kept_reportability :: "ConformanceSummary option \<Rightarrow> ReportabilityStatus" where
  "kept_reportability existing =
     (case existing of
        Some c \<Rightarrow> if cs_ReportabilityStatus c \<noteq> ReportabilityStatusNo then cs_ReportabilityStatus c else ReportabilityStatusNo
      | None \<Rightarrow> ReportabilityStatusNo)"

text \<open>From the decision on: the event is recorded, the alerts are counted, the summary is stored.\<close>

definition finish_evaluation ::
  "'w ConformanceService \<Rightarrow> OperationalIntent \<Rightarrow> TelemetrySample \<Rightarrow> ConformanceStatus \<Rightarrow> real \<Rightarrow> ReportabilityStatus
    \<Rightarrow> ConformanceEvent list \<Rightarrow> ('w, ConformanceEvaluation result) srv" where
  "finish_evaluation svc intent sample status score reportability events = do {
     err \<leftarrow> record_all (cns_others svc) ''record conformance event'' RecordConformanceEvent events;
     case err of
       Some e \<Rightarrow> State_Monad.return (Inl e)
     | None \<Rightarrow> do {
         counted \<leftarrow> alertCount svc intent;
         case counted of
           Inl e \<Rightarrow> State_Monad.return (Inl e)
         | Inr alerts \<Rightarrow> do {
             stored \<leftarrow> store_summary svc (sample_summary intent sample status (Some score) alerts reportability);
             State_Monad.return (case stored of
                 Inl e \<Rightarrow> Inl e
               | Inr summary \<Rightarrow> Inr \<lparr>ce_Intent = intent, ce_Summary = summary, ce_Events = events\<rparr>)
           }
       }
   }"

definition judge_sample ::
  "'w ConformanceService \<Rightarrow> OperationalIntent \<Rightarrow> TelemetrySample \<Rightarrow> OperationalVolume list
    \<Rightarrow> ('w, ConformanceEvaluation result) srv" where
  "judge_sample svc intent sample volumes =
     (case search_volumes (cns_json svc) sample [] volumes of (expectedVolumeID, inside) \<Rightarrow> do {
        read \<leftarrow> store_read (cns_others svc) (\<lambda>s. conformanceSummaryForVersion s intent);
        case read of
          Inl e \<Rightarrow> State_Monad.return (Inl e)
        | Inr existing \<Rightarrow>
            let reportability = kept_reportability existing in
            if inside
            then finish_evaluation svc intent sample ConformanceStatusConforming 1 reportability []
            else finish_evaluation svc intent sample ConformanceStatusNonConforming 0
              (if reportability = ReportabilityStatusNo then ReportabilityStatusReview else reportability)
              [exit_event intent sample expectedVolumeID]
      })"

definition evaluate_sample ::
  "'w ConformanceService \<Rightarrow> TelemetrySample \<Rightarrow> ('w, ConformanceEvaluation result) srv" where
  "evaluate_sample svc sample = do {
     resolved \<leftarrow> resolveIntentForTelemetry svc sample;
     case resolved of
       Inl e \<Rightarrow> State_Monad.return (Inl e)
     | Inr intent \<Rightarrow> do {
         listed \<leftarrow> store_read (cns_others svc) (ListOperationalVolumes (oi_ID intent));
         case listed of
           Inl e \<Rightarrow> State_Monad.return (Inl (wrap ''list operational volumes'' e))
         | Inr allVolumes \<Rightarrow>
             let volumes = volumesForVersion allVolumes (oi_Version intent) in
             if volumes = [] then do {
               summary \<leftarrow> unknownSummary svc intent sample;
               State_Monad.return (case summary of
                   Inl e \<Rightarrow> Inl e
                 | Inr c \<Rightarrow> Inr \<lparr>ce_Intent = intent, ce_Summary = c, ce_Events = []\<rparr>)
             }
             else judge_sample svc intent sample volumes
       }
   }"

definition EvaluateTelemetry ::
  "'w ConformanceService \<Rightarrow> TelemetrySample \<Rightarrow> ('w, ConformanceEvaluation result) srv" where
  "EvaluateTelemetry svc sample = do {
     recordedAt \<leftarrow> (if IsZero (ts_RecordedAt sample) then cns_now svc else State_Monad.return (ts_RecordedAt sample));
     let recorded = sample\<lparr>ts_RecordedAt := recordedAt\<rparr>;
     err \<leftarrow> (case cns_AddSample svc of Some add \<Rightarrow> add recorded | None \<Rightarrow> State_Monad.return None);
     case err of
       Some e \<Rightarrow> State_Monad.return (Inl (wrap ''add telemetry sample'' e))
     | None \<Rightarrow> evaluate_sample svc recorded
   }"

definition GetIntentConformance :: "'w ConformanceService \<Rightarrow> string \<Rightarrow> ('w, ConformanceEvaluation result) srv" where
  "GetIntentConformance svc intentID = do {
     read \<leftarrow> store_read (cns_others svc) (GetOperationalIntent intentID);
     case read of
       Inl e \<Rightarrow> State_Monad.return (Inl (wrap ''get operational intent'' e))
     | Inr intent \<Rightarrow> do {
         summary \<leftarrow> store_read (cns_others svc) (\<lambda>s. conformanceSummaryForVersion s intent);
         case summary of
           Inl e \<Rightarrow> State_Monad.return (Inl e)
         | Inr summary \<Rightarrow> do {
             listed \<leftarrow> store_read (cns_others svc) (ListConformanceEvents []);
             State_Monad.return (case listed of
                 Inl e \<Rightarrow> Inl (wrap ''list conformance events'' e)
               | Inr events \<Rightarrow> Inr \<lparr>ce_Intent = intent,
                   ce_Summary = (case summary of None \<Rightarrow> zero_ConformanceSummary | Some c \<Rightarrow> c),
                   ce_Events = filter (event_of_version intent) events\<rparr>)
           }
       }
   }"

subsection \<open>What is kept\<close>

definition conformance_keeps :: "(Store \<Rightarrow> bool) \<Rightarrow> 'w ConformanceService \<Rightarrow> bool" where
  "conformance_keeps I svc \<longleftrightarrow> keeps I (cns_now svc) \<and> keeps I (cns_others svc)
     \<and> (\<forall>add m. cns_AddSample svc = Some add \<longrightarrow> keeps I (add m))"

definition events_kept :: "'w ConformanceService \<Rightarrow> bool" where
  "events_kept svc \<longleftrightarrow> conformance_keeps (\<lambda>s. distinct_ids cev_ID (s_conformanceEvents s)) svc
     \<and> (\<forall>v. conformance_keeps (\<lambda>s. distinct_ids cev_ID (s_conformanceEvents s) \<and> v \<in> set (s_conformanceEvents s)) svc)"

definition same_plan :: "Store \<Rightarrow> Store \<Rightarrow> bool" where
  "same_plan s0 s \<longleftrightarrow> s_operationalIntents s = s_operationalIntents s0 \<and> s_operationalVolumes s = s_operationalVolumes s0"

text \<open>The active intent a sample is judged by.\<close>

definition judged_by :: "TelemetrySample \<Rightarrow> OperationalIntent \<Rightarrow> Store \<Rightarrow> bool" where
  "judged_by m i s \<longleftrightarrow> latestOperationalIntent s (oi_ID i) = Some i \<and> oi_Status i = IntentStatusActive
     \<and> (ts_AircraftID m = [] \<or> oi_AircraftID i = ts_AircraftID m)
     \<and> (ts_IntentID m \<noteq> [] \<longrightarrow> oi_ID i = ts_IntentID m \<and> oi_PlannedStartAt i \<le> ts_RecordedAt m
          \<and> ts_RecordedAt m \<le> oi_PlannedEndAt i)"

definition recorded_as :: "TelemetrySample \<Rightarrow> TelemetrySample \<Rightarrow> bool" where
  "recorded_as sample m \<longleftrightarrow> (if IsZero (ts_RecordedAt sample) then \<exists>t. m = sample\<lparr>ts_RecordedAt := t\<rparr> else m = sample)"

text \<open>The three verdicts, as the answer and the store show them.\<close>

definition verdict :: "mission_json \<Rightarrow> OperationalIntent \<Rightarrow> TelemetrySample \<Rightarrow> Store \<Rightarrow> ConformanceStatus" where
  "verdict json i m s =
     (if \<nexists>v. current_volume i s v then ConformanceStatusUnknown
      else if \<exists>v. current_volume i s v \<and> sampleInsideVolume json m v then ConformanceStatusConforming
      else ConformanceStatusNonConforming)"

definition exit_recorded :: "OperationalIntent \<Rightarrow> TelemetrySample \<Rightarrow> ConformanceEvaluation \<Rightarrow> Store \<Rightarrow> bool" where
  "exit_recorded i m r s' \<longleftrightarrow> (\<exists>v. ce_Events r = [exit_event i m v] \<and> exit_event i m v \<in> set (s_conformanceEvents s'))
     \<and> 1 \<le> cs_AlertCount (ce_Summary r) \<and> cs_ReportabilityStatus (ce_Summary r) \<noteq> ReportabilityStatusNo"

text \<open>A service that runs alone: neither its clock nor the telemetry store nor anybody else touches the store.\<close>

definition undisturbed :: "'w ConformanceService \<Rightarrow> bool" where
  "undisturbed svc \<longleftrightarrow> (\<forall>s. conformance_keeps (\<lambda>t. t = s) svc)"

definition resolved_from :: "TelemetrySample \<Rightarrow> Store \<Rightarrow> OperationalIntent result" where
  "resolved_from m s =
     (if ts_IntentID m = [] then pick_active (ts_AircraftID m) (ts_RecordedAt m) (ListOperationalIntents (ts_AircraftID m) s)
      else referenced_intent m (GetOperationalIntent (ts_IntentID m) s))"

definition alerts :: "OperationalIntent \<Rightarrow> Store \<Rightarrow> int" where
  "alerts i s = int (card (cev_ID ` {e \<in> set (s_conformanceEvents s). event_of_version i e}))"

text \<open>What an undisturbed evaluation at time \<open>now\<close> makes of the store, \<open>c\<close> being the summary it finds.\<close>

definition outcome ::
  "mission_json \<Rightarrow> OperationalIntent \<Rightarrow> TelemetrySample \<Rightarrow> OperationalVolume list \<Rightarrow> ConformanceSummary option \<Rightarrow> time \<Rightarrow> Store
    \<Rightarrow> ConformanceEvaluation \<times> Store" where
  "outcome json i m vs c now s =
     (if vs = [] then
        let k = sample_summary i m ConformanceStatusUnknown None (case c of None \<Rightarrow> 0 | Some c \<Rightarrow> cs_AlertCount c)
              (case c of None \<Rightarrow> ReportabilityStatusNo | Some c \<Rightarrow> cs_ReportabilityStatus c) now
        in (\<lparr>ce_Intent = i, ce_Summary = k, ce_Events = []\<rparr>, snd (UpsertConformanceSummary k s))
      else if \<exists>v \<in> set vs. sampleInsideVolume json m v then
        let k = sample_summary i m ConformanceStatusConforming (Some 1) (alerts i s) (kept_reportability c) now
        in (\<lparr>ce_Intent = i, ce_Summary = k, ce_Events = []\<rparr>, snd (UpsertConformanceSummary k s))
      else
        let e = exit_event i m (fst (search_volumes json m [] vs));
            s1 = snd (RecordConformanceEvent e s);
            k = sample_summary i m ConformanceStatusNonConforming (Some 0) (alerts i s1)
              (if kept_reportability c = ReportabilityStatusNo then ReportabilityStatusReview else kept_reportability c) now
        in (\<lparr>ce_Intent = i, ce_Summary = k, ce_Events = [e]\<rparr>, snd (UpsertConformanceSummary k s1)))"

text \<open>A store with an active intent, samples outside and inside its volume, and a service that runs alone.\<close>

definition flying_intent :: OperationalIntent where
  "flying_intent = sample_intent\<lparr>oi_Status := IntentStatusActive\<rparr>"

definition flying_store :: Store where
  "flying_store = (store_intent flying_intent NewStore)\<lparr>
     s_operationalVolumes := [(operationalVolumeKey sample_volume, sample_volume\<lparr>ov_GeoJSON := ''{}''\<rparr>)]\<rparr>"

definition sample_at :: "string \<Rightarrow> real \<Rightarrow> TelemetrySample" where
  "sample_at ident longitude = \<lparr>ts_ID = ident, ts_OperatorID = [], ts_AircraftID = ''uav-1'', ts_IntentID = [], ts_IntentVersion = 0,
     ts_FlightID = [], ts_RecordedAt = 15, ts_Latitude = 1 / 2, ts_Longitude = longitude, ts_AltitudeM = 50, ts_VelocityMPS = 0,
     ts_HeadingDeg = 0, ts_BatteryPct = None\<rparr>"

definition unit_square :: mission_json where
  "unit_square = sample_decoder [[[0, 0], [1, 0], [1, 1], [0, 1], [0, 0]]]"

definition quiet_conformance :: "unit ConformanceService" where
  "quiet_conformance = \<lparr>cns_now = reads (\<lambda>_. 30), cns_others = State_Monad.return (), cns_AddSample = None, cns_json = unit_square\<rparr>"

text \<open>
  A service whose fourth call of the store is preceded by the whole evaluation of another sample, one
  outside the volume; the world counts the calls.
\<close>

definition racing_conformance :: "nat ConformanceService" where
  "racing_conformance = \<lparr>cns_now = reads (\<lambda>_. 30),
     cns_others = State (\<lambda>(s, n). ((), (if n = 3
       then fst (snd (run_state (EvaluateTelemetry quiet_conformance (sample_at ''b'' 5)) (s, ()))) else s, Suc n))),
     cns_AddSample = None, cns_json = unit_square\<rparr>"

section \<open>Lemmas\<close>

interpretation conformance_records: store_log s_conformanceEvents cev_ID RecordConformanceEvent ..

subsection \<open>The search and the ring test\<close>

lemma search_volumes_inside:
  "snd (search_volumes json m e vs) \<longleftrightarrow> (\<exists>v \<in> set vs. sampleInsideVolume json m v)"
  by (induction vs arbitrary: e) auto

lemma decode_ring_points:
  "decode_ring ring = Inr points \<Longrightarrow>
     (\<forall>c \<in> set ring. 2 \<le> length c) \<and> points = map (\<lambda>c. \<lparr>mp_x = c ! 0, mp_y = c ! 1\<rparr>) ring"
  by (induction ring arbitrary: points) (auto split: if_splits sum.splits)

lemma cyclic_edges_map: "cyclic_edges (map f xs) = map (\<lambda>(a, b). (f a, f b)) (cyclic_edges xs)"
proof (cases "xs = []")
  case False
  then have "last (map f xs) # butlast (map f xs) = map f (last xs # butlast xs)"
    by (simp add: last_map map_butlast)
  with False show ?thesis by (simp add: cyclic_edges_def zip_map_map del: list.map)
qed (simp add: cyclic_edges_def)

lemma ring_toggle_crosses:
  "2 \<le> length a \<Longrightarrow> 2 \<le> length b \<Longrightarrow> ring_toggle (mp_x p) (mp_y p) (a, b) x =
     (if ray_crosses p \<lparr>mp_x = a ! 0, mp_y = a ! 1\<rparr> \<lparr>mp_x = b ! 0, mp_y = b ! 1\<rparr> then \<not> x else x)"
  by (simp add: ring_toggle_def ray_crosses_def Let_def)

lemma pointInRing_decoded:
  assumes "decode_ring ring = Inr points" and "3 \<le> length ring"
  shows "pointInRing (mp_x p) (mp_y p) ring \<longleftrightarrow> missionPointStrictlyInRing points p"
proof -
  have ring: "\<forall>c \<in> set ring. 2 \<le> length c" "points = map (\<lambda>c. \<lparr>mp_x = c ! 0, mp_y = c ! 1\<rparr>) ring"
    using decode_ring_points [OF assms(1)] by auto
  have edge: "2 \<le> length a \<and> 2 \<le> length b" if "(a, b) \<in> set (cyclic_edges ring)" for a b
  proof -
    have "a \<in> set ring" "b \<in> set (last ring # butlast ring)" "ring \<noteq> []"
      using that by (auto simp: cyclic_edges_def split: if_splits dest: set_zip_leftD set_zip_rightD)
    then show ?thesis using ring(1) by (auto dest: in_set_butlastD)
  qed
  have "fold (ring_toggle (mp_x p) (mp_y p)) (cyclic_edges ring) x
      = fold (\<lambda>(a, b) inside. if ray_crosses p a b then \<not> inside else inside) (cyclic_edges points) x" for x
    unfolding ring(2) cyclic_edges_map fold_map
    by (rule fold_cong [OF refl refl], rule ext) (use edge in \<open>clarsimp simp: ring_toggle_crosses\<close>)
  then show ?thesis using assms(2) by (simp add: pointInRing_def missionPointStrictlyInRing_def)
qed

lemma decode_rings_points:
  "decode_rings n rings = Inr polygon \<Longrightarrow>
     list_all2 (\<lambda>ring points. 4 \<le> length ring \<and> decode_ring ring = Inr points) rings polygon"
  by (induction n rings arbitrary: polygon rule: decode_rings.induct) (auto split: if_splits sum.splits)

lemma holes_allow_off_boundary:
  "\<forall>hole \<in> set holes. \<not> missionPointOnRing hole p \<Longrightarrow>
     holes_allow holes p \<longleftrightarrow> (\<forall>hole \<in> set holes. \<not> missionPointStrictlyInRing hole p)"
  by (induction holes) auto

lemma pointInGeoJSONPolygon_covers:
  assumes dec: "decodeMissionPolygon json raw = Inr polygon"
    and off: "\<forall>ring \<in> set polygon. \<not> missionPointOnRing ring p"
  shows "pointInGeoJSONPolygon json (mp_x p) (mp_y p) raw \<longleftrightarrow> missionPolygonCoversPoint polygon p"
proof -
  obtain rings where rings: "rings \<noteq> []" "decode_rings 0 rings = Inr polygon"
    and eq: "pointInGeoJSONPolygon json (mp_x p) (mp_y p) raw = (case rings of [] \<Rightarrow> False | outer # holes \<Rightarrow>
      if \<not> pointInRing (mp_x p) (mp_y p) outer then False else \<not> list_ex (pointInRing (mp_x p) (mp_y p)) holes)"
    using dec by (auto simp: decodeMissionPolygon_def pointInGeoJSONPolygon_def split: sum.splits if_splits prod.splits)
  from rings obtain outer holes outer' holes' where r: "rings = outer # holes" and p: "polygon = outer' # holes'"
    and all: "list_all2 (\<lambda>ring points. 4 \<le> length ring \<and> decode_ring ring = Inr points) rings polygon"
    using decode_rings_points [OF rings(2)] by (cases rings; cases polygon) auto
  have same: "list_all2 (\<lambda>ring points. pointInRing (mp_x p) (mp_y p) ring = missionPointStrictlyInRing points p) rings polygon"
    using all by (rule list_all2_mono) (auto intro!: pointInRing_decoded)
  have "list_ex (pointInRing (mp_x p) (mp_y p)) hs = list_ex (\<lambda>h. missionPointStrictlyInRing h p) hs'"
    if "list_all2 (\<lambda>ring points. pointInRing (mp_x p) (mp_y p) ring = missionPointStrictlyInRing points p) hs hs'" for hs hs'
    using that by (induction rule: list_all2_induct) auto
  then have "list_ex (pointInRing (mp_x p) (mp_y p)) holes = list_ex (\<lambda>h. missionPointStrictlyInRing h p) holes'"
    using same unfolding r p by simp
  with same off show ?thesis
    unfolding eq r p missionPolygonCoversPoint_def list.case
    by (auto simp: missionRingCoversPoint_def holes_allow_off_boundary list_ex_iff)
qed

subsection \<open>The intent of a sample\<close>

lemma listed_intent_latest:
  "ListOperationalIntents a s = Inr xs \<Longrightarrow> i \<in> set xs \<Longrightarrow>
     latestOperationalIntent s (oi_ID i) = Some i \<and> (a = [] \<or> oi_AircraftID i = a)"
  using keyed_vals [OF keyed_latest_by_id, of i "vals (s_operationalIntents s)"]
  by (auto simp: ListOperationalIntents_def map_of_latest_by_id simp del: map_of_eq_Some_iff)

lemma resolve_run:
  assumes "keeps I (cns_others svc)" and "I s"
    and "run_state (resolveIntentForTelemetry svc m) (s, w) = (Inr i, (s', w'))"
  shows "judged_by m i s' \<and> I s'"
proof (cases "ts_IntentID m = []")
  case True
  obtain s1 w1 where r: "run_state (store_read (cns_others svc) (ListOperationalIntents (ts_AircraftID m))) (s, w)
      = (ListOperationalIntents (ts_AircraftID m) s1, (s1, w1))" and I: "I s1" by (rule store_read_run [OF assms(1,2)])
  obtain xs where l: "ListOperationalIntents (ts_AircraftID m) s1 = Inr xs" by (simp add: ListOperationalIntents_def)
  have "s' = s1" and "i \<in> set xs" and "oi_Status i = IntentStatusActive"
    using assms(3) True r l
    by (auto simp: resolveIntentForTelemetry_def activeIntentForAircraft_def pick_active_def find_Some_iff split: option.splits)
  then show ?thesis using listed_intent_latest [OF l] I True by (simp add: judged_by_def)
next
  case False
  obtain s1 w1 where r: "run_state (store_read (cns_others svc) (GetOperationalIntent (ts_IntentID m))) (s, w)
      = (GetOperationalIntent (ts_IntentID m) s1, (s1, w1))" and I: "I s1" by (rule store_read_run [OF assms(1,2)])
  have "s' = s1" and i: "latestOperationalIntent s1 (ts_IntentID m) = Some i" and "sample_mismatch m i = None"
    using assms(3) False r
    by (auto simp: resolveIntentForTelemetry_def referenced_intent_def GetOperationalIntent_def found_def split: option.splits sum.splits)
  then show ?thesis using latestOperationalIntent_in [OF i] I False
    by (auto simp: judged_by_def sample_mismatch_def split: if_splits)
qed

subsection \<open>What an evaluation writes\<close>

lemma store_summary_run:
  assumes "keeps I (cns_others svc)" and "keeps I (cns_now svc)" and "I s"
  obtains now s1 w1 where "I s1" and "run_state (store_summary svc f) (s, w) =
    (Inr (f now), (snd (UpsertConformanceSummary (f now) s1), w1))"
proof -
  obtain now s1 w1 where n: "run_state (cns_now svc) (s, w) = (now, (s1, w1))" by (cases "run_state (cns_now svc) (s, w)") auto
  obtain s2 w2 where o2: "run_state (cns_others svc) (s1, w1) = ((), (s2, w2))" by (cases "run_state (cns_others svc) (s1, w1)") auto
  have "I s2" by (rule keeps_run [OF assms(1) o2 keeps_run [OF assms(2) n assms(3)]])
  then show ?thesis
    by (rule that [of s2 now w2]) (simp add: store_summary_def store_call_def n o2 UpsertConformanceSummary_def)
qed

lemma upsert_summary_frame [simp]:
  "s_conformanceEvents (snd (UpsertConformanceSummary c s)) = s_conformanceEvents s"
  "s_operationalIntents (snd (UpsertConformanceSummary c s)) = s_operationalIntents s"
  "s_operationalVolumes (snd (UpsertConformanceSummary c s)) = s_operationalVolumes s"
  "map_of (s_conformanceSummaries (snd (UpsertConformanceSummary c s))) (conformanceSummaryKey c) = Some c"
  by (simp_all add: UpsertConformanceSummary_def)

text \<open>The alerts of a version: its events in the store.\<close>

lemma alertCount_run:
  assumes "keeps I (cns_others svc)" and "I s"
  obtains s1 w1 where "I s1" and "run_state (alertCount svc i) (s, w) =
    (Inr (int (card (cev_ID ` {e \<in> set (s_conformanceEvents s1). event_of_version i e}))), (s1, w1))"
proof -
  obtain s1 w1 where r: "run_state (store_read (cns_others svc) (ListConformanceEvents [])) (s, w)
      = (ListConformanceEvents [] s1, (s1, w1))" and I: "I s1" by (rule store_read_run [OF assms])
  show ?thesis
    by (rule that [OF I]) (simp add: alertCount_def r ListConformanceEvents_def length_remdups_card_conv)
qed

lemma finish_run:
  assumes "keeps I (cns_others svc)" and "keeps I (cns_now svc)" and "I s1"
    and rec: "run_state (record_all (cns_others svc) ''record conformance event'' RecordConformanceEvent events) (s, w) = (None, (s1, w1))"
  obtains s2 now s3 w3 c where "I s2" and "I s3"
    and "c = sample_summary i m status (Some score)
      (int (card (cev_ID ` {e \<in> set (s_conformanceEvents s2). event_of_version i e}))) rep now"
    and "run_state (finish_evaluation svc i m status score rep events) (s, w) =
      (Inr \<lparr>ce_Intent = i, ce_Summary = c, ce_Events = events\<rparr>, (snd (UpsertConformanceSummary c s3), w3))"
proof -
  obtain s2 w2 where I2: "I s2" and r2: "run_state (alertCount svc i) (s1, w1) =
      (Inr (int (card (cev_ID ` {e \<in> set (s_conformanceEvents s2). event_of_version i e}))), (s2, w2))"
    by (rule alertCount_run [OF assms(1,3)])
  obtain now s3 w3 where I3: "I s3" and r3: "run_state (store_summary svc (sample_summary i m status (Some score)
        (int (card (cev_ID ` {e \<in> set (s_conformanceEvents s2). event_of_version i e}))) rep)) (s2, w2) =
      (Inr (sample_summary i m status (Some score)
        (int (card (cev_ID ` {e \<in> set (s_conformanceEvents s2). event_of_version i e}))) rep now),
       (snd (UpsertConformanceSummary (sample_summary i m status (Some score)
        (int (card (cev_ID ` {e \<in> set (s_conformanceEvents s2). event_of_version i e}))) rep now) s3), w3))"
    by (rule store_summary_run [OF assms(1,2) I2])
  show ?thesis
    by (rule that [OF I2 I3 refl]) (use rec r2 r3 in \<open>simp add: finish_evaluation_def\<close>)
qed

lemma recorded_ok: "\<exists>s1 w1. run_state (record_all others label RecordConformanceEvent events) (s, w) = (None, (s1, w1))"
  using conformance_records.record_all_ok [of others label events "(s, w)"] by (metis prod.collapse)

subsection \<open>The run of an evaluation\<close>

lemma judge_run:
  assumes "keeps I (cns_others svc)" and "I s"
  obtains s1 w1 c where "I s1" and "conformanceSummaryForVersion s1 i = Inr c"
    and "run_state (judge_sample svc i m vs) (s, w) =
      (if \<exists>v \<in> set vs. sampleInsideVolume (cns_json svc) m v
       then run_state (finish_evaluation svc i m ConformanceStatusConforming 1 (kept_reportability c) []) (s1, w1)
       else run_state (finish_evaluation svc i m ConformanceStatusNonConforming 0
         (if kept_reportability c = ReportabilityStatusNo then ReportabilityStatusReview else kept_reportability c)
         [exit_event i m (fst (search_volumes (cns_json svc) m [] vs))]) (s1, w1))"
proof -
  obtain s1 w1 where r: "run_state (store_read (cns_others svc) (\<lambda>s. conformanceSummaryForVersion s i)) (s, w)
      = (conformanceSummaryForVersion s1 i, (s1, w1))" and I: "I s1" by (rule store_read_run [OF assms])
  obtain c where c: "conformanceSummaryForVersion s1 i = Inr c"
    by (simp add: conformanceSummaryForVersion_def ListConformanceSummaries_def)
  show ?thesis
    by (rule that [OF I c, of w1]) (use r c search_volumes_inside [of "cns_json svc" m "[]" vs] in
      \<open>simp add: judge_sample_def Let_def case_prod_beta\<close>)
qed

lemma evaluate_sample_run:
  assumes "keeps I (cns_others svc)" and "I s"
    and "run_state (evaluate_sample svc m) (s, w) = (Inr r, (s', w'))"
  obtains i s1 s2 w2 vs where "judged_by m i s1" and "I s1" and "I s2"
    and "\<exists>all. ListOperationalVolumes (oi_ID i) s2 = Inr all \<and> vs = volumesForVersion all (oi_Version i)"
    and "vs \<noteq> [] \<Longrightarrow> run_state (judge_sample svc i m vs) (s2, w2) = (Inr r, (s', w'))"
    and "vs = [] \<Longrightarrow> \<exists>c. run_state (unknownSummary svc i m) (s2, w2) = (Inr c, (s', w'))
      \<and> r = \<lparr>ce_Intent = i, ce_Summary = c, ce_Events = []\<rparr>"
proof -
  obtain res s1 w1 where r1: "run_state (resolveIntentForTelemetry svc m) (s, w) = (res, (s1, w1))"
    by (cases "run_state (resolveIntentForTelemetry svc m) (s, w)") auto
  with assms(3) obtain i where i: "res = Inr i" by (cases res) (auto simp: evaluate_sample_def)
  have j: "judged_by m i s1" "I s1" using resolve_run [OF assms(1,2)] r1 i by blast+
  obtain s2 w2 where r2: "run_state (store_read (cns_others svc) (ListOperationalVolumes (oi_ID i))) (s1, w1)
      = (ListOperationalVolumes (oi_ID i) s2, (s2, w2))" and I2: "I s2" by (rule store_read_run [OF assms(1) j(2)])
  obtain all where all: "ListOperationalVolumes (oi_ID i) s2 = Inr all" by (simp add: ListOperationalVolumes_def)
  show ?thesis
    by (rule that [OF j I2, of "volumesForVersion all (oi_Version i)"])
      (use assms(3) r1 i r2 all in \<open>auto simp: evaluate_sample_def Let_def split: prod.splits sum.splits\<close>)
qed

lemma evaluate_telemetry_run:
  assumes "conformance_keeps I svc" and "I s"
    and "run_state (EvaluateTelemetry svc sample) (s, w) = (Inr r, (s', w'))"
  obtains m s1 w1 where "recorded_as sample m" and "I s1"
    and "run_state (evaluate_sample svc m) (s1, w1) = (Inr r, (s', w'))"
proof -
  let ?get = "if IsZero (ts_RecordedAt sample) then cns_now svc else State_Monad.return (ts_RecordedAt sample)"
  obtain t s1 w1 where r1: "run_state ?get (s, w) = (t, (s1, w1))" by (cases "run_state ?get (s, w)") auto
  have I1: "I s1" using assms(1,2) r1 by (auto simp: conformance_keeps_def dest: keeps_run split: if_splits)
  define m where "m = sample\<lparr>ts_RecordedAt := t\<rparr>"
  have rec: "recorded_as sample m" using r1 by (auto simp: recorded_as_def m_def)
  let ?add = "case cns_AddSample svc of Some add \<Rightarrow> add m | None \<Rightarrow> State_Monad.return None"
  obtain e s2 w2 where r2: "run_state ?add (s1, w1) = (e, (s2, w2))" by (cases "run_state ?add (s1, w1)") auto
  have I2: "I s2" using assms(1) I1 r2 by (cases "cns_AddSample svc") (auto simp: conformance_keeps_def dest: keeps_run)
  have "run_state (evaluate_sample svc m) (s2, w2) = (Inr r, (s', w'))"
    using assms(3) r1 r2 by (auto simp: EvaluateTelemetry_def Let_def simp flip: m_def split: option.splits)
  then show ?thesis by (rule that [OF rec I2])
qed

lemma same_plan_refl: "same_plan s s"
  by (simp add: same_plan_def)

lemma same_plan_reads:
  assumes "same_plan s0 s"
  shows "judged_by m i s = judged_by m i s0" "ListOperationalVolumes j s = ListOperationalVolumes j s0"
  using assms by (simp_all add: same_plan_def judged_by_def latestOperationalIntent_def ListOperationalVolumes_def)

lemma sample_summary_fields [simp]:
  "cs_IntentID (sample_summary i m st sc n rep t) = oi_ID i" "cs_IntentVersion (sample_summary i m st sc n rep t) = oi_Version i"
  "cs_Status (sample_summary i m st sc n rep t) = st" "cs_AlertCount (sample_summary i m st sc n rep t) = n"
  "cs_ReportabilityStatus (sample_summary i m st sc n rep t) = rep"
  by (simp_all add: sample_summary_def)

lemma conformance_keeps_conj: "conformance_keeps I svc \<Longrightarrow> conformance_keeps J svc \<Longrightarrow> conformance_keeps (\<lambda>s. I s \<and> J s) svc"
  by (auto simp: conformance_keeps_def keeps_def state_io_rel_def)

lemma conformance_keepsD:
  "conformance_keeps I svc \<Longrightarrow> keeps I (cns_others svc)" "conformance_keeps I svc \<Longrightarrow> keeps I (cns_now svc)"
  by (auto simp: conformance_keeps_def)

lemma events_kept_log: "events_kept svc \<Longrightarrow> log_kept s_conformanceEvents cev_ID (cns_others svc)"
  by (auto simp: events_kept_def log_kept_def conformance_keeps_def)

text \<open>An exit: its event is in the store from then on, and counts as an alert.\<close>

lemma exit_run:
  assumes kept: "events_kept svc" and d: "distinct_ids cev_ID (s_conformanceEvents s)" and e: "event_of_version i e"
  obtains s3 w3 now n where "run_state (finish_evaluation svc i m status score rep [e]) (s, w) =
      (Inr \<lparr>ce_Intent = i, ce_Summary = sample_summary i m status (Some score) n rep now, ce_Events = [e]\<rparr>,
       (snd (UpsertConformanceSummary (sample_summary i m status (Some score) n rep now) s3), w3))"
    and "e \<in> set (s_conformanceEvents s3)" and "1 \<le> n"
proof -
  let ?J = "\<lambda>s. distinct_ids cev_ID (s_conformanceEvents s) \<and> e \<in> set (s_conformanceEvents s)"
  have J: "conformance_keeps ?J svc" using kept by (simp add: events_kept_def)
  obtain s1 w1 where r: "run_state (record_all (cns_others svc) ''record conformance event'' RecordConformanceEvent [e]) (s, w)
      = (None, (s1, w1))" by (meson recorded_ok)
  have 1: "?J s1" using conformance_records.record_all_records [OF events_kept_log [OF kept] _ _ d r] by simp
  show ?thesis
  proof (rule finish_run [where i = i and m = m and status = status and score = score and rep = rep,
        OF conformance_keepsD [OF J] 1 r], goal_cases)
    case (1 s2 now s3 w3 c)
    have "cev_ID e \<in> cev_ID ` {e \<in> set (s_conformanceEvents s2). event_of_version i e}" using 1(1) e by blast
    then have "0 < card (cev_ID ` {e \<in> set (s_conformanceEvents s2). event_of_version i e})"
      by (simp add: card_gt_0_iff) blast
    then have "1 \<le> int (card (cev_ID ` {e \<in> set (s_conformanceEvents s2). event_of_version i e}))" by linarith
    with 1 show ?case by (intro that [OF 1(4) [unfolded 1(3)]]) simp_all
  qed
qed

lemma unknown_run:
  assumes "keeps I (cns_others svc)" and "keeps I (cns_now svc)" and "I s"
  obtains s1 s3 w3 now c where "I s1" and "I s3" and "conformanceSummaryForVersion s1 i = Inr c"
    and "run_state (unknownSummary svc i m) (s, w) =
      (let k = sample_summary i m ConformanceStatusUnknown None (case c of None \<Rightarrow> 0 | Some c \<Rightarrow> cs_AlertCount c)
             (case c of None \<Rightarrow> ReportabilityStatusNo | Some c \<Rightarrow> cs_ReportabilityStatus c) now
       in (Inr k, (snd (UpsertConformanceSummary k s3), w3)))"
proof -
  obtain s1 w1 where r: "run_state (store_read (cns_others svc) (\<lambda>s. conformanceSummaryForVersion s i)) (s, w)
      = (conformanceSummaryForVersion s1 i, (s1, w1))" and I: "I s1" by (rule store_read_run [OF assms(1,3)])
  obtain c where c: "conformanceSummaryForVersion s1 i = Inr c"
    by (simp add: conformanceSummaryForVersion_def ListConformanceSummaries_def)
  let ?k = "sample_summary i m ConformanceStatusUnknown None (case c of None \<Rightarrow> 0 | Some c \<Rightarrow> cs_AlertCount c)
             (case c of None \<Rightarrow> ReportabilityStatusNo | Some c \<Rightarrow> cs_ReportabilityStatus c)"
  obtain now s3 w3 where I3: "I s3" and "run_state (store_summary svc ?k) (s1, w1) =
      (Inr (?k now), (snd (UpsertConformanceSummary (?k now) s3), w3))" by (rule store_summary_run [OF assms(1,2) I])
  with r c show ?thesis by (intro that [OF I I3 c, of now w3]) (simp add: unknownSummary_def Let_def)
qed

lemma conforming_run:
  obtains s3 w3 now n where "run_state (finish_evaluation svc i m status score rep []) (s, w) =
      (Inr \<lparr>ce_Intent = i, ce_Summary = sample_summary i m status (Some score) n rep now, ce_Events = []\<rparr>,
       (snd (UpsertConformanceSummary (sample_summary i m status (Some score) n rep now) s3), w3))"
proof -
  have r: "run_state (record_all (cns_others svc) ''record conformance event'' RecordConformanceEvent []) (s, w) = (None, (s, w))"
    by simp
  show ?thesis
  proof (rule finish_run [where i = i and m = m and status = status and score = score and rep = rep and I = "\<lambda>_. True",
        OF keeps_True keeps_True TrueI r], goal_cases)
    case (1 s2 now s3 w3 c)
    then show ?case by (intro that [OF 1(4) [unfolded 1(3)]])
  qed
qed

lemma exit_event_of_version: "event_of_version i (exit_event i m v)"
  by (simp add: event_of_version_def exit_event_def)

lemma judged_sample:
  assumes kept: "events_kept svc" and d: "distinct_ids cev_ID (s_conformanceEvents s)"
    and run: "run_state (judge_sample svc i m vs) (s, w) = (Inr r, (s', w'))"
  shows "ce_Intent r = i \<and> cs_IntentID (ce_Summary r) = oi_ID i \<and> cs_IntentVersion (ce_Summary r) = oi_Version i
    \<and> map_of (s_conformanceSummaries s') (conformanceSummaryKey (ce_Summary r)) = Some (ce_Summary r)
    \<and> (if \<exists>v \<in> set vs. sampleInsideVolume (cns_json svc) m v
       then cs_Status (ce_Summary r) = ConformanceStatusConforming \<and> ce_Events r = []
       else cs_Status (ce_Summary r) = ConformanceStatusNonConforming \<and> exit_recorded i m r s')"
proof (rule judge_run [where i = i and m = m and vs = vs and w = w and I = "\<lambda>s. distinct_ids cev_ID (s_conformanceEvents s)",
    of svc s, OF _ d], goal_cases)
  case 1
  show ?case using kept by (simp add: events_kept_def conformance_keeps_def)
next
  case (2 s1 w1 c)
  show ?case
  proof (cases "\<exists>v \<in> set vs. sampleInsideVolume (cns_json svc) m v")
    case True
    with run 2(3) have f: "run_state (finish_evaluation svc i m ConformanceStatusConforming 1 (kept_reportability c) []) (s1, w1)
        = (Inr r, (s', w'))" by simp
    show ?thesis
      by (rule conforming_run [of svc i m ConformanceStatusConforming 1 "kept_reportability c" s1 w1]) (use f True in auto)
  next
    case False
    let ?rep = "if kept_reportability c = ReportabilityStatusNo then ReportabilityStatusReview else kept_reportability c"
    let ?e = "exit_event i m (fst (search_volumes (cns_json svc) m [] vs))"
    from False run 2(3) have f: "run_state (finish_evaluation svc i m ConformanceStatusNonConforming 0 ?rep [?e]) (s1, w1)
        = (Inr r, (s', w'))" by simp
    show ?thesis
      by (rule exit_run [where i = i and m = m and e = ?e and status = ConformanceStatusNonConforming and score = 0
            and rep = ?rep and w = w1, OF kept 2(1) exit_event_of_version])
        (use f False in \<open>auto simp: exit_recorded_def\<close>)
  qed
qed

subsection \<open>Undisturbed evaluations\<close>

lemma undisturbedD:
  assumes "undisturbed svc"
  shows "keeps (\<lambda>t. t = s) (cns_others svc)" "keeps (\<lambda>t. t = s) (cns_now svc)" "conformance_keeps (\<lambda>t. t = s) svc"
  using assms by (auto simp: undisturbed_def conformance_keeps_def)

lemma undisturbed_read:
  assumes "undisturbed svc"
  obtains w' where "run_state (store_read (cns_others svc) f) (s, w) = (f s, (s, w'))"
  by (rule store_read_run [where I = "\<lambda>t. t = s" and f = f and w = w, OF undisturbedD(1) [OF assms] refl]) (use that in blast)

lemma undisturbed_resolve:
  assumes "undisturbed svc"
  shows "\<exists>w'. run_state (resolveIntentForTelemetry svc m) (s, w) = (resolved_from m s, (s, w'))"
proof -
  obtain w1 where "run_state (store_read (cns_others svc) (ListOperationalIntents (ts_AircraftID m))) (s, w)
      = (ListOperationalIntents (ts_AircraftID m) s, (s, w1))" by (rule undisturbed_read [OF assms])
  moreover obtain w2 where "run_state (store_read (cns_others svc) (GetOperationalIntent (ts_IntentID m))) (s, w)
      = (GetOperationalIntent (ts_IntentID m) s, (s, w2))" by (rule undisturbed_read [OF assms])
  ultimately show ?thesis
    by (simp add: resolveIntentForTelemetry_def activeIntentForAircraft_def resolved_from_def)
qed

lemma undisturbed_record:
  assumes "undisturbed svc"
  obtains w' where "run_state (record_all (cns_others svc) label RecordConformanceEvent es) (s, w)
    = (None, (fold (\<lambda>e s. snd (RecordConformanceEvent e s)) es s, w'))"
proof -
  have "\<exists>w'. run_state (record_all (cns_others svc) label RecordConformanceEvent es) (s, w)
    = (None, (fold (\<lambda>e s. snd (RecordConformanceEvent e s)) es s, w'))"
  proof (induction es arbitrary: s w)
    case (Cons e es)
    obtain s1 w1 where o: "run_state (cns_others svc) (s, w) = ((), (s1, w1))" by (cases "run_state (cns_others svc) (s, w)") auto
    have "s1 = s" using keeps_run [OF undisturbedD(1) [OF assms] o, of s] by simp
    with o Cons.IH [of "snd (RecordConformanceEvent e s)" w1] show ?case
      by (simp add: store_call_def conformance_log.write_ok)
  qed simp
  then show ?thesis using that by blast
qed

lemma undisturbed_finish:
  assumes "undisturbed svc"
    and "run_state (finish_evaluation svc i m status score rep es) (s, w) = (Inr r, (s', w'))"
  shows "\<exists>now. let s1 = fold (\<lambda>e s. snd (RecordConformanceEvent e s)) es s;
      k = sample_summary i m status (Some score) (alerts i s1) rep now
    in r = \<lparr>ce_Intent = i, ce_Summary = k, ce_Events = es\<rparr> \<and> s' = snd (UpsertConformanceSummary k s1)"
proof -
  let ?s1 = "fold (\<lambda>e s. snd (RecordConformanceEvent e s)) es s"
  obtain w1 where rec: "run_state (record_all (cns_others svc) ''record conformance event'' RecordConformanceEvent es) (s, w)
    = (None, (?s1, w1))" by (rule undisturbed_record [OF assms(1)])
  show ?thesis
  proof (rule finish_run [where i = i and m = m and status = status and score = score and rep = rep
        and I = "\<lambda>t. t = ?s1", OF undisturbedD(1,2) [OF assms(1)] refl rec], goal_cases)
    case (1 s2 now s3 w3 c)
    then show ?case using assms(2) by (auto simp: Let_def alerts_def intro!: exI [of _ now])
  qed
qed

lemma undisturbed_outcome:
  assumes u: "undisturbed svc" and "\<not> IsZero (ts_RecordedAt m)"
    and "run_state (EvaluateTelemetry svc m) (s, w) = (Inr r, (s', w'))"
  obtains i vs c now where "resolved_from m s = Inr i"
    and "\<exists>all. ListOperationalVolumes (oi_ID i) s = Inr all \<and> vs = volumesForVersion all (oi_Version i)"
    and "conformanceSummaryForVersion s i = Inr c" and "outcome (cns_json svc) i m vs c now s = (r, s')"
proof -
  obtain m' s1 w1 where "recorded_as m m'" "s1 = s" and run: "run_state (evaluate_sample svc m') (s1, w1) = (Inr r, (s', w'))"
    by (rule evaluate_telemetry_run [OF undisturbedD(3) [OF u] refl assms(3)])
  then have run: "run_state (evaluate_sample svc m) (s, w1) = (Inr r, (s', w'))" using assms(2) by (simp add: recorded_as_def)
  obtain w2 where r2: "run_state (resolveIntentForTelemetry svc m) (s, w1) = (resolved_from m s, (s, w2))"
    using undisturbed_resolve [OF u] by blast
  then obtain i where i: "resolved_from m s = Inr i" using run by (cases "resolved_from m s") (auto simp: evaluate_sample_def)
  obtain w3 where r3: "run_state (store_read (cns_others svc) (ListOperationalVolumes (oi_ID i))) (s, w2)
      = (ListOperationalVolumes (oi_ID i) s, (s, w3))" by (rule undisturbed_read [OF u])
  obtain all where all: "ListOperationalVolumes (oi_ID i) s = Inr all" by (simp add: ListOperationalVolumes_def)
  let ?vs = "volumesForVersion all (oi_Version i)"
  obtain c where c: "conformanceSummaryForVersion s i = Inr c"
    by (simp add: conformanceSummaryForVersion_def ListConformanceSummaries_def)
  have "\<exists>now. outcome (cns_json svc) i m ?vs c now s = (r, s')"
  proof (cases "?vs = []")
    case True
    then obtain k where k: "run_state (unknownSummary svc i m) (s, w3) = (Inr k, (s', w'))"
        "r = \<lparr>ce_Intent = i, ce_Summary = k, ce_Events = []\<rparr>"
      using run r2 i r3 all by (auto simp: evaluate_sample_def Let_def split: prod.splits sum.splits)
    show ?thesis
      by (rule unknown_run [where i = i and m = m and w = w3 and I = "\<lambda>t. t = s", OF undisturbedD(1,2) [OF u] refl])
        (use k True c in \<open>auto simp: outcome_def Let_def\<close>)
  next
    case False
    then have j: "run_state (judge_sample svc i m ?vs) (s, w3) = (Inr r, (s', w'))"
      using run r2 i r3 all by (auto simp: evaluate_sample_def Let_def)
    show ?thesis
    proof (rule judge_run [where i = i and m = m and vs = ?vs and w = w3 and I = "\<lambda>t. t = s", OF undisturbedD(1) [OF u] refl],
        goal_cases)
      case (1 s1 w1 c1)
      then have eq: "s1 = s" "c1 = c" using c by simp_all
      show ?case
      proof (cases "\<exists>v \<in> set ?vs. sampleInsideVolume (cns_json svc) m v")
        case True
        with 1(3) j eq have "run_state (finish_evaluation svc i m ConformanceStatusConforming 1 (kept_reportability c) []) (s, w1)
          = (Inr r, (s', w'))" by simp
        from undisturbed_finish [OF u this] True False show ?thesis by (auto simp: outcome_def Let_def)
      next
        case out: False
        with 1(3) j eq have "run_state (finish_evaluation svc i m ConformanceStatusNonConforming 0
            (if kept_reportability c = ReportabilityStatusNo then ReportabilityStatusReview else kept_reportability c)
            [exit_event i m (fst (search_volumes (cns_json svc) m [] ?vs))]) (s, w1) = (Inr r, (s', w'))" by simp
        from undisturbed_finish [OF u this] out False show ?thesis unfolding outcome_def Let_def
          by (simp only: if_False fold.simps comp_apply id_apply) auto
      qed
    qed
  qed
  then show ?thesis using that i all c by blast
qed

lemma find_unique:
  assumes "c \<in> set l" and "P c" and "\<And>k. k \<in> set l \<Longrightarrow> P k \<Longrightarrow> k = c"
  shows "find P l = Some c"
proof (cases "find P l")
  case None
  with assms(1,2) have False unfolding find_None_iff by blast
  then show ?thesis ..
next
  case (Some y)
  then obtain n where "n < length l" "P (l ! n)" "y = l ! n" unfolding find_Some_iff by blast
  then have "y = c" by (intro assms(3)) simp_all
  with Some show ?thesis by (simp only:)
qed

lemma stored_summary_found:
  assumes "keyed conformanceSummaryKey (s_conformanceSummaries s)"
    and "map_of (s_conformanceSummaries s) (conformanceSummaryKey c) = Some c"
    and "cs_IntentID c = oi_ID i" and "cs_IntentVersion c = oi_Version i"
  shows "conformanceSummaryForVersion s i = Inr (Some c)"
proof -
  obtain l where l: "ListConformanceSummaries (oi_ID i) s = Inr l" and set: "set l =
      {k \<in> set (vals (s_conformanceSummaries s)). oi_ID i = [] \<or> cs_IntentID k = oi_ID i}"
    by (simp add: ListConformanceSummaries_def)
  let ?P = "\<lambda>k. cs_IntentID k = oi_ID i \<and> cs_IntentVersion k = oi_Version i"
  have "c \<in> set (vals (s_conformanceSummaries s))" using keyed_vals [OF assms(1), of c] assms(2) by simp
  with set assms(3) have "c \<in> set l" by simp
  moreover have "k = c" if k: "k \<in> set l" "?P k" for k
  proof (rule keyed_vals_inj [OF assms(1)])
    show "k \<in> set (vals (s_conformanceSummaries s))" using k(1) set by simp
    show "conformanceSummaryKey k = conformanceSummaryKey c" using k(2) assms(3,4) by (simp add: conformanceSummaryKey_eq)
  qed (use assms(2) keyed_vals [OF assms(1), of c] in simp)
  ultimately have "find ?P l = Some c" by (intro find_unique [of c l ?P] conjI assms(3,4))
  then show ?thesis by (simp add: conformanceSummaryForVersion_def l)
qed

lemma outcome_summary:
  assumes "outcome json i m vs c now s = (r, s')" and "keyed conformanceSummaryKey (s_conformanceSummaries s)"
  shows "ce_Intent r = i" and "conformanceSummaryForVersion s' i = Inr (Some (ce_Summary r))"
    and "s_operationalIntents s' = s_operationalIntents s" and "s_operationalVolumes s' = s_operationalVolumes s"
proof -
  have frame: "s_operationalIntents (snd (RecordConformanceEvent e s)) = s_operationalIntents s"
    "s_operationalVolumes (snd (RecordConformanceEvent e s)) = s_operationalVolumes s"
    "s_conformanceSummaries (snd (RecordConformanceEvent e s)) = s_conformanceSummaries s" for e
    by (simp_all add: RecordConformanceEvent_def)
  obtain t where s': "s' = snd (UpsertConformanceSummary (ce_Summary r) t)"
    and t: "s_operationalIntents t = s_operationalIntents s" "s_operationalVolumes t = s_operationalVolumes s"
      "s_conformanceSummaries t = s_conformanceSummaries s"
    and r: "ce_Intent r = i" "cs_IntentID (ce_Summary r) = oi_ID i" "cs_IntentVersion (ce_Summary r) = oi_Version i"
    using assms(1) by (fastforce simp: outcome_def Let_def frame split: if_splits)
  have "keyed conformanceSummaryKey (s_conformanceSummaries s')"
    using assms(2) t(3) by (simp add: s' UpsertConformanceSummary_def)
  moreover have "map_of (s_conformanceSummaries s') (conformanceSummaryKey (ce_Summary r)) = Some (ce_Summary r)" by (simp add: s')
  ultimately show "conformanceSummaryForVersion s' i = Inr (Some (ce_Summary r))" by (rule stored_summary_found [OF _ _ r(2,3)])
  show "ce_Intent r = i" by (rule r(1))
  show "s_operationalIntents s' = s_operationalIntents s" "s_operationalVolumes s' = s_operationalVolumes s"
    by (simp_all add: s' t)
qed

lemma alerts_cong: "s_conformanceEvents s = s_conformanceEvents t \<Longrightarrow> alerts i s = alerts i t"
  by (simp add: alerts_def)

lemma record_again:
  "s_conformanceEvents (snd (RecordConformanceEvent e (snd (UpsertConformanceSummary k (snd (RecordConformanceEvent e s))))))
     = s_conformanceEvents (snd (RecordConformanceEvent e s))"
  using conformance_log.write_twice [of e s]
  by (simp add: conformance_log.write_entries UpsertConformanceSummary_def)

lemma outcome_twice:
  assumes "outcome json i m vs c now s = (r1, s1)" and "outcome json i m vs (Some (ce_Summary r1)) now' s1 = (r2, s2)"
  shows "ce_Events r2 = ce_Events r1 \<and> cs_Status (ce_Summary r2) = cs_Status (ce_Summary r1)
    \<and> cs_AlertCount (ce_Summary r2) = cs_AlertCount (ce_Summary r1)
    \<and> cs_ReportabilityStatus (ce_Summary r2) = cs_ReportabilityStatus (ce_Summary r1)
    \<and> s_conformanceEvents s2 = s_conformanceEvents s1
    \<and> (\<forall>k. c = Some k \<and> cs_ReportabilityStatus k \<noteq> ReportabilityStatusNo
         \<longrightarrow> cs_ReportabilityStatus (ce_Summary r1) = cs_ReportabilityStatus k)"
  using assms
  by (auto simp: outcome_def Let_def kept_reportability_def record_again split: if_splits option.splits intro!: alerts_cong)

subsection \<open>Examples\<close>

lemma quiet_undisturbed: "undisturbed quiet_conformance"
  by (simp add: undisturbed_def conformance_keeps_def quiet_conformance_def)

lemma quiet_keeps_all: "conformance_keeps I quiet_conformance" "events_kept quiet_conformance"
  by (simp_all add: events_kept_def conformance_keeps_def quiet_conformance_def)

lemma flying_exit: "\<exists>r s'. run_state (EvaluateTelemetry quiet_conformance (sample_at ''a'' 5)) (flying_store, ()) = (Inr r, (s', ()))
    \<and> cs_Status (ce_Summary r) = ConformanceStatusNonConforming"
proof -
  have "(case fst (run_state (EvaluateTelemetry quiet_conformance (sample_at ''a'' 5)) (flying_store, ())) of
      Inr r \<Rightarrow> cs_Status (ce_Summary r) = ConformanceStatusNonConforming | Inl e \<Rightarrow> False)" by code_simp
  then show ?thesis
    by (cases "run_state (EvaluateTelemetry quiet_conformance (sample_at ''a'' 5)) (flying_store, ())") (auto split: sum.splits)
qed

lemma flying_exit_again: "run_state (EvaluateTelemetry quiet_conformance (sample_at ''a'' 5)) (flying_store, ()) = (Inr r, (s1, ())) \<Longrightarrow>
    \<exists>r2 s2. run_state (EvaluateTelemetry quiet_conformance (sample_at ''a'' 5)) (s1, ()) = (Inr r2, (s2, ()))"
proof -
  assume run: "run_state (EvaluateTelemetry quiet_conformance (sample_at ''a'' 5)) (flying_store, ()) = (Inr r, (s1, ()))"
  have "(case fst (run_state (EvaluateTelemetry quiet_conformance (sample_at ''a'' 5))
      (fst (snd (run_state (EvaluateTelemetry quiet_conformance (sample_at ''a'' 5)) (flying_store, ()))), ())) of
      Inr r \<Rightarrow> True | Inl e \<Rightarrow> False)" by code_simp
  then show ?thesis unfolding run
    by (cases "run_state (EvaluateTelemetry quiet_conformance (sample_at ''a'' 5)) (s1, ())") (auto split: sum.splits)
qed

lemma flying_store_ok: "distinct_ids cev_ID (s_conformanceEvents flying_store)"
  "\<forall>i \<in> set (vals (s_operationalIntents flying_store)). oi_ID i \<noteq> []"
  "keyed conformanceSummaryKey (s_conformanceSummaries flying_store)"
  by (simp_all add: flying_store_def store_intent_def NewStore_def vals_def flying_intent_def sample_intent_def)

section \<open>Properties\<close>

text \<open>
  C14: telemetry is judged by the volumes of the active intent. When \<open>EvaluateTelemetry\<close> answers, and
  other requests leave intents and volumes to it, the sample was judged against the latest version of
  an active intent of its aircraft; the verdict is conforming exactly when a volume of that version
  contains the sample in time, altitude and outline, unknown exactly when the version has no volume.
  A sample outside is recorded as an event with its time and position, raises the number of alerts
  and asks for a review. The summary of the answer is the one stored for the version.
\<close>

theorem telemetry_judged_exactly:
  assumes "conformance_keeps (same_plan s) svc" and "events_kept svc" and "distinct_ids cev_ID (s_conformanceEvents s)"
    and "\<forall>i \<in> set (vals (s_operationalIntents s)). oi_ID i \<noteq> []"
    and "run_state (EvaluateTelemetry svc sample) (s, w) = (Inr r, (s', w'))"
  shows "\<exists>m. recorded_as sample m \<and> judged_by m (ce_Intent r) s
    \<and> cs_Status (ce_Summary r) = verdict (cns_json svc) (ce_Intent r) m s
    \<and> (if cs_Status (ce_Summary r) = ConformanceStatusNonConforming then exit_recorded (ce_Intent r) m r s' else ce_Events r = [])
    \<and> cs_IntentID (ce_Summary r) = oi_ID (ce_Intent r) \<and> cs_IntentVersion (ce_Summary r) = oi_Version (ce_Intent r)
    \<and> map_of (s_conformanceSummaries s') (conformanceSummaryKey (ce_Summary r)) = Some (ce_Summary r)"
proof -
  let ?I = "\<lambda>t. same_plan s t \<and> distinct_ids cev_ID (s_conformanceEvents t)"
  have keeps: "conformance_keeps ?I svc" using assms(1,2) by (intro conformance_keeps_conj) (simp_all add: events_kept_def)
  obtain m s1 w1 where rec: "recorded_as sample m" and I1: "?I s1"
    and run: "run_state (evaluate_sample svc m) (s1, w1) = (Inr r, (s', w'))"
    by (rule evaluate_telemetry_run [OF keeps _ assms(5)]) (use assms(3) same_plan_refl in auto)
  show ?thesis
  proof (rule evaluate_sample_run [OF conformance_keepsD(1) [OF keeps] I1 run], goal_cases)
    case (1 i s2 s3 w3 vs)
    have j: "judged_by m i s" using 1(1,2) same_plan_reads(1) by blast
    then have ne: "oi_ID i \<noteq> []" using assms(4) latestOperationalIntent_in unfolding judged_by_def by blast
    have vs: "set vs = {v. current_volume i s v}" using 1(3,4) listed_for_version(1) [OF ne, of s] same_plan_reads(2) by fastforce
    show ?case
    proof (cases "vs = []")
      case True
      with vs have none: "verdict (cns_json svc) i m s = ConformanceStatusUnknown" by (auto simp: verdict_def)
      from 1(6) [OF True] obtain c where c: "run_state (unknownSummary svc i m) (s3, w3) = (Inr c, (s', w'))"
        "r = \<lparr>ce_Intent = i, ce_Summary = c, ce_Events = []\<rparr>" by blast
      show ?thesis
        by (rule unknown_run [where i = i and m = m and w = w3, OF conformance_keepsD [OF keeps] 1(3)])
          (use c rec j none in \<open>auto simp: Let_def\<close>)
    next
      case False
      have "verdict (cns_json svc) i m s = (if \<exists>v \<in> set vs. sampleInsideVolume (cns_json svc) m v
          then ConformanceStatusConforming else ConformanceStatusNonConforming)"
        using vs False by (auto simp: verdict_def simp flip: set_empty)
      with judged_sample [OF assms(2) _ 1(5) [OF False]] 1(3) rec j show ?thesis by (auto split: if_splits)
    qed
  qed
qed

theorem telemetry_judged_exactly_witness:
  "\<exists>r s'. run_state (EvaluateTelemetry quiet_conformance (sample_at ''a'' 5)) (flying_store, ()) = (Inr r, (s', ()))
    \<and> (\<exists>v. exit_event (ce_Intent r) (sample_at ''a'' 5) v \<in> set (s_conformanceEvents s'))
    \<and> cs_ReportabilityStatus (ce_Summary r) \<noteq> ReportabilityStatusNo"
proof -
  obtain r s' where run: "run_state (EvaluateTelemetry quiet_conformance (sample_at ''a'' 5)) (flying_store, ()) = (Inr r, (s', ()))"
    and st: "cs_Status (ce_Summary r) = ConformanceStatusNonConforming" using flying_exit by blast
  from telemetry_judged_exactly [OF quiet_keeps_all flying_store_ok(1,2) run] st
  have "exit_recorded (ce_Intent r) (sample_at ''a'' 5) r s'" by (auto simp: recorded_as_def sample_at_def)
  with run show ?thesis by (auto simp: exit_recorded_def)
qed

text \<open>
  C16: monitoring agrees with the import of missions. For a volume whose outline the import can decode,
  and a point on none of its rings, the ray casting of the conformance service and the coverage test
  of the mission import agree: a sample is inside the volume exactly when it is in its time and
  altitude and the import would accept a mission item at its position. (On a ring the import accepts
  every point, the monitoring only some.)
\<close>

theorem monitoring_agrees_with_import:
  assumes "decodeMissionPolygon json (ov_GeoJSON v) = Inr polygon" and "ov_GeoJSON v \<noteq> []"
    and "\<forall>ring \<in> set polygon. \<not> missionPointOnRing ring \<lparr>mp_x = ts_Longitude m, mp_y = ts_Latitude m\<rparr>"
  shows "sampleInsideVolume json m v \<longleftrightarrow> ov_StartsAt v \<le> ts_RecordedAt m \<and> ts_RecordedAt m \<le> ov_EndsAt v
    \<and> ov_MinAltitudeM v \<le> ts_AltitudeM m \<and> ts_AltitudeM m \<le> ov_MaxAltitudeM v
    \<and> missionPolygonCoversPoint polygon \<lparr>mp_x = ts_Longitude m, mp_y = ts_Latitude m\<rparr>"
  using pointInGeoJSONPolygon_covers [OF assms(1,3)] assms(2)
  by (auto simp: sampleInsideVolume_def linorder_not_less)

theorem monitoring_agrees_with_import_witness:
  "sampleInsideVolume unit_square (sample_at ''a'' (1 / 2)) (sample_volume\<lparr>ov_GeoJSON := ''{}''\<rparr>)"
proof -
  let ?v = "sample_volume\<lparr>ov_GeoJSON := ''{}''\<rparr>"
  let ?m = "sample_at ''a'' (1 / 2)"
  have dec: "decodeMissionPolygon unit_square (ov_GeoJSON ?v) = Inr [sample_square]"
    by (simp add: decodeMissionPolygon_def unit_square_def sample_decoder_def missionPointsEqual_def sample_square_def point_at_def)
  have off: "\<forall>ring \<in> set [sample_square]. \<not> missionPointOnRing ring \<lparr>mp_x = ts_Longitude ?m, mp_y = ts_Latitude ?m\<rparr>"
    by code_simp
  have cov: "missionPolygonCoversPoint [sample_square] \<lparr>mp_x = ts_Longitude ?m, mp_y = ts_Latitude ?m\<rparr>" by code_simp
  show ?thesis
    using monitoring_agrees_with_import [OF dec _ off] cov by (simp add: sample_at_def sample_volume_def zero_OperationalVolume_def)
qed

text \<open>
  A repeated sample counts once. When a service that runs alone evaluates the same sample twice,
  the second answer has the same verdict, events, number of alerts and reportability as the first,
  and the recorded events are as after the first. A reportability other than \<open>no\<close> is never taken back.
\<close>

theorem repeated_sample_counts_once:
  assumes "undisturbed svc" and "\<not> IsZero (ts_RecordedAt m)" and "keyed conformanceSummaryKey (s_conformanceSummaries s)"
    and "run_state (EvaluateTelemetry svc m) (s, w) = (Inr r1, (s1, w1))"
    and "run_state (EvaluateTelemetry svc m) (s1, w1) = (Inr r2, (s2, w2))"
  shows "ce_Intent r2 = ce_Intent r1 \<and> ce_Events r2 = ce_Events r1 \<and> cs_Status (ce_Summary r2) = cs_Status (ce_Summary r1)
    \<and> cs_AlertCount (ce_Summary r2) = cs_AlertCount (ce_Summary r1)
    \<and> cs_ReportabilityStatus (ce_Summary r2) = cs_ReportabilityStatus (ce_Summary r1)
    \<and> s_conformanceEvents s2 = s_conformanceEvents s1
    \<and> (\<forall>k. conformanceSummaryForVersion s (ce_Intent r1) = Inr (Some k) \<and> cs_ReportabilityStatus k \<noteq> ReportabilityStatusNo
         \<longrightarrow> cs_ReportabilityStatus (ce_Summary r1) = cs_ReportabilityStatus k)"
proof (rule undisturbed_outcome [OF assms(1,2,4)], goal_cases)
  case (1 i vs c now)
  note o1 = outcome_summary [OF 1(4) assms(3)]
  have same: "resolved_from m s1 = resolved_from m s" "ListOperationalVolumes j s1 = ListOperationalVolumes j s" for j
    using o1(3,4) by (simp_all add: resolved_from_def ListOperationalIntents_def GetOperationalIntent_def
        latestOperationalIntent_def ListOperationalVolumes_def)
  show ?case
  proof (rule undisturbed_outcome [OF assms(1,2,5)], goal_cases)
    case (1 i' vs' c' now')
    have eq: "i' = i" "vs' = vs" "c' = Some (ce_Summary r1)"
      using 1(1-3) \<open>resolved_from m s = Inr i\<close> \<open>\<exists>all. _ \<and> vs = _\<close> o1(2) by (auto simp: same)
    have "ce_Intent r2 = i" using 1(4) eq by (auto simp: outcome_def Let_def split: if_splits)
    with outcome_twice [OF \<open>outcome _ i m vs c now s = _\<close> 1(4) [unfolded eq]] o1(1) \<open>conformanceSummaryForVersion s i = Inr c\<close>
    show ?case by simp
  qed
qed

theorem repeated_sample_counts_once_witness:
  "\<exists>r1 s1 r2 s2. run_state (EvaluateTelemetry quiet_conformance (sample_at ''a'' 5)) (flying_store, ()) = (Inr r1, (s1, ()))
    \<and> run_state (EvaluateTelemetry quiet_conformance (sample_at ''a'' 5)) (s1, ()) = (Inr r2, (s2, ()))
    \<and> cs_AlertCount (ce_Summary r2) = cs_AlertCount (ce_Summary r1) \<and> s_conformanceEvents s2 = s_conformanceEvents s1"
proof -
  obtain r1 s1 where run1: "run_state (EvaluateTelemetry quiet_conformance (sample_at ''a'' 5)) (flying_store, ()) = (Inr r1, (s1, ()))"
    using flying_exit by blast
  obtain r2 s2 where run2: "run_state (EvaluateTelemetry quiet_conformance (sample_at ''a'' 5)) (s1, ()) = (Inr r2, (s2, ()))"
    using flying_exit_again [OF run1] by blast
  have "\<not> IsZero (ts_RecordedAt (sample_at ''a'' 5))" by (simp add: sample_at_def)
  from repeated_sample_counts_once [OF quiet_undisturbed this flying_store_ok(3) run1 run2] run1 run2 show ?thesis by blast
qed

text \<open>
  C37: a review can get lost. With requests in between, a review that was asked for can be lost: the evaluation of a sample inside
  the volume reads the summary, another evaluation records an exit and asks for a review, and the
  first one stores the reportability it had read. The exit stays recorded and is even counted, but
  the summary says that nothing is to be reported.
\<close>

theorem concurrent_sample_drops_review:
  "\<exists>r s'. run_state (EvaluateTelemetry racing_conformance (sample_at ''a'' (1 / 2))) (flying_store, 0) = (Inr r, (s', 5))
    \<and> map cev_IntentID (s_conformanceEvents s') = [''op-1''] \<and> cs_AlertCount (ce_Summary r) = 1
    \<and> vals (s_conformanceSummaries s') = [ce_Summary r] \<and> cs_ReportabilityStatus (ce_Summary r) = ReportabilityStatusNo"
proof -
  have "(case run_state (EvaluateTelemetry racing_conformance (sample_at ''a'' (1 / 2))) (flying_store, 0) of
     (Inr r, (s', n)) \<Rightarrow> n = 5 \<and> map cev_IntentID (s_conformanceEvents s') = [''op-1''] \<and> cs_AlertCount (ce_Summary r) = 1
       \<and> vals (s_conformanceSummaries s') = [ce_Summary r] \<and> cs_ReportabilityStatus (ce_Summary r) = ReportabilityStatusNo
   | _ \<Rightarrow> False)" by code_simp
  then show ?thesis by (auto split: prod.splits sum.splits)
qed

end
