(* ===== verification/Relay_Control.thy ===== *)
theory Relay_Control
  imports Mission_Deployment
begin

text \<open>
  The relay control service, \<open>internal/relaycontrol/service.go\<close> and \<open>grpc_pool.go\<close>: how a command for
  an Agent finds the Relay the Registry placed it at, over cached placements and pooled
  connections, with one retry on a fresh placement when the Relay is unavailable; and which
  acknowledgements count. The Registry, the dialling of gRPC, the remote calls, the classification
  of gRPC errors, the clock, random bytes and the verb \<open>q\<close> of \<open>fmt\<close> are parameters. Caches and pool are part
  of the world, which other requests may change whenever a lock is taken and during every remote
  call. The deadline of a phase shows as an error of the call it stops. The messages are never \<open>nil\<close>
  here: those the service is given are built by \<open>mission_deployment.go\<close>.
\<close>

section \<open>Definitions\<close>

subsection \<open>Messages and state\<close>

record AgentPlacement =
  apl_AgentId :: string
  apl_RelayId :: string
  apl_LastUpdatedUnixMs :: int

record Relay =
  rel_RelayId :: string
  rel_Address :: string
  rel_GrpcPort :: int
  rel_LastHeartbeatUnixMs :: int

datatype AckStatus = ACK_APPLIED | ACK_ALREADY_APPLIED | ACK_OTHER string

record OperationContextCommandAck =
  ack_CommandId :: string
  ack_Status :: AckStatus
  ack_Error :: string
  ack_ActiveContext :: "OperationContext option"

record cachedPlacement =
  cp_relayID :: string
  cp_address :: string
  cp_expiresAt :: time

type_synonym conn = nat

record pooledConnection =
  pc_address :: string
  pc_conn :: conn

record 'w relay_world =
  rw_placements :: "cachedPlacement gomap"
  rw_conns :: "pooledConnection gomap"
  rw_rest :: 'w

type_synonym ('w, 'a) relay_srv = "('w relay_world, 'a) srv"

record 'w RelayService =
  rsv_GetAgentPlacement :: "string \<Rightarrow> ('w, AgentPlacement option result) relay_srv"
  rsv_ListRelays :: "('w, Relay list result) relay_srv"
  rsv_now :: "('w, time) relay_srv"
  rsv_others :: "('w, unit) relay_srv"
  rsv_dial :: "string \<Rightarrow> ('w, conn result) relay_srv"
  rsv_conn_Close :: "conn \<Rightarrow> ('w, go_error option) relay_srv"
  rsv_SetOperationContext :: "conn \<Rightarrow> string \<Rightarrow> SetOperationContextCommand
    \<Rightarrow> ('w, OperationContextCommandAck option result) relay_srv"
  rsv_ClearOperationContext :: "conn \<Rightarrow> string \<Rightarrow> ClearOperationContextCommand
    \<Rightarrow> ('w, OperationContextCommandAck option result) relay_srv"
  rsv_DeployMission :: "conn \<Rightarrow> string \<Rightarrow> DeployMissionCommand \<Rightarrow> ('w, MissionDeploymentResult option result) relay_srv"
  rsv_unavailable :: "go_error \<Rightarrow> bool"
  rsv_randomHex :: "('w, string result) relay_srv"
  rsv_Quote :: "string \<Rightarrow> string"
  rsv_ackStatusText :: "AckStatus \<Rightarrow> string"
  rsv_placementTTL :: duration

record SetRequest =
  sr_AgentID :: string
  sr_AircraftID :: string
  sr_FlightID :: string
  sr_IntentID :: string
  sr_IntentVersion :: uint32
  sr_CommandID :: string

record ClearRequest =
  cr_AgentID :: string
  cr_FlightID :: string
  cr_CommandID :: string

text \<open>\<open>New\<close>: what it makes of its arguments; the time limit of a phase is not modelled.\<close>

definition relay_New :: "bool \<Rightarrow> 'w RelayService \<Rightarrow> duration \<Rightarrow> 'w RelayService result" where
  "relay_New hasCredentials svc placementTTL =
     (if \<not> hasCredentials then Inl (Errorf ''relay transport credentials are required'' [])
      else Inr (svc\<lparr>rsv_placementTTL := if placementTTL \<le> 0 then 30 * second else placementTTL\<rparr>))"

text \<open>The state behind the locks of the service and of the pool.\<close>

definition in_world :: "('v \<Rightarrow> 'a \<times> 'v) \<Rightarrow> ('v, 'a) srv" where
  "in_world f = State (\<lambda>(s, w). case f w of (a, w') \<Rightarrow> (a, (s, w')))"

definition locked :: "'w RelayService \<Rightarrow> ('w relay_world \<Rightarrow> 'a \<times> 'w relay_world) \<Rightarrow> ('w, 'a) relay_srv" where
  "locked svc f = do { _ \<leftarrow> rsv_others svc; in_world f }"

subsection \<open>Addresses\<close>

text \<open>\<open>net.SplitHostPort\<close>, and \<open>net.JoinHostPort\<close>; \<open>None\<close> is an error.\<close>

definition last_colon :: "string \<Rightarrow> nat option" where
  "last_colon s = (if CHR '':'' \<in> set s then Some (length s - 1 - length (takeWhile (\<lambda>c. c \<noteq> CHR '':'') (rev s))) else None)"

definition SplitHostPort :: "string \<Rightarrow> (string \<times> string) option" where
  "SplitHostPort hostport =
     (case last_colon hostport of
        None \<Rightarrow> None
      | Some i \<Rightarrow>
        let end = length (takeWhile (\<lambda>c. c \<noteq> CHR '']'') hostport) in
        if hd hostport = CHR ''['' then
          if CHR '']'' \<notin> set hostport \<or> end + 1 \<noteq> i then None
          else if CHR ''['' \<in> set (drop 1 hostport) \<or> CHR '']'' \<in> set (drop (end + 1) hostport) then None
          else Some (drop 1 (take end hostport), drop (i + 1) hostport)
        else
          if CHR '':'' \<in> set (take i hostport) then None
          else if CHR ''['' \<in> set hostport \<or> CHR '']'' \<in> set hostport then None
          else Some (take i hostport, drop (i + 1) hostport))"

definition JoinHostPort :: "string \<Rightarrow> string \<Rightarrow> string" where
  "JoinHostPort host port =
     (if CHR '':'' \<in> set host then ''['' @ host @ '']:'' @ port else host @ '':'' @ port)"

definition relayAddress :: "Relay \<Rightarrow> string" where
  "relayAddress relay =
     (let address = TrimSpace (rel_Address relay) in
      if address = [] then []
      else if rel_GrpcPort relay > 0 \<and> SplitHostPort address = None
      then JoinHostPort address (itoa (rel_GrpcPort relay))
      else address)"

subsection \<open>The pool\<close>

text \<open>Dialling, and keeping the connection; the pool is locked until then.\<close>

definition dial_new :: "'w RelayService \<Rightarrow> string \<Rightarrow> string \<Rightarrow> ('w, conn result) relay_srv" where
  "dial_new svc relayID address = do {
     dialled \<leftarrow> rsv_dial svc address;
     case dialled of
       Inl e \<Rightarrow> State_Monad.return (Inl e)
     | Inr conn \<Rightarrow> in_world (\<lambda>w. (Inr conn,
         w\<lparr>rw_conns := AList.update relayID \<lparr>pc_address = address, pc_conn = conn\<rparr> (rw_conns w)\<rparr>))
   }"

definition grpcPool_Client :: "'w RelayService \<Rightarrow> string \<Rightarrow> string \<Rightarrow> ('w, conn result) relay_srv" where
  "grpcPool_Client svc relayID address = do {
     existing \<leftarrow> locked svc (\<lambda>w. (map_of (rw_conns w) relayID, w));
     case existing of
       Some c \<Rightarrow>
         if pc_address c = address then State_Monad.return (Inr (pc_conn c))
         else do {
           _ \<leftarrow> rsv_conn_Close svc (pc_conn c);
           _ \<leftarrow> in_world (\<lambda>w. ((), w\<lparr>rw_conns := AList.delete relayID (rw_conns w)\<rparr>));
           dial_new svc relayID address
         }
     | None \<Rightarrow> dial_new svc relayID address
   }"

definition grpcPool_Invalidate :: "'w RelayService \<Rightarrow> string \<Rightarrow> ('w, unit) relay_srv" where
  "grpcPool_Invalidate svc relayID = do {
     existing \<leftarrow> locked svc (\<lambda>w. (map_of (rw_conns w) relayID, w));
     case existing of
       None \<Rightarrow> State_Monad.return ()
     | Some c \<Rightarrow> do {
         _ \<leftarrow> rsv_conn_Close svc (pc_conn c);
         in_world (\<lambda>w. ((), w\<lparr>rw_conns := AList.delete relayID (rw_conns w)\<rparr>))
       }
   }"

text \<open>The loop of \<open>Close\<close> over the connections, with the first error so far.\<close>

fun close_all ::
  "'w RelayService \<Rightarrow> (string \<times> pooledConnection) list \<Rightarrow> go_error option \<Rightarrow> ('w, go_error option) relay_srv" where
  "close_all svc [] first = State_Monad.return first"
| "close_all svc ((relayID, c) # rest) first = do {
     err \<leftarrow> rsv_conn_Close svc (pc_conn c);
     _ \<leftarrow> in_world (\<lambda>w. ((), w\<lparr>rw_conns := AList.delete relayID (rw_conns w)\<rparr>));
     close_all svc rest (if first = None then err else first)
   }"

definition relay_Close :: "'w RelayService \<Rightarrow> ('w, go_error option) relay_srv" where
  "relay_Close svc = do {
     conns \<leftarrow> locked svc (\<lambda>w. (rw_conns w, w));
     close_all svc conns None
   }"

subsection \<open>Placements\<close>

text \<open>A fresh placement: asked of the Registry, looked up among the Relays, and remembered.\<close>

definition no_address :: "string \<Rightarrow> go_error" where
  "no_address relayID = Errorf (''relay '' @ relayID @ '' has no routable address'') []"

definition remember :: "'w RelayService \<Rightarrow> string \<Rightarrow> Relay \<Rightarrow> ('w, cachedPlacement result) relay_srv" where
  "remember svc agentID relay = do {
     now \<leftarrow> rsv_now svc;
     let resolved = \<lparr>cp_relayID = rel_RelayId relay, cp_address = relayAddress relay, cp_expiresAt = now + rsv_placementTTL svc\<rparr>;
     locked svc (\<lambda>w. (Inr resolved, w\<lparr>rw_placements := AList.update agentID resolved (rw_placements w)\<rparr>))
   }"

definition locate_relay :: "'w RelayService \<Rightarrow> string \<Rightarrow> string \<Rightarrow> ('w, cachedPlacement result) relay_srv" where
  "locate_relay svc agentID relayID = do {
     found_relays \<leftarrow> rsv_ListRelays svc;
     case found_relays of
       Inl e \<Rightarrow> State_Monad.return (Inl (wrap ''list relays'' e))
     | Inr relays \<Rightarrow>
         (case find (\<lambda>r. rel_RelayId r = relayID) relays of
            None \<Rightarrow> State_Monad.return (Inl (no_address relayID))
          | Some relay \<Rightarrow>
              if relayAddress relay = [] then State_Monad.return (Inl (no_address relayID)) else remember svc agentID relay)
   }"

definition fetch_placement :: "'w RelayService \<Rightarrow> string \<Rightarrow> ('w, cachedPlacement result) relay_srv" where
  "fetch_placement svc agentID = do {
     response \<leftarrow> rsv_GetAgentPlacement svc agentID;
     case response of
       Inl e \<Rightarrow> State_Monad.return (Inl (wrap ''resolve agent placement'' e))
     | Inr placement \<Rightarrow>
         (case placement of
            None \<Rightarrow> State_Monad.return (Inl (Errorf (''agent '' @ agentID @ '' has no relay placement'') []))
          | Some p \<Rightarrow>
              if apl_RelayId p = []
              then State_Monad.return (Inl (Errorf (''agent '' @ agentID @ '' has no relay placement'') []))
              else locate_relay svc agentID (apl_RelayId p))
   }"

definition resolve :: "'w RelayService \<Rightarrow> string \<Rightarrow> bool \<Rightarrow> ('w, cachedPlacement result) relay_srv" where
  "resolve svc agentID refresh = do {
     cached \<leftarrow> locked svc (\<lambda>w. (map_of (rw_placements w) agentID, w));
     case cached of
       Some c \<Rightarrow>
         if refresh then fetch_placement svc agentID
         else do {
           now \<leftarrow> rsv_now svc;
           if now < cp_expiresAt c then State_Monad.return (Inr c) else fetch_placement svc agentID
         }
     | None \<Rightarrow> fetch_placement svc agentID
   }"

definition invalidate :: "'w RelayService \<Rightarrow> string \<Rightarrow> string \<Rightarrow> ('w, unit) relay_srv" where
  "invalidate svc agentID relayID = do {
     _ \<leftarrow> locked svc (\<lambda>w. ((), w\<lparr>rw_placements := AList.delete agentID (rw_placements w)\<rparr>));
     grpcPool_Invalidate svc relayID
   }"

subsection \<open>Delivery\<close>

text \<open>One round of the loop of \<open>call\<close>: it ends without reaching the Relay, or the Relay answered.\<close>

datatype 'a delivery = Undelivered go_error | Delivered string "'a result"

definition deliver_once ::
  "'w RelayService \<Rightarrow> string \<Rightarrow> (conn \<Rightarrow> ('w, 'a result) relay_srv) \<Rightarrow> bool \<Rightarrow> ('w, 'a delivery) relay_srv" where
  "deliver_once svc agentID invoke refresh = do {
     resolved \<leftarrow> resolve svc agentID refresh;
     case resolved of
       Inl e \<Rightarrow> State_Monad.return (Undelivered e)
     | Inr placement \<Rightarrow> do {
         client \<leftarrow> grpcPool_Client svc (cp_relayID placement) (cp_address placement);
         case client of
           Inl e \<Rightarrow> State_Monad.return (Undelivered (wrap (''connect relay '' @ cp_relayID placement) e))
         | Inr conn \<Rightarrow> do {
             answer \<leftarrow> invoke conn;
             State_Monad.return (Delivered (cp_relayID placement) answer)
           }
       }
   }"

definition delivered :: "'a result \<Rightarrow> 'a result" where
  "delivered answer = (case answer of Inl e \<Rightarrow> Inl (wrap ''deliver relay control command'' e) | Inr x \<Rightarrow> Inr x)"

definition relay_unavailable :: "'w RelayService \<Rightarrow> 'a result \<Rightarrow> bool" where
  "relay_unavailable svc answer = (case answer of Inl e \<Rightarrow> rsv_unavailable svc e | Inr _ \<Rightarrow> False)"

definition relay_call :: "'w RelayService \<Rightarrow> string \<Rightarrow> (conn \<Rightarrow> ('w, 'a result) relay_srv) \<Rightarrow> ('w, 'a result) relay_srv" where
  "relay_call svc agentID invoke = do {
     first \<leftarrow> deliver_once svc agentID invoke False;
     case first of
       Undelivered e \<Rightarrow> State_Monad.return (Inl e)
     | Delivered relayID answer \<Rightarrow>
         if \<not> relay_unavailable svc answer then State_Monad.return (delivered answer)
         else do {
           _ \<leftarrow> invalidate svc agentID relayID;
           again \<leftarrow> deliver_once svc agentID invoke True;
           State_Monad.return (case again of
               Undelivered e \<Rightarrow> Inl e
             | Delivered _ answer \<Rightarrow> delivered answer)
         }
   }"

subsection \<open>Acknowledgements\<close>

definition validateAck :: "'w RelayService \<Rightarrow> OperationContextCommandAck option \<Rightarrow> string \<Rightarrow> go_error option" where
  "validateAck svc answer commandID =
     (case answer of
        None \<Rightarrow> Some (Errorf ''relay returned no agent acknowledgement'' [])
      | Some ack \<Rightarrow>
        if ack_CommandId ack \<noteq> commandID
        then Some (Errorf (''agent acknowledgement command_id '' @ rsv_Quote svc (ack_CommandId ack) @ '' does not match ''
          @ rsv_Quote svc commandID) [])
        else case ack_Status ack of
          ACK_APPLIED \<Rightarrow> None
        | ACK_ALREADY_APPLIED \<Rightarrow> None
        | ACK_OTHER _ \<Rightarrow> Some (Errorf (''agent rejected operation context: '' @ rsv_ackStatusText svc (ack_Status ack)
            @ '': '' @ ack_Error ack) []))"

definition operationContextsEqual :: "OperationContext option \<Rightarrow> OperationContext option \<Rightarrow> bool" where
  "operationContextsEqual left right =
     (case (left, right) of
        (Some l, Some r) \<Rightarrow> oc_AircraftId l = oc_AircraftId r \<and> oc_FlightId l = oc_FlightId r
          \<and> oc_IntentId l = oc_IntentId r \<and> oc_IntentVersion l = oc_IntentVersion r
      | _ \<Rightarrow> False)"

definition validateSetAck ::
  "'w RelayService \<Rightarrow> OperationContextCommandAck option \<Rightarrow> string \<Rightarrow> OperationContext \<Rightarrow> go_error option" where
  "validateSetAck svc answer commandID expected =
     (case validateAck svc answer commandID of
        Some e \<Rightarrow> Some e
      | None \<Rightarrow>
        if \<not> operationContextsEqual (Option.bind answer ack_ActiveContext) (Some expected)
        then Some (Errorf (''agent acknowledgement active_context does not exactly match the requested ''
          @ ''aircraft/flight/intent/version'') [])
        else None)"

definition ensureCommandID :: "'w RelayService \<Rightarrow> string \<Rightarrow> ('w, string result) relay_srv" where
  "ensureCommandID svc ident =
     (if ident \<noteq> [] then State_Monad.return (Inr ident)
      else do {
        r \<leftarrow> rsv_randomHex svc;
        State_Monad.return (case r of Inl e \<Rightarrow> Inl (wrap ''generate command id'' e) | Inr x \<Rightarrow> Inr x)
      })"

subsection \<open>Requests\<close>

text \<open>The closures the requests hand to \<open>call\<close>: a remote call, and what its answer is worth.\<close>

definition invoke_set ::
  "'w RelayService \<Rightarrow> string \<Rightarrow> SetOperationContextCommand \<Rightarrow> conn \<Rightarrow> ('w, unit result) relay_srv" where
  "invoke_set svc agentID command conn = do {
     response \<leftarrow> rsv_SetOperationContext svc conn agentID command;
     State_Monad.return (case response of
         Inl e \<Rightarrow> Inl e
       | Inr answer \<Rightarrow>
         (case validateSetAck svc answer (soc_CommandId command) (soc_Context command) of Some e \<Rightarrow> Inl e | None \<Rightarrow> Inr ()))
   }"

definition invoke_clear ::
  "'w RelayService \<Rightarrow> string \<Rightarrow> ClearOperationContextCommand \<Rightarrow> OperationContext option \<Rightarrow> conn \<Rightarrow> ('w, unit result) relay_srv" where
  "invoke_clear svc agentID command old conn = do {
     response \<leftarrow> rsv_ClearOperationContext svc conn agentID command;
     State_Monad.return (case response of
         Inl e \<Rightarrow> Inl e
       | Inr answer \<Rightarrow>
         (case validateAck svc answer (coc_CommandId command) of
            Some e \<Rightarrow> Inl e
          | None \<Rightarrow>
            if old \<noteq> None \<and> operationContextsEqual (Option.bind answer ack_ActiveContext) old
            then Inl (Errorf ''agent acknowledgement still reports the old operation context active'' [])
            else Inr ()))
   }"

definition invoke_deploy ::
  "'w RelayService \<Rightarrow> string \<Rightarrow> DeployMissionCommand \<Rightarrow> conn \<Rightarrow> ('w, MissionDeploymentResult option result) relay_srv" where
  "invoke_deploy svc agentID command conn = do {
     response \<leftarrow> rsv_DeployMission svc conn agentID command;
     State_Monad.return (case response of
         Inl e \<Rightarrow> Inl e
       | Inr None \<Rightarrow> Inl (Errorf ''relay returned no mission deployment result'' [])
       | Inr (Some result) \<Rightarrow> Inr (Some result))
   }"

definition error_of :: "'a result \<Rightarrow> go_error option" where
  "error_of r = (case r of Inl e \<Rightarrow> Some e | Inr _ \<Rightarrow> None)"

definition SetOperationContext :: "'w RelayService \<Rightarrow> SetRequest \<Rightarrow> ('w, string \<times> go_error option) relay_srv" where
  "SetOperationContext svc req =
     (if sr_AgentID req = [] \<or> sr_FlightID req = []
      then State_Monad.return ([], Some (Errorf ''agent_id and flight_id are required'' []))
      else do {
        ident \<leftarrow> ensureCommandID svc (sr_CommandID req);
        case ident of
          Inl e \<Rightarrow> State_Monad.return ([], Some e)
        | Inr commandID \<Rightarrow> do {
            r \<leftarrow> relay_call svc (sr_AgentID req) (invoke_set svc (sr_AgentID req) \<lparr>soc_CommandId = commandID,
              soc_Context = \<lparr>oc_AircraftId = sr_AircraftID req, oc_FlightId = sr_FlightID req, oc_IntentId = sr_IntentID req,
                oc_IntentVersion = sr_IntentVersion req\<rparr>\<rparr>);
            State_Monad.return (commandID, error_of r)
          }
      })"

definition EnsureOperationContext ::
  "'w RelayService \<Rightarrow> string \<Rightarrow> SetOperationContextCommand \<Rightarrow> ('w, go_error option) relay_srv" where
  "EnsureOperationContext svc agentID command =
     (if TrimSpace agentID = [] \<or> TrimSpace (soc_CommandId command) = []
      then State_Monad.return (Some (Errorf ''agent_id and a complete operation context command are required'' []))
      else if TrimSpace (oc_AircraftId (soc_Context command)) = [] \<or> TrimSpace (oc_FlightId (soc_Context command)) = []
         \<or> TrimSpace (oc_IntentId (soc_Context command)) = [] \<or> oc_IntentVersion (soc_Context command) = 0
      then State_Monad.return (Some (Errorf
        ''mission operation context requires aircraft_id, flight_id, intent_id, and positive intent_version'' []))
      else do {
        r \<leftarrow> relay_call svc agentID (invoke_set svc agentID command);
        State_Monad.return (error_of r)
      })"

definition ClearOperationContextForReconciliation ::
  "'w RelayService \<Rightarrow> string \<Rightarrow> ClearOperationContextCommand \<Rightarrow> OperationContext \<Rightarrow> ('w, go_error option) relay_srv" where
  "ClearOperationContextForReconciliation svc agentID command old =
     (if TrimSpace agentID = [] \<or> TrimSpace (coc_CommandId command) = [] \<or> TrimSpace (coc_FlightId command) = []
         \<or> coc_Authoritative command
      then State_Monad.return (Some (Errorf
        ''agent_id, conditional clear command, and old operation context are required'' []))
      else do {
        r \<leftarrow> relay_call svc agentID (invoke_clear svc agentID command (Some old));
        State_Monad.return (error_of r)
      })"

definition ClearOperationContext :: "'w RelayService \<Rightarrow> ClearRequest \<Rightarrow> ('w, string \<times> go_error option) relay_srv" where
  "ClearOperationContext svc req =
     (if cr_AgentID req = [] \<or> cr_FlightID req = []
      then State_Monad.return ([], Some (Errorf ''agent_id and flight_id are required'' []))
      else do {
        ident \<leftarrow> ensureCommandID svc (cr_CommandID req);
        case ident of
          Inl e \<Rightarrow> State_Monad.return ([], Some e)
        | Inr commandID \<Rightarrow> do {
            r \<leftarrow> relay_call svc (cr_AgentID req) (invoke_clear svc (cr_AgentID req)
              \<lparr>coc_CommandId = commandID, coc_FlightId = cr_FlightID req, coc_Authoritative = False\<rparr> None);
            State_Monad.return (commandID, error_of r)
          }
      })"

definition DeployMission ::
  "'w RelayService \<Rightarrow> string \<Rightarrow> DeployMissionCommand \<Rightarrow> ('w, MissionDeploymentResult option result) relay_srv" where
  "DeployMission svc agentID command =
     (if TrimSpace agentID = [] \<or> TrimSpace (dc_CommandId command) = []
      then State_Monad.return (Inl (Errorf ''agent_id and a command with command_id are required'' []))
      else relay_call svc agentID (invoke_deploy svc agentID command))"

text \<open>The service as the fleet service is given it (\<open>WithMissionDeployer\<close> in \<open>cmd/aero-arc-api/main.go\<close>).\<close>

definition relay_deployer :: "'w RelayService \<Rightarrow> 'w relay_world MissionDeployer" where
  "relay_deployer svc = \<lparr>de_EnsureOperationContext = EnsureOperationContext svc,
     de_ClearOperationContextForReconciliation = ClearOperationContextForReconciliation svc,
     de_DeployMission = DeployMission svc\<rparr>"

subsection \<open>What is kept\<close>

definition keeps_world :: "('v \<Rightarrow> bool) \<Rightarrow> ('v, 'a) srv \<Rightarrow> bool" where
  "keeps_world I m \<longleftrightarrow> (\<forall>s w a s' w'. run_state m (s, w) = (a, (s', w')) \<longrightarrow> I w \<longrightarrow> I w')"

text \<open>A computation that keeps \<open>I\<close> and whose answers satisfy \<open>Q\<close>.\<close>

definition ensures :: "('v \<Rightarrow> bool) \<Rightarrow> ('v, 'a) srv \<Rightarrow> ('a \<Rightarrow> bool) \<Rightarrow> bool" where
  "ensures I m Q \<longleftrightarrow> (\<forall>s w a s' w'. run_state m (s, w) = (a, (s', w')) \<longrightarrow> I w \<longrightarrow> I w' \<and> Q a)"

text \<open>Everything outside the service but the remote calls keeps \<open>I\<close>.\<close>

definition network_keeps :: "('w relay_world \<Rightarrow> bool) \<Rightarrow> 'w RelayService \<Rightarrow> bool" where
  "network_keeps I svc \<longleftrightarrow> (\<forall>a. keeps_world I (rsv_GetAgentPlacement svc a)) \<and> keeps_world I (rsv_ListRelays svc)
     \<and> keeps_world I (rsv_now svc) \<and> keeps_world I (rsv_others svc) \<and> (\<forall>a. keeps_world I (rsv_dial svc a))
     \<and> (\<forall>c. keeps_world I (rsv_conn_Close svc c))"

text \<open>
  Three relations say what the network is like: which Relay the Registry ever \<open>placed\<close> an Agent at, which
  address it ever \<open>listed\<close> for a Relay, and which connection a dial to an address ever gave. \<open>routes\<close>
  says that caches and pool hold nothing else.
\<close>

definition routes ::
  "(string \<Rightarrow> string \<Rightarrow> bool) \<Rightarrow> (string \<Rightarrow> string \<Rightarrow> bool) \<Rightarrow> (string \<Rightarrow> conn \<Rightarrow> bool) \<Rightarrow> 'w relay_world \<Rightarrow> bool" where
  "routes placed listed dialled w \<longleftrightarrow>
     (\<forall>a c. map_of (rw_placements w) a = Some c \<longrightarrow> placed a (cp_relayID c) \<and> listed (cp_relayID c) (cp_address c))
     \<and> (\<forall>r p. map_of (rw_conns w) r = Some p \<longrightarrow> dialled (pc_address p) (pc_conn p))"

definition network_answers ::
  "(string \<Rightarrow> string \<Rightarrow> bool) \<Rightarrow> (string \<Rightarrow> string \<Rightarrow> bool) \<Rightarrow> (string \<Rightarrow> conn \<Rightarrow> bool) \<Rightarrow> 'w RelayService \<Rightarrow> bool" where
  "network_answers placed listed dialled svc \<longleftrightarrow>
     (\<forall>a \<sigma> p. fst (run_state (rsv_GetAgentPlacement svc a) \<sigma>) = Inr (Some p) \<longrightarrow> placed a (apl_RelayId p))
     \<and> (\<forall>\<sigma> rs r. fst (run_state (rsv_ListRelays svc) \<sigma>) = Inr rs \<longrightarrow> r \<in> set rs \<longrightarrow> listed (rel_RelayId r) (relayAddress r))
     \<and> (\<forall>a \<sigma> c. fst (run_state (rsv_dial svc a) \<sigma>) = Inr c \<longrightarrow> dialled a c)"

text \<open>Remote calls that leave the routes alone, as other requests do.\<close>

definition calls_keep :: "('w relay_world \<Rightarrow> bool) \<Rightarrow> 'w RelayService \<Rightarrow> bool" where
  "calls_keep I svc \<longleftrightarrow> (\<forall>c a cmd. keeps_world I (rsv_SetOperationContext svc c a cmd))
     \<and> (\<forall>c a cmd. keeps_world I (rsv_ClearOperationContext svc c a cmd))
     \<and> (\<forall>c a cmd. keeps_world I (rsv_DeployMission svc c a cmd))"

definition applied :: "OperationContextCommandAck \<Rightarrow> string \<Rightarrow> bool" where
  "applied ack commandID \<longleftrightarrow> ack_CommandId ack = commandID \<and> ack_Status ack \<in> {ACK_APPLIED, ACK_ALREADY_APPLIED}"

definition routed_network ::
  "(string \<Rightarrow> string \<Rightarrow> bool) \<Rightarrow> (string \<Rightarrow> string \<Rightarrow> bool) \<Rightarrow> (string \<Rightarrow> conn \<Rightarrow> bool) \<Rightarrow> 'w RelayService \<Rightarrow> bool" where
  "routed_network placed listed dialled svc \<longleftrightarrow> network_keeps (routes placed listed dialled) svc
     \<and> network_answers placed listed dialled svc \<and> calls_keep (routes placed listed dialled) svc"

abbreviation on_route ::
  "(string \<Rightarrow> string \<Rightarrow> bool) \<Rightarrow> (string \<Rightarrow> string \<Rightarrow> bool) \<Rightarrow> (string \<Rightarrow> conn \<Rightarrow> bool) \<Rightarrow> string \<Rightarrow> conn \<Rightarrow> bool" where
  "on_route placed listed dialled a c \<equiv> \<exists>r adr. placed a r \<and> listed r adr \<and> dialled adr c"

abbreviation well_placed :: "(string \<Rightarrow> string \<Rightarrow> bool) \<Rightarrow> (string \<Rightarrow> string \<Rightarrow> bool) \<Rightarrow> string \<Rightarrow> cachedPlacement result \<Rightarrow> bool" where
  "well_placed placed listed a x \<equiv> \<forall>p. x = Inr p \<longrightarrow> placed a (cp_relayID p) \<and> listed (cp_relayID p) (cp_address p)"

text \<open>
  What a request does, counted: \<open>N\<close> is a number of deliveries in the rest of the world that each remote call
  raises by one and nothing else changes.
\<close>

definition deliveries_counted :: "('w \<Rightarrow> nat) \<Rightarrow> 'w RelayService \<Rightarrow> (conn \<Rightarrow> ('w, 'a result) relay_srv) \<Rightarrow> bool" where
  "deliveries_counted N svc invoke \<longleftrightarrow> (\<forall>k. network_keeps (\<lambda>w. N (rw_rest w) = k) svc)
     \<and> (\<forall>c s w a s' w'. run_state (invoke c) (s, w) = (a, (s', w')) \<longrightarrow> N (rw_rest w') = N (rw_rest w) + 1)"

text \<open>
  A Registry that places the Agent at a listed Relay with an address, and a network in which every dial
  succeeds, calls over connections to that address are answered with \<open>x\<close>, and calls over any other
  connection find the Relay unavailable.
\<close>

definition agent_reachable ::
  "'w RelayService \<Rightarrow> (string \<Rightarrow> conn \<Rightarrow> bool) \<Rightarrow> string \<Rightarrow> Relay \<Rightarrow> (conn \<Rightarrow> ('w, 'a result) relay_srv) \<Rightarrow> 'a \<Rightarrow> bool" where
  "agent_reachable svc dialled agentID relay invoke x \<longleftrightarrow>
     rel_RelayId relay \<noteq> [] \<and> relayAddress relay \<noteq> []
     \<and> (\<forall>\<sigma>. \<exists>p. fst (run_state (rsv_GetAgentPlacement svc agentID) \<sigma>) = Inr (Some p) \<and> apl_RelayId p = rel_RelayId relay)
     \<and> (\<forall>\<sigma>. \<exists>rs. fst (run_state (rsv_ListRelays svc) \<sigma>) = Inr rs
           \<and> find (\<lambda>r. rel_RelayId r = rel_RelayId relay) rs = Some relay)
     \<and> (\<forall>adr \<sigma>. \<exists>c. fst (run_state (rsv_dial svc adr) \<sigma>) = Inr c)
     \<and> (\<forall>c \<sigma>. dialled (relayAddress relay) c \<longrightarrow> fst (run_state (invoke c) \<sigma>) = Inr x)
     \<and> (\<forall>adr c \<sigma>. dialled adr c \<longrightarrow> adr \<noteq> relayAddress relay
           \<longrightarrow> (\<exists>e. fst (run_state (invoke c) \<sigma>) = Inl e \<and> rsv_unavailable svc e))"

subsection \<open>A small network\<close>

text \<open>
  Two Relays, of which the second runs the Agent's stream now; the rest of the world counts the remote
  calls. The cache still places the Agent at the first Relay, which is gone.
\<close>

definition gone_address :: string where
  "gone_address = ''10.0.0.1:80''"

definition current_relay :: Relay where
  "current_relay = \<lparr>rel_RelayId = ''relay-b'', rel_Address = '' 10.0.0.2 '', rel_GrpcPort = 80, rel_LastHeartbeatUnixMs = 0\<rparr>"

definition small_ack :: "string \<Rightarrow> OperationContext option \<Rightarrow> OperationContextCommandAck" where
  "small_ack ident active = \<lparr>ack_CommandId = ident, ack_Status = ACK_APPLIED, ack_Error = [], ack_ActiveContext = active\<rparr>"

definition small_result :: "DeployMissionCommand \<Rightarrow> MissionDeploymentResult" where
  "small_result cmd = \<lparr>rs_CommandId = dc_CommandId cmd, rs_Binding = Some (dc_Binding cmd), rs_Status = STATUS_APPLIED,
     rs_Message = [], rs_OnboardMissionDigest = [], rs_UploadedItemCount = 0, rs_MavlinkMissionAckType = None,
     rs_CompletedAtUnixMs = 0\<rparr>"

definition remote_call :: "conn \<Rightarrow> 'a \<Rightarrow> (nat, 'a result) relay_srv" where
  "remote_call c x = in_world (\<lambda>w. (if c = 2 then Inr x else Inl (Errorf ''unavailable'' []),
     w\<lparr>rw_rest := rw_rest w + 1\<rparr>))"

definition small_dial :: "string \<Rightarrow> conn" where
  "small_dial adr = (if adr = ''10.0.0.2:80'' then 2 else 1)"

definition small_network :: "nat RelayService" where
  "small_network = \<lparr>
     rsv_GetAgentPlacement = (\<lambda>agentID. State_Monad.return (Inr (Some
       \<lparr>apl_AgentId = agentID, apl_RelayId = ''relay-b'', apl_LastUpdatedUnixMs = 0\<rparr>))),
     rsv_ListRelays = State_Monad.return (Inr [current_relay]),
     rsv_now = State_Monad.return 0,
     rsv_others = State_Monad.return (),
     rsv_dial = (\<lambda>adr. State_Monad.return (Inr (small_dial adr))),
     rsv_conn_Close = (\<lambda>_. State_Monad.return None),
     rsv_SetOperationContext = (\<lambda>c _ cmd. remote_call c (Some (small_ack (soc_CommandId cmd) (Some (soc_Context cmd))))),
     rsv_ClearOperationContext = (\<lambda>c _ cmd. remote_call c (Some (small_ack (coc_CommandId cmd) None))),
     rsv_DeployMission = (\<lambda>c _ cmd. remote_call c (Some (small_result cmd))),
     rsv_unavailable = (\<lambda>e. e = Errorf ''unavailable'' []),
     rsv_randomHex = State_Monad.return (Inr ''00''),
     rsv_Quote = (\<lambda>x. x),
     rsv_ackStatusText = (\<lambda>_. []),
     rsv_placementTTL = 30 * second\<rparr>"

definition stale_world :: "nat relay_world" where
  "stale_world = \<lparr>
     rw_placements = [(''agent'', \<lparr>cp_relayID = ''relay-a'', cp_address = gone_address, cp_expiresAt = 1\<rparr>)],
     rw_conns = [(''relay-a'', \<lparr>pc_address = gone_address, pc_conn = 1\<rparr>)],
     rw_rest = 0\<rparr>"

definition small_placed :: "string \<Rightarrow> string \<Rightarrow> bool" where
  "small_placed agentID relayID \<longleftrightarrow> relayID \<in> {''relay-a'', ''relay-b''}"

definition small_listed :: "string \<Rightarrow> string \<Rightarrow> bool" where
  "small_listed relayID adr \<longleftrightarrow> (relayID, adr) \<in> {(''relay-a'', gone_address), (''relay-b'', ''10.0.0.2:80'')}"

definition small_dialled :: "string \<Rightarrow> conn \<Rightarrow> bool" where
  "small_dialled adr c \<longleftrightarrow> c = small_dial adr"

definition small_context :: OperationContext where
  "small_context = \<lparr>oc_AircraftId = ''ac'', oc_FlightId = ''f'', oc_IntentId = ''i'', oc_IntentVersion = 1\<rparr>"

definition small_command :: SetOperationContextCommand where
  "small_command = \<lparr>soc_CommandId = ''cmd'', soc_Context = small_context\<rparr>"

definition small_mission :: DeployMissionCommand where
  "small_mission = \<lparr>dc_CommandId = ''cmd'',
     dc_Binding = \<lparr>mb_MissionId = ''m'', mb_MissionVersion = 1, mb_MissionDigest = ''d'', mb_DeploymentId = ''dep'',
       mb_OperatorId = ''op'', mb_AircraftId = ''ac'', mb_FlightId = ''f'', mb_IntentId = ''i'', mb_IntentVersion = 1\<rparr>,
     dc_Plan = \<lparr>pl_SchemaVersion = 1, pl_Items = []\<rparr>, dc_IssuedAtUnixMs = 0, dc_ExpiresAtUnixMs = 1\<rparr>"

section \<open>Lemmas\<close>

subsection \<open>Invariants of the world\<close>

lemma keeps_worldI: "(\<And>s w a s' w'. run_state m (s, w) = (a, (s', w')) \<Longrightarrow> I w \<Longrightarrow> I w') \<Longrightarrow> keeps_world I m"
  by (auto simp: keeps_world_def)

lemma keeps_world_run: "keeps_world I m \<Longrightarrow> run_state m (s, w) = (a, (s', w')) \<Longrightarrow> I w \<Longrightarrow> I w'"
  by (auto simp: keeps_world_def)

lemma keeps_world_return [simp]: "keeps_world I (State_Monad.return x)"
  by (simp add: keeps_world_def)

lemma run_in_world [simp]: "run_state (in_world f) (s, w) = (fst (f w), (s, snd (f w)))"
  by (simp add: in_world_def case_prod_beta)

lemma keeps_world_in_world: "(\<And>w. I w \<Longrightarrow> I (snd (f w))) \<Longrightarrow> keeps_world I (in_world f)"
  by (auto simp: keeps_world_def)

text \<open>What the first computation answered may be used for the second.\<close>

lemma keeps_world_bind_run:
  assumes "keeps_world I m" and "\<And>s w a s' w'. run_state m (s, w) = (a, (s', w')) \<Longrightarrow> I w \<Longrightarrow> keeps_world I (f a)"
  shows "keeps_world I (State_Monad.bind m f)"
proof (rule keeps_worldI)
  fix s w a s' w'
  assume run: "run_state (State_Monad.bind m f) (s, w) = (a, (s', w'))" and "I w"
  obtain x s1 w1 where m: "run_state m (s, w) = (x, (s1, w1))" by (cases "run_state m (s, w)") auto
  have "I w1" by (rule keeps_world_run [OF assms(1) m \<open>I w\<close>])
  with keeps_world_run [OF assms(2) [OF m \<open>I w\<close>]] run m show "I w'" by simp
qed

lemma keeps_world_bind: "keeps_world I m \<Longrightarrow> (\<And>x. keeps_world I (f x)) \<Longrightarrow> keeps_world I (State_Monad.bind m f)"
  by (rule keeps_world_bind_run)

lemma keeps_world_locked:
  "network_keeps I svc \<Longrightarrow> (\<And>w. I w \<Longrightarrow> I (snd (f w))) \<Longrightarrow> keeps_world I (locked svc f)"
  by (auto simp: locked_def network_keeps_def intro!: keeps_world_bind keeps_world_in_world)

subsection \<open>Addresses\<close>

lemma split_join_host_port:
  assumes "CHR ''['' \<notin> set h" and "CHR '']'' \<notin> set h" and "set p \<inter> {CHR '':'', CHR ''['', CHR '']''} = {}"
  shows "SplitHostPort (JoinHostPort h p) = Some (h, p)"
proof -
  have p: "takeWhile (\<lambda>c. c \<noteq> CHR '':'') (rev p @ CHR '':'' # xs) = rev p" for xs
    using assms(3) by (subst takeWhile_append2) auto
  have h: "takeWhile (\<lambda>c. c \<noteq> CHR '']'') (h @ CHR '']'' # xs) = h" for xs
    using assms(2) by (subst takeWhile_append2) auto
  show ?thesis
  proof (cases "CHR '':'' \<in> set h")
    case True
    let ?s = "''['' @ h @ '']:'' @ p"
    have "last_colon ?s = Some (length h + 2)" by (simp add: last_colon_def p)
    with True assms show ?thesis by (auto simp: JoinHostPort_def SplitHostPort_def h Let_def)
  next
    case False
    let ?s = "h @ '':'' @ p"
    have i: "last_colon ?s = Some (length h)" by (simp add: last_colon_def p)
    have "hd ?s \<noteq> CHR ''[''" using assms(1) by (cases h) auto
    with False i assms show ?thesis by (auto simp: JoinHostPort_def SplitHostPort_def Let_def)
  qed
qed

lemma itoa_no_bracket: "set (itoa i) \<inter> {CHR '':'', CHR ''['', CHR '']''} = {}"
  using itoa_chars [of "CHR ''[''" i] itoa_chars [of "CHR '']''" i] by auto

subsection \<open>Routes\<close>

lemma ensures_run: "ensures I m Q \<Longrightarrow> run_state m (s, w) = (a, (s', w')) \<Longrightarrow> I w \<Longrightarrow> I w' \<and> Q a"
  by (auto simp: ensures_def)

lemma ensures_return: "Q x \<Longrightarrow> ensures I (State_Monad.return x) Q"
  by (simp add: ensures_def)

lemma ensures_keeps: "keeps_world I m \<Longrightarrow> (\<And>\<sigma>. Q (fst (run_state m \<sigma>))) \<Longrightarrow> ensures I m Q"
  by (auto simp: ensures_def keeps_world_def) (metis fst_conv)

lemma ensures_bind:
  assumes "ensures I m P" and "\<And>a. P a \<Longrightarrow> ensures I (f a) Q"
  shows "ensures I (State_Monad.bind m f) Q"
  unfolding ensures_def
proof (intro allI impI)
  fix s w a s' w'
  assume run: "run_state (State_Monad.bind m f) (s, w) = (a, (s', w'))" and "I w"
  obtain x s1 w1 where m: "run_state m (s, w) = (x, (s1, w1))" by (cases "run_state m (s, w)") auto
  with ensures_run [OF assms(1) m \<open>I w\<close>] run show "I w' \<and> Q a" using ensures_run [OF assms(2)] by auto
qed

lemma ensures_locked:
  "network_keeps I svc \<Longrightarrow> (\<And>w. I w \<Longrightarrow> I (snd (f w)) \<and> Q (fst (f w))) \<Longrightarrow> ensures I (locked svc f) Q"
  unfolding locked_def
  by (rule ensures_bind [where P = "\<lambda>_. True"]) (auto simp: network_keeps_def keeps_world_def ensures_def)

lemma ensures_in_world: "(\<And>w. I w \<Longrightarrow> I (snd (f w)) \<and> Q (fst (f w))) \<Longrightarrow> ensures I (in_world f) Q"
  by (auto simp: ensures_def)

lemma routes_changes:
  assumes "routes placed listed dialled w"
  shows "routes placed listed dialled (w\<lparr>rw_conns := AList.delete r (rw_conns w)\<rparr>)"
    and "routes placed listed dialled (w\<lparr>rw_placements := AList.delete a (rw_placements w)\<rparr>)"
    and "dialled adr c \<Longrightarrow>
      routes placed listed dialled (w\<lparr>rw_conns := AList.update r \<lparr>pc_address = adr, pc_conn = c\<rparr> (rw_conns w)\<rparr>)"
    and "placed a (cp_relayID p) \<Longrightarrow> listed (cp_relayID p) (cp_address p) \<Longrightarrow>
      routes placed listed dialled (w\<lparr>rw_placements := AList.update a p (rw_placements w)\<rparr>)"
  using assms by (auto simp: routes_def AList.update_conv' AList.delete_conv' split: if_splits)

lemma routed_ensures:
  assumes "routed_network placed listed dialled svc"
  shows "ensures (routes placed listed dialled) (rsv_GetAgentPlacement svc a) (\<lambda>x. \<forall>p. x = Inr (Some p) \<longrightarrow> placed a (apl_RelayId p))"
    and "ensures (routes placed listed dialled) (rsv_ListRelays svc)
      (\<lambda>x. \<forall>rs r. x = Inr rs \<longrightarrow> r \<in> set rs \<longrightarrow> listed (rel_RelayId r) (relayAddress r))"
    and "ensures (routes placed listed dialled) (rsv_dial svc adr) (\<lambda>x. \<forall>c. x = Inr c \<longrightarrow> dialled adr c)"
    and "ensures (routes placed listed dialled) (rsv_now svc) (\<lambda>_. True)"
    and "ensures (routes placed listed dialled) (rsv_conn_Close svc c) (\<lambda>_. True)"
  using assms by (auto simp: routed_network_def network_keeps_def network_answers_def intro!: ensures_keeps)

lemma dial_new_ensures:
  assumes "routed_network placed listed dialled svc"
  shows "ensures (routes placed listed dialled) (dial_new svc r a) (\<lambda>x. \<forall>c. x = Inr c \<longrightarrow> dialled a c)"
  unfolding dial_new_def
  by (rule ensures_bind [OF routed_ensures(3) [OF assms]])
    (auto simp: routes_changes intro!: ensures_return ensures_in_world split: sum.split)

lemma client_ensures:
  assumes "routed_network placed listed dialled svc"
  shows "ensures (routes placed listed dialled) (grpcPool_Client svc r a) (\<lambda>x. \<forall>c. x = Inr c \<longrightarrow> dialled a c)"
  unfolding grpcPool_Client_def
proof (rule ensures_bind [where P = "\<lambda>x. \<forall>p. x = Some p \<longrightarrow> dialled (pc_address p) (pc_conn p)"])
  show "ensures (routes placed listed dialled) (locked svc (\<lambda>w. (map_of (rw_conns w) r, w)))
      (\<lambda>x. \<forall>p. x = Some p \<longrightarrow> dialled (pc_address p) (pc_conn p))"
    using assms by (intro ensures_locked) (auto simp: routed_network_def routes_def)
qed (auto intro!: ensures_return ensures_bind [OF routed_ensures(5) [OF assms]] dial_new_ensures [OF assms]
      ensures_bind [OF ensures_in_world [where Q = "\<lambda>_. True"]] routes_changes split: option.split)

lemma invalidate_ensures:
  assumes "routed_network placed listed dialled svc"
  shows "ensures (routes placed listed dialled) (invalidate svc a r) (\<lambda>_. True)"
  using assms unfolding invalidate_def grpcPool_Invalidate_def
  by (intro ensures_bind [OF ensures_locked [where Q = "\<lambda>_. True"]])
    (auto simp: routed_network_def routes_changes split: option.split
      intro!: ensures_return ensures_bind [OF routed_ensures(5) [OF assms]] ensures_in_world)

lemma remember_ensures:
  assumes "routed_network placed listed dialled svc"
    and "placed a (rel_RelayId relay)" and "listed (rel_RelayId relay) (relayAddress relay)"
  shows "ensures (routes placed listed dialled) (remember svc a relay) (well_placed placed listed a)"
  unfolding remember_def Let_def
  by (rule ensures_bind [OF routed_ensures(4) [OF assms(1)]], rule ensures_locked)
    (use assms in \<open>auto simp: routed_network_def routes_changes\<close>)

lemma locate_ensures:
  assumes "routed_network placed listed dialled svc" and "placed a r"
  shows "ensures (routes placed listed dialled) (locate_relay svc a r) (well_placed placed listed a)"
  unfolding locate_relay_def
  by (rule ensures_bind [OF routed_ensures(2) [OF assms(1)]])
    (use assms in \<open>auto simp: find_Some_iff split: sum.split option.split intro!: ensures_return remember_ensures [OF assms(1)]\<close>)

lemma fetch_ensures:
  assumes "routed_network placed listed dialled svc"
  shows "ensures (routes placed listed dialled) (fetch_placement svc a) (well_placed placed listed a)"
  unfolding fetch_placement_def
  by (rule ensures_bind [OF routed_ensures(1) [OF assms]])
    (auto split: sum.split option.split intro!: ensures_return locate_ensures [OF assms])

lemma resolve_ensures:
  assumes "routed_network placed listed dialled svc"
  shows "ensures (routes placed listed dialled) (resolve svc a refresh) (well_placed placed listed a)"
  unfolding resolve_def
proof (rule ensures_bind [where P = "\<lambda>x. \<forall>p. x = Some p \<longrightarrow> placed a (cp_relayID p) \<and> listed (cp_relayID p) (cp_address p)"])
  show "ensures (routes placed listed dialled) (locked svc (\<lambda>w. (map_of (rw_placements w) a, w)))
      (\<lambda>x. \<forall>p. x = Some p \<longrightarrow> placed a (cp_relayID p) \<and> listed (cp_relayID p) (cp_address p))"
    using assms by (intro ensures_locked) (auto simp: routed_network_def routes_def)
qed (auto split: option.split intro!: ensures_return fetch_ensures [OF assms] ensures_bind [OF routed_ensures(4) [OF assms]])

subsection \<open>Deliveries\<close>

text \<open>An answer came over a connection to an address of the Relay the Agent was placed at.\<close>

lemma delivery_run:
  assumes net: "routed_network placed listed dialled svc" and "routes placed listed dialled w"
    and run: "run_state (deliver_once svc a invoke refresh) (s, w) = (Delivered r ans, \<sigma>')"
  obtains adr c \<sigma> where "placed a r" and "listed r adr" and "dialled adr c" and "routes placed listed dialled (snd \<sigma>)"
    and "run_state (invoke c) \<sigma> = (ans, \<sigma>')"
proof -
  obtain x s1 w1 where r1: "run_state (resolve svc a refresh) (s, w) = (x, (s1, w1))" by (cases "run_state (resolve svc a refresh) (s, w)") auto
  with run obtain p where x: "x = Inr p" by (cases x) (auto simp: deliver_once_def)
  have w1: "routes placed listed dialled w1" "placed a (cp_relayID p)" "listed (cp_relayID p) (cp_address p)"
    using ensures_run [OF resolve_ensures [OF net] r1 assms(2)] x by auto
  obtain y s2 w2 where r2: "run_state (grpcPool_Client svc (cp_relayID p) (cp_address p)) (s1, w1) = (y, (s2, w2))"
    by (cases "run_state (grpcPool_Client svc (cp_relayID p) (cp_address p)) (s1, w1)") auto
  with run r1 x obtain c where y: "y = Inr c" by (cases y) (auto simp: deliver_once_def)
  have w2: "routes placed listed dialled w2" "dialled (cp_address p) c"
    using ensures_run [OF client_ensures [OF net] r2 w1(1)] y by auto
  obtain z \<sigma>3 where r3: "run_state (invoke c) (s2, w2) = (z, \<sigma>3)" by (cases "run_state (invoke c) (s2, w2)")
  have "r = cp_relayID p" "z = ans" "\<sigma>3 = \<sigma>'" using run r1 r2 r3 x y by (auto simp: deliver_once_def)
  then show ?thesis using that [of "cp_address p" c "(s2, w2)"] w1 w2 r3 by simp
qed

lemma call_run:
  assumes net: "routed_network placed listed dialled svc" and w: "routes placed listed dialled w"
    and inv: "\<And>c. keeps_world (routes placed listed dialled) (invoke c)"
    and run: "run_state (relay_call svc a invoke) (s, w) = (Inr x, \<sigma>')"
  shows "\<exists>r adr c \<sigma>. placed a r \<and> listed r adr \<and> dialled adr c \<and> run_state (invoke c) \<sigma> = (Inr x, \<sigma>')"
proof -
  obtain d1 \<sigma>1 where r1: "run_state (deliver_once svc a invoke False) (s, w) = (d1, \<sigma>1)"
    by (cases "run_state (deliver_once svc a invoke False) (s, w)")
  with run obtain r ans where d1: "d1 = Delivered r ans" by (cases d1) (auto simp: relay_call_def)
  show ?thesis
  proof (rule delivery_run [OF net w r1 [unfolded d1]], goal_cases)
    case ok: (1 adr c \<sigma>)
    show ?case
    proof (cases "relay_unavailable svc ans")
      case False
      with run r1 d1 have "ans = Inr x" "\<sigma>' = \<sigma>1" by (auto simp: relay_call_def delivered_def split: sum.splits)
      with ok show ?thesis by metis
    next
      case True
      obtain s1 w1 where \<sigma>1: "\<sigma>1 = (s1, w1)" by (cases \<sigma>1)
      have w1: "routes placed listed dialled w1"
        using keeps_world_run [OF inv, of c "fst \<sigma>" "snd \<sigma>" ans s1 w1] ok(4,5) \<sigma>1 by simp
      obtain s2 w2 where r2: "run_state (invalidate svc a r) (s1, w1) = ((), (s2, w2))"
        by (cases "run_state (invalidate svc a r) (s1, w1)") auto
      have w2: "routes placed listed dialled w2" using ensures_run [OF invalidate_ensures [OF net] r2 w1] by simp
      obtain d2 \<sigma>2 where r3: "run_state (deliver_once svc a invoke True) (s2, w2) = (d2, \<sigma>2)"
        by (cases "run_state (deliver_once svc a invoke True) (s2, w2)")
      have "\<sigma>2 = \<sigma>'" "\<exists>r2. d2 = Delivered r2 (Inr x)"
        using run r1 d1 True \<sigma>1 r2 r3 by (auto simp: relay_call_def delivered_def split: sum.splits delivery.splits)
      then obtain r2 where d2: "run_state (deliver_once svc a invoke True) (s2, w2) = (Delivered r2 (Inr x), \<sigma>')"
        using r3 by blast
      show ?thesis
      proof (rule delivery_run [OF net w2 d2], goal_cases)
        case (1 adr c \<sigma>)
        then show ?case by metis
      qed
    qed
  qed
qed

text \<open>The answers that count.\<close>

lemma validateSetAck_ok:
  "validateSetAck svc answer ident expected = None \<longleftrightarrow>
     (\<exists>ack. answer = Some ack \<and> applied ack ident \<and> ack_ActiveContext ack = Some expected)"
  by (auto simp: validateSetAck_def validateAck_def applied_def operationContextsEqual_def
      split: option.splits if_splits AckStatus.splits)

lemma validateAck_ok: "validateAck svc answer ident = None \<longleftrightarrow> (\<exists>ack. answer = Some ack \<and> applied ack ident)"
  by (auto simp: validateAck_def applied_def split: option.splits if_splits AckStatus.splits)

lemma still_active: "operationContextsEqual left (Some old) \<longleftrightarrow> left = Some old"
  by (auto simp: operationContextsEqual_def split: option.splits)

lemma accepting_iff: "(case v of None \<Rightarrow> if b then Inl e else Inr () | Some e' \<Rightarrow> Inl e') = Inr x \<longleftrightarrow> v = None \<and> \<not> b"
  "(case v of None \<Rightarrow> Inr () | Some e' \<Rightarrow> Inl e') = Inr x \<longleftrightarrow> v = None"
  by (auto split: option.split)

lemma invoke_set_ok:
  "run_state (invoke_set svc a cmd c) \<sigma> = (Inr x, \<sigma>') \<longleftrightarrow>
     (\<exists>ack. run_state (rsv_SetOperationContext svc c a cmd) \<sigma> = (Inr (Some ack), \<sigma>')
        \<and> applied ack (soc_CommandId cmd) \<and> ack_ActiveContext ack = Some (soc_Context cmd))"
proof -
  obtain r \<sigma>1 where "run_state (rsv_SetOperationContext svc c a cmd) \<sigma> = (r, \<sigma>1)"
    by (cases "run_state (rsv_SetOperationContext svc c a cmd) \<sigma>")
  then show ?thesis
    by (cases r) (auto simp: invoke_set_def accepting_iff validateSetAck_ok)
qed

lemma invoke_clear_ok:
  "run_state (invoke_clear svc a cmd (Some old) c) \<sigma> = (Inr x, \<sigma>') \<longleftrightarrow>
     (\<exists>ack. run_state (rsv_ClearOperationContext svc c a cmd) \<sigma> = (Inr (Some ack), \<sigma>')
        \<and> applied ack (coc_CommandId cmd) \<and> ack_ActiveContext ack \<noteq> Some old)"
proof -
  obtain r \<sigma>1 where "run_state (rsv_ClearOperationContext svc c a cmd) \<sigma> = (r, \<sigma>1)"
    by (cases "run_state (rsv_ClearOperationContext svc c a cmd) \<sigma>")
  then show ?thesis
    by (cases r) (auto simp: invoke_clear_def still_active accepting_iff validateAck_ok)
qed

lemma invoke_deploy_ok:
  "run_state (invoke_deploy svc a cmd c) \<sigma> = (Inr x, \<sigma>') \<longleftrightarrow>
     (\<exists>res. x = Some res \<and> run_state (rsv_DeployMission svc c a cmd) \<sigma> = (Inr (Some res), \<sigma>'))"
  by (cases "run_state (rsv_DeployMission svc c a cmd) \<sigma>")
    (auto simp: invoke_deploy_def split: sum.splits option.splits)

lemma invokes_keep:
  assumes "calls_keep I svc"
  shows "keeps_world I (invoke_set svc a setc c)" and "keeps_world I (invoke_clear svc a clr old c)"
    and "keeps_world I (invoke_deploy svc a dep c)"
  using assms by (auto simp: calls_keep_def invoke_set_def invoke_clear_def invoke_deploy_def intro!: keeps_world_bind)

lemma error_of_None: "error_of r = None \<longleftrightarrow> (\<exists>x. r = Inr x)"
  by (cases r) (auto simp: error_of_def)

lemma ensure_run:
  assumes "run_state (EnsureOperationContext svc a cmd) \<sigma> = (None, \<sigma>')"
  shows "run_state (relay_call svc a (invoke_set svc a cmd)) \<sigma> = (Inr (), \<sigma>')"
  using assms by (cases "run_state (relay_call svc a (invoke_set svc a cmd)) \<sigma>")
    (auto simp: EnsureOperationContext_def error_of_None split: if_splits)

lemma clear_run:
  assumes "run_state (ClearOperationContextForReconciliation svc a cmd old) \<sigma> = (None, \<sigma>')"
  shows "run_state (relay_call svc a (invoke_clear svc a cmd (Some old))) \<sigma> = (Inr (), \<sigma>') \<and> \<not> coc_Authoritative cmd"
  using assms by (cases "run_state (relay_call svc a (invoke_clear svc a cmd (Some old))) \<sigma>")
    (auto simp: ClearOperationContextForReconciliation_def error_of_None split: if_splits)

lemma deploy_run:
  assumes "run_state (DeployMission svc a cmd) \<sigma> = (Inr x, \<sigma>')"
  shows "run_state (relay_call svc a (invoke_deploy svc a cmd)) \<sigma> = (Inr x, \<sigma>')"
  using assms by (auto simp: DeployMission_def split: if_splits)



lemma current_address: "relayAddress current_relay = ''10.0.0.2:80''"
  by code_simp

lemma small_network_routed: "routed_network small_placed small_listed small_dialled small_network"
  by (auto simp: routed_network_def network_keeps_def network_answers_def calls_keep_def small_network_def remote_call_def
      small_dialled_def small_placed_def small_listed_def current_address current_relay_def [THEN arg_cong, of rel_RelayId]
      keeps_world_def routes_def)

lemma stale_world_routes: "routes small_placed small_listed small_dialled stale_world"
  by (simp add: routes_def stale_world_def small_placed_def small_listed_def small_dialled_def small_dial_def gone_address_def)

text \<open>Reaching the Agent, wherever the cache places it.\<close>

lemma ensures_total: "ensures I m P \<Longrightarrow> (\<And>\<sigma>. Q (fst (run_state m \<sigma>))) \<Longrightarrow> ensures I m (\<lambda>a. P a \<and> Q a)"
  by (auto simp: ensures_def) (metis fst_conv)

lemma agent_reachableD:
  assumes "agent_reachable svc dialled a relay invoke x"
  shows "rel_RelayId relay \<noteq> []" and "relayAddress relay \<noteq> []"
    and "\<exists>p. fst (run_state (rsv_GetAgentPlacement svc a) \<sigma>) = Inr (Some p) \<and> apl_RelayId p = rel_RelayId relay"
    and "\<exists>rs. fst (run_state (rsv_ListRelays svc) \<sigma>) = Inr rs
        \<and> find (\<lambda>r. rel_RelayId r = rel_RelayId relay) rs = Some relay"
    and "\<exists>c. fst (run_state (rsv_dial svc adr) \<sigma>) = Inr c"
    and "dialled adr c \<Longrightarrow> fst (run_state (invoke c) \<sigma>) = Inr x
        \<or> adr \<noteq> relayAddress relay \<and> relay_unavailable svc (fst (run_state (invoke c) \<sigma>))"
proof -
  note reach = assms [unfolded agent_reachable_def]
  show "rel_RelayId relay \<noteq> []" "relayAddress relay \<noteq> []" using reach by blast+
  show "\<exists>p. fst (run_state (rsv_GetAgentPlacement svc a) \<sigma>) = Inr (Some p) \<and> apl_RelayId p = rel_RelayId relay"
    using reach by blast
  show "\<exists>rs. fst (run_state (rsv_ListRelays svc) \<sigma>) = Inr rs
      \<and> find (\<lambda>r. rel_RelayId r = rel_RelayId relay) rs = Some relay" using reach by blast
  show "\<exists>c. fst (run_state (rsv_dial svc adr) \<sigma>) = Inr c" using reach by blast
  assume d: "dialled adr c"
  show "fst (run_state (invoke c) \<sigma>) = Inr x
      \<or> adr \<noteq> relayAddress relay \<and> relay_unavailable svc (fst (run_state (invoke c) \<sigma>))"
  proof (cases "adr = relayAddress relay")
    case True
    with d reach show ?thesis by blast
  next
    case False
    with d reach obtain e where "fst (run_state (invoke c) \<sigma>) = Inl e" "rsv_unavailable svc e" by blast
    with False show ?thesis by (simp add: relay_unavailable_def)
  qed
qed

lemma found_listed:
  "find P rs = Some relay \<Longrightarrow> \<forall>r. r \<in> set rs \<longrightarrow> listed (rel_RelayId r) (relayAddress r) \<Longrightarrow>
    listed (rel_RelayId relay) (relayAddress relay)"
  by (auto simp: find_Some_iff)

lemma fetch_reaches:
  assumes net: "routed_network placed listed dialled svc" and reach: "agent_reachable svc dialled a relay invoke x"
  shows "ensures (routes placed listed dialled) (fetch_placement svc a)
    (\<lambda>y. \<exists>p. y = Inr p \<and> cp_address p = relayAddress relay)"
proof -
  have remember: "ensures (routes placed listed dialled) (remember svc a relay)
      (\<lambda>y. \<exists>p. y = Inr p \<and> cp_address p = relayAddress relay)"
    if "placed a (rel_RelayId relay)" "listed (rel_RelayId relay) (relayAddress relay)"
    unfolding remember_def Let_def
    by (rule ensures_bind [OF routed_ensures(4) [OF net]], rule ensures_locked)
      (use net that in \<open>auto simp: routed_network_def routes_changes\<close>)
  have locate: "ensures (routes placed listed dialled) (locate_relay svc a (rel_RelayId relay))
      (\<lambda>y. \<exists>p. y = Inr p \<and> cp_address p = relayAddress relay)" if "placed a (rel_RelayId relay)"
    unfolding locate_relay_def
  proof (rule ensures_bind [OF ensures_total [OF routed_ensures(2) [OF net]]])
    show "\<exists>rs. fst (run_state (rsv_ListRelays svc) \<sigma>) = Inr rs
        \<and> find (\<lambda>r. rel_RelayId r = rel_RelayId relay) rs = Some relay" for \<sigma>
      by (rule agent_reachableD(4) [OF reach])
  qed (use agent_reachableD(2) [OF reach] that in \<open>auto intro!: remember intro: found_listed\<close>)
  show ?thesis unfolding fetch_placement_def
  proof (rule ensures_bind [OF ensures_total [OF routed_ensures(1) [OF net]]])
    show "\<exists>p. fst (run_state (rsv_GetAgentPlacement svc a) \<sigma>) = Inr (Some p) \<and> apl_RelayId p = rel_RelayId relay" for \<sigma>
      by (rule agent_reachableD(3) [OF reach])
  qed (use agent_reachableD(1) [OF reach] in \<open>auto intro!: locate\<close>)
qed

lemma resolve_reaches:
  assumes net: "routed_network placed listed dialled svc" and reach: "agent_reachable svc dialled a relay invoke x"
  shows "ensures (routes placed listed dialled) (resolve svc a refresh)
    (\<lambda>y. \<exists>p. y = Inr p \<and> (refresh \<longrightarrow> cp_address p = relayAddress relay))"
proof -
  have "ensures (routes placed listed dialled) (locked svc (\<lambda>w. (map_of (rw_placements w) a, w))) (\<lambda>_. True)"
    using net by (intro ensures_locked) (auto simp: routed_network_def)
  moreover have "ensures (routes placed listed dialled) (fetch_placement svc a)
      (\<lambda>y. \<exists>p. y = Inr p \<and> (refresh \<longrightarrow> cp_address p = relayAddress relay))"
    using fetch_reaches [OF net reach] by (auto simp: ensures_def) (meson)
  ultimately show ?thesis unfolding resolve_def
    by (auto split: option.split intro!: ensures_bind [where P = "\<lambda>_. True"] ensures_return routed_ensures(4) [OF net])
qed

lemma client_reaches:
  assumes net: "routed_network placed listed dialled svc" and reach: "agent_reachable svc dialled a relay invoke x"
  shows "ensures (routes placed listed dialled) (grpcPool_Client svc r adr) (\<lambda>y. \<exists>c. y = Inr c \<and> dialled adr c)"
proof -
  have dial: "ensures (routes placed listed dialled) (dial_new svc r adr) (\<lambda>y. \<exists>c. y = Inr c)"
    unfolding dial_new_def
  proof (rule ensures_bind [OF ensures_total [OF routed_ensures(3) [OF net]]])
    show "\<exists>c. fst (run_state (rsv_dial svc adr) \<sigma>) = Inr c" for \<sigma> by (rule agent_reachableD(5) [OF reach])
  qed (auto simp: routes_changes intro!: ensures_in_world)
  have "ensures (routes placed listed dialled) (grpcPool_Client svc r adr) (\<lambda>y. \<exists>c. y = Inr c)"
    unfolding grpcPool_Client_def
    by (rule ensures_bind [OF ensures_locked [where Q = "\<lambda>_. True"]])
      (use net in \<open>auto simp: routed_network_def routes_changes split: option.split intro!: ensures_return dial
        ensures_bind [OF routed_ensures(5) [OF net]] ensures_bind [OF ensures_in_world [where Q = "\<lambda>_. True"]]\<close>)
  with client_ensures [OF net, of r adr] show ?thesis by (fastforce simp: ensures_def)
qed

lemma delivery_reaches:
  assumes net: "routed_network placed listed dialled svc" and reach: "agent_reachable svc dialled a relay invoke x"
    and inv: "\<And>c. keeps_world (routes placed listed dialled) (invoke c)"
  shows "ensures (routes placed listed dialled) (deliver_once svc a invoke refresh)
    (\<lambda>d. \<exists>r ans. d = Delivered r ans \<and> (ans = Inr x \<or> \<not> refresh \<and> relay_unavailable svc ans))"
proof -
  have "ensures (routes placed listed dialled) (invoke c) (\<lambda>ans. ans = Inr x \<or> adr \<noteq> relayAddress relay \<and> relay_unavailable svc ans)"
    if "dialled adr c" for adr c
    by (rule ensures_keeps [OF inv]) (rule agent_reachableD(6) [OF reach that])
  then have call: "ensures (routes placed listed dialled) (do { answer \<leftarrow> invoke c; State_Monad.return (Delivered r answer) })
      (\<lambda>d. \<exists>r ans. d = Delivered r ans \<and> (ans = Inr x \<or> \<not> refresh \<and> relay_unavailable svc ans))"
    if "dialled adr c" "refresh \<longrightarrow> adr = relayAddress relay" for adr c r
    by (rule ensures_bind [OF _ ensures_return]) (use that in auto)
  show ?thesis unfolding deliver_once_def
  proof (rule ensures_bind [OF resolve_reaches [OF net reach]], elim exE conjE, simp only: sum.case)
    fix p
    assume p: "refresh \<longrightarrow> cp_address p = relayAddress relay"
    show "ensures (routes placed listed dialled)
        (do { client \<leftarrow> grpcPool_Client svc (cp_relayID p) (cp_address p);
              case client of
                Inl e \<Rightarrow> State_Monad.return (Undelivered (wrap (''connect relay '' @ cp_relayID p) e))
              | Inr conn \<Rightarrow> do { answer \<leftarrow> invoke conn; State_Monad.return (Delivered (cp_relayID p) answer) } })
        (\<lambda>d. \<exists>r ans. d = Delivered r ans \<and> (ans = Inr x \<or> \<not> refresh \<and> relay_unavailable svc ans))"
      by (rule ensures_bind [OF client_reaches [OF net reach]], elim exE conjE, simp only: sum.case) (rule call [OF _ p])
  qed
qed

lemma call_reaches:
  assumes net: "routed_network placed listed dialled svc" and reach: "agent_reachable svc dialled a relay invoke x"
    and inv: "\<And>c. keeps_world (routes placed listed dialled) (invoke c)"
  shows "ensures (routes placed listed dialled) (relay_call svc a invoke) (\<lambda>y. y = Inr x)"
  unfolding relay_call_def
  by (rule ensures_bind [OF delivery_reaches [OF net reach inv]])
    (auto simp: delivered_def relay_unavailable_def intro!: ensures_return ensures_bind [OF invalidate_ensures [OF net]]
      ensures_bind [OF delivery_reaches [OF net reach inv]])

subsection \<open>Bookkeeping\<close>

lemma bookkeeping_keeps:
  assumes net: "network_keeps I svc" and set: "\<And>w p c. I w \<Longrightarrow> I (w\<lparr>rw_placements := p\<rparr>)" "\<And>w p c. I w \<Longrightarrow> I (w\<lparr>rw_conns := c\<rparr>)"
  shows "keeps_world I (resolve svc a refresh)" and "keeps_world I (grpcPool_Client svc r adr)"
    and "keeps_world I (invalidate svc a r)"
proof -
  note net' = net [unfolded network_keeps_def]
  have "keeps_world I (remember svc a relay)" for relay
    unfolding remember_def Let_def using net' by (auto intro!: keeps_world_bind keeps_world_locked [OF net] set)
  then have "keeps_world I (fetch_placement svc a)"
    unfolding fetch_placement_def locate_relay_def using net'
    by (auto intro!: keeps_world_bind split: sum.split option.split)
  then show "keeps_world I (resolve svc a refresh)" unfolding resolve_def using net'
    by (auto intro!: keeps_world_bind keeps_world_locked [OF net] split: option.split)
  have "keeps_world I (dial_new svc r adr)" unfolding dial_new_def using net'
    by (auto intro!: keeps_world_bind keeps_world_in_world set split: sum.split)
  then show "keeps_world I (grpcPool_Client svc r adr)" unfolding grpcPool_Client_def using net'
    by (auto intro!: keeps_world_bind keeps_world_locked [OF net] keeps_world_in_world set split: option.split)
  show "keeps_world I (invalidate svc a r)" unfolding invalidate_def grpcPool_Invalidate_def using net'
    by (auto intro!: keeps_world_bind keeps_world_locked [OF net] keeps_world_in_world set split: option.split)
qed

lemma delivery_counted:
  assumes cnt: "deliveries_counted N svc invoke"
    and run: "run_state (deliver_once svc a invoke refresh) (s, w) = (d, (s', w'))"
  shows "N (rw_rest w') = N (rw_rest w) + (case d of Undelivered _ \<Rightarrow> 0 | Delivered _ _ \<Rightarrow> 1)"
proof -
  have net: "network_keeps (\<lambda>w. N (rw_rest w) = k) svc" for k using cnt by (simp add: deliveries_counted_def)
  have call: "run_state (invoke c) (s, w) = (y, (s', w')) \<Longrightarrow> N (rw_rest w') = N (rw_rest w) + 1" for c s w y s' w'
    using cnt by (simp add: deliveries_counted_def)
  obtain x s1 w1 where r1: "run_state (resolve svc a refresh) (s, w) = (x, (s1, w1))"
    by (cases "run_state (resolve svc a refresh) (s, w)") auto
  have n1: "N (rw_rest w1) = N (rw_rest w)" by (rule keeps_world_run [OF bookkeeping_keeps(1) [OF net] r1]) simp_all
  show ?thesis
  proof (cases x)
    case (Inl e)
    with run r1 n1 show ?thesis by (auto simp: deliver_once_def)
  next
    case (Inr p)
    let ?client = "grpcPool_Client svc (cp_relayID p) (cp_address p)"
    obtain y s2 w2 where r2: "run_state ?client (s1, w1) = (y, (s2, w2))" by (cases "run_state ?client (s1, w1)") auto
    have n2: "N (rw_rest w2) = N (rw_rest w1)" by (rule keeps_world_run [OF bookkeeping_keeps(2) [OF net] r2]) simp_all
    from run r1 r2 n1 n2 Inr show ?thesis
      by (cases y) (auto simp: deliver_once_def dest!: call split: prod.splits)
  qed
qed

text \<open>
  C39: a request is delivered at most twice, and a second time only after the Relay was unavailable. When
  each remote call counts one, the count never grows by more than two; it grows by at most one when no error is taken for an
  unavailable Relay; and a request that succeeds was delivered.
\<close>

theorem at_most_two_deliveries:
  assumes cnt: "deliveries_counted N svc invoke" and run: "run_state (relay_call svc a invoke) (s, w) = (y, (s', w'))"
  shows "N (rw_rest w') \<le> N (rw_rest w) + 2
    \<and> ((\<forall>e. \<not> rsv_unavailable svc e) \<longrightarrow> N (rw_rest w') \<le> N (rw_rest w) + 1)
    \<and> (y = Inr x \<longrightarrow> N (rw_rest w) < N (rw_rest w'))"
proof -
  have net: "network_keeps (\<lambda>w. N (rw_rest w) = k) svc" for k using cnt by (simp add: deliveries_counted_def)
  obtain d1 s1 w1 where r1: "run_state (deliver_once svc a invoke False) (s, w) = (d1, (s1, w1))"
    by (cases "run_state (deliver_once svc a invoke False) (s, w)") auto
  note n1 = delivery_counted [OF cnt r1]
  show ?thesis
  proof (cases "\<exists>r ans. d1 = Delivered r ans \<and> relay_unavailable svc ans")
    case False
    with run r1 have "w' = w1" "(\<exists>e. d1 = Undelivered e \<and> y = Inl e) \<or> (\<exists>r ans. d1 = Delivered r ans)"
      by (auto simp: relay_call_def split: delivery.splits)
    with n1 show ?thesis by auto
  next
    case True
    then obtain r ans where d1: "d1 = Delivered r ans" "relay_unavailable svc ans" by blast
    then have un: "\<not> (\<forall>e. \<not> rsv_unavailable svc e)" by (cases ans) (auto simp: relay_unavailable_def)
    obtain s2 w2 where r2: "run_state (invalidate svc a r) (s1, w1) = ((), (s2, w2))"
      by (cases "run_state (invalidate svc a r) (s1, w1)") auto
    have n2: "N (rw_rest w2) = N (rw_rest w1)" by (rule keeps_world_run [OF bookkeeping_keeps(3) [OF net] r2]) simp_all
    obtain d2 s3 w3 where r3: "run_state (deliver_once svc a invoke True) (s2, w2) = (d2, (s3, w3))"
      by (cases "run_state (deliver_once svc a invoke True) (s2, w2)") auto
    have "w' = w3" using run r1 r2 r3 d1 by (simp add: relay_call_def)
    with n1 n2 delivery_counted [OF cnt r3] d1 un show ?thesis by (auto split: delivery.splits)
  qed
qed

lemma small_network_counts: "deliveries_counted (\<lambda>n. n) small_network (invoke_deploy small_network a cmd)"
  by (auto simp: deliveries_counted_def network_keeps_def small_network_def remote_call_def invoke_deploy_def keeps_world_def)

theorem at_most_two_deliveries_witness:
  "let w' = snd (snd (run_state (relay_call small_network ''agent'' (invoke_deploy small_network ''agent'' small_mission))
      (NewStore, stale_world)))
   in rw_rest w' \<le> 2"
proof -
  obtain y s' w' where run: "run_state (relay_call small_network ''agent'' (invoke_deploy small_network ''agent'' small_mission))
      (NewStore, stale_world) = (y, (s', w'))"
    by (cases "run_state (relay_call small_network ''agent'' (invoke_deploy small_network ''agent'' small_mission)) (NewStore, stale_world)") auto
  from at_most_two_deliveries [OF small_network_counts run, THEN conjunct1] run show ?thesis
    by (simp add: stale_world_def)
qed

text \<open>
  C18: an Agent that moved to another Relay is reached. When the Registry places it at a listed Relay with
  an address, dials succeed, that Relay answers and every other one is unavailable, then each request of the
  mission deployment has its answer, whatever Relay the cache still names: \<open>DeployMission\<close> returns it.
\<close>

theorem moved_agent_reached:
  assumes "routed_network placed listed dialled svc" and "routes placed listed dialled w"
    and "agent_reachable svc dialled a relay (invoke_deploy svc a cmd) x"
    and "TrimSpace a \<noteq> []" and "TrimSpace (dc_CommandId cmd) \<noteq> []"
  shows "fst (run_state (DeployMission svc a cmd) (s, w)) = Inr x"
proof -
  have "calls_keep (routes placed listed dialled) svc" using assms(1) by (simp add: routed_network_def)
  from call_reaches [OF assms(1,3) invokes_keep(3) [OF this]]
  have "fst (run_state (relay_call svc a (invoke_deploy svc a cmd)) (s, w)) = Inr x"
    using assms(2) by (cases "run_state (relay_call svc a (invoke_deploy svc a cmd)) (s, w)") (auto simp: ensures_def)
  with assms(4,5) show ?thesis by (simp add: DeployMission_def)
qed

lemma current_relay_id: "rel_RelayId current_relay = ''relay-b''"
  by (simp add: current_relay_def)

lemma small_network_reachable:
  assumes "\<And>c. c = 2 \<Longrightarrow> \<forall>\<sigma>. fst (run_state (invoke c) \<sigma>) = Inr x"
    and "\<And>c. c \<noteq> 2 \<Longrightarrow> \<forall>\<sigma>. fst (run_state (invoke c) \<sigma>) = Inl (Errorf ''unavailable'' [])"
  shows "agent_reachable small_network small_dialled ''agent'' current_relay invoke x"
  using assms unfolding agent_reachable_def
  by (simp add: small_network_def current_address current_relay_id small_dialled_def small_dial_def)


lemma small_network_keeps: "calls_keep (routes small_placed small_listed small_dialled) small_network"
  using small_network_routed by (simp add: routed_network_def)

lemma stale_ensure:
  "fst (run_state (EnsureOperationContext small_network ''agent'' small_command) (NewStore, stale_world)) = None"
proof -
  let ?invoke = "invoke_set small_network ''agent'' small_command"
  have "agent_reachable small_network small_dialled ''agent'' current_relay ?invoke ()"
    by (rule small_network_reachable)
      (auto simp: invoke_set_def small_network_def remote_call_def small_ack_def validateSetAck_def validateAck_def operationContextsEqual_def)
  from call_reaches [OF small_network_routed this invokes_keep(1) [OF small_network_keeps]] stale_world_routes
  have "fst (run_state (relay_call small_network ''agent'' ?invoke) (NewStore, stale_world)) = Inr ()"
    by (cases "run_state (relay_call small_network ''agent'' ?invoke) (NewStore, stale_world)") (auto simp: ensures_def)
  moreover have "TrimSpace ''agent'' \<noteq> []" "TrimSpace ''cmd'' \<noteq> []" "TrimSpace ''ac'' \<noteq> []" "TrimSpace ''f'' \<noteq> []"
    "TrimSpace ''i'' \<noteq> []" by code_simp+
  ultimately show ?thesis by (simp add: EnsureOperationContext_def small_command_def small_context_def error_of_def case_prod_beta)
qed

lemma small_mission_reachable:
  "agent_reachable small_network small_dialled ''agent'' current_relay (invoke_deploy small_network ''agent'' small_mission)
     (Some (small_result small_mission))"
  by (rule small_network_reachable) (auto simp: invoke_deploy_def small_network_def remote_call_def)

theorem moved_agent_reached_witness:
  "fst (run_state (DeployMission small_network ''agent'' small_mission) (NewStore, stale_world)) = Inr (Some (small_result small_mission))"
proof -
  have "TrimSpace ''agent'' \<noteq> []" "TrimSpace (dc_CommandId small_mission) \<noteq> []" by code_simp+
  from moved_agent_reached [OF small_network_routed stale_world_routes small_mission_reachable this]
  show ?thesis .
qed




subsection \<open>The address of a Relay\<close>

text \<open>
  The address a Relay is dialled at has a port. When the Registry lists a Relay with a port and a
  non-blank address without brackets, the address is one that \<open>net.SplitHostPort\<close> takes apart: the listed
  one when that has a port already, and otherwise the listed host, an unbracketed IPv6 address included,
  and the listed port.
\<close>

theorem relay_address_has_port:
  assumes "rel_GrpcPort relay > 0" and "TrimSpace (rel_Address relay) \<noteq> []"
    and "set (TrimSpace (rel_Address relay)) \<inter> {CHR ''['', CHR '']''} = {}"
  shows "SplitHostPort (relayAddress relay) =
    (case SplitHostPort (TrimSpace (rel_Address relay)) of
       Some host_port \<Rightarrow> Some host_port
     | None \<Rightarrow> Some (TrimSpace (rel_Address relay), itoa (rel_GrpcPort relay)))"
proof (cases "SplitHostPort (TrimSpace (rel_Address relay))")
  case None
  with assms have "relayAddress relay = JoinHostPort (TrimSpace (rel_Address relay)) (itoa (rel_GrpcPort relay))"
    by (simp add: relayAddress_def Let_def)
  with None assms(3) show ?thesis by (auto intro!: split_join_host_port itoa_no_bracket)
qed (use assms in \<open>simp add: relayAddress_def Let_def\<close>)

theorem relay_address_has_port_witness:
  "SplitHostPort (relayAddress (current_relay\<lparr>rel_Address := ''::1''\<rparr>)) = Some (''::1'', ''80'')"
proof -
  let ?r = "current_relay\<lparr>rel_Address := ''::1''\<rparr>"
  have "rel_GrpcPort ?r > 0" "TrimSpace (rel_Address ?r) \<noteq> []" "set (TrimSpace (rel_Address ?r)) \<inter> {CHR ''['', CHR '']''} = {}"
    by code_simp+
  from relay_address_has_port [OF this]
  have "SplitHostPort (relayAddress ?r) = (case SplitHostPort (TrimSpace (rel_Address ?r)) of
     Some host_port \<Rightarrow> Some host_port | None \<Rightarrow> Some (TrimSpace (rel_Address ?r), itoa (rel_GrpcPort ?r)))" .
  moreover have "SplitHostPort (TrimSpace (rel_Address ?r)) = None" "TrimSpace (rel_Address ?r) = ''::1''"
    "itoa (rel_GrpcPort ?r) = ''80''" by code_simp+
  ultimately show ?thesis by simp
qed

text \<open>A bracketed IPv6 address without a port is bracketed a second time, and nothing can dial the result.\<close>

lemma bracketed_address_unusable:
  "relayAddress (current_relay\<lparr>rel_Address := ''[::1]''\<rparr>) = ''[[::1]]:80''
     \<and> SplitHostPort ''[[::1]]:80'' = None"
  by code_simp

end
