(* ===== verification/Live_State.thy ===== *)
theory Live_State
  imports Preflight Conformance Relay_Control
begin

text \<open>
  What the fleet service shows of aircraft: the reading half of \<open>internal/service/fleet_service.go\<close>
  with the records of \<open>internal/domain/live_telemetry.go\<close>, \<open>telemetry.go\<close> and \<open>internal/readmodel\<close>. The
  Registry, the telemetry store and the replay store are parameters. The look-ups of placements run
  in parallel workers: the order in which the jobs are done is a parameter, and other requests run
  before every call. The two branches of \<open>composeLiveAircraft\<close> share nothing but their arguments;
  they are run one after the other. The message of the Registry and a pointer into it may be \<open>nil\<close>.
\<close>

section \<open>Definitions\<close>

subsection \<open>Records\<close>

datatype ConnectionStatus =
    ConnectionStatusConnected
  | ConnectionStatusStale
  | ConnectionStatusOffline
  | ConnectionStatusUnmapped
  | ConnectionStatusUnavailable
  | ConnectionStatusOther string

datatype DataFreshness =
    DataFreshnessFresh
  | DataFreshnessStale
  | DataFreshnessMissing
  | DataFreshnessUnavailable
  | DataFreshnessOther string

record TelemetryObservation =
  ob_Status :: DataFreshness
  ob_RecordedAt :: time
  ob_FrameID :: string
  ob_RelayID :: string
  ob_SessionID :: string
  ob_TimestampSource :: string
  ob_OperatorID :: string
  ob_IntentID :: string
  ob_IntentVersion :: int
  ob_FlightID :: string

text \<open>The groups embed their observation as the first field.\<close>

record PositionTelemetry =
  pt_Observation :: TelemetryObservation
  pt_LatitudeDeg :: real
  pt_LongitudeDeg :: real
  pt_AltitudeMSLM :: "real option"
  pt_RelativeAltitudeM :: "real option"
  pt_VelocityNorthMPS :: "real option"
  pt_VelocityEastMPS :: "real option"
  pt_VelocityDownMPS :: "real option"
  pt_GroundspeedMPS :: "real option"
  pt_HeadingDeg :: "real option"

record BatteryTelemetry =
  bt_Observation :: TelemetryObservation
  bt_BatteryID :: nat
  bt_BatteryFunction :: string
  bt_BatteryType :: string
  bt_BatteryChargeState :: string
  bt_BatteryMode :: string
  bt_BatteryTemperatureC :: "real option"
  bt_BatteryVoltageV :: "real option"
  bt_BatteryCurrentA :: "real option"
  bt_BatteryConsumedMAH :: "int option"
  bt_BatteryConsumedWH :: "real option"
  bt_BatteryRemainingPct :: "real option"
  bt_BatteryTimeRemainingS :: "int option"

record VehicleTelemetry =
  vt_Observation :: TelemetryObservation
  vt_VehicleType :: string
  vt_AutopilotType :: string
  vt_BaseMode :: string
  vt_CustomMode :: "nat option"
  vt_SystemStatus :: string
  vt_MAVLinkVersion :: "nat option"

record SystemTelemetry =
  st_Observation :: TelemetryObservation
  st_MainloopLoadPct :: "real option"
  st_CommunicationDropRatePct :: "real option"
  st_CommunicationErrorCount :: "nat option"
  st_AutopilotErrorCount1 :: "nat option"
  st_AutopilotErrorCount2 :: "nat option"
  st_AutopilotErrorCount3 :: "nat option"
  st_AutopilotErrorCount4 :: "nat option"
  st_SensorsPresent :: string
  st_SensorsEnabled :: string
  st_SensorsHealth :: string
  st_SensorsPresentExtended :: string
  st_SensorsEnabledExtended :: string
  st_SensorsHealthExtended :: string

record HUDTelemetry =
  ht_Observation :: TelemetryObservation
  ht_AirspeedMPS :: "real option"
  ht_GroundspeedMPS :: "real option"
  ht_HeadingDeg :: "real option"
  ht_ThrottlePct :: "real option"
  ht_AltitudeMSLM :: "real option"
  ht_ClimbRateMPS :: "real option"

record ExtendedStateTelemetry =
  et_Observation :: TelemetryObservation
  et_VTOLState :: string
  et_LandedState :: string

record GPSTelemetry =
  gt_Observation :: TelemetryObservation
  gt_FixType :: string
  gt_LatitudeDeg :: "real option"
  gt_LongitudeDeg :: "real option"
  gt_AltitudeMSLM :: "real option"
  gt_AltitudeEllipsoidM :: "real option"
  gt_HDOP :: "real option"
  gt_VDOP :: "real option"
  gt_GroundspeedMPS :: "real option"
  gt_CourseOverGroundDeg :: "real option"
  gt_SatellitesVisible :: "nat option"
  gt_HorizontalAccuracyM :: "real option"
  gt_VerticalAccuracyM :: "real option"
  gt_SpeedAccuracyMPS :: "real option"
  gt_HeadingAccuracyDeg :: "real option"
  gt_YawDeg :: "real option"

record AircraftTelemetryState =
  ats_Status :: DataFreshness
  ats_LastObservedAt :: "time option"
  ats_Position :: "PositionTelemetry option"
  ats_Battery :: "BatteryTelemetry option"
  ats_Vehicle :: "VehicleTelemetry option"
  ats_System :: "SystemTelemetry option"
  ats_HUD :: "HUDTelemetry option"
  ats_ExtendedState :: "ExtendedStateTelemetry option"
  ats_GPS :: "GPSTelemetry option"

definition zero_AircraftTelemetryState :: AircraftTelemetryState where
  "zero_AircraftTelemetryState = \<lparr>ats_Status = DataFreshnessOther [], ats_LastObservedAt = None, ats_Position = None,
     ats_Battery = None, ats_Vehicle = None, ats_System = None, ats_HUD = None, ats_ExtendedState = None, ats_GPS = None\<rparr>"

record LiveAircraftState =
  las_AircraftID :: string
  las_OperatorID :: string
  las_AgentID :: string
  las_RelayID :: string
  las_Connected :: bool
  las_ConnectionStatus :: ConnectionStatus
  las_LastConnectedAt :: time
  las_LastHeartbeatAt :: time
  las_PlacementLastUpdatedAt :: time

definition zero_LiveAircraftState :: LiveAircraftState where
  "zero_LiveAircraftState = \<lparr>las_AircraftID = [], las_OperatorID = [], las_AgentID = [], las_RelayID = [],
     las_Connected = False, las_ConnectionStatus = ConnectionStatusOther [], las_LastConnectedAt = 0,
     las_LastHeartbeatAt = 0, las_PlacementLastUpdatedAt = 0\<rparr>"

record AircraftLiveState =
  als_AircraftID :: string
  als_OperatorID :: string
  als_AgentID :: string
  als_Connection :: LiveAircraftState
  als_Telemetry :: AircraftTelemetryState

record ReplayManifest =
  rm_OperatorID :: string
  rm_FlightID :: string
  rm_IntentID :: string
  rm_IntentVersion :: int
  rm_ObjectURI :: string
  rm_ChunkURIs :: "string list"
  rm_CreatedAt :: time
  rm_ByteLength :: int

record ReplayResponse =
  rr_Flight :: FlightRecord
  rr_ReplayManifest :: "ReplayManifest option"
  rr_Samples :: "TelemetrySample list"
  rr_ConformanceEvents :: "ConformanceEvent list"

text \<open>\<open>OperatingProfile\<close> of the dashboard is never set and left out.\<close>

record AircraftDashboard =
  ad_Aircraft :: Aircraft
  ad_ActiveBattery :: "Battery option"
  ad_MaintenanceEvents :: "MaintenanceEvent list"
  ad_LatestTelemetry :: "TelemetrySample option"
  ad_Telemetry :: AircraftTelemetryState
  ad_LiveState :: "LiveAircraftState option"
  ad_LiveStateAvailable :: bool
  ad_Readiness :: Readiness
  ad_CurrentIntent :: "OperationalIntent option"

record AircraftMapView =
  mv_Aircraft :: Aircraft
  mv_LiveState :: "LiveAircraftState option"
  mv_LiveStateAvailable :: bool
  mv_LatestTelemetry :: "TelemetrySample option"
  mv_Telemetry :: AircraftTelemetryState
  mv_ReplaySamples :: "TelemetrySample list"
  mv_ActiveIntent :: "OperationalIntent option"
  mv_OperationalVolumes :: "OperationalVolume list"
  mv_CommandedMission :: "Mission option"
  mv_ConformanceSummary :: "ConformanceSummary option"
  mv_ConformanceEvents :: "ConformanceEvent list"

text \<open>What the service reads of the messages of the Registry; an enumeration by its \<open>String()\<close>.\<close>

record Agent =
  agt_AgentId :: string
  agt_LastHeartbeatUnixMs :: int

record RegistryViolation =
  rvi_ViolationType :: string
  rvi_Phase :: string
  rvi_OpeningFrameId :: string
  rvi_OpenedAt :: "time option"
  rvi_LastObservedAt :: "time option"
  rvi_WorstDeviationM :: real

record RegistrySummary =
  rsu_AssignmentId :: string
  rsu_IntentId :: string
  rsu_IntentVersion :: nat
  rsu_OperatorId :: string
  rsu_FlightId :: string
  rsu_AircraftId :: string
  rsu_AssignmentGeneration :: nat
  rsu_EvaluationRevision :: nat
  rsu_EvaluationId :: string
  rsu_Condition :: string
  rsu_MonitoringStatus :: string
  rsu_RecordingStatus :: string
  rsu_ObservedAt :: "time option"
  rsu_FrameId :: string
  rsu_Violations :: "RegistryViolation option list"

record 'w LiveService =
  lv_fleet :: "'w FleetService"
  lv_ListAgents :: "('w, Agent option list result) srv"
  lv_GetAgentPlacement :: "string \<Rightarrow> ('w, AgentPlacement option result) srv"
  lv_BatchGetConformanceSummaries :: "string list \<Rightarrow> ('w, RegistrySummary option list option result) srv"
  lv_notFound :: "go_error \<Rightarrow> bool"
  lv_jobOrder :: "nat \<Rightarrow> nat list"
  lv_GetLatestAircraftStates :: "string list \<Rightarrow> ('w, AircraftTelemetryState gomap result) srv"
  lv_QueryAircraftSamples :: "string \<Rightarrow> int \<Rightarrow> ('w, TelemetrySample list result) srv"
  lv_QueryFlightSamples :: "string \<Rightarrow> int \<Rightarrow> ('w, TelemetrySample list result) srv"
  lv_GetReplayManifest :: "string \<Rightarrow> ('w, ReplayManifest option result) srv"
  lv_registryFreshness :: duration
  lv_telemetryFreshness :: duration

definition NewFleetService :: "'w LiveService \<Rightarrow> 'w LiveService" where
  "NewFleetService svc = svc\<lparr>lv_registryFreshness := 30 * second, lv_telemetryFreshness := 15 * second\<rparr>"

definition WithLiveStatePolicy :: "duration \<Rightarrow> duration \<Rightarrow> ('w, time) srv option \<Rightarrow> 'w LiveService \<Rightarrow> 'w LiveService" where
  "WithLiveStatePolicy registryFreshness telemetryFreshness now svc =
     svc\<lparr>lv_registryFreshness := if registryFreshness > 0 then registryFreshness else lv_registryFreshness svc,
       lv_telemetryFreshness := if telemetryFreshness > 0 then telemetryFreshness else lv_telemetryFreshness svc,
       lv_fleet := (case now of None \<Rightarrow> lv_fleet svc | Some clock \<Rightarrow> (lv_fleet svc)\<lparr>fs_now := clock\<rparr>)\<rparr>"

definition fleet_read :: "'w LiveService \<Rightarrow> (Store \<Rightarrow> 'a) \<Rightarrow> ('w, 'a) srv" where
  "fleet_read svc f = store_read (fs_others (lv_fleet svc)) f"

subsection \<open>Freshness\<close>

text \<open>The instant of Unix milliseconds; \<open>0\<close> is the zero instant, 62135596800 seconds before 1970.\<close>

definition unixMillis :: "int \<Rightarrow> time" where
  "unixMillis ms = (if ms \<le> 0 then 0 else 62135596800 * second + ms * 1000000)"

definition freshAt :: "time \<Rightarrow> time \<Rightarrow> duration \<Rightarrow> bool" where
  "freshAt observedAt now freshness \<longleftrightarrow>
     \<not> IsZero observedAt \<and> \<not> observedAt < now + (- freshness) \<and> \<not> observedAt > now + freshness"

definition observations :: "AircraftTelemetryState \<Rightarrow> TelemetryObservation list" where
  "observations state = List.map_filter id
     [map_option pt_Observation (ats_Position state), map_option bt_Observation (ats_Battery state),
      map_option vt_Observation (ats_Vehicle state), map_option st_Observation (ats_System state),
      map_option ht_Observation (ats_HUD state), map_option et_Observation (ats_ExtendedState state),
      map_option gt_Observation (ats_GPS state)]"

text \<open>The pointers of the loop, written back into the groups.\<close>

definition map_observations ::
  "(TelemetryObservation \<Rightarrow> TelemetryObservation) \<Rightarrow> AircraftTelemetryState \<Rightarrow> AircraftTelemetryState" where
  "map_observations f state = state\<lparr>
     ats_Position := map_option (\<lambda>g. g\<lparr>pt_Observation := f (pt_Observation g)\<rparr>) (ats_Position state),
     ats_Battery := map_option (\<lambda>g. g\<lparr>bt_Observation := f (bt_Observation g)\<rparr>) (ats_Battery state),
     ats_Vehicle := map_option (\<lambda>g. g\<lparr>vt_Observation := f (vt_Observation g)\<rparr>) (ats_Vehicle state),
     ats_System := map_option (\<lambda>g. g\<lparr>st_Observation := f (st_Observation g)\<rparr>) (ats_System state),
     ats_HUD := map_option (\<lambda>g. g\<lparr>ht_Observation := f (ht_Observation g)\<rparr>) (ats_HUD state),
     ats_ExtendedState := map_option (\<lambda>g. g\<lparr>et_Observation := f (et_Observation g)\<rparr>) (ats_ExtendedState state),
     ats_GPS := map_option (\<lambda>g. g\<lparr>gt_Observation := f (gt_Observation g)\<rparr>) (ats_GPS state)\<rparr>"

definition classify :: "time \<Rightarrow> duration \<Rightarrow> TelemetryObservation \<Rightarrow> TelemetryObservation" where
  "classify now freshness ob =
     ob\<lparr>ob_Status := if freshAt (ob_RecordedAt ob) now freshness then DataFreshnessFresh else DataFreshnessStale\<rparr>"

fun last_observed :: "time option \<Rightarrow> TelemetryObservation list \<Rightarrow> time option" where
  "last_observed newest [] = newest"
| "last_observed newest (ob # obs) =
     last_observed (case newest of
         None \<Rightarrow> Some (ob_RecordedAt ob)
       | Some t \<Rightarrow> if ob_RecordedAt ob > t then Some (ob_RecordedAt ob) else Some t) obs"

definition applyTelemetryFreshness :: "duration \<Rightarrow> AircraftTelemetryState \<Rightarrow> time \<Rightarrow> AircraftTelemetryState" where
  "applyTelemetryFreshness freshness state now =
     (let obs = observations state in
      if obs = [] then state\<lparr>ats_Status := DataFreshnessMissing\<rparr>
      else
        let newest = last_observed (ats_LastObservedAt state) obs in
        (map_observations (classify now freshness) state)\<lparr>
          ats_LastObservedAt := newest,
          ats_Status := (case newest of
              Some t \<Rightarrow> if freshAt t now freshness then DataFreshnessFresh else DataFreshnessStale
            | None \<Rightarrow> DataFreshnessStale)\<rparr>)"

definition float_or_zero :: "real option \<Rightarrow> real" where
  "float_or_zero p = (case p of None \<Rightarrow> 0 | Some x \<Rightarrow> x)"

definition legacySample :: "string \<Rightarrow> AircraftTelemetryState \<Rightarrow> TelemetrySample option" where
  "legacySample aircraftID telemetry =
     (case ats_Position telemetry of
        None \<Rightarrow> None
      | Some position \<Rightarrow>
        let ob = pt_Observation position in
        Some \<lparr>ts_ID = ob_FrameID ob, ts_OperatorID = ob_OperatorID ob, ts_AircraftID = aircraftID,
          ts_IntentID = ob_IntentID ob, ts_IntentVersion = ob_IntentVersion ob, ts_FlightID = ob_FlightID ob,
          ts_RecordedAt = ob_RecordedAt ob, ts_Latitude = pt_LatitudeDeg position, ts_Longitude = pt_LongitudeDeg position,
          ts_AltitudeM = float_or_zero (pt_AltitudeMSLM position),
          ts_VelocityMPS = float_or_zero (pt_GroundspeedMPS position),
          ts_HeadingDeg = float_or_zero (pt_HeadingDeg position),
          ts_BatteryPct = (case ats_Battery telemetry of
              Some battery \<Rightarrow>
                if ob_RecordedAt (bt_Observation battery) = ob_RecordedAt ob \<and> ob_FrameID (bt_Observation battery) = ob_FrameID ob
                then bt_BatteryRemainingPct battery else None
            | None \<Rightarrow> None)\<rparr>)"

definition composeAircraftTelemetry ::
  "'w LiveService \<Rightarrow> string list \<Rightarrow> time \<Rightarrow> ('w, AircraftTelemetryState list) srv" where
  "composeAircraftTelemetry svc aircraftIDs now = do {
     telemetryStates \<leftarrow> lv_GetLatestAircraftStates svc aircraftIDs;
     State_Monad.return (map (\<lambda>aircraftID.
         case telemetryStates of
           Inl _ \<Rightarrow> zero_AircraftTelemetryState\<lparr>ats_Status := DataFreshnessUnavailable\<rparr>
         | Inr states \<Rightarrow> applyTelemetryFreshness (lv_telemetryFreshness svc)
             (case map_of states aircraftID of None \<Rightarrow> zero_AircraftTelemetryState | Some st \<Rightarrow> st) now) aircraftIDs)
   }"

subsection \<open>Connections\<close>

record placementLookup =
  plk_resultIndex :: nat
  plk_agentID :: string

definition unmapped_state :: "Aircraft \<Rightarrow> LiveAircraftState" where
  "unmapped_state item = zero_LiveAircraftState\<lparr>las_AircraftID := ac_ID item, las_OperatorID := ac_OperatorID item,
     las_AgentID := ac_AgentID item, las_ConnectionStatus := ConnectionStatusUnmapped\<rparr>"

definition agents_by_id :: "Agent option list \<Rightarrow> Agent gomap" where
  "agents_by_id response = fold (\<lambda>agent agents.
     case agent of
       None \<Rightarrow> agents
     | Some a \<Rightarrow> if agt_AgentId a \<noteq> [] then AList.update (agt_AgentId a) a agents else agents) response []"

text \<open>One round of the loop over the results: the new state, and whether its placement is looked up.\<close>

definition heartbeat_state ::
  "duration \<Rightarrow> Agent gomap \<Rightarrow> time \<Rightarrow> LiveAircraftState \<Rightarrow> LiveAircraftState \<times> bool" where
  "heartbeat_state freshness agents now state =
     (if las_AgentID state = [] then (state, False)
      else case map_of agents (las_AgentID state) of
        None \<Rightarrow> (state\<lparr>las_ConnectionStatus := ConnectionStatusOffline\<rparr>, False)
      | Some agent \<Rightarrow>
          let heartbeat = unixMillis (agt_LastHeartbeatUnixMs agent); seen = state\<lparr>las_LastHeartbeatAt := heartbeat,
            las_LastConnectedAt := heartbeat\<rparr> in
          (if freshAt heartbeat now freshness
           then seen\<lparr>las_Connected := True, las_ConnectionStatus := ConnectionStatusConnected\<rparr>
           else seen\<lparr>las_ConnectionStatus := ConnectionStatusStale\<rparr>, True))"

text \<open>The job channel: each index is taken once, in the order the workers come to it.\<close>

fun run_jobs ::
  "'w LiveService \<Rightarrow> placementLookup list \<Rightarrow> nat list \<Rightarrow> AgentPlacement option result list
    \<Rightarrow> ('w, AgentPlacement option result list) srv" where
  "run_jobs svc lookups [] results = State_Monad.return results"
| "run_jobs svc lookups (index # jobs) results = do {
     answer \<leftarrow> lv_GetAgentPlacement svc (plk_agentID (lookups ! index));
     run_jobs svc lookups jobs (results[index := answer])
   }"

definition lookupPlacements ::
  "'w LiveService \<Rightarrow> placementLookup list \<Rightarrow> ('w, AgentPlacement option result list) srv" where
  "lookupPlacements svc lookups =
     run_jobs svc lookups (lv_jobOrder svc (length lookups)) (replicate (length lookups) (Inr None))"

definition placed_state :: "(go_error \<Rightarrow> bool) \<Rightarrow> AgentPlacement option result \<Rightarrow> LiveAircraftState \<Rightarrow> LiveAircraftState" where
  "placed_state notFound answer state =
     (case answer of
        Inl e \<Rightarrow> state\<lparr>las_Connected := False,
          las_ConnectionStatus := if notFound e then ConnectionStatusOffline else ConnectionStatusUnavailable\<rparr>
      | Inr None \<Rightarrow> state\<lparr>las_Connected := False, las_ConnectionStatus := ConnectionStatusOffline\<rparr>
      | Inr (Some placement) \<Rightarrow>
          if apl_RelayId placement = []
          then state\<lparr>las_Connected := False, las_ConnectionStatus := ConnectionStatusOffline\<rparr>
          else state\<lparr>las_RelayID := apl_RelayId placement,
            las_PlacementLastUpdatedAt := unixMillis (apl_LastUpdatedUnixMs placement)\<rparr>)"

fun place_all ::
  "(go_error \<Rightarrow> bool) \<Rightarrow> (placementLookup \<times> AgentPlacement option result) list \<Rightarrow> LiveAircraftState list
    \<Rightarrow> LiveAircraftState list" where
  "place_all notFound [] states = states"
| "place_all notFound ((lookup, answer) # rest) states =
     place_all notFound rest
       (states[plk_resultIndex lookup := placed_state notFound answer (states ! plk_resultIndex lookup)])"

definition lookups_of :: "(LiveAircraftState \<times> bool) list \<Rightarrow> placementLookup list" where
  "lookups_of seen = map (\<lambda>index. \<lparr>plk_resultIndex = index, plk_agentID = las_AgentID (fst (seen ! index))\<rparr>)
     (filter (\<lambda>index. snd (seen ! index)) [0..<length seen])"

definition composeAircraftConnections ::
  "'w LiveService \<Rightarrow> Aircraft list \<Rightarrow> time \<Rightarrow> ('w, LiveAircraftState list) srv" where
  "composeAircraftConnections svc aircraft now =
     (let result = map unmapped_state aircraft in
      if \<not> list_ex (\<lambda>item. ac_AgentID item \<noteq> []) aircraft then State_Monad.return result
      else do {
        agentResponse \<leftarrow> lv_ListAgents svc;
        case agentResponse of
          Inl _ \<Rightarrow> State_Monad.return (map (\<lambda>state.
            if las_AgentID state \<noteq> [] then state\<lparr>las_ConnectionStatus := ConnectionStatusUnavailable\<rparr> else state) result)
        | Inr response \<Rightarrow>
            let seen = map (heartbeat_state (lv_registryFreshness svc) (agents_by_id response) now) result;
                lookups = lookups_of seen
            in do {
              answers \<leftarrow> lookupPlacements svc lookups;
              State_Monad.return (place_all (lv_notFound svc) (zip lookups answers) (map fst seen))
            }
      })"

definition composeLiveAircraft :: "'w LiveService \<Rightarrow> Aircraft list \<Rightarrow> ('w, AircraftLiveState list) srv" where
  "composeLiveAircraft svc aircraft = do {
     now \<leftarrow> fs_now (lv_fleet svc);
     connectionStates \<leftarrow> composeAircraftConnections svc aircraft now;
     telemetryStates \<leftarrow> composeAircraftTelemetry svc (map ac_ID aircraft) now;
     State_Monad.return (map (\<lambda>(item, connection, telemetry).
       \<lparr>als_AircraftID = ac_ID item, als_OperatorID = ac_OperatorID item, als_AgentID = ac_AgentID item,
         als_Connection = connection, als_Telemetry = telemetry\<rparr>)
       (zip aircraft (zip connectionStates telemetryStates)))
   }"

definition liveAircraftForID :: "AircraftLiveState list \<Rightarrow> string \<Rightarrow> AircraftLiveState" where
  "liveAircraftForID states aircraftID =
     (case find (\<lambda>st. als_AircraftID st = aircraftID) states of
        Some st \<Rightarrow> st
      | None \<Rightarrow> \<lparr>als_AircraftID = aircraftID, als_OperatorID = [], als_AgentID = [],
          als_Connection = zero_LiveAircraftState\<lparr>las_AircraftID := aircraftID,
            las_ConnectionStatus := ConnectionStatusUnavailable\<rparr>,
          als_Telemetry = zero_AircraftTelemetryState\<lparr>ats_Status := DataFreshnessUnavailable\<rparr>\<rparr>)"

subsection \<open>Readiness\<close>

text \<open>
  \<open>strings.EqualFold\<close> against a word of lower-case ASCII letters without \<open>k\<close> and \<open>s\<close>, the only ones that have
  a further form outside ASCII.
\<close>

definition ascii_lower :: "char \<Rightarrow> char" where
  "ascii_lower c = (let n = of_char c :: int in if 65 \<le> n \<and> n \<le> 90 then char_of (n + 32) else c)"

fun Severity_text :: "Severity \<Rightarrow> string" where
  "Severity_text SeverityInfo = ''info''"
| "Severity_text SeverityAdvisory = ''advisory''"
| "Severity_text SeverityWarning = ''warning''"
| "Severity_text SeverityCritical = ''critical''"
| "Severity_text (SeverityOther s) = s"

definition is_critical :: "Severity \<Rightarrow> bool" where
  "is_critical severity \<longleftrightarrow> map ascii_lower (Severity_text severity) = ''critical''"

definition critical_reasons :: "MaintenanceEvent list \<Rightarrow> string list" where
  "critical_reasons events = map (\<lambda>_. ''open critical maintenance event'')
     (filter (\<lambda>event. is_critical (me_Severity event) \<and> me_ResolvedAt event = None) events)"

definition CalculateReadiness :: "Battery option \<Rightarrow> MaintenanceEvent list \<Rightarrow> bool \<Rightarrow> Readiness" where
  "CalculateReadiness battery maintenanceEvents liveStateAvailable =
     (let blocking = critical_reasons maintenanceEvents in
      if blocking \<noteq> [] then \<lparr>rd_Status = ReadinessStatusBlocked, rd_Reasons = blocking\<rparr>
      else
        let reasons =
          (case battery of
             None \<Rightarrow> [''battery missing'']
           | Some b \<Rightarrow>
             (case bat_StateOfHealth b of
                None \<Rightarrow> [''battery state of health unknown'']
              | Some soh \<Rightarrow> if soh < 80 then [''battery state of health below 80''] else []))
          @ (if \<not> liveStateAvailable then [''live state unavailable''] else []) in
        if reasons \<noteq> [] then \<lparr>rd_Status = ReadinessStatusWarning, rd_Reasons = reasons\<rparr>
        else if battery \<noteq> None \<and> liveStateAvailable then \<lparr>rd_Status = ReadinessStatusReady, rd_Reasons = []\<rparr>
        else \<lparr>rd_Status = ReadinessStatusUnknown, rd_Reasons = [''not enough data'']\<rparr>)"

subsection \<open>Dashboards and maps of aircraft\<close>

definition activeBattery :: "'w LiveService \<Rightarrow> string \<Rightarrow> ('w, Battery option result) srv" where
  "activeBattery svc aircraftID = do {
     read \<leftarrow> fleet_read svc (GetActiveBatteryInstallation aircraftID);
     case read of
       Inl e \<Rightarrow> State_Monad.return (Inl (wrap ''get active battery installation'' e))
     | Inr None \<Rightarrow> State_Monad.return (Inr None)
     | Inr (Some installation) \<Rightarrow> do {
         read \<leftarrow> fleet_read svc (GetBattery (bi_BatteryID installation));
         State_Monad.return (case read of
             Inl e \<Rightarrow> if errors_Is e ErrNotFound then Inr None else Inl (wrap ''get active battery'' e)
           | Inr battery \<Rightarrow> Inr (Some battery))
       }
   }"

definition planned_later :: "OperationalIntent \<Rightarrow> OperationalIntent \<Rightarrow> bool" where
  "planned_later a b \<longleftrightarrow>
     (if oi_PlannedStartAt a = oi_PlannedStartAt b then oi_UpdatedAt a > oi_UpdatedAt b
      else oi_PlannedStartAt a > oi_PlannedStartAt b)"

definition pick_by_status :: "IntentStatus \<Rightarrow> OperationalIntent list result \<Rightarrow> OperationalIntent option result" where
  "pick_by_status status read =
     (case read of
        Inl e \<Rightarrow> Inl (wrap ''list operational intents'' e)
      | Inr intents \<Rightarrow>
          (case sort_slice planned_later (filter (\<lambda>i. oi_Status i = status) intents) of
             [] \<Rightarrow> Inr None
           | intent # others \<Rightarrow> Inr (Some intent)))"

definition intentByStatus :: "'w LiveService \<Rightarrow> string \<Rightarrow> IntentStatus \<Rightarrow> ('w, OperationalIntent option result) srv" where
  "intentByStatus svc aircraftID status = do {
     read \<leftarrow> fleet_read svc (ListOperationalIntents aircraftID);
     State_Monad.return (pick_by_status status read)
   }"

definition activeIntent :: "'w LiveService \<Rightarrow> string \<Rightarrow> ('w, OperationalIntent option result) srv" where
  "activeIntent svc aircraftID = intentByStatus svc aircraftID IntentStatusActive"

definition currentIntent :: "'w LiveService \<Rightarrow> string \<Rightarrow> ('w, OperationalIntent option result) srv" where
  "currentIntent svc aircraftID = do {
     read \<leftarrow> intentByStatus svc aircraftID IntentStatusActive;
     case read of
       Inl e \<Rightarrow> State_Monad.return (Inl e)
     | Inr (Some intent) \<Rightarrow> State_Monad.return (Inr (Some intent))
     | Inr None \<Rightarrow> intentByStatus svc aircraftID IntentStatusAccepted
   }"

definition buildDashboard ::
  "'w LiveService \<Rightarrow> Aircraft \<Rightarrow> AircraftLiveState \<Rightarrow> ('w, AircraftDashboard result) srv" where
  "buildDashboard svc aircraft live = do {
     read \<leftarrow> activeBattery svc (ac_ID aircraft);
     case read of
       Inl e \<Rightarrow> State_Monad.return (Inl e)
     | Inr battery \<Rightarrow> do {
         read \<leftarrow> fleet_read svc (ListMaintenanceEvents (ac_ID aircraft));
         case read of
           Inl e \<Rightarrow> State_Monad.return (Inl (wrap ''list maintenance events'' e))
         | Inr maintenanceEvents \<Rightarrow> do {
             read \<leftarrow> currentIntent svc (ac_ID aircraft);
             State_Monad.return (case read of
                 Inl e \<Rightarrow> Inl e
               | Inr intent \<Rightarrow>
                 let liveAvailable = las_Connected (als_Connection live) in
                 Inr \<lparr>ad_Aircraft = aircraft, ad_ActiveBattery = battery, ad_MaintenanceEvents = maintenanceEvents,
                   ad_LatestTelemetry = legacySample (ac_ID aircraft) (als_Telemetry live),
                   ad_Telemetry = als_Telemetry live, ad_LiveState = Some (als_Connection live),
                   ad_LiveStateAvailable = liveAvailable,
                   ad_Readiness = CalculateReadiness battery maintenanceEvents liveAvailable,
                   ad_CurrentIntent = intent\<rparr>)
           }
       }
   }"

definition GetAircraftDashboard :: "'w LiveService \<Rightarrow> string \<Rightarrow> ('w, AircraftDashboard result) srv" where
  "GetAircraftDashboard svc aircraftID = do {
     read \<leftarrow> fleet_read svc (GetAircraft aircraftID);
     case read of
       Inl e \<Rightarrow> State_Monad.return (Inl (wrap ''get aircraft'' e))
     | Inr aircraft \<Rightarrow> do {
         live \<leftarrow> composeLiveAircraft svc [aircraft];
         buildDashboard svc aircraft (live ! 0)
       }
   }"

fun build_dashboards ::
  "'w LiveService \<Rightarrow> AircraftLiveState list \<Rightarrow> Aircraft list \<Rightarrow> AircraftDashboard list
    \<Rightarrow> ('w, AircraftDashboard list result) srv" where
  "build_dashboards svc liveAircraft [] dashboards = State_Monad.return (Inr dashboards)"
| "build_dashboards svc liveAircraft (item # items) dashboards = do {
     built \<leftarrow> buildDashboard svc item (liveAircraftForID liveAircraft (ac_ID item));
     case built of
       Inl e \<Rightarrow> State_Monad.return (Inl e)
     | Inr dashboard \<Rightarrow> build_dashboards svc liveAircraft items (dashboards @ [dashboard])
   }"

definition ListAircraftDashboards :: "'w LiveService \<Rightarrow> ('w, AircraftDashboard list result) srv" where
  "ListAircraftDashboards svc = do {
     read \<leftarrow> fleet_read svc ListAircraft;
     case read of
       Inl e \<Rightarrow> State_Monad.return (Inl (wrap ''list aircraft'' e))
     | Inr aircraft \<Rightarrow> do {
         liveAircraft \<leftarrow> composeLiveAircraft svc aircraft;
         build_dashboards svc liveAircraft aircraft []
       }
   }"

definition GetAircraftLiveState :: "'w LiveService \<Rightarrow> string \<Rightarrow> ('w, AircraftLiveState result) srv" where
  "GetAircraftLiveState svc aircraftID = do {
     read \<leftarrow> fleet_read svc (GetAircraft aircraftID);
     case read of
       Inl e \<Rightarrow> State_Monad.return (Inl (wrap ''get aircraft'' e))
     | Inr aircraft \<Rightarrow> do {
         live \<leftarrow> composeLiveAircraft svc [aircraft];
         State_Monad.return (Inr (live ! 0))
       }
   }"

text \<open>The map: what is known without an active intent, and what the active intent adds, read by read.\<close>

definition bare_view :: "Aircraft \<Rightarrow> AircraftLiveState \<Rightarrow> TelemetrySample list \<Rightarrow> AircraftMapView" where
  "bare_view aircraft live replaySamples = \<lparr>mv_Aircraft = aircraft, mv_LiveState = Some (als_Connection live),
     mv_LiveStateAvailable = las_Connected (als_Connection live),
     mv_LatestTelemetry = legacySample (ac_ID aircraft) (als_Telemetry live), mv_Telemetry = als_Telemetry live,
     mv_ReplaySamples = replaySamples, mv_ActiveIntent = None, mv_OperationalVolumes = [], mv_CommandedMission = None,
     mv_ConformanceSummary = None, mv_ConformanceEvents = []\<rparr>"

definition events_view ::
  "'w LiveService \<Rightarrow> OperationalIntent \<Rightarrow> AircraftMapView \<Rightarrow> ('w, AircraftMapView result) srv" where
  "events_view svc intent view = do {
     read \<leftarrow> fleet_read svc (\<lambda>s. conformanceSummaryForVersion s intent);
     case read of
       Inl e \<Rightarrow> State_Monad.return (Inl e)
     | Inr summary \<Rightarrow> do {
         read \<leftarrow> fleet_read svc (ListConformanceEvents []);
         State_Monad.return (case read of
             Inl e \<Rightarrow> Inl (wrap ''list conformance events'' e)
           | Inr events \<Rightarrow> Inr (view\<lparr>mv_ConformanceSummary := summary,
               mv_ConformanceEvents := filter (\<lambda>event. cev_IntentID event = oi_ID intent
                 \<and> cev_IntentVersion event = oi_Version intent) events\<rparr>))
       }
   }"

definition mission_view ::
  "'w LiveService \<Rightarrow> string \<Rightarrow> OperationalIntent \<Rightarrow> AircraftMapView \<Rightarrow> ('w, AircraftMapView result) srv" where
  "mission_view svc aircraftID intent view = do {
     read \<leftarrow> fleet_read svc (ListOperationalVolumes (oi_ID intent));
     case read of
       Inl e \<Rightarrow> State_Monad.return (Inl (wrap ''list operational volumes'' e))
     | Inr volumes \<Rightarrow> do {
         read \<leftarrow> fleet_read svc (GetDeployedMissionForActiveFlight aircraftID (oi_ID intent) (oi_Version intent));
         let shown = view\<lparr>mv_ActiveIntent := Some intent,
           mv_OperationalVolumes := volumesForVersion volumes (oi_Version intent)\<rparr>;
         case read of
           Inr mission \<Rightarrow> events_view svc intent (shown\<lparr>mv_CommandedMission := Some mission\<rparr>)
         | Inl e \<Rightarrow>
             if \<not> errors_Is e ErrNotFound then State_Monad.return (Inl (wrap ''get commanded mission'' e))
             else events_view svc intent shown
       }
   }"

definition GetAircraftMapView :: "'w LiveService \<Rightarrow> string \<Rightarrow> int \<Rightarrow> ('w, AircraftMapView result) srv" where
  "GetAircraftMapView svc aircraftID limit = do {
     read \<leftarrow> fleet_read svc (GetAircraft aircraftID);
     case read of
       Inl e \<Rightarrow> State_Monad.return (Inl (wrap ''get aircraft'' e))
     | Inr aircraft \<Rightarrow> do {
         live \<leftarrow> composeLiveAircraft svc [aircraft];
         queried \<leftarrow> lv_QueryAircraftSamples svc (ac_ID aircraft) limit;
         case queried of
           Inl e \<Rightarrow> State_Monad.return (Inl (wrap ''query aircraft samples'' e))
         | Inr replaySamples \<Rightarrow> do {
             read \<leftarrow> activeIntent svc (ac_ID aircraft);
             case read of
               Inl e \<Rightarrow> State_Monad.return (Inl e)
             | Inr None \<Rightarrow> State_Monad.return (Inr (bare_view aircraft (live ! 0) replaySamples))
             | Inr (Some intent) \<Rightarrow> mission_view svc (ac_ID aircraft) intent (bare_view aircraft (live ! 0) replaySamples)
           }
       }
   }"

subsection \<open>Flights\<close>

definition service_ListFlightRecords :: "'w LiveService \<Rightarrow> string \<Rightarrow> ('w, FlightRecord list result) srv" where
  "service_ListFlightRecords svc aircraftID = do {
     read \<leftarrow> fleet_read svc (GetAircraft aircraftID);
     case read of
       Inl e \<Rightarrow> State_Monad.return (Inl (wrap ''get aircraft'' e))
     | Inr _ \<Rightarrow> do {
         read \<leftarrow> fleet_read svc (ListFlightRecords aircraftID);
         State_Monad.return (case read of Inl e \<Rightarrow> Inl (wrap ''list flight records'' e) | Inr flights \<Rightarrow> Inr flights)
       }
   }"

definition service_GetFlightRecord :: "'w LiveService \<Rightarrow> string \<Rightarrow> ('w, FlightRecord result) srv" where
  "service_GetFlightRecord svc flightID = do {
     read \<leftarrow> fleet_read svc (GetFlightRecord flightID);
     State_Monad.return (case read of Inl e \<Rightarrow> Inl (wrap ''get flight record'' e) | Inr flight \<Rightarrow> Inr flight)
   }"

definition replay_events ::
  "'w LiveService \<Rightarrow> string \<Rightarrow> (ConformanceEvent list \<Rightarrow> ReplayResponse) \<Rightarrow> ('w, ReplayResponse result) srv" where
  "replay_events svc flightID response = do {
     read \<leftarrow> fleet_read svc (ListConformanceEvents flightID);
     State_Monad.return (case read of Inl e \<Rightarrow> Inl (wrap ''list conformance events'' e) | Inr events \<Rightarrow> Inr (response events))
   }"

definition GetFlightReplay :: "'w LiveService \<Rightarrow> string \<Rightarrow> int \<Rightarrow> ('w, ReplayResponse result) srv" where
  "GetFlightReplay svc flightID limit = do {
     read \<leftarrow> service_GetFlightRecord svc flightID;
     case read of
       Inl e \<Rightarrow> State_Monad.return (Inl e)
     | Inr flight \<Rightarrow> do {
         found_manifest \<leftarrow> lv_GetReplayManifest svc flightID;
         case found_manifest of
           Inl e \<Rightarrow> State_Monad.return (Inl (wrap ''get replay manifest'' e))
         | Inr manifest \<Rightarrow> do {
             queried \<leftarrow> lv_QueryFlightSamples svc flightID limit;
             case queried of
               Inl e \<Rightarrow> State_Monad.return (Inl (wrap ''query flight samples'' e))
             | Inr samples \<Rightarrow> replay_events svc flightID (\<lambda>events.
                 \<lparr>rr_Flight = flight, rr_ReplayManifest = manifest, rr_Samples = samples, rr_ConformanceEvents = events\<rparr>)
           }
       }
   }"

subsection \<open>One aircraft at a time\<close>

text \<open>The connection of one aircraft, given what the Registry answers for it.\<close>

definition connection_of ::
  "'w LiveService \<Rightarrow> time \<Rightarrow> Agent option list result \<Rightarrow> AgentPlacement option result \<Rightarrow> Aircraft \<Rightarrow> LiveAircraftState" where
  "connection_of svc now agents placement item =
     (if ac_AgentID item = [] then unmapped_state item
      else case agents of
        Inl _ \<Rightarrow> (unmapped_state item)\<lparr>las_ConnectionStatus := ConnectionStatusUnavailable\<rparr>
      | Inr response \<Rightarrow>
          (case heartbeat_state (lv_registryFreshness svc) (agents_by_id response) now (unmapped_state item) of
             (state, lookup) \<Rightarrow> if lookup then placed_state (lv_notFound svc) placement state else state))"

text \<open>A store that nobody writes while the service reads it.\<close>

definition calm :: "Store \<Rightarrow> 'w LiveService \<Rightarrow> bool" where
  "calm s svc \<longleftrightarrow> keeps (\<lambda>t. t = s) (fs_now (lv_fleet svc)) \<and> keeps (\<lambda>t. t = s) (fs_others (lv_fleet svc))
     \<and> keeps (\<lambda>t. t = s) (lv_ListAgents svc) \<and> (\<forall>a. keeps (\<lambda>t. t = s) (lv_GetAgentPlacement svc a))
     \<and> (\<forall>ids. keeps (\<lambda>t. t = s) (lv_GetLatestAircraftStates svc ids))
     \<and> (\<forall>a n. keeps (\<lambda>t. t = s) (lv_QueryAircraftSamples svc a n))"

text \<open>What the store says of an aircraft: its battery, and open critical maintenance in any letter case.\<close>

definition installed_battery :: "string \<Rightarrow> Store \<Rightarrow> Battery option" where
  "installed_battery aircraftID s =
     (case GetActiveBatteryInstallation aircraftID s of
        Inr (Some inst) \<Rightarrow> map_of (s_batteries s) (bi_BatteryID inst)
      | _ \<Rightarrow> None)"

definition grounded :: "string \<Rightarrow> Store \<Rightarrow> bool" where
  "grounded aircraftID s \<longleftrightarrow> (\<exists>e \<in> set (s_maintenanceEvents s). me_AircraftID e = aircraftID
     \<and> is_critical (me_Severity e) \<and> me_ResolvedAt e = None)"

definition current_intents :: "string \<Rightarrow> IntentStatus \<Rightarrow> Store \<Rightarrow> OperationalIntent set" where
  "current_intents aircraftID status s =
     {i. latestOperationalIntent s (oi_ID i) = Some i \<and> oi_AircraftID i = aircraftID \<and> oi_Status i = status}"

definition shown_intent :: "string \<Rightarrow> Store \<Rightarrow> OperationalIntent option \<Rightarrow> bool" where
  "shown_intent a s r \<longleftrightarrow>
     (if current_intents a IntentStatusActive s \<noteq> {} then \<exists>i \<in> current_intents a IntentStatusActive s. r = Some i
      else if current_intents a IntentStatusAccepted s \<noteq> {} then \<exists>i \<in> current_intents a IntentStatusAccepted s. r = Some i
      else r = None)"

definition shows_version :: "Store \<Rightarrow> string \<Rightarrow> OperationalIntent \<Rightarrow> AircraftMapView \<Rightarrow> bool" where
  "shows_version s a i v \<longleftrightarrow> mv_ActiveIntent v = Some i
     \<and> set (mv_OperationalVolumes v) = {x. current_volume i s x}
     \<and> set (mv_ConformanceEvents v) = {e \<in> set (s_conformanceEvents s). cev_IntentID e = oi_ID i \<and> cev_IntentVersion e = oi_Version i}
     \<and> conformanceSummaryForVersion s i = Inr (mv_ConformanceSummary v)
     \<and> (\<forall>m. mv_CommandedMission v = Some m \<longleftrightarrow> GetDeployedMissionForActiveFlight a (oi_ID i) (oi_Version i) s = Inr m)"

definition any_job_order :: "'w LiveService \<Rightarrow> bool" where
  "any_job_order svc \<longleftrightarrow> (\<forall>n. distinct (lv_jobOrder svc n) \<and> set (lv_jobOrder svc n) = {0..<n})"

subsection \<open>A small fleet\<close>

definition small_fleet :: "unit LiveService" where
  "small_fleet = \<lparr>lv_fleet = sample_fleet,
     lv_ListAgents = State_Monad.return (Inr [None, Some \<lparr>agt_AgentId = ''agent-1'', agt_LastHeartbeatUnixMs = 1000\<rparr>]),
     lv_GetAgentPlacement = (\<lambda>a. State_Monad.return (Inr (Some \<lparr>apl_AgentId = a, apl_RelayId = ''relay-1'', apl_LastUpdatedUnixMs = 0\<rparr>))),
     lv_BatchGetConformanceSummaries = (\<lambda>_. State_Monad.return (Inr None)),
     lv_notFound = (\<lambda>e. errors_Is e ErrNotFound),
     lv_jobOrder = (\<lambda>n. rev [0..<n]),
     lv_GetLatestAircraftStates = (\<lambda>_. State_Monad.return (Inr [])),
     lv_QueryAircraftSamples = (\<lambda>_ _. State_Monad.return (Inr [])),
     lv_QueryFlightSamples = (\<lambda>_ _. State_Monad.return (Inr [])),
     lv_GetReplayManifest = (\<lambda>_. State_Monad.return (Inr None)),
     lv_registryFreshness = 30 * second, lv_telemetryFreshness = 15 * second\<rparr>"

definition mapped_aircraft :: Aircraft where
  "mapped_aircraft = fit_aircraft\<lparr>ac_AgentID := ''agent-1''\<rparr>"

text \<open>A fleet with a critical maintenance event whose severity is written with a capital letter.\<close>

definition capital_event :: MaintenanceEvent where
  "capital_event = \<lparr>me_ID = ''mx-1'', me_OperatorID = [], me_AircraftID = ''uav-1'', me_IntentID = [], me_EventType = ''rotor'',
     me_Severity = SeverityOther ''Critical'', me_Status = MaintenanceStatusOpen, me_Title = [], me_Notes = [], me_Owner = [],
     me_DueAt = None, me_CorrectiveAction = [], me_OpenedAt = 1, me_ResolvedAt = None, me_ReturnToServiceAt = None,
     me_ReturnToServiceBy = []\<rparr>"

definition capital_store :: Store where
  "capital_store = (fleet_store 90 [])\<lparr>s_maintenanceEvents := [capital_event]\<rparr>"

definition map_store :: Store where
  "map_store = flying_store\<lparr>s_aircraft := [(''uav-1'', mapped_aircraft)]\<rparr>"

section \<open>Lemmas\<close>

subsection \<open>Connections\<close>

lemma run_jobs_answers:
  assumes "distinct jobs" and "set jobs \<subseteq> {0..<length results}"
    and "run_state (run_jobs svc lookups jobs results) \<sigma> = (answers, \<sigma>')"
  shows "length answers = length results
    \<and> (\<forall>i \<in> set jobs. \<exists>\<sigma>1. answers ! i = fst (run_state (lv_GetAgentPlacement svc (plk_agentID (lookups ! i))) \<sigma>1))
    \<and> (\<forall>i. i \<notin> set jobs \<longrightarrow> answers ! i = results ! i)"
  using assms
proof (induction jobs arbitrary: results \<sigma>)
  case (Cons job jobs)
  obtain r \<sigma>1 where r: "run_state (lv_GetAgentPlacement svc (plk_agentID (lookups ! job))) \<sigma> = (r, \<sigma>1)"
    by (cases "run_state (lv_GetAgentPlacement svc (plk_agentID (lookups ! job))) \<sigma>")
  have "run_state (run_jobs svc lookups jobs (results[job := r])) \<sigma>1 = (answers, \<sigma>')"
    using Cons.prems(3) r by simp
  with Cons.IH [of "results[job := r]" \<sigma>1] Cons.prems(1,2) have IH: "length answers = length results"
    "\<forall>i \<in> set jobs. \<exists>\<sigma>1. answers ! i = fst (run_state (lv_GetAgentPlacement svc (plk_agentID (lookups ! i))) \<sigma>1)"
    "\<And>i. i \<notin> set jobs \<Longrightarrow> answers ! i = results[job := r] ! i" by auto
  moreover have "answers ! job = fst (run_state (lv_GetAgentPlacement svc (plk_agentID (lookups ! job))) \<sigma>)"
    using IH(3) [of job] Cons.prems(1,2) r by simp
  ultimately show ?case by (auto simp del: split_paired_Ex)
qed simp

lemma place_all_length: "length (place_all notFound jobs states) = length states"
  by (induction jobs arbitrary: states) auto

lemma place_all_other:
  "i \<notin> plk_resultIndex ` fst ` set jobs \<Longrightarrow> place_all notFound jobs states ! i = states ! i"
  by (induction jobs arbitrary: states) auto

lemma place_all_nth:
  assumes "distinct (map (plk_resultIndex \<circ> fst) jobs)" and "(lookup, answer) \<in> set jobs"
    and "plk_resultIndex lookup < length states"
  shows "place_all notFound jobs states ! plk_resultIndex lookup = placed_state notFound answer (states ! plk_resultIndex lookup)"
  using assms
proof (induction jobs arbitrary: states)
  case (Cons job jobs)
  obtain l a where job: "job = (l, a)" by (cases job)
  show ?case
  proof (cases "(lookup, answer) = (l, a)")
    case True
    with Cons.prems job have "plk_resultIndex lookup \<notin> plk_resultIndex ` fst ` set jobs" by (auto simp: image_image)
    with True Cons.prems(3) job show ?thesis by (simp add: place_all_other)
  next
    case False
    with Cons.prems job have i: "(lookup, answer) \<in> set jobs" by auto
    with Cons.prems(1) job have "plk_resultIndex l \<noteq> plk_resultIndex lookup" by force
    with Cons.IH [OF _ i, of "states[plk_resultIndex l := placed_state notFound a (states ! plk_resultIndex l)]"] Cons.prems job
    show ?thesis by simp
  qed
qed simp

lemma lookups_of_index: "map plk_resultIndex (lookups_of seen) = filter (\<lambda>i. snd (seen ! i)) [0..<length seen]"
  by (simp add: lookups_of_def o_def)

lemma lookups_of_agent: "lookup \<in> set (lookups_of seen) \<Longrightarrow> plk_agentID lookup = las_AgentID (fst (seen ! plk_resultIndex lookup))"
  by (auto simp: lookups_of_def)

lemma heartbeat_state_agent:
  "las_AgentID (fst (heartbeat_state freshness agents now state)) = las_AgentID state"
  by (simp add: heartbeat_state_def Let_def split: option.split)

text \<open>Placing the answers of all jobs is placing each state by the answer for its agent.\<close>

lemma place_all_pointwise:
  assumes answers: "length answers = length (lookups_of seen)" and i: "i < length seen"
    and each: "\<And>j. j < length answers \<Longrightarrow> answers ! j = ask (plk_agentID (lookups_of seen ! j)) j"
  shows "\<exists>j. place_all notFound (zip (lookups_of seen) answers) (map fst seen) ! i =
    (if snd (seen ! i) then placed_state notFound (ask (las_AgentID (fst (seen ! i))) j) (fst (seen ! i)) else fst (seen ! i))"
proof (cases "snd (seen ! i)")
  case True
  have "i \<in> set (map plk_resultIndex (lookups_of seen))" using True i by (simp add: lookups_of_index)
  then obtain j where j: "j < length (lookups_of seen)" "plk_resultIndex (lookups_of seen ! j) = i"
    by (auto simp: in_set_conv_nth)
  have "distinct (map (plk_resultIndex \<circ> fst) (zip (lookups_of seen) answers))"
    using answers by (simp add: map_map [symmetric] lookups_of_index del: map_map)
  moreover have "(lookups_of seen ! j, answers ! j) \<in> set (zip (lookups_of seen) answers)"
    using j answers by (auto simp: in_set_zip)
  ultimately have "place_all notFound (zip (lookups_of seen) answers) (map fst seen) ! i
      = placed_state notFound (answers ! j) (map fst seen ! i)"
    using place_all_nth [of "zip (lookups_of seen) answers" "lookups_of seen ! j" "answers ! j" "map fst seen"] j i by simp
  with each [of j] j answers i True lookups_of_agent [of "lookups_of seen ! j" seen] show ?thesis by auto
next
  case False
  then have "i \<notin> set (map plk_resultIndex (lookups_of seen))" by (simp add: lookups_of_index)
  then have "i \<notin> plk_resultIndex ` fst ` set (zip (lookups_of seen) answers)" by (auto dest: set_zip_leftD)
  with place_all_other [of i "zip (lookups_of seen) answers" notFound "map fst seen"] False i show ?thesis by simp
qed

lemma lookup_answers:
  assumes "any_job_order svc" and run: "run_state (lookupPlacements svc lookups) \<sigma> = (answers, \<sigma>')"
  obtains asked where "length answers = length lookups"
    and "\<And>j. j < length answers \<Longrightarrow> answers ! j = fst (run_state (lv_GetAgentPlacement svc (plk_agentID (lookups ! j))) (asked j))"
proof -
  from assms(1) have "distinct (lv_jobOrder svc (length lookups))" and jobs: "set (lv_jobOrder svc (length lookups)) = {0..<length lookups}"
    by (auto simp: any_job_order_def)
  then have "length answers = length lookups
      \<and> (\<forall>i \<in> {0..<length lookups}. \<exists>\<sigma>1. answers ! i = fst (run_state (lv_GetAgentPlacement svc (plk_agentID (lookups ! i))) \<sigma>1))"
    using run_jobs_answers [OF _ _ run [unfolded lookupPlacements_def]] by simp
  then obtain asked where "length answers = length lookups"
    "\<forall>i \<in> {0..<length lookups}. answers ! i = fst (run_state (lv_GetAgentPlacement svc (plk_agentID (lookups ! i))) (asked i))"
    unfolding bchoice_iff by blast
  then show ?thesis using that [of asked] by simp
qed

lemma connections_pointwise:
  assumes order: "any_job_order svc" and run: "run_state (composeAircraftConnections svc aircraft now) \<sigma> = (states, \<sigma>')"
  shows "length states = length aircraft \<and> (\<forall>i < length aircraft. \<exists>\<sigma>1. states ! i =
    connection_of svc now (fst (run_state (lv_ListAgents svc) \<sigma>))
      (fst (run_state (lv_GetAgentPlacement svc (ac_AgentID (aircraft ! i))) \<sigma>1)) (aircraft ! i))"
proof (cases "list_ex (\<lambda>item. ac_AgentID item \<noteq> []) aircraft")
  case False
  with run have "states = map unmapped_state aircraft" by (simp add: composeAircraftConnections_def)
  with False show ?thesis by (auto simp: connection_of_def list_ex_iff)
next
  case True
  obtain agents \<sigma>1 where agents: "run_state (lv_ListAgents svc) \<sigma> = (agents, \<sigma>1)" by (cases "run_state (lv_ListAgents svc) \<sigma>")
  show ?thesis
  proof (cases agents)
    case (Inl e)
    with run True agents have "states = map (\<lambda>state. if las_AgentID state \<noteq> []
        then state\<lparr>las_ConnectionStatus := ConnectionStatusUnavailable\<rparr> else state) (map unmapped_state aircraft)"
      by (simp add: composeAircraftConnections_def Let_def del: map_map)
    with agents Inl show ?thesis by (auto simp: connection_of_def unmapped_state_def)
  next
    case (Inr response)
    define seen where "seen = map (heartbeat_state (lv_registryFreshness svc) (agents_by_id response) now) (map unmapped_state aircraft)"
    obtain answers \<sigma>2 where looked: "run_state (lookupPlacements svc (lookups_of seen)) \<sigma>1 = (answers, \<sigma>2)"
      by (cases "run_state (lookupPlacements svc (lookups_of seen)) \<sigma>1")
    have states: "states = place_all (lv_notFound svc) (zip (lookups_of seen) answers) (map fst seen)"
      using run True agents Inr looked by (simp add: composeAircraftConnections_def seen_def Let_def del: map_map)
    obtain asked where answers: "length answers = length (lookups_of seen)"
      "\<And>j. j < length answers \<Longrightarrow> answers ! j = fst (run_state (lv_GetAgentPlacement svc (plk_agentID (lookups_of seen ! j))) (asked j))"
      by (rule lookup_answers [OF order looked]) blast
    have "\<exists>\<sigma>1. states ! i = connection_of svc now agents
        (fst (run_state (lv_GetAgentPlacement svc (ac_AgentID (aircraft ! i))) \<sigma>1)) (aircraft ! i)"
      if i: "i < length aircraft" for i
    proof -
      let ?ask = "\<lambda>agent j. fst (run_state (lv_GetAgentPlacement svc agent) (asked j))"
      obtain j where "states ! i = (if snd (seen ! i)
          then placed_state (lv_notFound svc) (?ask (las_AgentID (fst (seen ! i))) j) (fst (seen ! i)) else fst (seen ! i))"
        using place_all_pointwise [where ask = ?ask, OF answers(1) _ answers(2)] i states by (auto simp: seen_def)
      moreover have "seen ! i = heartbeat_state (lv_registryFreshness svc) (agents_by_id response) now (unmapped_state (aircraft ! i))"
        using i by (simp add: seen_def)
      moreover have "ac_AgentID (aircraft ! i) = [] \<Longrightarrow> seen ! i = (unmapped_state (aircraft ! i), False)"
        using i by (simp add: seen_def heartbeat_state_def unmapped_state_def)
      moreover have "las_AgentID (fst (seen ! i)) = ac_AgentID (aircraft ! i)"
        using i by (simp add: seen_def heartbeat_state_agent unmapped_state_def)
      ultimately show ?thesis using Inr
        by (auto simp: connection_of_def case_prod_beta simp del: split_paired_Ex intro!: exI [of _ "asked j"])
    qed
    with states agents show ?thesis by (simp add: place_all_length seen_def)
  qed
qed

lemma connection_of_connected:
  "las_Connected (connection_of svc now agents placement item) \<longleftrightarrow>
     ac_AgentID item \<noteq> [] \<and> (\<exists>response agent p. agents = Inr response
       \<and> map_of (agents_by_id response) (ac_AgentID item) = Some agent
       \<and> freshAt (unixMillis (agt_LastHeartbeatUnixMs agent)) now (lv_registryFreshness svc)
       \<and> placement = Inr (Some p) \<and> apl_RelayId p \<noteq> [])"
  by (auto simp: connection_of_def unmapped_state_def zero_LiveAircraftState_def heartbeat_state_def placed_state_def Let_def
      split: sum.splits option.splits if_splits)

lemma connection_of_status:
  "las_ConnectionStatus (connection_of svc now agents placement item) = ConnectionStatusConnected \<longleftrightarrow>
     las_Connected (connection_of svc now agents placement item)"
  by (auto simp: connection_of_def unmapped_state_def zero_LiveAircraftState_def heartbeat_state_def placed_state_def Let_def
      split: sum.splits option.splits if_splits)

text \<open>
  C20: the live connections of a fleet are judged one aircraft at a time. Whatever order the parallel
  workers look placements up in, and whatever other requests do meanwhile, the state of each aircraft is
  the one that follows from the listed agents and an answer of the Registry for its own agent; it is
  connected exactly when the agent is listed with a fresh heartbeat and the Registry placed it at a Relay.
\<close>

theorem connections_judged_one_by_one:
  assumes "any_job_order svc" and "run_state (composeAircraftConnections svc aircraft now) \<sigma> = (states, \<sigma>')"
  shows "length states = length aircraft \<and> (\<forall>i < length aircraft. \<exists>\<sigma>1.
    let agents = fst (run_state (lv_ListAgents svc) \<sigma>);
        placement = fst (run_state (lv_GetAgentPlacement svc (ac_AgentID (aircraft ! i))) \<sigma>1) in
    states ! i = connection_of svc now agents placement (aircraft ! i)
    \<and> (las_ConnectionStatus (states ! i) = ConnectionStatusConnected \<longleftrightarrow> las_Connected (states ! i))
    \<and> (las_Connected (states ! i) \<longleftrightarrow> ac_AgentID (aircraft ! i) \<noteq> [] \<and> (\<exists>response agent p. agents = Inr response
       \<and> map_of (agents_by_id response) (ac_AgentID (aircraft ! i)) = Some agent
       \<and> freshAt (unixMillis (agt_LastHeartbeatUnixMs agent)) now (lv_registryFreshness svc)
       \<and> placement = Inr (Some p) \<and> apl_RelayId p \<noteq> [])))"
proof (intro conjI allI impI)
  note each = connections_pointwise [OF assms]
  show "length states = length aircraft" using each by blast
  fix i assume "i < length aircraft"
  with each obtain \<sigma>1 where "states ! i = connection_of svc now (fst (run_state (lv_ListAgents svc) \<sigma>))
      (fst (run_state (lv_GetAgentPlacement svc (ac_AgentID (aircraft ! i))) \<sigma>1)) (aircraft ! i)" by blast
  then show "\<exists>\<sigma>1. let agents = fst (run_state (lv_ListAgents svc) \<sigma>);
        placement = fst (run_state (lv_GetAgentPlacement svc (ac_AgentID (aircraft ! i))) \<sigma>1) in
    states ! i = connection_of svc now agents placement (aircraft ! i)
    \<and> (las_ConnectionStatus (states ! i) = ConnectionStatusConnected \<longleftrightarrow> las_Connected (states ! i))
    \<and> (las_Connected (states ! i) \<longleftrightarrow> ac_AgentID (aircraft ! i) \<noteq> [] \<and> (\<exists>response agent p. agents = Inr response
       \<and> map_of (agents_by_id response) (ac_AgentID (aircraft ! i)) = Some agent
       \<and> freshAt (unixMillis (agt_LastHeartbeatUnixMs agent)) now (lv_registryFreshness svc)
       \<and> placement = Inr (Some p) \<and> apl_RelayId p \<noteq> []))"
    by (intro exI [of _ \<sigma>1]) (simp only: Let_def connection_of_status connection_of_connected)
qed

subsection \<open>Readiness\<close>

lemma critical_reasons_Nil:
  "critical_reasons events = [] \<longleftrightarrow> (\<forall>e \<in> set events. is_critical (me_Severity e) \<longrightarrow> me_ResolvedAt e \<noteq> None)"
  by (auto simp: critical_reasons_def filter_empty_conv)

lemma readiness_blocked:
  "rd_Status (CalculateReadiness battery events live) = ReadinessStatusBlocked \<longleftrightarrow>
     (\<exists>e \<in> set events. is_critical (me_Severity e) \<and> me_ResolvedAt e = None)"
  using critical_reasons_Nil [of events]
  by (auto simp: CalculateReadiness_def Let_def split: option.splits)

lemma readiness_ready:
  "rd_Status (CalculateReadiness battery events live) = ReadinessStatusReady \<longleftrightarrow>
     (\<forall>e \<in> set events. is_critical (me_Severity e) \<longrightarrow> me_ResolvedAt e \<noteq> None)
     \<and> (\<exists>b soh. battery = Some b \<and> bat_StateOfHealth b = Some soh \<and> 80 \<le> soh) \<and> live"
  using critical_reasons_Nil [of events]
  by (auto simp: CalculateReadiness_def Let_def split: option.splits)

lemma readiness_known: "rd_Status (CalculateReadiness battery events live) \<noteq> ReadinessStatusUnknown"
  by (auto simp: CalculateReadiness_def Let_def split: option.splits)

subsection \<open>Reading a calm store\<close>

lemma calm_read:
  assumes "calm s svc"
  obtains w' where "run_state (fleet_read svc f) (s, w) = (f s, (s, w'))"
proof -
  have "keeps (\<lambda>t. t = s) (fs_others (lv_fleet svc))" using assms by (simp add: calm_def)
  then show ?thesis by (rule store_read_run [of "\<lambda>t. t = s" _ s f w]) (simp_all add: fleet_read_def that)
qed

lemma keeps_run_jobs:
  "(\<And>a. keeps I (lv_GetAgentPlacement svc a)) \<Longrightarrow> keeps I (run_jobs svc lookups jobs results)"
  by (induction jobs arbitrary: results) (auto intro: keeps_bind)

lemma calm_compose: "calm s svc \<Longrightarrow> keeps (\<lambda>t. t = s) (composeLiveAircraft svc aircraft)"
  by (auto simp: calm_def composeLiveAircraft_def composeAircraftConnections_def composeAircraftTelemetry_def
      lookupPlacements_def Let_def intro!: keeps_bind keeps_run_jobs split: sum.split)

text \<open>The live state of a single aircraft.\<close>

lemma compose_one_run:
  assumes order: "any_job_order svc" and calm: "calm s svc"
  obtains live w' now \<sigma>1 \<sigma>2 where "run_state (composeLiveAircraft svc [ac]) (s, w) = ([live], (s, w'))"
    and "als_Connection live = connection_of svc now (fst (run_state (lv_ListAgents svc) \<sigma>1))
      (fst (run_state (lv_GetAgentPlacement svc (ac_AgentID ac)) \<sigma>2)) ac"
    and "now = fst (run_state (fs_now (lv_fleet svc)) (s, w))"
proof -
  obtain now \<sigma>1 where r1: "run_state (fs_now (lv_fleet svc)) (s, w) = (now, \<sigma>1)" by (cases "run_state (fs_now (lv_fleet svc)) (s, w)")
  obtain cs \<sigma>3 where r2: "run_state (composeAircraftConnections svc [ac] now) \<sigma>1 = (cs, \<sigma>3)"
    by (cases "run_state (composeAircraftConnections svc [ac] now) \<sigma>1")
  obtain ts s' w' where r3: "run_state (composeAircraftTelemetry svc [ac_ID ac] now) \<sigma>3 = (ts, (s', w'))"
    by (cases "run_state (composeAircraftTelemetry svc [ac_ID ac] now) \<sigma>3") auto
  have "length ts = 1" using r3 by (auto simp: composeAircraftTelemetry_def split: prod.splits)
  then obtain t where t: "ts = [t]" by (cases ts) auto
  note each = connections_pointwise [OF order r2]
  have "length cs = 1" using each [THEN conjunct1] by simp
  then obtain c where cs: "cs = [c]" by (cases cs) simp_all
  have "0 < length [ac]" by simp
  from each [THEN conjunct2, THEN spec, THEN mp, OF this] obtain \<sigma>2 where
    "cs ! 0 = connection_of svc now (fst (run_state (lv_ListAgents svc) \<sigma>1))
      (fst (run_state (lv_GetAgentPlacement svc (ac_AgentID ([ac] ! 0))) \<sigma>2)) ([ac] ! 0)" ..
  with cs have c: "c = connection_of svc now (fst (run_state (lv_ListAgents svc) \<sigma>1)) (fst (run_state (lv_GetAgentPlacement svc (ac_AgentID ac)) \<sigma>2)) ac"
    by simp
  let ?live = "\<lparr>als_AircraftID = ac_ID ac, als_OperatorID = ac_OperatorID ac, als_AgentID = ac_AgentID ac,
    als_Connection = c, als_Telemetry = t\<rparr>"
  have run: "run_state (composeLiveAircraft svc [ac]) (s, w) = ([?live], (s', w'))"
    using r1 r2 r3 t cs by (simp add: composeLiveAircraft_def)
  have s': "s' = s" by (rule keeps_run [OF calm_compose [OF calm] run refl])
  show ?thesis
  proof (rule that)
    show "run_state (composeLiveAircraft svc [ac]) (s, w) = ([?live], (s, w'))" using run s' by simp
    show "als_Connection ?live = connection_of svc now (fst (run_state (lv_ListAgents svc) \<sigma>1))
        (fst (run_state (lv_GetAgentPlacement svc (ac_AgentID ac)) \<sigma>2)) ac" by (simp add: c)
    show "now = fst (run_state (fs_now (lv_fleet svc)) (s, w))" by (simp add: r1)
  qed
qed

lemma calm_battery:
  assumes "calm s svc"
  obtains w' where "run_state (activeBattery svc a) (s, w) = (Inr (installed_battery a s), (s, w'))"
proof -
  obtain w1 where r1: "run_state (fleet_read svc (GetActiveBatteryInstallation a)) (s, w) = (GetActiveBatteryInstallation a s, (s, w1))"
    by (rule calm_read [OF assms])
  obtain inst where inst: "GetActiveBatteryInstallation a s = Inr inst" by (simp add: GetActiveBatteryInstallation_def)
  show ?thesis
  proof (cases inst)
    case None
    with r1 inst that [of w1] show ?thesis by (simp add: activeBattery_def installed_battery_def)
  next
    case (Some i)
    obtain w2 where "run_state (fleet_read svc (GetBattery (bi_BatteryID i))) (s, w1) = (GetBattery (bi_BatteryID i) s, (s, w2))"
      by (rule calm_read [OF assms])
    with r1 inst Some that [of w2] show ?thesis
      by (simp add: activeBattery_def installed_battery_def GetBattery_def found_def split: option.split)
  qed
qed

lemma calm_intent:
  assumes "calm s svc"
  obtains w' where "run_state (intentByStatus svc a status) (s, w) = (pick_by_status status (ListOperationalIntents a s), (s, w'))"
proof -
  obtain w1 where "run_state (fleet_read svc (ListOperationalIntents a)) (s, w) = (ListOperationalIntents a s, (s, w1))"
    by (rule calm_read [OF assms])
  then show ?thesis using that [of w1] by (simp add: intentByStatus_def)
qed

text \<open>A picked intent is a current one, and one is picked when there is one.\<close>

interpretation planned_later: weak_order planned_later
  by unfold_locales (auto simp: planned_later_def split: if_splits)

lemma picked_intent:
  assumes "a \<noteq> []"
  obtains r where "pick_by_status status (ListOperationalIntents a s) = Inr r"
    and "r = None \<longleftrightarrow> current_intents a status s = {}" and "\<And>i. r = Some i \<Longrightarrow> i \<in> current_intents a status s"
    and "\<And>i j. r = Some i \<Longrightarrow> j \<in> current_intents a status s \<Longrightarrow> \<not> planned_later j i"
proof -
  obtain xs where xs: "ListOperationalIntents a s = Inr xs"
    "set xs = {i. GetOperationalIntent (oi_ID i) s = Inr i \<and> (a = [] \<or> oi_AircraftID i = a)}"
    using list_intents_lists_latest_versions [of a s] by blast
  let ?ys = "sort_slice planned_later (filter (\<lambda>i. oi_Status i = status) xs)"
  have ys: "set ?ys = current_intents a status s"
    using xs(2) assms by (auto simp: current_intents_def GetOperationalIntent_def found_def split: option.splits)
  have sorted: "sorted_wrt (\<lambda>x y. \<not> planned_later y x) ?ys" by (rule planned_later.sort_slice_sorted)
  show ?thesis
  proof (cases ?ys)
    case Nil
    then show ?thesis using that [of None] xs(1) ys by (simp add: pick_by_status_def)
  next
    case (Cons i zs)
    have "\<not> planned_later j i" if "j \<in> current_intents a status s" for j
    proof -
      have "j \<in> insert i (set zs)" using that ys Cons by simp
      moreover have "\<not> planned_later i i" by (simp add: planned_later_def)
      ultimately show ?thesis using sorted Cons by auto
    qed
    moreover have "i \<in> current_intents a status s" using ys Cons by auto
    ultimately show ?thesis using that [of "Some i"] xs(1) Cons by (auto simp: pick_by_status_def)
  qed
qed

lemma installed_battery_fit:
  "battery_fit a s \<longleftrightarrow> (\<exists>b health. installed_battery a s = Some b \<and> bat_StateOfHealth b = Some health \<and> 80 \<le> health)"
  by (cases "GetActiveBatteryInstallation a s")
    (auto simp: battery_fit_def installed_battery_def GetBattery_def found_def split: option.splits)

lemma listed_maintenance:
  assumes "a \<noteq> []"
  shows "\<exists>events. ListMaintenanceEvents a s = Inr events
    \<and> ((\<exists>e \<in> set events. is_critical (me_Severity e) \<and> me_ResolvedAt e = None) \<longleftrightarrow> grounded a s)"
  using assms by (auto simp: ListMaintenanceEvents_def grounded_def)

lemma calm_current_intent:
  assumes calm: "calm s svc" and "a \<noteq> []"
  obtains r w' where "run_state (currentIntent svc a) (s, w) = (Inr r, (s, w'))" and "shown_intent a s r"
proof -
  obtain w1 where r1: "run_state (intentByStatus svc a IntentStatusActive) (s, w)
      = (pick_by_status IntentStatusActive (ListOperationalIntents a s), (s, w1))" by (rule calm_intent [OF calm])
  obtain w2 where r2: "run_state (intentByStatus svc a IntentStatusAccepted) (s, w1)
      = (pick_by_status IntentStatusAccepted (ListOperationalIntents a s), (s, w2))" by (rule calm_intent [OF calm])
  obtain x where x: "pick_by_status IntentStatusActive (ListOperationalIntents a s) = Inr x"
    "x = None \<longleftrightarrow> current_intents a IntentStatusActive s = {}"
    "\<And>i. x = Some i \<Longrightarrow> i \<in> current_intents a IntentStatusActive s"
    using picked_intent [OF assms(2), of IntentStatusActive s] by metis
  obtain y where y: "pick_by_status IntentStatusAccepted (ListOperationalIntents a s) = Inr y"
    "y = None \<longleftrightarrow> current_intents a IntentStatusAccepted s = {}"
    "\<And>i. y = Some i \<Longrightarrow> i \<in> current_intents a IntentStatusAccepted s"
    using picked_intent [OF assms(2), of IntentStatusAccepted s] by metis
  show ?thesis
  proof (cases x)
    case None
    have "shown_intent a s y" using x(2) y(2,3) None by (cases y) (auto simp: shown_intent_def)
    with r1 r2 x(1) y(1) None that [of y w2] show ?thesis by (simp add: currentIntent_def)
  next
    case (Some i)
    have "shown_intent a s x" using x(2,3) Some by (auto simp: shown_intent_def)
    with r1 x(1) Some that [of x w1] show ?thesis by (simp add: currentIntent_def)
  qed
qed

lemma calm_dashboard:
  assumes calm: "calm s svc" and "ac_ID ac \<noteq> []"
  obtains d w' where "run_state (buildDashboard svc ac live) (s, w) = (Inr d, (s, w'))"
    and "ad_Aircraft d = ac" and "shown_intent (ac_ID ac) s (ad_CurrentIntent d)"
    and "ad_LiveStateAvailable d = las_Connected (als_Connection live)"
    and "rd_Status (ad_Readiness d) = ReadinessStatusBlocked \<longleftrightarrow> grounded (ac_ID ac) s"
    and "rd_Status (ad_Readiness d) = ReadinessStatusReady \<longleftrightarrow>
      \<not> grounded (ac_ID ac) s \<and> battery_fit (ac_ID ac) s \<and> las_Connected (als_Connection live)"
    and "rd_Status (ad_Readiness d) \<noteq> ReadinessStatusUnknown"
proof -
  obtain events where ev: "ListMaintenanceEvents (ac_ID ac) s = Inr events"
    "(\<exists>e \<in> set events. is_critical (me_Severity e) \<and> me_ResolvedAt e = None) \<longleftrightarrow> grounded (ac_ID ac) s"
    using listed_maintenance [OF assms(2), of s] by blast
  obtain w1 where r1: "run_state (activeBattery svc (ac_ID ac)) (s, w) = (Inr (installed_battery (ac_ID ac) s), (s, w1))"
    by (rule calm_battery [OF calm])
  obtain w2 where r2: "run_state (fleet_read svc (ListMaintenanceEvents (ac_ID ac))) (s, w1) = (ListMaintenanceEvents (ac_ID ac) s, (s, w2))"
    by (rule calm_read [OF calm])
  obtain r w3 where r3: "run_state (currentIntent svc (ac_ID ac)) (s, w2) = (Inr r, (s, w3))" and shown: "shown_intent (ac_ID ac) s r"
    by (rule calm_current_intent [OF assms])
  let ?d = "\<lparr>ad_Aircraft = ac, ad_ActiveBattery = installed_battery (ac_ID ac) s, ad_MaintenanceEvents = events,
    ad_LatestTelemetry = legacySample (ac_ID ac) (als_Telemetry live), ad_Telemetry = als_Telemetry live,
    ad_LiveState = Some (als_Connection live), ad_LiveStateAvailable = las_Connected (als_Connection live),
    ad_Readiness = CalculateReadiness (installed_battery (ac_ID ac) s) events (las_Connected (als_Connection live)),
    ad_CurrentIntent = r\<rparr>"
  show ?thesis
  proof (rule that [of ?d w3])
    show "run_state (buildDashboard svc ac live) (s, w) = (Inr ?d, (s, w3))"
      using r1 r2 r3 ev(1) by (simp add: buildDashboard_def Let_def)
  qed (use ev(2) shown in \<open>auto simp: readiness_blocked readiness_ready readiness_known installed_battery_fit\<close>)
qed

lemma stored_dashboard:
  assumes "any_job_order svc" and "calm s svc" and "GetAircraft a s = Inr ac" and "ac_ID ac = a" and "a \<noteq> []"
  shows "\<exists>d \<sigma>' \<sigma>1 \<sigma>2. run_state (GetAircraftDashboard svc a) (s, w) = (Inr d, \<sigma>') \<and> ad_Aircraft d = ac
    \<and> (rd_Status (ad_Readiness d) = ReadinessStatusBlocked \<longleftrightarrow> grounded a s)
    \<and> (rd_Status (ad_Readiness d) = ReadinessStatusReady \<longleftrightarrow> \<not> grounded a s \<and> battery_fit a s \<and> ad_LiveStateAvailable d)
    \<and> rd_Status (ad_Readiness d) \<noteq> ReadinessStatusUnknown
    \<and> (\<exists>now w1. now = fst (run_state (fs_now (lv_fleet svc)) (s, w1))
      \<and> ad_LiveStateAvailable d = las_Connected (connection_of svc now (fst (run_state (lv_ListAgents svc) \<sigma>1))
        (fst (run_state (lv_GetAgentPlacement svc (ac_AgentID ac)) \<sigma>2)) ac))
    \<and> shown_intent a s (ad_CurrentIntent d)"
proof -
  obtain w1 where r1: "run_state (fleet_read svc (GetAircraft a)) (s, w) = (GetAircraft a s, (s, w1))" by (rule calm_read [OF assms(2)])
  obtain live w2 now \<sigma>1 \<sigma>2 where r2: "run_state (composeLiveAircraft svc [ac]) (s, w1) = ([live], (s, w2))"
    and now: "now = fst (run_state (fs_now (lv_fleet svc)) (s, w1))"
    and live: "als_Connection live = connection_of svc now (fst (run_state (lv_ListAgents svc) \<sigma>1))
      (fst (run_state (lv_GetAgentPlacement svc (ac_AgentID ac)) \<sigma>2)) ac"
    by (rule compose_one_run [OF assms(1,2)])
  have "ac_ID ac \<noteq> []" using assms(4,5) by simp
  then show ?thesis
  proof (rule calm_dashboard [OF assms(2), where live = live and w = w2], goal_cases)
    case d: (1 d w')
    have "run_state (GetAircraftDashboard svc a) (s, w) = (Inr d, (s, w'))"
      using r1 r2 d(1) assms(3) by (simp add: GetAircraftDashboard_def)
    with d live now assms(4) show ?case by (intro exI [of _ d] exI [of _ "(s, w')"] exI [of _ \<sigma>1] exI [of _ \<sigma>2]) auto
  qed
qed

text \<open>
  C19: a dashboard calls an aircraft ready exactly when it is fit. While nobody writes the store,
  \<open>GetAircraftDashboard\<close> always answers for a stored aircraft. It shows it as blocked exactly when a critical
  maintenance event, in whatever letter case, is unresolved; as ready exactly when there is none, the
  installed battery has at least 80 percent health and the agent has a fresh heartbeat and a Relay; it
  never shows \<open>unknown\<close>. The intent shown is an active one, or an accepted one when none is active.
\<close>

theorem dashboard_ready_exactly:
  assumes "any_job_order svc" and "calm s svc" and "GetAircraft a s = Inr ac" and "ac_ID ac = a" and "a \<noteq> []"
  shows "\<exists>d \<sigma>' \<sigma>1 \<sigma>2. run_state (GetAircraftDashboard svc a) (s, w) = (Inr d, \<sigma>') \<and> ad_Aircraft d = ac
    \<and> (rd_Status (ad_Readiness d) = ReadinessStatusBlocked \<longleftrightarrow> grounded a s)
    \<and> (rd_Status (ad_Readiness d) = ReadinessStatusReady \<longleftrightarrow> \<not> grounded a s \<and> battery_fit a s \<and> ad_LiveStateAvailable d)
    \<and> rd_Status (ad_Readiness d) \<noteq> ReadinessStatusUnknown
    \<and> (\<exists>now w1. now = fst (run_state (fs_now (lv_fleet svc)) (s, w1))
      \<and> ad_LiveStateAvailable d = las_Connected (connection_of svc now (fst (run_state (lv_ListAgents svc) \<sigma>1))
        (fst (run_state (lv_GetAgentPlacement svc (ac_AgentID ac)) \<sigma>2)) ac))
    \<and> shown_intent a s (ad_CurrentIntent d)"
  by (rule stored_dashboard [OF assms])

subsection \<open>The map\<close>

lemma deployed_mission:
  assumes "GetDeployedMissionForActiveFlight a iid n s = Inr m"
  shows "\<exists>f d. f \<in> set (vals (s_flightRecords s)) \<and> fl_Status f = FlightStatusActive \<and> fl_AircraftID f = a
    \<and> fl_IntentID f = iid \<and> fl_IntentVersion f = n \<and> currentMissionForFlightLocked s (fl_ID f) = Some m
    \<and> d \<in> set (vals (s_missionDeployments s)) \<and> md_FlightID d = fl_ID f \<and> md_MissionID d = ms_ID m
    \<and> md_MissionDigest d = ms_MissionDigest m \<and> deployment_verified d"
proof -
  let ?fs = "filter (\<lambda>f. \<not> (fl_Status f \<noteq> FlightStatusActive \<or> fl_AircraftID f \<noteq> a
    \<or> fl_IntentID f \<noteq> iid \<or> fl_IntentVersion f \<noteq> n)) (vals (s_flightRecords s))"
  obtain f where f: "?fs = [f]" using assms by (auto simp: GetDeployedMissionForActiveFlight_def split: list.splits)
  then have "f \<in> set ?fs" by simp
  moreover obtain current where "currentMissionForFlightLocked s (fl_ID f) = Some current"
    using assms f by (auto simp: GetDeployedMissionForActiveFlight_def split: option.splits)
  ultimately show ?thesis using assms f
    by (auto simp: GetDeployedMissionForActiveFlight_def list_ex_iff split: if_splits)
qed

lemma calm_events:
  assumes calm: "calm s svc"
  obtains c events w' where "run_state (events_view svc i v) (s, w) =
      (Inr (v\<lparr>mv_ConformanceSummary := c, mv_ConformanceEvents := events\<rparr>), (s, w'))"
    and "conformanceSummaryForVersion s i = Inr c"
    and "set events = {e \<in> set (s_conformanceEvents s). cev_IntentID e = oi_ID i \<and> cev_IntentVersion e = oi_Version i}"
proof -
  obtain w1 where r1: "run_state (fleet_read svc (\<lambda>s. conformanceSummaryForVersion s i)) (s, w) = (conformanceSummaryForVersion s i, (s, w1))"
    by (rule calm_read [OF calm])
  obtain w2 where r2: "run_state (fleet_read svc (ListConformanceEvents [])) (s, w1) = (ListConformanceEvents [] s, (s, w2))"
    by (rule calm_read [OF calm])
  obtain c where c: "conformanceSummaryForVersion s i = Inr c"
    by (simp add: conformanceSummaryForVersion_def ListConformanceSummaries_def)
  obtain events where ev: "ListConformanceEvents [] s = Inr events" "set events = set (s_conformanceEvents s)"
    by (simp add: ListConformanceEvents_def)
  show ?thesis
    by (rule that [of "filter (\<lambda>e. cev_IntentID e = oi_ID i \<and> cev_IntentVersion e = oi_Version i) events" c w2])
      (use r1 r2 c ev in \<open>simp_all add: events_view_def\<close>)
qed

lemma calm_mission:
  assumes calm: "calm s svc" and "oi_ID i \<noteq> []" and "mv_CommandedMission v = None"
    and run: "run_state (mission_view svc a i v) (s, w) = (Inr v', \<sigma>')"
  shows "shows_version s a i v' \<and> mv_Aircraft v' = mv_Aircraft v"
proof -
  let ?vol = "ListOperationalVolumes (oi_ID i)" and ?dep = "GetDeployedMissionForActiveFlight a (oi_ID i) (oi_Version i)"
  obtain w1 where r1: "run_state (fleet_read svc ?vol) (s, w) = (?vol s, (s, w1))" by (rule calm_read [OF calm])
  obtain w2 where r2: "run_state (fleet_read svc ?dep) (s, w1) = (?dep s, (s, w2))" by (rule calm_read [OF calm])
  obtain vs where vs: "?vol s = Inr vs" "set (volumesForVersion vs (oi_Version i)) = {x. current_volume i s x}"
    using listed_for_version(1) [OF assms(2)] by blast
  let ?shown = "v\<lparr>mv_ActiveIntent := Some i, mv_OperationalVolumes := volumesForVersion vs (oi_Version i)\<rparr>"
  obtain u where u: "run_state (events_view svc i u) (s, w2) = (Inr v', \<sigma>')" "mv_Aircraft u = mv_Aircraft v"
    "mv_ActiveIntent u = Some i" "mv_OperationalVolumes u = volumesForVersion vs (oi_Version i)"
    "\<forall>m. mv_CommandedMission u = Some m \<longleftrightarrow> ?dep s = Inr m"
  proof (cases "?dep s")
    case (Inl e)
    with run r1 r2 vs(1) have "run_state (events_view svc i ?shown) (s, w2) = (Inr v', \<sigma>')"
      by (auto simp: mission_view_def split: if_splits)
    with Inl assms(3) that [of ?shown] show ?thesis by simp
  next
    case (Inr m)
    with run r1 r2 vs(1) have "run_state (events_view svc i (?shown\<lparr>mv_CommandedMission := Some m\<rparr>)) (s, w2) = (Inr v', \<sigma>')"
      by (auto simp: mission_view_def)
    with Inr that [of "?shown\<lparr>mv_CommandedMission := Some m\<rparr>"] show ?thesis by simp
  qed
  show ?thesis
  proof (rule calm_events [OF calm, of i u w2], goal_cases)
    case (1 c events w')
    then have "v' = u\<lparr>mv_ConformanceSummary := c, mv_ConformanceEvents := events\<rparr>" using u(1) by simp
    with 1(2,3) u(2-5) vs(2) show ?case by (simp add: shows_version_def)
  qed
qed


lemma small_fleet_calm: "any_job_order small_fleet" "calm s small_fleet"
  by (auto simp: any_job_order_def calm_def small_fleet_def sample_fleet_def)

theorem connections_judged_one_by_one_witness:
  "\<exists>states \<sigma>'. run_state (composeAircraftConnections small_fleet [mapped_aircraft, fit_aircraft] (unixMillis 2000)) (NewStore, ())
     = (states, \<sigma>') \<and> length states = 2 \<and> las_Connected (states ! 0) \<and> \<not> las_Connected (states ! 1)"
proof -
  obtain states \<sigma>' where run: "run_state (composeAircraftConnections small_fleet [mapped_aircraft, fit_aircraft] (unixMillis 2000)) (NewStore, ())
     = (states, \<sigma>')" by (cases "run_state (composeAircraftConnections small_fleet [mapped_aircraft, fit_aircraft] (unixMillis 2000)) (NewStore, ())")
  note each = connections_judged_one_by_one [OF small_fleet_calm(1) run]
  have "length states = 2" using each by simp
  moreover have "las_Connected (states ! 0)"
    using each [THEN conjunct2, THEN spec, of 0]
    by (simp add: mapped_aircraft_def fit_aircraft_def small_fleet_def agents_by_id_def freshAt_def unixMillis_def second_def Let_def
        connection_of_connected)
  moreover have "\<not> las_Connected (states ! 1)"
    using each [THEN conjunct2, THEN spec, of 1] by (simp add: fit_aircraft_def Let_def connection_of_connected)
  ultimately show ?thesis using run by blast
qed

lemma capital_grounded: "grounded ''uav-1'' capital_store"
  by (simp add: grounded_def capital_store_def capital_event_def) code_simp

theorem dashboard_ready_exactly_witness:
  "\<exists>d \<sigma>'. run_state (GetAircraftDashboard small_fleet ''uav-1'') (capital_store, ()) = (Inr d, \<sigma>')
     \<and> rd_Status (ad_Readiness d) = ReadinessStatusBlocked"
proof -
  have "GetAircraft ''uav-1'' capital_store = Inr fit_aircraft" "ac_ID fit_aircraft = ''uav-1''" "''uav-1'' \<noteq> []"
    by (simp_all add: capital_store_def fleet_store_def GetAircraft_def found_def fit_aircraft_def)
  from dashboard_ready_exactly [OF small_fleet_calm(1,2) this, of "()"]
  have "\<exists>d \<sigma>'. run_state (GetAircraftDashboard small_fleet ''uav-1'') (capital_store, ()) = (Inr d, \<sigma>')
      \<and> (rd_Status (ad_Readiness d) = ReadinessStatusBlocked \<longleftrightarrow> grounded ''uav-1'' capital_store)" by blast
  moreover have "grounded ''uav-1'' capital_store" by (rule capital_grounded)
  ultimately show ?thesis by blast
qed

lemma map_store_run:
  "\<exists>v \<sigma>'. run_state (GetAircraftMapView small_fleet ''uav-1'' 10) (map_store, ()) = (Inr v, \<sigma>')"
proof -
  have "case fst (run_state (GetAircraftMapView small_fleet ''uav-1'' 10) (map_store, ())) of Inl _ \<Rightarrow> False | Inr _ \<Rightarrow> True"
    by code_simp
  then show ?thesis by (cases "run_state (GetAircraftMapView small_fleet ''uav-1'' 10) (map_store, ())") (auto split: sum.splits)
qed


text \<open>
  C40: preflight and dashboard disagree about critical maintenance. With an unresolved maintenance event of
  severity \<open>Critical\<close>, in a letter case other than the constant of the code, the dashboard shows the
  aircraft as blocked, while the preflight evaluation finds nothing that blocks its intent.
\<close>

theorem critical_case_passes_preflight:
  "(\<exists>d \<sigma>'. run_state (GetAircraftDashboard small_fleet ''uav-1'') (capital_store, ()) = (Inr d, \<sigma>')
       \<and> rd_Status (ad_Readiness d) = ReadinessStatusBlocked)
   \<and> (\<exists>r \<sigma>'. run_state (EvaluateIntent quiet_preflight ''op-1'') (capital_store, ()) = (Inr r, \<sigma>') \<and> \<not> pe_Blocked r)"
proof
  have "GetAircraft ''uav-1'' capital_store = Inr fit_aircraft" "ac_ID fit_aircraft = ''uav-1''"
    by (simp_all add: capital_store_def fleet_store_def GetAircraft_def found_def fit_aircraft_def)
  then obtain d \<sigma>' where run: "run_state (GetAircraftDashboard small_fleet ''uav-1'') (capital_store, ()) = (Inr d, \<sigma>')"
    and "rd_Status (ad_Readiness d) = ReadinessStatusBlocked \<longleftrightarrow> grounded ''uav-1'' capital_store"
    using stored_dashboard [OF small_fleet_calm, of "''uav-1''" capital_store] by blast
  moreover have "grounded ''uav-1'' capital_store" by (rule capital_grounded)
  ultimately show "\<exists>d \<sigma>'. run_state (GetAircraftDashboard small_fleet ''uav-1'') (capital_store, ()) = (Inr d, \<sigma>')
       \<and> rd_Status (ad_Readiness d) = ReadinessStatusBlocked" by blast
next
  have "fit_to_fly accepted_intent capital_store"
    using fleet_store_fit [of 90 "[]"] by (auto simp: fit_to_fly_def capital_store_def capital_event_def critical_open_def
        current_volume_def GetAircraft_def battery_fit_def GetActiveBatteryInstallation_def GetBattery_def)
  then show "\<exists>r \<sigma>'. run_state (EvaluateIntent quiet_preflight ''op-1'') (capital_store, ()) = (Inr r, \<sigma>') \<and> \<not> pe_Blocked r"
    using evaluation_answers [of capital_store quiet_preflight "''op-1''" accepted_intent "()"] fleet_store_ok [of 90 "[]"]
    by (auto simp: accepted_intent_ids capital_store_def volumes_ok_def GetOperationalIntent_def latestOperationalIntent_def)
qed

subsection \<open>Freshness\<close>

lemma last_observed_max:
  "last_observed t obs = Some m \<Longrightarrow> (\<forall>x. t = Some x \<longrightarrow> x \<le> m) \<and> (\<forall>ob \<in> set obs. ob_RecordedAt ob \<le> m)
     \<and> (t = Some m \<or> m \<in> ob_RecordedAt ` set obs)"
  by (induction t obs rule: last_observed.induct) (fastforce split: option.splits if_splits)+

lemma last_observed_None: "last_observed t obs = None \<longleftrightarrow> t = None \<and> obs = []"
  by (induction t obs rule: last_observed.induct) (auto split: option.splits)

lemma present_mapped: "List.map_filter id (map (map_option f) xs) = map f (List.map_filter id xs)"
  by (induction xs) (auto simp: List.map_filter_simps split: option.split)

lemma observations_mapped: "observations (map_observations f state) = map f (observations state)"
proof -
  have "observations (map_observations f state) = List.map_filter id (map (map_option f)
     [map_option pt_Observation (ats_Position state), map_option bt_Observation (ats_Battery state),
      map_option vt_Observation (ats_Vehicle state), map_option st_Observation (ats_System state),
      map_option ht_Observation (ats_HUD state), map_option et_Observation (ats_ExtendedState state),
      map_option gt_Observation (ats_GPS state)])"
    unfolding observations_def map_observations_def by (simp add: option.map_comp o_def del: List.map_filter_simps)
  then show ?thesis unfolding present_mapped observations_def .
qed

text \<open>
  Telemetry is as fresh as its newest observation. A state without groups is missing; otherwise each
  group is fresh exactly when its own observation is within the window, the state carries the newest
  instant, and is fresh exactly when that one is in the window. If no observation is ahead of the clock by more
  than the window, the state is fresh exactly when some group is; one group from further ahead makes
  the state stale although others are fresh.
\<close>

theorem telemetry_freshness:
  assumes "ats_LastObservedAt state = None" and "observations state \<noteq> []"
  shows "let shown = applyTelemetryFreshness w state now; obs = observations state in
    observations shown = map (classify now w) obs
    \<and> (\<exists>t \<in> ob_RecordedAt ` set obs. ats_LastObservedAt shown = Some t \<and> (\<forall>ob \<in> set obs. ob_RecordedAt ob \<le> t)
        \<and> (ats_Status shown = DataFreshnessFresh \<longleftrightarrow> freshAt t now w)
        \<and> (t > now + w \<longrightarrow> ats_Status shown = DataFreshnessStale))
    \<and> ((\<forall>ob \<in> set obs. ob_RecordedAt ob \<le> now + w) \<and> (\<forall>ob \<in> set obs. 0 \<le> ob_RecordedAt ob) \<longrightarrow>
        (ats_Status shown = DataFreshnessFresh \<longleftrightarrow> (\<exists>ob \<in> set (observations shown). ob_Status ob = DataFreshnessFresh)))"
proof -
  let ?obs = "observations state"
  define shown where "shown = applyTelemetryFreshness w state now"
  obtain t where t: "last_observed None ?obs = Some t" using assms(2) last_observed_None [of None ?obs] by (cases "last_observed None ?obs") auto
  have max: "\<forall>ob \<in> set ?obs. ob_RecordedAt ob \<le> t" "t \<in> ob_RecordedAt ` set ?obs" using last_observed_max [OF t] by auto
  have obs: "observations shown = map (classify now w) ?obs"
    using assms(2) observations_mapped [of "classify now w" state]
    by (simp add: shown_def applyTelemetryFreshness_def Let_def) (simp add: observations_def)
  have st: "ats_LastObservedAt shown = Some t"
    "ats_Status shown = (if freshAt t now w then DataFreshnessFresh else DataFreshnessStale)"
    using assms t by (simp_all add: shown_def applyTelemetryFreshness_def Let_def)
  have "freshAt t now w \<longleftrightarrow> (\<exists>ob \<in> set ?obs. freshAt (ob_RecordedAt ob) now w)"
    if "\<forall>ob \<in> set ?obs. ob_RecordedAt ob \<le> now + w" "\<forall>ob \<in> set ?obs. 0 \<le> ob_RecordedAt ob"
    using max that by (fastforce simp: freshAt_def)
  with obs st max show ?thesis
    by (auto simp: Let_def classify_def freshAt_def simp flip: shown_def)
qed

end
