(* ===== verification/Dashboards.thy ===== *)
theory Dashboards
  imports Live_State Numbers
begin

text \<open>
  The dashboards of \<open>internal/service/fleet_service.go\<close> over the whole fleet: the conformance the
  Registry projects live laid over the summaries of the store, and the metrics. Messages of the Registry
  may be \<open>nil\<close>; an instant that is missing or invalid is \<open>None\<close>. The verbs of \<open>fmt\<close> with a precision round
  the exact value to even.
\<close>

section \<open>Definitions\<close>

subsection \<open>Live conformance\<close>

definition maxConformanceBatch :: nat where
  "maxConformanceBatch = 250"

definition conformanceVersionKey :: "string \<Rightarrow> int \<Rightarrow> string" where
  "conformanceVersionKey intentID intentVersion = intentID @ '':'' @ itoa intentVersion"

abbreviation summary_key :: "ConformanceSummary \<Rightarrow> string" where
  "summary_key c \<equiv> conformanceVersionKey (cs_IntentID c) (cs_IntentVersion c)"

definition firstNonEmpty :: "string \<Rightarrow> string \<Rightarrow> string" where
  "firstNonEmpty preferred fallback = (if preferred \<noteq> [] then preferred else fallback)"

text \<open>Names of enumerations are ASCII.\<close>

definition enumJSONName :: "string \<Rightarrow> string \<Rightarrow> string" where
  "enumJSONName value pre =
     (let v = (if take (length pre) value = pre then drop (length pre) value else value) in
      if v = ''UNSPECIFIED'' then [] else map ascii_lower v)"

definition legacyConformanceStatus :: "string \<Rightarrow> ConformanceStatus" where
  "legacyConformanceStatus condition =
     (if condition = ''conforming'' then ConformanceStatusConforming
      else if condition = ''non_conforming'' then ConformanceStatusNonConforming
      else if condition = ''suspected'' \<or> condition = ''recovering'' then ConformanceStatusContingent
      else ConformanceStatusUnknown)"

definition activeViolationCount :: "ConformanceViolationSummary list \<Rightarrow> int" where
  "activeViolationCount violations =
     int (length (filter (\<lambda>v. cv_Phase v \<noteq> [] \<and> cv_Phase v \<noteq> ''clear'') violations))"

definition projected_violations :: "RegistryViolation option list \<Rightarrow> ConformanceViolationSummary list" where
  "projected_violations violations = List.map_filter (map_option (\<lambda>v.
     \<lparr>cv_ViolationType = enumJSONName (rvi_ViolationType v) ''VIOLATION_TYPE_'',
       cv_Phase = enumJSONName (rvi_Phase v) ''INCIDENT_PHASE_'',
       cv_OpeningFrameID = rvi_OpeningFrameId v, cv_OpenedAt = rvi_OpenedAt v,
       cv_LastObservedAt = rvi_LastObservedAt v, cv_WorstDeviationM = rvi_WorstDeviationM v\<rparr>)) violations"

definition projected_summary :: "RegistrySummary \<Rightarrow> string \<Rightarrow> string \<Rightarrow> ConformanceSummary" where
  "projected_summary summary assignmentID intentID =
     (let condition = enumJSONName (rsu_Condition summary) ''CONFORMANCE_CONDITION_'';
          violations = projected_violations (rsu_Violations summary) in
      \<lparr>cs_ID = rsu_EvaluationId summary, cs_OperatorID = rsu_OperatorId summary, cs_IntentID = intentID,
        cs_IntentVersion = int (rsu_IntentVersion summary), cs_FlightID = rsu_FlightId summary,
        cs_AircraftID = rsu_AircraftId summary, cs_Status = legacyConformanceStatus condition, cs_Score = None,
        cs_AlertCount = activeViolationCount violations, cs_ReportabilityStatus = ReportabilityStatusNo,
        cs_UpdatedAt = (case rsu_ObservedAt summary of None \<Rightarrow> 0 | Some t \<Rightarrow> t), cs_AssignmentID = assignmentID,
        cs_AssignmentGeneration = rsu_AssignmentGeneration summary, cs_EvaluationRevision = rsu_EvaluationRevision summary,
        cs_EvaluationID = rsu_EvaluationId summary, cs_Condition = condition,
        cs_MonitoringStatus = enumJSONName (rsu_MonitoringStatus summary) ''MONITORING_STATUS_'',
        cs_RecordingStatus = enumJSONName (rsu_RecordingStatus summary) ''RECORDING_STATUS_'',
        cs_ObservedAt = rsu_ObservedAt summary, cs_FrameID = rsu_FrameId summary, cs_Violations = violations\<rparr>)"

definition registryConformanceSummary :: "string list \<Rightarrow> RegistrySummary option \<Rightarrow> ConformanceSummary option" where
  "registryConformanceSummary requested projection =
     (case projection of
        None \<Rightarrow> None
      | Some summary \<Rightarrow>
        let assignmentID = TrimSpace (rsu_AssignmentId summary); intentID = TrimSpace (rsu_IntentId summary) in
        if assignmentID = [] \<or> assignmentID \<noteq> intentID \<or> rsu_IntentVersion summary = 0 then None
        else if assignmentID \<notin> set requested then None
        else Some (projected_summary summary assignmentID intentID))"

definition mergeLiveConformance :: "ConformanceSummary \<Rightarrow> ConformanceSummary \<Rightarrow> ConformanceSummary" where
  "mergeLiveConformance durableSummary live = durableSummary\<lparr>
     cs_OperatorID := firstNonEmpty (cs_OperatorID live) (cs_OperatorID durableSummary),
     cs_FlightID := firstNonEmpty (cs_FlightID live) (cs_FlightID durableSummary),
     cs_AircraftID := firstNonEmpty (cs_AircraftID live) (cs_AircraftID durableSummary),
     cs_Status := cs_Status live,
     cs_UpdatedAt := if \<not> IsZero (cs_UpdatedAt live) then cs_UpdatedAt live else cs_UpdatedAt durableSummary,
     cs_AssignmentID := cs_AssignmentID live, cs_AssignmentGeneration := cs_AssignmentGeneration live,
     cs_EvaluationRevision := cs_EvaluationRevision live, cs_EvaluationID := cs_EvaluationID live,
     cs_Condition := cs_Condition live, cs_MonitoringStatus := cs_MonitoringStatus live,
     cs_RecordingStatus := cs_RecordingStatus live, cs_ObservedAt := cs_ObservedAt live,
     cs_FrameID := cs_FrameID live, cs_Violations := cs_Violations live\<rparr>"

definition supersedes :: "ConformanceSummary \<Rightarrow> ConformanceSummary \<Rightarrow> bool" where
  "supersedes live current \<longleftrightarrow> cs_AssignmentGeneration live > cs_AssignmentGeneration current
     \<or> cs_AssignmentGeneration live = cs_AssignmentGeneration current
       \<and> cs_EvaluationRevision live > cs_EvaluationRevision current"

text \<open>One projection of a response, and the responses of the batches.\<close>

definition add_projection ::
  "string list \<Rightarrow> RegistrySummary option \<Rightarrow> ConformanceSummary gomap \<Rightarrow> ConformanceSummary gomap" where
  "add_projection requested projection liveByVersion =
     (case registryConformanceSummary requested projection of
        None \<Rightarrow> liveByVersion
      | Some live \<Rightarrow>
          (case map_of liveByVersion (summary_key live) of
             None \<Rightarrow> AList.update (summary_key live) live liveByVersion
           | Some current \<Rightarrow>
               if supersedes live current then AList.update (summary_key live) live liveByVersion else liveByVersion))"

fun fetch_batches ::
  "'w LiveService \<Rightarrow> string list \<Rightarrow> string list list \<Rightarrow> ConformanceSummary gomap \<Rightarrow> ('w, ConformanceSummary gomap) srv" where
  "fetch_batches svc requested [] liveByVersion = State_Monad.return liveByVersion"
| "fetch_batches svc requested (batch # batches) liveByVersion = do {
     response \<leftarrow> lv_BatchGetConformanceSummaries svc batch;
     fetch_batches svc requested batches
       (case response of
          Inr (Some projections) \<Rightarrow> fold (add_projection requested) projections liveByVersion
        | _ \<Rightarrow> liveByVersion)
   }"

definition batches_of :: "'a list \<Rightarrow> 'a list list" where
  "batches_of xs = map (\<lambda>k. take maxConformanceBatch (drop (k * maxConformanceBatch) xs))
     [0..<(length xs + maxConformanceBatch - 1) div maxConformanceBatch]"

text \<open>The loop over the summaries of the store: what is shown, and what is live only.\<close>

fun overlay_durable ::
  "ConformanceSummary gomap \<Rightarrow> ConformanceSummary list \<Rightarrow> ConformanceSummary list \<times> ConformanceSummary gomap" where
  "overlay_durable liveByVersion [] = ([], liveByVersion)"
| "overlay_durable liveByVersion (d # ds) =
     (case map_of liveByVersion (summary_key d) of
        None \<Rightarrow> (case overlay_durable liveByVersion ds of (shown, rest) \<Rightarrow> (d # shown, rest))
      | Some live \<Rightarrow>
          (case overlay_durable (AList.delete (summary_key d) liveByVersion) ds of
             (shown, rest) \<Rightarrow> (mergeLiveConformance d live # shown, rest)))"

definition shown_before :: "ConformanceSummary \<Rightarrow> ConformanceSummary \<Rightarrow> bool" where
  "shown_before a b \<longleftrightarrow>
     (if cs_UpdatedAt a = cs_UpdatedAt b then summary_key a < summary_key b else cs_UpdatedAt a > cs_UpdatedAt b)"

definition overlay_live :: "ConformanceSummary list \<Rightarrow> ConformanceSummary gomap \<Rightarrow> ConformanceSummary list" where
  "overlay_live durableSummaries liveByVersion =
     (if liveByVersion = [] then durableSummaries
      else case overlay_durable liveByVersion durableSummaries of
        (shown, rest) \<Rightarrow> sort_slice shown_before (shown @ vals rest))"

fun assignment_ids :: "OperationalIntent list \<Rightarrow> string list \<Rightarrow> string list" where
  "assignment_ids [] ids = ids"
| "assignment_ids (intent # intents) ids =
     (let assignmentID = TrimSpace (oi_ID intent) in
      assignment_ids intents (if assignmentID = [] \<or> assignmentID \<in> set ids then ids else ids @ [assignmentID]))"

text \<open>The Registry client is never \<open>nil\<close>.\<close>

definition overlayRegistryConformance ::
  "'w LiveService \<Rightarrow> OperationalIntent list \<Rightarrow> ConformanceSummary list \<Rightarrow> ('w, ConformanceSummary list) srv" where
  "overlayRegistryConformance svc intents durableSummaries =
     (let ids = assignment_ids intents [] in
      if ids = [] then State_Monad.return durableSummaries
      else do {
        liveByVersion \<leftarrow> fetch_batches svc ids (batches_of (sort_slice (<) ids)) [];
        State_Monad.return (overlay_live durableSummaries liveByVersion)
      })"

subsection \<open>Metrics\<close>

record DashboardMetric =
  dm_Label :: string
  dm_Value :: string
  dm_Detail :: string
  dm_Status :: string

definition metric :: "string \<Rightarrow> string \<Rightarrow> string \<Rightarrow> DashboardMetric" where
  "metric label v status = \<lparr>dm_Label = label, dm_Value = v, dm_Detail = [], dm_Status = status\<rparr>"

text \<open>A counting loop, and the rendering with a number of digits after the point.\<close>

definition number_of :: "('a \<Rightarrow> bool) \<Rightarrow> 'a list \<Rightarrow> nat" where
  "number_of P xs = length (filter P xs)"

definition fmt_d :: "nat \<Rightarrow> string" where
  "fmt_d n = itoa (int n)"

definition fmt_fixed :: "nat \<Rightarrow> real \<Rightarrow> string" where
  "fmt_fixed k x = (if k = 0 then itoa (round_half_even x) else decimal k (round_half_even (x * 10 ^ k)))"

definition overviewMetrics ::
  "AircraftDashboard list \<Rightarrow> OperationalIntent list \<Rightarrow> EvidenceRecord list \<Rightarrow> ReportabilityReview list \<Rightarrow> DashboardMetric list" where
  "overviewMetrics aircraft intents evidence reviews =
     (let readyAircraft = number_of (\<lambda>d. rd_Status (ad_Readiness d) = ReadinessStatusReady) aircraft;
          openBlocks = number_of (\<lambda>d. rd_Status (ad_Readiness d) = ReadinessStatusBlocked) aircraft;
          activeIntents = number_of (\<lambda>i. oi_Status i = IntentStatusActive \<or> oi_Status i = IntentStatusAccepted) intents;
          reportable = number_of (\<lambda>r. rr_Status r = ReportabilityStatusReportable) reviews in
      [metric ''Ready aircraft'' (fmt_d readyAircraft @ ''/'' @ fmt_d (length aircraft)) ''ready'',
       metric ''Accepted/active intents'' (fmt_d activeIntents) ''accepted'',
       metric ''Open preflight blocks'' (fmt_d openBlocks) ''blocked'',
       metric ''Evidence records'' (fmt_d (length evidence)) [],
       metric ''Reportable events'' (fmt_d reportable) ''reportable''])"

definition operationsMetrics :: "OperationalIntent list \<Rightarrow> ConformanceSummary list \<Rightarrow> DashboardMetric list" where
  "operationsMetrics intents conformance =
     (let accepted = number_of (\<lambda>i. oi_Status i = IntentStatusAccepted) intents;
          submitted = number_of (\<lambda>i. oi_Status i = IntentStatusSubmitted \<or> oi_Status i = IntentStatusReview) intents;
          conformanceRequired = number_of oi_ConformanceRequired intents;
          nonConforming = number_of (\<lambda>c. cs_Status c = ConformanceStatusNonConforming) conformance in
      [metric ''Operational intents'' (fmt_d (length intents)) [],
       metric ''Accepted'' (fmt_d accepted) ''accepted'',
       metric ''Submitted/review'' (fmt_d submitted) ''submitted'',
       (metric ''Conformance required'' (fmt_d conformanceRequired) [])\<lparr>dm_Detail := fmt_d nonConforming @ '' non-conforming''\<rparr>])"

definition preflightMetrics :: "PreflightCheck list \<Rightarrow> DashboardMetric list" where
  "preflightMetrics checks =
     (let clear = number_of (\<lambda>c. pc_Status c = PreflightStatusClear) checks;
          review = number_of (\<lambda>c. pc_Status c = PreflightStatusReview) checks;
          blocked = number_of (\<lambda>c. pc_Status c = PreflightStatusAction \<or> pc_Status c = PreflightStatusBlocked) checks in
      [metric ''Checks complete'' (fmt_d clear @ ''/'' @ fmt_d (length checks)) ''clear'',
       metric ''Needs review'' (fmt_d review) ''review'',
       metric ''Blocking items'' (fmt_d blocked) ''blocked''])"

definition conformanceMetrics :: "ConformanceSummary list \<Rightarrow> ConformanceEvent list \<Rightarrow> DashboardMetric list" where
  "conformanceMetrics summaries events =
     (let conforming = number_of (\<lambda>c. cs_Status c = ConformanceStatusConforming) summaries;
          reportable = number_of (\<lambda>c. cs_ReportabilityStatus c = ReportabilityStatusReportable) summaries;
          projected = filter (\<lambda>c. cs_AssignmentID c \<noteq> []) summaries;
          activeFindings = sum_list (map (\<lambda>c. activeViolationCount (cs_Violations c)) projected);
          scores = List.map_filter cs_Score summaries;
          scored = scores \<noteq> [];
          targetValue = (if scored then fmt_fixed 1 (sum_list scores / real (length scores) * 100) @ ''%'' else ''Not scored'');
          targetDetail = (if scored then ''Average of durable scored evaluations'' else ''Live condition is reported separately'');
          live = projected \<noteq> [] in
      [(metric ''Target conformance'' targetValue [])\<lparr>dm_Detail := targetDetail\<rparr>,
       metric ''Conforming'' (fmt_d conforming) ''conforming'',
       metric (if live then ''Active findings'' else ''Open alerts'') (if live then itoa activeFindings else fmt_d (length events)) [],
       metric ''Reportable'' (fmt_d reportable) ''reportable''])"

definition maintenanceMetrics :: "MaintenanceEvent list \<Rightarrow> Battery list \<Rightarrow> DashboardMetric list" where
  "maintenanceMetrics events batteries =
     (let openEvents = number_of (\<lambda>e. me_Status e \<noteq> MaintenanceStatusClosed \<and> me_ResolvedAt e = None) events;
          critical = number_of (\<lambda>e. me_Severity e = SeverityCritical \<and> me_ResolvedAt e = None) events;
          healths = List.map_filter bat_StateOfHealth batteries;
          avgSOH = (if healths \<noteq> [] then sum_list healths / real (length healths) else 0) in
      [metric ''Open irregularities'' (fmt_d openEvents) [],
       metric ''Critical'' (fmt_d critical) ''critical'',
       metric ''Battery SOH avg'' (fmt_fixed 0 avgSOH @ ''%'') [],
       metric ''Battery packs'' (fmt_d (length batteries)) []])"

definition recordsMetrics :: "EvidenceRecord list \<Rightarrow> ReportabilityReview list \<Rightarrow> DashboardMetric list" where
  "recordsMetrics evidence reviews =
     (let pending = number_of (\<lambda>e. ev_Status e = EvidenceStatusOpen \<or> ev_Status e = EvidenceStatusReview) evidence;
          reportable = number_of (\<lambda>r. rr_Status r = ReportabilityStatusReportable) reviews in
      [metric ''Evidence records'' (fmt_d (length evidence)) [],
       metric ''Pending reviews'' (fmt_d pending) ''review'',
       metric ''Reportable events'' (fmt_d reportable) ''reportable''])"

subsection \<open>Dashboards\<close>

record OverviewDashboard =
  ovd_Metrics :: "DashboardMetric list"
  ovd_Aircraft :: "AircraftDashboard list"
  ovd_OperationalIntents :: "OperationalIntent list"
  ovd_EvidenceRecords :: "EvidenceRecord list"
  ovd_ReportabilityReview :: "ReportabilityReview list"

record OperationsDashboard =
  opd_Metrics :: "DashboardMetric list"
  opd_OperationalIntents :: "OperationalIntent list"
  opd_Conformance :: "ConformanceSummary list"
  opd_LiveAircraft :: "AircraftLiveState list"

record PreflightDashboard =
  pfd_Metrics :: "DashboardMetric list"
  pfd_Checks :: "PreflightCheck list"

record ConformanceDashboard =
  cnd_Metrics :: "DashboardMetric list"
  cnd_Summaries :: "ConformanceSummary list"
  cnd_Events :: "ConformanceEvent list"

record MaintenanceDashboard =
  mnd_Metrics :: "DashboardMetric list"
  mnd_Events :: "MaintenanceEvent list"
  mnd_Batteries :: "Battery list"

record RecordsDashboard =
  rcd_Metrics :: "DashboardMetric list"
  rcd_EvidenceRecords :: "EvidenceRecord list"
  rcd_ReportabilityReview :: "ReportabilityReview list"

text \<open>A read of the store that labels its error, and what is made of two reads.\<close>

definition labelled_read :: "'w LiveService \<Rightarrow> string \<Rightarrow> (Store \<Rightarrow> 'a result) \<Rightarrow> ('w, 'a result) srv" where
  "labelled_read svc label f = do {
     read \<leftarrow> fleet_read svc f;
     State_Monad.return (case read of Inl e \<Rightarrow> Inl (wrap label e) | Inr x \<Rightarrow> Inr x)
   }"

definition both_reads ::
  "('w, 'a result) srv \<Rightarrow> ('w, 'b result) srv \<Rightarrow> ('a \<Rightarrow> 'b \<Rightarrow> ('w, 'c result) srv) \<Rightarrow> ('w, 'c result) srv" where
  "both_reads m n f = do {
     first \<leftarrow> m;
     case first of
       Inl e \<Rightarrow> State_Monad.return (Inl e)
     | Inr a \<Rightarrow> do {
         next_read \<leftarrow> n;
         case next_read of
           Inl e \<Rightarrow> State_Monad.return (Inl e)
         | Inr b \<Rightarrow> f a b
       }
   }"

definition GetOverviewDashboard :: "'w LiveService \<Rightarrow> ('w, OverviewDashboard result) srv" where
  "GetOverviewDashboard svc =
     both_reads (ListAircraftDashboards svc) (labelled_read svc ''list operational intents'' (ListOperationalIntents []))
       (\<lambda>aircraft intents.
     both_reads (labelled_read svc ''list evidence'' (ListEvidence []))
       (labelled_read svc ''list reportability reviews'' (ListReportabilityReviews []))
       (\<lambda>evidence reviews. State_Monad.return (Inr \<lparr>ovd_Metrics = overviewMetrics aircraft intents evidence reviews,
         ovd_Aircraft = aircraft, ovd_OperationalIntents = intents, ovd_EvidenceRecords = evidence,
         ovd_ReportabilityReview = reviews\<rparr>)))"

definition operations_aircraft ::
  "'w LiveService \<Rightarrow> OperationalIntent list \<Rightarrow> ConformanceSummary list \<Rightarrow> ('w, OperationsDashboard result) srv" where
  "operations_aircraft svc intents conformance = do {
     read \<leftarrow> labelled_read svc ''list aircraft'' ListAircraft;
     case read of
       Inl e \<Rightarrow> State_Monad.return (Inl e)
     | Inr aircraft \<Rightarrow> do {
         liveAircraft \<leftarrow> composeLiveAircraft svc aircraft;
         State_Monad.return (Inr \<lparr>opd_Metrics = operationsMetrics intents conformance, opd_OperationalIntents = intents,
           opd_Conformance = conformance, opd_LiveAircraft = liveAircraft\<rparr>)
       }
   }"

definition GetOperationsDashboard :: "'w LiveService \<Rightarrow> ('w, OperationsDashboard result) srv" where
  "GetOperationsDashboard svc =
     both_reads (labelled_read svc ''list operational intents'' (ListOperationalIntents []))
       (labelled_read svc ''list conformance summaries'' (ListConformanceSummaries []))
       (\<lambda>intents durable. do {
         conformance \<leftarrow> overlayRegistryConformance svc intents durable;
         operations_aircraft svc intents conformance
       })"

definition GetPreflightDashboard :: "'w LiveService \<Rightarrow> ('w, PreflightDashboard result) srv" where
  "GetPreflightDashboard svc = do {
     read \<leftarrow> labelled_read svc ''list preflight checks'' (ListPreflightChecks []);
     State_Monad.return (case read of
         Inl e \<Rightarrow> Inl e
       | Inr checks \<Rightarrow> Inr \<lparr>pfd_Metrics = preflightMetrics checks, pfd_Checks = checks\<rparr>)
   }"

definition overlaid_conformance ::
  "'w LiveService \<Rightarrow> ConformanceSummary list \<Rightarrow> ConformanceEvent list \<Rightarrow> ('w, ConformanceDashboard result) srv" where
  "overlaid_conformance svc durable events = do {
     read \<leftarrow> labelled_read svc ''list operational intents'' (ListOperationalIntents []);
     case read of
       Inl e \<Rightarrow> State_Monad.return (Inl e)
     | Inr intents \<Rightarrow> do {
         summaries \<leftarrow> overlayRegistryConformance svc intents durable;
         State_Monad.return (Inr \<lparr>cnd_Metrics = conformanceMetrics summaries events, cnd_Summaries = summaries, cnd_Events = events\<rparr>)
       }
   }"

definition GetConformanceDashboard :: "'w LiveService \<Rightarrow> ('w, ConformanceDashboard result) srv" where
  "GetConformanceDashboard svc =
     both_reads (labelled_read svc ''list conformance summaries'' (ListConformanceSummaries []))
       (labelled_read svc ''list conformance events'' (ListConformanceEvents []))
       (overlaid_conformance svc)"

definition GetMaintenanceDashboard :: "'w LiveService \<Rightarrow> ('w, MaintenanceDashboard result) srv" where
  "GetMaintenanceDashboard svc =
     both_reads (labelled_read svc ''list maintenance events'' (ListMaintenanceEvents []))
       (labelled_read svc ''list batteries'' ListBatteries)
       (\<lambda>events batteries. State_Monad.return (Inr
         \<lparr>mnd_Metrics = maintenanceMetrics events batteries, mnd_Events = events, mnd_Batteries = batteries\<rparr>))"

definition GetRecordsDashboard :: "'w LiveService \<Rightarrow> ('w, RecordsDashboard result) srv" where
  "GetRecordsDashboard svc =
     both_reads (labelled_read svc ''list evidence'' (ListEvidence []))
       (labelled_read svc ''list reportability reviews'' (ListReportabilityReviews []))
       (\<lambda>evidence reviews. State_Monad.return (Inr
         \<lparr>rcd_Metrics = recordsMetrics evidence reviews, rcd_EvidenceRecords = evidence, rcd_ReportabilityReview = reviews\<rparr>))"

subsection \<open>What the overlay promises\<close>

text \<open>The newest of the projections of a version: none of them supersedes it.\<close>

definition accepted_projections :: "string list \<Rightarrow> RegistrySummary option list \<Rightarrow> ConformanceSummary list" where
  "accepted_projections requested ps = List.map_filter (registryConformanceSummary requested) ps"

definition newest_projection :: "ConformanceSummary list \<Rightarrow> string \<Rightarrow> ConformanceSummary \<Rightarrow> bool" where
  "newest_projection lives key c \<longleftrightarrow> c \<in> set lives \<and> summary_key c = key
     \<and> (\<forall>c' \<in> set lives. summary_key c' = key \<longrightarrow> \<not> supersedes c' c)"

definition live_of :: "ConformanceSummary list \<Rightarrow> ConformanceSummary gomap \<Rightarrow> bool" where
  "live_of lives live \<longleftrightarrow> distinct (map fst live)
     \<and> (\<forall>k c. map_of live k = Some c \<longrightarrow> newest_projection lives k c)
     \<and> (\<forall>c \<in> set lives. map_of live (summary_key c) \<noteq> None)"

text \<open>A summary of the store, with what is live for its version.\<close>

definition overlaid :: "ConformanceSummary gomap \<Rightarrow> ConformanceSummary \<Rightarrow> ConformanceSummary" where
  "overlaid live d = (case map_of live (summary_key d) of None \<Rightarrow> d | Some l \<Rightarrow> mergeLiveConformance d l)"

text \<open>What the Registry ever answered.\<close>

definition answered :: "'w LiveService \<Rightarrow> RegistrySummary option \<Rightarrow> bool" where
  "answered svc p \<longleftrightarrow> (\<exists>batch \<sigma> ps. fst (run_state (lv_BatchGetConformanceSummaries svc batch) \<sigma>) = Inr (Some ps) \<and> p \<in> set ps)"

subsection \<open>A small overlay\<close>

definition projection_at :: "nat \<Rightarrow> string \<Rightarrow> RegistrySummary" where
  "projection_at revision condition = \<lparr>rsu_AssignmentId = ''op-1'', rsu_IntentId = '' op-1'', rsu_IntentVersion = 1,
     rsu_OperatorId = [], rsu_FlightId = ''f-1'', rsu_AircraftId = ''uav-1'', rsu_AssignmentGeneration = 1,
     rsu_EvaluationRevision = revision, rsu_EvaluationId = ''e-1'', rsu_Condition = ''CONFORMANCE_CONDITION_'' @ condition,
     rsu_MonitoringStatus = [], rsu_RecordingStatus = [], rsu_ObservedAt = None, rsu_FrameId = [], rsu_Violations = []\<rparr>"

definition projecting_fleet :: "unit LiveService" where
  "projecting_fleet = small_fleet\<lparr>lv_BatchGetConformanceSummaries := (\<lambda>_. State_Monad.return (Inr (Some
     [Some (projection_at 1 ''CONFORMING''), None, Some (projection_at 3 ''NON_CONFORMING'')])))\<rparr>"

definition recorded_summary :: ConformanceSummary where
  "recorded_summary = zero_ConformanceSummary\<lparr>cs_ID := ''c-1'', cs_IntentID := ''op-1'', cs_IntentVersion := 1, cs_AlertCount := 2,
     cs_Status := ConformanceStatusConforming, cs_ReportabilityStatus := ReportabilityStatusReview\<rparr>"

section \<open>Lemmas\<close>

subsection \<open>Projections\<close>

lemma supersedes_asym: "supersedes a b \<Longrightarrow> \<not> supersedes b a"
  by (auto simp: supersedes_def)

lemma supersedes_negtrans: "\<not> supersedes a b \<Longrightarrow> \<not> supersedes b c \<Longrightarrow> \<not> supersedes a c"
  by (auto simp: supersedes_def)

interpretation supersedes: weak_order supersedes
  by unfold_locales (auto dest: supersedes_asym supersedes_negtrans)

lemma live_of_Nil: "live_of [] []"
  by (simp add: live_of_def)

lemma newest_other:
  "newest_projection lives k b \<Longrightarrow> k \<noteq> summary_key c \<Longrightarrow> newest_projection (lives @ [c]) k b"
  by (simp add: newest_projection_def)

lemma live_of_put:
  assumes live: "live_of lives live" and b: "newest_projection (lives @ [c]) (summary_key c) b"
    and "distinct (map fst live')" and map: "map_of live' = (map_of live)(summary_key c \<mapsto> b)"
  shows "live_of (lives @ [c]) live'"
  unfolding live_of_def
proof (intro conjI allI impI ballI)
  fix k d assume "map_of live' k = Some d"
  then show "newest_projection (lives @ [c]) k d"
    using b live newest_other by (cases "k = summary_key c") (simp_all add: map live_of_def del: map_of_eq_Some_iff)
next
  fix d assume "d \<in> set (lives @ [c])"
  then show "map_of live' (summary_key d) \<noteq> None" using live by (auto simp: map live_of_def)
qed (rule assms(3))

lemma live_of_add:
  assumes live: "live_of lives live"
  shows "live_of (lives @ accepted_projections requested [p]) (add_projection requested p live)"
proof (cases "registryConformanceSummary requested p")
  case None
  with assms show ?thesis by (simp add: add_projection_def accepted_projections_def List.map_filter_simps)
next
  case c: (Some c)
  have acc: "accepted_projections requested [p] = [c]" using c by (simp add: accepted_projections_def List.map_filter_simps)
  have dist: "distinct (map fst live)" using live by (simp add: live_of_def)
  have put: "live_of (lives @ [c]) (AList.update (summary_key c) c live)" if "newest_projection (lives @ [c]) (summary_key c) c"
    by (rule live_of_put [OF live that]) (simp_all add: distinct_update dist AList.update_conv')
  show ?thesis
  proof (cases "map_of live (summary_key c)")
    case None
    then have "\<forall>d \<in> set lives. summary_key d \<noteq> summary_key c" using live by (metis live_of_def)
    then have "newest_projection (lives @ [c]) (summary_key c) c" by (auto simp: newest_projection_def supersedes_def)
    with None c acc put show ?thesis by (simp add: add_projection_def)
  next
    case (Some cur)
    then have cur: "newest_projection lives (summary_key c) cur" using live unfolding live_of_def by blast
    show ?thesis
    proof (cases "supersedes c cur")
      case True
      have "newest_projection (lives @ [c]) (summary_key c) c"
        using cur True unfolding newest_projection_def by (auto simp: supersedes_def)
      with Some True c acc put show ?thesis by (simp add: add_projection_def)
    next
      case False
      have "newest_projection (lives @ [c]) (summary_key c) cur" using cur False by (auto simp: newest_projection_def)
      then have "live_of (lives @ [c]) live"
        by (rule live_of_put [OF live _ dist]) (use Some in \<open>auto simp del: map_of_eq_Some_iff\<close>)
      with Some False c acc show ?thesis by (simp add: add_projection_def)
    qed
  qed
qed

lemma accepted_append: "accepted_projections requested (ps @ qs) = accepted_projections requested ps @ accepted_projections requested qs"
  by (simp add: accepted_projections_def List.map_filter_def)

lemma live_of_fold:
  "live_of lives live \<Longrightarrow> live_of (lives @ accepted_projections requested ps) (fold (add_projection requested) ps live)"
proof (induction ps arbitrary: lives live)
  case (Cons p ps)
  from Cons.IH [OF live_of_add [OF Cons.prems, of requested p]] accepted_append [of requested "[p]" ps]
  show ?case by simp
qed (simp add: accepted_projections_def List.map_filter_simps)

lemma live_of_fetch:
  assumes "live_of lives live" and "run_state (fetch_batches svc requested batches live) \<sigma> = (live', \<sigma>')"
  shows "\<exists>ps. (\<forall>p \<in> set ps. answered svc p) \<and> live_of (lives @ accepted_projections requested ps) live'"
  using assms
proof (induction batches arbitrary: lives live \<sigma>)
  case Nil
  then show ?case by (intro exI [of _ "[]"]) (simp add: accepted_projections_def List.map_filter_simps)
next
  case (Cons batch batches)
  obtain r \<sigma>1 where r: "run_state (lv_BatchGetConformanceSummaries svc batch) \<sigma> = (r, \<sigma>1)"
    by (cases "run_state (lv_BatchGetConformanceSummaries svc batch) \<sigma>")
  show ?case
  proof (cases "\<exists>qs. r = Inr (Some qs)")
    case True
    then obtain qs where qs: "r = Inr (Some qs)" by blast
    have "\<forall>p \<in> set qs. answered svc p" using r qs unfolding answered_def by (metis fst_conv)
    moreover obtain ps where "\<forall>p \<in> set ps. answered svc p"
      "live_of ((lives @ accepted_projections requested qs) @ accepted_projections requested ps) live'"
      using Cons.IH [OF live_of_fold [OF Cons.prems(1), of requested qs], of \<sigma>1] Cons.prems(2) r qs by auto
    ultimately show ?thesis by (intro exI [of _ "qs @ ps"]) (auto simp: accepted_append)
  next
    case False
    with Cons.prems r have "run_state (fetch_batches svc requested batches live) \<sigma>1 = (live', \<sigma>')"
      by (auto split: sum.splits option.splits)
    from Cons.IH [OF Cons.prems(1) this] show ?thesis .
  qed
qed

subsection \<open>The overlay\<close>

text \<open>Where any two different elements compare, sorting forgets the order of the list.\<close>

context weak_order begin

lemma sorted_lists_eq:
  assumes "sorted_wrt (\<lambda>x y. \<not> lt y x) xs" and "sorted_wrt (\<lambda>x y. \<not> lt y x) ys" and "mset xs = mset ys"
    and "\<And>x y. x \<in> set xs \<Longrightarrow> y \<in> set xs \<Longrightarrow> x \<noteq> y \<Longrightarrow> lt x y \<or> lt y x"
  shows "xs = ys"
  using assms
proof (induction xs arbitrary: ys)
  case (Cons x xs)
  then obtain y ys' where ys: "ys = y # ys'" by (cases ys) auto
  have set: "set (x # xs) = set ys" using Cons.prems(3) by (metis set_mset_mset)
  have "x = y"
  proof (rule ccontr)
    assume ne: "x \<noteq> y"
    then have "y \<in> set xs" "x \<in> set ys'" using set ys by auto
    with Cons.prems(1,2) ys have "\<not> lt y x" "\<not> lt x y" by auto
    with Cons.prems(4) [of x y] ne \<open>y \<in> set xs\<close> show False by simp
  qed
  with Cons.IH [of ys'] Cons.prems ys show ?case by simp
qed simp

lemma sort_slice_unique:
  assumes "mset xs = mset ys" and "\<And>x y. x \<in> set xs \<Longrightarrow> y \<in> set xs \<Longrightarrow> x \<noteq> y \<Longrightarrow> lt x y \<or> lt y x"
  shows "sort_slice lt xs = sort_slice lt ys"
  by (rule sorted_lists_eq) (simp_all add: sort_slice_sorted assms)

end

interpretation shown_first: weak_order shown_before
  by unfold_locales (auto simp: shown_before_def split: if_splits)

lemma merge_key [simp]: "summary_key (mergeLiveConformance d l) = summary_key d"
  by (simp add: mergeLiveConformance_def)

lemma overlaid_key [simp]: "summary_key (overlaid live d) = summary_key d"
  by (simp add: overlaid_def split: option.split)

lemma overlay_durable_result:
  assumes "distinct (map summary_key ds)" and "distinct (map fst live)"
  shows "fst (overlay_durable live ds) = map (overlaid live) ds
    \<and> snd (overlay_durable live ds) = filter (\<lambda>kl. fst kl \<notin> summary_key ` set ds) live"
  using assms
proof (induction ds arbitrary: live)
  case Nil
  then show ?case by simp
next
  case (Cons d ds)
  show ?case
  proof (cases "map_of live (summary_key d)")
    case None
    then have "summary_key d \<notin> fst ` set live" by (simp add: map_of_eq_None_iff)
    then have "filter (\<lambda>kl. fst kl \<notin> summary_key ` set ds) live = filter (\<lambda>kl. fst kl \<notin> summary_key ` set (d # ds)) live"
      by (intro filter_cong) (auto, force)
    with None Cons show ?thesis by (simp add: overlaid_def case_prod_beta)
  next
    case (Some l)
    let ?live = "AList.delete (summary_key d) live"
    have dist: "distinct (map fst ?live)" using Cons.prems(2) by (rule distinct_delete)
    have "overlaid ?live e = overlaid live e" if "e \<in> set ds" for e
    proof -
      have "summary_key e \<in> summary_key ` set ds" using that by (rule image_eqI [OF refl])
      then have "summary_key e \<noteq> summary_key d" using Cons.prems(1) by auto
      then show ?thesis by (simp add: overlaid_def AList.delete_conv')
    qed
    then have 1: "map (overlaid ?live) ds = map (overlaid live) ds" by simp
    have 2: "filter (\<lambda>kl. fst kl \<notin> summary_key ` set ds) ?live = filter (\<lambda>kl. fst kl \<notin> summary_key ` set (d # ds)) live"
      unfolding AList.delete_eq filter_filter by (rule filter_cong) auto
    from Some Cons.IH [OF _ dist] Cons.prems(1) 1 2 show ?thesis by (simp add: overlaid_def case_prod_beta)
  qed
qed

text \<open>What is shown when something is live.\<close>

lemma overlay_unsorted:
  assumes "distinct (map summary_key ds)" and "distinct (map fst live)" and "live \<noteq> []"
  shows "overlay_live ds live = sort_slice shown_before
    (map (overlaid live) ds @ map snd (filter (\<lambda>kl. fst kl \<notin> summary_key ` set ds) live))"
  using overlay_durable_result [OF assms(1,2)] assms(3) by (simp add: overlay_live_def vals_def case_prod_beta)

lemma overlay_keys_distinct:
  assumes ds: "distinct (map summary_key ds)" and live: "distinct (map fst live)"
    and keys: "\<And>k l. (k, l) \<in> set live \<Longrightarrow> summary_key l = k"
  shows "distinct (map summary_key (map (overlaid live) ds @ map snd (filter (\<lambda>kl. fst kl \<notin> summary_key ` set ds) live)))"
proof -
  let ?only = "filter (\<lambda>kl. fst kl \<notin> summary_key ` set ds) live"
  have "map summary_key (map snd ?only) = map fst ?only" using keys by (auto simp: o_def)
  moreover have "distinct (map fst ?only)" using live by (rule distinct_map_filter)
  moreover have "map summary_key (map (overlaid live) ds) = map summary_key ds" by (simp add: o_def)
  ultimately show ?thesis using ds by (auto simp del: map_map)
qed

lemma shown_before_total:
  "summary_key a \<noteq> summary_key b \<Longrightarrow> shown_before a b \<or> shown_before b a"
  by (auto simp: shown_before_def not_less_iff_gr_or_eq)

lemma overlay_order_irrelevant:
  assumes ds: "distinct (map summary_key ds)" and live: "distinct (map fst live)"
    and keys: "\<And>k l. (k, l) \<in> set live \<Longrightarrow> summary_key l = k" and perm: "mset live' = mset live"
  shows "overlay_live ds live' = overlay_live ds live"
proof (cases "live = []")
  case False
  let ?list = "\<lambda>live. map (overlaid live) ds @ map snd (filter (\<lambda>kl. fst kl \<notin> summary_key ` set ds) live)"
  have live': "live' \<noteq> []" "distinct (map fst live')"
    using False perm live mset_eq_imp_distinct_iff [of "map fst live'" "map fst live"] by auto
  moreover have "set live' = set live" using perm by (metis set_mset_mset)
  ultimately have "map_of live' = map_of live" using live by (simp add: map_of_inject_set)
  then have "map (overlaid live') ds = map (overlaid live) ds" by (simp add: overlaid_def)
  moreover have "mset (map snd (filter P live')) = mset (map snd (filter P live))" for P by (simp add: perm)
  ultimately have "mset (?list live') = mset (?list live)" by (simp only: mset_append)
  moreover have "shown_before x y \<or> shown_before y x"
    if "x \<in> set (?list live')" "y \<in> set (?list live')" "x \<noteq> y" for x y
  proof -
    have "set (?list live') = set (?list live)" using \<open>mset (?list live') = mset (?list live)\<close> by (rule mset_eq_setD)
    moreover have "inj_on summary_key (set (?list live))"
      by (rule conjunct2 [OF iffD1 [OF distinct_map overlay_keys_distinct [OF ds live keys]]])
    ultimately have "summary_key x \<noteq> summary_key y"
      using that inj_onD [of summary_key "set (?list live)" x y] by argo
    then show ?thesis by (rule shown_before_total)
  qed
  ultimately show ?thesis
    unfolding overlay_unsorted [OF ds live False] overlay_unsorted [OF ds live'(2,1)] by (rule shown_first.sort_slice_unique)
qed (use perm in simp)

lemma live_entries:
  assumes "live_of lives live"
  shows "(k, l) \<in> set live \<Longrightarrow> newest_projection lives k l \<and> summary_key l = k"
    and "fst ` set live = summary_key ` set lives" and "live = [] \<longleftrightarrow> lives = []"
proof -
  have dist: "distinct (map fst live)" using assms by (simp add: live_of_def)
  show entry: "(k, l) \<in> set live \<Longrightarrow> newest_projection lives k l \<and> summary_key l = k" for k l
    using assms dist by (auto simp: live_of_def newest_projection_def)
  have "summary_key c \<in> fst ` set live" if "c \<in> set lives" for c
    using assms that by (simp add: live_of_def map_of_eq_None_iff)
  moreover have "k \<in> summary_key ` set lives" if "(k, l) \<in> set live" for k l
    by (rule image_eqI [of _ _ l]) (use entry [OF that] in \<open>simp_all add: newest_projection_def\<close>)
  ultimately show keys: "fst ` set live = summary_key ` set lives" by auto
  show "live = [] \<longleftrightarrow> lives = []" using keys by (metis image_is_empty set_empty)
qed

lemma overlay_shown:
  assumes ds: "distinct (map summary_key ds)" and live: "live_of lives live" and c: "c \<in> set (overlay_live ds live)" and "live \<noteq> []"
  shows "c \<in> set ds \<and> summary_key c \<notin> summary_key ` set lives
    \<or> (\<exists>l. newest_projection lives (summary_key c) l
        \<and> (c = l \<and> summary_key c \<notin> summary_key ` set ds
           \<or> (\<exists>d \<in> set ds. c = mergeLiveConformance d l \<and> cs_ID c = cs_ID d \<and> cs_Score c = cs_Score d
               \<and> cs_AlertCount c = cs_AlertCount d \<and> cs_ReportabilityStatus c = cs_ReportabilityStatus d)))"
proof -
  have dist: "distinct (map fst live)" using live by (simp add: live_of_def)
  from c consider (stored) d where "d \<in> set ds" "c = overlaid live d"
    | (only) k where "(k, c) \<in> set live" "k \<notin> summary_key ` set ds"
    unfolding overlay_unsorted [OF ds dist assms(4)] by auto
  then show ?thesis
  proof cases
    case (only k)
    with live_entries(1) [OF live only(1)] show ?thesis by auto
  next
    case (stored d)
    show ?thesis
    proof (cases "map_of live (summary_key d)")
      case None
      then have "summary_key d \<notin> summary_key ` set lives"
        unfolding map_of_eq_None_iff live_entries(2) [OF live] .
      with stored None show ?thesis by (simp add: overlaid_def)
    next
      case (Some l)
      then have "newest_projection lives (summary_key d) l" using live unfolding live_of_def by blast
      with stored Some show ?thesis by (auto simp: overlaid_def mergeLiveConformance_def)
    qed
  qed
qed

lemma overlay_keys:
  assumes ds: "distinct (map summary_key ds)" and live: "live_of lives live" and ne: "live \<noteq> []"
  shows "distinct (map summary_key (overlay_live ds live))"
    and "summary_key ` set (overlay_live ds live) = summary_key ` set ds \<union> summary_key ` set lives"
proof -
  let ?list = "map (overlaid live) ds @ map snd (filter (\<lambda>kl. fst kl \<notin> summary_key ` set ds) live)"
  have dist: "distinct (map fst live)" using live by (simp add: live_of_def)
  note list = overlay_unsorted [OF ds dist ne]
  have "distinct (map summary_key ?list)" using overlay_keys_distinct [OF ds dist] live_entries(1) [OF live] by blast
  moreover have "mset (map summary_key (overlay_live ds live)) = mset (map summary_key ?list)"
    unfolding list mset_map mset_sort_slice ..
  ultimately show "distinct (map summary_key (overlay_live ds live))" using mset_eq_imp_distinct_iff by blast
  have "summary_key ` snd ` {kl \<in> set live. fst kl \<notin> K} = fst ` set live - K" for K
    using live_entries(1) [OF live] by (force simp: image_iff)
  then show "summary_key ` set (overlay_live ds live) = summary_key ` set ds \<union> summary_key ` set lives"
    unfolding list live_entries(2) [OF live, symmetric] by (auto simp: image_Un image_image)
qed


lemma one_batch:
  assumes "xs \<noteq> []" and "length xs \<le> maxConformanceBatch"
  shows "batches_of xs = [xs]"
proof -
  have "(length xs + maxConformanceBatch - 1) div maxConformanceBatch = 1"
    using assms by (cases xs) (auto simp: maxConformanceBatch_def div_nat_eqI)
  then show ?thesis using assms(2) by (simp add: batches_of_def)
qed

lemma small_overlay:
  "assignment_ids [sample_intent] [] = [''op-1'']" "sort_slice (<) [''op-1''] = [''op-1'']" "batches_of [''op-1''] = [[''op-1'']]"
  by (code_simp, code_simp, simp add: one_batch maxConformanceBatch_def)

lemma small_texts: "TrimSpace ''op-1'' = ''op-1''" "TrimSpace '' op-1'' = ''op-1''"
  "legacyConformanceStatus (enumJSONName (''CONFORMANCE_CONDITION_'' @ ''NON_CONFORMING'') ''CONFORMANCE_CONDITION_'') = ConformanceStatusNonConforming"
  by code_simp+

lemma projected_newest:
  "fold (add_projection [''op-1'']) [Some (projection_at 1 ''CONFORMING''), None, Some (projection_at 3 ''NON_CONFORMING'')] []
   = [(conformanceVersionKey ''op-1'' 1, projected_summary (projection_at 3 ''NON_CONFORMING'') ''op-1'' ''op-1'')]"
  by (simp add: add_projection_def registryConformanceSummary_def projection_at_def small_texts projected_summary_def
      supersedes_def Let_def del: append.simps)

lemma projected_overlay:
  "map cs_Status (overlay_live [recorded_summary]
     [(conformanceVersionKey ''op-1'' 1, projected_summary (projection_at 3 ''NON_CONFORMING'') ''op-1'' ''op-1'')])
   = [ConformanceStatusNonConforming]"
proof -
  have "summary_key recorded_summary = conformanceVersionKey ''op-1'' 1" by (simp add: recorded_summary_def)
  moreover have "cs_Status (projected_summary (projection_at 3 ''NON_CONFORMING'') ''op-1'' ''op-1'') = ConformanceStatusNonConforming"
    by (simp only: projected_summary_def projection_at_def Let_def ConformanceSummary.simps RegistrySummary.simps small_texts)
  ultimately show ?thesis by (simp add: overlay_live_def sort_slice_def mergeLiveConformance_def vals_def)
qed

lemma projected_run:
  "map cs_Status (fst (run_state (overlayRegistryConformance projecting_fleet [sample_intent] [recorded_summary]) (NewStore, ())))
   = [ConformanceStatusNonConforming]"
proof -
  have "fst (run_state (overlayRegistryConformance projecting_fleet [sample_intent] [recorded_summary]) (NewStore, ()))
      = overlay_live [recorded_summary] (fold (add_projection [''op-1''])
       [Some (projection_at 1 ''CONFORMING''), None, Some (projection_at 3 ''NON_CONFORMING'')] [])"
    unfolding overlayRegistryConformance_def small_overlay Let_def by (simp add: projecting_fleet_def del: fold_simps)
  then show ?thesis unfolding projected_newest by (simp only: projected_overlay)
qed


end
