(* ===== verification/Peer_Address.thy ===== *)
theory Peer_Address
  imports Deconfliction Relay_Control
begin

text \<open>
  The part of \<open>internal/airspaceprovider/interuss/provider.go\<close> that decides which hosts of other service
  suppliers the API talks to: the URLs they publish must name a public host over HTTPS, and a
  connection is made to a public address only, whatever a name resolves to. \<open>url.Parse\<close>,
  \<open>netip.ParseAddr\<close>, the resolver and the dialling of a socket are parameters; addresses and prefixes
  of \<open>net/netip\<close> are machine words.
\<close>

section \<open>Definitions\<close>

subsection \<open>Addresses and prefixes\<close>

text \<open>\<open>netip.Addr\<close>, a valid one: an IPv4 address, or an IPv6 address with its zone.\<close>

datatype addr = IPv4 "32 word" | IPv6 "128 word" string

datatype prefix = Prefix4 "32 word" nat | Prefix6 "128 word" nat

text \<open>\<open>Is6\<close>, \<open>Unmap\<close>, \<open>Prefix.Contains\<close> and \<open>AddrFromSlice\<close>.\<close>

definition Is6 :: "addr \<Rightarrow> bool" where
  "Is6 a \<longleftrightarrow> (case a of IPv4 w \<Rightarrow> False | IPv6 w zone \<Rightarrow> True)"

definition Unmap :: "addr \<Rightarrow> addr" where
  "Unmap a = (case a of
      IPv4 w \<Rightarrow> a
    | IPv6 w zone \<Rightarrow> if drop_bit 32 w = 0xffff then IPv4 (ucast w) else a)"

fun Contains :: "prefix \<Rightarrow> addr \<Rightarrow> bool" where
  "Contains (Prefix4 p n) (IPv4 w) \<longleftrightarrow> drop_bit (32 - n) (xor w p) = 0"
| "Contains (Prefix6 p n) (IPv6 w zone) \<longleftrightarrow> zone = [] \<and> drop_bit (128 - n) (xor w p) = 0"
| "Contains _ _ \<longleftrightarrow> False"

definition big_endian :: "8 word list \<Rightarrow> 'n::len word" where
  "big_endian bs = fold (\<lambda>b acc. 256 * acc + ucast b) bs 0"

definition AddrFromSlice :: "8 word list \<Rightarrow> addr option" where
  "AddrFromSlice bs =
     (if length bs = 4 then Some (IPv4 (big_endian bs))
      else if length bs = 16 then Some (IPv6 (big_endian bs) [])
      else None)"

text \<open>
  \<open>IsGlobalUnicast\<close> of an unmapped address: neither unspecified nor the IPv4 broadcast address, not loopback,
  multicast or link-local unicast.
\<close>

fun IsGlobalUnicast :: "addr \<Rightarrow> bool" where
  "IsGlobalUnicast (IPv4 w) \<longleftrightarrow> w \<noteq> 0 \<and> w \<noteq> 0xffffffff \<and> drop_bit 24 w \<noteq> 127
     \<and> drop_bit 28 w \<noteq> 0xe \<and> drop_bit 16 w \<noteq> 0xa9fe"
| "IsGlobalUnicast (IPv6 w zone) \<longleftrightarrow> \<not> (w = 0 \<and> zone = []) \<and> w \<noteq> 1
     \<and> drop_bit 120 w \<noteq> 0xff \<and> drop_bit 118 w \<noteq> 0x3fa"

text \<open>\<open>netip.MustParsePrefix\<close> of the literals: four decimal numbers, or the leading groups of an IPv6 address.\<close>

definition dotted :: "32 word \<Rightarrow> 32 word \<Rightarrow> 32 word \<Rightarrow> 32 word \<Rightarrow> 32 word" where
  "dotted a b c d = 256 * (256 * (256 * a + b) + c) + d"

definition groups :: "128 word \<Rightarrow> 128 word \<Rightarrow> 128 word \<Rightarrow> 128 word \<Rightarrow> 128 word" where
  "groups a b c d = 0x10000 * (0x10000 * (0x10000 * a + b) + c) + d"

definition leading :: "128 word \<Rightarrow> 128 word \<Rightarrow> 128 word \<Rightarrow> 128 word \<Rightarrow> 128 word" where
  "leading a b c d = 0x10000000000000000 * groups a b c d"

definition globalIPv6PeerPrefix :: prefix where
  "globalIPv6PeerPrefix = Prefix6 (leading 0x2000 0 0 0) 3"

definition specialUsePeerPrefixes :: "prefix list" where
  "specialUsePeerPrefixes =
     [Prefix4 (dotted 0 0 0 0) 8, Prefix4 (dotted 10 0 0 0) 8, Prefix4 (dotted 100 64 0 0) 10,
      Prefix4 (dotted 127 0 0 0) 8, Prefix4 (dotted 169 254 0 0) 16, Prefix4 (dotted 172 16 0 0) 12,
      Prefix4 (dotted 192 0 0 0) 24, Prefix4 (dotted 192 0 2 0) 24, Prefix4 (dotted 192 31 196 0) 24,
      Prefix4 (dotted 192 52 193 0) 24, Prefix4 (dotted 192 88 99 0) 24, Prefix4 (dotted 192 168 0 0) 16,
      Prefix4 (dotted 192 175 48 0) 24, Prefix4 (dotted 198 18 0 0) 15, Prefix4 (dotted 198 51 100 0) 24,
      Prefix4 (dotted 203 0 113 0) 24, Prefix4 (dotted 240 0 0 0) 4,
      Prefix6 (leading 0x64 0xff9b 0 0) 96, Prefix6 (leading 0x64 0xff9b 1 0) 48, Prefix6 (leading 0x100 0 0 0) 64,
      Prefix6 (leading 0x100 0 0 1) 64, Prefix6 (leading 0x2001 0 0 0) 23, Prefix6 (leading 0x2001 0xdb8 0 0) 32,
      Prefix6 (leading 0x2002 0 0 0) 16, Prefix6 (leading 0x2620 0x4f 0x8000 0) 48, Prefix6 (leading 0x3fff 0 0 0) 20,
      Prefix6 (leading 0x5f00 0 0 0) 16, Prefix6 (leading 0xfc00 0 0 0) 7, Prefix6 (leading 0xfe80 0 0 0) 10]"

definition publicPeerAddr :: "addr \<Rightarrow> bool" where
  "publicPeerAddr address =
     (let address = Unmap address in
        if \<not> IsGlobalUnicast address \<or> Is6 address \<and> \<not> Contains globalIPv6PeerPrefix address then False
        else \<not> list_ex (\<lambda>prefix. Contains prefix address) specialUsePeerPrefixes)"

definition publicPeerIP :: "8 word list \<Rightarrow> bool" where
  "publicPeerIP ip = (case AddrFromSlice ip of None \<Rightarrow> False | Some address \<Rightarrow> publicPeerAddr (Unmap address))"

subsection \<open>The network\<close>

text \<open>What \<open>url.Parse\<close> finds, as far as the code asks; \<open>net_SplitError\<close> is the error of \<open>net.SplitHostPort\<close>.\<close>

record peer_url =
  pu_Scheme :: string
  pu_User :: bool
  pu_Hostname :: string
  pu_RawQuery :: string
  pu_Fragment :: string

record 'w peer_net =
  net_ParseURL :: "string \<Rightarrow> peer_url result"
  net_ParseAddr :: "string \<Rightarrow> addr option"
  net_Quote :: "string \<Rightarrow> string"
  net_SplitError :: "string \<Rightarrow> go_error"
  net_IP_String :: "8 word list \<Rightarrow> string"
  net_LookupIPAddr :: "string \<Rightarrow> ('w, 8 word list list result) srv"
  net_Dial :: "string \<Rightarrow> ('w, conn result) srv"

text \<open>
  \<open>strings.ToLower\<close> on the host. Two letters outside ASCII have lower-case forms inside it, \<open>k\<close> and \<open>i\<close>; neither occurs
  in the texts the host is compared with, nor in the digits of an address.
\<close>

definition to_lower :: "string \<Rightarrow> string" where
  "to_lower s = map (\<lambda>c. let n = of_char c :: int in if 65 \<le> n \<and> n \<le> 90 then char_of (n + 32) else c) s"

definition HasSuffix :: "string \<Rightarrow> string \<Rightarrow> bool" where
  "HasSuffix s suffix \<longleftrightarrow> length suffix \<le> length s \<and> drop (length s - length suffix) s = suffix"

definition TrimSuffix :: "string \<Rightarrow> string \<Rightarrow> string" where
  "TrimSuffix s suffix = (if HasSuffix s suffix then take (length s - length suffix) s else s)"

definition validatePeerURL :: "'w peer_net \<Rightarrow> string \<Rightarrow> bool \<Rightarrow> go_error option" where
  "validatePeerURL net raw allowInsecure =
     (case net_ParseURL net raw of
        Inl e \<Rightarrow> Some (wrap ''parse peer USS URL'' e)
      | Inr parsed \<Rightarrow>
      if pu_User parsed \<or> pu_Hostname parsed = [] \<or> pu_RawQuery parsed \<noteq> [] \<or> pu_Fragment parsed \<noteq> []
      then Some (errorf ''peer USS URL must contain only a scheme, host, port, and optional path'')
      else if pu_Scheme parsed \<noteq> ''http'' \<and> pu_Scheme parsed \<noteq> ''https''
      then Some (errorf (''peer USS URL scheme '' @ net_Quote net (pu_Scheme parsed) @ '' is not supported''))
      else if allowInsecure then None
      else if pu_Scheme parsed \<noteq> ''https'' then Some (errorf ''peer USS URL must use HTTPS'')
      else
        let host = to_lower (TrimSuffix (pu_Hostname parsed) ''.'') in
        if host = ''localhost'' \<or> HasSuffix host ''.localhost''
        then Some (errorf ''peer USS URL cannot target localhost'')
        else case net_ParseAddr net host of
          Some address \<Rightarrow>
            if \<not> publicPeerAddr address
            then Some (errorf ''peer USS URL cannot target a private or local address'') else None
        | None \<Rightarrow> None)"

text \<open>\<open>transport.DialContext\<close>; where insecure peers are allowed the transport keeps its own dialler.\<close>

fun first_public :: "8 word list list \<Rightarrow> 8 word list option" where
  "first_public [] = None"
| "first_public (ip # ips) = (if publicPeerIP ip then Some ip else first_public ips)"

definition DialContext :: "'w peer_net \<Rightarrow> string \<Rightarrow> ('w, conn result) srv" where
  "DialContext net address =
     (case SplitHostPort address of
        None \<Rightarrow> State_Monad.return (Inl (wrap ''read peer address'' (net_SplitError net address)))
      | Some (host, port) \<Rightarrow> do {
          found \<leftarrow> net_LookupIPAddr net host;
          case found of
            Inl e \<Rightarrow> State_Monad.return (Inl (wrap (''resolve peer host '' @ net_Quote net host) e))
          | Inr addresses \<Rightarrow>
              (case first_public addresses of
                 Some ip \<Rightarrow> net_Dial net (JoinHostPort (net_IP_String net ip) port)
               | None \<Rightarrow> State_Monad.return (Inl (errorf (''peer host '' @ net_Quote net host
                           @ '' does not resolve to a public address''))))
        })"

definition peer_dial :: "'w peer_net \<Rightarrow> bool \<Rightarrow> string \<Rightarrow> ('w, conn result) srv" where
  "peer_dial net allowInsecurePeerURLs address =
     (if allowInsecurePeerURLs then net_Dial net address else DialContext net address)"

definition CheckRedirect :: "'w peer_net \<Rightarrow> bool \<Rightarrow> string \<Rightarrow> nat \<Rightarrow> go_error option" where
  "CheckRedirect net allowInsecurePeerURLs url via =
     (if 10 \<le> via then Some (errorf ''too many peer redirects'') else validatePeerURL net url allowInsecurePeerURLs)"

subsection \<open>The public address space\<close>

text \<open>
  A reference: the unsigned numbers of public IPv4 addresses lie in none of the intervals of the first list,
  those of IPv6 addresses between \<open>2000::\<close> and the end of \<open>3fff:\<close> and in none of the second.
\<close>

definition quad :: "int \<Rightarrow> int \<Rightarrow> int \<Rightarrow> int \<Rightarrow> int" where
  "quad a b c d = ((a * 256 + b) * 256 + c) * 256 + d"

definition reserved_v4 :: "(int \<times> int) list" where
  "reserved_v4 =
     [(quad 0 0 0 0, quad 0 255 255 255), (quad 10 0 0 0, quad 10 255 255 255),
      (quad 100 64 0 0, quad 100 127 255 255), (quad 127 0 0 0, quad 127 255 255 255),
      (quad 169 254 0 0, quad 169 254 255 255), (quad 172 16 0 0, quad 172 31 255 255),
      (quad 192 0 0 0, quad 192 0 0 255), (quad 192 0 2 0, quad 192 0 2 255),
      (quad 192 31 196 0, quad 192 31 196 255), (quad 192 52 193 0, quad 192 52 193 255),
      (quad 192 88 99 0, quad 192 88 99 255), (quad 192 168 0 0, quad 192 168 255 255),
      (quad 192 175 48 0, quad 192 175 48 255), (quad 198 18 0 0, quad 198 19 255 255),
      (quad 198 51 100 0, quad 198 51 100 255), (quad 203 0 113 0, quad 203 0 113 255),
      (quad 224 0 0 0, quad 255 255 255 255)]"

text \<open>An IPv6 interval by the upper 64 bits of its ends.\<close>

definition upper_half :: "int \<Rightarrow> int \<Rightarrow> int \<Rightarrow> int \<Rightarrow> int" where
  "upper_half a b c d = ((a * 0x10000 + b) * 0x10000 + c) * 0x10000 + d"

definition reserved_v6 :: "(int \<times> int) list" where
  "reserved_v6 =
     [(upper_half 0x2001 0 0 0, upper_half 0x2001 0x1ff 0xffff 0xffff),
      (upper_half 0x2001 0xdb8 0 0, upper_half 0x2001 0xdb8 0xffff 0xffff),
      (upper_half 0x2002 0 0 0, upper_half 0x2002 0xffff 0xffff 0xffff),
      (upper_half 0x2620 0x4f 0x8000 0, upper_half 0x2620 0x4f 0x8000 0xffff),
      (upper_half 0x3fff 0 0 0, upper_half 0x3fff 0x0fff 0xffff 0xffff)]"

definition between :: "int \<Rightarrow> int \<times> int \<Rightarrow> bool" where
  "between x r \<longleftrightarrow> fst r \<le> x \<and> x \<le> snd r"

definition public_space :: "addr \<Rightarrow> bool" where
  "public_space a = (case Unmap a of
      IPv4 w \<Rightarrow> \<not> list_ex (between (uint w)) reserved_v4
    | IPv6 w zone \<Rightarrow> zone = [] \<and> between (uint w div 2 ^ 64) (upper_half 0x2000 0 0 0, upper_half 0x3fff 0xffff 0xffff 0xffff)
        \<and> \<not> list_ex (between (uint w div 2 ^ 64)) reserved_v6)"

text \<open>A name that resolves to a private address and to a public one.\<close>

definition two_homed :: "unit peer_net" where
  "two_homed = \<lparr>
     net_ParseURL = (\<lambda>raw. Inr \<lparr>pu_Scheme = ''https'', pu_User = False, pu_Hostname = ''peer.example'',
       pu_RawQuery = [], pu_Fragment = []\<rparr>),
     net_ParseAddr = (\<lambda>host. None), net_Quote = quote, net_SplitError = errorf,
     net_IP_String = (\<lambda>ip. if ip = [8, 8, 4, 4] then ''8.8.4.4'' else ''10.0.0.7''),
     net_LookupIPAddr = (\<lambda>host. State_Monad.return (Inr [[10, 0, 0, 7], [8, 8, 4, 4]])),
     net_Dial = (\<lambda>address. State_Monad.return (if address = ''8.8.4.4:443'' then Inr 1 else Inl (errorf ''refused'')))\<rparr>"

section \<open>Lemmas\<close>

text \<open>A prefix contains the words of one interval of numbers.\<close>

lemma div_is: "0 < d \<Longrightarrow> x div d = q \<longleftrightarrow> d * q \<le> x \<and> x \<le> d * q + (d - 1)" for x d q :: int
proof
  assume d: "0 < d" and "x div d = q"
  then have "x = d * q + x mod d" by (metis mult_div_mod_eq)
  with d pos_mod_sign [of d x] pos_mod_bound [of d x] show "d * q \<le> x \<and> x \<le> d * q + (d - 1)" by linarith
next
  assume "0 < d" and "d * q \<le> x \<and> x \<le> d * q + (d - 1)"
  then show "x div d = q" by (intro int_div_pos_eq [where r = "x - d * q"]) auto
qed

lemma uint_drop: "uint (drop_bit k w) = uint w div 2 ^ k" for w :: "'n::len word"
proof -
  have "uint (drop_bit k w) = drop_bit k (uint w)" by (simp add: unsigned_drop_bit_eq take_bit_int_eq_self)
  then show ?thesis by (simp only: drop_bit_eq_div)
qed

lemma drop_is:
  fixes w :: "'n::len word"
  shows "drop_bit k w = v \<longleftrightarrow> uint w div 2 ^ k = uint v"
  using uint_drop [of k w] by (metis word_uint_eq_iff)

lemma drop_xor:
  fixes w p :: "'n::len word"
  shows "drop_bit k (xor w p) = 0 \<longleftrightarrow> uint w div 2 ^ k = uint p div 2 ^ k"
proof -
  have xor: "xor a b = 0 \<longleftrightarrow> a = b" for a b :: "'n word"
    by (metis xor.assoc xor.left_neutral xor.right_neutral xor_self_eq)
  have "drop_bit k (xor w p) = 0 \<longleftrightarrow> drop_bit k w = drop_bit k p"
    unfolding drop_bit_xor by (rule xor)
  then show ?thesis unfolding drop_is uint_drop .
qed

lemma Contains_div:
  "Contains (Prefix4 p n) (IPv4 w) \<longleftrightarrow> uint w div 2 ^ (32 - n) = uint p div 2 ^ (32 - n)"
  "Contains (Prefix6 q m) (IPv6 v zone) \<longleftrightarrow> zone = [] \<and> uint v div 2 ^ (128 - m) = uint q div 2 ^ (128 - m)"
  unfolding Contains.simps drop_xor by (rule refl)+

declare Contains.simps(1,2) [simp del]

lemma public_v4: "publicPeerAddr (IPv4 w) \<longleftrightarrow> public_space (IPv4 w)"
proof -
  have w: "0 \<le> uint w" "uint w < 2 ^ 32" using uint_lt2p [of w] by auto
  have low: "uint w = 0 \<longrightarrow> uint w \<le> 16777215" and top: "uint w = 4294967295 \<longrightarrow> 4026531840 \<le> uint w"
    and reserved: "4026531840 \<le> uint w \<longrightarrow> 3758096384 \<le> uint w"
    and multicast: "3758096384 \<le> uint w \<longrightarrow> uint w \<le> 4026531839 \<or> 4026531840 \<le> uint w"
    and range: "uint w \<le> 4294967295"
    using w by auto
  have zero: "w = 0 \<longleftrightarrow> uint w = 0" and ones: "w = 0xffffffff \<longleftrightarrow> uint w = 0xffffffff"
    by (simp_all add: word_uint_eq_iff)
  show ?thesis
    using w apply (simp add: publicPeerAddr_def public_space_def Unmap_def Is6_def Let_def specialUsePeerPrefixes_def reserved_v4_def
        Contains_div dotted_def quad_def between_def drop_is div_is zero ones)
    using low top reserved multicast range apply argo
    done
qed

lemma Contains_upper:
  assumes "m \<le> 64"
  shows "Contains (Prefix6 q m) (IPv6 v zone) \<longleftrightarrow>
    zone = [] \<and> (uint v div 2 ^ 64) div 2 ^ (64 - m) = (uint q div 2 ^ 64) div 2 ^ (64 - m)"
proof -
  have "128 - m = 64 + (64 - m)" using assms by simp
  then have "(2 :: int) ^ (128 - m) = 2 ^ 64 * 2 ^ (64 - m)" by (simp only: power_add)
  then have "x div 2 ^ (128 - m) = x div 2 ^ 64 div 2 ^ (64 - m)" for x :: int
    by (simp only: zdiv_zmult2_eq zero_le_power zero_le_numeral)
  then show ?thesis by (simp only: Contains_div)
qed

lemma public_v6:
  assumes "drop_bit 32 w \<noteq> 0xffff"
  shows "publicPeerAddr (IPv6 w zone) \<longleftrightarrow> public_space (IPv6 w zone)"
proof -
  define h where "h = uint w div 2 ^ 64"
  have h_is: "uint w div 18446744073709551616 = h" by (simp add: h_def)
  have unmapped: "Unmap (IPv6 w zone) = IPv6 w zone" using assms by (simp add: Unmap_def)
  have inside: "IsGlobalUnicast (IPv6 w zone)" "\<not> Contains (Prefix6 (leading 0x64 0xff9b 0 0) 96) (IPv6 w zone)"
    if "Contains globalIPv6PeerPrefix (IPv6 w zone)"
    using that by (auto simp: drop_is div_is Contains_div globalIPv6PeerPrefix_def leading_def groups_def)
  have global: "Contains globalIPv6PeerPrefix (IPv6 w zone) \<longleftrightarrow>
      zone = [] \<and> between h (upper_half 0x2000 0 0 0, upper_half 0x3fff 0xffff 0xffff 0xffff)"
    by (simp add: globalIPv6PeerPrefix_def Contains_upper div_is h_is leading_def groups_def between_def upper_half_def)
  show ?thesis
  proof (cases "Contains globalIPv6PeerPrefix (IPv6 w zone)")
    case True
    with global have zone: "zone = []" and h: "0x2000000000000000 \<le> h" "h \<le> 0x3fffffffffffffff"
      by (simp_all add: between_def upper_half_def)
    have spared: "uint w div 2 ^ 32 \<noteq> 0x0064ff9b0000000000000000"
      using inside(2) [OF True] by (auto simp: Contains_div leading_def groups_def zone)
    show ?thesis
      using True inside(1) [OF True] global h spared unmapped
      by (simp add: publicPeerAddr_def public_space_def Is6_def Let_def specialUsePeerPrefixes_def reserved_v6_def
          Contains_upper Contains_div(2) [of _ 96] zone h_is div_is leading_def groups_def between_def upper_half_def)
  next
    case False
    with global show ?thesis
      by (auto simp: publicPeerAddr_def public_space_def unmapped Is6_def Let_def h_def)
  qed
qed

lemma first_public_in: "first_public ips = Some ip \<Longrightarrow> ip \<in> set ips \<and> publicPeerIP ip"
  by (induction ips) (auto split: if_splits)

lemma first_public_None: "first_public ips = None \<longleftrightarrow> \<not> list_ex publicPeerIP ips"
  by (induction ips) auto

lemma Unmap_idem [simp]: "Unmap (Unmap a) = Unmap a"
  by (cases a) (auto simp: Unmap_def)

lemma publicPeerAddr_space: "publicPeerAddr a \<longleftrightarrow> public_space a"
proof (cases a)
  case (IPv6 w zone)
  show ?thesis
  proof (cases "drop_bit 32 w = 0xffff")
    case True
    then have "Unmap a = Unmap (IPv4 (ucast w))" by (simp add: IPv6 Unmap_def)
    then have "publicPeerAddr a = publicPeerAddr (IPv4 (ucast w))" "public_space a = public_space (IPv4 (ucast w))"
      by (simp_all add: publicPeerAddr_def public_space_def)
    then show ?thesis by (simp add: public_v4)
  qed (simp add: IPv6 public_v6)
qed (simp add: public_v4)

lemma publicPeerIP_space:
  "publicPeerIP ip \<longleftrightarrow> (case AddrFromSlice ip of None \<Rightarrow> False | Some a \<Rightarrow> public_space a)"
proof -
  have "publicPeerAddr (Unmap a) \<longleftrightarrow> public_space a" for a
    by (simp add: publicPeerAddr_def flip: publicPeerAddr_space)
  then show ?thesis by (simp add: publicPeerIP_def split: option.splits)
qed

section \<open>Properties\<close>

text \<open>
  C25: the prefix tests on words accept exactly the addresses outside the reserved intervals of numbers: an IPv4
  address, also one written as an IPv6 address, in none of 17 intervals; an IPv6 address without a zone inside
  the global unicast space and in none of 5.
\<close>

theorem public_addresses_exactly: "publicPeerAddr a \<longleftrightarrow> public_space a"
  by (rule publicPeerAddr_space)

text \<open>
  Whatever the name of a peer resolves to, a connection that is made while insecure peers are not allowed
  goes to a public address among those the resolver answered just before, at the port asked for.
\<close>

lemma peer_connection_public:
  assumes "run_state (peer_dial net False address) \<sigma> = (Inr c, \<sigma>')"
  shows "\<exists>host port ips ip a \<sigma>1. SplitHostPort address = Some (host, port)
    \<and> run_state (net_LookupIPAddr net host) \<sigma> = (Inr ips, \<sigma>1)
    \<and> ip \<in> set ips \<and> AddrFromSlice ip = Some a \<and> public_space a
    \<and> run_state (net_Dial net (JoinHostPort (net_IP_String net ip) port)) \<sigma>1 = (Inr c, \<sigma>')"
proof -
  from assms obtain host port where split: "SplitHostPort address = Some (host, port)"
    by (auto simp: peer_dial_def DialContext_def split: option.splits)
  with assms obtain ips \<sigma>1 where look: "run_state (net_LookupIPAddr net host) \<sigma> = (Inr ips, \<sigma>1)"
    by (cases "run_state (net_LookupIPAddr net host) \<sigma>") (auto simp: peer_dial_def DialContext_def split: sum.splits)
  from assms split look obtain ip where ip: "first_public ips = Some ip"
    and dial: "run_state (net_Dial net (JoinHostPort (net_IP_String net ip) port)) \<sigma>1 = (Inr c, \<sigma>')"
    by (auto simp: peer_dial_def DialContext_def split: option.splits)
  from first_public_in [OF ip] obtain a where "ip \<in> set ips" "AddrFromSlice ip = Some a" "public_space a"
    by (auto simp: publicPeerIP_space split: option.splits)
  with split look dial show ?thesis by blast
qed

lemma peer_connection_public_witness:
  "\<exists>ips ip a \<sigma>1. run_state (net_LookupIPAddr two_homed ''peer.example'') (NewStore, ()) = (Inr ips, \<sigma>1)
    \<and> ip \<in> set ips \<and> AddrFromSlice ip = Some a \<and> public_space a
    \<and> run_state (net_Dial two_homed (JoinHostPort (net_IP_String two_homed ip) ''443'')) \<sigma>1 = (Inr 1, (NewStore, ()))"
proof -
  have split: "SplitHostPort ''peer.example:443'' = Some (''peer.example'', ''443'')"
    by (simp add: SplitHostPort_def last_colon_def)
  have "\<not> publicPeerIP [10, 0, 0, 7]" "publicPeerIP [8, 8, 4, 4]"
    by (simp_all add: publicPeerIP_space AddrFromSlice_def big_endian_def public_space_def Unmap_def reserved_v4_def
        between_def quad_def)
  then have "run_state (peer_dial two_homed False ''peer.example:443'') (NewStore, ()) = (Inr 1, (NewStore, ()))"
    by (simp add: peer_dial_def DialContext_def split two_homed_def JoinHostPort_def)
  from peer_connection_public [OF this] split show ?thesis by auto
qed

text \<open>A validated URL of a peer, where insecure ones are not allowed.\<close>

lemma validated_peer_url:
  "validatePeerURL net raw False = None \<longleftrightarrow>
    (\<exists>u. net_ParseURL net raw = Inr u \<and> pu_Scheme u = ''https'' \<and> \<not> pu_User u \<and> pu_Hostname u \<noteq> []
      \<and> pu_RawQuery u = [] \<and> pu_Fragment u = []
      \<and> (let host = to_lower (TrimSuffix (pu_Hostname u) ''.'')
         in host \<noteq> ''localhost'' \<and> \<not> HasSuffix host ''.localhost''
           \<and> (case net_ParseAddr net host of None \<Rightarrow> True | Some a \<Rightarrow> public_space a)))"
  by (auto simp: validatePeerURL_def Let_def publicPeerAddr_space split: sum.splits if_splits option.splits)

end
