(* ===== verification/Interuss.thy ===== *)
theory Interuss
  imports Peer_Address
begin

text \<open>
  The reading half of \<open>internal/airspaceprovider/interuss/provider.go\<close>: the airspace provider that asks the
  DSS which intents of other service suppliers lie near the given volumes, and fetches each of them
  from the supplier that manages it. The client package (\<open>dss-clients\<close>) and its transport, and \<open>encoding/json\<close>, are
  parameters (\<open>scd_client\<close>); a value of a union type of that package is what its accessor returns.
\<close>

section \<open>Definitions\<close>

subsection \<open>Messages\<close>

record LatLngPoint =
  ll_Lat :: real
  ll_Lng :: real

record Altitude =
  alt_Reference :: string
  alt_Units :: string
  alt_Value :: real

record Radius =
  ra_Units :: string
  ra_Value :: real

record Circle =
  ci_Center :: "LatLngPoint option"
  ci_Radius :: "Radius option"

record Volume3D =
  v3_AltitudeLower :: "Altitude result option"
  v3_AltitudeUpper :: "Altitude result option"
  v3_OutlinePolygon :: "LatLngPoint list result option"
  v3_OutlineCircle :: "Circle result option"

record Volume4D =
  v4_TimeStart :: "time result option"
  v4_TimeEnd :: "time result option"
  v4_Volume :: Volume3D

datatype OperationalIntentState = Accepted | Activated | Nonconforming | Contingent | StateOther string

text \<open>
  An identity is what \<open>AsUUIDv4Format\<close> and \<open>String\<close> make of it; that of a subscription is first read by
  \<open>AsSubscriptionID\<close>.
\<close>

record SCDReference =
  ref_Id :: "string result"
  ref_Manager :: string
  ref_Ovn :: "string result option"
  ref_State :: OperationalIntentState
  ref_SubscriptionId :: "string result result"
  ref_UssBaseUrl :: "string result"
  ref_Version :: int

record SCDDetails =
  det_Priority :: "int option"
  det_Volumes :: "Volume4D list option"
  det_OffNominalVolumes :: "Volume4D list option"

record SCDIntent =
  sci_Reference :: SCDReference
  sci_Details :: SCDDetails

record 'a Response =
  rs_StatusCode :: int
  rs_Body :: bytes
  rs_JSON :: "'a option"

text \<open>What the DSS, the peers and \<open>encoding/json\<close> are asked while intents are searched.\<close>

record 'w scd_client =
  scd_net :: "'w peer_net"
  scd_insecure :: bool
  scd_Query :: "Volume4D \<Rightarrow> ('w, SCDReference list Response result) srv"
  scd_GetDetails :: "SCDReference \<Rightarrow> ('w, SCDIntent result) srv"
  scd_FromAltitude :: "Altitude \<Rightarrow> go_error option"
  scd_FromPolygon :: "LatLngPoint list \<Rightarrow> go_error option"
  scd_FromTime :: "time \<Rightarrow> go_error option"
  scd_marshalPolygon :: "(real \<times> real) list \<Rightarrow> string result"
  scd_decodeGeometry :: "string \<Rightarrow> (string \<times> string option \<times> real list list list) result"
  scd_stateText :: "OperationalIntentState \<Rightarrow> string"

subsection \<open>Geometry\<close>

definition box_polygon :: "geoBounds \<Rightarrow> LatLngPoint list" where
  "box_polygon b =
     [\<lparr>ll_Lat = bo_minLat b, ll_Lng = bo_minLon b\<rparr>, \<lparr>ll_Lat = bo_minLat b, ll_Lng = bo_maxLon b\<rparr>,
      \<lparr>ll_Lat = bo_maxLat b, ll_Lng = bo_maxLon b\<rparr>, \<lparr>ll_Lat = bo_maxLat b, ll_Lng = bo_minLon b\<rparr>]"

definition metersPerDegree :: real where
  "metersPerDegree = 110000"

definition expand :: "real \<Rightarrow> geoBounds \<Rightarrow> geoBounds" where
  "expand meters bounds =
     (if meters \<le> 0 then bounds
      else
        let latitudeDelta = meters / metersPerDegree;
            maxAbsLatitude = max \<bar>bo_minLat bounds\<bar> \<bar>bo_maxLat bounds\<bar>;
            cosLatitude = cos ((maxAbsLatitude + latitudeDelta) * pi / 180);
            cosLatitude = (if cosLatitude < 1 / 100 then 1 / 100 else cosLatitude);
            longitudeDelta = meters / (metersPerDegree * cosLatitude)
        in \<lparr>bo_minLat = max (-90) (bo_minLat bounds - latitudeDelta),
            bo_maxLat = min 90 (bo_maxLat bounds + latitudeDelta),
            bo_minLon = bo_minLon bounds - longitudeDelta,
            bo_maxLon = bo_maxLon bounds + longitudeDelta\<rparr>)"

definition crossesAntimeridian :: "geoBounds \<Rightarrow> bool" where
  "crossesAntimeridian bounds \<longleftrightarrow> bo_minLon bounds < -180 \<or> bo_maxLon bounds > 180
     \<or> bo_maxLon bounds - bo_minLon bounds > 180"

text \<open>Decoded numbers are finite. A position is a longitude and a latitude, further numbers are ignored.\<close>

definition valid_position :: "real list \<Rightarrow> bool" where
  "valid_position p \<longleftrightarrow> length p \<ge> 2 \<and> -180 \<le> p ! 0 \<and> p ! 0 \<le> 180 \<and> -90 \<le> p ! 1 \<and> p ! 1 \<le> 90"

definition scd_ring_bounds :: "real list list \<Rightarrow> geoBounds result" where
  "scd_ring_bounds ring =
     (let first = hd ring; last = List.last ring in
      if length first < 2 \<or> length last < 2 \<or> first ! 0 \<noteq> last ! 0 \<or> first ! 1 \<noteq> last ! 1
      then Inl (errorf ''GeoJSON polygon exterior ring is not closed'')
      else if list_ex (\<lambda>p. \<not> valid_position p) ring
      then Inl (errorf ''GeoJSON polygon contains an invalid coordinate'')
      else Inr (fold (\<lambda>p. include_position (p ! 0, p ! 1)) ring start_bounds))"

text \<open>The geometry of a feature is a proper part of its text, so that its length bounds the recursion.\<close>

fun scd_exterior :: "'w scd_client \<Rightarrow> nat \<Rightarrow> string \<Rightarrow> real list list result" where
  "scd_exterior cl fuel raw =
     (if TrimSpace raw = [] then Inl (errorf ''inline GeoJSON polygon is required for DSS discovery'')
      else case scd_decodeGeometry cl raw of
        Inl e \<Rightarrow> Inl (wrap ''decode GeoJSON'' e)
      | Inr (type, geometry, coordinates) \<Rightarrow>
      if type = ''Feature''
      then (case geometry of
              None \<Rightarrow> Inl (errorf ''GeoJSON feature has no geometry'')
            | Some inner \<Rightarrow> (case fuel of 0 \<Rightarrow> Inl (errorf []) | Suc fuel' \<Rightarrow> scd_exterior cl fuel' inner))
      else if type \<noteq> ''Polygon'' \<or> coordinates = [] \<or> length (hd coordinates) < 4
      then Inl (errorf ''GeoJSON must contain a polygon with a closed exterior ring'')
      else Inr (hd coordinates))"

declare scd_exterior.simps [simp del]

definition scd_geoJSONBounds :: "'w scd_client \<Rightarrow> string \<Rightarrow> geoBounds result" where
  "scd_geoJSONBounds cl raw =
     (case scd_exterior cl (length raw) raw of Inl e \<Rightarrow> Inl e | Inr ring \<Rightarrow> scd_ring_bounds ring)"

subsection \<open>Volumes for the DSS\<close>

definition W84 :: string where "W84 = ''W84''"
definition UnitsM :: string where "UnitsM = ''M''"

fun AltitudeReference_text :: "AltitudeReference \<Rightarrow> string" where
  "AltitudeReference_text AltitudeReferenceAGL = ''agl''"
| "AltitudeReference_text AltitudeReferenceMSL = ''msl''"
| "AltitudeReference_text AltitudeReferenceWGS84 = ''wgs84''"
| "AltitudeReference_text AltitudeReferenceRelative = ''relative''"
| "AltitudeReference_text AltitudeReferenceBaro = ''barometric''"
| "AltitudeReference_text (AltitudeReferenceOther s) = s"

definition scd_altitude :: "real \<Rightarrow> Altitude" where
  "scd_altitude metres = \<lparr>alt_Reference = W84, alt_Units = UnitsM, alt_Value = metres\<rparr>"

definition scd_volume :: "OperationalVolume \<Rightarrow> geoBounds \<Rightarrow> Volume4D" where
  "scd_volume volume bounds = \<lparr>
     v4_TimeStart = Some (Inr (ov_StartsAt volume)), v4_TimeEnd = Some (Inr (ov_EndsAt volume)),
     v4_Volume = \<lparr>v3_AltitudeLower = Some (Inr (scd_altitude (ov_MinAltitudeM volume))),
       v3_AltitudeUpper = Some (Inr (scd_altitude (ov_MaxAltitudeM volume))),
       v3_OutlinePolygon = Some (Inr (box_polygon bounds)), v3_OutlineCircle = None\<rparr>\<rparr>"

definition first_error :: "go_error option list \<Rightarrow> go_error option" where
  "first_error es = (case filter (\<lambda>e. e \<noteq> None) es of [] \<Rightarrow> None | e # _ \<Rightarrow> e)"

definition toSCDVolume :: "'w scd_client \<Rightarrow> OperationalVolume \<Rightarrow> Volume4D result" where
  "toSCDVolume cl volume =
     (if ov_AltitudeRef volume \<noteq> AltitudeReferenceWGS84
      then Inl (errorf (''altitude reference '' @ net_Quote (scd_net cl) (AltitudeReference_text (ov_AltitudeRef volume))
             @ '' is not supported by SCD''))
      else if IsZero (ov_StartsAt volume) \<or> IsZero (ov_EndsAt volume) \<or> \<not> ov_StartsAt volume < ov_EndsAt volume
      then Inl (errorf ''time window is invalid'')
      else if ov_MinAltitudeM volume < 0 \<or> ov_MinAltitudeM volume \<ge> ov_MaxAltitudeM volume
      then Inl (errorf ''altitude band is invalid'')
      else case scd_geoJSONBounds cl (ov_GeoJSON volume) of
        Inl e \<Rightarrow> Inl e
      | Inr bounds \<Rightarrow>
          let bounds = (case ov_BufferMeters volume of None \<Rightarrow> bounds | Some meters \<Rightarrow> expand meters bounds) in
          if crossesAntimeridian bounds then Inl (errorf ''geometry crossing the antimeridian is not supported'')
          else case first_error [scd_FromAltitude cl (scd_altitude (ov_MinAltitudeM volume)),
              scd_FromAltitude cl (scd_altitude (ov_MaxAltitudeM volume)), scd_FromPolygon cl (box_polygon bounds),
              scd_FromTime cl (ov_StartsAt volume), scd_FromTime cl (ov_EndsAt volume)] of
            Some e \<Rightarrow> Inl e
          | None \<Rightarrow> Inr (scd_volume volume bounds))"

subsection \<open>Volumes of a peer\<close>

definition crossing_or :: "geoBounds \<Rightarrow> string \<Rightarrow> string result \<Rightarrow> string result" where
  "crossing_or bounds message r = (if crossesAntimeridian bounds then Inl (errorf message) else r)"

definition marshalPolygon :: "'w scd_client \<Rightarrow> (real \<times> real) list \<Rightarrow> string result" where
  "marshalPolygon cl ring =
     (case scd_marshalPolygon cl ring of
        Inl e \<Rightarrow> Inl (wrap ''encode polygon'' e)
      | Inr document \<Rightarrow> Inr document)"

definition valid_vertex :: "LatLngPoint \<Rightarrow> bool" where
  "valid_vertex v \<longleftrightarrow> -90 \<le> ll_Lat v \<and> ll_Lat v \<le> 90 \<and> -180 \<le> ll_Lng v \<and> ll_Lng v \<le> 180"

definition lng_lat :: "LatLngPoint \<Rightarrow> real \<times> real" where
  "lng_lat v = (ll_Lng v, ll_Lat v)"

definition polygon_geoJSON :: "'w scd_client \<Rightarrow> LatLngPoint list \<Rightarrow> string result" where
  "polygon_geoJSON cl vertices =
     (if length vertices < 3 then Inl (errorf ''polygon has fewer than three vertices'')
      else if list_ex (\<lambda>v. \<not> valid_vertex v) vertices then Inl (errorf ''polygon contains an invalid coordinate'')
      else crossing_or (fold include_position (map lng_lat vertices) start_bounds)
        ''polygon crossing the antimeridian is not supported''
        (marshalPolygon cl (map lng_lat vertices @ [lng_lat (hd vertices)])))"

definition box_ring :: "geoBounds \<Rightarrow> (real \<times> real) list" where
  "box_ring b = [(bo_minLon b, bo_minLat b), (bo_maxLon b, bo_minLat b), (bo_maxLon b, bo_maxLat b),
     (bo_minLon b, bo_maxLat b), (bo_minLon b, bo_minLat b)]"

definition point_bounds :: "LatLngPoint \<Rightarrow> geoBounds" where
  "point_bounds v = \<lparr>bo_minLat = ll_Lat v, bo_maxLat = ll_Lat v, bo_minLon = ll_Lng v, bo_maxLon = ll_Lng v\<rparr>"

definition circle_geoJSON :: "'w scd_client \<Rightarrow> Circle \<Rightarrow> string result" where
  "circle_geoJSON cl circle =
     (case (ci_Center circle, ci_Radius circle) of
        (Some center, Some radius) \<Rightarrow>
          if ra_Units radius \<noteq> UnitsM \<or> ra_Value radius \<le> 0
          then Inl (errorf ''circle center and positive meter radius are required'')
          else
            let bounds = expand (ra_Value radius) (point_bounds center) in
            crossing_or bounds ''circle crossing the antimeridian is not supported'' (marshalPolygon cl (box_ring bounds))
      | _ \<Rightarrow> Inl (errorf ''circle center and positive meter radius are required''))"

definition scdGeometryGeoJSON :: "'w scd_client \<Rightarrow> Volume3D \<Rightarrow> string result" where
  "scdGeometryGeoJSON cl volume =
     (case (v3_OutlinePolygon volume, v3_OutlineCircle volume) of
        (Some _, Some _) \<Rightarrow> Inl (errorf ''volume contains both polygon and circle outlines'')
      | (Some polygon, None) \<Rightarrow>
          (case polygon of
             Inl e \<Rightarrow> Inl (wrap ''read polygon'' e)
           | Inr vertices \<Rightarrow> polygon_geoJSON cl vertices)
      | (None, Some circle) \<Rightarrow>
          (case circle of
             Inl e \<Rightarrow> Inl (wrap ''read circle'' e)
           | Inr circle \<Rightarrow> circle_geoJSON cl circle)
      | (None, None) \<Rightarrow> Inl (errorf ''volume has no geographic outline''))"

definition fromSCDVolume :: "'w scd_client \<Rightarrow> Volume4D \<Rightarrow> OperationalVolume result" where
  "fromSCDVolume cl volume =
     (case (v4_TimeStart volume, v4_TimeEnd volume,
         v3_AltitudeLower (v4_Volume volume), v3_AltitudeUpper (v4_Volume volume)) of
        (Some start, Some end_time, Some lower, Some upper) \<Rightarrow>
          (case start of Inl e \<Rightarrow> Inl (wrap ''read start time'' e) | Inr start \<Rightarrow>
           case end_time of Inl e \<Rightarrow> Inl (wrap ''read end time'' e) | Inr end_time \<Rightarrow>
           case lower of Inl e \<Rightarrow> Inl (wrap ''read lower altitude'' e) | Inr lower \<Rightarrow>
           case upper of Inl e \<Rightarrow> Inl (wrap ''read upper altitude'' e) | Inr upper \<Rightarrow>
           if alt_Reference lower \<noteq> W84 \<or> alt_Reference upper \<noteq> W84
              \<or> alt_Units lower \<noteq> UnitsM \<or> alt_Units upper \<noteq> UnitsM
           then Inl (errorf ''only W84 altitudes in meters are supported'')
           else case scdGeometryGeoJSON cl (v4_Volume volume) of
             Inl e \<Rightarrow> Inl e
           | Inr geoJSON \<Rightarrow> Inr (zero_OperationalVolume\<lparr>ov_GeoJSON := geoJSON,
               ov_MinAltitudeM := alt_Value lower, ov_MaxAltitudeM := alt_Value upper,
               ov_AltitudeRef := AltitudeReferenceWGS84, ov_StartsAt := start, ov_EndsAt := end_time\<rparr>))
      | _ \<Rightarrow> Inl (errorf ''time and altitude bounds are required''))"

definition peer_volume :: "string \<Rightarrow> int \<Rightarrow> string \<Rightarrow> nat \<Rightarrow> OperationalVolume \<Rightarrow> OperationalVolume" where
  "peer_volume intentID version kind index item = item\<lparr>
     ov_ID := intentID @ ''-v'' @ itoa version @ ''-'' @ kind @ ''-'' @ itoa (int index),
     ov_IntentID := intentID, ov_IntentVersion := version, ov_Sequence := int index,
     ov_VolumeType := (if kind = ''off-nominal'' then OperationalVolumeContingency else OperationalVolumeRoute)\<rparr>"

fun fromSCDVolumes_from :: "'w scd_client \<Rightarrow> string \<Rightarrow> int \<Rightarrow> string \<Rightarrow> nat \<Rightarrow> Volume4D list \<Rightarrow> OperationalVolume list result" where
  "fromSCDVolumes_from cl intentID version kind index [] = Inr []"
| "fromSCDVolumes_from cl intentID version kind index (volume # volumes) =
     (case fromSCDVolume cl volume of
        Inl e \<Rightarrow> Inl (wrap (kind @ '' volume '' @ itoa (int index)) e)
      | Inr item \<Rightarrow>
          (case fromSCDVolumes_from cl intentID version kind (Suc index) volumes of
             Inl e \<Rightarrow> Inl e
           | Inr items \<Rightarrow> Inr (peer_volume intentID version kind index item # items)))"

definition fromSCDVolumes :: "'w scd_client \<Rightarrow> string \<Rightarrow> int \<Rightarrow> string \<Rightarrow> Volume4D list \<Rightarrow> OperationalVolume list result" where
  "fromSCDVolumes cl intentID version kind volumes = fromSCDVolumes_from cl intentID version kind 0 volumes"

subsection \<open>Intents of a peer\<close>

definition referenceID :: "SCDReference \<Rightarrow> string result" where
  "referenceID reference =
     (case ref_Id reference of Inl e \<Rightarrow> Inl (wrap ''read entity ID'' e) | Inr i \<Rightarrow> Inr i)"

definition scd_intentStatus :: "OperationalIntentState \<Rightarrow> IntentStatus" where
  "scd_intentStatus state = (if state = Accepted then IntentStatusAccepted else IntentStatusActive)"

definition reference_text :: "'w scd_client \<Rightarrow> string \<Rightarrow> SCDReference \<Rightarrow> string" where
  "reference_text cl i reference = i @ '' v'' @ itoa (ref_Version reference) @ '' manager ''
     @ net_Quote (scd_net cl) (ref_Manager reference)
     @ '' state '' @ net_Quote (scd_net cl) (scd_stateText cl (ref_State reference))"

definition validateReturnedReference :: "'w scd_client \<Rightarrow> SCDReference \<Rightarrow> SCDReference \<Rightarrow> go_error option" where
  "validateReturnedReference cl expected actual =
     (case referenceID expected of
        Inl e \<Rightarrow> Some e
      | Inr expectedID \<Rightarrow>
      case referenceID actual of
        Inl e \<Rightarrow> Some (wrap ''read returned entity ID'' e)
      | Inr actualID \<Rightarrow>
          if actualID \<noteq> expectedID \<or> ref_Version actual \<noteq> ref_Version expected
             \<or> ref_Manager actual \<noteq> ref_Manager expected \<or> ref_State actual \<noteq> ref_State expected
          then Some (errorf (''peer returned mismatched reference: got '' @ reference_text cl actualID actual
                 @ '', want '' @ reference_text cl expectedID expected))
          else None)"

definition validateVolumeSets :: "'w scd_client \<Rightarrow> OperationalIntentState \<Rightarrow> nat \<Rightarrow> nat \<Rightarrow> go_error option" where
  "validateVolumeSets cl state nominal offNominal =
     (case state of
        Accepted \<Rightarrow>
          if nominal = 0 \<or> offNominal \<noteq> 0
          then Some (errorf (scd_stateText cl state @ '' intent requires nominal volumes and no off-nominal volumes''))
          else None
      | Activated \<Rightarrow>
          if nominal = 0 \<or> offNominal \<noteq> 0
          then Some (errorf (scd_stateText cl state @ '' intent requires nominal volumes and no off-nominal volumes''))
          else None
      | Nonconforming \<Rightarrow>
          if nominal = 0 \<or> offNominal = 0
          then Some (errorf ''nonconforming intent requires nominal and off-nominal volumes'') else None
      | Contingent \<Rightarrow>
          if nominal \<noteq> 0 \<or> offNominal = 0
          then Some (errorf ''contingent intent requires off-nominal volumes and no nominal volumes'') else None
      | StateOther s \<Rightarrow>
          Some (errorf (''operational intent state '' @ net_Quote (scd_net cl) s @ '' is not supported'')))"

definition peer_intent :: "string \<Rightarrow> SCDReference \<Rightarrow> OperationalIntent" where
  "peer_intent i reference = zero_OperationalIntent\<lparr>oi_ID := i, oi_Version := ref_Version reference,
     oi_Status := scd_intentStatus (ref_State reference)\<rparr>"

definition peer_source :: "string \<Rightarrow> string \<Rightarrow> string \<Rightarrow> SCDReference \<Rightarrow> Source" where
  "peer_source i baseURL ovn reference = zero_Source\<lparr>src_ReferenceID := i, src_Manager := ref_Manager reference,
     src_USSBaseURL := baseURL, src_Version := ref_Version reference, src_OVN := ovn\<rparr>"

text \<open>The volumes of one kind, where the details have any.\<close>

definition volumes_of :: "'w scd_client \<Rightarrow> string \<Rightarrow> int \<Rightarrow> string \<Rightarrow> Volume4D list option \<Rightarrow> OperationalVolume list result" where
  "volumes_of cl i version kind vs = (case vs of None \<Rightarrow> Inr [] | Some vs \<Rightarrow> fromSCDVolumes cl i version kind vs)"

definition fromSCDIntent :: "'w scd_client \<Rightarrow> SCDReference \<Rightarrow> SCDIntent \<Rightarrow> ProviderIntent result" where
  "fromSCDIntent cl reference intent =
     (case validateReturnedReference cl reference (sci_Reference intent) of Some e \<Rightarrow> Inl e | None \<Rightarrow>
      case referenceID reference of Inl e \<Rightarrow> Inl e | Inr i \<Rightarrow>
      case ref_UssBaseUrl reference of Inl e \<Rightarrow> Inl (wrap ''read USS base URL'' e) | Inr baseURL \<Rightarrow>
      case (case ref_Ovn (sci_Reference intent) of
              None \<Rightarrow> Inr []
            | Some (Inl e) \<Rightarrow> Inl (wrap ''read operational intent OVN'' e)
            | Some (Inr ovn) \<Rightarrow> Inr ovn) of Inl e \<Rightarrow> Inl e | Inr ovn \<Rightarrow>
      case volumes_of cl i (ref_Version reference) ''nominal'' (det_Volumes (sci_Details intent)) of
        Inl e \<Rightarrow> Inl e | Inr nominal \<Rightarrow>
      case volumes_of cl i (ref_Version reference) ''off-nominal'' (det_OffNominalVolumes (sci_Details intent)) of
        Inl e \<Rightarrow> Inl e | Inr offNominal \<Rightarrow>
      case validateVolumeSets cl (ref_State reference) (length nominal) (length offNominal) of Some e \<Rightarrow> Inl e | None \<Rightarrow>
        Inr \<lparr>pi_Source = peer_source i baseURL ovn reference, pi_Intent = peer_intent i reference,
          pi_Volumes = nominal, pi_OffNominalVolumes = offNominal\<rparr>)"

subsection \<open>The search\<close>

definition scd_Status_error :: "'a Response \<Rightarrow> go_error" where
  "scd_Status_error response = SCDResponseError (rs_StatusCode response) (rs_Body response)"

definition QueryOperationalIntentReferences :: "'w scd_client \<Rightarrow> Volume4D \<Rightarrow> ('w, SCDReference list result) srv" where
  "QueryOperationalIntentReferences cl area = do {
     answer \<leftarrow> scd_Query cl area;
     State_Monad.return (case answer of
       Inl e \<Rightarrow> Inl e
     | Inr response \<Rightarrow>
         if rs_StatusCode response \<noteq> 200 then Inl (scd_Status_error response)
         else case rs_JSON response of
           None \<Rightarrow> Inl (errorf ''DSS query returned 200 without a JSON body'')
         | Some references \<Rightarrow> Inr references)
   }"

definition scd_GetOperationalIntent :: "'w scd_client \<Rightarrow> SCDReference \<Rightarrow> ('w, SCDIntent result) srv" where
  "scd_GetOperationalIntent cl reference =
     (case ref_UssBaseUrl reference of
        Inl e \<Rightarrow> State_Monad.return (Inl (wrap ''read peer USS base URL'' e))
      | Inr baseURL \<Rightarrow>
          (case validatePeerURL (scd_net cl) baseURL (scd_insecure cl) of
             Some e \<Rightarrow> State_Monad.return (Inl e)
           | None \<Rightarrow> scd_GetDetails cl reference))"

text \<open>The loop over the references the DSS found for one volume.\<close>

definition keep_reference ::
  "string \<Rightarrow> SCDReference \<Rightarrow> SCDReference gomap \<times> go_error list \<Rightarrow> SCDReference gomap \<times> go_error list" where
  "keep_reference own reference acc = (case acc of (references, errs) \<Rightarrow>
     case referenceID reference of
       Inl e \<Rightarrow> (references, errs @ [wrap ''read DSS reference'' e])
     | Inr i \<Rightarrow>
         if i = own then (references, errs)
         else (case map_of references i of
             None \<Rightarrow> (AList.update i reference references, errs)
           | Some current \<Rightarrow>
               if ref_Version reference > ref_Version current
               then (AList.update i reference references, errs) else (references, errs)))"

fun search_volumes ::
  "'w scd_client \<Rightarrow> string \<Rightarrow> nat \<Rightarrow> OperationalVolume list \<Rightarrow> SCDReference gomap \<times> go_error list
    \<Rightarrow> ('w, SCDReference gomap \<times> go_error list) srv" where
  "search_volumes cl own index [] acc = State_Monad.return acc"
| "search_volumes cl own index (volume # volumes) acc =
     (case toSCDVolume cl volume of
        Inl e \<Rightarrow> search_volumes cl own (Suc index) volumes
          (fst acc, snd acc @ [wrap (''target volume '' @ net_Quote (scd_net cl) (ov_ID volume)) e])
      | Inr area \<Rightarrow> do {
          found \<leftarrow> QueryOperationalIntentReferences cl area;
          search_volumes cl own (Suc index) volumes (case found of
            Inl e \<Rightarrow> (fst acc, snd acc @ [wrap (''query target volume '' @ itoa (int index)) e])
          | Inr references \<Rightarrow> fold (keep_reference own) references acc)
        })"

fun fetch_intents ::
  "'w scd_client \<Rightarrow> SCDReference gomap \<Rightarrow> string list \<Rightarrow> ProviderIntent list \<times> go_error list
    \<Rightarrow> ('w, ProviderIntent list \<times> go_error list) srv" where
  "fetch_intents cl references [] acc = State_Monad.return acc"
| "fetch_intents cl references (i # ids) acc =
     (case map_of references i of
        None \<Rightarrow> fetch_intents cl references ids acc
      | Some reference \<Rightarrow> do {
          fetched \<leftarrow> scd_GetOperationalIntent cl reference;
          fetch_intents cl references ids (case fetched of
            Inl e \<Rightarrow> (fst acc, snd acc @ [wrap (''get operational intent '' @ i @ '':'' @ itoa (ref_Version reference)) e])
          | Inr intent \<Rightarrow>
              (case fromSCDIntent cl reference intent of
                 Inl e \<Rightarrow> (fst acc, snd acc @ [wrap (''convert operational intent '' @ i @ '':'' @ itoa (ref_Version reference)) e])
               | Inr rec \<Rightarrow> (fst acc @ [rec], snd acc)))
        })"

definition scd_FindOperationalIntents :: "'w scd_client \<Rightarrow> Query \<Rightarrow> ('w, ProviderIntent list \<times> go_error option) srv" where
  "scd_FindOperationalIntents cl query = do {
     (references, errs) \<leftarrow> search_volumes cl (oi_ID (q_Intent query)) 0 (q_Volumes query) ([], []);
     (records, errs) \<leftarrow> fetch_intents cl references (sort (map fst references)) ([], errs);
     State_Monad.return (records, join_errors errs)
   }"

definition interuss_provider :: "'w scd_client \<Rightarrow> 'w Provider" where
  "interuss_provider cl = \<lparr>pr_ID = ''interuss_scd'', pr_FindOperationalIntents = scd_FindOperationalIntents cl\<rparr>"

subsection \<open>A DSS that knows one intent of a peer\<close>

definition wgs_volume :: OperationalVolume where
  "wgs_volume = placed_volume\<lparr>ov_AltitudeRef := AltitudeReferenceWGS84\<rparr>"

definition peer_reference :: SCDReference where
  "peer_reference = \<lparr>ref_Id = Inr ''peer-1'', ref_Manager = ''peer'', ref_Ovn = None, ref_State = Accepted,
     ref_SubscriptionId = Inr (Inr ''sub-1''), ref_UssBaseUrl = Inr ''https://peer.example'', ref_Version = 2\<rparr>"

definition later_square :: Volume4D where
  "later_square = \<lparr>v4_TimeStart = Some (Inr 20), v4_TimeEnd = Some (Inr 30),
     v4_Volume = \<lparr>v3_AltitudeLower = Some (Inr (scd_altitude 0)), v3_AltitudeUpper = Some (Inr (scd_altitude 120)),
       v3_OutlinePolygon = Some (Inr (box_polygon \<lparr>bo_minLat = 0, bo_maxLat = 1, bo_minLon = 0, bo_maxLon = 1\<rparr>)),
       v3_OutlineCircle = None\<rparr>\<rparr>"

definition peer_details :: SCDIntent where
  "peer_details = \<lparr>sci_Reference = peer_reference\<lparr>ref_Ovn := Some (Inr ''ovn-2'')\<rparr>,
     sci_Details = \<lparr>det_Priority = None, det_Volumes = Some [later_square], det_OffNominalVolumes = None\<rparr>\<rparr>"

definition sample_client :: "unit scd_client" where
  "sample_client = \<lparr>scd_net = two_homed, scd_insecure = False,
     scd_Query = (\<lambda>area. State_Monad.return (Inr \<lparr>rs_StatusCode = 200, rs_Body = [], rs_JSON = Some [peer_reference]\<rparr>)),
     scd_GetDetails = (\<lambda>reference. State_Monad.return (Inr peer_details)),
     scd_FromAltitude = (\<lambda>a. None), scd_FromPolygon = (\<lambda>p. None), scd_FromTime = (\<lambda>t. None),
     scd_marshalPolygon = (\<lambda>ring. Inr ''x''),
     scd_decodeGeometry = (\<lambda>raw. Inr (''Polygon'', None, [[[0, 0], [1, 0], [1, 1], [0, 1], [0, 0]]])),
     scd_stateText = (\<lambda>state. [])\<rparr>"

definition peer_checker :: "unit DeconflictionChecker" where
  "peer_checker = \<lparr>dc_providers = [interuss_provider sample_client], dc_now = reads (\<lambda>_. 5), dc_json = square_json\<rparr>"

section \<open>Lemmas\<close>

lemma TrimSpace_Nil [simp]: "TrimSpace [] = []"
  by code_simp

text \<open>More fuel than the length of the text changes nothing where geometries are proper parts of it.\<close>

lemma exterior_fuel:
  assumes "\<And>r t inner cs. scd_decodeGeometry cl r = Inr (t, Some inner, cs) \<Longrightarrow> length inner < length r"
    and "length raw \<le> m" and "length raw \<le> n"
  shows "scd_exterior cl m raw = scd_exterior cl n raw"
  using assms(2,3)
proof (induction m arbitrary: raw n)
  case 0
  then have raw: "raw = []" by simp
  show ?case unfolding raw by (simp add: scd_exterior.simps)
next
  case (Suc m)
  show ?case
  proof (cases n)
    case 0
    with Suc have "raw = []" by simp
    then show ?thesis by (simp add: scd_exterior.simps)
  next
    case n: (Suc k)
    have "scd_exterior cl m inner = scd_exterior cl k inner"
      if "scd_decodeGeometry cl raw = Inr (t, Some inner, cs)" for t inner cs
      using Suc.IH [of inner k] assms(1) [OF that] Suc.prems n by simp
    then show ?thesis unfolding n by (auto simp: scd_exterior.simps split: sum.splits option.splits prod.splits)
  qed
qed

subsection \<open>The references that are kept\<close>

text \<open>What the map holds of the references seen so far: the newest of each identity but the own.\<close>

definition newest_references :: "string \<Rightarrow> SCDReference list \<Rightarrow> SCDReference gomap \<Rightarrow> bool" where
  "newest_references own rs m \<longleftrightarrow> distinct (map fst m)
     \<and> (\<forall>i r. map_of m i = Some r \<longrightarrow> i \<noteq> own \<and> r \<in> set rs \<and> referenceID r = Inr i
          \<and> (\<forall>r' \<in> set rs. referenceID r' = Inr i \<longrightarrow> ref_Version r' \<le> ref_Version r))
     \<and> (\<forall>r \<in> set rs. \<exists>i. referenceID r = Inr i \<and> (i = own \<or> map_of m i \<noteq> None))"

lemma newest_lookup:
  "newest_references own rs m \<Longrightarrow> map_of m i = Some r \<Longrightarrow> i \<noteq> own \<and> r \<in> set rs \<and> referenceID r = Inr i
    \<and> (\<forall>r' \<in> set rs. referenceID r' = Inr i \<longrightarrow> ref_Version r' \<le> ref_Version r)"
  unfolding newest_references_def by blast

lemma newest_named:
  assumes "newest_references own rs m" and "r \<in> set rs" and "referenceID r = Inr i" and "i \<noteq> own"
  obtains c where "map_of m i = Some c"
  using assms unfolding newest_references_def by (metis Inr_inject not_None_eq)

lemma newest_empty: "newest_references own [] []"
  by (simp add: newest_references_def)

lemma keep_errors: "\<exists>more. snd (fold (keep_reference own) rs acc) = snd acc @ more"
proof (induction rs arbitrary: acc)
  case (Cons r rs)
  have "\<exists>more. snd (keep_reference own r acc) = snd acc @ more"
    by (auto simp: keep_reference_def split: prod.split sum.split option.split)
  with Cons [of "keep_reference own r acc"] show ?case by auto
qed simp

lemma keep_newest:
  assumes "newest_references own rs m" and "keep_reference own r (m, []) = (m', [])"
  shows "newest_references own (rs @ [r]) m'"
proof -
  from assms(2) obtain i where i: "referenceID r = Inr i"
    by (auto simp: keep_reference_def split: sum.splits)
  consider "i = own" "m' = m"
    | "i \<noteq> own" "map_of m i = None" "m' = AList.update i r m"
    | c where "i \<noteq> own" "map_of m i = Some c" "ref_Version r > ref_Version c" "m' = AList.update i r m"
    | c where "i \<noteq> own" "map_of m i = Some c" "\<not> ref_Version r > ref_Version c" "m' = m"
    using assms(2) i by (auto simp: keep_reference_def split: if_splits option.splits)
  then show ?thesis
  proof cases
    case 1
    with assms(1) i show ?thesis by (auto simp: newest_references_def simp del: map_of_eq_None_iff map_of_eq_Some_iff)
  next
    case 2
    have "referenceID r' \<noteq> Inr i" if "r' \<in> set rs" for r'
      using assms(1) that 2 by (auto simp: newest_references_def simp del: map_of_eq_None_iff map_of_eq_Some_iff)
    with assms(1) i 2 show ?thesis
      by (fastforce simp: newest_references_def update_conv' distinct_update simp del: map_of_eq_None_iff map_of_eq_Some_iff)
  next
    case 3
    with assms(1) i show ?thesis
      by (fastforce simp: newest_references_def update_conv' distinct_update simp del: map_of_eq_None_iff map_of_eq_Some_iff)
  next
    case 4
    with assms(1) i show ?thesis
      by (force simp: newest_references_def simp del: map_of_eq_None_iff map_of_eq_Some_iff)
  qed
qed

lemma keep_fold:
  assumes "newest_references own rs m" and "fold (keep_reference own) rs' (m, []) = (m', [])"
  shows "newest_references own (rs @ rs') m'"
  using assms
proof (induction rs' arbitrary: rs m)
  case (Cons r rs')
  obtain m1 es where k: "keep_reference own r (m, []) = (m1, es)" by fastforce
  with Cons.prems(2) keep_errors [of own rs' "(m1, es)"] have "es = []" by auto
  with k Cons.prems keep_newest [OF Cons.prems(1)] Cons.IH [of "rs @ [r]" m1] show ?case by auto
qed simp

subsection \<open>The run of a search\<close>

text \<open>An answer the DSS gave in some state to the query for a volume; the details a peer gave of a reference.\<close>

definition asked :: "'w scd_client \<Rightarrow> OperationalVolume \<Rightarrow> SCDReference list \<Rightarrow> bool" where
  "asked cl v references \<longleftrightarrow> (\<exists>area \<sigma> \<sigma>'. toSCDVolume cl v = Inr area
     \<and> run_state (QueryOperationalIntentReferences cl area) \<sigma> = (Inr references, \<sigma>'))"

definition told :: "'w scd_client \<Rightarrow> SCDReference \<Rightarrow> ProviderIntent \<Rightarrow> bool" where
  "told cl r rec \<longleftrightarrow> (\<exists>details \<sigma> \<sigma>'. run_state (scd_GetOperationalIntent cl r) \<sigma> = (Inr details, \<sigma>')
     \<and> fromSCDIntent cl r details = Inr rec)"

lemma search_run:
  assumes "run_state (search_volumes cl own k vs acc) \<sigma> = ((m, []), \<sigma>')"
  shows "snd acc = [] \<and> (\<exists>answers. list_all2 (asked cl) vs answers
    \<and> fold (keep_reference own) (concat answers) acc = (m, []))"
  using assms
proof (induction vs arbitrary: k acc \<sigma>)
  case (Cons v vs)
  show ?case
  proof (cases "toSCDVolume cl v")
    case (Inl e)
    with Cons.IH [of "Suc k"] Cons.prems show ?thesis by fastforce
  next
    case (Inr area)
    obtain found \<sigma>1 where q: "run_state (QueryOperationalIntentReferences cl area) \<sigma> = (found, \<sigma>1)" by (metis surj_pair)
    show ?thesis
    proof (cases found)
      case (Inl e)
      with Cons.IH [of "Suc k"] Cons.prems q \<open>toSCDVolume cl v = Inr area\<close> show ?thesis by fastforce
    next
      case (Inr references)
      let ?acc = "fold (keep_reference own) references acc"
      from Cons.prems q Inr \<open>toSCDVolume cl v = Inr area\<close>
      have "run_state (search_volumes cl own (Suc k) vs ?acc) \<sigma>1 = ((m, []), \<sigma>')" by simp
      from Cons.IH [OF this] obtain answers where "snd ?acc = []" "list_all2 (asked cl) vs answers"
        "fold (keep_reference own) (concat answers) ?acc = (m, [])" by auto
      moreover from this(1) keep_errors [of own references acc] have "snd acc = []" by auto
      moreover have "asked cl v references"
        using q unfolding asked_def Inr \<open>toSCDVolume cl v = Inr area\<close> by blast
      ultimately show ?thesis by (auto intro!: exI [of _ "references # answers"])
    qed
  qed
qed simp

lemma fetch_errors:
  assumes "run_state (fetch_intents cl m ids acc) \<sigma> = (acc', \<sigma>')"
  shows "\<exists>more. snd acc' = snd acc @ more"
  using assms
proof (induction ids arbitrary: acc \<sigma>)
  case (Cons i ids)
  show ?case
  proof (cases "map_of m i")
    case (Some r)
    obtain found \<sigma>1 where q: "run_state (scd_GetOperationalIntent cl r) \<sigma> = (found, \<sigma>1)" by (metis surj_pair)
    from Cons.prems Some q obtain acc1 where "run_state (fetch_intents cl m ids acc1) \<sigma>1 = (acc', \<sigma>')"
      "\<exists>more. snd acc1 = snd acc @ more"
      by (auto split: sum.splits)
    with Cons.IH [OF this(1)] show ?thesis by auto
  qed (use Cons in auto)
qed simp

lemma fetch_run:
  assumes "run_state (fetch_intents cl m ids (records, [])) \<sigma> = ((records', []), \<sigma>')"
    and "set ids \<subseteq> set (map fst m)"
  shows "\<exists>more. records' = records @ more \<and> list_all2 (\<lambda>i rec. \<exists>r. map_of m i = Some r \<and> told cl r rec) ids more"
  using assms
proof (induction ids arbitrary: records \<sigma>)
  case (Cons i ids)
  from Cons.prems(2) obtain r where r: "map_of m i = Some r" by (cases "map_of m i") (auto simp: map_of_eq_None_iff)
  obtain found \<sigma>1 where q: "run_state (scd_GetOperationalIntent cl r) \<sigma> = (found, \<sigma>1)" by (metis surj_pair)
  have fail: "run_state (fetch_intents cl m ids (records, [e])) \<sigma>1 \<noteq> ((records', []), \<sigma>')" for e
    using fetch_errors [of cl m ids "(records, [e])" \<sigma>1 "(records', [])" \<sigma>'] by auto
  from Cons.prems(1) r q fail obtain details where details: "found = Inr details"
    by (cases found) auto
  with Cons.prems(1) r q fail obtain rec where rec: "fromSCDIntent cl r details = Inr rec"
    by (cases "fromSCDIntent cl r details") auto
  from Cons.prems(1) r q details rec
  have rest: "run_state (fetch_intents cl m ids (records @ [rec], [])) \<sigma>1 = ((records', []), \<sigma>')" by simp
  from q details rec have "told cl r rec" unfolding told_def by blast
  with Cons.IH [OF rest] Cons.prems(2) r show ?case by fastforce
qed simp

lemma told_fields:
  assumes "told cl r rec"
  shows "referenceID r = Inr (src_ReferenceID (pi_Source rec))" and "src_Version (pi_Source rec) = ref_Version r"
    and "src_Manager (pi_Source rec) = ref_Manager r"
    and "oi_ID (pi_Intent rec) = src_ReferenceID (pi_Source rec)"
    and "oi_Version (pi_Intent rec) = ref_Version r"
    and "oi_Status (pi_Intent rec) = scd_intentStatus (ref_State r)"
  using assms
  by (auto simp: told_def fromSCDIntent_def peer_source_def peer_intent_def split: option.splits sum.splits)

text \<open>The identities the DSS named, but the own.\<close>

definition named_ids :: "string \<Rightarrow> SCDReference list \<Rightarrow> string list" where
  "named_ids own rs = sort (remdups (filter (\<lambda>i. i \<noteq> own)
     (concat (map (\<lambda>r. case referenceID r of Inl e \<Rightarrow> [] | Inr i \<Rightarrow> [i]) rs))))"

lemma named_ids_newest:
  assumes "newest_references own rs m"
  shows "sort (map fst m) = named_ids own rs"
proof (rule sorted_distinct_set_unique)
  have "i \<in> fst ` set m \<longleftrightarrow> i \<noteq> own \<and> (\<exists>r \<in> set rs. referenceID r = Inr i)" for i
  proof
    assume "i \<in> fst ` set m"
    then obtain r where "map_of m i = Some r" using map_of_eq_None_iff [of m i] by (cases "map_of m i") auto
    from newest_lookup [OF assms this] show "i \<noteq> own \<and> (\<exists>r \<in> set rs. referenceID r = Inr i)" by blast
  next
    assume "i \<noteq> own \<and> (\<exists>r \<in> set rs. referenceID r = Inr i)"
    then obtain c where "map_of m i = Some c" using newest_named [OF assms] by blast
    then show "i \<in> fst ` set m" using map_of_eq_None_iff [of m i] by auto
  qed
  moreover have "i \<in> set (named_ids own rs) \<longleftrightarrow> i \<noteq> own \<and> (\<exists>r \<in> set rs. referenceID r = Inr i)" for i
    by (force simp: named_ids_def split: sum.splits)
  ultimately show "set (sort (map fst m)) = set (named_ids own rs)" by (simp add: set_eq_iff)
  show "distinct (sort (map fst m))" using assms by (simp add: newest_references_def)
qed (simp_all add: named_ids_def)

lemma search_finds_newest:
  assumes "run_state (scd_FindOperationalIntents cl query) \<sigma> = ((records, None), \<sigma>')"
  shows "\<exists>answers. list_all2 (asked cl) (q_Volumes query) answers
    \<and> (\<forall>r \<in> set (concat answers). \<exists>i. referenceID r = Inr i)
    \<and> list_all2 (\<lambda>i rec. \<exists>r \<in> set (concat answers). referenceID r = Inr i \<and> told cl r rec
          \<and> (\<forall>r' \<in> set (concat answers). referenceID r' = Inr i \<longrightarrow> ref_Version r' \<le> ref_Version r))
        (named_ids (oi_ID (q_Intent query)) (concat answers)) records"
proof -
  let ?own = "oi_ID (q_Intent query)"
  obtain m errs \<sigma>1 where s: "run_state (search_volumes cl ?own 0 (q_Volumes query) ([], [])) \<sigma> = ((m, errs), \<sigma>1)"
    by (metis surj_pair)
  obtain records1 errs1 \<sigma>2 where
    f: "run_state (fetch_intents cl m (sort (map fst m)) ([], errs)) \<sigma>1 = ((records1, errs1), \<sigma>2)"
    by (metis surj_pair)
  from assms s f have "records1 = records" and none: "errs1 = []"
    by (auto simp: scd_FindOperationalIntents_def join_errors_def split: if_splits)
  from fetch_errors [OF f] none have errs: "errs = []" by auto
  from search_run [OF s [unfolded errs]] obtain answers where answers: "list_all2 (asked cl) (q_Volumes query) answers"
    and fold: "fold (keep_reference ?own) (concat answers) ([], []) = (m, [])" by auto
  from keep_fold [OF newest_empty fold] have newest: "newest_references ?own (concat answers) m" by simp
  from fetch_run [OF f [unfolded none errs]] \<open>records1 = records\<close>
  have "list_all2 (\<lambda>i rec. \<exists>r. map_of m i = Some r \<and> told cl r rec) (sort (map fst m)) records" by simp
  then have "list_all2 (\<lambda>i rec. \<exists>r \<in> set (concat answers). referenceID r = Inr i \<and> told cl r rec
          \<and> (\<forall>r' \<in> set (concat answers). referenceID r' = Inr i \<longrightarrow> ref_Version r' \<le> ref_Version r))
        (named_ids ?own (concat answers)) records"
    unfolding named_ids_newest [OF newest]
    by (rule list_all2_mono) (use newest_lookup [OF newest] in blast)
  moreover from newest have "\<forall>r \<in> set (concat answers). \<exists>i. referenceID r = Inr i"
    unfolding newest_references_def by blast
  ultimately show ?thesis using answers by blast
qed

subsection \<open>Records of one provider in a check\<close>

lemma sourceKey_provider:
  assumes "sourceKey a = sourceKey b" and "CHR 0x00 \<notin> set (src_ProviderID a)" and "CHR 0x00 \<notin> set (src_ProviderID b)"
  shows "src_ProviderID a = src_ProviderID b"
proof -
  have "takeWhile (\<lambda>c. c \<noteq> d) (xs @ d # ys) = xs" if "d \<notin> set xs" for d :: char and xs ys
    using that by (induction xs) auto
  then have "takeWhile (\<lambda>c. c \<noteq> CHR 0x00) (sourceKey a) = src_ProviderID a"
    "takeWhile (\<lambda>c. c \<noteq> CHR 0x00) (sourceKey b) = src_ProviderID b"
    using assms(2,3) by (simp_all add: sourceKey_def)
  with assms(1) show ?thesis by simp
qed

lemma discover_failures: "run_state (discover ps q acc fs) \<sigma> = ((recs, fs'), \<sigma>') \<Longrightarrow> \<exists>more. fs' = fs @ more"
proof (induction ps arbitrary: acc fs \<sigma>)
  case (Cons p ps)
  obtain found err \<sigma>1 where step: "run_state (pr_FindOperationalIntents p q) \<sigma> = ((found, err), \<sigma>1)" by (metis surj_pair)
  let ?fs = "case err of None \<Rightarrow> fs | Some e \<Rightarrow> fs @ [provider_finding (pr_ID p) e]"
  from Cons.prems step have "run_state (discover ps q (fold (add_record (pr_ID p)) found acc) ?fs) \<sigma>1 = ((recs, fs'), \<sigma>')"
    by simp
  from Cons.IH [OF this] show ?case by (auto split: option.splits)
qed simp

lemma discover_provider:
  assumes "run_state (discover (pre @ p # post) q acc fs) \<sigma> = ((recs, []), \<sigma>')"
    and "\<forall>k \<in> set (snd acc). \<exists>r \<in> set (fst acc). sourceKey (pi_Source r) = k"
    and "\<forall>r \<in> set (fst acc). src_ProviderID (pi_Source r) \<in> D" and "pr_ID ` set pre \<subseteq> D"
  shows "\<exists>found \<sigma>1 \<sigma>2. run_state (pr_FindOperationalIntents p q) \<sigma>1 = ((found, None), \<sigma>2)
    \<and> (\<forall>r \<in> set found. \<exists>r' \<in> set recs. sourceKey (pi_Source r') = sourceKey ((pi_Source r)\<lparr>src_ProviderID := pr_ID p\<rparr>)
        \<and> (src_ProviderID (pi_Source r') \<in> D
            \<or> (\<exists>x \<in> set found. r' = x\<lparr>pi_Source := (pi_Source x)\<lparr>src_ProviderID := pr_ID p\<rparr>\<rparr>)))"
  using assms
proof (induction pre arbitrary: acc fs \<sigma>)
  case Nil
  obtain found err \<sigma>1 where step: "run_state (pr_FindOperationalIntents p q) \<sigma> = ((found, err), \<sigma>1)" by (metis surj_pair)
  obtain recs1 seen1 where fold: "fold (add_record (pr_ID p)) found acc = (recs1, seen1)" by (metis surj_pair)
  let ?fs = "case err of None \<Rightarrow> fs | Some e \<Rightarrow> fs @ [provider_finding (pr_ID p) e]"
  from Nil.prems(1) step fold have rest: "run_state (discover post q (recs1, seen1) ?fs) \<sigma>1 = ((recs, []), \<sigma>')" by simp
  from discover_failures [OF rest] have err: "err = None" by (auto split: option.splits)
  from discover_mono [OF rest] have kept: "set recs1 \<subseteq> set recs" by simp
  from add_record_fold [OF Nil.prems(2), of "pr_ID p" found recs1 seen1] fold
  have keys: "\<forall>r \<in> set found. \<exists>r' \<in> set recs1. sourceKey (pi_Source r') = sourceKey ((pi_Source r)\<lparr>src_ProviderID := pr_ID p\<rparr>)"
    and origin: "\<forall>r' \<in> set recs1. r' \<in> set (fst acc) \<or> (\<exists>r \<in> set found. r' = r\<lparr>pi_Source := (pi_Source r)\<lparr>src_ProviderID := pr_ID p\<rparr>\<rparr>)"
    by simp_all
  show ?case
  proof (intro exI conjI ballI)
    show "run_state (pr_FindOperationalIntents p q) \<sigma> = ((found, None), \<sigma>1)" using step err by simp
    fix r assume "r \<in> set found"
    with keys obtain r' where "r' \<in> set recs1"
      "sourceKey (pi_Source r') = sourceKey ((pi_Source r)\<lparr>src_ProviderID := pr_ID p\<rparr>)" by blast
    moreover from this(1) origin Nil.prems(3) have "src_ProviderID (pi_Source r') \<in> D
        \<or> (\<exists>x \<in> set found. r' = x\<lparr>pi_Source := (pi_Source x)\<lparr>src_ProviderID := pr_ID p\<rparr>\<rparr>)" by blast
    ultimately show "\<exists>r' \<in> set recs. sourceKey (pi_Source r') = sourceKey ((pi_Source r)\<lparr>src_ProviderID := pr_ID p\<rparr>)
        \<and> (src_ProviderID (pi_Source r') \<in> D
            \<or> (\<exists>x \<in> set found. r' = x\<lparr>pi_Source := (pi_Source x)\<lparr>src_ProviderID := pr_ID p\<rparr>\<rparr>))"
      using kept by blast
  qed
next
  case (Cons a pre)
  obtain found err \<sigma>1 where step: "run_state (pr_FindOperationalIntents a q) \<sigma> = ((found, err), \<sigma>1)" by (metis surj_pair)
  obtain recs1 seen1 where fold: "fold (add_record (pr_ID a)) found acc = (recs1, seen1)" by (metis surj_pair)
  let ?fs = "case err of None \<Rightarrow> fs | Some e \<Rightarrow> fs @ [provider_finding (pr_ID a) e]"
  from Cons.prems(1) step fold
  have rest: "run_state (discover (pre @ p # post) q (recs1, seen1) ?fs) \<sigma>1 = ((recs, []), \<sigma>')" by simp
  from add_record_fold [OF Cons.prems(2), of "pr_ID a" found recs1 seen1] fold
  have keys: "\<forall>k \<in> set seen1. \<exists>r \<in> set recs1. sourceKey (pi_Source r) = k"
    and origin: "\<forall>r' \<in> set recs1. r' \<in> set (fst acc) \<or> (\<exists>r \<in> set found. r' = r\<lparr>pi_Source := (pi_Source r)\<lparr>src_ProviderID := pr_ID a\<rparr>\<rparr>)"
    by simp_all
  have "\<forall>r \<in> set recs1. src_ProviderID (pi_Source r) \<in> D"
  proof
    fix r assume "r \<in> set recs1"
    with origin Cons.prems(3,4) show "src_ProviderID (pi_Source r) \<in> D" by force
  qed
  from Cons.IH [OF rest] keys this Cons.prems(4) show ?case by simp
qed

lemma list_all2_in: "list_all2 P xs ys \<Longrightarrow> x \<in> set xs \<Longrightarrow> \<exists>y \<in> set ys. P x y"
  by (induction rule: list_all2_induct) auto

text \<open>With an ID of its own, a provider's records all reach the evaluation, whichever provider comes first.\<close>

lemma discover_all_records:
  assumes run: "run_state (discoverOperationalIntents (pre @ p # post) intent volumes) \<sigma> = ((recs, []), \<sigma>')"
    and own: "\<forall>a \<in> set pre. pr_ID a \<noteq> pr_ID p \<and> CHR 0x00 \<notin> set (pr_ID a)" "CHR 0x00 \<notin> set (pr_ID p)"
    and distinct: "\<And>found \<sigma>1 \<sigma>2 x y. run_state (pr_FindOperationalIntents p \<lparr>q_Intent = intent, q_Volumes = volumes\<rparr>) \<sigma>1
        = ((found, None), \<sigma>2) \<Longrightarrow> x \<in> set found \<Longrightarrow> y \<in> set found
        \<Longrightarrow> src_ReferenceID (pi_Source x) = src_ReferenceID (pi_Source y) \<Longrightarrow> x = y"
  shows "\<exists>found \<sigma>1 \<sigma>2. run_state (pr_FindOperationalIntents p \<lparr>q_Intent = intent, q_Volumes = volumes\<rparr>) \<sigma>1 = ((found, None), \<sigma>2)
    \<and> (\<forall>r \<in> set found. r\<lparr>pi_Source := (pi_Source r)\<lparr>src_ProviderID := pr_ID p\<rparr>\<rparr> \<in> set recs)"
proof -
  let ?D = "pr_ID ` set pre"
  from run have "run_state (discover (pre @ p # post) \<lparr>q_Intent = intent, q_Volumes = volumes\<rparr> ([], []) []) \<sigma> = ((recs, []), \<sigma>')"
    by (simp add: discoverOperationalIntents_def)
  from discover_provider [OF this, of ?D] obtain found \<sigma>1 \<sigma>2
    where found: "run_state (pr_FindOperationalIntents p \<lparr>q_Intent = intent, q_Volumes = volumes\<rparr>) \<sigma>1 = ((found, None), \<sigma>2)"
      and each: "\<forall>r \<in> set found. \<exists>r' \<in> set recs. sourceKey (pi_Source r') = sourceKey ((pi_Source r)\<lparr>src_ProviderID := pr_ID p\<rparr>)
        \<and> (src_ProviderID (pi_Source r') \<in> ?D
            \<or> (\<exists>x \<in> set found. r' = x\<lparr>pi_Source := (pi_Source x)\<lparr>src_ProviderID := pr_ID p\<rparr>\<rparr>))"
    by auto
  have "r\<lparr>pi_Source := (pi_Source r)\<lparr>src_ProviderID := pr_ID p\<rparr>\<rparr> \<in> set recs" if "r \<in> set found" for r
  proof -
    let ?src = "(pi_Source r)\<lparr>src_ProviderID := pr_ID p\<rparr>"
    from each that obtain r' where r': "r' \<in> set recs" "sourceKey (pi_Source r') = sourceKey ?src"
      and origin: "src_ProviderID (pi_Source r') \<in> ?D \<or> (\<exists>x \<in> set found. r' = x\<lparr>pi_Source := (pi_Source x)\<lparr>src_ProviderID := pr_ID p\<rparr>\<rparr>)"
      by blast
    have "src_ProviderID (pi_Source r') \<notin> ?D"
    proof
      assume D: "src_ProviderID (pi_Source r') \<in> ?D"
      with own(1) have nul: "CHR 0x00 \<notin> set (src_ProviderID (pi_Source r'))" by auto
      from sourceKey_provider [OF r'(2) nul] own(2) have "src_ProviderID (pi_Source r') = pr_ID p" by simp
      with D own(1) show False by auto
    qed
    with origin obtain x where x: "x \<in> set found" "r' = x\<lparr>pi_Source := (pi_Source x)\<lparr>src_ProviderID := pr_ID p\<rparr>\<rparr>" by blast
    from r'(2) x(2) have "sourceKey ((pi_Source x)\<lparr>src_ProviderID := pr_ID p\<rparr>) = sourceKey ?src" by simp
    from sourceKey_local [OF this] distinct [OF found x(1) that] have "x = r" by blast
    with r'(1) x(2) show ?thesis by simp
  qed
  with found show ?thesis by blast
qed

lemma scd_records_distinct:
  assumes "run_state (scd_FindOperationalIntents cl query) \<sigma> = ((hits, None), \<sigma>')"
    and "x \<in> set hits" "y \<in> set hits" "src_ReferenceID (pi_Source x) = src_ReferenceID (pi_Source y)"
  shows "x = y"
proof -
  from search_finds_newest [OF assms(1)] obtain rs where
    all: "list_all2 (\<lambda>i rec. \<exists>r \<in> set rs. referenceID r = Inr i \<and> told cl r rec
          \<and> (\<forall>r' \<in> set rs. referenceID r' = Inr i \<longrightarrow> ref_Version r' \<le> ref_Version r))
        (named_ids (oi_ID (q_Intent query)) rs) hits" (is "list_all2 ?P ?ids hits")
    by blast
  from assms(2,3) obtain m n where mn: "m < length hits" "hits ! m = x" "n < length hits" "hits ! n = y"
    by (metis in_set_conv_nth)
  have len: "length ?ids = length hits" using all by (rule list_all2_lengthD)
  have "src_ReferenceID (pi_Source (hits ! k)) = ?ids ! k" if "k < length hits" for k
    using list_all2_nthD2 [OF all that] told_fields(1) by (metis Inr_inject)
  with mn assms(4) have "?ids ! m = ?ids ! n" by metis
  moreover have "distinct ?ids" by (simp add: named_ids_def)
  ultimately have "m = n" using mn(1,3) len by (simp add: nth_eq_iff_index_eq)
  with mn show ?thesis by simp
qed

subsection \<open>Envelopes\<close>

lemma toSCDVolume_ok:
  assumes "toSCDVolume cl v = Inr a"
  obtains ring b where "scd_exterior cl (length (ov_GeoJSON v)) (ov_GeoJSON v) = Inr ring" "scd_ring_bounds ring = Inr b"
    "a = scd_volume v (case ov_BufferMeters v of None \<Rightarrow> b | Some m \<Rightarrow> expand m b)"
    "\<not> crossesAntimeridian (case ov_BufferMeters v of None \<Rightarrow> b | Some m \<Rightarrow> expand m b)"
    "ov_AltitudeRef v = AltitudeReferenceWGS84" "ov_StartsAt v < ov_EndsAt v" "0 \<le> ov_MinAltitudeM v"
    "ov_MinAltitudeM v < ov_MaxAltitudeM v"
  using assms
  by (auto simp: toSCDVolume_def scd_geoJSONBounds_def Let_def split: if_splits sum.splits option.splits)

lemma scd_ring_inside:
  assumes "scd_ring_bounds ring = Inr b" and "p \<in> set ring"
  shows "inside_bounds b (p ! 0, p ! 1) \<and> valid_position p"
proof -
  from assms(1) have b: "b = fold include_position (map (\<lambda>p. (p ! 0, p ! 1)) ring) start_bounds"
    and valid: "\<forall>p \<in> set ring. valid_position p"
    by (auto simp: scd_ring_bounds_def Let_def fold_map comp_def list_ex_iff split: if_splits)
  from assms(2) have "(p ! 0, p ! 1) \<in> set (map (\<lambda>p. (p ! 0, p ! 1)) ring)" by auto
  then have "inside_bounds b (p ! 0, p ! 1)"
    unfolding b inside_bounds_def fold_include by (intro conjI Min_le Max_ge) force+
  with valid assms(2) show ?thesis by blast
qed

text \<open>
  The cosine at the latitude the code uses is no larger than that of the vertex, so that the margin in
  longitude is large enough, up to the floor of 1/100.
\<close>

lemma expand_margin:
  assumes m: "0 < m" and ok: "\<not> crossesAntimeridian (expand m b)" and p: "inside_bounds b p"
    and b: "-90 \<le> bo_minLat b" "bo_maxLat b \<le> 90"
    and lat: "\<bar>lat - snd p\<bar> * metersPerDegree \<le> m" "-90 \<le> lat" "lat \<le> 90"
    and lon: "\<bar>lon - fst p\<bar> * metersPerDegree * max (1 / 100) (cos (snd p * pi / 180)) \<le> m"
  shows "inside_bounds (expand m b) (lon, lat)"
proof -
  define \<delta> where "\<delta> = m / metersPerDegree"
  define M where "M = max \<bar>bo_minLat b\<bar> \<bar>bo_maxLat b\<bar>"
  define c where "c = (if cos ((M + \<delta>) * pi / 180) < 1 / 100 then 1 / 100 else cos ((M + \<delta>) * pi / 180))"
  have d: "0 < \<delta>" using m by (simp add: \<delta>_def metersPerDegree_def)
  have c: "1 / 100 \<le> c" "c \<le> 1" by (simp_all add: c_def)
  have m_c: "m / (metersPerDegree * c) = \<delta> / c" by (simp add: \<delta>_def)
  have e: "expand m b = \<lparr>bo_minLat = max (-90) (bo_minLat b - \<delta>), bo_maxLat = min 90 (bo_maxLat b + \<delta>),
      bo_minLon = bo_minLon b - \<delta> / c, bo_maxLon = bo_maxLon b + \<delta> / c\<rparr>"
    using m unfolding expand_def Let_def \<delta>_def [symmetric] M_def [symmetric] c_def [symmetric] m_c by simp
  have box: "bo_minLon b \<le> fst p" "fst p \<le> bo_maxLon b" "bo_minLat b \<le> snd p" "snd p \<le> bo_maxLat b"
    using p by (simp_all add: inside_bounds_def)
  have "2 * (\<delta> / c) \<le> 180" using ok box by (simp add: crossesAntimeridian_def e)
  then have small: "\<delta> \<le> 90" using c d by (simp add: field_simps)
  have M: "\<bar>snd p\<bar> \<le> M" "M \<le> 90" using box b by (auto simp: M_def)
  have angle: "\<bar>snd p\<bar> * pi \<le> (M + \<delta>) * pi" "(M + \<delta>) * pi \<le> 180 * pi"
    using M d small by (intro mult_right_mono; simp)+
  then have "cos ((M + \<delta>) * pi / 180) \<le> cos (\<bar>snd p\<bar> * pi / 180)"
    by (intro cos_monotone_0_pi_le) simp_all
  also have "cos (\<bar>snd p\<bar> * pi / 180) = cos (snd p * pi / 180)" by (cases "0 \<le> snd p") simp_all
  finally have "c \<le> max (1 / 100) (cos (snd p * pi / 180))" by (auto simp: c_def)
  then have "\<bar>lon - fst p\<bar> * c \<le> \<bar>lon - fst p\<bar> * max (1 / 100) (cos (snd p * pi / 180))"
    by (intro mult_left_mono) auto
  also have "\<dots> \<le> \<delta>" using lon by (simp add: \<delta>_def metersPerDegree_def field_simps)
  finally have "\<bar>lon - fst p\<bar> \<le> \<delta> / c" using c by (simp add: field_simps)
  moreover have "\<bar>lat - snd p\<bar> \<le> \<delta>" using lat(1) by (simp add: \<delta>_def metersPerDegree_def field_simps)
  ultimately show ?thesis using box lat(2,3) unfolding e inside_bounds_def by (simp add: abs_le_iff) 
qed

lemma scd_ring_latitudes:
  assumes "scd_ring_bounds ring = Inr b"
  shows "-90 \<le> bo_minLat b \<and> bo_maxLat b \<le> 90"
proof -
  from assms have b: "b = fold include_position (map (\<lambda>p. (p ! 0, p ! 1)) ring) start_bounds"
    and valid: "\<forall>p \<in> set ring. valid_position p"
    by (auto simp: scd_ring_bounds_def Let_def fold_map comp_def list_ex_iff split: if_splits)
  show ?thesis
    using valid max_float64_large unfolding b fold_include
    by (auto simp: start_bounds_def valid_position_def)
qed

text \<open>Both readings of one ring box it alike.\<close>

definition json_position :: "real list \<Rightarrow> json" where
  "json_position p = JArray (map JNumber p)"

lemma same_positions:
  assumes "positions (map json_position ring) = Inr ps" and "\<forall>p \<in> set ring. valid_position p"
  shows "ps = map (\<lambda>p. (p ! 0, p ! 1)) ring"
  using assms
proof (induction ring arbitrary: ps)
  case (Cons p ring)
  from Cons.prems(2) obtain x y rest where "p = [x, y] @ rest"
    by (cases p; cases "tl p") (auto simp: valid_position_def)
  then have "geoJSONPosition (json_position p) = Inr (p ! 0, p ! 1)"
    using Cons.prems by (auto simp: geoJSONPosition_def json_position_def valid_position_def)
  with Cons show ?case by (auto split: sum.splits)
qed simp

lemma same_bounds:
  assumes "ring_bounds (map json_position ring) = Inr b" and "scd_ring_bounds ring = Inr b'"
  shows "b = b'"
proof -
  from assms(2) have "b' = fold include_position (map (\<lambda>p. (p ! 0, p ! 1)) ring) start_bounds"
    and valid: "\<forall>p \<in> set ring. valid_position p"
    by (auto simp: scd_ring_bounds_def Let_def fold_map comp_def list_ex_iff split: if_splits)
  moreover from assms(1) same_positions [OF _ valid] have
    "b = fold include_position (map (\<lambda>p. (p ! 0, p ! 1)) ring) start_bounds"
    by (auto simp: ring_bounds_def Let_def split: sum.splits if_splits)
  ultimately show ?thesis by simp
qed

lemma expand_expanded: "expanded b m = Inr b' \<Longrightarrow> expand m b = b'"
  by (auto simp: expanded_def expand_def metersPerDegree_def Let_def split: if_splits)

section \<open>Properties\<close>

text \<open>
  C24: the area the DSS is asked about holds the whole volume. Where a volume converts, its window and altitude
  band are kept, and the polygon is a box. It contains every position whose distance from some position between
  the extreme longitudes and latitudes of the ring is at most the buffer, in degrees times 110,000 metres, longitudes scaled by
  the cosine of the latitude (but by no less than 1/100).
\<close>

theorem dss_query_covers_volume:
  assumes "toSCDVolume cl v = Inr a" and "scd_exterior cl (length (ov_GeoJSON v)) (ov_GeoJSON v) = Inr ring"
    and "{west, east, south, north} \<subseteq> set ring"
    and "west ! 0 \<le> x" "x \<le> east ! 0" "south ! 1 \<le> y" "y \<le> north ! 1"
    and "buffer = (case ov_BufferMeters v of None \<Rightarrow> 0 | Some m \<Rightarrow> max 0 m)"
    and "\<bar>lat - y\<bar> * metersPerDegree \<le> buffer" "-90 \<le> lat" "lat \<le> 90"
    and "\<bar>lon - x\<bar> * metersPerDegree * max (1 / 100) (cos (y * pi / 180)) \<le> buffer"
  shows "\<exists>b. a = scd_volume v b \<and> inside_bounds b (lon, lat) \<and> \<not> crossesAntimeridian b"
proof -
  from toSCDVolume_ok [OF assms(1)] assms(2) obtain b where b: "scd_ring_bounds ring = Inr b"
    and a: "a = scd_volume v (case ov_BufferMeters v of None \<Rightarrow> b | Some m \<Rightarrow> expand m b)"
    and ok: "\<not> crossesAntimeridian (case ov_BufferMeters v of None \<Rightarrow> b | Some m \<Rightarrow> expand m b)"
    by (metis Inr_inject)
  have p: "inside_bounds b (x, y)"
    using scd_ring_inside [OF b, of west] scd_ring_inside [OF b, of east] scd_ring_inside [OF b, of south]
      scd_ring_inside [OF b, of north] assms(3-7) by (simp add: inside_bounds_def)
  show ?thesis
  proof (cases "0 < buffer")
    case True
    with assms(8) have m: "ov_BufferMeters v = Some buffer" by (auto split: option.splits)
    from expand_margin [OF True _ p, of lat lon] scd_ring_latitudes [OF b] ok m assms(9-12)
    have "inside_bounds (expand buffer b) (lon, lat)" by simp
    with a ok m show ?thesis by auto
  next
    case False
    then have zero: "buffer = 0" using assms(8) by (auto split: option.splits)
    then have "lat = y" using assms(9) by (simp add: metersPerDegree_def)
    moreover have "0 < metersPerDegree * max (1 / 100) (cos (y * pi / 180))" by (simp add: metersPerDegree_def)
    with assms(12) zero have "lon = x"
      by (smt (verit) mult.assoc mult_le_0_iff)
    moreover have "(case ov_BufferMeters v of None \<Rightarrow> b | Some m \<Rightarrow> expand m b) = b"
      using assms(8) zero by (auto simp: expand_def split: option.splits)
    ultimately show ?thesis using a ok p by auto
  qed
qed

lemma sample_exterior: "scd_exterior sample_client fuel ''x'' = Inr [[0, 0], [1, 0], [1, 1], [0, 1], [0, 0]]"
proof -
  have "TrimSpace ''x'' \<noteq> []" by code_simp
  then show ?thesis by (simp add: scd_exterior.simps sample_client_def)
qed

lemma sample_ring: "scd_ring_bounds [[0, 0], [1, 0], [1, 1], [0, 1], [0, 0]] =
    Inr \<lparr>bo_minLat = 0, bo_maxLat = 1, bo_minLon = 0, bo_maxLon = 1\<rparr>"
  using max_float64_large by (simp add: scd_ring_bounds_def valid_position_def include_position_def start_bounds_def)

lemma sample_converts:
  "toSCDVolume sample_client wgs_volume =
     Inr (scd_volume wgs_volume \<lparr>bo_minLat = 0, bo_maxLat = 1, bo_minLon = 0, bo_maxLon = 1\<rparr>)"
  using sample_exterior [of 1]
  by (simp add: toSCDVolume_def scd_geoJSONBounds_def wgs_volume_def placed_volume_def sample_volume_def
      zero_OperationalVolume_def sample_ring crossesAntimeridian_def first_error_def Let_def)
    (simp add: sample_client_def)

theorem dss_query_covers_volume_witness:
  "\<exists>b. scd_volume wgs_volume \<lparr>bo_minLat = 0, bo_maxLat = 1, bo_minLon = 0, bo_maxLon = 1\<rparr> = scd_volume wgs_volume b
     \<and> inside_bounds b (1 / 2, 1 / 2) \<and> \<not> crossesAntimeridian b"
  by (rule dss_query_covers_volume [OF sample_converts, where ring = "[[0, 0], [1, 0], [1, 1], [0, 1], [0, 0]]"
      and west = "[0, 0]" and east = "[1, 0]" and south = "[0, 0]" and north = "[0, 1]"
      and x = "1 / 2" and y = "1 / 2" and buffer = 0])
    (simp_all add: sample_exterior wgs_volume_def placed_volume_def sample_volume_def zero_OperationalVolume_def)

text \<open>
  Near a pole the floor of 1/100 makes the margin too small: the box around a position at 89.9 degrees
  with a buffer of 1,000 metres leaves out a position that is closer than that.
\<close>

lemma polar_envelope_too_small:
  "\<not> inside_bounds (expand 1000 (point_bounds \<lparr>ll_Lat = 899 / 10, ll_Lng = 0\<rparr>)) (4, 899 / 10)
   \<and> 4 * metersPerDegree * cos (899 / 10 * pi / 180) \<le> 1000"
proof
  have "cos (899 / 10 * pi / 180) = sin (pi / 2 - 899 / 10 * pi / 180)" by (simp add: sin_cos_eq)
  also have "pi / 2 - 899 / 10 * pi / 180 = pi / 1800" by (simp add: field_simps)
  also have "sin (pi / 1800) \<le> pi / 1800" by (rule sin_x_le_x) simp
  finally have "cos (899 / 10 * pi / 180) \<le> 4 / 1800" using pi_less_4 by simp
  then show "4 * metersPerDegree * cos (899 / 10 * pi / 180) \<le> 1000" by (simp add: metersPerDegree_def)
  show "\<not> inside_bounds (expand 1000 (point_bounds \<lparr>ll_Lat = 899 / 10, ll_Lng = 0\<rparr>)) (4, 899 / 10)"
    by (auto simp: expand_def Let_def point_bounds_def metersPerDegree_def inside_bounds_def field_simps)
qed

text \<open>
  The DSS is asked about the very box in which the check looks for overlaps. Where \<open>encoding/json\<close> reads one
  exterior ring for both, and the check can place a volume, a conversion of the volume for the DSS has the
  bounds of the check as its polygon.
\<close>

theorem query_box_is_check_box:
  assumes "exterior_ring json (ov_GeoJSON v) = Inr (map json_position ring)"
    and "scd_exterior cl (length (ov_GeoJSON v)) (ov_GeoJSON v) = Inr ring"
    and "toSCDVolume cl v = Inr a" and "placed json v"
  shows "a = scd_volume v (fst (evaluateVolume json v))"
proof -
  from toSCDVolume_ok [OF assms(3)] assms(2) obtain b where b: "scd_ring_bounds ring = Inr b"
    and a: "a = scd_volume v (case ov_BufferMeters v of None \<Rightarrow> b | Some m \<Rightarrow> expand m b)"
    by (metis Inr_inject)
  have "(case ov_BufferMeters v of None \<Rightarrow> b | Some m \<Rightarrow> expand m b) = fst (evaluateVolume json v)"
    using assms(1,4)
    by (auto simp: placed_def evaluateVolume_def geoJSONBounds_def dest: same_bounds [OF _ b] expand_expanded
        split: if_splits sum.splits option.splits)
  with a show ?thesis by simp
qed

lemma placed_wgs: "placed square_json wgs_volume"
proof -
  have "volumeDimensionError wgs_volume = volumeDimensionError placed_volume"
    by (simp add: volumeDimensionError_def wgs_volume_def placed_volume_def sample_volume_def)
  moreover have "ov_GeoJSON wgs_volume = ov_GeoJSON placed_volume" "ov_BufferMeters wgs_volume = ov_BufferMeters placed_volume"
    "ov_GeometryURI wgs_volume = ov_GeometryURI placed_volume" by (simp_all add: wgs_volume_def)
  ultimately have "evaluateVolume square_json wgs_volume = evaluateVolume square_json placed_volume"
    by (simp only: evaluateVolume_def)
  then show ?thesis using square_placed by (simp add: placed_def)
qed

theorem query_box_is_check_box_witness:
  "scd_volume wgs_volume \<lparr>bo_minLat = 0, bo_maxLat = 1, bo_minLon = 0, bo_maxLon = 1\<rparr>
     = scd_volume wgs_volume (fst (evaluateVolume square_json wgs_volume))"
proof (rule query_box_is_check_box [OF _ _ sample_converts placed_wgs])
  show "exterior_ring square_json (ov_GeoJSON wgs_volume)
      = Inr (map json_position [[0, 0], [1, 0], [1, 1], [0, 1], [0, 0]])"
    by (simp add: exterior_ring_def square_json_def field_of_def json_position_def)
  show "scd_exterior sample_client (length (ov_GeoJSON wgs_volume)) (ov_GeoJSON wgs_volume)
      = Inr [[0, 0], [1, 0], [1, 1], [0, 1], [0, 0]]"
    by (simp add: sample_exterior wgs_volume_def placed_volume_def)
qed

text \<open>
  C8: a clear check with the DSS among the providers keeps apart from everything the DSS names. Each volume
  of the intent was converted and asked about; every reference in the answers names an intent, and for each but the
  intent itself the managing peer gave its newest version named, matching the reference, and all its volumes,
  nominal and off-nominal, are apart from all volumes of the intent.
\<close>

theorem clear_check_separates_dss_intents:
  assumes "dc_providers svc = pre @ interuss_provider cl # post"
    and "\<forall>p \<in> set pre. pr_ID p \<noteq> ''interuss_scd'' \<and> CHR 0x00 \<notin> set (pr_ID p)"
    and "fst (fst (run_state (check svc intent volumes) \<sigma>)) = Inr res"
    and "dr_Posture res = DeconflictionPostureClear"
  shows "\<exists>answers. list_all2 (asked cl) volumes answers
    \<and> (\<forall>r \<in> set (concat answers). \<exists>i. referenceID r = Inr i \<and> (i = oi_ID intent
        \<or> (\<exists>newest \<in> set (concat answers). \<exists>rec. referenceID newest = Inr i \<and> ref_Version r \<le> ref_Version newest
            \<and> told cl newest rec
            \<and> (\<forall>v \<in> set volumes. \<forall>w \<in> set (record_volumes rec). apart (dc_json svc) v w))))"
proof -
  let ?p = "interuss_provider cl" and ?own = "oi_ID intent"
  obtain t \<sigma>1 where now: "run_state (dc_now svc) \<sigma> = (t, \<sigma>1)" by (metis surj_pair)
  obtain records failures \<sigma>2 where
    disc: "run_state (discoverOperationalIntents (dc_providers svc) intent volumes) \<sigma>1 = ((records, failures), \<sigma>2)"
    by (metis surj_pair)
  from check_clear [OF now disc] assms(3,4) have none: "failures = []"
    and apart: "evaluateConflicts (dc_json svc) intent volumes records = []" by auto
  have id: "pr_ID ?p = ''interuss_scd''" by (simp add: interuss_provider_def)
  have "\<exists>hits \<sigma>3 \<sigma>4. run_state (pr_FindOperationalIntents ?p \<lparr>q_Intent = intent, q_Volumes = volumes\<rparr>) \<sigma>3 = ((hits, None), \<sigma>4)
    \<and> (\<forall>r \<in> set hits. r\<lparr>pi_Source := (pi_Source r)\<lparr>src_ProviderID := pr_ID ?p\<rparr>\<rparr> \<in> set records)"
  proof (rule discover_all_records)
    show "run_state (discoverOperationalIntents (pre @ ?p # post) intent volumes) \<sigma>1 = ((records, []), \<sigma>2)"
      using disc assms(1) none by simp
    show "\<forall>a \<in> set pre. pr_ID a \<noteq> pr_ID ?p \<and> CHR 0x00 \<notin> set (pr_ID a)" using assms(2) id by simp
    show "CHR 0x00 \<notin> set (pr_ID ?p)" by (simp add: id)
  qed (simp add: interuss_provider_def scd_records_distinct)
  then obtain hits \<sigma>3 \<sigma>4 where
    run: "run_state (scd_FindOperationalIntents cl \<lparr>q_Intent = intent, q_Volumes = volumes\<rparr>) \<sigma>3 = ((hits, None), \<sigma>4)"
    and kept: "\<forall>r \<in> set hits. r\<lparr>pi_Source := (pi_Source r)\<lparr>src_ProviderID := pr_ID ?p\<rparr>\<rparr> \<in> set records"
    by (auto simp: interuss_provider_def)
  from search_finds_newest [OF run] obtain answers where asked: "list_all2 (asked cl) volumes answers"
    and ids: "\<forall>r \<in> set (concat answers). \<exists>i. referenceID r = Inr i"
    and each: "list_all2 (\<lambda>i rec. \<exists>r \<in> set (concat answers). referenceID r = Inr i \<and> told cl r rec
          \<and> (\<forall>r' \<in> set (concat answers). referenceID r' = Inr i \<longrightarrow> ref_Version r' \<le> ref_Version r))
        (named_ids ?own (concat answers)) hits"
    by auto
  have apart: "apart (dc_json svc) v w" if "rec \<in> set hits" "v \<in> set volumes" "w \<in> set (record_volumes rec)" for rec v w
    using apart kept that by (force simp: evaluateConflicts_Nil record_volumes_def)
  have newest: "\<exists>newest \<in> set (concat answers). \<exists>rec \<in> set hits. referenceID newest = Inr i \<and> ref_Version r \<le> ref_Version newest
      \<and> told cl newest rec"
    if "r \<in> set (concat answers)" "referenceID r = Inr i" "i \<noteq> ?own" for r i
  proof -
    from that have "i \<in> set (named_ids ?own (concat answers))" by (force simp: named_ids_def)
    then obtain rec where rec: "rec \<in> set hits" and "\<exists>r \<in> set (concat answers). referenceID r = Inr i \<and> told cl r rec
        \<and> (\<forall>r' \<in> set (concat answers). referenceID r' = Inr i \<longrightarrow> ref_Version r' \<le> ref_Version r)"
      using list_all2_in [OF each] by blast
    with that show ?thesis by blast
  qed
  have "\<exists>i. referenceID r = Inr i \<and> (i = ?own
        \<or> (\<exists>newest \<in> set (concat answers). \<exists>rec. referenceID newest = Inr i \<and> ref_Version r \<le> ref_Version newest
            \<and> told cl newest rec
            \<and> (\<forall>v \<in> set volumes. \<forall>w \<in> set (record_volumes rec). apart (dc_json svc) v w)))"
    if r: "r \<in> set (concat answers)" for r
  proof -
    from ids r obtain i where i: "referenceID r = Inr i" by blast
    show ?thesis
    proof (cases "i = ?own")
      case False
      from newest [OF r i False] obtain n rec where "n \<in> set (concat answers)" "rec \<in> set hits"
        "referenceID n = Inr i" "ref_Version r \<le> ref_Version n" "told cl n rec" by blast
      with i apart [of rec] show ?thesis by blast
    qed (use i in blast)
  qed
  with asked show ?thesis by blast
qed

subsection \<open>The sample DSS asked\<close>

definition sample_record :: ProviderIntent where
  "sample_record = \<lparr>pi_Source = peer_source ''peer-1'' ''https://peer.example'' ''ovn-2'' peer_reference,
     pi_Intent = peer_intent ''peer-1'' peer_reference,
     pi_Volumes = [peer_volume ''peer-1'' 2 ''nominal'' 0 (zero_OperationalVolume\<lparr>ov_GeoJSON := ''x'', ov_MaxAltitudeM := 120,
       ov_AltitudeRef := AltitudeReferenceWGS84, ov_StartsAt := 20, ov_EndsAt := 30\<rparr>)],
     pi_OffNominalVolumes = []\<rparr>"

lemma sample_volume_read: "fromSCDVolume sample_client later_square = Inr (zero_OperationalVolume\<lparr>ov_GeoJSON := ''x'',
    ov_MaxAltitudeM := 120, ov_AltitudeRef := AltitudeReferenceWGS84, ov_StartsAt := 20, ov_EndsAt := 30\<rparr>)"
proof -
  have vertices: "list_all valid_vertex (box_polygon \<lparr>bo_minLat = 0, bo_maxLat = 1, bo_minLon = 0, bo_maxLon = 1\<rparr>)"
    by (simp add: box_polygon_def valid_vertex_def)
  then have "\<not> list_ex (\<lambda>v. \<not> valid_vertex v) (box_polygon \<lparr>bo_minLat = 0, bo_maxLat = 1, bo_minLon = 0, bo_maxLon = 1\<rparr>)"
    by (simp add: list_ex_iff list_all_iff)
  moreover have "\<not> crossesAntimeridian (fold include_position
      (map lng_lat (box_polygon \<lparr>bo_minLat = 0, bo_maxLat = 1, bo_minLon = 0, bo_maxLon = 1\<rparr>)) start_bounds)"
    using max_float64_large
    by (simp add: box_polygon_def lng_lat_def include_position_def start_bounds_def crossesAntimeridian_def)
  ultimately have "polygon_geoJSON sample_client (box_polygon \<lparr>bo_minLat = 0, bo_maxLat = 1, bo_minLon = 0, bo_maxLon = 1\<rparr>) = Inr ''x''"
    by (simp add: polygon_geoJSON_def crossing_or_def marshalPolygon_def sample_client_def)
      (simp add: box_polygon_def)
  then show ?thesis
    by (simp add: fromSCDVolume_def later_square_def scdGeometryGeoJSON_def scd_altitude_def)
      (simp add: zero_OperationalVolume_def)
qed

lemma peer_reference_fields:
  "ref_Id peer_reference = Inr ''peer-1''" "ref_State peer_reference = Accepted" "ref_Version peer_reference = 2"
  "ref_UssBaseUrl peer_reference = Inr ''https://peer.example''"
  by (simp_all add: peer_reference_def)

lemma sample_read: "fromSCDIntent sample_client peer_reference peer_details = Inr sample_record"
  by (simp add: fromSCDIntent_def validateReturnedReference_def referenceID_def volumes_of_def fromSCDVolumes_def
      validateVolumeSets_def peer_details_def sample_volume_read peer_reference_fields sample_record_def)

lemma sample_url: "validatePeerURL (scd_net sample_client) url False = None"
proof -
  have "to_lower (TrimSuffix ''peer.example'' ''.'') = ''peer.example''" "\<not> HasSuffix ''peer.example'' ''.localhost''"
    by code_simp+
  then show ?thesis by (simp add: sample_client_def two_homed_def validatePeerURL_def Let_def)
qed

lemma sample_told: "run_state (scd_GetOperationalIntent sample_client peer_reference) \<sigma> = (Inr peer_details, \<sigma>)"
  using sample_url
  by (simp add: scd_GetOperationalIntent_def) (simp add: peer_reference_def sample_client_def)

lemma sample_asked:
  "run_state (QueryOperationalIntentReferences sample_client area) \<sigma> = (Inr [peer_reference], \<sigma>)"
  by (simp add: QueryOperationalIntentReferences_def sample_client_def)

lemma sample_search:
  "run_state (scd_FindOperationalIntents sample_client \<lparr>q_Intent = sample_intent, q_Volumes = [wgs_volume]\<rparr>) \<sigma>
    = (([sample_record], None), \<sigma>)"
proof -
  have keep: "keep_reference ''op-1'' peer_reference ([], []) = ([(''peer-1'', peer_reference)], [])"
    by (simp add: keep_reference_def referenceID_def peer_reference_def)
  have own: "oi_ID sample_intent = ''op-1''" by (simp add: sample_intent_def)
  show ?thesis
    by (simp add: scd_FindOperationalIntents_def own sample_converts sample_asked keep sample_told sample_read join_errors_def)
qed

lemma sample_discovered:
  "run_state (discoverOperationalIntents (dc_providers peer_checker) sample_intent [wgs_volume]) \<sigma> =
    (([sample_record\<lparr>pi_Source := (pi_Source sample_record)\<lparr>src_ProviderID := ''interuss_scd''\<rparr>\<rparr>], []), \<sigma>)"
  by (simp add: discoverOperationalIntents_def peer_checker_def interuss_provider_def sample_search add_record_def Let_def)

lemma sample_check_clear:
  "\<exists>res. fst (fst (run_state (check peer_checker sample_intent [wgs_volume]) (NewStore, ()))) = Inr res
    \<and> dr_Posture res = DeconflictionPostureClear"
proof -
  have now: "run_state (dc_now peer_checker) (NewStore, ()) = (5, (NewStore, ()))" by (simp add: peer_checker_def)
  have "dimensionsUsable wgs_volume"
    using placed_usable [OF placed_wgs] .
  then have "evaluateConflicts (dc_json peer_checker) sample_intent [wgs_volume]
      [sample_record\<lparr>pi_Source := (pi_Source sample_record)\<lparr>src_ProviderID := ''interuss_scd''\<rparr>\<rparr>] = []"
    using placed_wgs
    by (simp add: evaluateConflicts_Nil peer_checker_def sample_record_def record_volumes_def apart_def timeWindowsOverlap_def
        dimensionsUsable_def peer_volume_def)
      (simp add: wgs_volume_def placed_volume_def sample_volume_def zero_OperationalVolume_def)
  with check_clear [OF now sample_discovered] show ?thesis by simp
qed

theorem clear_check_separates_dss_intents_witness:
  "\<exists>answers. list_all2 (asked sample_client) [wgs_volume] answers
    \<and> (\<forall>r \<in> set (concat answers). \<exists>i. referenceID r = Inr i \<and> (i = ''op-1''
        \<or> (\<exists>newest \<in> set (concat answers). \<exists>rec. referenceID newest = Inr i \<and> ref_Version r \<le> ref_Version newest
            \<and> told sample_client newest rec
            \<and> (\<forall>v \<in> set [wgs_volume]. \<forall>w \<in> set (record_volumes rec). apart square_json v w))))"
proof -
  from sample_check_clear obtain res where
    "fst (fst (run_state (check peer_checker sample_intent [wgs_volume]) (NewStore, ()))) = Inr res"
    "dr_Posture res = DeconflictionPostureClear" by blast
  from clear_check_separates_dss_intents [of peer_checker "[]" sample_client "[]", OF _ _ this]
  show ?thesis by (simp add: peer_checker_def sample_intent_def)
qed

end
