(* ===== verification/Spec2Isabelle.thy ===== *)
theory Spec2Isabelle
  imports Interleaving Mission_Import Preflight Conformance Relay_Control Dashboards Interuss
begin

text \<open>
  Aero Arc API: a verification of its core.

  \<^bold>\<open>The program.\<close> The repository is a service in Go for operators of uncrewed aircraft. An operator
  files an \<^emph>\<open>operational intent\<close>: a time window and a list of volumes of airspace for one
  aircraft. The intent moves from draft to submitted, accepted, active and complete; before it becomes
  active its volumes are compared with those of the other intents (\<^emph>\<open>deconfliction\<close>), a
  \<^emph>\<open>preflight\<close> evaluation must not have blocked it, and, where a DSS is configured, its reference
  must have been \<^emph>\<open>published\<close>. A flight is planned under an intent; a mission file is imported,
  checked against the volumes and \<^emph>\<open>deployed\<close> to the aircraft over a Relay; the flight starts only
  once the aircraft has read the mission back. While it flies, telemetry is judged against the volumes
  (\<^emph>\<open>conformance\<close>), and dashboards show the state of the fleet. Everything durable is kept in a
  store; the services of \<open>internal/service\<close> are stateless code over it.

  \<^bold>\<open>How the parts depend on each other.\<close> Handlers call the services. The intent service reaches the
  deconfliction service through the interface \<open>DeconflictionCoordinator\<close>; that service asks the
  airspace providers for peers, and its worker publishes to the DSS and tells the peers. The fleet
  service imports, deploys and starts, and reaches the Relays through \<open>MissionDeployer\<close>, which
  \<open>internal/relaycontrol\<close> implements. All of them share the store, whose operations hold one mutex.

  \<^bold>\<open>Layout.\<close> File names are under \<open>src/\<close>. Definitions keep the names of the functions of the
  source; a long function is split into named pieces, in the order of its statements, and each definition comes
  before its lemmas.

  Ground:
  \<^item> \<open>Prelude\<close>: instants, machine integers, Go maps as lists of pairs, loops over maps, \<open>sort.Slice\<close>,
    decimal text, errors; the generic contracts of tables, logs, leases and step relations.
  \<^item> \<open>Domain\<close>: the records and enumerations of \<open>internal/domain\<close>.
  \<^item> \<open>Numbers\<close>: \<open>strconv\<close>, IEEE rounding to \<open>float32\<close> and \<open>float64\<close>, printing of decimals.
  \<^item> \<open>Services\<close>: a service is a computation in the state monad over the store and a world of everything
    else; calls of the store are single steps between which others may run.

  The durable store, \<open>internal/store/durable/memory\<close> and the interface \<open>internal/store/durable\<close>:
  \<^item> \<open>Store_State\<close>: the record \<open>Store\<close>, a field per map or slice of the Go struct, and shared lookups.
  \<^item> \<open>Store_Fleet\<close>: operators, aircraft, batteries, limits, maintenance, records of checks and events.
  \<^item> \<open>Store_Intents\<close>: versions and revisions of intents, their volumes and conflict findings.
  \<^item> \<open>Store_Coordination\<close>: publications (the outbox a worker leases) and peer notifications.
  \<^item> \<open>Store_Missions\<close>: flights, missions, deployments, and what lets a flight start.
  \<^item> \<open>Spatial\<close>: \<open>spatial.go\<close>, coverage of a mission by a volume and candidates of a conflict.

  The services, \<open>internal/service\<close>:
  \<^item> \<open>Conflict\<close> and \<open>Deconfliction\<close>: \<open>deconfliction/conflict.go\<close> and \<open>deconfliction/deconfliction.go\<close>,
    with the local provider of \<open>internal/airspaceprovider\<close>.
  \<^item> \<open>Peer_Address\<close> and \<open>Interuss\<close>: \<open>internal/airspaceprovider/interuss/provider.go\<close>, the provider that asks a
    DSS for the intents of other suppliers, and the rules for the hosts it contacts.
  \<^item> \<open>Publication\<close>: \<open>deconfliction/publication.go\<close>, the reconciliation of publications and its worker.
  \<^item> \<open>Intent_Service\<close>: \<open>intent_service.go\<close> and \<open>version_helpers.go\<close>, the lifecycle of intents.
  \<^item> \<open>Coordinator\<close>: the two above put together as \<open>cmd/aero-arc-api/main.go\<close> does.
  \<^item> \<open>Interleaving\<close>: concurrent requests and worker rounds as an inductive step relation.
  \<^item> \<open>Preflight\<close>: \<open>preflight/service.go\<close>.
  \<^item> \<open>Mission_Deployment\<close>, \<open>Flights\<close>, \<open>Mission_Import\<close>: \<open>mission_deployment.go\<close>, the writing half of
    \<open>fleet_service.go\<close>, and \<open>mission_import.go\<close>.
  \<^item> \<open>Relay_Control\<close>: \<open>internal/relaycontrol/service.go\<close> and \<open>grpc_pool.go\<close>.
  \<^item> \<open>Conformance\<close>: \<open>conformance_service.go\<close>.
  \<^item> \<open>Live_State\<close>, \<open>Dashboards\<close>: the reading half of \<open>fleet_service.go\<close>, with the records of
    \<open>internal/readmodel\<close> and \<open>internal/domain/live_telemetry.go\<close>.

  \<^bold>\<open>How code and model correspond.\<close> A struct is a record whose fields carry the initials of the struct; a string
  type with constants is a datatype with one more constructor for other text; a Go map is a list of
  pairs with distinct keys. Where Go iterates a map in no fixed order and the order matters, the model
  either sorts as the code does afterwards or takes the order from a parameter. A function
  that returns a value and an error returns \<open>Inl\<close> of the error or \<open>Inr\<close> of the value; one that returns an error
  only returns an option. An operation of the store is a function of the state, atomic
  because the code holds the mutex throughout. A service is a computation over the pair of store and world.

  Everything outside the repository is a parameter, held in the record of the service that uses it
  (\<open>IntentService\<close>, \<open>DeconflictionService\<close>, \<open>FleetService\<close>, \<open>RelayService\<close> and so on): clocks, \<open>uuid\<close>, \<open>sha256\<close>,
  \<open>encoding/json\<close>, the client package of the DSS, the Registry, gRPC, the telemetry store. A
  parameter may change the store and the world, so what other requests do while the service waits for a
  collaborator is part of it. The services of missions, preflight, conformance and the fleet also run a
  computation of others before every call of the store (\<open>store_call\<close>, \<open>store_read\<close>), so no property of
  theirs assumes that two calls see the same store unless it says so.

  \<^bold>\<open>Contracts.\<close> Each locale is a contract and is interpreted on the model of the code.
  \<^item> \<open>weak_order\<close>: what \<open>sort.Slice\<close> needs of its comparison, shown for every comparison in the code.
  \<^item> \<open>upsert_table\<close>, \<open>id_log\<close>, \<open>store_log\<close>: tables and slices that the store only writes by identity.
  \<^item> \<open>cas_table\<close> and \<open>lease_table\<close>: writes that carry the revision read, and exclusive claims of work.
  \<^item> \<open>fenced_intent_write\<close> and \<open>fenced_pair\<close>: each write of an intent changes its latest version
    only, under the revision read, so that of two writers with the same revision one loses.
  \<^item> \<open>idempotent_create\<close>: creation by a key of the caller, for missions and for deployments.
  \<^item> \<open>lifecycle_invariant\<close>, \<open>publication_invariant\<close>, \<open>worker_invariant\<close>, \<open>deployment_invariant\<close>:
    what an invariant of the store must satisfy for every request of a service to keep it.
  \<^item> \<open>invariant_system\<close>: an invariant of the states a step relation reaches.

  \<^bold>\<open>What the theorems show.\<close>
  \<^item> Airspace: a clear check keeps the volumes apart from all current authorised ones (\<open>Conflict\<close>,
    \<open>Deconfliction\<close>) and from all that the DSS names, in an area that covers the volume (\<open>Interuss\<close>); an activation passed the check, readiness and the DSS (\<open>Intent_Service\<close>, \<open>Coordinator\<close>);
    a blocked preflight refuses it (\<open>Preflight\<close>); a publication is confirmed only behind a clear check (\<open>Publication\<close>).
  \<^item> Concurrency: every lifecycle request refines an atomic compare and swap along an edge
    of the lifecycle; in every interleaving there is one active intent per aircraft and no publication is forgotten;
    a stale worker is fenced (\<open>Store_Coordination\<close>).
  \<^item> Missions: the parser accepts only flyable missions and inverts the printer; an imported
    mission lies inside its volume; no mission is dispatched before the store says so; a flight starts only behind
    a verified readback, one deployment and one flight per aircraft; the loop recording an outcome ends.
  \<^item> Relays: only the answer of a Relay at which the Registry placed the Agent counts, an Agent that
    moved is reached, and there are at most two deliveries.
  \<^item> Monitoring: a sample conforms exactly when a volume of the active version contains it, the
    verdict agrees with the coverage test of the import, and repeating a sample changes nothing.
  \<^item> Hosts: the address filter on machine words accepts exactly the public address space.
  \<^item> Views: readiness, the map, connections, and the overlay of live conformance are characterised exactly.
  \<^item> Deviations: some theorems show behaviour that contradicts a comment or a sibling function
    (keys that collide, repeated vertices, expired first dispatches, dropped reviews, letter case of a severity).

  \<^bold>\<open>Bounds and fuel.\<close> A round of the worker claims a batch of at most 20 publications and loops at most that often,
  as the code does. The loop that records an outcome after a revision conflict has fuel; two rounds
  more than others write the record are shown to be enough. Relay control tries twice, as the code does. The
  overlay of conformance asks the Registry in batches of 250. The nesting of GeoJSON features is bounded by the length
  of the text. All other recursion is structural.

  \<^bold>\<open>Idealisations.\<close> A \<open>float64\<close> is a real number, finite and without rounding, except in the import of missions and in
  printed percentages, where rounding is modelled. Instants are unbounded integers of nanoseconds; revisions,
  versions and counters of the store do not wrap. Words keep their width in the protocol messages and in what is
  parsed. A request is never cancelled by its context except through errors its collaborators return.

  \<^bold>\<open>Not modelled.\<close>
  \<^item> \<open>internal/store/durable/postgres\<close>: SQL text run by a database, with the same interface as the store in memory.
  \<^item> \<open>publisher.go\<close> and \<open>details.go\<close> of \<open>internal/airspaceprovider/interuss\<close>: they encode requests for the client package of
    the DSS; the worker takes them as the parameter \<open>Publisher\<close>.
  \<^item> \<open>internal/httpapi\<close>: routing, JSON and status codes around the services.
  \<^item> \<open>internal/store/telemetry\<close>, \<open>internal/store/replay\<close>, \<open>internal/registry\<close>: queries of InfluxDB, and stand-ins
    in memory for tests; the services take them as parameters.
  \<^item> \<open>conformance_history.go\<close> passes a query on to a third-party client. \<open>tls.go\<close>, \<open>internal/config\<close> and the rest of
    \<open>cmd\<close> set up certificates, flags, listeners and shutdown.
  \<^item> \<open>internal/seed\<close> and \<open>internal/testsupport\<close>: data and containers for demonstrations and tests.
\<close>

end
